(* ===== verification/CPrelude.thy ===== *)
theory CPrelude
  imports Main "HOL-Library.Word" "HOL-Library.Signed_Division"
begin

text \<open>
  What every component of the model shares: the machine integers of the target (arm64, LP64,
  so \<^verbatim>\<open>int\<close> is 32 and \<^verbatim>\<open>long\<close> 64 bits wide), the faults that stand for undefined
  behaviour of C, the error and output buffers, C strings and the pieces of the C library
  (\<^verbatim>\<open>ctype.h\<close>, \<^verbatim>\<open>strtol\<close>, the integer conversions of \<^verbatim>\<open>printf\<close>) the code calls.
\<close>

unbundle bit_operations_syntax

section \<open>Machine integers, faults and results\<close>

type_synonym u8 = "8 word"
type_synonym u32 = "32 word"
type_synonym u64 = "64 word"

text \<open>
  An access outside an allocated block, through a freed or a NULL pointer, a division that
  traps and a shift by too much are undefined in C. The model does not continue after them: an operation that may do one
  returns a sum with the fault on the left.
\<close>

datatype fault = OutOfBounds | NullDeref | UseAfterFree | DoubleFree | DivTrap | BadShift | Diverges

type_synonym 'a run = "fault + 'a"

fun bind_run :: "'a run \<Rightarrow> ('a \<Rightarrow> 'b run) \<Rightarrow> 'b run" where
  "bind_run (Inl f) g = Inl f"
| "bind_run (Inr x) g = g x"

text \<open>Facts about the representation of data, used by the proofs about the containers.\<close>

named_theorems repr_simps

lemma bind_run_Inr: "bind_run r g = Inr y \<longleftrightarrow> (\<exists>x. r = Inr x \<and> g x = Inr y)"
  by (cases r) auto

lemma bind_run_cong [fundef_cong]:
  assumes "r = r'" and "\<And>x. r' = Inr x \<Longrightarrow> g x = g' x"
  shows "bind_run r g = bind_run r' g'"
  using assms by (cases r') auto

text \<open>A loop over a list whose body may fault.\<close>

fun run_list :: "('a \<Rightarrow> 's \<Rightarrow> 's run) \<Rightarrow> 'a list \<Rightarrow> 's \<Rightarrow> 's run" where
  "run_list f [] s = Inr s"
| "run_list f (x # xs) s = bind_run (f x s) (\<lambda>s1. run_list f xs s1)"

text \<open>A property every step keeps, and steps that do not fault, carry over to the loop.\<close>

lemma run_list_inv:
  assumes "\<And>x s. x \<in> set xs \<Longrightarrow> P s \<Longrightarrow> \<exists>s'. f x s = Inr s' \<and> P s'" and "P s"
  shows "\<exists>s'. run_list f xs s = Inr s' \<and> P s'"
  using assms
proof (induction xs arbitrary: s)
  case Nil
  then show ?case by simp
next
  case (Cons x xs)
  from Cons.prems obtain s1 where "f x s = Inr s1" "P s1" by auto
  moreover from this have "\<exists>s'. run_list f xs s1 = Inr s' \<and> P s'"
    by (intro Cons.IH) (use Cons.prems in auto)
  ultimately show ?case by simp
qed

definition LONG_MIN :: u64 where
  "LONG_MIN = 0x8000000000000000"

text \<open>Division of C and of arm64 \<^verbatim>\<open>sdiv\<close>: towards zero, at 64 bits.\<close>

definition c_div :: "u64 \<Rightarrow> u64 \<Rightarrow> u64" where
  "c_div a b = word_of_int (sint a sdiv sint b)"

definition c_mod :: "u64 \<Rightarrow> u64 \<Rightarrow> u64" where
  "c_mod a b = word_of_int (sint a smod sint b)"

lemma c_div_examples:
  "c_div (- 7) 2 = - 3" "c_div 7 2 = 3" "c_div LONG_MIN (- 1) = LONG_MIN"
  by (simp_all add: c_div_def LONG_MIN_def signed_divide_int_def)

section \<open>Growing text buffers\<close>

text \<open>
  The code reports errors and output by appending formatted text to a \<^verbatim>\<open>char **\<close> whose
  NULL means "nothing yet". Such a buffer is a \<open>string option\<close>; an operation that takes an
  \<^verbatim>\<open>error\<close> argument returns the new buffer, and \<^verbatim>\<open>if(*error)\<close> is the test \<open>\<noteq> None\<close>.
  \<open>quoted s\<close> is the text \<open>s\<close> between single quotation marks.
\<close>

type_synonym cbuf = "string option"

definition quoted :: "string \<Rightarrow> string" where
  "quoted s = CHR 0x27 # s @ [CHR 0x27]"

section \<open>Characters and C strings\<close>

text \<open>
  A C string is the list of its characters before the terminating NUL. \<open>cchar s i\<close> is the read
  \<^verbatim>\<open>s[i]\<close> for an index up to and including the terminator.
\<close>

abbreviation NUL :: char where
  "NUL \<equiv> CHR 0x00"

definition cchar :: "string \<Rightarrow> nat \<Rightarrow> char" where
  "cchar s i = (if i < length s then s ! i else NUL)"

lemma cchar_append: "cchar (xs @ ys) (length xs) = (case ys of [] \<Rightarrow> NUL | y # _ \<Rightarrow> y)"
  by (auto simp: cchar_def nth_append split: list.splits)

lemma cchar_append_Cons [simp]: "cchar (xs @ y # ys) (length xs) = y"
  by (simp add: cchar_append)

lemma cchar_append_left: "i < length xs \<Longrightarrow> cchar (xs @ ys) i = xs ! i"
  by (simp add: cchar_def nth_append)

text \<open>The \<^verbatim>\<open>ctype.h\<close> classes in the C locale; \<^verbatim>\<open>isnumber\<close> is the BSD name of \<^verbatim>\<open>isdigit\<close>.\<close>

definition isdigit :: "char \<Rightarrow> bool" where
  "isdigit c \<longleftrightarrow> 48 \<le> (of_char c :: nat) \<and> (of_char c :: nat) \<le> 57"

definition is_af :: "char \<Rightarrow> bool" where
  "is_af c \<longleftrightarrow> 97 \<le> (of_char c :: nat) \<and> (of_char c :: nat) \<le> 102"

definition tolower :: "char \<Rightarrow> char" where
  "tolower c = (if 65 \<le> (of_char c :: nat) \<and> (of_char c :: nat) \<le> 90
     then char_of ((of_char c :: nat) + 32) else c)"

definition toupper :: "char \<Rightarrow> char" where
  "toupper c = (if 97 \<le> (of_char c :: nat) \<and> (of_char c :: nat) \<le> 122
     then char_of ((of_char c :: nat) - 32) else c)"

definition isalpha :: "char \<Rightarrow> bool" where
  "isalpha c \<longleftrightarrow> 97 \<le> (of_char (tolower c) :: nat) \<and> (of_char (tolower c) :: nat) \<le> 122"

definition isalnum :: "char \<Rightarrow> bool" where
  "isalnum c \<longleftrightarrow> isdigit c \<or> isalpha c"

definition isxdigit :: "char \<Rightarrow> bool" where
  "isxdigit c \<longleftrightarrow> isdigit c \<or> is_af (tolower c)"

definition isblank :: "char \<Rightarrow> bool" where
  "isblank c \<longleftrightarrow> c = CHR '' '' \<or> c = CHR 0x09"

definition isspace :: "char \<Rightarrow> bool" where
  "isspace c \<longleftrightarrow> c = CHR '' '' \<or> 9 \<le> (of_char c :: nat) \<and> (of_char c :: nat) \<le> 13"

lemmas ctype_simps = isdigit_def isxdigit_def is_af_def tolower_def isblank_def isspace_def

section \<open>Numbers and their text\<close>

text \<open>The value of a character as a digit of base up to 36, as \<^verbatim>\<open>strtol\<close> reads it.\<close>

definition digit_val :: "char \<Rightarrow> nat option" where
  "digit_val c =
     (if isdigit c then Some (of_char c - 48)
      else if isalpha c then Some (of_char (tolower c) - 87)
      else None)"

definition is_base_digit :: "nat \<Rightarrow> char \<Rightarrow> bool" where
  "is_base_digit b c = (case digit_val c of None \<Rightarrow> False | Some d \<Rightarrow> d < b)"

fun digits_value :: "nat \<Rightarrow> int \<Rightarrow> string \<Rightarrow> int" where
  "digits_value b acc [] = acc"
| "digits_value b acc (c # cs) =
     digits_value b (acc * int b + (case digit_val c of None \<Rightarrow> 0 | Some d \<Rightarrow> int d)) cs"

text \<open>
  \<^verbatim>\<open>strtol(s, &endptr, base)\<close> for the bases 0, 10 and 16 the code uses: leading white space, a
  sign, the \<^verbatim>\<open>0x\<close> prefix (which counts only when a hexadecimal digit follows), the longest run of
  digits, and saturation at the ends of \<^verbatim>\<open>long\<close>. The result is the value and the text from
  \<^verbatim>\<open>endptr\<close> on; with no digits the value is 0 and \<^verbatim>\<open>endptr\<close> is the start of the string.
\<close>

definition has_0x :: "string \<Rightarrow> bool" where
  "has_0x s \<longleftrightarrow> (case s of
      z # x # d # _ \<Rightarrow> z = CHR ''0'' \<and> (x = CHR ''x'' \<or> x = CHR ''X'') \<and> isxdigit d
    | _ \<Rightarrow> False)"

definition strtol_base :: "nat \<Rightarrow> string \<Rightarrow> nat" where
  "strtol_base base s =
     (if base \<noteq> 0 then base
      else if has_0x s then 16
      else (case s of c # _ \<Rightarrow> if c = CHR ''0'' then 8 else 10 | [] \<Rightarrow> 10))"

definition saturate :: "int \<Rightarrow> u64" where
  "saturate i = (if i \<ge> 2 ^ 63 then 0x7FFFFFFFFFFFFFFF
     else if i < - (2 ^ 63) then 0x8000000000000000 else word_of_int i)"

definition strtol_sign :: "string \<Rightarrow> bool \<times> string" where
  "strtol_sign s = (case s of
      c # r \<Rightarrow> if c = CHR ''-'' then (True, r) else if c = CHR ''+'' then (False, r) else (False, s)
    | [] \<Rightarrow> (False, []))"

definition strtol :: "string \<Rightarrow> nat \<Rightarrow> u64 \<times> string" where
  "strtol s base =
     (let (neg, s1) = strtol_sign (dropWhile isspace s);
          b = strtol_base base s1;
          s2 = (if b = 16 \<and> has_0x s1 then drop 2 s1 else s1);
          ds = takeWhile (is_base_digit b) s2;
          v = digits_value b 0 ds
      in if ds = [] then (0, s) else (saturate (if neg then - v else v), dropWhile (is_base_digit b) s2))"

text \<open>\<^verbatim>\<open>%d\<close>, \<^verbatim>\<open>%ld\<close> and \<^verbatim>\<open>%#lx\<close>: decimal and hexadecimal text of a number.\<close>

definition digit_char :: "nat \<Rightarrow> char" where
  "digit_char d = (if d < 10 then char_of (d + 48) else char_of (d + 87))"

function show_base :: "nat \<Rightarrow> int \<Rightarrow> string" where
  "show_base b n =
     (if n < int b \<or> b < 2 then [digit_char (nat n)]
      else show_base b (n div int b) @ [digit_char (nat (n mod int b))])"
  by pat_completeness auto
termination
proof (relation "measure (nat \<circ> snd)", goal_cases)
  case 1
  show ?case by simp
next
  case (2 b n)
  then have "0 < n" "1 < int b" by auto
  then have "n div int b < n" by (rule int_div_less_self)
  with \<open>0 < n\<close> show ?case by simp
qed

declare show_base.simps [simp del]

definition show_dec :: "int \<Rightarrow> string" where
  "show_dec i = (if i < 0 then CHR ''-'' # show_base 10 (- i) else show_base 10 i)"

definition show_hex :: "u64 \<Rightarrow> string" where
  "show_hex w = (if w = 0 then ''0'' else ''0x'' @ show_base 16 (uint w))"

text \<open>Reading the digits of a number gives the number back.\<close>

lemma digit_chars:
  "d < 16 \<Longrightarrow> digit_val (digit_char d) = Some d \<and> isxdigit (digit_char d) \<and>
    (d < 10 \<longrightarrow> isdigit (digit_char d)) \<and> (10 \<le> d \<longrightarrow> is_af (digit_char d))"
  by (cases "d < 10") (auto simp: digit_char_def digit_val_def isalpha_def ctype_simps)

lemma digits_value_append:
  "digits_value b acc (xs @ ys) = digits_value b (digits_value b acc xs) ys"
  by (induction xs arbitrary: acc) auto

lemma show_base_value:
  assumes "2 \<le> b" and "b \<le> 16" and "0 \<le> n"
  shows "digits_value b 0 (show_base b n) = n"
  using assms
proof (induction b n rule: show_base.induct)
  case (1 b n)
  show ?case
  proof (cases "n < int b")
    case True
    with "1.prems" digit_chars [of "nat n"] show ?thesis by (simp add: show_base.simps [of b n])
  next
    case False
    have "n mod int b < int b" using "1.prems" by simp
    then have m: "nat (n mod int b) < 16" "0 \<le> n div int b"
      using "1.prems" by (linarith, simp add: pos_imp_zdiv_nonneg_iff)
    have "digits_value b 0 (show_base b (n div int b)) = n div int b"
      using "1.IH" "1.prems" False m(2) by simp
    then show ?thesis using False "1.prems" digit_chars [OF m(1)]
      by (simp add: show_base.simps [of b n] digits_value_append)
  qed
qed

lemma show_base_digits:
  assumes "2 \<le> b" and "b \<le> 16" and "0 \<le> n"
  shows "show_base b n \<noteq> [] \<and> (\<forall>c \<in> set (show_base b n). \<exists>d < b. c = digit_char d)"
  using assms
proof (induction b n rule: show_base.induct)
  case (1 b n)
  show ?case
  proof (cases "n < int b")
    case True
    with "1.prems" have "nat n < b" by auto
    with True show ?thesis by (auto simp: show_base.simps [of b n])
  next
    case False
    have m: "nat (n mod int b) < b" "0 \<le> n div int b"
      using "1.prems" pos_mod_bound [of "int b" n] by (auto simp: nat_less_iff pos_imp_zdiv_nonneg_iff)
    have "\<forall>c \<in> set (show_base b (n div int b)). \<exists>d < b. c = digit_char d"
      using "1.IH" "1.prems" False m(2) by simp
    with m(1) show ?thesis using False "1.prems" by (auto simp: show_base.simps [of b n])
  qed
qed

lemma show_base_first:
  assumes "2 \<le> b" and "b \<le> 16" and "0 < n"
  shows "hd (show_base b n) \<noteq> CHR ''0''"
  using assms
proof (induction b n rule: show_base.induct)
  case (1 b n)
  show ?case
  proof (cases "n < int b")
    case True
    with "1.prems" have "0 < nat n" "nat n < 16" by auto
    with digit_chars [of "nat n"] digit_chars [of 0] have "digit_char (nat n) \<noteq> digit_char 0"
      by (metis less_numeral_extra(3) option.inject zero_less_numeral)
    moreover have "digit_char 0 = CHR ''0''" by code_simp
    ultimately show ?thesis using True by (simp add: show_base.simps [of b n])
  next
    case False
    then have "0 < n div int b" using "1.prems" by (simp add: pos_imp_zdiv_pos_iff)
    then have "hd (show_base b (n div int b)) \<noteq> CHR ''0''" and "show_base b (n div int b) \<noteq> []"
      using "1.IH" "1.prems" False show_base_digits [of b "n div int b"] by auto
    then show ?thesis using False "1.prems" by (simp add: show_base.simps [of b n])
  qed
qed

lemma digit_char_base_digit: "d < b \<Longrightarrow> b \<le> 16 \<Longrightarrow> is_base_digit b (digit_char d)"
  using digit_chars [of d] by (simp add: is_base_digit_def)

lemma takeWhile_all_append:
  "(\<forall>x \<in> set xs. P x) \<Longrightarrow> (ys = [] \<or> \<not> P (hd ys)) \<Longrightarrow>
    takeWhile P (xs @ ys) = xs \<and> dropWhile P (xs @ ys) = ys"
  by (induction xs) (auto simp: takeWhile_eq_Nil_iff dropWhile_eq_self_iff)

lemma hex_digit_xdigit: "is_base_digit 16 c \<Longrightarrow> isxdigit c"
  by (auto simp: is_base_digit_def digit_val_def isalpha_def isxdigit_def is_af_def isdigit_def split: if_splits)

lemma strtol_show_hex: "strtol (show_hex w) 0 = (saturate (uint w), [])"
proof (cases "w = 0")
  case True
  have "strtol ''0'' 0 = (saturate 0, [])" by code_simp
  with True show ?thesis by (simp add: show_hex_def)
next
  case False
  define ds where "ds = show_base 16 (uint w)"
  have ds: "ds \<noteq> []" "\<forall>c \<in> set ds. is_base_digit 16 c"
    using show_base_digits [of 16 "uint w"] digit_char_base_digit by (auto simp: ds_def)
  have h: "has_0x (''0x'' @ ds)" using ds by (cases ds) (auto simp: has_0x_def hex_digit_xdigit)
  have s: "dropWhile isspace (''0x'' @ ds) = ''0x'' @ ds" by (simp add: isspace_def)
  have g: "strtol_sign (''0x'' @ ds) = (False, ''0x'' @ ds)" by (simp add: strtol_sign_def)
  have t: "takeWhile (is_base_digit 16) ds = ds" "dropWhile (is_base_digit 16) ds = []"
    using takeWhile_all_append [of ds "is_base_digit 16" "[]"] ds by auto
  have v: "digits_value 16 0 ds = uint w" using show_base_value [of 16 "uint w"] by (simp add: ds_def)
  have "strtol (''0x'' @ ds) 0 = (saturate (uint w), [])"
    unfolding strtol_def s g using h v ds(1) by (simp add: strtol_base_def Let_def t)
  with False show ?thesis by (simp add: show_hex_def ds_def)
qed

lemma dec_digit: "is_base_digit 10 c \<Longrightarrow> isdigit c \<and> \<not> isspace c \<and> c \<noteq> CHR ''-'' \<and> c \<noteq> CHR ''+''"
  by (auto simp: is_base_digit_def digit_val_def isalpha_def isdigit_def isspace_def split: if_splits)

lemma strtol_digits:
  assumes "0 < n" "b = 0 \<or> b = 10"
  shows "strtol_base b (show_base 10 n) = 10" "takeWhile (is_base_digit 10) (show_base 10 n) = show_base 10 n"
    "dropWhile (is_base_digit 10) (show_base 10 n) = []" "digits_value 10 0 (show_base 10 n) = n"
    "\<not> has_0x (show_base 10 n)" "\<exists>c r. show_base 10 n = c # r \<and> is_base_digit 10 c"
proof -
  have ds: "show_base 10 n \<noteq> []" "\<forall>c \<in> set (show_base 10 n). is_base_digit 10 c"
    using show_base_digits [of 10 n] digit_char_base_digit assms(1) by auto
  have "\<not> is_base_digit 10 (CHR ''x'') \<and> \<not> is_base_digit 10 (CHR ''X'')" by code_simp
  then show x: "\<not> has_0x (show_base 10 n)" using ds(2) by (auto simp: has_0x_def split: list.splits)
  have "hd (show_base 10 n) \<noteq> CHR ''0''" by (rule show_base_first) (use assms in simp_all)
  then show "strtol_base b (show_base 10 n) = 10" using x ds(1) assms(2) by (cases "show_base 10 n") (auto simp: strtol_base_def)
  show "takeWhile (is_base_digit 10) (show_base 10 n) = show_base 10 n"
    "dropWhile (is_base_digit 10) (show_base 10 n) = []"
    using takeWhile_all_append [of "show_base 10 n" "is_base_digit 10" "[]"] ds by auto
  show "digits_value 10 0 (show_base 10 n) = n" using show_base_value [of 10 n] assms(1) by simp
  show "\<exists>c r. show_base 10 n = c # r \<and> is_base_digit 10 c" using ds by (cases "show_base 10 n") auto
qed

lemma strtol_show_dec:
  assumes "- (2 ^ 63) \<le> i" "i < 2 ^ 63" "b = 0 \<or> b = 10"
  shows "strtol (show_dec i) b = (word_of_int i, [])"
proof (cases "i = 0")
  case True
  have "strtol ''0'' 0 = (0, []) \<and> strtol ''0'' 10 = (0, [])" by code_simp
  moreover have "show_dec 0 = ''0''" by code_simp
  ultimately show ?thesis using True assms(3) by auto
next
  case False
  define n where "n = (if i < 0 then - i else i)"
  have n: "0 < n" using False by (simp add: n_def)
  note d = strtol_digits [OF n assms(3)]
  obtain c r where c: "show_base 10 n = c # r" "is_base_digit 10 c" using d(6) by blast
  have t: "show_dec i = (if i < 0 then CHR ''-'' # show_base 10 n else show_base 10 n)" by (simp add: show_dec_def n_def)
  have s: "dropWhile isspace (show_dec i) = show_dec i"
    using dec_digit [OF c(2)] by (auto simp: t c(1) isspace_def)
  have g: "strtol_sign (show_dec i) = (i < 0, show_base 10 n)"
    using dec_digit [OF c(2)] by (auto simp: t strtol_sign_def c(1))
  have "saturate i = word_of_int i" using assms by (simp add: saturate_def)
  then show ?thesis
    unfolding strtol_def s g using d(1-5) c(1) by (simp add: Let_def) (auto simp: n_def)
qed

text \<open>The length of the text of a number.\<close>

lemma show_base_length:
  assumes "2 \<le> b" "0 \<le> n" "n < int b ^ k" "0 < k"
  shows "length (show_base b n) \<le> k"
  using assms
proof (induction k arbitrary: n)
  case 0
  then show ?case by simp
next
  case (Suc k)
  show ?case
  proof (cases "n < int b")
    case True
    then show ?thesis by (simp add: show_base.simps [of b n])
  next
    case False
    then have "0 < k" using Suc.prems by (cases k) auto
    moreover have "n div int b < int b ^ k"
    proof -
      have "n < int b * int b ^ k" using Suc.prems by simp
      moreover have "int b * (n div int b) \<le> n"
        using mult_div_mod_eq [of "int b" n] pos_mod_sign [of "int b" n] Suc.prems by linarith
      ultimately have "int b * (n div int b) < int b * int b ^ k" by linarith
      then show ?thesis using Suc.prems by simp
    qed
    ultimately have "length (show_base b (n div int b)) \<le> k"
      using Suc.IH [of "n div int b"] Suc.prems by (simp add: pos_imp_zdiv_nonneg_iff)
    then show ?thesis using False Suc.prems by (simp add: show_base.simps [of b n])
  qed
qed

lemma show_dec_length:
  assumes "- (2 ^ 63) \<le> i" "i < 2 ^ 63"
  shows "length (show_dec i) \<le> 20"
  using assms show_base_length [of 10 i 19] show_base_length [of 10 "- i" 19] by (auto simp: show_dec_def)

end
