(* ===== verification/Containers.thy ===== *)
theory Containers
  imports CPrelude
begin

text \<open>
  The containers of \<^verbatim>\<open>source/linkedlist.c\<close>, \<^verbatim>\<open>stack.c\<close>, \<^verbatim>\<open>queue.c\<close> and \<^verbatim>\<open>array.c\<close>.
  A \<^verbatim>\<open>void *\<close> element is an option, \<open>None\<close> for NULL. The linked list is modelled twice: on a heap
  of nodes, as the code walks it, and as a plain list, which the other components use; the first
  refines the second. Stack and queue keep their block of cells and their index; the interfaces
  \<open>lifo\<close> and \<open>fifo\<close> say what their clients rely on. Accesses of the array outside its block
  are faults.
\<close>

type_synonym 'a vptr = "'a option"

section \<open>Linked list\<close>

subsection \<open>On a heap of nodes\<close>

text \<open>Addresses are natural numbers, 0 is NULL; a freed or never allocated node is \<open>None\<close>.\<close>

record 'a node =
  ndata :: "'a vptr"
  nnext :: nat

type_synonym 'a node_heap = "nat \<rightharpoonup> 'a node"

text \<open>
  A list is the address of its front node. The address \<^verbatim>\<open>malloc\<close> returns is an argument. The walks
  over \<^verbatim>\<open>next\<close> are \<open>None\<close> when they do not return (a cycle, or a pointer to no node).
\<close>

definition linkedlist_new :: nat where
  "linkedlist_new = 0"

definition linkedlist_add_front :: "'a node_heap \<Rightarrow> nat \<Rightarrow> nat \<Rightarrow> 'a vptr \<Rightarrow> 'a node_heap \<times> nat" where
  "linkedlist_add_front h front a d =
     (if front = 0 then (h(a \<mapsto> \<lparr>ndata = d, nnext = 0\<rparr>), a)
      else (h(a \<mapsto> \<lparr>ndata = d, nnext = front\<rparr>), a))"

partial_function (option) last_node :: "'a node_heap \<Rightarrow> nat \<Rightarrow> nat option" where
  "last_node h cur =
     (case h cur of None \<Rightarrow> None
      | Some n \<Rightarrow> if nnext n \<noteq> 0 then last_node h (nnext n) else Some cur)"

definition linkedlist_add ::
    "'a node_heap \<Rightarrow> nat \<Rightarrow> nat \<Rightarrow> 'a vptr \<Rightarrow> ('a node_heap \<times> nat) option" where
  "linkedlist_add h front a d =
     (if front = 0 then Some (linkedlist_add_front h front a d)
      else if d = None then Some (h, front)
      else (case last_node h front of None \<Rightarrow> None
            | Some l \<Rightarrow> (case h l of None \<Rightarrow> None
               | Some n \<Rightarrow> Some (h(a \<mapsto> \<lparr>ndata = d, nnext = 0\<rparr>, l \<mapsto> n\<lparr>nnext := a\<rparr>), front))))"

partial_function (option) contains_from :: "'a node_heap \<Rightarrow> nat \<Rightarrow> 'a vptr \<Rightarrow> bool option" where
  "contains_from h cur d =
     (case h cur of None \<Rightarrow> None
      | Some n \<Rightarrow>
          if nnext n \<noteq> 0 then (if ndata n = d then Some True else contains_from h (nnext n) d)
          else Some False)"

definition linkedlist_contains :: "'a node_heap \<Rightarrow> nat \<Rightarrow> 'a vptr \<Rightarrow> bool option" where
  "linkedlist_contains h front d = (if front = 0 then Some False else contains_from h front d)"

partial_function (option) delete_from :: "'a node_heap \<Rightarrow> nat \<Rightarrow> 'a vptr \<Rightarrow> 'a node_heap option" where
  "delete_from h cur d =
     (case h cur of None \<Rightarrow> None
      | Some p \<Rightarrow>
          if nnext p \<noteq> 0 then
            (case h (nnext p) of None \<Rightarrow> None
             | Some n \<Rightarrow> if ndata n = d then Some (h(cur \<mapsto> p\<lparr>nnext := nnext n\<rparr>))
                        else delete_from h (nnext p) d)
          else Some h)"

definition linkedlist_delete ::
    "'a node_heap \<Rightarrow> nat \<Rightarrow> 'a vptr \<Rightarrow> ('a node_heap \<times> nat) option" where
  "linkedlist_delete h front d =
     (if front = 0 then Some (h, front)
      else if d = None then Some (h, front)
      else (case h front of None \<Rightarrow> None
            | Some n \<Rightarrow> if ndata n = d then Some (h, nnext n)
                       else map_option (\<lambda>h'. (h', front)) (delete_from h front d)))"

declare last_node.simps [code] contains_from.simps [code] delete_from.simps [code]

text \<open>\<^verbatim>\<open>free(list->front)\<close>: only the front node goes back to the allocator.\<close>

definition linkedlist_free :: "'a node_heap \<Rightarrow> nat \<Rightarrow> 'a node_heap" where
  "linkedlist_free h front = (if front = 0 then h else h(front := None))"

subsection \<open>As a list of its data\<close>

definition ll_add :: "'a vptr list \<Rightarrow> 'a vptr \<Rightarrow> 'a vptr list" where
  "ll_add xs d = (if xs = [] then [d] else if d = None then xs else xs @ [d])"

definition ll_delete :: "'a vptr list \<Rightarrow> 'a vptr \<Rightarrow> 'a vptr list" where
  "ll_delete xs d = (if d = None then xs else remove1 d xs)"

definition ll_contains :: "'a vptr list \<Rightarrow> 'a vptr \<Rightarrow> bool" where
  "ll_contains xs d \<longleftrightarrow> d \<in> set (butlast xs)"

text \<open>\<open>chain h p ps\<close>: from \<open>p\<close> the \<^verbatim>\<open>next\<close> pointers lead through the nodes \<open>ps\<close> to NULL.\<close>

primrec chain :: "'a node_heap \<Rightarrow> nat \<Rightarrow> nat list \<Rightarrow> bool" where
  "chain h p [] \<longleftrightarrow> p = 0"
| "chain h p (a # as) \<longleftrightarrow>
     p \<noteq> 0 \<and> a = p \<and> (case h p of None \<Rightarrow> False | Some n \<Rightarrow> chain h (nnext n) as)"

definition data_of :: "'a node_heap \<Rightarrow> nat list \<Rightarrow> 'a vptr list" where
  "data_of h ps = map (\<lambda>p. case h p of Some n \<Rightarrow> ndata n | None \<Rightarrow> None) ps"

text \<open>The abstraction relation between the two views.\<close>

definition list_at :: "'a node_heap \<Rightarrow> nat \<Rightarrow> nat list \<Rightarrow> 'a vptr list \<Rightarrow> bool" where
  "list_at h p ps xs \<longleftrightarrow> chain h p ps \<and> distinct ps \<and> xs = data_of h ps"

lemma data_of_simps [simp]:
  "data_of h [] = []"
  "data_of h (a # as) = (case h a of Some n \<Rightarrow> ndata n | None \<Rightarrow> None) # data_of h as"
  by (simp_all add: data_of_def)

lemma length_data_of [simp]: "length (data_of h ps) = length ps"
  by (simp add: data_of_def)

lemma chain_update [simp]: "u \<notin> set ps \<Longrightarrow> chain (h(u := v)) p ps = chain h p ps"
  by (induction ps arbitrary: p) (auto split: option.splits)

lemma data_of_update [simp]: "u \<notin> set ps \<Longrightarrow> data_of (h(u := v)) ps = data_of h ps"
  by (auto simp: data_of_def)

lemma chain_nonzero: "chain h p ps \<Longrightarrow> q \<in> set ps \<Longrightarrow> q \<noteq> 0 \<and> h q \<noteq> None"
  by (induction ps arbitrary: p) (auto split: option.splits)

lemma last_node_chain:
  assumes "chain h p ps" and "ps \<noteq> []"
  shows "last_node h p = Some (last ps)"
  using assms
proof (induction ps arbitrary: p)
  case Nil
  then show ?case by simp
next
  case (Cons a as)
  then obtain n where n: "h p = Some n" "chain h (nnext n) as" "a = p"
    by (auto split: option.splits)
  show ?case
  proof (cases as)
    case Nil
    with n show ?thesis by (simp add: last_node.simps)
  next
    case (Cons b bs)
    with n have "nnext n \<noteq> 0" by simp
    moreover have "last_node h (nnext n) = Some (last as)"
      using Cons.IH [of "nnext n"] n Cons by simp
    ultimately show ?thesis using n Cons by (simp add: last_node.simps [of h p])
  qed
qed

lemma chain_snoc:
  assumes "chain h p ps" "distinct ps" "ps \<noteq> []" "h (last ps) = Some n" "a \<notin> set ps" "a \<noteq> 0"
  shows "chain (h(a \<mapsto> \<lparr>ndata = d, nnext = 0\<rparr>, last ps \<mapsto> n\<lparr>nnext := a\<rparr>)) p (ps @ [a])"
  using assms
proof (induction ps arbitrary: p)
  case Nil
  then show ?case by simp
next
  case (Cons b bs)
  show ?case
  proof (cases "bs = []")
    case True
    with Cons.prems show ?thesis by auto
  next
    case False
    with Cons.prems have "last bs \<in> set bs" "b \<noteq> last bs" "b \<noteq> a" by auto
    with Cons False show ?thesis by (auto split: option.splits)
  qed
qed

lemma data_of_snoc:
  assumes "chain h p ps" "distinct ps" "ps \<noteq> []" "h (last ps) = Some n" "a \<notin> set ps"
  shows "data_of (h(a \<mapsto> \<lparr>ndata = d, nnext = 0\<rparr>, last ps \<mapsto> n\<lparr>nnext := a\<rparr>)) (ps @ [a])
         = data_of h ps @ [d]"
proof -
  have "last ps \<noteq> a" using assms(3,5) last_in_set by metis
  then show ?thesis using assms by (auto simp: data_of_def)
qed

text \<open>Each operation on the heap does what its list counterpart says, and returns.\<close>

lemma linkedlist_add_refines:
  assumes "list_at h p ps xs" and "h a = None" and "a \<noteq> 0"
  shows "\<exists>h' p' ps'. linkedlist_add h p a d = Some (h', p') \<and> list_at h' p' ps' (ll_add xs d)"
proof (cases "ps = []")
  case True
  with assms have "p = 0" "xs = []" by (auto simp: list_at_def)
  then have "linkedlist_add h p a d = Some (h(a \<mapsto> \<lparr>ndata = d, nnext = 0\<rparr>), a)"
    by (simp add: linkedlist_add_def linkedlist_add_front_def)
  moreover have "list_at (h(a \<mapsto> \<lparr>ndata = d, nnext = 0\<rparr>)) a [a] (ll_add xs d)"
    using \<open>xs = []\<close> assms(3) by (simp add: list_at_def ll_add_def)
  ultimately show ?thesis by blast
next
  case False
  note ne = False
  from assms(1) have c: "chain h p ps" "distinct ps" "xs = data_of h ps"
    by (auto simp: list_at_def)
  from ne c have p0: "p \<noteq> 0" by (cases ps) auto
  from c ne have "h (last ps) \<noteq> None" using chain_nonzero by fastforce
  then obtain n where n: "h (last ps) = Some n" by blast
  from c assms(2) have a: "a \<notin> set ps" using chain_nonzero by fastforce
  show ?thesis
  proof (cases "d = None")
    case True
    then show ?thesis using p0 assms(1) ne c
      by (auto simp: linkedlist_add_def ll_add_def data_of_def)
  next
    case False
    let ?h = "h(a \<mapsto> \<lparr>ndata = d, nnext = 0\<rparr>, last ps \<mapsto> n\<lparr>nnext := a\<rparr>)"
    have "linkedlist_add h p a d = Some (?h, p)"
      using p0 False n last_node_chain [OF c(1) ne] by (auto simp: linkedlist_add_def)
    moreover have "list_at ?h p (ps @ [a]) (xs @ [d])"
      using chain_snoc [OF c(1,2) ne n a assms(3)] data_of_snoc [OF c(1,2) ne n a] c a
      by (simp add: list_at_def)
    moreover have "ll_add xs d = xs @ [d]"
      using False c ne by (simp add: ll_add_def data_of_def)
    ultimately show ?thesis by auto
  qed
qed

lemma contains_from_chain:
  assumes "chain h p ps" and "ps \<noteq> []"
  shows "contains_from h p d = Some (d \<in> set (butlast (data_of h ps)))"
  using assms
proof (induction ps arbitrary: p)
  case Nil
  then show ?case by simp
next
  case (Cons a as)
  then obtain n where n: "h p = Some n" "chain h (nnext n) as" "a = p"
    by (auto split: option.splits)
  show ?case
  proof (cases as)
    case Nil
    with n show ?thesis by (simp add: contains_from.simps)
  next
    case (Cons b bs)
    with n have "nnext n \<noteq> 0" by simp
    moreover have "contains_from h (nnext n) d = Some (d \<in> set (butlast (data_of h as)))"
      using Cons.IH [of "nnext n"] n Cons by simp
    ultimately show ?thesis using n Cons by (auto simp: contains_from.simps [of h p])
  qed
qed

lemma linkedlist_contains_refines:
  "list_at h p ps xs \<Longrightarrow> linkedlist_contains h p d = Some (ll_contains xs d)"
proof -
  assume l: "list_at h p ps xs"
  show ?thesis
  proof (cases "ps = []")
    case True
    with l show ?thesis by (simp add: list_at_def linkedlist_contains_def ll_contains_def)
  next
    case False
    with l have "p \<noteq> 0" by (cases ps) (auto simp: list_at_def)
    with l contains_from_chain [OF _ False, of h p d] show ?thesis
      by (simp add: list_at_def linkedlist_contains_def ll_contains_def)
  qed
qed

lemma delete_from_chain:
  assumes "chain h p (a # as)" and "distinct (a # as)"
  shows "\<exists>h' qs. delete_from h p d = Some h' \<and> chain h' p (a # qs) \<and> set qs \<subseteq> set as \<and>
    distinct qs \<and> data_of h' (a # qs) = hd (data_of h (a # as)) # remove1 d (data_of h as) \<and>
    (\<forall>u. u \<notin> set (a # as) \<longrightarrow> h' u = h u)"
  using assms
proof (induction as arbitrary: p a)
  case Nil
  then obtain n where "h p = Some n" "nnext n = 0" "a = p" "p \<noteq> 0" by (auto split: option.splits)
  moreover from this have "delete_from h p d = Some h" by (subst delete_from.simps) simp
  ultimately show ?case by (intro exI [of _ h] exI [of _ "[]"]) auto
next
  case (Cons b bs)
  then obtain n m where n: "h p = Some n" "a = p" "nnext n = b" "b \<noteq> 0" "p \<noteq> 0"
      and m: "h b = Some m" "chain h (nnext m) bs"
    by (auto split: option.splits)
  show ?case
  proof (cases "ndata m = d")
    case True
    let ?h = "h(p \<mapsto> n\<lparr>nnext := nnext m\<rparr>)"
    have p: "p \<notin> set bs" "p \<noteq> b" "distinct bs" using Cons.prems(2) n by auto
    have "delete_from h p d = Some ?h"
      using True n m by (subst delete_from.simps) simp
    moreover have "chain ?h p (p # bs)" using n m p by simp
    moreover have "data_of ?h (p # bs) = hd (data_of h (p # b # bs)) # remove1 d (data_of h (b # bs))"
      using n m p True by simp
    moreover have "\<forall>u. u \<notin> set (p # b # bs) \<longrightarrow> ?h u = h u" by simp
    ultimately have "delete_from h p d = Some ?h \<and> chain ?h p (p # bs) \<and> set bs \<subseteq> set (b # bs) \<and>
        distinct bs \<and> data_of ?h (p # bs) = hd (data_of h (p # b # bs)) # remove1 d (data_of h (b # bs)) \<and>
        (\<forall>u. u \<notin> set (p # b # bs) \<longrightarrow> ?h u = h u)"
      using p(3) by auto
    then show ?thesis unfolding n(2) by blast
  next
    case False
    have "chain h b (b # bs)" using m n by simp
    from Cons.IH [OF this] Cons.prems(2) obtain h' qs where IH:
      "delete_from h b d = Some h'" "chain h' b (b # qs)" "set qs \<subseteq> set bs" "distinct qs"
      "data_of h' (b # qs) = hd (data_of h (b # bs)) # remove1 d (data_of h bs)"
      "\<forall>u. u \<notin> set (b # bs) \<longrightarrow> h' u = h u"
      by auto
    have hp: "h' p = h p" using IH(6) Cons.prems(2) n by simp
    have "delete_from h p d = delete_from h b d"
      using n m False by (subst delete_from.simps) simp
    with IH(1) have "delete_from h p d = Some h'" by simp
    moreover have "chain h' p (a # b # qs)" using n hp IH(2) by simp
    moreover have "distinct (b # qs)" using IH(3,4) Cons.prems(2) by auto
    moreover have "data_of h' (a # b # qs)
        = hd (data_of h (a # b # bs)) # remove1 d (data_of h (b # bs))"
      using IH(5) n m hp False by simp
    ultimately show ?thesis using IH(3,6)
      by (intro exI [of _ h'] exI [of _ "b # qs"]) auto
  qed
qed

lemma linkedlist_delete_refines:
  assumes "list_at h p ps xs"
  shows "\<exists>h' p' ps'. linkedlist_delete h p d = Some (h', p') \<and> list_at h' p' ps' (ll_delete xs d)"
proof (cases "ps = [] \<or> d = None")
  case True
  then show ?thesis using assms
    by (auto simp: linkedlist_delete_def ll_delete_def list_at_def)
next
  case False
  then obtain a as where ps: "ps = a # as" by (cases ps) auto
  from assms ps obtain n where n: "h p = Some n" "a = p" "p \<noteq> 0" "chain h (nnext n) as"
    by (auto simp: list_at_def split: option.splits)
  show ?thesis
  proof (cases "ndata n = d")
    case True
    then show ?thesis using False n ps assms
      by (auto simp: linkedlist_delete_def ll_delete_def list_at_def)
  next
    case nd: False
    from assms ps delete_from_chain [of h p a as d] obtain h' qs where
      "delete_from h p d = Some h'" "chain h' p (a # qs)" "set qs \<subseteq> set as" "distinct qs"
      "data_of h' (a # qs) = hd (data_of h (a # as)) # remove1 d (data_of h as)"
      by (auto simp: list_at_def)
    moreover have "ll_delete xs d = ndata n # remove1 d (data_of h as)"
      using nd False assms ps n by (auto simp: ll_delete_def list_at_def)
    ultimately show ?thesis using False n nd assms ps
      by (intro exI [of _ h'] exI [of _ p] exI [of _ "a # qs"])
         (auto simp: linkedlist_delete_def list_at_def)
  qed
qed

text \<open>
  \<^verbatim>\<open>linkedlist_free\<close> releases the front node; the other nodes of the list stay allocated.
\<close>

lemma linkedlist_free_leaks:
  "list_at h p (a # as) xs \<Longrightarrow>
    linkedlist_free h p a = None \<and> (\<forall>q \<in> set as. linkedlist_free h p q \<noteq> None)"
  by (auto simp: list_at_def linkedlist_free_def dest: chain_nonzero split: option.splits)

section \<open>Stack\<close>

text \<open>
  \<^verbatim>\<open>struct stack\<close>: a block of cells (NULL before the first push) and the index of the top. The
  elements are pointer-sized integers. Here and for the queue the argument is never NULL, so the tests
  for NULL at the start of the operations have no branch. \<^verbatim>\<open>realloc\<close> gives a block of exactly the requested size,
  whose new cells hold junk (0 here) until they are written.
\<close>

record stack =
  sdata :: "u64 list option"
  top :: int

definition STACK_ERR :: u64 where
  "STACK_ERR = LONG_MIN"

definition realloc_cells :: "'a \<Rightarrow> nat \<Rightarrow> 'a list option \<Rightarrow> 'a list" where
  "realloc_cells junk n blk =
     (case blk of None \<Rightarrow> replicate n junk
      | Some xs \<Rightarrow> take n xs @ replicate (n - length xs) junk)"

definition stack_new :: stack where
  "stack_new = \<lparr>sdata = None, top = - 1\<rparr>"

definition stack_empty :: "stack \<Rightarrow> bool" where
  "stack_empty s = (if sdata s = None then True else top s = - 1)"

definition stack_push :: "stack \<Rightarrow> u64 \<Rightarrow> stack" where
  "stack_push s x =
     (let t = top s + 1 in
      s\<lparr>sdata := Some ((realloc_cells 0 (nat (t + 1)) (sdata s))[nat t := x]), top := t\<rparr>)"

definition stack_peek :: "stack \<Rightarrow> u64" where
  "stack_peek s =
     (case sdata s of None \<Rightarrow> STACK_ERR
      | Some d \<Rightarrow> if stack_empty s then STACK_ERR else d ! nat (top s))"

definition stack_pop :: "stack \<Rightarrow> u64 \<times> stack" where
  "stack_pop s =
     (case sdata s of None \<Rightarrow> (STACK_ERR, s)
      | Some d \<Rightarrow> if stack_empty s then (STACK_ERR, s) else (d ! nat (top s), s\<lparr>top := top s - 1\<rparr>))"

text \<open>
  \<^verbatim>\<open>stack_free\<close> and \<^verbatim>\<open>queue_free\<close> write \<^verbatim>\<open>data = NULL\<close> into the object they have just freed.
\<close>

definition stack_free :: "stack option \<Rightarrow> unit run" where
  "stack_free s = (case s of None \<Rightarrow> Inr () | Some _ \<Rightarrow> Inl UseAfterFree)"

text \<open>Well-formed stacks: the block reaches up to the top. Every access is then inside the block.\<close>

definition stack_ok :: "stack \<Rightarrow> bool" where
  "stack_ok s \<longleftrightarrow> - 1 \<le> top s \<and>
     (case sdata s of None \<Rightarrow> top s = - 1 | Some d \<Rightarrow> top s < int (length d))"

definition stack_list :: "stack \<Rightarrow> u64 list" where
  "stack_list s = (case sdata s of None \<Rightarrow> [] | Some d \<Rightarrow> rev (take (nat (top s + 1)) d))"

text \<open>What a client of a stack may rely on.\<close>

locale lifo =
  fixes new :: 's
    and push :: "'s \<Rightarrow> 'a \<Rightarrow> 's"
    and pop :: "'s \<Rightarrow> 'a \<times> 's"
    and peek :: "'s \<Rightarrow> 'a"
    and is_empty :: "'s \<Rightarrow> bool"
    and none :: 'a
    and contents :: "'s \<Rightarrow> 'a list"
    and ok :: "'s \<Rightarrow> bool"
  assumes new_ok: "ok new"
    and new_contents: "contents new = []"
    and push_ok: "ok s \<Longrightarrow> ok (push s x)"
    and push_contents: "ok s \<Longrightarrow> contents (push s x) = x # contents s"
    and pop_ok: "ok s \<Longrightarrow> ok (snd (pop s))"
    and pop_contents: "ok s \<Longrightarrow> contents (snd (pop s)) = tl (contents s)"
    and pop_value: "ok s \<Longrightarrow> fst (pop s) = (case contents s of [] \<Rightarrow> none | x # _ \<Rightarrow> x)"
    and peek_value: "ok s \<Longrightarrow> peek s = (case contents s of [] \<Rightarrow> none | x # _ \<Rightarrow> x)"
    and empty_iff: "ok s \<Longrightarrow> is_empty s \<longleftrightarrow> contents s = []"
begin

lemmas laws = new_ok new_contents push_ok push_contents pop_ok pop_contents pop_value
  peek_value empty_iff

lemma pop_push: "ok s \<Longrightarrow> fst (pop (push s x)) = x \<and> contents (snd (pop (push s x))) = contents s"
  by (simp add: laws)

lemma pop_eqD:
  assumes "pop s = (x, s')" and "ok s"
  shows "ok s' \<and> contents s' = tl (contents s) \<and>
    x = (case contents s of [] \<Rightarrow> none | y # _ \<Rightarrow> y)"
  using assms pop_ok [of s] pop_contents [of s] pop_value [of s] by auto

end

lemma length_realloc_cells [simp]: "length (realloc_cells j n b) = n"
  by (auto simp: realloc_cells_def split: option.splits)

text \<open>Growing a block to \<open>n + 1\<close> cells and writing the last one appends an element.\<close>

lemma realloc_cells_push:
  assumes "n \<le> length d"
  shows "(realloc_cells j (Suc n) (Some d))[n := x] = take n d @ [x]"
proof (cases "n = length d")
  case True
  then show ?thesis by (simp add: realloc_cells_def)
next
  case False
  with assms show ?thesis
    by (simp add: realloc_cells_def take_Suc_conv_app_nth list_update_append)
qed

lemma stack_push_ok: "stack_ok s \<Longrightarrow> stack_ok (stack_push s x)"
  by (auto simp: stack_ok_def stack_push_def Let_def split: option.splits)

lemma stack_push_list: "stack_ok s \<Longrightarrow> stack_list (stack_push s x) = x # stack_list s"
proof (cases "sdata s")
  case None
  moreover assume "stack_ok s"
  ultimately show ?thesis
    by (simp add: stack_ok_def stack_push_def stack_list_def realloc_cells_def)
next
  case (Some d)
  moreover assume ok: "stack_ok s"
  moreover define n where "n = nat (top s + 1)"
  ultimately have n: "n \<le> length d" "top s = int n - 1"
    by (auto simp: stack_ok_def)
  with Some realloc_cells_push [of n d 0 x] show ?thesis
    by (simp add: stack_push_def stack_list_def nat_add_distrib Let_def)
qed

lemma stack_list_nonempty:
  assumes "stack_ok s" and "sdata s = Some d" and "top s \<noteq> - 1"
  shows "stack_list s = d ! nat (top s) # rev (take (nat (top s)) d)"
proof -
  define n where "n = nat (top s)"
  with assms have "nat (top s + 1) = Suc n" "n < length d" by (auto simp: stack_ok_def)
  with assms(2) n_def show ?thesis by (simp add: stack_list_def take_Suc_conv_app_nth)
qed

lemma stack_list_empty:
  "stack_ok s \<Longrightarrow> (stack_list s = []) = stack_empty s"
  by (auto simp: stack_ok_def stack_list_def stack_empty_def split: option.splits)

interpretation stk: lifo stack_new stack_push stack_pop stack_peek stack_empty STACK_ERR
  stack_list stack_ok
proof
  show "stack_ok stack_new" "stack_list stack_new = []"
    by (simp_all add: stack_ok_def stack_new_def stack_list_def)
next
  fix s x
  assume ok: "stack_ok s"
  show "stack_ok (stack_push s x)" "stack_list (stack_push s x) = x # stack_list s"
    using ok by (rule stack_push_ok, rule stack_push_list)
  show "stack_empty s \<longleftrightarrow> stack_list s = []"
    using ok by (simp add: stack_list_empty)
  have "stack_ok (snd (stack_pop s)) \<and> stack_list (snd (stack_pop s)) = tl (stack_list s) \<and>
      fst (stack_pop s) = (case stack_list s of [] \<Rightarrow> STACK_ERR | x # _ \<Rightarrow> x) \<and>
      stack_peek s = (case stack_list s of [] \<Rightarrow> STACK_ERR | x # _ \<Rightarrow> x)"
  proof (cases "sdata s = None \<or> top s = - 1")
    case True
    with ok have "stack_list s = []" "stack_empty s"
      by (auto simp: stack_list_def stack_empty_def split: option.splits)
    with ok show ?thesis by (auto simp: stack_pop_def stack_peek_def split: option.splits)
  next
    case False
    then obtain d where d: "sdata s = Some d" "top s \<noteq> - 1" by auto
    with ok have "stack_ok (s\<lparr>top := top s - 1\<rparr>)" by (auto simp: stack_ok_def)
    with d stack_list_nonempty [OF ok d] show ?thesis
      by (simp add: stack_pop_def stack_peek_def stack_empty_def) (simp add: stack_list_def)
  qed
  then show "stack_ok (snd (stack_pop s))" "stack_list (snd (stack_pop s)) = tl (stack_list s)"
      "fst (stack_pop s) = (case stack_list s of [] \<Rightarrow> STACK_ERR | x # _ \<Rightarrow> x)"
      "stack_peek s = (case stack_list s of [] \<Rightarrow> STACK_ERR | x # _ \<Rightarrow> x)"
    by blast+
qed

section \<open>Queue\<close>

text \<open>
  \<^verbatim>\<open>struct queue\<close>: despite its name \<^verbatim>\<open>capacity\<close> is the index of the last element. \<^verbatim>\<open>dequeue\<close> moves
  the elements one cell down and keeps the block.
\<close>

record 'a queue =
  qdata :: "'a vptr list option"
  qcapacity :: int

definition queue_new :: "'a queue" where
  "queue_new = \<lparr>qdata = None, qcapacity = - 1\<rparr>"

definition enqueue :: "'a queue \<Rightarrow> 'a vptr \<Rightarrow> 'a queue" where
  "enqueue q d =
     (let c = qcapacity q + 1 in
      q\<lparr>qdata := Some ((realloc_cells None (nat (c + 1)) (qdata q))[nat c := d]), qcapacity := c\<rparr>)"

definition dequeue :: "'a queue \<Rightarrow> 'a vptr \<times> 'a queue" where
  "dequeue q =
     (case qdata q of None \<Rightarrow> (None, q)
      | Some b \<Rightarrow>
          if qcapacity q = - 1 then (None, q)
          else (let n = nat (qcapacity q) in
                (b ! 0, q\<lparr>qdata := Some (take n (drop 1 b) @ drop n b), qcapacity := qcapacity q - 1\<rparr>)))"

definition queue_peek :: "'a queue \<Rightarrow> 'a vptr" where
  "queue_peek q =
     (case qdata q of None \<Rightarrow> None | Some b \<Rightarrow> if qcapacity q = - 1 then None else b ! 0)"

definition queue_free :: "'a queue option \<Rightarrow> unit run" where
  "queue_free q = (case q of None \<Rightarrow> Inr () | Some _ \<Rightarrow> Inl UseAfterFree)"

definition queue_ok :: "'a queue \<Rightarrow> bool" where
  "queue_ok q \<longleftrightarrow> - 1 \<le> qcapacity q \<and>
     (case qdata q of None \<Rightarrow> qcapacity q = - 1 | Some b \<Rightarrow> qcapacity q < int (length b))"

definition queue_list :: "'a queue \<Rightarrow> 'a vptr list" where
  "queue_list q = (case qdata q of None \<Rightarrow> [] | Some b \<Rightarrow> take (nat (qcapacity q + 1)) b)"

locale fifo =
  fixes new :: 'q
    and enq :: "'q \<Rightarrow> 'a vptr \<Rightarrow> 'q"
    and deq :: "'q \<Rightarrow> 'a vptr \<times> 'q"
    and peek :: "'q \<Rightarrow> 'a vptr"
    and contents :: "'q \<Rightarrow> 'a vptr list"
    and ok :: "'q \<Rightarrow> bool"
  assumes new_ok: "ok new"
    and new_contents: "contents new = []"
    and enq_ok: "ok q \<Longrightarrow> ok (enq q x)"
    and enq_contents: "ok q \<Longrightarrow> contents (enq q x) = contents q @ [x]"
    and deq_ok: "ok q \<Longrightarrow> ok (snd (deq q))"
    and deq_contents: "ok q \<Longrightarrow> contents (snd (deq q)) = tl (contents q)"
    and deq_value: "ok q \<Longrightarrow> fst (deq q) = (case contents q of [] \<Rightarrow> None | x # _ \<Rightarrow> x)"
    and peek_value: "ok q \<Longrightarrow> peek q = (case contents q of [] \<Rightarrow> None | x # _ \<Rightarrow> x)"
begin

lemmas laws = new_ok new_contents enq_ok enq_contents deq_ok deq_contents deq_value peek_value

text \<open>Taking an element out and putting it back at the end rotates the queue.\<close>

lemma deq_enq_rotates:
  assumes "ok q" and "contents q = x # xs"
  shows "ok (enq (snd (deq q)) (fst (deq q))) \<and>
    contents (enq (snd (deq q)) (fst (deq q))) = xs @ [x]"
  using assms by (simp add: laws)

lemma enq_all:
  "ok q \<Longrightarrow> ok (fold (\<lambda>x q. enq q x) xs q) \<and> contents (fold (\<lambda>x q. enq q x) xs q) = contents q @ xs"
  by (induction xs arbitrary: q) (simp_all add: laws)

end

lemma enqueue_list: "queue_ok q \<Longrightarrow> queue_list (enqueue q x) = queue_list q @ [x]"
proof (cases "qdata q")
  case None
  moreover assume "queue_ok q"
  ultimately show ?thesis
    by (simp add: queue_ok_def enqueue_def queue_list_def realloc_cells_def)
next
  case (Some b)
  moreover assume ok: "queue_ok q"
  moreover define n where "n = nat (qcapacity q + 1)"
  ultimately have n: "n \<le> length b" "qcapacity q = int n - 1"
    by (auto simp: queue_ok_def)
  with Some realloc_cells_push [of n b None x] show ?thesis
    by (simp add: enqueue_def queue_list_def nat_add_distrib Let_def)
qed

lemma dequeue_nonempty:
  assumes ok: "queue_ok q" and b: "qdata q = Some b" and c: "qcapacity q \<noteq> - 1"
  shows "queue_list q = b ! 0 # queue_list (snd (dequeue q))" and "queue_ok (snd (dequeue q))"
    and "Suc (nat (qcapacity q)) \<le> length b"
proof -
  define n where "n = nat (qcapacity q)"
  with ok b c have n: "qcapacity q = int n" "n < length b" by (auto simp: queue_ok_def)
  then obtain x xs where bx: "b = x # xs" by (cases b) auto
  from n b bx show "queue_list q = b ! 0 # queue_list (snd (dequeue q))"
    by (simp add: queue_list_def dequeue_def nat_add_distrib)
  from n b bx show "queue_ok (snd (dequeue q))"
    by (simp add: queue_ok_def dequeue_def)
  from n show "Suc (nat (qcapacity q)) \<le> length b" by simp
qed

interpretation que: fifo queue_new enqueue dequeue queue_peek queue_list queue_ok
proof
  show "queue_ok queue_new" "queue_list queue_new = []"
    by (simp_all add: queue_ok_def queue_new_def queue_list_def)
next
  fix q :: "'a queue" and x
  assume ok: "queue_ok q"
  then show "queue_ok (enqueue q x)"
    by (auto simp: queue_ok_def enqueue_def Let_def split: option.splits)
  show "queue_list (enqueue q x) = queue_list q @ [x]" using ok by (rule enqueue_list)
  have "queue_ok (snd (dequeue q)) \<and> queue_list (snd (dequeue q)) = tl (queue_list q) \<and>
      fst (dequeue q) = (case queue_list q of [] \<Rightarrow> None | x # _ \<Rightarrow> x) \<and>
      queue_peek q = (case queue_list q of [] \<Rightarrow> None | x # _ \<Rightarrow> x)"
  proof (cases "qdata q = None \<or> qcapacity q = - 1")
    case True
    with ok have "queue_list q = []" by (auto simp: queue_list_def split: option.splits)
    with True ok show ?thesis by (auto simp: dequeue_def queue_peek_def split: option.splits)
  next
    case False
    then obtain b where b: "qdata q = Some b" "qcapacity q \<noteq> - 1" by auto
    from dequeue_nonempty [OF ok b] b show ?thesis
      by (simp add: dequeue_def queue_peek_def Let_def)
  qed
  then show "queue_ok (snd (dequeue q))" "queue_list (snd (dequeue q)) = tl (queue_list q)"
      "fst (dequeue q) = (case queue_list q of [] \<Rightarrow> None | x # _ \<Rightarrow> x)"
      "queue_peek q = (case queue_list q of [] \<Rightarrow> None | x # _ \<Rightarrow> x)"
    by blast+
qed

section \<open>Array\<close>

text \<open>
  \<^verbatim>\<open>struct array\<close>: a block, the number of elements in use and the size of the block in cells, both
  \<^verbatim>\<open>unsigned long\<close>. A NULL array is \<open>None\<close>. Reads, writes and moves outside the block are faults.
\<close>

datatype array_status = ARRAY_OK | ARRAY_NULL | ARRAY_OOB | ARRAY_KEY_NOT_FOUND

record 'a array =
  items :: "'a vptr list option"
  alen :: u64
  acapacity :: u64

definition STARTING_CAPACITY :: u64 where
  "STARTING_CAPACITY = 1"

definition array_new :: "'a array" where
  "array_new = \<lparr>items = None, alen = 0, acapacity = STARTING_CAPACITY\<rparr>"

text \<open>The number of cells \<^verbatim>\<open>malloc(n * sizeof(void *))\<close> gives.\<close>

definition cells :: "u64 \<Rightarrow> nat" where
  "cells n = unat (n * 8) div 8"

definition array_clear :: "'a array \<Rightarrow> 'a array" where
  "array_clear a = a\<lparr>items := None, alen := 0, acapacity := STARTING_CAPACITY\<rparr>"

definition array_destroy :: "'a array option \<Rightarrow> 'a array option run" where
  "array_destroy a = (case a of None \<Rightarrow> Inl NullDeref | Some _ \<Rightarrow> Inr None)"

definition array_empty :: "'a array option \<Rightarrow> bool" where
  "array_empty a = (case a of None \<Rightarrow> True | Some a \<Rightarrow> alen a = 0)"

definition store_cell :: "'a array \<Rightarrow> u64 \<Rightarrow> 'a vptr \<Rightarrow> 'a array run" where
  "store_cell a i x =
     (case items a of None \<Rightarrow> Inl NullDeref
      | Some b \<Rightarrow> if unat i < length b then Inr (a\<lparr>items := Some (b[unat i := x])\<rparr>)
                 else Inl OutOfBounds)"

definition array_insert :: "'a array option \<Rightarrow> 'a vptr \<Rightarrow> (array_status \<times> 'a array option) run" where
  "array_insert arr elem =
     (case arr of None \<Rightarrow> Inr (ARRAY_NULL, None)
      | Some a \<Rightarrow>
        (let a1 = (if items a = None then a\<lparr>items := Some (replicate (cells (acapacity a)) None)\<rparr> else a);
             a2 = (if alen a1 \<ge> acapacity a1 - 1
                   then (let c = acapacity a1 * 2 in
                         a1\<lparr>acapacity := c, items := Some (realloc_cells None (cells c) (items a1))\<rparr>)
                   else a1)
         in bind_run (store_cell a2 (alen a2) elem)
              (\<lambda>a3. Inr (ARRAY_OK, Some (a3\<lparr>alen := alen a3 + 1\<rparr>)))))"

text \<open>\<^verbatim>\<open>memmove(items + idx, items + idx + 1, n * sizeof(void *))\<close> inside a block.\<close>

definition move_down :: "'a list \<Rightarrow> nat \<Rightarrow> nat \<Rightarrow> 'a list run" where
  "move_down b idx n =
     (if idx + 1 + n \<le> length b then Inr (take idx b @ take n (drop (idx + 1) b) @ drop (idx + n) b)
      else Inl OutOfBounds)"

definition array_remove_at :: "'a array \<Rightarrow> int \<Rightarrow> (array_status \<times> 'a array) run" where
  "array_remove_at a idx =
     (if idx < 0 \<or> idx \<ge> int (unat (alen a)) then Inr (ARRAY_OOB, a)
      else (case items a of None \<Rightarrow> Inl NullDeref
            | Some b \<Rightarrow> bind_run (move_down b (nat idx) (unat (alen a)))
                (\<lambda>b'. Inr (ARRAY_OK, a\<lparr>items := Some b', alen := alen a - 1\<rparr>))))"

definition array_remove :: "'a array option \<Rightarrow> int \<Rightarrow> (array_status \<times> 'a array option) run" where
  "array_remove arr idx =
     (case arr of None \<Rightarrow> Inr (ARRAY_NULL, None)
      | Some a \<Rightarrow> if array_empty arr then Inr (ARRAY_OK, arr)
                 else bind_run (array_remove_at a idx) (\<lambda>(st, a'). Inr (st, Some a')))"

text \<open>The loop reads \<^verbatim>\<open>items[elemidx]\<close> before it compares \<^verbatim>\<open>elemidx\<close> with \<^verbatim>\<open>len\<close>.\<close>

function find_elem :: "'a vptr list \<Rightarrow> nat \<Rightarrow> 'a vptr \<Rightarrow> nat \<Rightarrow> nat run" where
  "find_elem b n x i =
     (if length b \<le> i then Inl OutOfBounds
      else if b ! i \<noteq> x \<and> i < n then find_elem b n x (Suc i)
      else Inr i)"
  by pat_completeness auto
termination
  by (relation "measure (\<lambda>(b, n, x, i). length b - i)") auto

declare find_elem.simps [simp del]

definition array_remove_elem :: "'a array option \<Rightarrow> 'a vptr \<Rightarrow> (array_status \<times> 'a array option) run" where
  "array_remove_elem arr elem =
     (case arr of None \<Rightarrow> Inr (ARRAY_NULL, None)
      | Some a \<Rightarrow> if array_empty arr then Inr (ARRAY_OK, arr)
                 else (case items a of None \<Rightarrow> Inl NullDeref
                       | Some b \<Rightarrow> bind_run (find_elem b (unat (alen a)) elem 0)
                           (\<lambda>i. bind_run (array_remove_at a (int i)) (\<lambda>(st, a'). Inr (st, Some a')))))"

definition array_safe_get :: "'a array option \<Rightarrow> int \<Rightarrow> (array_status \<times> 'a vptr option) run" where
  "array_safe_get arr idx =
     (case arr of None \<Rightarrow> Inr (ARRAY_NULL, None)
      | Some a \<Rightarrow>
          if idx < 0 \<or> idx \<ge> int (unat (alen a)) then Inr (ARRAY_OOB, None)
          else (case items a of None \<Rightarrow> Inl NullDeref
                | Some b \<Rightarrow> if nat idx < length b then Inr (ARRAY_OK, Some (b ! nat idx))
                           else Inl OutOfBounds))"

definition array_shrink_to_fit :: "'a array option \<Rightarrow> array_status \<times> 'a array option" where
  "array_shrink_to_fit arr =
     (case arr of None \<Rightarrow> (ARRAY_NULL, None)
      | Some a \<Rightarrow> (ARRAY_OK, Some (a\<lparr>items := Some (realloc_cells None (cells (alen a)) (items a)),
                                     acapacity := alen a\<rparr>)))"

text \<open>
  \<^verbatim>\<open>qsort\<close> and \<^verbatim>\<open>bsearch\<close> of the C library are the arguments \<open>srt\<close> (on the elements in use) and \<open>bs\<close>
  (the index of a matching element, if any).
\<close>

definition array_qsort ::
    "('a vptr list \<Rightarrow> 'a vptr list) \<Rightarrow> 'a array option \<Rightarrow> array_status \<times> 'a array option" where
  "array_qsort srt arr =
     (case arr of None \<Rightarrow> (ARRAY_NULL, None)
      | Some a \<Rightarrow> (ARRAY_OK, Some (case items a of None \<Rightarrow> a
          | Some b \<Rightarrow> a\<lparr>items := Some (srt (take (unat (alen a)) b) @ drop (unat (alen a)) b)\<rparr>)))"

definition array_bsearch ::
    "('k \<Rightarrow> 'a vptr list \<Rightarrow> nat option) \<Rightarrow> 'a array option \<Rightarrow> 'k \<Rightarrow> array_status \<times> nat option" where
  "array_bsearch bs arr key =
     (case arr of None \<Rightarrow> (ARRAY_NULL, None)
      | Some a \<Rightarrow>
          if array_empty arr then (ARRAY_OK, None)
          else (case items a of None \<Rightarrow> (ARRAY_KEY_NOT_FOUND, None)
                | Some b \<Rightarrow> (case bs key (take (unat (alen a)) b) of
                     None \<Rightarrow> (ARRAY_KEY_NOT_FOUND, None) | Some i \<Rightarrow> (ARRAY_OK, Some i))))"

subsection \<open>The list an array holds\<close>

text \<open>
  \<open>array_ok\<close>: the block (when there is one) has \<open>capacity\<close> cells, at least one and few enough that
  neither doubling nor the byte count overflows, and the elements fit. \<open>array_roomy\<close> asks in
  addition for the unused cell that growing leaves.
\<close>

definition array_ok :: "'a array \<Rightarrow> bool" where
  "array_ok a \<longleftrightarrow> 1 \<le> acapacity a \<and> acapacity a < 2 ^ 59 \<and> alen a \<le> acapacity a \<and>
     (case items a of None \<Rightarrow> alen a = 0 | Some b \<Rightarrow> length b = unat (acapacity a))"

definition array_list :: "'a array \<Rightarrow> 'a vptr list" where
  "array_list a = (case items a of None \<Rightarrow> [] | Some b \<Rightarrow> take (unat (alen a)) b)"

lemma cells_small: "n < 2 ^ 60 \<Longrightarrow> cells n = unat n"
proof -
  assume "n < 2 ^ 60"
  then have "unat n < 2 ^ 60" by (simp add: word_less_nat_alt)
  then have "unat (n * 8) = unat n * 8" by (simp add: unat_word_ariths)
  then show ?thesis by (simp add: cells_def)
qed

lemma array_new_ok: "array_ok array_new" "array_list array_new = []"
  by (simp_all add: array_ok_def array_new_def array_list_def STARTING_CAPACITY_def)

lemma array_insert_append:
  assumes ok: "array_ok a" and small: "acapacity a < 2 ^ 58"
  shows "\<exists>a'. array_insert (Some a) x = Inr (ARRAY_OK, Some a') \<and> array_ok a' \<and>
    array_list a' = array_list a @ [x]"
proof -
  define b where "b = (case items a of None \<Rightarrow> replicate (unat (acapacity a)) None | Some b \<Rightarrow> b)"
  define n where "n = unat (alen a)"
  define c where "c = unat (acapacity a)"
  have b: "length b = c" using ok small
    by (auto simp: b_def c_def array_ok_def split: option.splits)
  have c: "1 \<le> c" "c < 2 ^ 58" "n \<le> c" using ok small
    by (auto simp: c_def n_def array_ok_def word_le_nat_alt word_less_nat_alt)
  have lst: "array_list a = take n b" using ok
    by (auto simp: array_list_def b_def n_def array_ok_def split: option.splits)
  have a1: "(if items a = None then a\<lparr>items := Some (replicate (cells (acapacity a)) None)\<rparr> else a)
      = a\<lparr>items := Some b\<rparr>"
    using small by (cases a) (auto simp: b_def cells_small word_less_nat_alt split: option.splits)
  have cond: "alen a \<ge> acapacity a - 1 \<longleftrightarrow> n \<ge> c - 1"
    using c by (simp add: word_le_nat_alt n_def c_def unat_sub word_le_nat_alt)
  have n1: "unat (alen a + 1) = n + 1" using c by (simp add: n_def unat_word_ariths)
  show ?thesis
  proof (cases "n \<ge> c - 1")
    case True
    have c2: "unat (acapacity a * 2) = c * 2" using c by (simp add: c_def unat_word_ariths)
    then have cc: "cells (acapacity a * 2) = c * 2"
      using c by (subst cells_small) (simp_all add: word_less_nat_alt)
    define b2 where "b2 = realloc_cells None (c * 2) (Some b)"
    have lb2: "length b2 = c * 2" "n < length b2" using c by (simp_all add: b2_def)
    have tk: "take (n + 1) (b2[n := x]) = take n b @ [x]"
      using lb2 b c by (simp add: take_Suc_conv_app_nth) (simp add: b2_def realloc_cells_def)
    let ?a = "a\<lparr>items := Some (b2[n := x]), acapacity := acapacity a * 2, alen := alen a + 1\<rparr>"
    have "array_insert (Some a) x = Inr (ARRAY_OK, Some ?a)"
      unfolding array_insert_def using True cond cc lb2
      by (simp add: a1 Let_def store_cell_def b2_def n_def)
    moreover have "array_ok ?a"
      using c c2 n1 lb2 by (simp add: array_ok_def word_le_nat_alt word_less_nat_alt)
    moreover have "array_list ?a = array_list a @ [x]"
      using lst tk n1 by (simp add: array_list_def)
    ultimately show ?thesis by blast
  next
    case False
    let ?a = "a\<lparr>items := Some (b[n := x]), alen := alen a + 1\<rparr>"
    have "array_insert (Some a) x = Inr (ARRAY_OK, Some ?a)"
      unfolding array_insert_def using False cond b
      by (simp add: a1 Let_def store_cell_def n_def)
    moreover have "array_ok ?a"
      using c b n1 False ok by (simp add: array_ok_def word_le_nat_alt word_less_nat_alt c_def)
    moreover have "array_list ?a = array_list a @ [x]"
      using lst n1 False b by (simp add: array_list_def take_Suc_conv_app_nth)
    ultimately show ?thesis by blast
  qed
qed

text \<open>The capacity at most doubles, and only when the elements fill it: it stays within the elements.\<close>

definition array_tight :: "'a array \<Rightarrow> bool" where
  "array_tight a \<longleftrightarrow> array_ok a \<and> unat (acapacity a) \<le> 2 * (unat (alen a) + 1)"

lemma array_new_tight: "array_tight array_new"
  using array_new_ok(1) by (simp add: array_tight_def array_new_def STARTING_CAPACITY_def)

lemma array_insert_size:
  assumes "array_insert (Some a) x = Inr (st, Some a')"
  shows "alen a' = alen a + 1"
    and "acapacity a' = (if alen a \<ge> acapacity a - 1 then acapacity a * 2 else acapacity a)"
  using assms by (auto simp: array_insert_def Let_def bind_run_Inr store_cell_def split: option.splits if_splits)

lemma array_insert_tight:
  assumes t: "array_tight a" and small: "unat (alen a) < 2 ^ 56"
  shows "\<exists>a'. array_insert (Some a) x = Inr (ARRAY_OK, Some a') \<and> array_tight a' \<and>
    array_list a' = array_list a @ [x] \<and> unat (alen a') = unat (alen a) + 1"
proof -
  have ok: "array_ok a" and cap: "unat (acapacity a) \<le> 2 * (unat (alen a) + 1)" "1 \<le> unat (acapacity a)"
    using t by (auto simp: array_tight_def array_ok_def word_le_nat_alt)
  have "acapacity a < 2 ^ 58" using cap small by (simp add: word_less_nat_alt)
  from array_insert_append [OF ok this] obtain a' where
    a': "array_insert (Some a) x = Inr (ARRAY_OK, Some a')" "array_ok a'" "array_list a' = array_list a @ [x]"
    by blast
  note sz = array_insert_size [OF a'(1)]
  have n: "unat (alen a') = unat (alen a) + 1" using small by (simp add: sz(1) unat_word_ariths)
  have c2: "unat (acapacity a * 2) = unat (acapacity a) * 2" using cap small by (simp add: unat_word_ariths)
  have full: "alen a \<ge> acapacity a - 1 \<longleftrightarrow> unat (alen a) + 1 \<ge> unat (acapacity a)"
    using cap by (simp add: word_le_nat_alt unat_sub word_le_nat_alt) linarith
  have "unat (acapacity a') \<le> 2 * (unat (alen a') + 1)"
    using cap n full c2 by (simp add: sz(2))
  with a' n show ?thesis by (simp add: array_tight_def)
qed

text \<open>
  Removing moves \<open>len\<close> cells, one more than follow the removed one: it stays inside the block only
  when there are \<open>idx + 1\<close> unused cells behind the elements.
\<close>

lemma array_remove_bounds:
  assumes ok: "array_ok a" and i: "0 \<le> idx" "idx < int (unat (alen a))"
  shows "array_remove (Some a) idx =
    (if unat (alen a) + nat idx + 1 \<le> unat (acapacity a)
     then Inr (ARRAY_OK, Some (a\<lparr>items := Some (take (nat idx) (the (items a)) @
            take (unat (alen a)) (drop (nat idx + 1) (the (items a))) @
            drop (nat idx + unat (alen a)) (the (items a))), alen := alen a - 1\<rparr>))
     else Inl OutOfBounds)"
proof -
  have ne: "alen a \<noteq> 0" using i by auto
  with ok obtain b where b: "items a = Some b" "length b = unat (acapacity a)"
    by (auto simp: array_ok_def split: option.splits)
  show ?thesis using ne b i
    by (simp add: array_remove_def array_empty_def array_remove_at_def move_down_def)
qed

lemma array_remove_list:
  assumes ok: "array_ok a" and i: "0 \<le> idx" "idx < int (unat (alen a))"
    and room: "unat (alen a) + nat idx + 1 \<le> unat (acapacity a)"
  shows "\<exists>a'. array_remove (Some a) idx = Inr (ARRAY_OK, Some a') \<and> array_ok a' \<and>
    array_list a' = take (nat idx) (array_list a) @ drop (nat idx + 1) (array_list a)"
proof -
  define n k where "n = unat (alen a)" and "k = nat idx"
  have ne: "alen a \<noteq> 0" using i by auto
  with ok obtain b where b: "items a = Some b" "length b = unat (acapacity a)"
    by (auto simp: array_ok_def split: option.splits)
  have "k < n" unfolding n_def k_def using i by (simp only: nat_less_iff)
  then have k: "k < n" "n + k + 1 \<le> length b" using room b by (simp_all add: n_def k_def)
  have n1: "unat (alen a - 1) = n - 1" using ne by (simp add: n_def unat_minus_one)
  let ?b = "take k b @ take n (drop (k + 1) b) @ drop (k + n) b"
  let ?a = "a\<lparr>items := Some ?b, alen := alen a - 1\<rparr>"
  have "array_remove (Some a) idx = Inr (ARRAY_OK, Some ?a)"
    using array_remove_bounds [OF ok i] room b by (simp add: n_def k_def)
  moreover have "array_ok ?a"
    using ok b k n1 by (simp add: array_ok_def word_le_nat_alt n_def)
  moreover have "array_list ?a = take k (array_list a) @ drop (k + 1) (array_list a)"
  proof -
    from k(1) obtain m where m: "n = Suc (k + m)" by (auto simp: less_iff_Suc_add)
    then have "take (n - 1) ?b = take k b @ take m (drop (k + 1) b)"
      using k by simp
    also have "\<dots> = take k (take n b) @ drop (k + 1) (take n b)"
      using k m by (simp add: drop_take)
    finally show ?thesis using b n1 by (simp add: array_list_def n_def)
  qed
  ultimately show ?thesis unfolding k_def by blast
qed

text \<open>After \<^verbatim>\<open>array_shrink_to_fit\<close> of an empty array the next insertion writes outside the block.\<close>

lemma shrunk_empty_insert:
  assumes "array_ok a" and "alen a = 0"
  shows "(case array_shrink_to_fit (Some a) of (_, arr) \<Rightarrow> array_insert arr x) = Inl OutOfBounds"
  using assms
  by (simp add: array_shrink_to_fit_def array_insert_def store_cell_def cells_def Let_def)

lemma array_shrink_ok:
  assumes "array_ok a" and "alen a \<noteq> 0"
  shows "\<exists>a'. array_shrink_to_fit (Some a) = (ARRAY_OK, Some a') \<and> array_ok a' \<and>
    array_list a' = array_list a"
proof -
  from assms obtain b where b: "items a = Some b" "length b = unat (acapacity a)"
    by (auto simp: array_ok_def split: option.splits)
  have l: "alen a \<le> acapacity a" "alen a < 2 ^ 59" using assms by (auto simp: array_ok_def)
  then have "alen a < 2 ^ 60" "1 \<le> alen a" using assms(2)
    by (simp_all add: word_less_nat_alt word_le_nat_alt Suc_le_eq unat_gt_0)
  moreover have "unat (alen a) \<le> length b" using l b by (simp add: word_le_nat_alt)
  ultimately show ?thesis using b l assms
    by (simp add: array_shrink_to_fit_def array_ok_def array_list_def cells_small realloc_cells_def)
qed
end
