(* ===== verification/Strext.thy ===== *)
theory Strext
  imports CPrelude
begin

text \<open>
  The string helpers of \<^verbatim>\<open>source/strext.c\<close>. The routines that edit a string in place are modelled on
  the buffer they edit, byte for byte with its terminator, and proved to return without leaving it.
\<close>

section \<open>Appending formatted text\<close>

text \<open>
  \<^verbatim>\<open>_concat_internal\<close>, \<^verbatim>\<open>concat\<close> and \<^verbatim>\<open>vconcat\<close>; \<open>txt\<close> is what \<^verbatim>\<open>vsnprintf\<close> produces for the
  format and its arguments.
\<close>

definition concat_c :: "cbuf \<Rightarrow> string \<Rightarrow> cbuf" where
  "concat_c dst txt = Some ((case dst of None \<Rightarrow> [] | Some d \<Rightarrow> d) @ txt)"

lemma concat_c_None [simp]: "concat_c None t = Some t"
  by (simp add: concat_c_def)

lemma concat_c_not_None [simp]: "concat_c b t \<noteq> None"
  by (simp add: concat_c_def)

section \<open>Editing in place\<close>

text \<open>
  \<open>cstr b\<close> is the C string at the start of the buffer \<open>b\<close>; \<open>blit b p s\<close> is \<^verbatim>\<open>strncpy(b + p, s, strlen(s))\<close>.
\<close>

definition cstr :: "string \<Rightarrow> string" where
  "cstr b = takeWhile (\<lambda>c. c \<noteq> NUL) b"

definition blit :: "string \<Rightarrow> nat \<Rightarrow> string \<Rightarrow> string run" where
  "blit b p s =
     (if p + length s \<le> length b then Inr (take p b @ s @ drop (p + length s) b) else Inl OutOfBounds)"

definition strins :: "string \<Rightarrow> string option \<Rightarrow> int \<Rightarrow> string run" where
  "strins target str whr =
     (case str of None \<Rightarrow> Inr target
      | Some s \<Rightarrow>
        (let targetlen = length target; slen = length s; w = nat whr in
         if whr < 0 \<or> whr > int targetlen then Inr target
         else if slen = 0 then Inr target
         else (let b0 = target @ NUL # replicate slen NUL;
                   b1 = b0[targetlen + slen := NUL];
                   saved = cstr (drop w b1)
               in bind_run (blit b1 w s) (\<lambda>b2.
                  bind_run (blit b2 (slen + w) saved) (\<lambda>b3. Inr (cstr b3))))))"

definition strcut :: "string \<Rightarrow> int \<Rightarrow> int \<Rightarrow> string run" where
  "strcut target start bytes =
     (let targetlen = int (length target); endidx = start + bytes in
      if start < 0 \<or> start > targetlen then Inr target
      else if start = 0 \<and> endidx = 0 then Inr []
      else if bytes \<le> 0 \<or> endidx > targetlen then Inr target
      else (let b0 = target @ [NUL];
                saved = cstr (drop (nat endidx) b0)
            in bind_run (blit b0 (nat start) saved) (\<lambda>b1.
                 Inr (cstr (b1[nat start + length saved := NUL])))))"

definition substr :: "string option \<Rightarrow> int \<Rightarrow> int \<Rightarrow> string option" where
  "substr str start len =
     (case str of None \<Rightarrow> None
      | Some s \<Rightarrow>
         if start < 0 \<or> start > int (length s) then None
         else if len \<le> 0 \<or> start + len > int (length s) then None
         else Some (take (nat len) (drop (nat start) s)))"

lemma cstr_append_NUL: "NUL \<notin> set s \<Longrightarrow> cstr (s @ NUL # r) = s"
  by (induction s) (auto simp: cstr_def)

lemma cstr_no_NUL: "NUL \<notin> set s \<Longrightarrow> cstr s = s"
  by (induction s) (auto simp: cstr_def)

lemma blit_split:
  "length p + length s \<le> length b \<Longrightarrow> take (length p) b = p \<Longrightarrow>
    blit b (length p) s = Inr (p @ s @ drop (length s) (drop (length p) b))"
  by (simp add: blit_def add.commute)

lemma drop_replicate_NUL: "drop n (NUL # replicate n NUL) = [NUL]"
  by (induction n) (auto simp: drop_Cons')

lemma strins_inserts:
  assumes "NUL \<notin> set t" and "NUL \<notin> set s" and "0 \<le> w" and "w \<le> int (length t)"
  shows "strins t (Some s) w = Inr (take (nat w) t @ s @ drop (nat w) t)"
proof (cases "s = []")
  case True
  with assms show ?thesis by (simp add: strins_def)
next
  case False
  define n where "n = nat w"
  obtain p q where t: "t = p @ q" "length p = n"
    using assms(3,4) n_def by (metis append_take_drop_id length_take min.absorb2 nat_le_iff)
  have np: "NUL \<notin> set p" "NUL \<notin> set q" using assms(1) t by auto
  let ?b1 = "t @ NUL # replicate (length s) NUL"
  have b1: "?b1[length t + length s := NUL] = ?b1"
    by (rule list_update_same_conv [THEN iffD2]) (simp_all add: nth_append nth_Cons')
  have saved: "cstr (drop n ?b1) = q" using t np by (simp add: cstr_append_NUL)
  define r where "r = drop (length s) (q @ NUL # replicate (length s) NUL)"
  have r: "length r = Suc (length q)" "drop (length q) r = [NUL]"
  proof -
    show "length r = Suc (length q)" by (simp add: r_def)
    have "drop (length q) r = drop (length s) (drop (length q) (q @ NUL # replicate (length s) NUL))"
      by (simp only: r_def drop_drop add.commute)
    then show "drop (length q) r = [NUL]" by (simp add: drop_replicate_NUL)
  qed
  have "blit ?b1 n s = Inr (p @ s @ r)"
    using t blit_split [of p s ?b1] by (simp add: r_def)
  moreover have "blit (p @ s @ r) (length s + n) q = Inr (p @ s @ q @ [NUL])"
    using t r blit_split [of "p @ s" q "p @ s @ r"] by (simp add: add.commute)
  moreover have "cstr (p @ s @ q @ [NUL]) = p @ s @ q"
    using np assms(2) cstr_append_NUL [of "p @ s @ q" "[]"] by simp
  ultimately show ?thesis
    using False assms(3,4) saved b1 t by (simp add: strins_def Let_def n_def)
qed

text \<open>
  A cut inside the string removes the bytes; the special case \<open>start = 0\<close>, \<open>bytes = 0\<close> empties the
  string, and every other request is ignored.
\<close>

lemma strcut_cuts:
  assumes "NUL \<notin> set t" and "0 \<le> start" and "0 < bytes" and "start + bytes \<le> int (length t)"
  shows "strcut t start bytes = Inr (take (nat start) t @ drop (nat (start + bytes)) t)"
proof -
  define m where "m = nat start"
  define k where "k = nat bytes"
  have mk: "nat (start + bytes) = m + k" "m + k \<le> length t" "0 < k"
    using assms by (auto simp: m_def k_def nat_add_distrib nat_le_iff)
  obtain p r q where t: "t = p @ r @ q" "length p = m" "length r = k"
  proof
    show "t = take m t @ take k (drop m t) @ drop k (drop m t)"
      by (metis append_take_drop_id)
    show "length (take m t) = m" "length (take k (drop m t)) = k" using mk(2) by auto
  qed
  have np: "NUL \<notin> set p" "NUL \<notin> set r" "NUL \<notin> set q" using assms(1) t by auto
  have saved: "cstr (drop (m + k) (t @ [NUL])) = q" using t np by (simp add: cstr_append_NUL)
  define tl' where "tl' = drop (m + length q) (t @ [NUL])"
  have ne: "tl' \<noteq> []" using t mk(3) by (simp add: tl'_def)
  have bl: "blit (t @ [NUL]) m q = Inr (p @ q @ tl')"
    using t by (simp add: blit_def tl'_def)
  have "cstr ((p @ q @ tl')[m + length q := NUL]) = p @ q"
  proof -
    obtain x xs where "tl' = x # xs" using ne by (cases tl') auto
    then have "(p @ q @ tl')[m + length q := NUL] = (p @ q) @ NUL # xs"
      using t(2) by (simp add: list_update_append)
    then show ?thesis using np cstr_append_NUL [of "p @ q" xs] by simp
  qed
  then show ?thesis
    using assms saved bl mk t by (simp add: strcut_def Let_def m_def [symmetric])
qed

lemma strcut_all: "strcut t 0 0 = Inr []"
  by (simp add: strcut_def)

lemma strcut_ignored:
  "start < 0 \<or> int (length t) < start \<or> (bytes \<le> 0 \<and> (start \<noteq> 0 \<or> bytes \<noteq> 0)) \<or>
   int (length t) < start + bytes \<and> 0 < bytes \<Longrightarrow> strcut t start bytes = Inr t"
  by (auto simp: strcut_def Let_def)

text \<open>The list functions the two routines compute on strings without a NUL inside.\<close>

definition ins_at :: "string \<Rightarrow> string \<Rightarrow> nat \<Rightarrow> string" where
  "ins_at t s w = take w t @ s @ drop w t"

definition cut_at :: "string \<Rightarrow> nat \<Rightarrow> nat \<Rightarrow> string" where
  "cut_at t i n = take i t @ drop (i + n) t"

lemma strins_ins_at:
  "NUL \<notin> set t \<Longrightarrow> NUL \<notin> set s \<Longrightarrow> w \<le> length t \<Longrightarrow> strins t (Some s) (int w) = Inr (ins_at t s w)"
  by (simp add: strins_inserts ins_at_def)

lemma strcut_cut_at:
  "NUL \<notin> set t \<Longrightarrow> 0 < n \<Longrightarrow> i + n \<le> length t \<Longrightarrow> strcut t (int i) (int n) = Inr (cut_at t i n)"
  using strcut_cuts [of t "int i" "int n"] by (simp add: cut_at_def nat_add_distrib)

section \<open>Searching and trimming\<close>

text \<open>The comparison loop of \<^verbatim>\<open>strrstr\<close> at one position, then the walk from the end to the start.\<close>

fun match_here :: "string \<Rightarrow> string \<Rightarrow> bool" where
  "match_here a [] = False"
| "match_here [] (c # cs) = False"
| "match_here (x # xs) (c # cs) = (if x \<noteq> c then False else if cs = [] then True else match_here xs cs)"

fun strrstr_from :: "string \<Rightarrow> string \<Rightarrow> nat \<Rightarrow> nat option" where
  "strrstr_from s1 s2 0 = None"
| "strrstr_from s1 s2 (Suc i) =
     (if match_here (drop i s1) s2 then Some i else strrstr_from s1 s2 i)"

definition strrstr :: "string \<Rightarrow> string \<Rightarrow> nat option" where
  "strrstr s1 s2 = (if s2 = [] then Some 0 else strrstr_from s1 s2 (length s1))"

lemma match_here_prefix: "s2 \<noteq> [] \<Longrightarrow> match_here s1 s2 \<longleftrightarrow> take (length s2) s1 = s2"
  by (induction s1 s2 rule: match_here.induct) auto

lemma strrstr_from_Some:
  "strrstr_from s1 s2 n = Some i \<longleftrightarrow>
    i < n \<and> match_here (drop i s1) s2 \<and> (\<forall>j. i < j \<and> j < n \<longrightarrow> \<not> match_here (drop j s1) s2)"
proof (induction n)
  case 0
  then show ?case by simp
next
  case (Suc n)
  show ?case
  proof (cases "match_here (drop n s1) s2")
    case True
    then show ?thesis by (auto simp: less_Suc_eq)
  next
    case False
    with Suc show ?thesis by (auto simp: less_Suc_eq)
  qed
qed

text \<open>\<^verbatim>\<open>strrstr\<close> finds the last occurrence.\<close>

lemma strrstr_last:
  assumes "s2 \<noteq> []"
  shows "strrstr s1 s2 = Some i \<longleftrightarrow>
    i < length s1 \<and> take (length s2) (drop i s1) = s2 \<and>
    (\<forall>j. i < j \<and> j < length s1 \<longrightarrow> take (length s2) (drop j s1) \<noteq> s2)"
  using assms by (simp add: strrstr_def strrstr_from_Some match_here_prefix)

fun strip_lead :: "string \<Rightarrow> string" where
  "strip_lead [] = []"
| "strip_lead (c # cs) = (if isblank c then strip_lead cs else c # cs)"

function strip_trail :: "string \<Rightarrow> string" where
  "strip_trail s = (if s \<noteq> [] \<and> isblank (last s) then strip_trail (butlast s) else s)"
  by pat_completeness auto
termination
  by (relation "measure length") auto

declare strip_trail.simps [simp del]

definition strclean :: "string \<Rightarrow> string" where
  "strclean s = (let s1 = strip_lead s in if s1 = [] then s1 else strip_trail s1)"

lemma strip_lead_first: "strip_lead s = [] \<or> \<not> isblank (hd (strip_lead s))"
  by (induction s) auto

lemma strip_trail_last: "strip_trail s = [] \<or> \<not> isblank (last (strip_trail s))"
proof (induction s rule: strip_trail.induct)
  case (1 s)
  then show ?case by (cases "s \<noteq> [] \<and> isblank (last s)") (auto simp: strip_trail.simps [of s])
qed

lemma strip_trail_same: "s = [] \<or> \<not> isblank (last s) \<Longrightarrow> strip_trail s = s"
  by (auto simp: strip_trail.simps [of s])

lemma strclean_same:
  "s = [] \<or> \<not> isblank (hd s) \<and> \<not> isblank (last s) \<Longrightarrow> strclean s = s"
  by (cases s) (auto simp: strclean_def Let_def strip_trail_same)

lemma strclean_empty [simp]: "strclean [] = []"
  by (simp add: strclean_def)

section \<open>Numbers and tokens\<close>

definition strtol_err :: "string option \<Rightarrow> cbuf \<Rightarrow> u64 \<times> cbuf" where
  "strtol_err str e =
     (case str of None \<Rightarrow> (- 1, concat_c e ''NULL argument `str`'')
      | Some s \<Rightarrow>
         (let (v, rest) = strtol s 0 in
          if rest \<noteq> [] then (- 1, concat_c e (''invalid number '' @ quoted s)) else (v, e)))"

text \<open>The floating-point conversion is a parameter: the value and the text it leaves.\<close>

definition strtold_err ::
    "(string \<Rightarrow> 'ld \<times> string) \<Rightarrow> 'ld \<Rightarrow> string option \<Rightarrow> cbuf \<Rightarrow> 'ld \<times> cbuf" where
  "strtold_err strtold minus1 str e =
     (case str of None \<Rightarrow> (minus1, concat_c e ''NULL argument `str`'')
      | Some s \<Rightarrow>
         (let (v, rest) = strtold s in
          if rest \<noteq> [] then (minus1, concat_c e (''invalid number '' @ quoted s)) else (v, e)))"

definition is_number_fast :: "string option \<Rightarrow> bool" where
  "is_number_fast str = (if str = None then False else snd (strtol_err str None) = None)"

text \<open>
  \<^verbatim>\<open>strtok_r\<close> of the C library: skip delimiters, take up to the next one. The saved pointer is NULL
  once the end of the text is reached.
\<close>

definition strtok_r :: "string option \<Rightarrow> string \<Rightarrow> string option \<times> string option" where
  "strtok_r s delim =
     (case s of None \<Rightarrow> (None, None)
      | Some t \<Rightarrow>
         (let t1 = dropWhile (\<lambda>c. c \<in> set delim) t;
              w = takeWhile (\<lambda>c. c \<notin> set delim) t1;
              r = dropWhile (\<lambda>c. c \<notin> set delim) t1
          in if t1 = [] then (None, None)
             else (Some w, case r of [] \<Rightarrow> None | _ # r' \<Rightarrow> Some r')))"

lemma strtok_r_shorter:
  assumes "strtok_r (Some t) delim = (Some w, Some r)"
  shows "length r < length t"
proof -
  define t1 where "t1 = dropWhile (\<lambda>c. c \<in> set delim) t"
  define d where "d = dropWhile (\<lambda>c. c \<notin> set delim) t1"
  have "length d \<le> length t1" "length t1 \<le> length t"
    by (simp_all add: t1_def d_def length_dropWhile_le)
  with assms show ?thesis
    by (auto simp: strtok_r_def Let_def t1_def [symmetric] d_def [symmetric] split: if_splits list.splits)
qed

text \<open>The first token is cut at \<open>delim\<close>, the following ones at a space whatever \<open>delim\<close> is.\<close>

function token_loop :: "string option \<times> string option \<Rightarrow> string list" where
  "token_loop (None, r) = []"
| "token_loop (Some w, None) = [w]"
| "token_loop (Some w, Some r) = w # token_loop (strtok_r (Some r) '' '')"
  by pat_completeness auto
termination
proof (relation "measure (\<lambda>(w, r). case w of None \<Rightarrow> 0 | Some _ \<Rightarrow>
    (case r of None \<Rightarrow> 1 | Some r \<Rightarrow> 2 + length r))", goal_cases)
  case 1
  show ?case by simp
next
  case (2 w r)
  show ?case
  proof (cases "strtok_r (Some r) '' ''")
    case (Pair w' r')
    with strtok_r_shorter [of r "'' ''"] show ?thesis
      by (auto split: option.splits)
  qed
qed

definition token_array :: "string option \<Rightarrow> string \<Rightarrow> string list option" where
  "token_array str delim =
     (case str of None \<Rightarrow> None | Some s \<Rightarrow> Some (token_loop (strtok_r (Some s) delim)))"

lemma strtok_r_token:
  "strtok_r s delim = (Some w, r) \<Longrightarrow> w \<noteq> [] \<and> set w \<inter> set delim = {}"
proof -
  assume a: "strtok_r s delim = (Some w, r)"
  then obtain t where t: "s = Some t" by (auto simp: strtok_r_def split: option.splits)
  define t1 where "t1 = dropWhile (\<lambda>c. c \<in> set delim) t"
  from a t have w: "t1 \<noteq> []" "w = takeWhile (\<lambda>c. c \<notin> set delim) t1"
    by (auto simp: strtok_r_def Let_def t1_def [symmetric] split: if_splits)
  have "hd t1 \<notin> set delim"
    using hd_dropWhile [of "\<lambda>c. c \<in> set delim" t] w(1) by (simp add: t1_def)
  with w show ?thesis by (auto simp: takeWhile_eq_Nil_iff dest: set_takeWhileD)
qed

lemma token_loop_tokens:
  "(\<And>w r. wr = (Some w, r) \<Longrightarrow> w \<noteq> [] \<and> CHR '' '' \<notin> set w) \<Longrightarrow>
    \<forall>w \<in> set (token_loop wr). w \<noteq> [] \<and> CHR '' '' \<notin> set w"
proof (induction wr rule: token_loop.induct)
  case (3 w r)
  then show ?case using strtok_r_token [of "Some r" "'' ''"] by fastforce
qed auto

lemma token_array_tokens:
  "token_array (Some s) '' '' = Some ws \<Longrightarrow> w \<in> set ws \<Longrightarrow> w \<noteq> [] \<and> CHR '' '' \<notin> set w"
  using token_loop_tokens [of "strtok_r (Some s) '' ''"] strtok_r_token [of "Some s" "'' ''"]
  by (fastforce simp: token_array_def)

text \<open>\<^verbatim>\<open>strnran\<close> with the results of \<^verbatim>\<open>rand\<close> as an argument.\<close>

definition ran_chars :: string where
  "ran_chars = ''abcdefghijklmnopqrstuvwxyzABCDEFGHIJKLMNOPQRSTUVWXYZ0123456789''"

definition strnran :: "(nat \<Rightarrow> nat) \<Rightarrow> nat \<Rightarrow> string" where
  "strnran rnd n = map (\<lambda>i. ran_chars ! (rnd i mod length ran_chars)) [0..<n]"

fun is_whitespace_from :: "string \<Rightarrow> nat \<Rightarrow> bool" where
  "is_whitespace_from s 0 = (\<not> isalnum (cchar s 0))"
| "is_whitespace_from s (Suc i) = (if isalnum (cchar s (Suc i)) then False else is_whitespace_from s i)"

definition is_whitespace :: "string option \<Rightarrow> bool" where
  "is_whitespace str = (case str of None \<Rightarrow> False | Some s \<Rightarrow> is_whitespace_from s (length s))"

lemma is_whitespace_from_iff:
  "is_whitespace_from s n \<longleftrightarrow> (\<forall>i \<le> n. \<not> isalnum (cchar s i))"
  by (induction n) (auto simp: le_Suc_eq)

text \<open>Despite its name the test accepts any text without letters and digits.\<close>

lemma is_whitespace_iff: "is_whitespace (Some s) \<longleftrightarrow> (\<forall>c \<in> set s. \<not> isalnum c)"
proof -
  have "\<not> isalnum NUL" by code_simp
  then show ?thesis
    by (auto simp: is_whitespace_def is_whitespace_from_iff cchar_def all_set_conv_all_nth)
qed

end
