(* ===== verification/Expr.thy ===== *)
theory Expr
  imports Containers Strext
begin

text \<open>
  The expression evaluator of \<^verbatim>\<open>source/expr.c\<close>: substitution of convenience variables and
  registers, insertion of multiplication signs, and the two-stack evaluation loop over the
  characters. An index is a natural number (no caller passes a negative one), a \<^verbatim>\<open>long\<close> a 64-bit
  word whose arithmetic wraps. The two stacks are freed at the end; no result depends on that, and the
  write of \<^verbatim>\<open>stack_free\<close> into the freed object (see \<open>stack_free\<close>) is not repeated here.
\<close>

definition NEGATION :: char where
  "NEGATION = CHR ''N''"

definition perform_operation :: "u64 \<Rightarrow> u64 \<Rightarrow> char \<Rightarrow> cbuf \<Rightarrow> u64 \<times> cbuf" where
  "perform_operation left right op e =
     (if op = CHR ''+'' then (left + right, e)
      else if op = CHR ''-'' then (left - right, e)
      else if op = CHR ''*'' then (left * right, e)
      else if op = CHR ''/'' then
        (if right = 0 then (LONG_MIN, concat_c e ''attempt to divide by zero'')
         else (c_div left right, e))
      else (LONG_MIN, concat_c e (cstr (''unknown operator '' @ quoted [op]))))"

definition precedence :: "char \<Rightarrow> nat" where
  "precedence op =
     (if op = CHR ''+'' \<or> op = CHR ''-'' then 1
      else if op = CHR ''/'' \<or> op = CHR ''*'' then 2
      else if op = NEGATION then 3
      else 0)"

definition is_conv_var :: "string \<Rightarrow> int \<Rightarrow> int \<Rightarrow> bool" where
  "is_conv_var str start len =
     (case substr (Some str) start len of
        None \<Rightarrow> False
      | Some target \<Rightarrow> if length target = 0 then False
                       else if cchar target 0 \<noteq> CHR ''$'' then False else True)"

definition is_operator :: "char \<Rightarrow> bool" where
  "is_operator c \<longleftrightarrow> c = CHR ''+'' \<or> c = CHR ''-'' \<or> c = CHR ''*'' \<or> c = CHR ''/''"

definition is_neg_operator :: "string \<Rightarrow> nat \<Rightarrow> bool" where
  "is_neg_operator str idx =
     (if idx = 0 \<and> cchar str idx = CHR ''-'' then True
      else if cchar str idx \<noteq> CHR ''-'' then False
      else cchar str (idx - 1) = CHR ''('' \<or> is_operator (cchar str (idx - 1)))"

definition invalid_expr :: "string \<Rightarrow> char \<Rightarrow> nat \<Rightarrow> bool" where
  "invalid_expr str cur_op idx =
     (if idx = 0 then False
      else if idx = length str then False
      else (let prev_op = cchar str (idx - 1) in
        if \<not> (is_operator prev_op \<and> is_operator cur_op) then False
        else if prev_op = cur_op then (if prev_op \<noteq> CHR ''-'' then True else False)
        else is_operator prev_op \<and> \<not> isdigit cur_op \<and> \<not> is_neg_operator str idx))"

definition is_end_of_number :: "string \<Rightarrow> nat \<Rightarrow> bool" where
  "is_end_of_number str idx =
     (if idx > length str then True
      else (\<not> is_neg_operator str idx \<and> is_operator (cchar str idx)) \<or>
           cchar str idx = CHR ''('' \<or> cchar str idx = CHR '')'')"

function end_of_operand_from :: "string \<Rightarrow> nat \<Rightarrow> nat" where
  "end_of_operand_from str e =
     (if \<not> is_end_of_number str e \<and> e < length str then end_of_operand_from str (Suc e) else e)"
  by pat_completeness auto
termination
  by (relation "measure (\<lambda>(str, e). length str - e)") auto

declare end_of_operand_from.simps [simp del]

definition find_end_of_operand :: "string \<Rightarrow> nat \<Rightarrow> int" where
  "find_end_of_operand str start =
     (if start > length str then - 1 else int (end_of_operand_from str start))"

text \<open>
  \<open>cv\<close> is \<^verbatim>\<open>convvar_strval\<close> (\<open>None\<close> when it reports an error), \<open>rg\<close> the lookup of a register of the
  focused thread (\<open>None\<close> when no thread is focused; an unknown register gives no text). The loop
  need not stop: the text inserted for a variable is scanned again, but for its first character.
\<close>

partial_function (option) sub_conv_vars_from ::
    "(string \<Rightarrow> string option) \<Rightarrow> (string \<Rightarrow> string option) option \<Rightarrow> string \<Rightarrow> nat \<Rightarrow> cbuf
     \<Rightarrow> (string \<times> cbuf) option" where
  "sub_conv_vars_from cv rg expr idx e =
     (if idx < length expr then
        (if \<not> is_operator (cchar expr idx) \<and> \<not> is_neg_operator expr idx \<and>
            is_conv_var expr (int idx) (find_end_of_operand expr idx - int idx)
         then (let len = find_end_of_operand expr idx - int idx in
               case substr (Some expr) (int idx) len of
                 None \<Rightarrow> Some (expr, concat_c e ''expected convenience variable'')
               | Some varstr \<Rightarrow>
                   (let expr1 = cut_at expr idx (nat len) in
                    case cv varstr of
                      Some v \<Rightarrow> sub_conv_vars_from cv rg (ins_at expr1 v idx) (Suc idx) e
                    | None \<Rightarrow>
                        (case rg of
                           None \<Rightarrow> Some (expr1, concat_c e ''no focused thread'')
                         | Some r \<Rightarrow>
                             sub_conv_vars_from cv rg
                               (case r varstr of None \<Rightarrow> expr1 | Some v \<Rightarrow> ins_at expr1 v idx)
                               (Suc idx) e)))
         else sub_conv_vars_from cv rg expr (Suc idx) e)
      else Some (expr, e))"

declare sub_conv_vars_from.simps [code]

definition sub_conv_vars ::
    "(string \<Rightarrow> string option) \<Rightarrow> (string \<Rightarrow> string option) option \<Rightarrow> string \<Rightarrow> cbuf
     \<Rightarrow> (string \<times> cbuf) option" where
  "sub_conv_vars cv rg expr e = sub_conv_vars_from cv rg expr 0 e"

function add_mults_from :: "string \<Rightarrow> nat \<Rightarrow> string" where
  "add_mults_from expr idx =
     (if idx < length expr then
        (if 1 \<le> idx \<and> cchar expr idx = CHR ''('' \<and> \<not> is_operator (cchar expr (idx - 1)) \<and>
            isdigit (cchar expr (idx - 1))
         then add_mults_from (ins_at expr ''*'' idx) (Suc (Suc idx))
         else add_mults_from expr (Suc idx))
      else expr)"
  by pat_completeness auto
termination
  by (relation "measure (\<lambda>(expr, idx). length expr - idx)") (auto simp: ins_at_def)

declare add_mults_from.simps [simp del]

definition add_mults :: "string \<Rightarrow> string" where
  "add_mults expr = add_mults_from expr 0"

section \<open>The evaluation loop\<close>

text \<open>Operators lie on their stack as character codes; \<open>to_char\<close> is the cast \<^verbatim>\<open>(char)\<close>.\<close>

definition to_char :: "u64 \<Rightarrow> char" where
  "to_char w = char_of (unat (w AND 0xFF))"

definition of_chr :: "char \<Rightarrow> u64" where
  "of_chr c = of_nat (of_char c)"

text \<open>The result, whether it was a negation (\<^verbatim>\<open>*negative\<close>), the stacks and the error buffer.\<close>

definition process_stacks ::
    "stack \<Rightarrow> stack \<Rightarrow> cbuf \<Rightarrow> u64 \<times> bool \<times> stack \<times> stack \<times> cbuf" where
  "process_stacks operators operands e =
     (let (oc, operators1) = stack_pop operators;
          op = to_char oc;
          (second, operands1) = stack_pop operands
      in if op = NEGATION then (0, True, operators1, stack_push operands1 (second * - 1), e)
         else (let (first, operands2) = stack_pop operands1;
                   (r, e') = perform_operation first second op e
               in (r, False, operators1, operands2, e')))"

text \<open>
  The three loops \<^verbatim>\<open>while(!stack_empty(operators) && ...)\<close> around \<^verbatim>\<open>process_stacks\<close>, with the rest of
  the guard as an argument. The result starts with \<open>True\<close> when an error makes it jump to \<^verbatim>\<open>fail\<close>.
  (A top below \<open>- 1\<close> never arises, see \<open>stack_ok\<close>; the test makes the loop total.)
\<close>

function reduce_while ::
    "(char \<Rightarrow> bool) \<Rightarrow> stack \<Rightarrow> stack \<Rightarrow> cbuf \<Rightarrow> bool \<times> stack \<times> stack \<times> cbuf" where
  "reduce_while p operators operands e =
     (if stack_empty operators \<or> top operators < 0 \<or> \<not> p (to_char (stack_peek operators))
      then (False, operators, operands, e)
      else (case process_stacks operators operands e of
              (r, neg, operators1, operands1, e1) \<Rightarrow>
                if neg then reduce_while p operators1 operands1 e1
                else if e1 \<noteq> None then (True, operators1, operands1, e1)
                else reduce_while p operators1 (stack_push operands1 r) e1))"
  by pat_completeness auto
termination
  by (relation "measure (\<lambda>(p, operators, operands, e). nat (top operators + 1))")
     (auto simp: process_stacks_def stack_pop_def stack_empty_def Let_def
       split: option.splits prod.splits if_splits)

declare reduce_while.simps [simp del]

function skip_blanks :: "string \<Rightarrow> nat \<Rightarrow> nat" where
  "skip_blanks expr idx = (if isblank (cchar expr idx) then skip_blanks expr (Suc idx) else idx)"
  by pat_completeness auto
termination
proof (relation "measure (\<lambda>(expr, idx). length expr - idx)", goal_cases)
  case 1
  show ?case by simp
next
  case (2 expr idx)
  moreover have "\<not> isblank NUL" by (simp add: isblank_def)
  ultimately have "idx < length expr" by (cases "idx < length expr") (auto simp: cchar_def)
  then show ?case by simp
qed

declare skip_blanks.simps [simp del]

text \<open>The digits of a number: where they end, and base 16 as soon as one is a letter.\<close>

lemma not_isxdigit_NUL [simp]: "\<not> isxdigit NUL"
  by code_simp

function digit_run :: "string \<Rightarrow> nat \<Rightarrow> nat \<Rightarrow> nat \<times> nat" where
  "digit_run expr idx base =
     (if isdigit (cchar expr idx) \<or> isxdigit (cchar expr idx)
      then digit_run expr (Suc idx) (if is_af (tolower (cchar expr idx)) then 16 else base)
      else (idx, base))"
  by pat_completeness auto
termination
proof (relation "measure (\<lambda>(expr, idx, base). length expr - idx)", goal_cases)
  case 1
  show ?case by simp
next
  case (2 expr idx base)
  then have "isxdigit (cchar expr idx)" by (auto simp: isxdigit_def)
  then have "idx < length expr" by (cases "idx < length expr") (auto simp: cchar_def)
  then show ?case by simp
qed

declare digit_run.simps [simp del]

definition lex_number :: "string \<Rightarrow> nat \<Rightarrow> nat \<times> u64" where
  "lex_number expr idx =
     (let zerox = take 2 (drop idx expr) = ''0x'';
          idx1 = (if zerox then idx + 2 else idx);
          base0 = (if zerox then 16 else if isdigit (cchar expr idx) then 10 else 16);
          num_s = drop idx1 expr;
          (idx2, base) = digit_run expr idx1 base0
      in (idx2, fst (strtol num_s base)))"

lemma skip_blanks_ge: "idx \<le> skip_blanks expr idx"
proof (induction expr idx rule: skip_blanks.induct)
  case (1 expr idx)
  then show ?case
    by (cases "isblank (cchar expr idx)") (auto simp: skip_blanks.simps [of expr idx])
qed

lemma digit_run_ge: "idx \<le> fst (digit_run expr idx base)"
proof (induction expr idx base rule: digit_run.induct)
  case (1 expr idx base)
  then show ?case
    by (cases "isxdigit (cchar expr idx)")
       (auto simp: digit_run.simps [of expr idx base] isxdigit_def)
qed

lemma lex_number_gt:
  assumes "isxdigit (cchar expr idx)"
  shows "idx < fst (lex_number expr idx)"
proof (cases "take 2 (drop idx expr) = ''0x''")
  case True
  have "idx + 2 \<le> fst (digit_run expr (idx + 2) 16)" by (rule digit_run_ge)
  with True show ?thesis by (auto simp: lex_number_def Let_def split: prod.splits)
next
  case False
  have "fst (digit_run expr idx b) > idx" for b
  proof -
    have "digit_run expr idx b
        = digit_run expr (Suc idx) (if is_af (tolower (cchar expr idx)) then 16 else b)"
      using assms by (subst digit_run.simps) simp
    then show ?thesis using digit_run_ge [of "Suc idx" expr] by (simp add: Suc_le_eq)
  qed
  from this [of "if isdigit (cchar expr idx) then 10 else 16"] False show ?thesis
    by (auto simp: lex_number_def Let_def split: prod.splits)
qed

text \<open>\<open>True\<close> in front means that the loop went to \<^verbatim>\<open>fail\<close>.\<close>

function eval_loop ::
    "string \<Rightarrow> nat \<Rightarrow> stack \<Rightarrow> stack \<Rightarrow> cbuf \<Rightarrow> bool \<times> stack \<times> stack \<times> cbuf" where
  "eval_loop expr idx operators operands e =
     (if idx < length expr then
        (let i = skip_blanks expr idx; current = cchar expr i in
         if is_neg_operator expr i
           then eval_loop expr (Suc i) (stack_push operators (of_chr NEGATION)) operands e
         else if isxdigit current
           then (let num = snd (lex_number expr i) in
                 eval_loop expr (fst (lex_number expr i)) operators (stack_push operands num) e)
         else if current = CHR ''(''
           then eval_loop expr (Suc i) (stack_push operators (of_chr (CHR ''(''))) operands e
         else if current = CHR '')''
           then (case reduce_while (\<lambda>c. c \<noteq> CHR ''('') operators operands e of
                   (failed, operators1, operands1, e1) \<Rightarrow>
                     if failed then (True, operators1, operands1, e1)
                     else eval_loop expr (Suc i) (snd (stack_pop operators1)) operands1 e1)
         else if is_operator current
           then (case reduce_while (\<lambda>c. precedence c \<ge> precedence current) operators operands e of
                   (failed, operators1, operands1, e1) \<Rightarrow>
                     if failed then (True, operators1, operands1, e1)
                     else eval_loop expr (Suc i) (stack_push operators1 (of_chr current)) operands1 e1)
         else (True, operators, operands,
               concat_c e (cstr (''bad character '' @ [current] @ '' at index '' @ show_dec (int i)))))
      else (False, operators, operands, e))"
  by pat_completeness auto
termination
proof (relation "measure (\<lambda>(expr, idx, operators, operands, e). length expr - idx)", goal_cases)
  case 1
  show ?case by simp
next
  case (2 expr idx operators operands e i current)
  then show ?case using skip_blanks_ge [of idx expr] by auto
next
  case (3 expr idx operators operands e i current num)
  then show ?case using skip_blanks_ge [of idx expr] lex_number_gt [of expr i] by auto
next
  case (4 expr idx operators operands e i current)
  then show ?case using skip_blanks_ge [of idx expr] by auto
next
  case (5 expr idx operators operands e i current)
  then show ?case using skip_blanks_ge [of idx expr] by auto
next
  case (6 expr idx operators operands e i current)
  then show ?case using skip_blanks_ge [of idx expr] by auto
qed

declare eval_loop.simps [simp del]

text \<open>
  The text for two operators in a row. With more than three characters it prints \<^verbatim>\<open>expr[i+2]\<close>, which
  lies behind the terminator when the second operator is the last character.
\<close>

definition unexpected_text :: "string \<Rightarrow> nat \<Rightarrow> string" where
  "unexpected_text expr i =
     (let n = length expr; shown = (\<lambda>k j. if n > k \<and> cchar expr j \<noteq> NUL then cchar expr j else CHR '' '') in
      ''unexpected operator '' @ quoted [cchar expr i] @ '' at index '' @ show_dec (int i) @
      CHR 0x0A # ''error around here: '' @
      [shown 0 (i - 1), shown 1 i, shown 2 (i + 1), shown 3 (i + 2)] @
      CHR 0x0A # replicate 20 (CHR '' '') @ ''^'')"

definition evaluate :: "string \<Rightarrow> cbuf \<Rightarrow> (u64 \<times> cbuf) run" where
  "evaluate expr e =
     (case find (\<lambda>i. invalid_expr expr (cchar expr i) i) [1..<length expr] of
        Some i \<Rightarrow>
          if 3 < length expr \<and> length expr < i + 2 then Inl OutOfBounds
          else Inr (LONG_MIN, concat_c e (unexpected_text expr i))
      | None \<Rightarrow>
          (case eval_loop expr 0 stack_new stack_new e of
             (failed, operators, operands, e1) \<Rightarrow>
               if failed then Inr (LONG_MIN, e1)
               else (case reduce_while (\<lambda>_. True) operators operands e1 of
                       (failed2, operators2, operands2, e2) \<Rightarrow>
                         if failed2 then Inr (LONG_MIN, e2)
                         else Inr (fst (stack_pop operands2), e2))))"

definition eval_expr ::
    "(string \<Rightarrow> string option) \<Rightarrow> (string \<Rightarrow> string option) option \<Rightarrow> string option \<Rightarrow> cbuf
     \<Rightarrow> (u64 \<times> cbuf) run" where
  "eval_expr cv rg str e =
     (case str of
        None \<Rightarrow> Inr (LONG_MIN, concat_c e ''empty expression string'')
      | Some s \<Rightarrow>
          if length s = 0 then Inr (LONG_MIN, concat_c e ''empty expression string'')
          else (case sub_conv_vars cv rg (strclean s) e of
                  None \<Rightarrow> Inl Diverges
                | Some (expr, e1) \<Rightarrow>
                    if e1 \<noteq> None then Inr (LONG_MIN, e1)
                    else bind_run (evaluate (add_mults expr) e1) (\<lambda>(r, e2).
                           if e2 \<noteq> None then Inr (LONG_MIN, e2) else Inr (r, e2))))"

text \<open>\<^verbatim>\<open>is_number_slow\<close> of \<^verbatim>\<open>source/strext.c\<close>.\<close>

definition is_number_slow ::
    "(string \<Rightarrow> string option) \<Rightarrow> (string \<Rightarrow> string option) option \<Rightarrow> string option \<Rightarrow> bool run" where
  "is_number_slow cv rg str =
     (if str = None then Inr False
      else bind_run (eval_expr cv rg str None) (\<lambda>(_, e). Inr (e = None)))"

end
