(* ===== verification/ExprSpec.thy ===== *)
theory ExprSpec
  imports Expr
begin

text \<open>
  What the evaluator of \<^verbatim>\<open>source/expr.c\<close> promises. First the two-stack loop over the \<^verbatim>\<open>struct
  stack\<close>s is refined to the same loop over plain lists; then expressions printed with as few
  parentheses as precedence and left associativity allow are shown to evaluate to their meaning.
\<close>

section \<open>The loop over lists\<close>

definition pop_l :: "u64 list \<Rightarrow> u64 \<times> u64 list" where
  "pop_l vs = (case vs of [] \<Rightarrow> (STACK_ERR, []) | x # xs \<Rightarrow> (x, xs))"

lemma pop_l_simps [simp]: "pop_l [] = (STACK_ERR, [])" "pop_l (x # xs) = (x, xs)"
  by (simp_all add: pop_l_def)

fun reduce_l :: "(char \<Rightarrow> bool) \<Rightarrow> char list \<Rightarrow> u64 list \<Rightarrow> cbuf
    \<Rightarrow> bool \<times> char list \<times> u64 list \<times> cbuf" where
  "reduce_l p [] vs e = (False, [], vs, e)"
| "reduce_l p (oc # os) vs e =
     (if \<not> p oc then (False, oc # os, vs, e)
      else (let (second, vs1) = pop_l vs in
        if oc = NEGATION then reduce_l p os (- second # vs1) e
        else (let (first, vs2) = pop_l vs1; (r, e1) = perform_operation first second oc e in
              if e1 \<noteq> None then (True, os, vs2, e1) else reduce_l p os (r # vs2) e1)))"

function eval_l :: "string \<Rightarrow> nat \<Rightarrow> char list \<Rightarrow> u64 list \<Rightarrow> cbuf
    \<Rightarrow> bool \<times> char list \<times> u64 list \<times> cbuf" where
  "eval_l expr idx os vs e =
     (if idx < length expr then
        (let i = skip_blanks expr idx; current = cchar expr i in
         if is_neg_operator expr i then eval_l expr (Suc i) (NEGATION # os) vs e
         else if isxdigit current
           then eval_l expr (fst (lex_number expr i)) os (snd (lex_number expr i) # vs) e
         else if current = CHR ''('' then eval_l expr (Suc i) (CHR ''('' # os) vs e
         else if current = CHR '')''
           then (case reduce_l (\<lambda>c. c \<noteq> CHR ''('') os vs e of
                   (failed, os1, vs1, e1) \<Rightarrow>
                     if failed then (True, os1, vs1, e1) else eval_l expr (Suc i) (tl os1) vs1 e1)
         else if is_operator current
           then (case reduce_l (\<lambda>c. precedence c \<ge> precedence current) os vs e of
                   (failed, os1, vs1, e1) \<Rightarrow>
                     if failed then (True, os1, vs1, e1)
                     else eval_l expr (Suc i) (current # os1) vs1 e1)
         else (True, os, vs,
               concat_c e (cstr (''bad character '' @ [current] @ '' at index '' @ show_dec (int i)))))
      else (False, os, vs, e))"
  by pat_completeness auto
termination
proof (relation "measure (\<lambda>(expr, idx, os, vs, e). length expr - idx)", goal_cases)
  case 1
  show ?case by simp
next
  case (2 expr idx os vs e i current)
  then show ?case using skip_blanks_ge [of idx expr] by auto
next
  case (3 expr idx os vs e i current)
  then show ?case using skip_blanks_ge [of idx expr] lex_number_gt [of expr i] by auto
next
  case (4 expr idx os vs e i current)
  then show ?case using skip_blanks_ge [of idx expr] by auto
next
  case (5 expr idx os vs e i current)
  then show ?case using skip_blanks_ge [of idx expr] by auto
next
  case (6 expr idx os vs e i current)
  then show ?case using skip_blanks_ge [of idx expr] by auto
qed

declare eval_l.simps [simp del]

definition finish_l :: "bool \<times> char list \<times> u64 list \<times> cbuf \<Rightarrow> u64 \<times> cbuf" where
  "finish_l r =
     (case r of (failed, os, vs, e) \<Rightarrow>
        if failed then (LONG_MIN, e)
        else (case reduce_l (\<lambda>_. True) os vs e of (failed2, os2, vs2, e2) \<Rightarrow>
                if failed2 then (LONG_MIN, e2) else (fst (pop_l vs2), e2)))"

text \<open>The stacks of the code hold the lists: operators by their codes, operands as they are.\<close>

definition holds :: "stack \<Rightarrow> stack \<Rightarrow> char list \<Rightarrow> u64 list \<Rightarrow> bool" where
  "holds operators operands os vs \<longleftrightarrow> stack_ok operators \<and> stack_ok operands \<and>
     stack_list operators = map of_chr os \<and> stack_list operands = vs"

lemma to_char_of_chr [simp]: "to_char (of_chr c) = c"
proof -
  have c: "(of_char c :: nat) < 256" by (rule nat_of_char_less_256)
  have "unat (of_nat (of_char c) :: u64) = of_char c"
    using c by (simp add: unat_of_nat take_bit_nat_eq_self_iff del: nat_of_char_less_256)
  moreover have "x AND 0xFF = take_bit 8 x" for x :: u64
    by (simp add: take_bit_eq_mask mask_eq_exp_minus_1)
  ultimately show ?thesis
    using c by (simp add: to_char_def of_chr_def unsigned_take_bit_eq take_bit_nat_eq_self
        del: of_nat_of_char)
qed

lemma holds_new: "holds stack_new stack_new [] []"
  by (simp add: holds_def stk.laws)

lemma holds_push_operator:
  "holds ops vals os vs \<Longrightarrow> holds (stack_push ops (of_chr c)) vals (c # os) vs"
  by (simp add: holds_def stk.laws)

lemma holds_push_operand:
  "holds ops vals os vs \<Longrightarrow> holds ops (stack_push vals x) os (x # vs)"
  by (simp add: holds_def stk.laws)

lemma holds_pop_operator:
  "holds ops vals os vs \<Longrightarrow> holds (snd (stack_pop ops)) vals (tl os) vs"
  by (simp add: holds_def stk.laws map_tl)

lemma holds_pop_operand:
  "holds ops vals os vs \<Longrightarrow> fst (stack_pop vals) = fst (pop_l vs) \<and>
    holds ops (snd (stack_pop vals)) os (snd (pop_l vs))"
  by (cases vs) (simp_all add: holds_def stk.laws)

lemma holds_top:
  "holds ops vals (c # os) vs \<Longrightarrow> \<not> stack_empty ops \<and> \<not> top ops < 0 \<and>
    stack_peek ops = of_chr c \<and> fst (stack_pop ops) = of_chr c"
  by (auto simp: holds_def stk.laws stack_ok_def stack_list_def split: option.splits)

lemma holds_no_top: "holds ops vals [] vs \<Longrightarrow> stack_empty ops"
  by (simp add: holds_def stk.laws)

text \<open>Both runs of a loop end alike, and the resulting stacks hold the resulting lists.\<close>

definition same_end ::
    "bool \<times> stack \<times> stack \<times> cbuf \<Rightarrow> bool \<times> char list \<times> u64 list \<times> cbuf \<Rightarrow> bool" where
  "same_end r l \<longleftrightarrow>
     (case r of (f, ops, vals, e) \<Rightarrow> case l of (f', os, vs, e') \<Rightarrow>
        f = f' \<and> e = e' \<and> holds ops vals os vs)"

lemma reduce_refines:
  "holds ops vals os vs \<Longrightarrow> same_end (reduce_while p ops vals e) (reduce_l p os vs e)"
proof (induction os arbitrary: ops vals vs e)
  case Nil
  then show ?case
    by (subst reduce_while.simps) (simp add: same_end_def holds_no_top)
next
  case (Cons c os)
  note top = holds_top [OF Cons.prems]
  show ?case
  proof (cases "p c")
    case False
    with top Cons.prems show ?thesis
      by (subst reduce_while.simps) (simp add: same_end_def)
  next
    case True
    obtain ops1 where ops1: "stack_pop ops = (of_chr c, ops1)"
      using top by (metis prod.collapse)
    obtain second vals1 where v1: "stack_pop vals = (second, vals1)" by fastforce
    obtain first vals2 where v2: "stack_pop vals1 = (first, vals2)" by fastforce
    define vs1 where "vs1 = snd (pop_l vs)"
    define vs2 where "vs2 = snd (pop_l vs1)"
    have h1: "holds ops1 vals os vs" using holds_pop_operator [OF Cons.prems] ops1 by simp
    from holds_pop_operand [OF h1] v1
    have h2: "pop_l vs = (second, vs1)" "holds ops1 vals1 os vs1"
      by (simp_all add: vs1_def prod_eq_iff)
    from holds_pop_operand [OF h2(2)] v2
    have h3: "pop_l vs1 = (first, vs2)" "holds ops1 vals2 os vs2"
      by (simp_all add: vs2_def prod_eq_iff)
    obtain r e1 where pe: "perform_operation first second c e = (r, e1)" by fastforce
    show ?thesis
    proof (cases "c = NEGATION")
      case neg: True
      have "holds ops1 (stack_push vals1 (second * - 1)) os (- second # vs1)"
        using holds_push_operand [OF h2(2), of "second * - 1"] by simp
      from Cons.IH [OF this, of e] show ?thesis
        using top True neg ops1 v1 h2(1)
        by (subst reduce_while.simps) (simp add: process_stacks_def Let_def)
    next
      case False
      show ?thesis
      proof (cases "e1 = None")
        case True
        with Cons.IH [OF holds_push_operand [OF h3(2)], of r e1] show ?thesis
          using top \<open>p c\<close> False ops1 v1 v2 h2(1) h3(1) pe
          by (subst reduce_while.simps) (simp add: process_stacks_def Let_def)
      next
        case err: False
        with h3 show ?thesis
          using top \<open>p c\<close> False ops1 v1 v2 h2(1) h3(1) pe
          by (subst reduce_while.simps) (simp add: process_stacks_def Let_def same_end_def)
      qed
    qed
  qed
qed

lemma eval_loop_refines:
  "holds ops vals os vs \<Longrightarrow> same_end (eval_loop expr idx ops vals e) (eval_l expr idx os vs e)"
proof (induction expr idx os vs e arbitrary: ops vals rule: eval_l.induct)
  case (1 expr idx os vs e)
  define i where "i = skip_blanks expr idx"
  define cur where "cur = cchar expr i"
  note IH = "1.IH" [OF _ i_def cur_def]
  show ?case
  proof (cases "idx < length expr")
    case False
    with "1.prems" show ?thesis
      by (simp add: eval_loop.simps [of expr idx] eval_l.simps [of expr idx] same_end_def)
  next
    case lt: True
    have red: "\<exists>f ops1 vals1 os1 vs1 e1. reduce_while p ops vals e = (f, ops1, vals1, e1) \<and>
        reduce_l p os vs e = (f, os1, vs1, e1) \<and> holds ops1 vals1 os1 vs1" for p
      using reduce_refines [OF "1.prems", of p e]
      by (auto simp: same_end_def split: prod.splits)
    show ?thesis
    proof (cases "is_neg_operator expr i")
      case True
      with IH(1) [OF lt True] holds_push_operator [OF "1.prems"] lt show ?thesis
        by (simp add: eval_loop.simps [of expr idx] eval_l.simps [of expr idx] Let_def
            i_def [symmetric])
    next
      case nn: False
      show ?thesis
      proof (cases "isxdigit cur")
        case True
        with IH(2) [OF lt nn True] holds_push_operand [OF "1.prems"] lt nn show ?thesis
          by (simp add: eval_loop.simps [of expr idx] eval_l.simps [of expr idx] Let_def
              i_def [symmetric] cur_def [symmetric])
      next
        case nx: False
        consider "cur = CHR ''(''" | "cur \<noteq> CHR ''(''" "cur = CHR '')''"
          | "cur \<noteq> CHR ''(''" "cur \<noteq> CHR '')''" "is_operator cur"
          | "cur \<noteq> CHR ''(''" "cur \<noteq> CHR '')''" "\<not> is_operator cur" by blast
        then show ?thesis
        proof cases
          case c: 1
          with IH(3) [OF lt nn nx] holds_push_operator [OF "1.prems"] lt nn nx show ?thesis
            by (simp add: eval_loop.simps [of expr idx] eval_l.simps [of expr idx] Let_def
                i_def [symmetric] cur_def [symmetric])
        next
          case c: 2
          from red [of "\<lambda>c. c \<noteq> CHR ''(''"] obtain f ops1 vals1 os1 vs1 e1 where r:
            "reduce_while (\<lambda>c. c \<noteq> CHR ''('') ops vals e = (f, ops1, vals1, e1)"
            "reduce_l (\<lambda>c. c \<noteq> CHR ''('') os vs e = (f, os1, vs1, e1)"
            "holds ops1 vals1 os1 vs1" by blast
          show ?thesis
          proof (cases f)
            case True
            with r c lt nn nx show ?thesis
              by (simp add: eval_loop.simps [of expr idx] eval_l.simps [of expr idx] Let_def
                  i_def [symmetric] cur_def [symmetric] same_end_def)
          next
            case False
            with r IH(4) [OF lt nn nx c r(2) [symmetric] refl refl False]
              holds_pop_operator [OF r(3)] c lt nn nx show ?thesis
              by (simp add: eval_loop.simps [of expr idx] eval_l.simps [of expr idx] Let_def
                  i_def [symmetric] cur_def [symmetric])
          qed
        next
          case c: 3
          from red [of "\<lambda>c. precedence c \<ge> precedence cur"] obtain f ops1 vals1 os1 vs1 e1 where r:
            "reduce_while (\<lambda>c. precedence c \<ge> precedence cur) ops vals e = (f, ops1, vals1, e1)"
            "reduce_l (\<lambda>c. precedence c \<ge> precedence cur) os vs e = (f, os1, vs1, e1)"
            "holds ops1 vals1 os1 vs1" by blast
          show ?thesis
          proof (cases f)
            case True
            with r c lt nn nx show ?thesis
              by (simp add: eval_loop.simps [of expr idx] eval_l.simps [of expr idx] Let_def
                  i_def [symmetric] cur_def [symmetric] same_end_def)
          next
            case False
            with r IH(5) [OF lt nn nx c r(2) [symmetric] refl refl False]
              holds_push_operator [OF r(3)] c lt nn nx show ?thesis
              by (simp add: eval_loop.simps [of expr idx] eval_l.simps [of expr idx] Let_def
                  i_def [symmetric] cur_def [symmetric])
          qed
        next
          case c: 4
          with "1.prems" lt nn nx show ?thesis
            by (simp add: eval_loop.simps [of expr idx] eval_l.simps [of expr idx] Let_def
                i_def [symmetric] cur_def [symmetric] same_end_def)
        qed
      qed
    qed
  qed
qed

definition no_invalid :: "string \<Rightarrow> bool" where
  "no_invalid expr \<longleftrightarrow> (\<forall>i \<in> set [1..<length expr]. \<not> invalid_expr expr (cchar expr i) i)"

lemma evaluate_lists:
  assumes "no_invalid expr"
  shows "evaluate expr e = Inr (finish_l (eval_l expr 0 [] [] e))"
proof -
  have f: "find (\<lambda>i. invalid_expr expr (cchar expr i) i) [1..<length expr] = None"
    using assms by (auto simp: find_None_iff no_invalid_def)
  obtain fl ops vals e1 where l: "eval_loop expr 0 stack_new stack_new e = (fl, ops, vals, e1)"
    by (metis prod_cases4)
  from eval_loop_refines [OF holds_new, of expr 0 e] l obtain os vs where
    s: "eval_l expr 0 [] [] e = (fl, os, vs, e1)" "holds ops vals os vs"
    by (auto simp: same_end_def split: prod.splits)
  from reduce_refines [OF s(2), of "\<lambda>_. True" e1] obtain f2 ops2 vals2 e2 os2 vs2 where
    r: "reduce_while (\<lambda>_. True) ops vals e1 = (f2, ops2, vals2, e2)"
      "reduce_l (\<lambda>_. True) os vs e1 = (f2, os2, vs2, e2)" "holds ops2 vals2 os2 vs2"
    by (auto simp: same_end_def split: prod.splits)
  from holds_pop_operand [OF r(3)] show ?thesis
    using f l s(1) r(1,2) by (simp add: evaluate_def finish_l_def)
qed

end
