(* ===== verification/ExprCorrect.thy ===== *)
theory ExprCorrect
  imports ExprSpec
begin

text \<open>
  Arithmetic expressions, their printed form and their meaning, and the proof that the evaluator
  computes the meaning from the printed form.
\<close>

section \<open>Expressions\<close>

datatype binop = Add | Sub | Mul | Div

datatype ex = Num nat | Hex nat | Neg ex | Bin binop ex ex

fun op_char :: "binop \<Rightarrow> char" where
  "op_char Add = CHR ''+''"
| "op_char Sub = CHR ''-''"
| "op_char Mul = CHR ''*''"
| "op_char Div = CHR ''/''"

fun level :: "ex \<Rightarrow> nat" where
  "level (Num n) = 4"
| "level (Hex n) = 4"
| "level (Neg a) = 3"
| "level (Bin f a b) = precedence (op_char f)"

definition paren_if :: "bool \<Rightarrow> string \<Rightarrow> string" where
  "paren_if b s = (if b then ''('' @ s @ '')'' else s)"

text \<open>Parentheses appear exactly where the operand binds weaker than its place asks for.\<close>

fun print_ex :: "ex \<Rightarrow> string" where
  "print_ex (Num n) = show_base 10 (int n)"
| "print_ex (Hex n) = ''0x'' @ show_base 16 (int n)"
| "print_ex (Neg a) = ''-'' @ paren_if (level a < 3) (print_ex a)"
| "print_ex (Bin f a b) =
     paren_if (level a < precedence (op_char f)) (print_ex a) @ [op_char f] @
     paren_if (level b \<le> precedence (op_char f)) (print_ex b)"

text \<open>64-bit arithmetic with truncating division; \<open>None\<close> for a division by zero. Literals saturate.\<close>

fun apply_op :: "binop \<Rightarrow> u64 \<Rightarrow> u64 \<Rightarrow> u64 option" where
  "apply_op Add a b = Some (a + b)"
| "apply_op Sub a b = Some (a - b)"
| "apply_op Mul a b = Some (a * b)"
| "apply_op Div a b = (if b = 0 then None else Some (c_div a b))"

fun meaning :: "ex \<Rightarrow> u64 option" where
  "meaning (Num n) = Some (saturate (int n))"
| "meaning (Hex n) = Some (saturate (int n))"
| "meaning (Neg a) = map_option uminus (meaning a)"
| "meaning (Bin f a b) =
     (case meaning a of None \<Rightarrow> None
      | Some x \<Rightarrow> (case meaning b of None \<Rightarrow> None | Some y \<Rightarrow> apply_op f x y))"

section \<open>The shape of printed expressions\<close>

definition finishes :: "char \<Rightarrow> bool" where
  "finishes c \<longleftrightarrow> isxdigit c \<or> c = CHR '')''"

definition starts :: "char \<Rightarrow> bool" where
  "starts c \<longleftrightarrow> isdigit c \<or> c = CHR ''-'' \<or> c = CHR ''(''"

text \<open>What may stand side by side in a printed expression.\<close>

definition beside :: "char \<Rightarrow> char \<Rightarrow> bool" where
  "beside a b \<longleftrightarrow> (is_operator a \<and> is_operator b \<longrightarrow> b = CHR ''-'') \<and> \<not> (isdigit a \<and> b = CHR ''('')"

definition plain_char :: "char \<Rightarrow> bool" where
  "plain_char c \<longleftrightarrow> c \<noteq> CHR ''$'' \<and> \<not> isblank c \<and> c \<noteq> NUL"

lemma char_facts [simp]:
  "\<not> isxdigit (CHR ''+'')" "\<not> isxdigit (CHR ''-'')" "\<not> isxdigit (CHR ''*'')"
  "\<not> isxdigit (CHR ''/'')" "\<not> isxdigit (CHR ''('')" "\<not> isxdigit (CHR '')'')"
  "\<not> isxdigit (CHR ''x'')" "isdigit (CHR ''0'')"
  "\<not> isdigit (CHR ''+'')" "\<not> isdigit (CHR ''-'')" "\<not> isdigit (CHR ''*'')"
  "\<not> isdigit (CHR ''/'')" "\<not> isdigit (CHR ''('')" "\<not> isdigit (CHR '')'')" "\<not> isdigit (CHR ''x'')"
  "\<not> isblank (CHR ''+'')" "\<not> isblank (CHR ''-'')" "\<not> isblank (CHR ''*'')"
  "\<not> isblank (CHR ''/'')" "\<not> isblank (CHR ''('')" "\<not> isblank (CHR '')'')"
  by (simp_all add: ctype_simps)

lemma isdigit_isxdigit [simp]: "isdigit c \<Longrightarrow> isxdigit c"
  by (simp add: isxdigit_def)

lemma xdigit_not_operator [simp]: "isxdigit c \<Longrightarrow> \<not> is_operator c"
  by (auto simp: is_operator_def)

lemma xdigit_plain: "isxdigit c \<Longrightarrow> plain_char c"
  by (auto simp: plain_char_def ctype_simps)

lemma is_operator_op_char [simp]: "is_operator (op_char f)"
  by (cases f) (simp_all add: is_operator_def)

lemma op_char_facts [simp]:
  "\<not> isxdigit (op_char f)" "\<not> isdigit (op_char f)" "\<not> isblank (op_char f)"
  "op_char f \<noteq> CHR ''(''" "op_char f \<noteq> CHR '')''" "op_char f \<noteq> NEGATION"
  "plain_char (op_char f)"
  by (cases f; simp add: NEGATION_def plain_char_def)+

lemma operator_facts:
  assumes "is_operator c"
  shows "\<not> isxdigit c" "\<not> isblank c" "c \<noteq> CHR ''(''" "c \<noteq> CHR '')''"
  using assms by (auto simp: is_operator_def)

lemma precedence_op_char: "precedence (op_char f) = (case f of Add \<Rightarrow> 1 | Sub \<Rightarrow> 1 | Mul \<Rightarrow> 2 | Div \<Rightarrow> 2)"
  by (cases f) (simp_all add: precedence_def)

lemma precedence_range: "1 \<le> precedence (op_char f)" "precedence (op_char f) \<le> 2"
  by (cases f; simp add: precedence_def)+

lemma precedence_paren [simp]: "precedence (CHR ''('') = 0" "precedence NEGATION = 3"
  by (simp_all add: precedence_def NEGATION_def)

lemma show_base_chars:
  assumes "b = 10 \<or> b = 16"
  shows "show_base b (int n) \<noteq> []" "\<forall>c \<in> set (show_base b (int n)). is_base_digit b c \<and> isxdigit c"
    "b = 10 \<Longrightarrow> \<forall>c \<in> set (show_base b (int n)). isdigit c"
proof -
  have b: "2 \<le> b" "b \<le> 16" using assms by auto
  note d = show_base_digits [OF b, of "int n"]
  show "show_base b (int n) \<noteq> []" using d by simp
  show "\<forall>c \<in> set (show_base b (int n)). is_base_digit b c \<and> isxdigit c"
  proof
    fix c assume "c \<in> set (show_base b (int n))"
    with d obtain k where k: "k < b" "c = digit_char k" by auto
    with b digit_char_base_digit [of k b] digit_chars [of k] show "is_base_digit b c \<and> isxdigit c"
      by simp
  qed
  show "\<forall>c \<in> set (show_base b (int n)). isdigit c" if "b = 10"
  proof
    fix c assume "c \<in> set (show_base b (int n))"
    with d obtain k where k: "k < b" "c = digit_char k" by auto
    with that digit_chars [of k] show "isdigit c" by simp
  qed
qed

definition well_shaped :: "string \<Rightarrow> bool" where
  "well_shaped s \<longleftrightarrow> s \<noteq> [] \<and> starts (hd s) \<and> finishes (last s) \<and> successively beside s \<and>
     (\<forall>c \<in> set s. plain_char c)"

lemma successively_digits: "\<forall>c \<in> set s. isxdigit c \<Longrightarrow> successively beside s"
  by (induction s rule: induct_list012) (auto simp: beside_def)

lemma beside_intros:
  "starts b \<Longrightarrow> beside (CHR ''('') b" "starts b \<Longrightarrow> beside (CHR ''-'') b"
  "starts b \<Longrightarrow> beside (op_char f) b" "finishes a \<Longrightarrow> beside a (CHR '')'')"
  "finishes a \<Longrightarrow> beside a (op_char f)"
  by (auto simp: beside_def starts_def finishes_def is_operator_def)

lemma well_shaped_digits:
  assumes "b = 10 \<or> b = 16"
  shows "finishes (last (show_base b (int n)))" "successively beside (show_base b (int n))"
    "\<forall>c \<in> set (show_base b (int n)). plain_char c"
proof -
  have d: "show_base b (int n) \<noteq> []" "\<forall>c \<in> set (show_base b (int n)). isxdigit c"
    using show_base_chars [OF assms, of n] by blast+
  then show "finishes (last (show_base b (int n)))" by (simp add: finishes_def)
  from d(2) show "successively beside (show_base b (int n))" by (rule successively_digits)
  from d(2) show "\<forall>c \<in> set (show_base b (int n)). plain_char c" by (simp add: xdigit_plain)
qed

lemma well_shaped_paren: "well_shaped s \<Longrightarrow> well_shaped (paren_if b s)"
  by (auto simp: well_shaped_def paren_if_def successively_append_iff successively_Cons starts_def
      finishes_def plain_char_def beside_intros)

lemma well_shaped_print: "well_shaped (print_ex e)"
proof (induction e)
  case (Num n)
  then show ?case
    using well_shaped_digits [of 10 n] show_base_chars [of 10 n]
    by (simp add: well_shaped_def starts_def)
next
  case (Hex n)
  have "starts (CHR ''0'')" "beside (CHR ''0'') (CHR ''x'')" "plain_char (CHR ''0'')" "plain_char (CHR ''x'')"
    by (simp_all add: starts_def beside_def is_operator_def plain_char_def isblank_def)
  moreover have "beside (CHR ''x'') c" for c by (simp add: beside_def is_operator_def)
  ultimately show ?case
    using well_shaped_digits [of 16 n] show_base_chars [of 16 n]
    by (simp add: well_shaped_def successively_Cons)
next
  case (Neg a)
  from well_shaped_paren [OF Neg] show ?case
    by (simp add: well_shaped_def successively_Cons starts_def beside_intros plain_char_def)
next
  case (Bin f a b)
  have A: "well_shaped (paren_if (level a < precedence (op_char f)) (print_ex a))"
    and B: "well_shaped (paren_if (level b \<le> precedence (op_char f)) (print_ex b))"
    using Bin by (auto intro: well_shaped_paren)
  then show ?case
    by (auto simp: well_shaped_def successively_append_iff successively_Cons beside_intros)
qed

section \<open>The steps of the loop on a piece of text\<close>

text \<open>Where an operand may start (a minus sign is a negation there), and what may follow one.\<close>

definition start_ok :: "string \<Rightarrow> bool" where
  "start_ok pre \<longleftrightarrow> pre = [] \<or> last pre = CHR ''('' \<or> is_operator (last pre)"

definition follow_ok :: "nat \<Rightarrow> string \<Rightarrow> bool" where
  "follow_ok k post \<longleftrightarrow> post = [] \<or> hd post = CHR '')'' \<or>
     (is_operator (hd post) \<and> precedence (hd post) \<le> k)"

definition run_at :: "string \<Rightarrow> nat \<Rightarrow> char list \<Rightarrow> u64 list \<Rightarrow> u64 \<times> cbuf" where
  "run_at str i os vs = finish_l (eval_l str i os vs None)"

abbreviation div_zero :: "u64 \<times> cbuf" where
  "div_zero \<equiv> (LONG_MIN, Some ''attempt to divide by zero'')"

lemma finish_failed [simp]: "finish_l (True, os, vs, e) = (LONG_MIN, e)"
  by (simp add: finish_l_def)

lemma skip_blanks_here: "\<not> isblank c \<Longrightarrow> skip_blanks (pre @ c # post) (length pre) = length pre"
  by (simp add: skip_blanks.simps [of "pre @ c # post"])

lemma is_neg_here:
  "is_neg_operator (pre @ c # post) (length pre) \<longleftrightarrow> c = CHR ''-'' \<and> start_ok pre"
  by (cases pre rule: rev_cases) (auto simp: is_neg_operator_def start_ok_def cchar_def nth_append)

lemma finishes_not_start: "finishes (last pre) \<Longrightarrow> pre \<noteq> [] \<Longrightarrow> \<not> start_ok pre"
  by (auto simp: start_ok_def finishes_def is_operator_def)

lemmas step_simps = run_at_def skip_blanks_here is_neg_here Let_def

lemma run_negation:
  "start_ok pre \<Longrightarrow> run_at (pre @ CHR ''-'' # post) (length pre) os vs
    = run_at (pre @ CHR ''-'' # post) (Suc (length pre)) (NEGATION # os) vs"
  by (simp add: step_simps eval_l.simps [of _ "length pre"])

lemma run_lparen:
  "run_at (pre @ CHR ''('' # post) (length pre) os vs
    = run_at (pre @ CHR ''('' # post) (Suc (length pre)) (CHR ''('' # os) vs"
  by (simp add: step_simps eval_l.simps [of _ "length pre"])

lemma run_rparen:
  "run_at (pre @ CHR '')'' # post) (length pre) (CHR ''('' # os) vs
    = run_at (pre @ CHR '')'' # post) (Suc (length pre)) os vs"
  by (simp add: step_simps eval_l.simps [of _ "length pre"])

lemma run_operator:
  assumes "\<not> start_ok pre" and "os = [] \<or> precedence (hd os) < precedence (op_char f)"
  shows "run_at (pre @ op_char f # post) (length pre) os vs
    = run_at (pre @ op_char f # post) (Suc (length pre)) (op_char f # os) vs"
proof -
  have "reduce_l (\<lambda>c. precedence c \<ge> precedence (op_char f)) os vs None = (False, os, vs, None)"
    using assms(2) by (cases os) auto
  then show ?thesis using assms(1)
    by (simp add: step_simps eval_l.simps [of _ "length pre"])
qed

text \<open>Behind an operand, an operator that binds at least as strongly as what follows is applied.\<close>

lemma run_reduce:
  assumes pre: "pre \<noteq> []" "finishes (last pre)" and f: "follow_ok k post"
    and oc: "oc \<noteq> CHR ''(''" "k \<le> precedence oc"
  shows "run_at (pre @ post) (length pre) (oc # os) vs =
    (let (second, vs1) = pop_l vs in
     if oc = NEGATION then run_at (pre @ post) (length pre) os (- second # vs1)
     else (let (first, vs2) = pop_l vs1; (r, e1) = perform_operation first second oc None in
           if e1 \<noteq> None then (LONG_MIN, e1) else run_at (pre @ post) (length pre) os (r # vs2)))"
proof -
  note ns = finishes_not_start [OF pre(2,1)]
  consider "post = []" | ps where "post = CHR '')'' # ps"
    | c ps where "post = c # ps" "is_operator c" "precedence c \<le> k"
    using f by (cases post) (auto simp: follow_ok_def)
  then show ?thesis
  proof cases
    case 1
    then show ?thesis
      by (simp add: run_at_def eval_l.simps [of pre] finish_l_def split: prod.splits)
  next
    case 2
    then show ?thesis using ns oc
      by (simp add: step_simps eval_l.simps [of _ "length pre"] split: prod.splits)
  next
    case 3
    note c = operator_facts [OF 3(2)]
    from 3 ns oc c show ?thesis
      by (simp add: step_simps eval_l.simps [of _ "length pre"] split: prod.splits)
  qed
qed

lemma run_reduce_neg:
  assumes "pre \<noteq> []" "finishes (last pre)" "follow_ok 2 post"
  shows "run_at (pre @ post) (length pre) (NEGATION # os) (x # vs)
    = run_at (pre @ post) (length pre) os (- x # vs)"
proof -
  have "NEGATION \<noteq> CHR ''(''" by (simp add: NEGATION_def)
  from run_reduce [OF assms this] show ?thesis by simp
qed

lemma run_reduce_op:
  assumes "pre \<noteq> []" "finishes (last pre)" "follow_ok (precedence (op_char f)) post"
  shows "run_at (pre @ post) (length pre) (op_char f # os) (y # x # vs)
    = (case apply_op f x y of None \<Rightarrow> div_zero
       | Some v \<Rightarrow> run_at (pre @ post) (length pre) os (v # vs))"
  using run_reduce [OF assms, of "op_char f"]
  by (cases f) (simp_all add: perform_operation_def NEGATION_def)

section \<open>Literals\<close>

lemma digit_run_all:
  assumes "\<forall>c \<in> set ds. isxdigit c" and "post = [] \<or> \<not> isxdigit (hd post)"
    and "base = 16 \<or> (\<forall>c \<in> set ds. isdigit c)"
  shows "digit_run (pre @ ds @ post) (length pre) base = (length pre + length ds, base)"
  using assms
proof (induction ds arbitrary: pre)
  case Nil
  have "\<not> isxdigit (cchar (pre @ post) (length pre))"
    using Nil.prems(2) by (auto simp: cchar_append split: list.splits)
  then have "\<not> isdigit (cchar (pre @ post) (length pre))" by (auto simp: isxdigit_def)
  with \<open>\<not> isxdigit _\<close> show ?case by (simp add: digit_run.simps [of "pre @ post"])
next
  case (Cons d ds)
  from Cons.prems have d: "isxdigit d" by simp
  have b: "(if is_af (tolower d) then 16 else base) = base"
  proof (cases "base = 16")
    case False
    with Cons.prems have "isdigit d" by simp
    then show ?thesis by (simp add: ctype_simps)
  qed simp
  from d b have "digit_run (pre @ (d # ds) @ post) (length pre) base
      = digit_run (pre @ (d # ds) @ post) (Suc (length pre)) base"
    by (subst digit_run.simps) simp
  also have "\<dots> = digit_run ((pre @ [d]) @ ds @ post) (length (pre @ [d])) base" by simp
  also have "\<dots> = (length (pre @ [d]) + length ds, base)"
    by (rule Cons.IH) (use Cons.prems in auto)
  finally show ?case by simp
qed

lemma xdigit_not_space: "isxdigit c \<Longrightarrow> \<not> isspace c \<and> c \<noteq> CHR ''-'' \<and> c \<noteq> CHR ''+'' \<and> c \<noteq> CHR ''x'' \<and> c \<noteq> CHR ''X''"
  by (auto simp: ctype_simps)

lemma strtol_literal:
  assumes b: "b = 10 \<or> b = 16" and post: "post = [] \<or> \<not> isxdigit (hd post) \<and> hd post \<noteq> CHR ''x'' \<and>
    hd post \<noteq> CHR ''X'' \<and> \<not> is_base_digit b (hd post)"
  shows "fst (strtol (show_base b (int n) @ post) b) = saturate (int n)"
proof -
  define ds where "ds = show_base b (int n)"
  have ds: "ds \<noteq> []" "\<forall>c \<in> set ds. is_base_digit b c \<and> isxdigit c"
    using show_base_chars [OF b] by (simp_all add: ds_def)
  then obtain d ds' where d: "ds = d # ds'" by (cases ds) auto
  have sp: "\<not> isspace d" "d \<noteq> CHR ''-''" "d \<noteq> CHR ''+''"
    using ds d xdigit_not_space [of d] by auto
  have nx: "\<not> has_0x (ds @ post)"
  proof -
    have "ds' @ post = [] \<or> hd (ds' @ post) \<noteq> CHR ''x'' \<and> hd (ds' @ post) \<noteq> CHR ''X''"
      using ds d post xdigit_not_space by (cases ds') auto
    then show ?thesis using d by (auto simp: has_0x_def split: list.splits)
  qed
  have "dropWhile isspace (ds @ post) = ds @ post" "strtol_sign (ds @ post) = (False, ds @ post)"
    using d sp by (simp_all add: strtol_sign_def)
  moreover have "takeWhile (is_base_digit b) (ds @ post) = ds"
    using takeWhile_all_append [of ds "is_base_digit b" post] ds(2) post by auto
  moreover have "digits_value b 0 ds = int n" using b show_base_value [of b "int n"] by (auto simp: ds_def)
  ultimately show ?thesis using b nx ds(1)
    by (auto simp: strtol_def strtol_base_def Let_def ds_def [symmetric])
qed

lemma operator_digits:
  "b = 10 \<or> b = 16 \<Longrightarrow> \<not> is_base_digit b (CHR '')'')" "b = 10 \<or> b = 16 \<Longrightarrow> \<not> is_base_digit b (CHR ''+'')"
  "b = 10 \<or> b = 16 \<Longrightarrow> \<not> is_base_digit b (CHR ''-'')" "b = 10 \<or> b = 16 \<Longrightarrow> \<not> is_base_digit b (CHR ''*'')"
  "b = 10 \<or> b = 16 \<Longrightarrow> \<not> is_base_digit b (CHR ''/'')"
  by (simp_all add: is_base_digit_def digit_val_def isalpha_def tolower_def)

lemma follow_chars:
  assumes "follow_ok k post" and "b = 10 \<or> b = 16"
  shows "post = [] \<or> \<not> isxdigit (hd post) \<and> hd post \<noteq> CHR ''x'' \<and> hd post \<noteq> CHR ''X'' \<and>
    \<not> is_base_digit b (hd post)"
  using assms(1) operator_digits [OF assms(2)] unfolding follow_ok_def is_operator_def
  by (elim disjE conjE) simp_all

lemma run_number:
  assumes "isxdigit c" and "lex_number (pre @ c # r) (length pre) = (j, v)"
  shows "run_at (pre @ c # r) (length pre) os vs = run_at (pre @ c # r) j os (v # vs)"
proof -
  have "c \<noteq> CHR ''-''" "\<not> isblank c" using assms(1) by (auto simp: ctype_simps)
  with assms show ?thesis by (simp add: step_simps eval_l.simps [of _ "length pre"])
qed

lemma lex_dec:
  assumes "follow_ok k post"
  shows "lex_number (pre @ show_base 10 (int n) @ post) (length pre)
    = (length pre + length (show_base 10 (int n)), saturate (int n))"
proof -
  define ds where "ds = show_base 10 (int n)"
  note fc = follow_chars [OF assms, of 10, simplified]
  have ds: "ds \<noteq> []" "\<forall>c \<in> set ds. isxdigit c" "\<forall>c \<in> set ds. isdigit c"
    using show_base_chars [of 10 n] by (simp_all add: ds_def)
  then obtain d ds' where d: "ds = d # ds'" by (cases ds) auto
  have "take 2 (ds @ post) \<noteq> ''0x''"
  proof -
    have "ds' @ post = [] \<or> hd (ds' @ post) \<noteq> CHR ''x''"
      using ds d fc xdigit_not_space by (cases ds') auto
    then show ?thesis using d by (cases "ds' @ post") (auto simp: numeral_2_eq_2)
  qed
  moreover have "isdigit (cchar (pre @ ds @ post) (length pre))" using d ds(3) by simp
  moreover have "digit_run (pre @ ds @ post) (length pre) 10 = (length pre + length ds, 10)"
    using ds fc by (intro digit_run_all) auto
  moreover have "fst (strtol (ds @ post) 10) = saturate (int n)"
    unfolding ds_def by (rule strtol_literal) (use fc in auto)
  ultimately show ?thesis by (simp add: lex_number_def Let_def ds_def [symmetric])
qed

lemma lex_hex:
  assumes "follow_ok k post"
  shows "lex_number (pre @ ''0x'' @ show_base 16 (int n) @ post) (length pre)
    = (length pre + 2 + length (show_base 16 (int n)), saturate (int n))"
proof -
  define ds where "ds = show_base 16 (int n)"
  note fc = follow_chars [OF assms, of 16, simplified]
  have ds: "\<forall>c \<in> set ds. isxdigit c" using show_base_chars [of 16 n] by (simp add: ds_def)
  have "digit_run ((pre @ ''0x'') @ ds @ post) (length (pre @ ''0x'')) 16
      = (length (pre @ ''0x'') + length ds, 16)"
    using ds fc by (intro digit_run_all) auto
  moreover have "fst (strtol (ds @ post) 16) = saturate (int n)"
    unfolding ds_def by (rule strtol_literal) (use fc in auto)
  ultimately show ?thesis by (simp add: lex_number_def Let_def ds_def [symmetric])
qed

section \<open>Expressions evaluate to their meaning\<close>

definition os_ok :: "nat \<Rightarrow> char list \<Rightarrow> bool" where
  "os_ok l os \<longleftrightarrow> 3 \<le> l \<or> os = [] \<or> precedence (hd os) < l"

lemma os_ok_mono: "os_ok k os \<Longrightarrow> k \<le> l \<Longrightarrow> os_ok l os"
  by (auto simp: os_ok_def)

definition result_at :: "string \<Rightarrow> nat \<Rightarrow> char list \<Rightarrow> u64 list \<Rightarrow> u64 option \<Rightarrow> u64 \<times> cbuf" where
  "result_at str i os vs m = (case m of None \<Rightarrow> div_zero | Some v \<Rightarrow> run_at str i os (v # vs))"

lemma print_ends: "print_ex e \<noteq> []" "finishes (last (print_ex e))"
  using well_shaped_print [of e] by (simp_all add: well_shaped_def)

lemma follow_ok_mono: "follow_ok k post \<Longrightarrow> k \<le> k' \<Longrightarrow> follow_ok k' post"
  by (auto simp: follow_ok_def)

lemma start_ok_intros [simp]:
  "start_ok []" "start_ok (pre @ [CHR ''(''])" "start_ok (pre @ [CHR ''-''])"
  by (simp_all add: start_ok_def is_operator_def)

lemma start_ok_op_char [simp]: "start_ok (pre @ [op_char f])"
  by (simp add: start_ok_def)

lemma follow_ok_intros [simp]:
  "follow_ok k []" "follow_ok k (CHR '')'' # post)"
  "follow_ok k (op_char f # post) \<longleftrightarrow> precedence (op_char f) \<le> k"
  by (simp_all add: follow_ok_def)

text \<open>A piece of text that pushes the value \<open>m\<close> wherever an operand of level \<open>l\<close> may stand.\<close>

definition evaluates :: "string \<Rightarrow> nat \<Rightarrow> u64 option \<Rightarrow> bool" where
  "evaluates s l m \<longleftrightarrow> (\<forall>pre post os vs. start_ok pre \<longrightarrow> follow_ok l post \<longrightarrow>
     os_ok l os \<longrightarrow>
     run_at (pre @ s @ post) (length pre) os vs
       = result_at (pre @ s @ post) (length pre + length s) os vs m)"

lemma evaluatesD:
  assumes "evaluates s l m" "start_ok pre" "follow_ok l post" "os_ok l os"
  shows "run_at (pre @ s @ post) (length pre) os vs
    = result_at (pre @ s @ post) (length pre + length s) os vs m"
  using assms by (simp add: evaluates_def)

lemma evaluates_paren:
  assumes "evaluates s l m" "0 < l"
  shows "run_at (pre @ ''('' @ s @ '')'' @ post) (length pre) os vs
    = result_at (pre @ ''('' @ s @ '')'' @ post) (length pre + length s + 2) os vs m"
proof -
  let ?str = "(pre @ [CHR ''('']) @ s @ CHR '')'' # post"
  have "run_at ?str (length pre) os vs = run_at ?str (length (pre @ [CHR ''(''])) (CHR ''('' # os) vs"
    using run_lparen [of pre "s @ CHR '')'' # post"] by simp
  also have "\<dots> = result_at ?str (length (pre @ [CHR ''('']) + length s) (CHR ''('' # os) vs m"
    by (rule evaluatesD [OF assms(1)]) (use assms(2) in \<open>simp_all add: start_ok_def os_ok_def\<close>)
  also have "\<dots> = result_at ?str (length pre + length s + 2) os vs m"
    using run_rparen [of "pre @ CHR ''('' # s" post os]
    by (cases m) (simp_all add: result_at_def add.commute)
  finally show ?thesis by simp
qed

lemma evaluates_paren_if:
  assumes s: "evaluates s l m" and l: "0 < l" and b: "\<not> b \<Longrightarrow> k \<le> l"
    and at: "start_ok pre" "follow_ok k post" "os_ok k os"
  shows "run_at (pre @ paren_if b s @ post) (length pre) os vs
    = result_at (pre @ paren_if b s @ post) (length pre + length (paren_if b s)) os vs m"
proof (cases b)
  case True
  then show ?thesis using evaluates_paren [OF s l, of pre post os vs]
    by (simp add: paren_if_def add.assoc)
next
  case False
  with evaluatesD [OF s at(1) follow_ok_mono [OF at(2)] os_ok_mono [OF at(3)]] b show ?thesis
    by (simp add: paren_if_def)
qed

lemma level_pos: "0 < level e"
  by (cases e) (use precedence_range in \<open>auto simp: Suc_le_eq\<close>)

lemma paren_if_ends: "paren_if b (print_ex e) \<noteq> []" "finishes (last (paren_if b (print_ex e)))"
  using print_ends [of e] by (auto simp: paren_if_def finishes_def)

lemma evaluates_neg:
  assumes "evaluates (print_ex a) (level a) m"
  shows "evaluates (print_ex (Neg a)) 3 (map_option uminus m)"
  unfolding evaluates_def
proof (intro allI impI)
  fix pre post os and vs :: "u64 list"
  assume at: "start_ok pre" "follow_ok 3 post" "os_ok 3 os"
  define s where "s = paren_if (level a < 3) (print_ex a)"
  let ?str = "(pre @ [CHR ''-'']) @ s @ post"
  have ends: "s \<noteq> []" "finishes (last s)" using paren_if_ends by (simp_all add: s_def)
  have f2: "follow_ok 2 post"
  proof -
    have "precedence c \<le> 2" if "is_operator c" for c using that
      by (auto simp: is_operator_def precedence_def)
    with at(2) show ?thesis by (auto simp: follow_ok_def)
  qed
  have "run_at ?str (length pre) os vs = run_at ?str (length (pre @ [CHR ''-''])) (NEGATION # os) vs"
    using run_negation [OF at(1), of "s @ post"] by simp
  also have "\<dots> = result_at ?str (length (pre @ [CHR ''-'']) + length s) (NEGATION # os) vs m"
    unfolding s_def
    by (rule evaluates_paren_if [OF assms level_pos, of _ 3]) (use at in \<open>simp_all add: os_ok_def\<close>)
  also have "\<dots> = result_at ?str (length (pre @ [CHR ''-'']) + length s) os vs (map_option uminus m)"
    using ends run_reduce_neg [of "(pre @ [CHR ''-'']) @ s" post os, OF _ _ f2]
    by (cases m) (simp_all add: result_at_def)
  finally show "run_at (pre @ print_ex (Neg a) @ post) (length pre) os vs
      = result_at (pre @ print_ex (Neg a) @ post) (length pre + length (print_ex (Neg a))) os vs
          (map_option uminus m)"
    by (simp add: s_def)
qed

lemma evaluates_bin:
  assumes a: "evaluates (print_ex a) (level a) x" and b: "evaluates (print_ex b) (level b) y"
  shows "evaluates (print_ex (Bin f a b)) (precedence (op_char f))
    (case x of None \<Rightarrow> None | Some x \<Rightarrow> (case y of None \<Rightarrow> None | Some y \<Rightarrow> apply_op f x y))"
  unfolding evaluates_def
proof (intro allI impI)
  define p where "p = precedence (op_char f)"
  fix pre post os and vs :: "u64 list"
  assume at: "start_ok pre" "follow_ok (precedence (op_char f)) post" "os_ok (precedence (op_char f)) os"
  define s where "s = paren_if (level a < p) (print_ex a)"
  define t where "t = paren_if (level b \<le> p) (print_ex b)"
  have ends: "s \<noteq> []" "finishes (last s)" "t \<noteq> []" "finishes (last t)"
    using paren_if_ends by (simp_all add: s_def t_def)
  let ?pre2 = "pre @ s @ [op_char f]"
  let ?str = "pre @ s @ op_char f # t @ post"
  let ?pre3 = "pre @ s @ op_char f # t"
  have o: "os = [] \<or> precedence (hd os) < p" using at(3) precedence_range(2) [of f]
    by (auto simp: os_ok_def p_def)
  have A: "run_at ?str (length pre) os vs = result_at ?str (length (pre @ s)) os vs x"
    using evaluates_paren_if [OF a level_pos, of "level a < p" p pre "op_char f # t @ post" os vs] at
    by (simp add: s_def p_def)
  have O: "run_at ?str (length (pre @ s)) os us = run_at ?str (length ?pre2) (op_char f # os) us" for us
    using run_operator [of "pre @ s" os f "t @ post" us] o ends
      finishes_not_start [of "pre @ s"] by (simp add: p_def)
  have B: "run_at ?str (length ?pre2) (op_char f # os) us
      = result_at ?str (length ?pre3) (op_char f # os) us y" for us
    using evaluates_paren_if [OF b level_pos, of "level b \<le> p" "Suc p" ?pre2 post "op_char f # os" us]
      follow_ok_mono [OF at(2), of "Suc p"] by (simp add: t_def p_def os_ok_def start_ok_def add.assoc)
  have R: "run_at ?str (length ?pre3) (op_char f # os) (v # u # us)
      = result_at ?str (length ?pre3) os us (apply_op f u v)" for u v us
    using run_reduce_op [of ?pre3 f post os v u us] ends at(2)
    by (cases "apply_op f u v") (simp_all add: result_at_def)
  have "run_at ?str (length pre) os vs = result_at ?str (length ?pre3) os vs
    (case x of None \<Rightarrow> None | Some x \<Rightarrow> (case y of None \<Rightarrow> None | Some y \<Rightarrow> apply_op f x y))"
    unfolding A using O B R by (cases x; cases y) (simp_all add: result_at_def)
  then show "run_at (pre @ print_ex (Bin f a b) @ post) (length pre) os vs
      = result_at (pre @ print_ex (Bin f a b) @ post) (length pre + length (print_ex (Bin f a b))) os vs
          (case x of None \<Rightarrow> None | Some x \<Rightarrow> (case y of None \<Rightarrow> None | Some y \<Rightarrow> apply_op f x y))"
    by (simp add: s_def t_def p_def)
qed

lemma evaluates_number:
  assumes "s = c # r" "isxdigit c"
    and "\<And>pre post. follow_ok 4 post \<Longrightarrow> lex_number (pre @ s @ post) (length pre) = (length pre + length s, v)"
  shows "evaluates s 4 (Some v)"
  unfolding evaluates_def
proof (intro allI impI)
  fix pre post os and vs :: "u64 list"
  assume "start_ok pre" "follow_ok 4 post" "os_ok 4 os"
  then show "run_at (pre @ s @ post) (length pre) os vs
      = result_at (pre @ s @ post) (length pre + length s) os vs (Some v)"
    using run_number [of c pre "r @ post" "length pre + length s" v] assms by (simp add: result_at_def)
qed

lemma print_evaluates: "evaluates (print_ex e) (level e) (meaning e)"
proof (induction e)
  case (Num n)
  obtain c r where "show_base 10 (int n) = c # r" "isxdigit c"
    using show_base_chars [of 10 n] by (cases "show_base 10 (int n)") auto
  then show ?case using evaluates_number [OF _ _ lex_dec] by simp
next
  case (Hex n)
  then show ?case using evaluates_number [of "''0x'' @ show_base 16 (int n)"] lex_hex by simp
next
  case (Neg a)
  then show ?case using evaluates_neg by simp
next
  case (Bin f a b)
  then show ?case using evaluates_bin by simp
qed

section \<open>The passes before the evaluation\<close>

text \<open>Text without variables, blanks and products of the form \<^verbatim>\<open>2(3)\<close> reaches the loop unchanged.\<close>

lemma not_conv_var: "CHR ''$'' \<notin> set s \<Longrightarrow> \<not> is_conv_var s i n"
  by (auto simp: is_conv_var_def substr_def cchar_def dest!: nth_mem in_set_takeD in_set_dropD
      split: option.splits if_splits)

lemma sub_conv_vars_none:
  assumes "CHR ''$'' \<notin> set s"
  shows "sub_conv_vars cv rg s e = Some (s, e)"
proof -
  have "sub_conv_vars_from cv rg s i e = Some (s, e)" for i
  proof (induction "length s - i" arbitrary: i rule: less_induct)
    case less
    show ?case
    proof (cases "i < length s")
      case True
      then show ?thesis using less [of "Suc i"] not_conv_var [OF assms]
        by (subst sub_conv_vars_from.simps) simp
    next
      case False
      then show ?thesis by (subst sub_conv_vars_from.simps) simp
    qed
  qed
  then show ?thesis by (simp add: sub_conv_vars_def)
qed

lemma beside_nth:
  "successively beside s \<Longrightarrow> 1 \<le> i \<Longrightarrow> i < length s \<Longrightarrow> beside (cchar s (i - 1)) (cchar s i)"
  by (cases i) (simp_all add: successively_conv_nth cchar_def)

lemma add_mults_none:
  assumes "successively beside s"
  shows "add_mults s = s"
proof -
  have "add_mults_from s i = s" for i
  proof (induction "length s - i" arbitrary: i rule: less_induct)
    case less
    then show ?case using beside_nth [OF assms, of i]
      by (cases "i < length s") (auto simp: add_mults_from.simps [of s i] beside_def)
  qed
  then show ?thesis by (simp add: add_mults_def)
qed

lemma beside_no_invalid:
  assumes "successively beside s"
  shows "no_invalid s"
  unfolding no_invalid_def
proof
  fix i assume "i \<in> set [1..<length s]"
  then have i: "1 \<le> i" "i < length s" by auto
  from beside_nth [OF assms i] i show "\<not> invalid_expr s (cchar s i) i"
    by (auto simp: invalid_expr_def beside_def is_neg_operator_def Let_def)
qed

lemma plain_facts:
  assumes "\<forall>c \<in> set s. plain_char c" "s \<noteq> []"
  shows "CHR ''$'' \<notin> set s" "\<not> isblank (hd s)" "\<not> isblank (last s)"
  using assms by (auto simp: plain_char_def)

lemma eval_printed:
  "eval_expr cv rg (Some (print_ex e)) None
   = Inr (case meaning e of None \<Rightarrow> (LONG_MIN, Some ''attempt to divide by zero'') | Some v \<Rightarrow> (v, None))"
proof -
  define s where "s = print_ex e"
  have w: "s \<noteq> []" "successively beside s" "\<forall>c \<in> set s. plain_char c"
    using well_shaped_print [of e] by (simp_all add: well_shaped_def s_def)
  note p = plain_facts [OF w(3,1)]
  have "run_at s 0 [] [] = result_at s (length s) [] [] (meaning e)"
    using evaluatesD [OF print_evaluates [of e], of "[]" "[]" "[]" "[]"] by (simp add: s_def os_ok_def)
  also have "\<dots> = (case meaning e of None \<Rightarrow> div_zero | Some v \<Rightarrow> (v, None))"
    by (simp add: result_at_def run_at_def eval_l.simps [of s "length s"] finish_l_def
        split: option.splits)
  finally have "evaluate s None = Inr (case meaning e of None \<Rightarrow> div_zero | Some v \<Rightarrow> (v, None))"
    using evaluate_lists [OF beside_no_invalid [OF w(2)], of None] by (simp add: run_at_def)
  with w p show ?thesis
    by (simp add: eval_expr_def strclean_same sub_conv_vars_none add_mults_none s_def [symmetric]
        split: option.splits)
qed

end
