(* ===== verification/Branch.thy ===== *)
theory Branch
  imports CPrelude
begin

text \<open>
  The decoder of branch instructions, \<^verbatim>\<open>source/disas/branch.c\<close>, and its proof against the A64
  encodings. \<^verbatim>\<open>enum birn\<close> is used as a number (the code adds 32 to it), so it stays a word;
  \<open>BIRN_TABLE\<close> names its values.
\<close>

section \<open>The decoder\<close>

datatype bikind = COND_BRANCH_IMMEDIATE | UNCOND_BRANCH_REGISTER | UNCOND_BRANCH_IMMEDIATE
  | COMP_AND_BRANCH_IMMEDIATE | TEST_AND_BRANCH_IMMEDIATE | UNKNOWN_KIND

datatype bicond = EQ | NE | CS | CC | MI | PL | VS | VC | HI | LS | GE | LT | GT | LE | AL
  | UNKNOWN_COND

definition birn_NONE :: u32 where
  "birn_NONE = 64"

definition BIRN_TABLE :: "string list" where
  "BIRN_TABLE =
     map (\<lambda>n. ''X'' @ show_dec (int n)) [0..<31] @ [''XZR''] @
     map (\<lambda>n. ''W'' @ show_dec (int n)) [0..<31] @ [''WZR'', ''NONE'']"

record branchinfo =
  kind :: bikind
  conditional :: u32
  cond :: bicond
  imm :: u32
  rn :: u32
  is_subroutine_call :: u32

definition sign_extend :: "u32 \<Rightarrow> nat \<Rightarrow> u32" where
  "sign_extend number numbits =
     (if number AND push_bit (numbits - 1) 1 \<noteq> 0
      then number OR NOT (push_bit numbits 1 - 1)
      else number)"

definition figure_kind :: "u32 \<Rightarrow> bikind" where
  "figure_kind opcode =
     (let op0 = drop_bit 29 opcode; op1 = drop_bit 25 (opcode AND 0x3fff000) in
      if op0 AND NOT 4 = 0 then UNCOND_BRANCH_IMMEDIATE
      else if op1 = 1 then
        (if op0 = 6 then UNCOND_BRANCH_REGISTER
         else if op0 AND NOT 4 = 1 then TEST_AND_BRANCH_IMMEDIATE
         else UNKNOWN_KIND)
      else
        (if op0 = 2 then COND_BRANCH_IMMEDIATE
         else if op0 AND NOT 4 = 1 then COMP_AND_BRANCH_IMMEDIATE
         else UNKNOWN_KIND))"

definition cond_table :: "string list" where
  "cond_table = [''eq,ne'', ''cs,cc'', ''mi,pl'', ''vs,vc'', ''hi,ls'', ''ge,lt'', ''gt,le'', ''al'']"

text \<open>The mask keeps bit 31, so that an opcode with that bit set reads outside the table.\<close>

definition figure_cond :: "u32 \<Rightarrow> bicond run" where
  "figure_cond opcode =
     (let c = opcode AND NOT 0x7ffffff0; shifted = unat (drop_bit 1 c) in
      if length cond_table \<le> shifted then Inl OutOfBounds
      else (let decoded = (if c AND 1 = 1 \<and> c \<noteq> 0xf then drop 3 (cond_table ! shifted)
                           else take 2 (cond_table ! shifted)) in
        Inr (if decoded = ''eq'' then EQ
             else if decoded = ''ne'' then NE
             else if decoded = ''cs'' then CS
             else if decoded = ''cc'' then CC
             else if decoded = ''mi'' then MI
             else if decoded = ''pl'' then PL
             else if decoded = ''vs'' then VS
             else if decoded = ''vc'' then VC
             else if decoded = ''hi'' then HI
             else if decoded = ''ls'' then LS
             else if decoded = ''ge'' then GE
             else if decoded = ''lt'' then LT
             else if decoded = ''gt'' then GT
             else if decoded = ''le'' then LE
             else if decoded = ''al'' then AL
             else UNKNOWN_COND)))"

definition INT_MAX :: u32 where
  "INT_MAX = 0x7FFFFFFF"

definition branch_imm :: "bikind \<Rightarrow> u32 \<Rightarrow> u32" where
  "branch_imm k opcode =
     (case k of
        COND_BRANCH_IMMEDIATE \<Rightarrow> sign_extend (push_bit 2 (drop_bit 5 (opcode AND 0xffffe0))) 21
      | COMP_AND_BRANCH_IMMEDIATE \<Rightarrow> sign_extend (push_bit 2 (drop_bit 5 (opcode AND 0xffffe0))) 21
      | UNCOND_BRANCH_IMMEDIATE \<Rightarrow> sign_extend (push_bit 2 (opcode AND 0x3ffffff)) 28
      | TEST_AND_BRANCH_IMMEDIATE \<Rightarrow> sign_extend (push_bit 2 (drop_bit 5 (opcode AND 0x3fff))) 16
      | _ \<Rightarrow> INT_MAX)"

definition branch_call :: "bikind \<Rightarrow> u32 \<Rightarrow> u32" where
  "branch_call k opcode =
     (case k of
        UNCOND_BRANCH_IMMEDIATE \<Rightarrow> drop_bit 31 opcode
      | UNCOND_BRANCH_REGISTER \<Rightarrow>
          (let opc = drop_bit 21 opcode AND 0xf in if opc = 1 \<or> opc = 9 then 1 else 0)
      | _ \<Rightarrow> 0)"

definition branch_rn :: "bikind \<Rightarrow> u32 \<Rightarrow> u32" where
  "branch_rn k opcode =
     (if k = UNCOND_BRANCH_REGISTER then drop_bit 5 (opcode AND 0x3e0)
      else if k = COMP_AND_BRANCH_IMMEDIATE \<or> k = TEST_AND_BRANCH_IMMEDIATE
        then (opcode AND 0x1f) + (if drop_bit 31 opcode = 0 then 32 else 0)
      else birn_NONE)"

text \<open>\<open>None\<close> is the result 0, with which the contents of \<^verbatim>\<open>binfo\<close> are undefined.\<close>

definition is_branch :: "u32 \<Rightarrow> branchinfo option run" where
  "is_branch opcode =
     (let op0 = drop_bit 29 (push_bit 3 opcode) in
      if op0 \<noteq> 5 then Inr None
      else (let k = figure_kind opcode in
        if k = UNKNOWN_KIND then Inr None
        else bind_run (if k = COND_BRANCH_IMMEDIATE then figure_cond opcode else Inr UNKNOWN_COND)
          (\<lambda>c. Inr (Some \<lparr>kind = k,
                  conditional = (if k = COND_BRANCH_IMMEDIATE then 1 else 0),
                  cond = c,
                  imm = branch_imm k opcode,
                  rn = branch_rn k opcode,
                  is_subroutine_call = branch_call k opcode\<rparr>))))"

section \<open>The encodings of the architecture\<close>

text \<open>
  The fields of the five classes of branches, from the top bit down: \<^verbatim>\<open>b.cond\<close>; \<^verbatim>\<open>b\<close> and \<^verbatim>\<open>bl\<close>;
  \<^verbatim>\<open>cbz\<close> and \<^verbatim>\<open>cbnz\<close>; \<^verbatim>\<open>tbz\<close> and \<^verbatim>\<open>tbnz\<close>; \<^verbatim>\<open>br\<close>, \<^verbatim>\<open>blr\<close>, \<^verbatim>\<open>ret\<close> and their relatives.
  \<open>at n f\<close> is the field \<open>f\<close> from bit \<open>n\<close> up.
\<close>

definition at :: "nat \<Rightarrow> 'a::len word \<Rightarrow> u32" where
  "at n f = push_bit n (ucast f)"

definition enc_b_cond :: "19 word \<Rightarrow> 4 word \<Rightarrow> u32" where
  "enc_b_cond i c = at 24 (0x54 :: 8 word) OR at 5 i OR at 0 c"

definition enc_b :: "1 word \<Rightarrow> 26 word \<Rightarrow> u32" where
  "enc_b link i = at 31 link OR at 26 (5 :: 5 word) OR at 0 i"

definition enc_cb :: "1 word \<Rightarrow> 1 word \<Rightarrow> 19 word \<Rightarrow> 5 word \<Rightarrow> u32" where
  "enc_cb sf op i rt = at 31 sf OR at 25 (0x1A :: 6 word) OR at 24 op OR at 5 i OR at 0 rt"

definition enc_tb :: "1 word \<Rightarrow> 1 word \<Rightarrow> 5 word \<Rightarrow> 14 word \<Rightarrow> 5 word \<Rightarrow> u32" where
  "enc_tb b5 op b40 i rt =
     at 31 b5 OR at 25 (0x1B :: 6 word) OR at 24 op OR at 19 b40 OR at 5 i OR at 0 rt"

definition enc_br :: "4 word \<Rightarrow> 5 word \<Rightarrow> u32" where
  "enc_br opc r = at 25 (0x6B :: 7 word) OR at 21 opc OR at 16 (0x1F :: 5 word) OR at 5 r"

lemma bit_at: "bit (at n (f :: 'a::len word)) k \<longleftrightarrow> n \<le> k \<and> k < 32 \<and> k < n + LENGTH('a) \<and> bit f (k - n)"
  by (auto simp: at_def bit_simps dest: bit_imp_le_length)

text \<open>The kind, read off the bits.\<close>

lemma bit_of_if: "bit (if b then x else y) k = (if b then bit x k else bit y k)"
  by simp

lemma masks:
  "(0xffffe0 :: u32) = push_bit 5 (mask 19)" "(0x3ffffff :: u32) = mask 26" "(0x3fff :: u32) = mask 14"
  "(0xf :: u32) = mask 4" "(0x1f :: u32) = mask 5" "(0x3e0 :: u32) = push_bit 5 (mask 5)"
  "(0x3fff000 :: u32) = push_bit 12 (mask 14)" "(NOT 0x7ffffff0 :: u32) = push_bit 31 (mask 1) OR mask 4"
  by (simp_all add: mask_eq_exp_minus_1)

lemma bit_small: "bit (4 :: u32) k \<longleftrightarrow> k = 2" "bit (2 :: u32) k \<longleftrightarrow> k = 1" "bit (1 :: u32) k \<longleftrightarrow> k = 0"
proof -
  have e: "bit ((2 :: u32) ^ n) k \<longleftrightarrow> n < 32 \<and> k = n" for n
    by (auto simp: bit_exp_iff)
  show "bit (4 :: u32) k \<longleftrightarrow> k = 2" using e [of 2] by simp
  show "bit (2 :: u32) k \<longleftrightarrow> k = 1" using e [of 1] by simp
  show "bit (1 :: u32) k \<longleftrightarrow> k = 0" using e [of 0] by simp
qed

lemma top3: "drop_bit 29 (w :: u32)
    = (if bit w 31 then 4 else 0) OR (if bit w 30 then 2 else 0) OR (if bit w 29 then 1 else 0)"
proof (rule bit_word_eqI)
  fix k assume "k < LENGTH(32)"
  consider "k = 0" | "k = 1" | "k = 2" | "3 \<le> k" by linarith
  then show "bit (drop_bit 29 w) k \<longleftrightarrow>
    bit ((if bit w 31 then 4 else 0) OR (if bit w 30 then 2 else 0) OR (if bit w 29 then 1 else 0) :: u32) k"
  proof cases
    case 4
    have "\<not> bit w (29 + k)" using 4 by (auto dest: bit_imp_le_length)
    then show ?thesis using 4
      by (simp only: bit_drop_bit_eq comp_def bit_or_iff bit_of_if bit_small) simp
  qed (simp_all only: bit_drop_bit_eq comp_def bit_or_iff bit_of_if bit_small, simp_all)
qed

lemma bit25: "drop_bit 25 ((w :: u32) AND 0x3fff000) = (if bit w 25 then 1 else 0)"
proof (rule bit_word_eqI)
  fix k assume "k < LENGTH(32)"
  show "bit (drop_bit 25 (w AND 0x3fff000)) k \<longleftrightarrow> bit (if bit w 25 then 1 else 0 :: u32) k"
    unfolding masks
    by (simp only: bit_drop_bit_eq bit_and_iff bit_push_bit_iff bit_mask_iff bit_of_if bit_small comp_def)
       (cases "k = 0"; simp)
qed

lemma is_branch_bits: "drop_bit 29 (push_bit 3 (w :: u32)) = 5 \<longleftrightarrow> bit w 28 \<and> \<not> bit w 27 \<and> bit w 26"
proof -
  have "bit (push_bit 3 w) 31 = bit w 28" "bit (push_bit 3 w) 30 = bit w 27" "bit (push_bit 3 w) 29 = bit w 26"
    by (simp_all only: bit_push_bit_iff) simp_all
  then show ?thesis by (simp only: top3) (cases "bit w 28"; cases "bit w 27"; cases "bit w 26"; simp)
qed

lemma figure_kind_bits:
  "figure_kind w =
     (if \<not> bit w 30 \<and> \<not> bit w 29 then UNCOND_BRANCH_IMMEDIATE
      else if bit w 25 then
        (if bit w 31 \<and> bit w 30 \<and> \<not> bit w 29 then UNCOND_BRANCH_REGISTER
         else if \<not> bit w 30 \<and> bit w 29 then TEST_AND_BRANCH_IMMEDIATE else UNKNOWN_KIND)
      else
        (if \<not> bit w 31 \<and> bit w 30 \<and> \<not> bit w 29 then COND_BRANCH_IMMEDIATE
         else if \<not> bit w 30 \<and> bit w 29 then COMP_AND_BRANCH_IMMEDIATE else UNKNOWN_KIND))"
  unfolding figure_kind_def Let_def top3 bit25
  by (cases "bit w 31"; cases "bit w 30"; cases "bit w 29"; cases "bit w 25"; simp)

text \<open>Sign extension of a field of \<open>n\<close> bits, shifted left by two.\<close>

lemma sign_extend_bits:
  assumes "0 < n" "n < 32" "\<forall>k \<ge> n. \<not> bit w k"
  shows "bit (sign_extend w n) k \<longleftrightarrow> k < 32 \<and> bit w (min k (n - 1))"
proof -
  have s: "w AND push_bit (n - 1) 1 \<noteq> 0 \<longleftrightarrow> bit w (n - 1)"
    using assms by (simp add: bit_iff_and_push_bit_not_eq_0)
  have m: "NOT (push_bit n 1 - 1 :: u32) = NOT (mask n)"
    by (simp add: mask_eq_exp_minus_1 push_bit_of_1)
  show ?thesis
    using assms unfolding sign_extend_def s m
    by (auto simp: bit_simps min_def not_less dest: bit_imp_le_length)
qed

lemma bit_ucast32: "bit (ucast (f :: 'a::len word) :: u32) k \<longleftrightarrow> k < 32 \<and> k < LENGTH('a) \<and> bit f k"
  by (auto simp: bit_simps dest: bit_imp_le_length)

lemma bit_scast32: "bit (scast (f :: 'a::len word) :: u32) k \<longleftrightarrow> k < 32 \<and> bit f (min k (LENGTH('a) - 1))"
  by (simp add: bit_signed_iff min.commute)

lemma sign_extend_field:
  fixes i :: "'a::len word"
  assumes "n = LENGTH('a) + 2" "n < 32"
  shows "sign_extend (push_bit 2 (ucast i)) n = push_bit 2 (scast i)"
proof (rule bit_word_eqI)
  fix k assume k: "k < LENGTH(32)"
  have "\<forall>k \<ge> n. \<not> bit (push_bit 2 (ucast i) :: u32) k"
    using assms by (auto simp: bit_push_bit_iff bit_ucast32)
  note b = sign_extend_bits [OF _ assms(2) this, of k]
  show "bit (sign_extend (push_bit 2 (ucast i)) n) k \<longleftrightarrow> bit (push_bit 2 (scast i :: u32)) k"
  proof (cases "k < n")
    case True
    then have "min k (n - 1) = k" by simp
    with True b assms k show ?thesis
      by (auto simp: bit_push_bit_iff bit_ucast32 bit_scast32 min_def)
  next
    case False
    then have "min k (n - 1) = LENGTH('a) + 1" "min (k - 2) (LENGTH('a) - 1) = LENGTH('a) - 1"
      using assms by auto
    moreover have "k - 2 < 32" using k by simp
    ultimately show ?thesis using b assms k False
      by (simp add: bit_push_bit_iff bit_ucast32 bit_scast32 Suc_le_eq)
  qed
qed

text \<open>The fields of the instructions. A field occupies its own bits and no others.\<close>

lemmas enc_defs = enc_b_cond_def enc_b_def enc_cb_def enc_tb_def enc_br_def

lemmas field_simps32 = bit_drop_bit_eq bit_and_iff bit_or_iff bit_push_bit_iff bit_mask_iff comp_def
  bit_at bit_ucast32

lemma b_cond_bits:
  "bit (enc_b_cond i c) 28" "\<not> bit (enc_b_cond i c) 27" "bit (enc_b_cond i c) 26"
  "\<not> bit (enc_b_cond i c) 31" "bit (enc_b_cond i c) 30" "\<not> bit (enc_b_cond i c) 29" "\<not> bit (enc_b_cond i c) 25"
  by (simp_all add: enc_defs bit_at bit_or_iff)

lemma b_cond_fields:
  "drop_bit 5 (enc_b_cond i c AND 0xffffe0) = ucast i"
  "enc_b_cond i c AND NOT 0x7ffffff0 = ucast c"
proof -
  show "drop_bit 5 (enc_b_cond i c AND 0xffffe0) = ucast i"
    unfolding masks by (rule bit_word_eqI) (simp only: enc_defs field_simps32, force)
  show "enc_b_cond i c AND NOT 0x7ffffff0 = ucast c"
    unfolding masks
  proof (rule bit_word_eqI)
    fix k assume "k < LENGTH(32)"
    with b_cond_bits show "bit (enc_b_cond i c AND (push_bit 31 (mask 1) OR mask 4)) k \<longleftrightarrow> bit (ucast c :: u32) k"
      by (cases "k = 31") (simp_all only: field_simps32 simp_thms, auto simp: enc_defs field_simps32)
  qed
qed

lemma b_bits:
  "bit (enc_b l i) 28 \<and> \<not> bit (enc_b l i) 27 \<and> bit (enc_b l i) 26 \<and>
   \<not> bit (enc_b l i) 30 \<and> \<not> bit (enc_b l i) 29"
  by (simp add: enc_defs field_simps32)

lemma b_fields:
  "drop_bit 31 (enc_b l i) = ucast l" "enc_b l i AND 0x3ffffff = ucast i"
  unfolding masks by (rule bit_word_eqI, simp only: enc_defs field_simps32, auto)+

lemma cb_bits:
  "bit (enc_cb sf op i rt) 28 \<and> \<not> bit (enc_cb sf op i rt) 27 \<and> bit (enc_cb sf op i rt) 26 \<and>
   \<not> bit (enc_cb sf op i rt) 25 \<and> \<not> bit (enc_cb sf op i rt) 30 \<and> bit (enc_cb sf op i rt) 29"
  by (simp add: enc_defs field_simps32)

lemma cb_fields:
  "drop_bit 31 (enc_cb sf op i rt) = ucast sf" "drop_bit 5 (enc_cb sf op i rt AND 0xffffe0) = ucast i"
  "enc_cb sf op i rt AND 0x1f = ucast rt"
  unfolding masks by (rule bit_word_eqI, simp only: enc_defs field_simps32, auto)+

lemma tb_bits:
  "bit (enc_tb sf op hi i rt) 28 \<and> \<not> bit (enc_tb sf op hi i rt) 27 \<and> bit (enc_tb sf op hi i rt) 26 \<and>
   bit (enc_tb sf op hi i rt) 25 \<and> \<not> bit (enc_tb sf op hi i rt) 30 \<and> bit (enc_tb sf op hi i rt) 29"
  by (simp add: enc_defs field_simps32)

lemma tb_fields:
  "drop_bit 31 (enc_tb sf op hi i rt) = ucast sf"
  "drop_bit 5 (enc_tb sf op hi i rt AND 0x3fff) = ucast (ucast i :: 9 word)"
  "enc_tb sf op hi i rt AND 0x1f = ucast rt"
  unfolding masks by (rule bit_word_eqI, simp only: enc_defs field_simps32 bit_unsigned_iff possible_bit_word, auto)+

lemma br_bits:
  "bit (enc_br opc r) 28 \<and> \<not> bit (enc_br opc r) 27 \<and> bit (enc_br opc r) 26 \<and>
   bit (enc_br opc r) 25 \<and> bit (enc_br opc r) 31 \<and> bit (enc_br opc r) 30 \<and> \<not> bit (enc_br opc r) 29"
  by (simp add: enc_defs field_simps32)

lemma br_fields:
  "drop_bit 21 (enc_br opc r) AND 0xf = ucast opc"
  "drop_bit 5 (enc_br opc r AND 0x3e0) = ucast r"
  unfolding masks by (rule bit_word_eqI, simp only: enc_defs field_simps32, auto)+

section \<open>Decoding the encodings\<close>

definition cond_of :: "4 word \<Rightarrow> bicond" where
  "cond_of c = [EQ, NE, CS, CC, MI, PL, VS, VC, HI, LS, GE, LT, GT, LE, AL, AL] ! unat c"

lemma word4_cases: "(c :: 4 word) \<in> {0, 1, 2, 3, 4, 5, 6, 7, 8, 9, 10, 11, 12, 13, 14, 15}"
proof -
  have "unat c < 2 ^ 4" using unsigned_less [of c] by simp
  then have "unat c \<in> {0, 1, 2, 3, 4, 5, 6, 7, 8, 9, 10, 11, 12, 13, 14, 15}"
    by (auto simp: numeral_eq_Suc less_Suc_eq)
  then show ?thesis by (auto simp: word_unat_eq_iff)
qed

lemma figure_cond_cond_of: "figure_cond (enc_b_cond i c) = Inr (cond_of c)"
  using word4_cases [of c]
  unfolding figure_cond_def b_cond_fields
  by (elim insertE emptyE) (simp_all add: cond_table_def cond_of_def Let_def)

lemma quadruple: "push_bit 2 (x :: u32) = x * 4"
  by (simp add: push_bit_eq_mult)

lemma imm19: "sign_extend (push_bit 2 (ucast (i :: 19 word))) 21 = scast i * 4"
  and imm26: "sign_extend (push_bit 2 (ucast (j :: 26 word))) 28 = scast j * 4"
  by (subst sign_extend_field; simp add: quadruple)+

lemma fields_decoded:
  "branch_imm COND_BRANCH_IMMEDIATE (enc_b_cond i c) = scast i * 4"
  "branch_imm UNCOND_BRANCH_IMMEDIATE (enc_b l j) = scast j * 4"
  "branch_imm COMP_AND_BRANCH_IMMEDIATE (enc_cb sf op i rt) = scast i * 4"
  "branch_call UNCOND_BRANCH_IMMEDIATE (enc_b l j) = ucast l"
  "branch_rn COMP_AND_BRANCH_IMMEDIATE (enc_cb sf op i rt) = ucast rt + (if sf = 0 then 32 else 0)"
  "branch_rn TEST_AND_BRANCH_IMMEDIATE (enc_tb sf op hi k rt) = ucast rt + (if sf = 0 then 32 else 0)"
  "branch_rn UNCOND_BRANCH_REGISTER (enc_br opc r) = ucast r"
  "branch_imm TEST_AND_BRANCH_IMMEDIATE (enc_tb sf op hi k rt)
     = sign_extend (push_bit 2 (ucast (ucast k :: 9 word))) 16"
  "branch_call UNCOND_BRANCH_REGISTER (enc_br opc r) = (if opc = 1 \<or> opc = 9 then 1 else 0)"
proof -
  have opc: "(ucast opc :: u32) = 1 \<longleftrightarrow> opc = 1" "(ucast opc :: u32) = 9 \<longleftrightarrow> opc = 9"
    using word4_cases [of opc] by auto
  have sf: "(ucast sf :: u32) = 0 \<longleftrightarrow> sf = 0"
  proof -
    have "unat sf < 2" using unsigned_less [of sf] by simp
    then have "unat sf = 0 \<or> unat sf = 1" by linarith
    then have "sf = 0 \<or> sf = 1" by (auto simp: word_unat_eq_iff)
    then show ?thesis by auto
  qed
  show "branch_imm COND_BRANCH_IMMEDIATE (enc_b_cond i c) = scast i * 4"
    "branch_imm UNCOND_BRANCH_IMMEDIATE (enc_b l j) = scast j * 4"
    "branch_imm COMP_AND_BRANCH_IMMEDIATE (enc_cb sf op i rt) = scast i * 4"
    "branch_call UNCOND_BRANCH_IMMEDIATE (enc_b l j) = ucast l"
    "branch_imm TEST_AND_BRANCH_IMMEDIATE (enc_tb sf op hi k rt)
     = sign_extend (push_bit 2 (ucast (ucast k :: 9 word))) 16"
    unfolding branch_imm_def branch_call_def bikind.case b_cond_fields b_fields cb_fields tb_fields imm19 imm26
    by (rule refl)+
  show "branch_rn COMP_AND_BRANCH_IMMEDIATE (enc_cb sf op i rt) = ucast rt + (if sf = 0 then 32 else 0)"
    "branch_rn TEST_AND_BRANCH_IMMEDIATE (enc_tb sf op hi k rt) = ucast rt + (if sf = 0 then 32 else 0)"
    "branch_rn UNCOND_BRANCH_REGISTER (enc_br opc r) = ucast r"
    unfolding branch_rn_def cb_fields tb_fields br_fields sf by simp_all
  show "branch_call UNCOND_BRANCH_REGISTER (enc_br opc r) = (if opc = 1 \<or> opc = 9 then 1 else 0)"
    unfolding branch_call_def bikind.case br_fields Let_def opc by (rule refl)
qed

lemma decode_b_cond:
  "is_branch (enc_b_cond i c) = Inr (Some \<lparr>kind = COND_BRANCH_IMMEDIATE, conditional = 1, cond = cond_of c,
     imm = scast i * 4, rn = birn_NONE, is_subroutine_call = 0\<rparr>)"
  unfolding is_branch_def is_branch_bits figure_kind_bits Let_def
  by (simp add: b_cond_bits figure_cond_cond_of fields_decoded) (simp add: branch_rn_def branch_call_def)

lemma decode_b:
  "is_branch (enc_b l i) = Inr (Some \<lparr>kind = UNCOND_BRANCH_IMMEDIATE, conditional = 0, cond = UNKNOWN_COND,
     imm = scast i * 4, rn = birn_NONE, is_subroutine_call = ucast l\<rparr>)"
  unfolding is_branch_def is_branch_bits figure_kind_bits Let_def
  by (simp add: b_bits fields_decoded) (simp add: branch_rn_def)

lemma decode_cb:
  "is_branch (enc_cb sf op i rt) = Inr (Some \<lparr>kind = COMP_AND_BRANCH_IMMEDIATE, conditional = 0,
     cond = UNKNOWN_COND, imm = scast i * 4, rn = ucast rt + (if sf = 0 then 32 else 0), is_subroutine_call = 0\<rparr>)"
  unfolding is_branch_def is_branch_bits figure_kind_bits Let_def
  by (simp add: cb_bits fields_decoded) (simp add: branch_call_def)

lemma decode_tb:
  "is_branch (enc_tb sf op hi i rt) = Inr (Some \<lparr>kind = TEST_AND_BRANCH_IMMEDIATE, conditional = 0,
     cond = UNKNOWN_COND, imm = sign_extend (push_bit 2 (ucast (ucast i :: 9 word))) 16,
     rn = ucast rt + (if sf = 0 then 32 else 0), is_subroutine_call = 0\<rparr>)"
  unfolding is_branch_def is_branch_bits figure_kind_bits Let_def
  by (simp add: tb_bits fields_decoded) (simp add: branch_call_def)

lemma decode_br:
  "is_branch (enc_br opc r) = Inr (Some \<lparr>kind = UNCOND_BRANCH_REGISTER, conditional = 0,
     cond = UNKNOWN_COND, imm = INT_MAX, rn = ucast r,
     is_subroutine_call = (if opc = 1 \<or> opc = 9 then 1 else 0)\<rparr>)"
  unfolding is_branch_def is_branch_bits figure_kind_bits Let_def
  by (simp add: br_bits fields_decoded) (simp add: branch_imm_def)

text \<open>
  The 14-bit offset of \<^verbatim>\<open>tbz\<close> and \<^verbatim>\<open>tbnz\<close> is cut to its nine low bits: the decoded offset is right
  exactly for the offsets below 512.
\<close>

lemma small_offset: "unat (i :: 14 word) < 512 \<longleftrightarrow> (\<forall>k \<ge> 9. \<not> bit i k)"
proof -
  have "unat i < 512 \<longleftrightarrow> take_bit 9 (unat i) = unat i" by (simp add: take_bit_nat_eq_self_iff)
  also have "\<dots> \<longleftrightarrow> take_bit 9 i = i"
    by (metis unsigned_take_bit_eq word_unat_eq_iff)
  also have "\<dots> \<longleftrightarrow> (\<forall>k \<ge> 9. \<not> bit i k)"
  proof
    assume t: "take_bit 9 i = i"
    have "bit i k \<longleftrightarrow> k < 9 \<and> bit i k" for k
      using bit_take_bit_iff [of 9 i k] by (simp add: t)
    then show "\<forall>k \<ge> 9. \<not> bit i k" by (metis not_less)
  next
    assume "\<forall>k \<ge> 9. \<not> bit i k"
    then show "take_bit 9 i = i"
      by (intro bit_word_eqI) (auto simp: bit_take_bit_iff not_less [symmetric])
  qed
  finally show ?thesis .
qed

lemma tb_offset:
  "sign_extend (push_bit 2 (ucast (ucast (i :: 14 word) :: 9 word))) 16 = scast i * 4 \<longleftrightarrow> unat i < 512"
proof -
  define w where "w = (push_bit 2 (ucast (ucast i :: 9 word)) :: u32)"
  have b: "bit w k \<longleftrightarrow> 2 \<le> k \<and> k < 11 \<and> bit i (k - 2)" for k
    by (simp only: w_def bit_push_bit_iff bit_ucast32 bit_unsigned_iff possible_bit_word) auto
  have v: "bit (push_bit 2 (scast i :: u32)) k \<longleftrightarrow> 2 \<le> k \<and> k < 32 \<and> bit i (min (k - 2) 13)" for k
    by (simp only: bit_push_bit_iff bit_scast32 possible_bit_word) auto
  have s: "sign_extend w 16 = w"
    by (rule bit_word_eqI, subst sign_extend_bits) (auto simp: b min_def)
  have "w = push_bit 2 (scast i) \<longleftrightarrow> (\<forall>k \<ge> 9. \<not> bit i k)"
  proof
    assume eq: "w = push_bit 2 (scast i)"
    show "\<forall>k \<ge> 9. \<not> bit i k"
    proof (intro allI impI notI)
      fix k assume k: "9 \<le> k" "bit i k"
      then have "k < 14" by (auto dest: bit_imp_le_length)
      with k v [of "k + 2"] have "bit w (k + 2)" by (simp add: eq min_def)
      with k show False by (simp add: b)
    qed
  next
    assume z: "\<forall>k \<ge> 9. \<not> bit i k"
    show "w = push_bit 2 (scast i)"
    proof (rule bit_word_eqI)
      fix k
      have "bit i (min (k - 2) 13) \<longleftrightarrow> k < 11 \<and> bit i (k - 2)" using z
        by (cases "k < 11") (auto simp: min_def)
      then show "bit w k \<longleftrightarrow> bit (push_bit 2 (scast i :: u32)) k"
        by (simp only: b v) auto
    qed
  qed
  then show ?thesis
    by (simp only: s [unfolded w_def] small_offset quadruple [symmetric] w_def)
qed

end
