(* ===== verification/Convvar.thy ===== *)
theory Convvar
  imports Strext
begin

text \<open>
  The convenience variables of \<^verbatim>\<open>source/convvar.c\<close>. The list \<^verbatim>\<open>vars\<close> (NULL before the first variable) is
  a list of cells, each the address and the contents of a \<^verbatim>\<open>struct convvar\<close>; a variable that was freed
  while it is still linked is \<open>None\<close>, and a walk that reaches it is a fault. The floating-point
  conversions, the address of a string and uninitialised memory are parameters.
\<close>

section \<open>Data\<close>

text \<open>\<open>CONVVAR_ERR\<close> is the \<^verbatim>\<open>-1\<close> that \<^verbatim>\<open>determine_kind\<close> returns besides its error.\<close>

datatype convvar_kind = CONVVAR_VOID_KIND | CONVVAR_INTEGER | CONVVAR_DOUBLE | CONVVAR_STRING | CONVVAR_ERR

datatype convvar_state = CONVVAR_VOID | CONVVAR_NONVOID

datatype convvar_data = DInteger u64 | DString string

record convvar =
  vname :: string
  vkind :: convvar_kind
  vdata :: convvar_data
  vstate :: convvar_state

type_synonym cvars = "(nat \<times> convvar option) list option"

text \<open>\<^verbatim>\<open>strtod\<close> (the bits of the double and the rest of the text), \<^verbatim>\<open>%f\<close>, a pointer read as a number, junk.\<close>

record cvenv =
  strtod :: "string \<Rightarrow> u64 \<times> string"
  show_f :: "u64 \<Rightarrow> string"
  ptr_of :: "string \<Rightarrow> u64"
  junk :: convvar_data

definition numbered :: "string \<Rightarrow> nat \<Rightarrow> string list" where
  "numbered p n = map (\<lambda>i. CHR ''$'' # p @ show_dec (int i)) [0..<n]"

definition bad_names :: "string list" where
  "bad_names =
     numbered ''x'' 29 @ [''$fp'', ''$lr'', ''$sp'', ''$pc'', ''$xzr''] @
     numbered ''w'' 29 @ [''$wsp'', ''$wzr''] @
     concat (map (\<lambda>p. numbered p 32) [''q'', ''v'', ''d'', ''s'', ''h'', ''b'']) @
     numbered ''X'' 29 @ [''$FP'', ''$LR'', ''$SP'', ''$PC'', ''$XZR''] @
     numbered ''W'' 29 @ [''$WSP'', ''$WZR''] @
     concat (map (\<lambda>p. numbered p 32) [''Q'', ''V'', ''D'', ''S'', ''H'', ''B'']) @
     [''$fp'', ''$lr'', ''$sp'', ''$pc'', ''$FP'', ''$LR'', ''$SP'', ''$PC'',
      ''$cpsr'', ''$fpsr'', ''$fpcr'', ''$CPSR'', ''$FPSR'', ''$FPCR'']"

definition invalid_name :: "string option \<Rightarrow> bool" where
  "invalid_name name = (case name of None \<Rightarrow> True | Some n \<Rightarrow> n \<in> set bad_names)"

section \<open>Operations\<close>

fun lookup_from :: "(nat \<times> convvar option) list \<Rightarrow> string \<Rightarrow> nat option run" where
  "lookup_from [] n = Inr None"
| "lookup_from ((a, None) # cs) n = Inl UseAfterFree"
| "lookup_from ((a, Some v) # cs) n = (if vname v = n then Inr (Some a) else lookup_from cs n)"

definition lookup_convvar :: "cvars \<Rightarrow> string option \<Rightarrow> nat option run" where
  "lookup_convvar vars name =
     (case vars of None \<Rightarrow> Inr None
      | Some cs \<Rightarrow> if invalid_name name then Inr None
                  else (case name of None \<Rightarrow> Inr None | Some n \<Rightarrow> lookup_from cs n))"

definition convvar_exists :: "cvars \<Rightarrow> string option \<Rightarrow> cbuf \<Rightarrow> (bool \<times> cbuf) run" where
  "convvar_exists vars name e =
     (case vars of None \<Rightarrow> Inr (False, e)
      | Some _ \<Rightarrow>
          (case name of
             Some n \<Rightarrow>
               if cchar n 0 \<noteq> CHR ''$''
               then Inr (False, concat_c e (''names of convenience variables must start with '' @ quoted ''$''))
               else bind_run (lookup_convvar vars name) (\<lambda>r. Inr (r \<noteq> None, e))
           | None \<Rightarrow> bind_run (lookup_convvar vars name) (\<lambda>r. Inr (r \<noteq> None, e))))"

text \<open>The positions \<^verbatim>\<open>strchr\<close> and \<^verbatim>\<open>strrchr\<close> return.\<close>

fun first_at :: "char \<Rightarrow> string \<Rightarrow> nat option" where
  "first_at c [] = None"
| "first_at c (x # xs) = (if x = c then Some 0 else map_option Suc (first_at c xs))"

fun last_at :: "char \<Rightarrow> string \<Rightarrow> nat option" where
  "last_at c [] = None"
| "last_at c (x # xs) =
     (case last_at c xs of Some i \<Rightarrow> Some (Suc i) | None \<Rightarrow> if x = c then Some 0 else None)"

definition determine_kind :: "string option \<Rightarrow> cbuf \<Rightarrow> (convvar_kind \<times> cbuf) run" where
  "determine_kind value e =
     (case value of None \<Rightarrow> Inl NullDeref
      | Some v \<Rightarrow>
         if length v = 0 then Inr (CONVVAR_VOID_KIND, e)
         else (let first_decimal = first_at (CHR ''.'') v; last_decimal = last_at (CHR ''.'') v in
           if cchar v 0 = CHR 0x22 then
             (if last_at (CHR 0x22) v = None
              then Inr (CONVVAR_ERR, concat_c e (''missing closing quotation for string '' @ quoted v))
              else Inr (CONVVAR_STRING, e))
           else if first_decimal \<noteq> last_decimal
             then Inr (CONVVAR_ERR, concat_c e (''malformed floating point number '' @ quoted v))
           else if first_decimal \<noteq> None then Inr (CONVVAR_DOUBLE, e)
           else Inr (CONVVAR_INTEGER, e)))"

text \<open>The variable after the update, \<open>None\<close> when it was freed.\<close>

definition update_convvar :: "cvenv \<Rightarrow> convvar \<Rightarrow> string option \<Rightarrow> cbuf \<Rightarrow> (convvar option \<times> cbuf) run" where
  "update_convvar E var value e =
     (case value of None \<Rightarrow> Inr (Some var, concat_c e ''NULL value'')
      | Some v \<Rightarrow>
         if length v = 0 then Inr (Some (var\<lparr>vstate := CONVVAR_VOID\<rparr>), e)
         else (case vkind var of
             CONVVAR_INTEGER \<Rightarrow>
               (let (i, rest) = strtol v 0 in
                if rest \<noteq> [] then Inr (None, concat_c e (''invalid number '' @ quoted v))
                else Inr (Some (var\<lparr>vdata := DInteger i, vstate := CONVVAR_NONVOID\<rparr>), e))
           | CONVVAR_DOUBLE \<Rightarrow>
               (let (d, rest) = strtod E v in
                if rest \<noteq> [] then Inr (None, concat_c e (''invalid number '' @ quoted v))
                else Inr (Some (var\<lparr>vdata := DInteger d, vstate := CONVVAR_NONVOID\<rparr>), e))
           | CONVVAR_STRING \<Rightarrow>
               if length v < 2 then Inl OutOfBounds
               else Inr (Some (var\<lparr>vdata := DString (take (length v - 2) (drop 1 v)),
                                  vstate := CONVVAR_NONVOID\<rparr>), e)
           | _ \<Rightarrow> Inr (Some (var\<lparr>vstate := CONVVAR_NONVOID\<rparr>), e)))"

text \<open>\<open>a\<close> is the address of the new variable.\<close>

definition create_convvar ::
    "cvenv \<Rightarrow> cvars \<Rightarrow> nat \<Rightarrow> string \<Rightarrow> string option \<Rightarrow> cbuf \<Rightarrow> (cvars \<times> cbuf) run" where
  "create_convvar E vars a name value e =
     bind_run (determine_kind value e) (\<lambda>(kind, e1).
       if e1 \<noteq> None then Inr (vars, e1)
       else (let var = \<lparr>vname = name, vkind = kind, vdata = junk E,
                       vstate = (if kind = CONVVAR_VOID_KIND then CONVVAR_VOID else CONVVAR_NONVOID)\<rparr>
             in bind_run (update_convvar E var value e1) (\<lambda>(var', e2).
                  if e2 \<noteq> None then Inr (vars, e2)
                  else Inr (Some ((case vars of None \<Rightarrow> [] | Some cs \<Rightarrow> cs) @ [(a, var')]), e2))))"

definition set_cell :: "cvars \<Rightarrow> nat \<Rightarrow> convvar option \<Rightarrow> cvars" where
  "set_cell vars a v = map_option (map (\<lambda>(b, w). if b = a then (b, v) else (b, w))) vars"

definition cell :: "cvars \<Rightarrow> nat \<Rightarrow> convvar run" where
  "cell vars a =
     (case vars of None \<Rightarrow> Inl NullDeref
      | Some cs \<Rightarrow> (case map_of cs a of Some (Some v) \<Rightarrow> Inr v | _ \<Rightarrow> Inl UseAfterFree))"

definition set_convvar ::
    "cvenv \<Rightarrow> cvars \<Rightarrow> nat \<Rightarrow> string option \<Rightarrow> string option \<Rightarrow> cbuf \<Rightarrow> (cvars \<times> cbuf) run" where
  "set_convvar E vars a name value e =
     (if invalid_name name
      then Inr (vars, concat_c e (quoted (case name of None \<Rightarrow> ''NULL'' | Some n \<Rightarrow> n) @
                                  '' is an invalid convenience variable name''))
      else bind_run (convvar_exists vars name e) (\<lambda>(exists, e1).
        if \<not> exists then
          (if e1 \<noteq> None then Inr (vars, e1)
           else (case name of None \<Rightarrow> Inr (vars, e1) | Some n \<Rightarrow> create_convvar E vars a n value e1))
        else bind_run (lookup_convvar vars name) (\<lambda>target.
          case target of None \<Rightarrow> Inr (vars, e1)
          | Some t \<Rightarrow>
              bind_run (determine_kind value e1) (\<lambda>(kind, e2).
              bind_run (cell vars t) (\<lambda>var.
              bind_run (update_convvar E (var\<lparr>vkind := kind\<rparr>) value e2) (\<lambda>(var', e3).
                Inr (set_cell vars t var', e3)))))))"

text \<open>The text of a variable that exists.\<close>

definition var_text :: "cvenv \<Rightarrow> convvar \<Rightarrow> string run" where
  "var_text E var =
     (if vstate var = CONVVAR_VOID then Inr ''void''
      else if vkind var = CONVVAR_STRING then
        (case vdata var of DString s \<Rightarrow> Inr s | DInteger _ \<Rightarrow> Inl OutOfBounds)
      else (let i = (case vdata var of DInteger i \<Rightarrow> i | DString s \<Rightarrow> ptr_of E s) in
        if vkind var = CONVVAR_DOUBLE then Inr (show_f E i)
        else Inr ((if i <s 0 then ''-'' else []) @ show_hex (if i <s 0 then - i else i))))"

definition convvar_strval :: "cvenv \<Rightarrow> cvars \<Rightarrow> string option \<Rightarrow> cbuf \<Rightarrow> (string option \<times> cbuf) run" where
  "convvar_strval E vars name e =
     bind_run (lookup_convvar vars name) (\<lambda>target.
       case target of
         None \<Rightarrow> Inr (None, concat_c e (''convenience variable '' @
             quoted (case name of None \<Rightarrow> ''(null)'' | Some n \<Rightarrow> n) @ '' does not exist''))
       | Some t \<Rightarrow> bind_run (cell vars t) (\<lambda>var. bind_run (var_text E var) (\<lambda>s. Inr (Some s, e))))"

definition void_convvar :: "cvars \<Rightarrow> string option \<Rightarrow> cvars run" where
  "void_convvar vars name =
     (if name = None then Inr vars
      else bind_run (lookup_convvar vars name) (\<lambda>target.
        case target of None \<Rightarrow> Inr vars
        | Some t \<Rightarrow> bind_run (cell vars t) (\<lambda>var.
            Inr (set_cell vars t (Some (var\<lparr>vstate := CONVVAR_VOID\<rparr>))))))"

text \<open>\<^verbatim>\<open>convvar_free\<close> frees the variable, and the \<^verbatim>\<open>free(target)\<close> that follows frees it again.\<close>

definition del_convvar :: "cvars \<Rightarrow> string option \<Rightarrow> cbuf \<Rightarrow> (cvars \<times> cbuf) run" where
  "del_convvar vars name e =
     bind_run (lookup_convvar vars name) (\<lambda>target.
       case target of
         None \<Rightarrow> Inr (vars, concat_c e (''convenience variable '' @
             quoted (case name of None \<Rightarrow> ''(null)'' | Some n \<Rightarrow> n) @ '' not found''))
       | Some t \<Rightarrow> if vars = None then Inr (vars, e) else Inl UseAfterFree)"

definition p_convvar :: "cvenv \<Rightarrow> cvars \<Rightarrow> string option \<Rightarrow> cbuf \<Rightarrow> cbuf run" where
  "p_convvar E vars name out =
     (case name of None \<Rightarrow> Inr out
      | Some n \<Rightarrow>
         if vars = None then Inr out
         else bind_run (convvar_strval E vars name None) (\<lambda>(sval, e).
           let out1 = concat_c out (replicate 8 (CHR '' '')) in
           Inr (case e of
               Some err \<Rightarrow> concat_c out1 (''failed to show convenience variable '' @ quoted n @ '': '' @ err @ [CHR 0x0A])
             | None \<Rightarrow> concat_c out1 (n @ '' = '' @ (case sval of Some s \<Rightarrow> s | None \<Rightarrow> ''(null)'') @ [CHR 0x0A]))))"

fun show_cells :: "cvenv \<Rightarrow> cvars \<Rightarrow> (nat \<times> convvar option) list \<Rightarrow> cbuf \<Rightarrow> cbuf run" where
  "show_cells E vars [] out = Inr out"
| "show_cells E vars ((a, None) # cs) out = Inl UseAfterFree"
| "show_cells E vars ((a, Some v) # cs) out =
     bind_run (p_convvar E vars (Some (vname v)) out) (\<lambda>out1. show_cells E vars cs out1)"

definition show_all_cvars :: "cvenv \<Rightarrow> cvars \<Rightarrow> cbuf \<Rightarrow> cbuf run" where
  "show_all_cvars E vars out = (case vars of None \<Rightarrow> Inr out | Some cs \<Rightarrow> show_cells E vars cs out)"

definition desc_auto_convvar_error_if_needed :: "cbuf \<Rightarrow> string option \<Rightarrow> cbuf \<Rightarrow> cbuf" where
  "desc_auto_convvar_error_if_needed out var e =
     (case e of None \<Rightarrow> out | Some err \<Rightarrow> (case var of None \<Rightarrow> out
      | Some v \<Rightarrow> concat_c out (''could not automatically update theconvenience variable '' @
                              quoted v @ '': '' @ err @ [CHR 0x0A])))"

section \<open>The store as a map\<close>

text \<open>
  A well-formed store has no freed variable linked, and distinct addresses and names. It is then a
  finite map from names to variables, and the operations read and update that map.
\<close>

definition cells_of :: "cvars \<Rightarrow> (nat \<times> convvar option) list" where
  "cells_of vars = (case vars of None \<Rightarrow> [] | Some cs \<Rightarrow> cs)"

definition cells_ok :: "(nat \<times> convvar option) list \<Rightarrow> bool" where
  "cells_ok cs \<longleftrightarrow> (\<forall>c \<in> set cs. snd c \<noteq> None) \<and> distinct (map fst cs) \<and>
     distinct (map (vname \<circ> the \<circ> snd) cs)"

definition cvars_ok :: "cvars \<Rightarrow> bool" where
  "cvars_ok vars \<longleftrightarrow> cells_ok (cells_of vars)"

definition cells_map :: "(nat \<times> convvar option) list \<Rightarrow> string \<Rightarrow> convvar option" where
  "cells_map cs n = map_option (the \<circ> snd) (find (\<lambda>c. vname (the (snd c)) = n) cs)"

definition var_of :: "cvars \<Rightarrow> string \<Rightarrow> convvar option" where
  "var_of vars n = (if n \<in> set bad_names then None else cells_map (cells_of vars) n)"

lemma lookup_from_live:
  "\<forall>c \<in> set cs. snd c \<noteq> None \<Longrightarrow>
    lookup_from cs n = Inr (map_option fst (find (\<lambda>c. vname (the (snd c)) = n) cs))"
  by (induction cs n rule: lookup_from.induct) auto

lemma find_cell:
  assumes ok: "cells_ok cs" and f: "find (\<lambda>c. vname (the (snd c)) = n) cs = Some (a, w)"
  obtains v where "w = Some v" "map_of cs a = Some (Some v)" "vname v = n" "(a, Some v) \<in> set cs"
proof -
  from f have "\<exists>i < length cs. cs ! i = (a, w) \<and> vname (the (snd (cs ! i))) = n"
    by (auto simp: find_Some_iff)
  then have c: "(a, w) \<in> set cs" "vname (the w) = n" by (metis nth_mem, auto)
  with ok obtain v where "w = Some v" by (fastforce simp: cells_ok_def)
  moreover from this have "map_of cs a = Some (Some v)"
    using c ok by (simp add: cells_ok_def)
  ultimately show ?thesis using c that by simp
qed

text \<open>Looking a name up: the address of its cell and what the cell holds.\<close>

lemma lookup_ok:
  assumes "cvars_ok vars"
  obtains (none) "lookup_convvar vars (Some n) = Inr None" "var_of vars n = None"
  | (some) a v where "lookup_convvar vars (Some n) = Inr (Some a)" "var_of vars n = Some v"
      "cell vars a = Inr v" "vname v = n" "(a, Some v) \<in> set (cells_of vars)"
proof (cases "vars = None \<or> n \<in> set bad_names")
  case True
  then show ?thesis
    by (intro none) (auto simp: lookup_convvar_def var_of_def invalid_name_def cells_of_def cells_map_def
        split: option.splits)
next
  case False
  then obtain cs where cs: "vars = Some cs" "n \<notin> set bad_names" by auto
  with assms have ok: "cells_ok cs" by (simp add: cvars_ok_def cells_of_def)
  then have l: "lookup_convvar vars (Some n) = Inr (map_option fst (find (\<lambda>c. vname (the (snd c)) = n) cs))"
    using cs by (simp add: lookup_convvar_def invalid_name_def lookup_from_live cells_ok_def)
  show ?thesis
  proof (cases "find (\<lambda>c. vname (the (snd c)) = n) cs")
    case None
    with l cs show ?thesis by (intro none) (simp_all add: var_of_def cells_map_def cells_of_def)
  next
    case (Some c)
    obtain a w where c: "c = (a, w)" by (cases c)
    from find_cell [OF ok Some [unfolded c]] obtain v where v: "w = Some v"
      "map_of cs a = Some (Some v)" "vname v = n" "(a, Some v) \<in> set cs" .
    show ?thesis
    proof (rule some)
      show "lookup_convvar vars (Some n) = Inr (Some a)" using l Some c by simp
      show "var_of vars n = Some v" using Some c cs v by (simp add: var_of_def cells_map_def cells_of_def)
      show "cell vars a = Inr v" using v cs by (simp add: cell_def)
      show "vname v = n" using v by simp
      show "(a, Some v) \<in> set (cells_of vars)" using v cs by (simp add: cells_of_def)
    qed
  qed
qed

lemma strval_var_of:
  assumes "cvars_ok vars"
  shows "convvar_strval E vars (Some n) e =
    (case var_of vars n of
       None \<Rightarrow> Inr (None, concat_c e (''convenience variable '' @ quoted n @ '' does not exist''))
     | Some v \<Rightarrow> bind_run (var_text E v) (\<lambda>s. Inr (Some s, e)))"
  using assms by (cases rule: lookup_ok [of vars n]) (simp_all add: convvar_strval_def)

lemma cells_map_append:
  assumes "cells_map cs (vname v) = None"
  shows "cells_map (cs @ [(a, Some v)]) = (cells_map cs)(vname v \<mapsto> v)"
proof
  fix m
  show "cells_map (cs @ [(a, Some v)]) m = ((cells_map cs)(vname v \<mapsto> v)) m"
    using assms by (induction cs) (auto simp: cells_map_def)
qed

lemma cells_map_update:
  assumes "cells_ok cs" "(a, Some w) \<in> set cs" "vname w = vname v"
  shows "cells_map (map (\<lambda>(b, u). if b = a then (b, Some v) else (b, u)) cs) = (cells_map cs)(vname v \<mapsto> v)"
proof
  fix m
  show "cells_map (map (\<lambda>(b, u). if b = a then (b, Some v) else (b, u)) cs) m = ((cells_map cs)(vname v \<mapsto> v)) m"
    using assms
  proof (induction cs)
    case Nil
    then show ?case by simp
  next
    case (Cons c cs)
    obtain b u where c: "c = (b, u)" by (cases c)
    show ?case
    proof (cases "b = a")
      case True
      with Cons.prems c have u: "u = Some w"
        by (auto simp: cells_ok_def) (metis fst_conv image_eqI)+
      have same: "map (\<lambda>(b, u). if b = a then (b, Some v) else (b, u)) cs = cs"
        using Cons.prems(1) c True by (intro map_idI) (force simp: cells_ok_def)
      show ?thesis using True c u Cons.prems(3) by (auto simp: cells_map_def same)
    next
      case False
      with Cons.prems c have "(a, Some w) \<in> set cs" "cells_ok cs" "vname (the u) \<noteq> vname w"
        by (auto simp: cells_ok_def image_iff) 
      with Cons False c show ?thesis by (auto simp: cells_map_def split: if_splits)
    qed
  qed
qed

text \<open>The text a variable has after it was set to \<open>v\<close>.\<close>

definition stored_text :: "cvenv \<Rightarrow> string \<Rightarrow> string" where
  "stored_text E v =
     (if v = [] then ''void''
      else if hd v = CHR 0x22 then take (length v - 2) (drop 1 v)
      else if CHR ''.'' \<in> set v then show_f E (fst (strtod E v))
      else (let i = fst (strtol v 0) in
            (if i <s 0 then ''-'' else []) @ show_hex (if i <s 0 then - i else i)))"

lemma first_at_None: "first_at c v = None \<longleftrightarrow> c \<notin> set v"
  by (induction v) auto

lemma first_at_Some: "first_at c v = Some i \<Longrightarrow> c \<in> set v"
  using first_at_None [of c v] by (cases "c \<in> set v") auto

lemma update_text:
  assumes "determine_kind (Some v) None = Inr (k, None)"
    and "update_convvar E (var\<lparr>vkind := k\<rparr>) (Some v) None = Inr (w, None)"
  obtains u where "w = Some u" "vname u = vname var" "var_text E u = Inr (stored_text E v)"
proof (cases "v = []")
  case True
  with assms have "w = Some (var\<lparr>vkind := k, vstate := CONVVAR_VOID\<rparr>)"
    by (auto simp: determine_kind_def update_convvar_def)
  with True that show ?thesis by (simp add: var_text_def stored_text_def)
next
  case False
  then have c: "cchar v 0 = hd v" by (simp add: cchar_def hd_conv_nth)
  consider (str) "k = CONVVAR_STRING" "hd v = CHR 0x22"
    | (dbl) "k = CONVVAR_DOUBLE" "hd v \<noteq> CHR 0x22" "CHR ''.'' \<in> set v"
    | (int) "k = CONVVAR_INTEGER" "hd v \<noteq> CHR 0x22" "CHR ''.'' \<notin> set v"
    using assms(1) False c
    by (auto simp: determine_kind_def Let_def first_at_None dest: first_at_Some split: if_splits)
  then show ?thesis
  proof cases
    case str
    with assms(2) False that show ?thesis
      by (auto simp: update_convvar_def var_text_def stored_text_def split: if_splits)
  next
    case dbl
    with assms(2) False that show ?thesis
      by (auto simp: update_convvar_def var_text_def stored_text_def Let_def split: if_splits prod.splits)
  next
    case int
    with assms(2) False that show ?thesis
      by (auto simp: update_convvar_def var_text_def stored_text_def Let_def split: if_splits prod.splits)
  qed
qed

lemma cells_ok_append:
  "cells_ok cs \<Longrightarrow> a \<notin> fst ` set cs \<Longrightarrow> cells_map cs (vname v) = None \<Longrightarrow> cells_ok (cs @ [(a, Some v)])"
  by (fastforce simp: cells_ok_def cells_map_def find_None_iff)

lemma cells_ok_update:
  assumes "cells_ok cs" "(a, Some w) \<in> set cs" "vname w = vname v"
  shows "cells_ok (map (\<lambda>(b, u). if b = a then (b, Some v) else (b, u)) cs)"
proof -
  let ?f = "\<lambda>(b, u). if b = a then (b, Some v) else (b, u)"
  have f: "map fst (map ?f cs) = map fst cs" by (induction cs) auto
  have g: "map (vname \<circ> the \<circ> snd) (map ?f cs) = map (vname \<circ> the \<circ> snd) cs"
  proof -
    have "u = Some w" if "(a, u) \<in> set cs" for u
      using assms(1,2) that by (auto simp: cells_ok_def dest: eq_key_imp_eq_value)
    then show ?thesis using assms(3) by (auto simp: comp_def split: prod.splits) (metis option.sel)
  qed
  have "\<forall>c \<in> set (map ?f cs). snd c \<noteq> None" using assms(1) by (auto simp: cells_ok_def)
  then show ?thesis using assms(1) unfolding cells_ok_def f g by blast
qed

text \<open>Setting a variable changes its text to the value and no other variable.\<close>

lemma set_convvar_updates:
  assumes ok: "cvars_ok vars" and fresh: "a \<notin> fst ` set (cells_of vars)"
    and set: "set_convvar E vars a (Some n) (Some v) None = Inr (vars', None)"
  obtains u where "cvars_ok vars'" "n \<notin> set bad_names" "var_text E u = Inr (stored_text E v)"
    "\<And>m. var_of vars' m = (if m = n then Some u else var_of vars m)"
proof -
  have nb: "n \<notin> set bad_names" using set by (auto simp: set_convvar_def invalid_name_def)
  obtain ex e1 where ce: "convvar_exists vars (Some n) None = Inr (ex, e1)"
    using set nb by (cases "convvar_exists vars (Some n) None") (auto simp: set_convvar_def invalid_name_def)
  show ?thesis
  proof (cases ex)
    case False
    have e1: "e1 = None" using set nb ce False by (auto simp: set_convvar_def invalid_name_def split: if_splits)
    have none: "var_of vars n = None"
    proof (cases vars)
      case None
      then show ?thesis by (simp add: var_of_def cells_of_def cells_map_def)
    next
      case (Some cs)
      with ce e1 False show ?thesis
        by (cases rule: lookup_ok [OF ok, of n]) (auto simp: convvar_exists_def split: if_splits)
    qed
    from set nb ce False e1 have cr: "create_convvar E vars a n (Some v) None = Inr (vars', None)"
      by (simp add: set_convvar_def invalid_name_def)
    then obtain k where k: "determine_kind (Some v) None = Inr (k, None)"
      by (cases "determine_kind (Some v) None") (auto simp: create_convvar_def split: if_splits)
    let ?var = "\<lparr>vname = n, vkind = k, vdata = junk E,
        vstate = if k = CONVVAR_VOID_KIND then CONVVAR_VOID else CONVVAR_NONVOID\<rparr>"
    from cr k obtain w where w: "update_convvar E ?var (Some v) None = Inr (w, None)"
        "vars' = Some (cells_of vars @ [(a, w)])"
      by (cases "update_convvar E ?var (Some v) None")
         (auto simp: create_convvar_def cells_of_def Let_def split: if_splits)
    from w(1) have w': "update_convvar E (?var\<lparr>vkind := k\<rparr>) (Some v) None = Inr (w, None)" by simp
    from update_text [OF k w'] obtain u where u: "w = Some u" "vname u = n" "var_text E u = Inr (stored_text E v)"
      by auto
    have cm: "cells_map (cells_of vars) (vname u) = None" using none nb u by (simp add: var_of_def)
    show ?thesis
    proof (rule that [OF _ nb u(3)])
      show "cvars_ok vars'" using ok fresh cm u w cells_ok_append [of "cells_of vars" a u]
        by (simp add: cvars_ok_def cells_of_def)
      show "var_of vars' m = (if m = n then Some u else var_of vars m)" for m
        using cells_map_append [OF cm, of a] w u nb by (auto simp: var_of_def cells_of_def)
    qed
  next
    case True
    show ?thesis
    proof (cases rule: lookup_ok [OF ok, of n])
      case 1
      with set nb ce True have "vars' = vars" by (auto simp: set_convvar_def invalid_name_def)
      moreover from ce True 1 have False
        by (auto simp: convvar_exists_def split: option.splits if_splits)
      ultimately show ?thesis by simp
    next
      case (2 t var)
      obtain cs where cs: "vars = Some cs" using 2 by (cases vars) (auto simp: cells_of_def)
      have e1: "e1 = None" using ce True cs by (auto simp: convvar_exists_def bind_run_Inr split: if_splits)
      from set nb ce True 2 e1 obtain k e2 w where
        k: "determine_kind (Some v) None = Inr (k, e2)" and
        w: "update_convvar E (var\<lparr>vkind := k\<rparr>) (Some v) e2 = Inr (w, None)" "vars' = set_cell vars t w"
        by (auto simp: set_convvar_def invalid_name_def bind_run_Inr)
      have e2: "e2 = None" using w(1)
        by (auto simp: update_convvar_def Let_def split: if_splits convvar_kind.splits prod.splits)
      from update_text [OF k [unfolded e2] w(1) [unfolded e2]] obtain u where
        u: "w = Some u" "vname u = vname var" "var_text E u = Inr (stored_text E v)" .
      have mem: "(t, Some var) \<in> set cs" and okc: "cells_ok cs"
        using 2 cs ok by (simp_all add: cells_of_def cvars_ok_def)
      show ?thesis
      proof (rule that [OF _ nb u(3)])
        show "cvars_ok vars'" using cells_ok_update [OF okc mem u(2) [symmetric]] w u cs
          by (simp add: cvars_ok_def cells_of_def set_cell_def)
        show "var_of vars' m = (if m = n then Some u else var_of vars m)" for m
          using cells_map_update [OF okc mem u(2) [symmetric]] w u cs nb 2
          by (auto simp: var_of_def cells_of_def set_cell_def)
      qed
    qed
  qed
qed

text \<open>
  An invalid number for an existing variable frees it but leaves it linked: reading it, or any
  variable behind it, is then an access to freed memory.
\<close>

lemma invalid_number_dangles:
  assumes ok: "cvars_ok vars" and old: "var_of vars n = Some old" and "n = CHR ''$'' # n'"
    and v: "v \<noteq> []" "hd v \<noteq> CHR 0x22" "CHR ''.'' \<notin> set v" "snd (strtol v 0) \<noteq> []"
  shows "\<exists>vars'. set_convvar E vars a (Some n) (Some v) None = Inr (vars', Some (''invalid number '' @ quoted v)) \<and>
    convvar_strval E vars' (Some n) None = Inl UseAfterFree"
proof (cases rule: lookup_ok [OF ok, of n])
  case 1
  with old show ?thesis by simp
next
  case (2 t var)
  obtain cs where cs: "vars = Some cs" using 2 by (cases vars) (auto simp: cells_of_def)
  have nb: "n \<notin> set bad_names" using old by (auto simp: var_of_def split: if_splits)
  have ex: "convvar_exists vars (Some n) None = Inr (True, None)"
    using cs 2 assms(3) by (simp add: convvar_exists_def cchar_def)
  have c: "cchar v 0 = hd v" using v by (simp add: cchar_def hd_conv_nth)
  have l: "last_at c v = None" if "c \<notin> set v" for c using that by (induction v) auto
  have k: "determine_kind (Some v) None = Inr (CONVVAR_INTEGER, None)"
    using v c l [OF v(3)] by (simp add: determine_kind_def Let_def first_at_None [THEN iffD2])
  have u: "update_convvar E (var\<lparr>vkind := CONVVAR_INTEGER\<rparr>) (Some v) None
      = Inr (None, Some (''invalid number '' @ quoted v))"
    using v by (cases "strtol v 0") (simp add: update_convvar_def)
  let ?vars = "set_cell vars t None"
  have s: "set_convvar E vars a (Some n) (Some v) None = Inr (?vars, Some (''invalid number '' @ quoted v))"
    using nb ex 2 k u by (simp add: set_convvar_def invalid_name_def)
  have mem: "(t, Some var) \<in> set cs" and okc: "cells_ok cs"
    using 2 cs ok by (simp_all add: cells_of_def cvars_ok_def)
  have "lookup_from (map (\<lambda>(b, w). if b = t then (b, None) else (b, w)) cs) n = Inl UseAfterFree"
    using mem okc
  proof (induction cs)
    case Nil
    then show ?case by simp
  next
    case (Cons c cs)
    obtain b u where c: "c = (b, u)" by (cases c)
    show ?case
    proof (cases "b = t")
      case True
      with c show ?thesis by simp
    next
      case False
      with Cons.prems c have m: "(t, Some var) \<in> set cs" "cells_ok cs" by (auto simp: cells_ok_def)
      then have "vname var \<in> (vname \<circ> the \<circ> snd) ` set cs" by force
      moreover have "vname (the u) \<notin> (vname \<circ> the \<circ> snd) ` set cs" "u \<noteq> None"
        using Cons.prems(2) c by (auto simp: cells_ok_def)
      ultimately obtain x where "u = Some x" "vname x \<noteq> n" using 2(4) by (metis not_None_eq option.sel)
      with Cons.IH [OF m] c False show ?thesis by simp
    qed
  qed
  then have "convvar_strval E ?vars (Some n) None = Inl UseAfterFree"
    using cs nb by (simp add: convvar_strval_def lookup_convvar_def invalid_name_def set_cell_def)
  with s show ?thesis by blast
qed

end
