(* ===== verification/Target.thy ===== *)
theory Target
  imports Containers Convvar
begin

text \<open>
  What the debugger keeps about its target, \<^verbatim>\<open>source/debuggee.h\<close> with the objects its lists point to,
  and the Mach calls it makes. The kernel is a parameter: a state and the calls on it. The breakpoints,
  watchpoints and threads are linked lists of pointers to objects; here such a list is the list of its
  objects with their addresses.
\<close>

section \<open>Thread states\<close>

record thread_state64 =
  ts_x :: "u64 list"
  ts_fp :: u64
  ts_lr :: u64
  ts_sp :: u64
  ts_pc :: u64
  ts_cpsr :: u32

record debug_state64 =
  ds_bvr :: "u64 list"
  ds_bcr :: "u64 list"
  ds_wvr :: "u64 list"
  ds_wcr :: "u64 list"
  ds_mdscr_el1 :: u64

record neon_state64 =
  ns_v :: "128 word list"
  ns_fpsr :: u32
  ns_fpcr :: u32

section \<open>The kernel\<close>

text \<open>
  The Mach calls, on an abstract kernel state: memory of the task, its regions and protections, and the
  states of its threads by port. A \<^verbatim>\<open>kern_return_t\<close> is its number, 0 for success; a call that fails to
  give a state gives no value.
\<close>

type_synonym kern_return = u32

definition KERN_SUCCESS :: kern_return where
  "KERN_SUCCESS = 0"

definition KERN_FAILURE :: kern_return where
  "KERN_FAILURE = 5"

record 'k mach =
  vm_read_overwrite :: "'k \<Rightarrow> u64 \<Rightarrow> u64 \<Rightarrow> kern_return + u8 list"
  vm_region_64 :: "'k \<Rightarrow> u64 \<Rightarrow> kern_return + u32"
  vm_protect :: "'k \<Rightarrow> u64 \<Rightarrow> u64 \<Rightarrow> u32 \<Rightarrow> 'k"
  vm_write :: "'k \<Rightarrow> u64 \<Rightarrow> u8 list \<Rightarrow> kern_return \<times> 'k"
  thread_get_state :: "'k \<Rightarrow> u32 \<Rightarrow> kern_return + thread_state64"
  thread_set_state :: "'k \<Rightarrow> u32 \<Rightarrow> thread_state64 \<Rightarrow> kern_return \<times> 'k"
  debug_get_state :: "'k \<Rightarrow> u32 \<Rightarrow> kern_return + debug_state64"
  debug_set_state :: "'k \<Rightarrow> u32 \<Rightarrow> debug_state64 \<Rightarrow> kern_return \<times> 'k"
  neon_get_state :: "'k \<Rightarrow> u32 \<Rightarrow> kern_return + neon_state64"
  neon_set_state :: "'k \<Rightarrow> u32 \<Rightarrow> neon_state64 \<Rightarrow> kern_return \<times> 'k"
  thread_ident :: "'k \<Rightarrow> u32 \<Rightarrow> kern_return + u64"
  thread_name :: "'k \<Rightarrow> u32 \<Rightarrow> string option"
  mach_port_allocate :: "'k \<Rightarrow> kern_return + u32"
  request_notification :: "'k \<Rightarrow> u32 \<Rightarrow> u32 \<Rightarrow> kern_return"
  mach_error_string :: "kern_return \<Rightarrow> string"

section \<open>The objects of the debugger\<close>

datatype step_kind = STEP_NONE | INST_STEP_INTO | INST_STEP_OVER

record stepconfig =
  is_stepping :: bool
  step_kind :: step_kind
  just_hit_ss_breakpoint :: bool
  set_temp_ss_breakpoint :: bool

record machthread =
  port :: u32
  focused :: bool
  tid :: u64
  tname :: string
  ID :: int
  thread_state :: thread_state64
  debug_state :: debug_state64
  neon_state :: neon_state64
  just_hit_watchpoint :: bool
  just_hit_breakpoint :: bool
  just_hit_sw_breakpoint :: bool
  last_hit_wp_loc :: u64
  last_hit_wp_PC :: u64
  last_hit_bkpt_ID :: int
  stepconfig :: stepconfig

record threadinfo =
  all_threads :: bool
  iosdbg_tid :: int
  pthread_tid :: u64
  ti_name :: "string option"

record breakpoint =
  bp_id :: int
  bp_location :: u64
  old_instruction :: u64
  bp_hit_count :: int
  bp_disabled :: bool
  bp_temporary :: bool
  bp_hw :: bool
  hw_bp_reg :: int
  for_stepping :: bool
  bp_threadinfo :: threadinfo
  bp_bcr :: u64
  bp_bvr :: u64

record watchpoint =
  wp_id :: int
  user_location :: u64
  aligned_location :: u64
  wp_hit_count :: int
  wp_data :: "u8 list"
  data_len :: u32
  hw_wp_reg :: int
  wp_type :: string
  wp_threadinfo :: threadinfo
  wp_wcr :: u64
  wp_wvr :: u64

section \<open>Lists of pointers to objects\<close>

type_synonym 'a plist = "(nat \<times> 'a) list"

definition pl_get :: "'a plist \<Rightarrow> nat \<Rightarrow> 'a option" where
  "pl_get xs a = map_of xs a"

definition pl_update :: "nat \<Rightarrow> ('a \<Rightarrow> 'a) \<Rightarrow> 'a plist \<Rightarrow> 'a plist" where
  "pl_update a f xs = map (\<lambda>(b, x). if b = a then (b, f x) else (b, x)) xs"

definition pl_add :: "'a plist \<Rightarrow> nat \<Rightarrow> 'a \<Rightarrow> 'a plist" where
  "pl_add xs a x = xs @ [(a, x)]"

fun pl_delete :: "nat \<Rightarrow> 'a plist \<Rightarrow> 'a plist" where
  "pl_delete a [] = []"
| "pl_delete a (c # cs) = (if fst c = a then cs else c # pl_delete a cs)"

definition pl_find :: "('a \<Rightarrow> bool) \<Rightarrow> 'a plist \<Rightarrow> (nat \<times> 'a) option" where
  "pl_find P xs = find (\<lambda>c. P (snd c)) xs"

text \<open>The pointers of such a list are the linked list of \<open>Containers\<close>.\<close>

lemma pl_delete_pointers: "map (Some \<circ> fst) (pl_delete a xs) = ll_delete (map (Some \<circ> fst) xs) (Some a)"
  by (induction xs) (auto simp: ll_delete_def)

lemma pl_add_pointers: "map (Some \<circ> fst) (pl_add xs a x) = ll_add (map (Some \<circ> fst) xs) (Some a)"
  by (simp add: pl_add_def ll_add_def)

lemma pl_update_pointers [simp]: "map fst (pl_update a f xs) = map fst xs"
  by (induction xs) (auto simp: pl_update_def)

lemma pl_update_simps [simp]:
  "pl_update a f [] = []"
  "pl_update a f ((b, x) # xs) = (if b = a then (b, f x) else (b, x)) # pl_update a f xs"
  by (simp_all add: pl_update_def)

lemma pl_delete_filter: "distinct (map fst xs) \<Longrightarrow> pl_delete a xs = filter (\<lambda>c. fst c \<noteq> a) xs"
  by (induction xs) (force intro!: filter_True [symmetric])+

lemma pl_delete_set: "distinct (map fst xs) \<Longrightarrow> set (pl_delete a xs) = {c \<in> set xs. fst c \<noteq> a}"
  by (simp add: pl_delete_filter)

lemma pl_delete_distinct: "distinct (map fst xs) \<Longrightarrow> distinct (map fst (pl_delete a xs))"
  by (induction xs) (auto simp: pl_delete_set)

lemma pl_get_mem: "distinct (map fst xs) \<Longrightarrow> pl_get xs a = Some x \<longleftrightarrow> (a, x) \<in> set xs"
  by (simp add: pl_get_def)

lemma pl_find_Some: "pl_find P xs = Some (a, x) \<Longrightarrow> (a, x) \<in> set xs \<and> P x"
  unfolding pl_find_def find_Some_iff by (metis nth_mem snd_conv)

section \<open>The state of the debugger\<close>

text \<open>
  The lists exist from attaching to detaching, and all operations modelled here run in between.
  \<open>fresh\<close> is the address of the next object.
\<close>

record 'k dbg =
  kern :: 'k
  threads :: "machthread plist"
  breakpoints :: "breakpoint plist"
  watchpoints :: "watchpoint plist"
  num_breakpoints :: int
  num_watchpoints :: int
  num_hw_bps :: int
  num_hw_wps :: int
  thread_count :: int
  death_notify_port :: u32
  current_machthread_id :: int
  current_breakpoint_id :: int
  current_watchpoint_id :: int
  vars :: cvars
  fresh :: nat

definition upd_thread :: "nat \<Rightarrow> (machthread \<Rightarrow> machthread) \<Rightarrow> 'k dbg \<Rightarrow> 'k dbg" where
  "upd_thread a f d = d\<lparr>threads := pl_update a f (threads d)\<rparr>"

definition upd_bp :: "nat \<Rightarrow> (breakpoint \<Rightarrow> breakpoint) \<Rightarrow> 'k dbg \<Rightarrow> 'k dbg" where
  "upd_bp a f d = d\<lparr>breakpoints := pl_update a f (breakpoints d)\<rparr>"

definition upd_wp :: "nat \<Rightarrow> (watchpoint \<Rightarrow> watchpoint) \<Rightarrow> 'k dbg \<Rightarrow> 'k dbg" where
  "upd_wp a f d = d\<lparr>watchpoints := pl_update a f (watchpoints d)\<rparr>"

end
