(* ===== verification/Memutils.thy ===== *)
theory Memutils
  imports Target Branch
begin

text \<open>Reading, writing and showing the memory of the target, \<^verbatim>\<open>source/memutils.c\<close>.\<close>

section \<open>Byte order\<close>

definition CFSwapInt32 :: "u32 \<Rightarrow> u32" where
  "CFSwapInt32 arg =
     push_bit 24 (arg AND 0xFF) OR push_bit 8 (arg AND 0xFF00) OR
     (drop_bit 8 arg AND 0xFF00) OR (drop_bit 24 arg AND 0xFF)"

text \<open>The halves of a 64-bit value, as the union lays them out (little endian).\<close>

definition CFSwapInt64 :: "u64 \<Rightarrow> u64" where
  "CFSwapInt64 arg =
     (let ul0 = ucast arg :: u32; ul1 = ucast (drop_bit 32 arg) :: u32;
          r0 = CFSwapInt32 ul1; r1 = CFSwapInt32 ul0
      in push_bit 32 (ucast r1) OR ucast r0)"

text \<open>The bytes of a number in memory, and the number of bytes read back.\<close>

definition bytes_le :: "nat \<Rightarrow> u64 \<Rightarrow> u8 list" where
  "bytes_le n w = map (\<lambda>i. ucast (drop_bit (8 * i) w)) [0..<n]"

fun number_le :: "u8 list \<Rightarrow> u64" where
  "number_le [] = 0"
| "number_le (b # bs) = ucast b OR push_bit 8 (number_le bs)"

lemma bit_number_le:
  "bit (number_le bs) n \<longleftrightarrow> n < 64 \<and> n < 8 * length bs \<and> bit (bs ! (n div 8)) (n mod 8)"
proof (induction bs arbitrary: n)
  case (Cons b bs)
  show ?case
  proof (cases "n < 8")
    case True
    then show ?thesis by (auto simp: bit_or_iff bit_push_bit_iff bit_ucast_iff)
  next
    case False
    then obtain m where m: "n = m + 8" by (metis le_add_diff_inverse2 not_less)
    have "\<not> bit b (m + 8)" using bit_imp_le_length [of b "m + 8"] by auto
    have d: "(m + 8) div 8 - Suc 0 = m div 8" by simp
    show ?thesis using Cons.IH [of m] m \<open>\<not> bit b (m + 8)\<close> d
      by (auto simp: bit_or_iff bit_push_bit_iff bit_ucast_iff)
  qed
qed simp

section \<open>Reading and writing\<close>

text \<open>
  The loop reads chunks of at most 256 bytes. The buffer is the bytes read so far; the result is
  \<^verbatim>\<open>KERN_SUCCESS\<close> however the loop ended. A successful read of no bytes would make it loop forever.
\<close>

function read_chunks ::
    "'k mach \<Rightarrow> 'k \<Rightarrow> u64 \<Rightarrow> u64 \<Rightarrow> u64 \<Rightarrow> u8 list \<Rightarrow> u8 list run" where
  "read_chunks M k current_loc end_loc bytes_left buffer =
     (if current_loc < end_loc then
        (let chunk = (if 0x100 > bytes_left then bytes_left else 0x100) in
         case vm_read_overwrite M k current_loc chunk of
           Inl _ \<Rightarrow> Inr buffer
         | Inr data \<Rightarrow>
             (let got = take (unat chunk) data; n = of_nat (length got) :: u64 in
              if n = 0 \<or> current_loc + n < current_loc then Inl Diverges
              else read_chunks M k (current_loc + n) end_loc (bytes_left - n) (buffer @ got)))
      else Inr buffer)"
  by pat_completeness auto
termination
proof (relation "measure (\<lambda>(M, k, cur, e, l, b). unat e - unat cur)", goal_cases)
  case 1
  show ?case by simp
next
  case (2 M k current_loc end_loc bytes_left buffer chunk data got n)
  then have "current_loc < current_loc + n"
    by (metis add.right_neutral add_left_cancel not_less order.strict_iff_order)
  with 2 show ?case by (simp add: word_less_nat_alt)
qed

declare read_chunks.simps [simp del]

definition read_memory_at_location ::
    "'k mach \<Rightarrow> 'k \<Rightarrow> u64 \<Rightarrow> u64 \<Rightarrow> (kern_return \<times> u8 list) run" where
  "read_memory_at_location M k location len =
     bind_run (read_chunks M k location (location + len) len []) (\<lambda>b. Inr (KERN_SUCCESS, b))"

text \<open>
  The bytes come from the number itself (\<^verbatim>\<open>&data\<close>), so at most eight of them are defined.
\<close>

definition write_memory_to_location ::
    "'k mach \<Rightarrow> 'k \<Rightarrow> u64 \<Rightarrow> u64 \<Rightarrow> u64 \<Rightarrow> (kern_return \<times> 'k) run" where
  "write_memory_to_location M k location data sz =
     (case vm_region_64 M k location of
        Inl ret \<Rightarrow> Inr (ret, k)
      | Inr protection \<Rightarrow>
          if 8 < sz then Inl OutOfBounds
          else (let k1 = vm_protect M k location sz 0x13;
                    (ret, k2) = vm_write M k1 location (bytes_le (unat sz) data);
                    k3 = vm_protect M k2 location sz protection
                in Inr (ret, k3)))"

section \<open>Dumping memory\<close>

definition hex2 :: "u8 \<Rightarrow> string" where
  "hex2 b = [digit_char (unat (drop_bit 4 b)), digit_char (unat (b AND 0xF))]"

definition shown_char :: "u8 \<Rightarrow> char" where
  "shown_char b = (if 33 \<le> unat b \<and> unat b \<le> 126 then char_of (unat b) else CHR ''.'')"

text \<open>
  One row: address, bytes, filler, characters. \<open>row\<close> is the length of the row as an \<^verbatim>\<open>int\<close>; the
  cells of the row's buffer that the read did not fill keep junk.
\<close>

definition dump_row :: "u64 \<Rightarrow> int \<Rightarrow> u8 list \<Rightarrow> string" where
  "dump_row loc row membuffer =
     '' '' @ '' '' @ show_hex loc @ '': '' @
     concat (map (\<lambda>i. hex2 (membuffer ! i) @ '' '') [0..<nat row]) @
     concat (replicate (nat (16 - row)) ''   '') @ ''  '' @
     map (\<lambda>i. shown_char (membuffer ! i)) [0..<nat row] @ [CHR 0x0A]"

text \<open>\<^verbatim>\<open>amount_dumped\<close> is an \<^verbatim>\<open>int\<close>: a dump of more than 2 GB would overflow it, which ends the model.\<close>

function dump_rows ::
    "'k mach \<Rightarrow> 'k \<Rightarrow> u8 list \<Rightarrow> u64 \<Rightarrow> nat \<Rightarrow> u64 \<Rightarrow> cbuf \<Rightarrow> (kern_return \<times> cbuf) run" where
  "dump_rows M k stale amount amount_dumped current_location out =
     (if amount_dumped < unat amount then
        (if 2 ^ 31 \<le> amount_dumped + 16 then Inl OutOfBounds
         else bind_run (read_memory_at_location M k current_location 16) (\<lambda>(ret, bs).
           if ret \<noteq> KERN_SUCCESS then Inr (ret, out)
           else (let membuffer = bs @ drop (length bs) stale;
                     left = sint (ucast (amount - of_nat amount_dumped) :: u32);
                     row = (if left \<ge> 16 then 16 else left)
                 in dump_rows M k membuffer amount (amount_dumped + 16) (current_location + 16)
                      (concat_c out (dump_row current_location row membuffer)))))
      else Inr (KERN_SUCCESS, out))"
  by pat_completeness auto
termination
  by (relation "measure (\<lambda>(M, k, s, amount, dumped, c, e). unat amount - dumped)") auto

declare dump_rows.simps [simp del]

definition dump_memory ::
    "'k mach \<Rightarrow> 'k \<Rightarrow> u8 list \<Rightarrow> u64 \<Rightarrow> u64 \<Rightarrow> cbuf \<Rightarrow> (kern_return \<times> cbuf) run" where
  "dump_memory M k stale location amount out =
     (if amount = 0 then Inr (KERN_SUCCESS, out)
      else dump_rows M k stale amount 0 location out)"

section \<open>What the reads and writes do\<close>

text \<open>
  A kernel whose task has all of its memory mapped: \<open>mem\<close> is the contents, reads of a chunk give the
  bytes, writes succeed and put them, protections do not matter to the contents.
\<close>

definition put_bytes :: "(u64 \<Rightarrow> u8) \<Rightarrow> u64 \<Rightarrow> u8 list \<Rightarrow> u64 \<Rightarrow> u8" where
  "put_bytes m a bs x = (if unat (x - a) < length bs then bs ! unat (x - a) else m x)"

definition bytes_at :: "(u64 \<Rightarrow> u8) \<Rightarrow> u64 \<Rightarrow> nat \<Rightarrow> u8 list" where
  "bytes_at m a n = map (\<lambda>i. m (a + of_nat i)) [0..<n]"

definition flat_mem :: "'k mach \<Rightarrow> ('k \<Rightarrow> u64 \<Rightarrow> u8) \<Rightarrow> bool" where
  "flat_mem M mem \<longleftrightarrow>
     (\<forall>k a n. n \<le> 256 \<longrightarrow> vm_read_overwrite M k a n = Inr (bytes_at (mem k) a (unat n))) \<and>
     (\<forall>k a. \<exists>p. vm_region_64 M k a = Inr p) \<and>
     (\<forall>k a s p. mem (vm_protect M k a s p) = mem k) \<and>
     (\<forall>k a bs. fst (vm_write M k a bs) = KERN_SUCCESS \<and> mem (snd (vm_write M k a bs)) = put_bytes (mem k) a bs)"

lemma length_bytes_at [simp]: "length (bytes_at m a n) = n"
  by (simp add: bytes_at_def)

lemma length_bytes_le [simp]: "length (bytes_le n w) = n"
  by (simp add: bytes_le_def)

lemma bytes_at_append: "bytes_at m a (n + l) = bytes_at m a n @ bytes_at m (a + of_nat n) l"
proof -
  have "[0..<n + l] = [0..<n] @ [n..<n + l]" by (rule upt_add_eq_append) simp
  then have "bytes_at m a (n + l) = map (\<lambda>i. m (a + of_nat i)) ([0..<n] @ [n..<n + l])"
    by (simp only: bytes_at_def)
  also have "[n..<n + l] = map (\<lambda>i. i + n) [0..<l]" by (simp only: map_add_upt add.commute)
  finally show ?thesis by (simp add: bytes_at_def ac_simps)
qed

text \<open>Within the address space the loop reads exactly the bytes asked for.\<close>

lemma read_chunks_flat:
  assumes "flat_mem M mem" "end_loc = cur + left" "unat cur + unat left < 2 ^ 64"
  shows "read_chunks M k cur end_loc left b = Inr (b @ bytes_at (mem k) cur (unat left))"
  using assms(2,3)
proof (induction "unat left" arbitrary: cur left b rule: less_induct)
  case less
  show ?case
  proof (cases "left = 0")
    case True
    with less.prems show ?thesis by (simp add: read_chunks.simps [of M k cur] bytes_at_def)
  next
    case False
    define chunk where "chunk = (if 0x100 > left then left else 0x100)"
    have c: "chunk \<le> 256" "chunk \<le> left" "0 < unat chunk"
      using False by (auto simp: chunk_def word_le_nat_alt word_less_nat_alt unat_gt_0)
    have nz: "chunk \<noteq> 0" using c(3) by auto
    have cl: "unat chunk \<le> unat left" using c by (simp add: word_le_nat_alt)
    have lt: "cur < end_loc"
      using less.prems False by (simp add: word_less_nat_alt unat_word_ariths unat_gt_0)
    have sub: "unat (left - chunk) = unat left - unat chunk" using c by (simp add: unat_sub)
    have add: "unat (cur + chunk) = unat cur + unat chunk"
      using less.prems cl by (simp add: unat_word_ariths)
    have nowrap: "\<not> cur + chunk < cur" using add by (simp add: word_less_nat_alt)
    have rd: "vm_read_overwrite M k cur chunk = Inr (bytes_at (mem k) cur (unat chunk))"
      using assms(1) c by (simp add: flat_mem_def)
    have "read_chunks M k cur end_loc left b
        = read_chunks M k (cur + chunk) end_loc (left - chunk) (b @ bytes_at (mem k) cur (unat chunk))"
      using lt rd nowrap c(3) nz by (subst read_chunks.simps) (simp add: chunk_def [symmetric] Let_def)
    also have "\<dots> = Inr ((b @ bytes_at (mem k) cur (unat chunk)) @
        bytes_at (mem k) (cur + chunk) (unat (left - chunk)))"
      by (rule less.hyps) (use less.prems sub add cl c(3) in auto)
    also have "\<dots> = Inr (b @ bytes_at (mem k) cur (unat left))"
      using bytes_at_append [of "mem k" cur "unat chunk" "unat (left - chunk)"] sub cl by simp
    finally show ?thesis .
  qed
qed

lemma read_memory_flat:
  assumes "flat_mem M mem" "unat loc + unat n < 2 ^ 64"
  shows "read_memory_at_location M k loc n = Inr (KERN_SUCCESS, bytes_at (mem k) loc (unat n))"
  using read_chunks_flat [OF assms(1) refl assms(2)] by (simp add: read_memory_at_location_def)

lemma read_memory_success: "read_memory_at_location M k loc n = Inr (ret, bs) \<Longrightarrow> ret = KERN_SUCCESS"
  by (auto simp: read_memory_at_location_def bind_run_Inr)

text \<open>A failing read is reported as a success, with the buffer as it was.\<close>

lemma read_memory_swallows:
  assumes "vm_read_overwrite M k loc (if 0x100 > n then n else 0x100) = Inl err"
  shows "read_memory_at_location M k loc n = Inr (KERN_SUCCESS, [])"
  using assms by (simp add: read_memory_at_location_def read_chunks.simps [of M k loc] Let_def)

lemma write_memory_flat:
  assumes "flat_mem M mem" "n \<le> 8"
  obtains k' where "write_memory_to_location M k loc v n = Inr (KERN_SUCCESS, k')"
    "mem k' = put_bytes (mem k) loc (bytes_le (unat n) v)"
proof -
  from assms(1) obtain p where p: "vm_region_64 M k loc = Inr p" unfolding flat_mem_def by blast
  obtain r k2 where w: "vm_write M (vm_protect M k loc n 0x13) loc (bytes_le (unat n) v) = (r, k2)"
    by fastforce
  with assms(1) have "r = KERN_SUCCESS" "mem k2 = put_bytes (mem k) loc (bytes_le (unat n) v)"
    unfolding flat_mem_def by (metis fst_conv, metis snd_conv)
  with p w assms show ?thesis
    by (intro that [of "vm_protect M k2 loc n p"])
       (simp_all add: write_memory_to_location_def flat_mem_def not_less [symmetric])
qed

lemma put_bytes_get:
  assumes "length bs < 2 ^ 64"
  shows "bytes_at (put_bytes m a bs) a (length bs) = bs"
proof (rule nth_equalityI)
  fix i assume i: "i < length (bytes_at (put_bytes m a bs) a (length bs))"
  then have "unat (of_nat i :: u64) = i" using assms by (simp add: unat_of_nat take_bit_nat_eq_self)
  with i show "bytes_at (put_bytes m a bs) a (length bs) ! i = bs ! i"
    by (simp add: bytes_at_def put_bytes_def)
qed simp

lemma put_bytes_twice:
  "length bs = length cs \<Longrightarrow> put_bytes (put_bytes m a bs) a cs = put_bytes m a cs"
  by (auto simp: put_bytes_def)

lemma put_bytes_restores:
  assumes "n < 2 ^ 64"
  shows "put_bytes m a (bytes_at m a n) = m"
  by (rule ext) (auto simp: put_bytes_def bytes_at_def)

text \<open>Swapping the byte order twice gives the number back.\<close>

lemma bit_low_bytes:
  "bit (0xFF :: u32) n \<longleftrightarrow> n < 8" "bit (0xFF00 :: u32) n \<longleftrightarrow> 8 \<le> n \<and> n < 16"
proof -
  have "(0xFF :: u32) = mask 8" "(0xFF00 :: u32) = push_bit 8 (mask 8)"
    by (simp_all add: mask_eq_exp_minus_1)
  then show "bit (0xFF :: u32) n \<longleftrightarrow> n < 8" "bit (0xFF00 :: u32) n \<longleftrightarrow> 8 \<le> n \<and> n < 16"
    by (simp_all only: bit_mask_iff bit_push_bit_iff) auto
qed

lemma bit_CFSwapInt32:
  "bit (CFSwapInt32 w) n \<longleftrightarrow> n < 32 \<and>
     bit w (if n < 8 then n + 24 else if n < 16 then n + 8 else if n < 24 then n - 8 else n - 24)"
  unfolding CFSwapInt32_def
  by (simp only: bit_or_iff bit_and_iff bit_push_bit_iff bit_drop_bit_eq comp_def bit_low_bytes)
     (auto dest: bit_imp_le_length simp: not_less add.commute)

lemma CFSwapInt32_twice: "CFSwapInt32 (CFSwapInt32 w) = w"
  by (rule bit_word_eqI) (auto simp: bit_CFSwapInt32)

end
