(* ===== verification/Threads.thy ===== *)
theory Threads
  imports Memutils
begin

text \<open>
  The threads of the target, \<^verbatim>\<open>source/thread.c\<close>: finding them, fetching and storing their states, and
  rebuilding their list from the ports the kernel reports. A pointer to a thread is its address in
  the list; NULL is \<open>None\<close>. Locks are not modelled.
\<close>

section \<open>Finding threads\<close>

datatype comparison = PORTS u32 | IDS int | FOCUSED | TID u64

definition cond_holds :: "comparison \<Rightarrow> machthread \<Rightarrow> bool" where
  "cond_holds c t =
     (case c of PORTS p \<Rightarrow> port t = p | IDS i \<Rightarrow> ID t = i | FOCUSED \<Rightarrow> focused t | TID i \<Rightarrow> tid t = i)"

definition find_with_cond :: "comparison \<Rightarrow> 'k dbg \<Rightarrow> (nat \<times> machthread) option" where
  "find_with_cond c d = pl_find (cond_holds c) (threads d)"

definition MACH_PORT_NULL :: u32 where
  "MACH_PORT_NULL = 0"

definition MACH_PORT_VALID :: "u32 \<Rightarrow> bool" where
  "MACH_PORT_VALID p \<longleftrightarrow> p \<noteq> MACH_PORT_NULL \<and> p \<noteq> - 1"

definition thread_from_port :: "u32 \<Rightarrow> 'k dbg \<Rightarrow> (nat \<times> machthread) option" where
  "thread_from_port p d = (if p = MACH_PORT_NULL then None else find_with_cond (PORTS p) d)"

definition find_thread_from_ID :: "int \<Rightarrow> 'k dbg \<Rightarrow> (nat \<times> machthread) option" where
  "find_thread_from_ID i d = find_with_cond (IDS i) d"

definition find_thread_from_TID :: "u64 \<Rightarrow> 'k dbg \<Rightarrow> (nat \<times> machthread) option" where
  "find_thread_from_TID i d = find_with_cond (TID i) d"

definition get_focused_thread :: "'k dbg \<Rightarrow> (nat \<times> machthread) option" where
  "get_focused_thread d = find_with_cond FOCUSED d"

section \<open>Thread, debug and NEON states\<close>

text \<open>One thread: the result of the Mach call and the thread or kernel after it.\<close>

definition fetch_thread :: "'k mach \<Rightarrow> 'k \<Rightarrow> machthread \<Rightarrow> kern_return \<times> machthread" where
  "fetch_thread M k t =
     (case thread_get_state M k (port t) of
        Inl r \<Rightarrow> (r, t) | Inr s \<Rightarrow> (KERN_SUCCESS, t\<lparr>thread_state := s\<rparr>))"

definition fetch_debug :: "'k mach \<Rightarrow> 'k \<Rightarrow> machthread \<Rightarrow> kern_return \<times> machthread" where
  "fetch_debug M k t =
     (case debug_get_state M k (port t) of
        Inl r \<Rightarrow> (r, t) | Inr s \<Rightarrow> (KERN_SUCCESS, t\<lparr>debug_state := s\<rparr>))"

definition fetch_neon :: "'k mach \<Rightarrow> 'k \<Rightarrow> machthread \<Rightarrow> kern_return \<times> machthread" where
  "fetch_neon M k t =
     (case neon_get_state M k (port t) of
        Inl r \<Rightarrow> (r, t) | Inr s \<Rightarrow> (KERN_SUCCESS, t\<lparr>neon_state := s\<rparr>))"

definition store_thread :: "'k mach \<Rightarrow> 'k \<Rightarrow> machthread \<Rightarrow> kern_return \<times> 'k" where
  "store_thread M k t = thread_set_state M k (port t) (thread_state t)"

definition store_debug :: "'k mach \<Rightarrow> 'k \<Rightarrow> machthread \<Rightarrow> kern_return \<times> 'k" where
  "store_debug M k t = debug_set_state M k (port t) (debug_state t)"

definition store_neon :: "'k mach \<Rightarrow> 'k \<Rightarrow> machthread \<Rightarrow> kern_return \<times> 'k" where
  "store_neon M k t = neon_set_state M k (port t) (neon_state t)"

text \<open>
  The functions of the code take a thread or NULL for all of them; the calls for all ignore the
  results. A pointer to no thread never occurs.
\<close>

definition get_state ::
    "('k \<Rightarrow> machthread \<Rightarrow> kern_return \<times> machthread) \<Rightarrow> nat option \<Rightarrow> 'k dbg \<Rightarrow> kern_return \<times> 'k dbg" where
  "get_state fetch th d =
     (case th of
        Some a \<Rightarrow>
          (case pl_get (threads d) a of None \<Rightarrow> (KERN_FAILURE, d)
           | Some t \<Rightarrow> (case fetch (kern d) t of (r, t') \<Rightarrow> (r, upd_thread a (\<lambda>_. t') d)))
      | None \<Rightarrow> (KERN_SUCCESS, d\<lparr>threads := map (\<lambda>(a, t). (a, snd (fetch (kern d) t))) (threads d)\<rparr>))"

definition set_state ::
    "('k \<Rightarrow> machthread \<Rightarrow> kern_return \<times> 'k) \<Rightarrow> nat option \<Rightarrow> 'k dbg \<Rightarrow> kern_return \<times> 'k dbg" where
  "set_state store th d =
     (case th of
        Some a \<Rightarrow>
          (case pl_get (threads d) a of None \<Rightarrow> (KERN_FAILURE, d)
           | Some t \<Rightarrow> (case store (kern d) t of (r, k) \<Rightarrow> (r, d\<lparr>kern := k\<rparr>)))
      | None \<Rightarrow> (KERN_SUCCESS, d\<lparr>kern := fold (\<lambda>(a, t) k. snd (store k t)) (threads d) (kern d)\<rparr>))"

definition get_thread_state :: "'k mach \<Rightarrow> nat option \<Rightarrow> 'k dbg \<Rightarrow> kern_return \<times> 'k dbg" where
  "get_thread_state M = get_state (fetch_thread M)"

definition set_thread_state :: "'k mach \<Rightarrow> nat option \<Rightarrow> 'k dbg \<Rightarrow> kern_return \<times> 'k dbg" where
  "set_thread_state M = set_state (store_thread M)"

definition get_debug_state :: "'k mach \<Rightarrow> nat option \<Rightarrow> 'k dbg \<Rightarrow> kern_return \<times> 'k dbg" where
  "get_debug_state M = get_state (fetch_debug M)"

definition set_debug_state :: "'k mach \<Rightarrow> nat option \<Rightarrow> 'k dbg \<Rightarrow> kern_return \<times> 'k dbg" where
  "set_debug_state M = set_state (store_debug M)"

definition get_neon_state :: "'k mach \<Rightarrow> nat option \<Rightarrow> 'k dbg \<Rightarrow> kern_return \<times> 'k dbg" where
  "get_neon_state M = get_state (fetch_neon M)"

definition set_neon_state :: "'k mach \<Rightarrow> nat option \<Rightarrow> 'k dbg \<Rightarrow> kern_return \<times> 'k dbg" where
  "set_neon_state M = set_state (store_neon M)"

definition fetch_all :: "'k mach \<Rightarrow> 'k \<Rightarrow> machthread \<Rightarrow> machthread" where
  "fetch_all M k t = snd (fetch_neon M k (snd (fetch_debug M k (snd (fetch_thread M k t)))))"

definition update_all_thread_states :: "'k mach \<Rightarrow> nat option \<Rightarrow> 'k dbg \<Rightarrow> 'k dbg" where
  "update_all_thread_states M th d =
     (case th of None \<Rightarrow> d
      | Some a \<Rightarrow> (case pl_get (threads d) a of None \<Rightarrow> d
          | Some t \<Rightarrow> if port t = MACH_PORT_NULL then d else upd_thread a (fetch_all M (kern d)) d))"

section \<open>Making threads\<close>

definition get_pthread_name :: "'k mach \<Rightarrow> 'k \<Rightarrow> u32 \<Rightarrow> string option" where
  "get_pthread_name M k p = (if p = MACH_PORT_NULL then None else thread_name M k p)"

definition get_pthread_tid :: "'k mach \<Rightarrow> 'k \<Rightarrow> u32 \<Rightarrow> cbuf \<Rightarrow> u64 \<times> cbuf" where
  "get_pthread_tid M k p out =
     (if p = MACH_PORT_NULL then (ucast KERN_FAILURE, out)
      else (case thread_ident M k p of
         Inl r \<Rightarrow> (- 1, concat_c out (concat [''warning: couldn'', [CHR 0x27], ''t get pthread tid for thread '',
                    show_hex (ucast p), '': '', mach_error_string M r, [CHR 0x0A]]))
       | Inr i \<Rightarrow> (i, out)))"

definition get_thread_info :: "'k mach \<Rightarrow> 'k \<Rightarrow> machthread \<Rightarrow> cbuf \<Rightarrow> machthread \<times> cbuf" where
  "get_thread_info M k t out =
     (let (i, out1) = get_pthread_tid M k (port t) out;
          nm = (case get_pthread_name M k (port t) of None \<Rightarrow> [] | Some s \<Rightarrow> take 64 s);
          t1 = t\<lparr>tid := i, tname := nm\<rparr>
      in (if port t1 = MACH_PORT_NULL then t1 else fetch_all M k t1, out1))"

text \<open>
  \<open>blank\<close> is the uninitialised thread \<^verbatim>\<open>malloc\<close> gives. The thread is not yet in the list; its
  address is taken when it is added.
\<close>

definition no_step :: stepconfig where
  "no_step = \<lparr>is_stepping = False, step_kind = STEP_NONE, just_hit_ss_breakpoint = False,
              set_temp_ss_breakpoint = False\<rparr>"

definition register_death :: "'k mach \<Rightarrow> u32 \<Rightarrow> 'k dbg \<Rightarrow> cbuf \<Rightarrow> 'k dbg \<times> cbuf" where
  "register_death M p d out =
     (let (d1, out1) = (if death_notify_port d = MACH_PORT_NULL
             then (case mach_port_allocate M (kern d) of
                 Inl r \<Rightarrow> (d, concat_c out (concat [''warning: could not create initial thread death notify port: '',
                             mach_error_string M r, [CHR 0x0A]]))
               | Inr q \<Rightarrow> (d\<lparr>death_notify_port := q\<rparr>, out))
             else (d, out));
          r = request_notification M (kern d1) p (death_notify_port d1)
      in (d1, if r \<noteq> 0 then concat_c out1 (concat [
                  ''warning: could not register Mach death notification for thread '',
                  show_hex (ucast p), '': '', mach_error_string M r, [CHR 0x0A]]) else out1))"

definition machthread_new ::
    "'k mach \<Rightarrow> machthread \<Rightarrow> u32 \<Rightarrow> 'k dbg \<Rightarrow> cbuf \<Rightarrow> machthread option \<times> 'k dbg \<times> cbuf" where
  "machthread_new M blank p d out =
     (if \<not> MACH_PORT_VALID p then (None, d, out)
      else (let (t, out1) = get_thread_info M (kern d) (blank\<lparr>port := p\<rparr>) out;
                mt = t\<lparr>focused := False, ID := current_machthread_id d,
                       just_hit_watchpoint := False, just_hit_breakpoint := False,
                       just_hit_sw_breakpoint := False, last_hit_wp_loc := 0, last_hit_wp_PC := 0,
                       last_hit_bkpt_ID := 0, stepconfig := no_step\<rparr>;
                (d1, out2) = register_death M p (d\<lparr>current_machthread_id := current_machthread_id d + 1\<rparr>) out1
            in (Some mt, d1, out2)))"

section \<open>Focus\<close>

definition set_focused_thread :: "u32 \<Rightarrow> 'k dbg \<Rightarrow> 'k dbg" where
  "set_focused_thread p d =
     (if p = MACH_PORT_NULL then d
      else (case thread_from_port p d of None \<Rightarrow> d
        | Some (a, _) \<Rightarrow>
            (let d1 = upd_thread a (\<lambda>t. t\<lparr>focused := True\<rparr>) d in
             case get_focused_thread d of None \<Rightarrow> d1
             | Some (b, _) \<Rightarrow> upd_thread b (\<lambda>t. t\<lparr>focused := False\<rparr>) d1)))"

fun walk_to :: "int \<Rightarrow> int \<Rightarrow> machthread plist \<Rightarrow> machthread option \<Rightarrow> machthread option" where
  "walk_to counter i [] found = found"
| "walk_to counter i ((a, t) # ts) found =
     (if counter > i then found else walk_to (counter + 1) i ts (Some t))"

definition set_focused_thread_with_idx :: "int \<Rightarrow> 'k dbg \<Rightarrow> int \<times> 'k dbg" where
  "set_focused_thread_with_idx focus_index d =
     (case walk_to 0 (focus_index - 1) (threads d) None of
        None \<Rightarrow> (- 1, d)
      | Some t \<Rightarrow> (0, set_focused_thread (port t) d))"

definition resetmtid :: "'k dbg \<Rightarrow> 'k dbg" where
  "resetmtid d = d\<lparr>current_machthread_id := 1\<rparr>"

section \<open>Rebuilding the list\<close>

text \<open>A write \<^verbatim>\<open>state.__bcr[i] = v\<close>: outside the register array it is a fault.\<close>

definition put_reg :: "u64 list \<Rightarrow> int \<Rightarrow> u64 \<Rightarrow> u64 list run" where
  "put_reg rs i v = (if 0 \<le> i \<and> nat i < length rs then Inr (rs[nat i := v]) else Inl OutOfBounds)"

definition put_bp_regs :: "breakpoint \<Rightarrow> debug_state64 \<Rightarrow> debug_state64 run" where
  "put_bp_regs b s =
     bind_run (put_reg (ds_bcr s) (hw_bp_reg b) (bp_bcr b)) (\<lambda>bcr.
     bind_run (put_reg (ds_bvr s) (hw_bp_reg b) (bp_bvr b)) (\<lambda>bvr.
       Inr (s\<lparr>ds_bcr := bcr, ds_bvr := bvr\<rparr>)))"

definition put_wp_regs :: "watchpoint \<Rightarrow> debug_state64 \<Rightarrow> debug_state64 run" where
  "put_wp_regs w s =
     bind_run (put_reg (ds_wcr s) (hw_wp_reg w) (wp_wcr w)) (\<lambda>wcr.
     bind_run (put_reg (ds_wvr s) (hw_wp_reg w) (wp_wvr w)) (\<lambda>wvr.
       Inr (s\<lparr>ds_wcr := wcr, ds_wvr := wvr\<rparr>)))"

fun put_all_bps :: "breakpoint plist \<Rightarrow> debug_state64 \<Rightarrow> debug_state64 run" where
  "put_all_bps [] s = Inr s"
| "put_all_bps ((a, b) # bs) s =
     (if all_threads (bp_threadinfo b) then bind_run (put_bp_regs b s) (\<lambda>s1. put_all_bps bs s1)
      else put_all_bps bs s)"

fun put_all_wps :: "watchpoint plist \<Rightarrow> debug_state64 \<Rightarrow> debug_state64 run" where
  "put_all_wps [] s = Inr s"
| "put_all_wps ((a, w) # ws) s =
     (if all_threads (wp_threadinfo w) then bind_run (put_wp_regs w s) (\<lambda>s1. put_all_wps ws s1)
      else put_all_wps ws s)"

text \<open>What \<^verbatim>\<open>struct th_excinfo\<close> carries from the old thread of the same port to the new one.\<close>

definition restore_info :: "machthread list \<Rightarrow> machthread \<Rightarrow> machthread" where
  "restore_info infos t =
     (case find (\<lambda>i. port i = port t) infos of None \<Rightarrow> t
      | Some i \<Rightarrow> t\<lparr>just_hit_watchpoint := just_hit_watchpoint i,
                     just_hit_breakpoint := just_hit_breakpoint i,
                     just_hit_sw_breakpoint := just_hit_sw_breakpoint i,
                     last_hit_wp_loc := last_hit_wp_loc i,
                     last_hit_wp_PC := last_hit_wp_PC i,
                     last_hit_bkpt_ID := last_hit_bkpt_ID i,
                     stepconfig := stepconfig i\<rparr>)"

definition append_thread :: "machthread \<Rightarrow> 'k dbg \<Rightarrow> 'k dbg" where
  "append_thread t d = d\<lparr>threads := pl_add (threads d) (fresh d) t, fresh := fresh d + 1\<rparr>"

fun add_first_threads ::
    "'k mach \<Rightarrow> machthread \<Rightarrow> u32 list \<Rightarrow> nat \<Rightarrow> 'k dbg \<Rightarrow> cbuf \<Rightarrow> 'k dbg \<times> cbuf" where
  "add_first_threads M blank [] i d out = (d, out)"
| "add_first_threads M blank (p # ps) i d out =
     (case machthread_new M blank p d out of
        (None, d1, out1) \<Rightarrow> add_first_threads M blank ps (Suc i) d1 out1
      | (Some t, d1, out1) \<Rightarrow>
          add_first_threads M blank ps (Suc i)
            (append_thread (fetch_all M (kern d1) t) (d1\<lparr>thread_count := int i + 1\<rparr>)) out1)"

text \<open>
  A thread whose position is at or behind the number of old threads counts as new, and gets the
  breakpoints and watchpoints that are for all threads.
\<close>

definition join_thread ::
    "'k mach \<Rightarrow> nat \<Rightarrow> nat \<Rightarrow> machthread \<Rightarrow> 'k dbg \<Rightarrow> (machthread \<times> 'k dbg) run" where
  "join_thread M infos_cnt i t d =
     (if infos_cnt \<le> i
      then bind_run (put_all_bps (breakpoints d) (debug_state t)) (\<lambda>s1.
           bind_run (put_all_wps (watchpoints d) s1) (\<lambda>s2.
             let t1 = t\<lparr>debug_state := s2\<rparr> in
             Inr (t1, d\<lparr>kern := snd (store_debug M (kern d) t1)\<rparr>)))
      else Inr (t, d))"

fun readd_threads ::
    "'k mach \<Rightarrow> machthread \<Rightarrow> machthread list \<Rightarrow> u32 \<Rightarrow> u32 list \<Rightarrow> nat \<Rightarrow> 'k dbg \<Rightarrow> cbuf
     \<Rightarrow> ('k dbg \<times> cbuf) run" where
  "readd_threads M blank infos foc [] i d out = Inr (d, out)"
| "readd_threads M blank infos foc (p # ps) i d out =
     (case machthread_new M blank p d out of
        (None, d1, out1) \<Rightarrow> readd_threads M blank infos foc ps (Suc i) d1 out1
      | (Some t, d1, out1) \<Rightarrow>
          (let t1 = (if p = foc then t\<lparr>focused := True\<rparr> else t);
               t2 = snd (fetch_debug M (kern d1) (restore_info infos t1))
           in bind_run (join_thread M (length infos) i t2 d1)
                (\<lambda>(t3, d2). readd_threads M blank infos foc ps (Suc i)
                   (append_thread t3 (d2\<lparr>thread_count := int i + 1\<rparr>)) out1)))"

text \<open>The port of the last thread that has the focus.\<close>

definition focused_port :: "machthread plist \<Rightarrow> u32" where
  "focused_port ts = fold (\<lambda>(a, t) p. if focused t then port t else p) ts MACH_PORT_NULL"

definition update_thread_list ::
    "'k mach \<Rightarrow> machthread \<Rightarrow> u32 list option \<Rightarrow> 'k dbg \<Rightarrow> cbuf \<Rightarrow> ('k dbg \<times> cbuf) run" where
  "update_thread_list M blank ports d out =
     (case ports of None \<Rightarrow> Inr (d\<lparr>thread_count := 0\<rparr>, out)
      | Some ps \<Rightarrow>
          if threads d = [] then Inr (add_first_threads M blank ps 0 d out)
          else (let infos = map snd (threads d) in
                readd_threads M blank infos (focused_port (threads d)) ps 0
                  (resetmtid (d\<lparr>threads := []\<rparr>)) out))"

section \<open>What the operations keep and give\<close>

text \<open>Distinct pointers and ports, at most one thread in focus.\<close>

definition threads_ok :: "machthread plist \<Rightarrow> bool" where
  "threads_ok ts \<longleftrightarrow> distinct (map fst ts) \<and> distinct (map (port \<circ> snd) ts) \<and>
     length (filter (focused \<circ> snd) ts) \<le> 1"

lemma length_filter_le_1:
  "length (filter P xs) \<le> 1 \<longleftrightarrow> (\<forall>i < length xs. \<forall>j < length xs. P (xs ! i) \<longrightarrow> P (xs ! j) \<longrightarrow> i = j)"
proof -
  have f: "length (filter P xs) = card {i. i < length xs \<and> P (xs ! i)}"
    by (simp add: length_filter_conv_card)
  have "card S \<le> 1 \<longleftrightarrow> (\<forall>i \<in> S. \<forall>j \<in> S. i = j)" if "finite S" for S :: "nat set"
    using that card_le_Suc0_iff_eq by (simp add: One_nat_def)
  from this [of "{i. i < length xs \<and> P (xs ! i)}"] f show ?thesis by auto
qed

lemma focus_unique:
  assumes "threads_ok ts" "(a, t) \<in> set ts" "(b, u) \<in> set ts" "focused t" "focused u"
  shows "a = b \<and> t = u"
proof -
  obtain i j where "i < length ts" "ts ! i = (a, t)" "j < length ts" "ts ! j = (b, u)"
    using assms(2,3) by (metis in_set_conv_nth)
  moreover from assms(1) have "length (filter (focused \<circ> snd) ts) \<le> 1" by (simp add: threads_ok_def)
  ultimately have "i = j" using assms(4,5) unfolding length_filter_le_1 by fastforce
  with \<open>ts ! i = _\<close> \<open>ts ! j = _\<close> show ?thesis by simp
qed

lemma find_thread:
  "find_with_cond c d = Some (a, t) \<Longrightarrow> (a, t) \<in> set (threads d) \<and> cond_holds c t"
  unfolding find_with_cond_def by (rule pl_find_Some)

lemma find_thread_None:
  "find_with_cond c d = None \<longleftrightarrow> (\<forall>(a, t) \<in> set (threads d). \<not> cond_holds c t)"
  by (auto simp: find_with_cond_def pl_find_def find_None_iff)

lemma focused_thread_iff:
  assumes "threads_ok (threads d)"
  shows "get_focused_thread d = Some (a, t) \<longleftrightarrow> (a, t) \<in> set (threads d) \<and> focused t"
proof
  assume "get_focused_thread d = Some (a, t)"
  then show "(a, t) \<in> set (threads d) \<and> focused t"
    unfolding get_focused_thread_def using find_thread by (fastforce simp: cond_holds_def)
next
  assume m: "(a, t) \<in> set (threads d) \<and> focused t"
  then have "get_focused_thread d \<noteq> None"
    unfolding get_focused_thread_def find_thread_None by (auto simp: cond_holds_def)
  then obtain b u where b: "get_focused_thread d = Some (b, u)" by auto
  then have "(b, u) \<in> set (threads d)" "focused u"
    unfolding get_focused_thread_def using find_thread by (fastforce simp: cond_holds_def)+
  with focus_unique [OF assms _ _] m b show "get_focused_thread d = Some (a, t)" by blast
qed

lemma thread_from_port_iff:
  assumes "threads_ok (threads d)" "p \<noteq> MACH_PORT_NULL"
  shows "thread_from_port p d = Some (a, t) \<longleftrightarrow> (a, t) \<in> set (threads d) \<and> port t = p"
proof
  assume "thread_from_port p d = Some (a, t)"
  then show "(a, t) \<in> set (threads d) \<and> port t = p"
    using assms(2) find_thread by (fastforce simp: thread_from_port_def cond_holds_def)
next
  assume m: "(a, t) \<in> set (threads d) \<and> port t = p"
  then have "thread_from_port p d \<noteq> None"
    using assms(2) by (auto simp: thread_from_port_def find_thread_None cond_holds_def)
  then obtain b u where b: "thread_from_port p d = Some (b, u)" by auto
  then have bu: "(b, u) \<in> set (threads d)" "port u = p"
    using assms(2) find_thread by (fastforce simp: thread_from_port_def cond_holds_def)+
  from assms(1) have "inj_on (port \<circ> snd) (set (threads d))"
    by (simp add: threads_ok_def distinct_map)
  then have "(b, u) = (a, t)" by (rule inj_onD) (use bu m in auto)
  with b show "thread_from_port p d = Some (a, t)" by simp
qed

text \<open>
  Giving the focus to another thread moves it there. Giving it to the thread that has it takes it away.
\<close>

lemma focus_moves:
  assumes ok: "threads_ok (threads d)" and t: "(a, t) \<in> set (threads d)" "port t = p" "p \<noteq> MACH_PORT_NULL"
    and other: "\<not> focused t"
  shows "threads (set_focused_thread p d) = map (\<lambda>(b, u). (b, u\<lparr>focused := b = a\<rparr>)) (threads d)"
proof -
  have f: "thread_from_port p d = Some (a, t)" using thread_from_port_iff [OF ok t(3)] t by blast
  have key: "u = t" if "(a, u) \<in> set (threads d)" for u
    using ok that t(1) by (auto simp: threads_ok_def dest: eq_key_imp_eq_value)
  have same: "u\<lparr>focused := False\<rparr> = u" if "\<not> focused u" for u :: machthread using that by simp
  show ?thesis
  proof (cases "get_focused_thread d")
    case None
    then have nf: "\<not> focused u" if "(b, u) \<in> set (threads d)" for b u
      using that unfolding get_focused_thread_def find_thread_None by (auto simp: cond_holds_def)
    show ?thesis
      using t(3) f None nf
      by (auto simp: set_focused_thread_def upd_thread_def pl_update_def same intro!: map_cong)
  next
    case (Some c)
    obtain b u where c: "c = (b, u)" by (cases c)
    with Some focused_thread_iff [OF ok] have bu: "(b, u) \<in> set (threads d)" "focused u" by auto
    have ne: "b \<noteq> a" using key bu other by auto
    have nf: "\<not> focused w" if "(e, w) \<in> set (threads d)" "e \<noteq> b" for e w
      using focus_unique [OF ok that(1) bu(1) _ bu(2)] that(2) by blast
    show ?thesis
      using t(3) f Some c ne nf
      by (auto simp: set_focused_thread_def upd_thread_def pl_update_def same intro!: map_cong)
  qed
qed

lemma refocus_loses_focus:
  assumes ok: "threads_ok (threads d)" and t: "get_focused_thread d = Some (a, t)" "port t \<noteq> MACH_PORT_NULL"
  shows "get_focused_thread (set_focused_thread (port t) d) = None"
proof -
  have m: "(a, t) \<in> set (threads d)" "focused t" using t focused_thread_iff [OF ok] by auto
  have f: "thread_from_port (port t) d = Some (a, t)" using thread_from_port_iff [OF ok t(2)] m by blast
  have "threads (set_focused_thread (port t) d) =
      pl_update a (\<lambda>t. t\<lparr>focused := False\<rparr>) (pl_update a (\<lambda>t. t\<lparr>focused := True\<rparr>) (threads d))"
    using t f by (simp add: set_focused_thread_def upd_thread_def)
  moreover have "\<not> focused u" if "(b, u) \<in> set (threads d)" "b \<noteq> a" for b u
    using focus_unique [OF ok that(1) m(1) _ m(2)] that(2) by blast
  ultimately show ?thesis
    unfolding get_focused_thread_def find_thread_None
    by (auto simp: pl_update_def cond_holds_def split: if_splits)
qed

text \<open>
  Rebuilding the list: the threads are those of the valid ports in their order, numbered from 1; a thread
  that was there before keeps its hit and stepping information; the focus stays with its port.
\<close>

lemma fetch_debug_fields:
  "snd (fetch_debug M k t) = t\<lparr>debug_state := debug_state (snd (fetch_debug M k t))\<rparr>"
  by (simp add: fetch_debug_def split: sum.splits)

lemma fetch_all_fields:
  "port (fetch_all M k t) = port t" "focused (fetch_all M k t) = focused t" "ID (fetch_all M k t) = ID t"
  by (simp_all add: fetch_all_def fetch_debug_def fetch_thread_def fetch_neon_def split: sum.splits)

lemma register_death_keeps:
  "fst (register_death M p d out) = d\<lparr>death_notify_port := death_notify_port (fst (register_death M p d out))\<rparr>"
  by (simp add: register_death_def Let_def split: sum.splits)

lemma get_thread_info_port: "port (fst (get_thread_info M k t out)) = port t"
  by (simp add: get_thread_info_def Let_def fetch_all_fields split: prod.splits)

lemma machthread_new_props:
  assumes "machthread_new M blank p d out = (r, d', out')"
  shows "threads d' = threads d" "breakpoints d' = breakpoints d" "watchpoints d' = watchpoints d"
    "kern d' = kern d" "fresh d' = fresh d"
    "r = None \<longleftrightarrow> \<not> MACH_PORT_VALID p"
    "current_machthread_id d' = current_machthread_id d + (if MACH_PORT_VALID p then 1 else 0)"
    "r = Some t \<Longrightarrow> port t = p \<and> ID t = current_machthread_id d \<and> \<not> focused t"
proof -
  obtain t0 out1 where g: "get_thread_info M (kern d) (blank\<lparr>port := p\<rparr>) out = (t0, out1)" by fastforce
  then have p0: "port t0 = p" using get_thread_info_port [of M "kern d" "blank\<lparr>port := p\<rparr>" out] by simp
  define d0 where "d0 = d\<lparr>current_machthread_id := current_machthread_id d + 1\<rparr>"
  obtain d1 out2 where rd: "register_death M p d0 out1 = (d1, out2)" by fastforce
  with register_death_keeps [of M p d0 out1] obtain q where d1: "d1 = d0\<lparr>death_notify_port := q\<rparr>" by auto
  note m = assms [unfolded machthread_new_def g d0_def [symmetric] rd Let_def prod.case]
  show "threads d' = threads d" "breakpoints d' = breakpoints d" "watchpoints d' = watchpoints d"
    "kern d' = kern d" "fresh d' = fresh d"
    "r = None \<longleftrightarrow> \<not> MACH_PORT_VALID p"
    "current_machthread_id d' = current_machthread_id d + (if MACH_PORT_VALID p then 1 else 0)"
    using m d1 by (auto simp: d0_def split: if_splits)
  show "r = Some t \<Longrightarrow> port t = p \<and> ID t = current_machthread_id d \<and> \<not> focused t"
    using m p0 by (auto split: if_splits)
qed

text \<open>The thread made for a port \<open>p\<close> as the \<open>n\<close>-th one.\<close>

definition renewed :: "machthread list \<Rightarrow> u32 \<Rightarrow> int \<Rightarrow> u32 \<Rightarrow> machthread \<Rightarrow> bool" where
  "renewed infos foc n p t \<longleftrightarrow> port t = p \<and> ID t = n \<and> focused t = (p = foc) \<and>
     (\<forall>i \<in> set infos. port i = p \<longrightarrow> distinct (map port infos) \<longrightarrow>
        just_hit_watchpoint t = just_hit_watchpoint i \<and> just_hit_breakpoint t = just_hit_breakpoint i \<and>
        just_hit_sw_breakpoint t = just_hit_sw_breakpoint i \<and> last_hit_wp_loc t = last_hit_wp_loc i \<and>
        last_hit_wp_PC t = last_hit_wp_PC i \<and> last_hit_bkpt_ID t = last_hit_bkpt_ID i \<and>
        stepconfig t = stepconfig i)"

lemma find_port:
  assumes "i \<in> set infos" "distinct (map port infos)"
  shows "find (\<lambda>j. port j = port i) infos = Some i"
  using assms by (induction infos) auto

lemma restore_info_keeps:
  "port (restore_info infos t) = port t" "ID (restore_info infos t) = ID t"
  "focused (restore_info infos t) = focused t"
  by (simp_all add: restore_info_def split: option.splits)

lemma renewed_debug: "renewed infos foc n p (t\<lparr>debug_state := s\<rparr>) = renewed infos foc n p t"
  by (simp add: renewed_def)

lemma renewed_intro:
  assumes "port t = p" "ID t = n" "\<not> focused t"
    and "t2 = snd (fetch_debug M k (restore_info infos (if p = foc then t\<lparr>focused := True\<rparr> else t)))"
  shows "renewed infos foc n p t2"
proof -
  define t1 where "t1 = (if p = foc then t\<lparr>focused := True\<rparr> else t)"
  have t1: "port t1 = p" "ID t1 = n" "focused t1 = (p = foc)" using assms by (auto simp: t1_def)
  have "renewed infos foc n p (restore_info infos t1)"
    unfolding renewed_def
  proof (intro conjI ballI impI)
    fix i assume i: "i \<in> set infos" "port i = p" "distinct (map port infos)"
    with find_port [of i infos] t1(1) have f: "find (\<lambda>j. port j = port t1) infos = Some i" by simp
    show "just_hit_watchpoint (restore_info infos t1) = just_hit_watchpoint i"
      "just_hit_breakpoint (restore_info infos t1) = just_hit_breakpoint i"
      "just_hit_sw_breakpoint (restore_info infos t1) = just_hit_sw_breakpoint i"
      "last_hit_wp_loc (restore_info infos t1) = last_hit_wp_loc i"
      "last_hit_wp_PC (restore_info infos t1) = last_hit_wp_PC i"
      "last_hit_bkpt_ID (restore_info infos t1) = last_hit_bkpt_ID i"
      "stepconfig (restore_info infos t1) = stepconfig i"
      by (simp_all add: restore_info_def f)
  qed (use t1 in \<open>simp_all add: restore_info_keeps\<close>)
  then show ?thesis
    unfolding assms(4) t1_def [symmetric] by (subst fetch_debug_fields) (simp only: renewed_debug)
qed

lemma join_thread_props:
  assumes "join_thread M n i t d = Inr (t', d')"
  shows "t' = t \<or> (\<exists>s. t' = t\<lparr>debug_state := s\<rparr>)" "threads d' = threads d" "fresh d' = fresh d"
    "current_machthread_id d' = current_machthread_id d" "breakpoints d' = breakpoints d"
  using assms by (auto simp: join_thread_def bind_run_Inr Let_def split: if_splits)

lemma readd_threads_renews:
  assumes "readd_threads M blank infos foc ps i d out = Inr (d', out')"
  shows "\<exists>new. threads d' = threads d @ new \<and>
    list_all2 (\<lambda>p c. renewed infos foc (ID (snd c)) p (snd c)) (filter MACH_PORT_VALID ps) new \<and>
    map (ID \<circ> snd) new = map (\<lambda>j. current_machthread_id d + int j) [0..<length new] \<and>
    map fst new = [fresh d..<fresh d + length new]"
  using assms
proof (induction ps arbitrary: i d out)
  case Nil
  then show ?case by (intro exI [of _ "[]"]) simp
next
  case (Cons p ps)
  obtain r d1 out1 where mn: "machthread_new M blank p d out = (r, d1, out1)" by (metis prod_cases3)
  note props = machthread_new_props [OF mn]
  show ?case
  proof (cases r)
    case None
    with Cons.prems mn have "readd_threads M blank infos foc ps (Suc i) d1 out1 = Inr (d', out')" by simp
    from Cons.IH [OF this] None props show ?thesis by auto
  next
    case (Some t)
    define t2 where "t2 = snd (fetch_debug M (kern d1) (restore_info infos (if p = foc then t\<lparr>focused := True\<rparr> else t)))"
    from Cons.prems mn Some obtain t4 d2 where
      jt: "join_thread M (length infos) i t2 d1 = Inr (t4, d2)" and
      rest: "readd_threads M blank infos foc ps (Suc i)
        (append_thread t4 (d2\<lparr>thread_count := int i + 1\<rparr>)) out1 = Inr (d', out')"
      unfolding t2_def by (auto simp: bind_run_Inr Let_def)
    note t4 = join_thread_props(1) [OF jt] and d2 = join_thread_props(2-4) [OF jt]
    have ren: "renewed infos foc (current_machthread_id d) p t4"
    proof -
      have "renewed infos foc (current_machthread_id d) p t2"
        by (rule renewed_intro [OF _ _ _ t2_def]) (use props(8) [OF Some] in simp_all)
      with t4 renewed_debug show ?thesis by auto
    qed
    define d3 where "d3 = append_thread t4 (d2\<lparr>thread_count := int i + 1\<rparr>)"
    have d3: "threads d3 = threads d @ [(fresh d, t4)]" "fresh d3 = fresh d + 1"
      "current_machthread_id d3 = current_machthread_id d + 1"
      using props d2 Some by (auto simp: d3_def append_thread_def pl_add_def)
    from Cons.IH [OF rest [folded d3_def]] obtain new where new:
      "threads d' = (threads d @ [(fresh d, t4)]) @ new"
      "list_all2 (\<lambda>p c. renewed infos foc (ID (snd c)) p (snd c)) (filter MACH_PORT_VALID ps) new"
      "map (ID \<circ> snd) new = map (\<lambda>j. current_machthread_id d + 1 + int j) [0..<length new]"
      "map fst new = [fresh d + 1..<fresh d + 1 + length new]"
      unfolding d3 by blast
    have id: "ID t4 = current_machthread_id d" using ren by (simp add: renewed_def)
    have up: "map (\<lambda>j. current_machthread_id d + int j) [0..<Suc (length new)]
        = current_machthread_id d # map (\<lambda>j. current_machthread_id d + 1 + int j) [0..<length new]"
      by (simp add: upt_conv_Cons map_Suc_upt [symmetric] add.assoc del: upt_Suc)
    show ?thesis
    proof (intro exI [of _ "(fresh d, t4) # new"] conjI)
      show "threads d' = threads d @ (fresh d, t4) # new" using new(1) by simp
      show "list_all2 (\<lambda>p c. renewed infos foc (ID (snd c)) p (snd c)) (filter MACH_PORT_VALID (p # ps))
          ((fresh d, t4) # new)"
        using new(2) ren id props(6) Some by simp
      show "map (ID \<circ> snd) ((fresh d, t4) # new)
          = map (\<lambda>j. current_machthread_id d + int j) [0..<length ((fresh d, t4) # new)]"
        using new(3) id up by simp
      show "map fst ((fresh d, t4) # new) = [fresh d..<fresh d + length ((fresh d, t4) # new)]"
        using new(4) by (simp add: upt_conv_Cons del: upt_Suc)
    qed
  qed
qed

lemma update_thread_list_renews:
  assumes "threads d \<noteq> []" and "update_thread_list M blank (Some ps) d out = Inr (d', out')"
  shows "list_all2 (\<lambda>p t. renewed (map snd (threads d)) (focused_port (threads d)) (ID t) p t)
      (filter MACH_PORT_VALID ps) (map snd (threads d'))"
    and "map (ID \<circ> snd) (threads d') = map (\<lambda>j. 1 + int j) [0..<length (threads d')]"
    and "distinct (map fst (threads d'))"
  using assms readd_threads_renews [of M blank "map snd (threads d)" "focused_port (threads d)" ps 0
      "resetmtid (d\<lparr>threads := []\<rparr>)" out d' out']
  by (auto simp: update_thread_list_def resetmtid_def list_all2_conv_all_nth)

text \<open>With no more ports than there were threads, no debug register is written and the rebuild returns.\<close>

lemma readd_threads_returns:
  "i + length ps \<le> length infos \<Longrightarrow> \<exists>r. readd_threads M blank infos foc ps i d out = Inr r"
  by (induction ps arbitrary: i d out) (auto simp: join_thread_def Let_def split: prod.splits option.splits)

lemma update_thread_list_returns:
  assumes "length ps \<le> length (threads d)"
  shows "\<exists>r. update_thread_list M blank (Some ps) d out = Inr r"
  using assms readd_threads_returns [of 0 ps "map snd (threads d)" M blank "focused_port (threads d)"
      "resetmtid (d\<lparr>threads := []\<rparr>)" out] by (simp add: update_thread_list_def Let_def)

text \<open>
  A software breakpoint for all threads has no register: when a thread appears, its registers are
  written at index \<open>- 1\<close>.
\<close>

lemma new_thread_overrun:
  assumes "machthread_new M blank p d out = (Some t, d1, out1)" "length infos \<le> i"
    and "breakpoints d = (a, b) # bs" "all_threads (bp_threadinfo b)" "hw_bp_reg b = - 1"
  shows "readd_threads M blank infos foc (p # ps) i d out = Inl OutOfBounds"
  using assms machthread_new_props(2) [OF assms(1)]
  by (simp add: join_thread_def put_bp_regs_def put_reg_def Let_def)

end
