(* ===== verification/Breakpoints.thy ===== *)
theory Breakpoints
  imports Threads
begin

text \<open>
  Breakpoints, \<^verbatim>\<open>source/breakpoint.c\<close>: hardware breakpoints in the debug registers of the threads, and
  software breakpoints as \<^verbatim>\<open>BRK #0\<close> in the memory of the target once the registers are used up. An
  \<^verbatim>\<open>outbuffer\<close> or \<^verbatim>\<open>error\<close> argument may be NULL; such an argument is an option of a buffer.
\<close>

section \<open>Programming the debug registers\<close>

definition say :: "cbuf option \<Rightarrow> string \<Rightarrow> cbuf option" where
  "say b s = map_option (\<lambda>c. concat_c c s) b"

text \<open>\<^verbatim>\<open>get_debug_state(t)\<close>, a change of the registers, \<^verbatim>\<open>set_debug_state(t)\<close>.\<close>

definition program_thread ::
    "'k mach \<Rightarrow> (debug_state64 \<Rightarrow> debug_state64 run) \<Rightarrow> nat \<Rightarrow> 'k dbg \<Rightarrow> 'k dbg run" where
  "program_thread M f a d =
     (let d1 = snd (get_debug_state M (Some a) d) in
      case pl_get (threads d1) a of None \<Rightarrow> Inl UseAfterFree
      | Some t \<Rightarrow> bind_run (f (debug_state t)) (\<lambda>s.
          Inr (snd (set_debug_state M (Some a) (upd_thread a (\<lambda>t. t\<lparr>debug_state := s\<rparr>) d1)))))"

text \<open>All threads, or the one thread with the ID, when it still exists.\<close>

definition program_threads ::
    "'k mach \<Rightarrow> (debug_state64 \<Rightarrow> debug_state64 run) \<Rightarrow> threadinfo \<Rightarrow> 'k dbg \<Rightarrow> 'k dbg run" where
  "program_threads M f ti d =
     (if all_threads ti then run_list (program_thread M f) (map fst (threads d)) d
      else (case find_thread_from_ID (iosdbg_tid ti) d of None \<Rightarrow> Inr d
            | Some (a, _) \<Rightarrow> program_thread M f a d))"

definition clear_bcr :: "int \<Rightarrow> debug_state64 \<Rightarrow> debug_state64 run" where
  "clear_bcr i s = bind_run (put_reg (ds_bcr s) i 0) (\<lambda>bcr. Inr (s\<lparr>ds_bcr := bcr\<rparr>))"

section \<open>New breakpoints\<close>

definition BP_ALL_THREADS :: int where
  "BP_ALL_THREADS = - 1"

definition BRK :: u64 where
  "BRK = 0xd4200000"

text \<open>\<^verbatim>\<open>BT | BAS | PMC | E\<close>.\<close>

definition bcr_value :: u64 where
  "bcr_value = push_bit 20 0 OR push_bit 5 0xf OR push_bit 1 2 OR 1"

text \<open>The map of used registers: 0 for a used one, \<open>- 1\<close> for a free one.\<close>

definition bp_map :: "'k dbg \<Rightarrow> int \<Rightarrow> int" where
  "bp_map d = fold (\<lambda>(a, b) m. if bp_hw b then m(hw_bp_reg b := 0) else m) (breakpoints d) (\<lambda>_. - 1)"

definition find_ready_bp_reg :: "'k dbg \<Rightarrow> int" where
  "find_ready_bp_reg d =
     (case find (\<lambda>i. bp_map d (int i) \<noteq> 0) [0..<nat (num_hw_bps d)] of
        None \<Rightarrow> - 1 | Some i \<Rightarrow> int i)"

definition find_bp_with_address :: "u64 \<Rightarrow> 'k dbg \<Rightarrow> (nat \<times> breakpoint) option" where
  "find_bp_with_address addr d = pl_find (\<lambda>b. bp_location b = addr) (breakpoints d)"

definition dup_warning :: "breakpoint \<Rightarrow> breakpoint \<Rightarrow> string" where
  "dup_warning dup bp =
     concat [''warning: breakpoint '', show_dec (bp_id dup), '' is set at the same location as breakpoint '',
       show_dec (bp_id bp)] @
     (if \<not> bp_hw bp \<and> bp_hw dup
      then concat [[CHR 0x0A], replicate 8 (CHR '' ''), ''in addition, breakpoint '', show_dec (bp_id dup),
             '' is a hardware breakpoint, and breakpoint '', show_dec (bp_id bp),
             '' is a software breakpoint.'', [CHR 0x0A], replicate 8 (CHR '' ''),
             ''it is strongly recommended to remove breakpoint '', show_dec (bp_id bp), ''.'', [CHR 0x0A]]
      else [CHR 0x0A])"

text \<open>
  The thread the breakpoint is for, \<open>None\<close> when there is no such thread. The code looks the thread up
  again before it programs its registers, in case it has gone meanwhile; no other operation runs in
  between here, so it has not.
\<close>

definition new_threadinfo :: "int \<Rightarrow> 'k dbg \<Rightarrow> threadinfo option" where
  "new_threadinfo th d =
     (if th = BP_ALL_THREADS
      then Some \<lparr>all_threads = True, iosdbg_tid = 0, pthread_tid = 0, ti_name = None\<rparr>
      else (case find_thread_from_ID th d of None \<Rightarrow> None
            | Some (a, t) \<Rightarrow> Some \<lparr>all_threads = False, iosdbg_tid = th, pthread_tid = tid t,
                                 ti_name = Some (tname t)\<rparr>))"

text \<open>
  The original instruction is read into an \<^verbatim>\<open>int\<close> that was 0 and widened with its sign; a second
  breakpoint at a location takes it from the first. \<^verbatim>\<open>for_stepping\<close> is set by the callers.
\<close>

definition orig_instruction :: "u8 list \<Rightarrow> u64" where
  "orig_instruction bs = scast (ucast (number_le bs) :: u32)"

definition breakpoint_new ::
    "'k mach \<Rightarrow> u64 \<Rightarrow> bool \<Rightarrow> int \<Rightarrow> 'k dbg \<Rightarrow> cbuf option \<Rightarrow> cbuf option
     \<Rightarrow> (breakpoint option \<times> 'k dbg \<times> cbuf option \<times> cbuf option) run" where
  "breakpoint_new M location temporary th d out e =
     (case new_threadinfo th d of
        None \<Rightarrow> Inr (None, d, out, say e (''no such thread with ID '' @ show_dec th))
      | Some ti \<Rightarrow>
         (let reg = find_ready_bp_reg d; hw = (reg \<noteq> - 1);
              bp = \<lparr>bp_id = current_breakpoint_id d, bp_location = location, old_instruction = 0,
                    bp_hit_count = 0, bp_disabled = False, bp_temporary = temporary, bp_hw = hw,
                    hw_bp_reg = reg, for_stepping = False, bp_threadinfo = ti,
                    bp_bcr = (if hw then bcr_value else 0),
                    bp_bvr = (if hw then location AND NOT 3 else 0)\<rparr>
          in bind_run (if hw then program_threads M (put_bp_regs bp) ti d else Inr d) (\<lambda>d1.
             let d2 = (if temporary then d1 else d1\<lparr>current_breakpoint_id := current_breakpoint_id d1 + 1\<rparr>) in
             case find_bp_with_address location d2 of
               None \<Rightarrow> bind_run (read_memory_at_location M (kern d2) location 4) (\<lambda>(err, bs).
                  if err \<noteq> KERN_SUCCESS
                  then Inr (None, d2, out, say e
                         (''could not set breakpoint: could not read memory at '' @ show_hex location))
                  else Inr (Some (bp\<lparr>old_instruction := orig_instruction bs\<rparr>), d2, out, e))
             | Some (_, dup) \<Rightarrow>
                 Inr (Some (bp\<lparr>old_instruction := old_instruction dup\<rparr>), d2,
                      (if for_stepping dup then out else say out (dup_warning dup bp)), e))))"

section \<open>Enabling, disabling, deleting\<close>

definition enable_hw_bp :: "'k mach \<Rightarrow> breakpoint \<Rightarrow> 'k dbg \<Rightarrow> 'k dbg run" where
  "enable_hw_bp M bp d = program_threads M (put_bp_regs bp) (bp_threadinfo bp) d"

definition disable_hw_bp :: "'k mach \<Rightarrow> breakpoint \<Rightarrow> 'k dbg \<Rightarrow> 'k dbg run" where
  "disable_hw_bp M bp d = program_threads M (clear_bcr (hw_bp_reg bp)) (bp_threadinfo bp) d"

text \<open>The result of the memory write is not looked at.\<close>

definition poke :: "'k mach \<Rightarrow> u64 \<Rightarrow> u64 \<Rightarrow> u64 \<Rightarrow> 'k dbg \<Rightarrow> 'k dbg run" where
  "poke M loc v n d =
     bind_run (write_memory_to_location M (kern d) loc v n) (\<lambda>(_, k). Inr (d\<lparr>kern := k\<rparr>))"

definition bp_set_state_internal :: "'k mach \<Rightarrow> nat \<Rightarrow> bool \<Rightarrow> 'k dbg \<Rightarrow> 'k dbg run" where
  "bp_set_state_internal M a disabled d =
     (case pl_get (breakpoints d) a of None \<Rightarrow> Inl UseAfterFree
      | Some bp \<Rightarrow>
         bind_run (if bp_hw bp then (if disabled then disable_hw_bp M bp d else enable_hw_bp M bp d)
                   else (if disabled then poke M (bp_location bp) (old_instruction bp) 4 d
                         else poke M (bp_location bp) BRK 4 d))
           (\<lambda>d1. Inr (upd_bp a (\<lambda>b. b\<lparr>bp_disabled := disabled\<rparr>) d1)))"

definition bp_delete_internal :: "'k mach \<Rightarrow> nat \<Rightarrow> 'k dbg \<Rightarrow> 'k dbg run" where
  "bp_delete_internal M a d =
     bind_run (bp_set_state_internal M a True d) (\<lambda>d1.
       Inr (d1\<lparr>breakpoints := pl_delete a (breakpoints d1), num_breakpoints := num_breakpoints d1 - 1\<rparr>))"

definition append_bp :: "breakpoint \<Rightarrow> 'k dbg \<Rightarrow> 'k dbg" where
  "append_bp bp d = d\<lparr>breakpoints := pl_add (breakpoints d) (fresh d) bp, fresh := fresh d + 1\<rparr>"

definition set_text :: "breakpoint \<Rightarrow> string" where
  "set_text bp =
     concat [''Breakpoint '', show_dec (bp_id bp), '' at '', show_hex (bp_location bp)] @
     (if \<not> all_threads (bp_threadinfo bp)
      then concat ['', for thread #'', show_dec (iosdbg_tid (bp_threadinfo bp)), '' (tid: '',
             show_hex (pthread_tid (bp_threadinfo bp)), ''), '',
             quoted (case ti_name (bp_threadinfo bp) of Some s \<Rightarrow> s | None \<Rightarrow> [])] @
           (if \<not> bp_hw bp then '' (emulated thread-specific)'' @ [CHR 0x0A] else [CHR 0x0A])
      else [CHR 0x0A])"

definition breakpoint_at_address ::
    "'k mach \<Rightarrow> u64 \<Rightarrow> bool \<Rightarrow> int \<Rightarrow> 'k dbg \<Rightarrow> cbuf option \<Rightarrow> cbuf option
     \<Rightarrow> ('k dbg \<times> cbuf option \<times> cbuf option) run" where
  "breakpoint_at_address M address temporary th d out e =
     bind_run (breakpoint_new M address temporary th d out e) (\<lambda>(r, d1, out1, e1).
       case r of None \<Rightarrow> Inr (d1, out1, e1)
       | Some bp \<Rightarrow>
          (let d2 = append_bp (bp\<lparr>for_stepping := False\<rparr>) d1;
               out2 = (if \<not> temporary then say out1 (set_text bp) else out1)
           in bind_run (if \<not> bp_hw bp then poke M (bp_location bp) BRK 4 d2 else Inr d2) (\<lambda>d3.
                Inr (d3\<lparr>num_breakpoints := num_breakpoints d3 + 1\<rparr>, out2, e1))))"

definition set_stepping_breakpoint :: "'k mach \<Rightarrow> u64 \<Rightarrow> int \<Rightarrow> 'k dbg \<Rightarrow> 'k dbg run" where
  "set_stepping_breakpoint M address th d =
     bind_run (breakpoint_new M address True th d None None) (\<lambda>(r, d1, _, _).
       case r of None \<Rightarrow> Inr d1
       | Some bp \<Rightarrow>
          (let d2 = append_bp (bp\<lparr>for_stepping := True\<rparr>) d1 in
           bind_run (if \<not> bp_hw bp then poke M (bp_location bp) BRK 4 d2 else Inr d2) (\<lambda>d3.
             Inr (d3\<lparr>num_breakpoints := num_breakpoints d3 + 1\<rparr>))))"

definition breakpoint_delete_specific :: "'k mach \<Rightarrow> nat option \<Rightarrow> 'k dbg \<Rightarrow> 'k dbg run" where
  "breakpoint_delete_specific M bp d = (case bp of None \<Rightarrow> Inr d | Some a \<Rightarrow> bp_delete_internal M a d)"

definition breakpoint_hit :: "'k mach \<Rightarrow> nat option \<Rightarrow> 'k dbg \<Rightarrow> 'k dbg run" where
  "breakpoint_hit M bp d =
     (case bp of None \<Rightarrow> Inr d
      | Some a \<Rightarrow>
         (case pl_get (breakpoints d) a of None \<Rightarrow> Inl UseAfterFree
          | Some b \<Rightarrow> if bp_temporary b then breakpoint_delete_specific M (Some a) d
                     else Inr (upd_bp a (\<lambda>b. b\<lparr>bp_hit_count := bp_hit_count b + 1\<rparr>) d)))"

definition bp_with_id :: "int \<Rightarrow> 'k dbg \<Rightarrow> nat option" where
  "bp_with_id i d = map_option fst (pl_find (\<lambda>b. bp_id b = i) (breakpoints d))"

definition not_found :: "int \<Rightarrow> string" where
  "not_found i = ''breakpoint '' @ show_dec i @ '' not found''"

definition breakpoint_delete ::
    "'k mach \<Rightarrow> int \<Rightarrow> 'k dbg \<Rightarrow> cbuf option \<Rightarrow> ('k dbg \<times> cbuf option) run" where
  "breakpoint_delete M i d e =
     (case bp_with_id i d of
        Some a \<Rightarrow> bind_run (bp_delete_internal M a d) (\<lambda>d1. Inr (d1, e))
      | None \<Rightarrow> Inr (d, say e (not_found i)))"

definition breakpoint_disable ::
    "'k mach \<Rightarrow> int \<Rightarrow> 'k dbg \<Rightarrow> cbuf option \<Rightarrow> ('k dbg \<times> cbuf option) run" where
  "breakpoint_disable M i d e =
     (case bp_with_id i d of
        Some a \<Rightarrow> bind_run (bp_set_state_internal M a True d) (\<lambda>d1. Inr (d1, e))
      | None \<Rightarrow> Inr (d, say e (not_found i)))"

definition breakpoint_enable ::
    "'k mach \<Rightarrow> int \<Rightarrow> 'k dbg \<Rightarrow> cbuf option \<Rightarrow> ('k dbg \<times> cbuf option) run" where
  "breakpoint_enable M i d e =
     (case bp_with_id i d of
        Some a \<Rightarrow> bind_run (bp_set_state_internal M a False d) (\<lambda>d1. Inr (d1, e))
      | None \<Rightarrow> Inr (d, say e (not_found i)))"

text \<open>The loops over all breakpoints. A test of the breakpoint selects those the body is run for.\<close>

definition each_bp ::
    "(breakpoint \<Rightarrow> bool) \<Rightarrow> (nat \<Rightarrow> 'k dbg \<Rightarrow> 'k dbg run) \<Rightarrow> 'k dbg \<Rightarrow> 'k dbg run" where
  "each_bp P f d =
     run_list (\<lambda>a d. case pl_get (breakpoints d) a of None \<Rightarrow> Inl UseAfterFree
                | Some b \<Rightarrow> if P b then f a d else Inr d) (map fst (breakpoints d)) d"

datatype bp_cond = BP_COND_NORMAL | BP_COND_TEMP | BP_COND_STEPPING

definition way_selects :: "bp_cond \<Rightarrow> breakpoint \<Rightarrow> bool" where
  "way_selects way b =
     (case way of BP_COND_NORMAL \<Rightarrow> \<not> bp_temporary b \<and> \<not> for_stepping b
      | BP_COND_STEPPING \<Rightarrow> for_stepping b
      | BP_COND_TEMP \<Rightarrow> False)"

definition breakpoint_disable_all :: "'k mach \<Rightarrow> 'k dbg \<Rightarrow> 'k dbg run" where
  "breakpoint_disable_all M d = each_bp (\<lambda>_. True) (\<lambda>a. bp_set_state_internal M a True) d"

definition breakpoint_enable_all :: "'k mach \<Rightarrow> 'k dbg \<Rightarrow> 'k dbg run" where
  "breakpoint_enable_all M d = each_bp (\<lambda>_. True) (\<lambda>a. bp_set_state_internal M a False) d"

definition breakpoint_enable_all_specific :: "'k mach \<Rightarrow> bp_cond \<Rightarrow> 'k dbg \<Rightarrow> 'k dbg run" where
  "breakpoint_enable_all_specific M way d =
     each_bp (way_selects way) (\<lambda>a. bp_set_state_internal M a False) d"

definition breakpoint_disabled :: "int \<Rightarrow> 'k dbg \<Rightarrow> bool" where
  "breakpoint_disabled i d =
     (case pl_find (\<lambda>b. bp_id b = i) (breakpoints d) of None \<Rightarrow> False | Some (_, b) \<Rightarrow> bp_disabled b)"

definition breakpoint_delete_all :: "'k mach \<Rightarrow> 'k dbg \<Rightarrow> 'k dbg run" where
  "breakpoint_delete_all M d = each_bp (\<lambda>_. True) (bp_delete_internal M) d"

definition breakpoint_delete_all_specific :: "'k mach \<Rightarrow> bp_cond \<Rightarrow> 'k dbg \<Rightarrow> 'k dbg run" where
  "breakpoint_delete_all_specific M way d =
     each_bp (way_selects way) (\<lambda>a. breakpoint_delete_specific M (Some a)) d"

definition find_bp_with_cond :: "u64 \<Rightarrow> bp_cond \<Rightarrow> 'k dbg \<Rightarrow> (nat \<times> breakpoint) option" where
  "find_bp_with_cond addr way d = pl_find (\<lambda>b. bp_location b = addr \<and> way_selects way b) (breakpoints d)"

definition breakpoint_disable_all_except :: "'k mach \<Rightarrow> bp_cond \<Rightarrow> 'k dbg \<Rightarrow> 'k dbg run" where
  "breakpoint_disable_all_except M except d =
     each_bp (\<lambda>b. case except of BP_COND_NORMAL \<Rightarrow> True | BP_COND_STEPPING \<Rightarrow> \<not> for_stepping b
                | BP_COND_TEMP \<Rightarrow> False)
       (\<lambda>a. bp_set_state_internal M a True) d"

section \<open>Programming registers always returns and changes nothing else\<close>

text \<open>
  Sixteen registers of each kind, as \<^verbatim>\<open>arm_debug_state64_t\<close> has them; a successful read gives all the
  bytes asked for.
\<close>

definition regs16 :: "debug_state64 \<Rightarrow> bool" where
  "regs16 s \<longleftrightarrow> length (ds_bvr s) = 16 \<and> length (ds_bcr s) = 16 \<and> length (ds_wvr s) = 16 \<and>
     length (ds_wcr s) = 16"

definition kernel_ok :: "'k mach \<Rightarrow> bool" where
  "kernel_ok M \<longleftrightarrow> (\<forall>k p s. debug_get_state M k p = Inr s \<longrightarrow> regs16 s) \<and>
     (\<forall>k a n bs. vm_read_overwrite M k a n = Inr bs \<longrightarrow> length bs = unat n)"

definition thr_ok :: "machthread plist \<Rightarrow> bool" where
  "thr_ok ts \<longleftrightarrow> distinct (map fst ts) \<and> (\<forall>c \<in> set ts. regs16 (debug_state (snd c)))"

definition undebugged :: "machthread plist \<Rightarrow> machthread plist" where
  "undebugged ts =
     map (\<lambda>(a, t). (a, t\<lparr>debug_state := \<lparr>ds_bvr = [], ds_bcr = [], ds_wvr = [], ds_wcr = [], ds_mdscr_el1 = 0\<rparr>\<rparr>)) ts"

text \<open>Two states that differ only in the kernel and the debug states of the threads.\<close>

definition same_debugger :: "'k dbg \<Rightarrow> 'k dbg \<Rightarrow> bool" where
  "same_debugger d d' \<longleftrightarrow> d' = d\<lparr>kern := kern d', threads := threads d'\<rparr> \<and>
     undebugged (threads d') = undebugged (threads d)"

lemma same_debugger_refl [simp]: "same_debugger d d"
  by (simp add: same_debugger_def)

lemma same_debugger_trans: "same_debugger d d1 \<Longrightarrow> same_debugger d1 d2 \<Longrightarrow> same_debugger d d2"
  unfolding same_debugger_def by (cases d; cases d1; cases d2) auto

lemma same_debuggerD:
  assumes "same_debugger d d'"
  shows "breakpoints d' = breakpoints d" "watchpoints d' = watchpoints d" "num_breakpoints d' = num_breakpoints d"
    "num_watchpoints d' = num_watchpoints d" "num_hw_bps d' = num_hw_bps d" "num_hw_wps d' = num_hw_wps d"
    "current_breakpoint_id d' = current_breakpoint_id d" "current_watchpoint_id d' = current_watchpoint_id d"
    "fresh d' = fresh d" "vars d' = vars d" "map fst (threads d') = map fst (threads d)"
proof -
  note eq = assms [unfolded same_debugger_def]
  show "breakpoints d' = breakpoints d" "watchpoints d' = watchpoints d" "num_breakpoints d' = num_breakpoints d"
    "num_watchpoints d' = num_watchpoints d" "num_hw_bps d' = num_hw_bps d" "num_hw_wps d' = num_hw_wps d"
    "current_breakpoint_id d' = current_breakpoint_id d" "current_watchpoint_id d' = current_watchpoint_id d"
    "fresh d' = fresh d" "vars d' = vars d"
    by (subst conjunct1 [OF eq], simp)+
  have "map fst (undebugged ts) = map fst ts" for ts by (induction ts) (auto simp: undebugged_def)
  then show "map fst (threads d') = map fst (threads d)" using eq by metis
qed

lemma undebugged_update:
  "undebugged (pl_update a (\<lambda>t. t\<lparr>debug_state := s\<rparr>) ts) = undebugged ts"
  by (induction ts) (auto simp: undebugged_def)

lemma undebugged_replace:
  assumes "distinct (map fst ts)" "(a, t) \<in> set ts"
  shows "undebugged (pl_update a (\<lambda>_. t\<lparr>debug_state := s\<rparr>) ts) = undebugged ts"
  using assms
proof (induction ts)
  case Nil
  then show ?case by simp
next
  case (Cons c ts)
  obtain b u where c: "c = (b, u)" by (cases c)
  have id: "pl_update a f ts = ts" if "a \<notin> fst ` set ts" for f
    using that by (induction ts) auto
  show ?case
  proof (cases "b = a")
    case True
    with Cons.prems c have "u = t" "a \<notin> fst ` set ts" by (auto simp: image_iff)
    with True c id show ?thesis by (simp add: undebugged_def)
  next
    case False
    with Cons c have "undebugged (pl_update a (\<lambda>_. t\<lparr>debug_state := s\<rparr>) ts) = undebugged ts" by auto
    with False c show ?thesis by (simp add: undebugged_def)
  qed
qed

lemma pl_get_update_same [simp]:
  "pl_get xs a = Some x \<Longrightarrow> pl_get (pl_update a f xs) a = Some (f x)"
  by (induction xs) (auto simp: pl_get_def)

lemma pl_update_twice:
  "pl_update a f (pl_update a g xs) = pl_update a (f \<circ> g) xs"
  by (induction xs) auto

lemma pl_update_mem:
  "(b, y) \<in> set (pl_update a f xs) \<longleftrightarrow> (\<exists>x. (b, x) \<in> set xs \<and> y = (if b = a then f x else x))"
  by (induction xs) (auto split: if_splits)

definition reg_change :: "(debug_state64 \<Rightarrow> debug_state64 run) \<Rightarrow> bool" where
  "reg_change f \<longleftrightarrow> (\<forall>s. regs16 s \<longrightarrow> (\<exists>s'. f s = Inr s' \<and> regs16 s'))"

lemma program_thread_ok:
  assumes K: "kernel_ok M" and T: "thr_ok (threads d)" and a: "a \<in> fst ` set (threads d)"
    and f: "reg_change f"
  shows "\<exists>d'. program_thread M f a d = Inr d' \<and> same_debugger d d' \<and> thr_ok (threads d')"
proof -
  from a obtain t where t: "(a, t) \<in> set (threads d)" by auto
  have dist: "distinct (map fst (threads d))" using T by (simp add: thr_ok_def)
  have get: "pl_get (threads d) a = Some t" using t dist by (simp add: pl_get_mem)
  obtain s0 where s0: "snd (fetch_debug M (kern d) t) = t\<lparr>debug_state := s0\<rparr>" "regs16 s0"
  proof (cases "debug_get_state M (kern d) (port t)")
    case (Inl r)
    with that [of "debug_state t"] t T show ?thesis by (auto simp: fetch_debug_def thr_ok_def)
  next
    case (Inr s)
    with that [of s] K show ?thesis by (auto simp: fetch_debug_def kernel_ok_def)
  qed
  from f s0 obtain s1 where s1: "f s0 = Inr s1" "regs16 s1" by (auto simp: reg_change_def)
  let ?ts = "pl_update a (\<lambda>t. t\<lparr>debug_state := s1\<rparr>) (pl_update a (\<lambda>_. t\<lparr>debug_state := s0\<rparr>) (threads d))"
  have g1: "snd (get_debug_state M (Some a) d) = d\<lparr>threads := pl_update a (\<lambda>_. t\<lparr>debug_state := s0\<rparr>) (threads d)\<rparr>"
    using get s0 by (simp add: get_debug_state_def get_state_def upd_thread_def split: prod.splits)
      (metis snd_conv)
  have g2: "pl_get ?ts a = Some (t\<lparr>debug_state := s1\<rparr>)"
    using get by simp
  obtain r k where k: "store_debug M (kern d) (t\<lparr>debug_state := s1\<rparr>) = (r, k)" by fastforce
  have "program_thread M f a d = Inr (d\<lparr>threads := ?ts, kern := k\<rparr>)"
    using get s1 g2 k
    by (simp add: program_thread_def g1 set_debug_state_def set_state_def upd_thread_def Let_def)
  moreover have "undebugged ?ts = undebugged (threads d)"
    using undebugged_update undebugged_replace [OF dist t] by simp
  moreover have "thr_ok ?ts"
    using T s1 get by (fastforce simp: thr_ok_def pl_update_mem)
  ultimately show ?thesis by (intro exI conjI) (auto simp: same_debugger_def)
qed

lemma program_threads_ok:
  assumes K: "kernel_ok M" and T: "thr_ok (threads d)" and f: "reg_change f"
  shows "\<exists>d'. program_threads M f ti d = Inr d' \<and> same_debugger d d' \<and> thr_ok (threads d')"
proof (cases "all_threads ti")
  case True
  have "\<exists>d'. run_list (program_thread M f) (map fst (threads d)) d = Inr d' \<and>
      (same_debugger d d' \<and> thr_ok (threads d'))"
  proof (rule run_list_inv)
    show "same_debugger d d \<and> thr_ok (threads d)" using T by simp
  next
    fix a d1 assume a: "a \<in> set (map fst (threads d))" and d1: "same_debugger d d1 \<and> thr_ok (threads d1)"
    then have "a \<in> fst ` set (threads d1)" using same_debuggerD(11) [of d d1] by (metis list.set_map)
    from program_thread_ok [OF K _ this f] d1
    show "\<exists>d2. program_thread M f a d1 = Inr d2 \<and> same_debugger d d2 \<and> thr_ok (threads d2)"
      using same_debugger_trans by blast
  qed
  with True show ?thesis by (simp add: program_threads_def)
next
  case False
  show ?thesis
  proof (cases "find_thread_from_ID (iosdbg_tid ti) d")
    case None
    with False T show ?thesis by (auto simp: program_threads_def)
  next
    case (Some c)
    obtain a t where c: "c = (a, t)" by (cases c)
    with Some find_thread have "(a, t) \<in> set (threads d)" unfolding find_thread_from_ID_def by blast
    then have "a \<in> fst ` set (threads d)" by force
    from program_thread_ok [OF K T this f] False Some c show ?thesis by (simp add: program_threads_def)
  qed
qed

lemma reg_change_put_bp: "0 \<le> hw_bp_reg b \<Longrightarrow> hw_bp_reg b < 16 \<Longrightarrow> reg_change (put_bp_regs b)"
  by (simp add: reg_change_def put_bp_regs_def put_reg_def regs16_def nat_less_iff)

lemma reg_change_clear: "0 \<le> i \<Longrightarrow> i < 16 \<Longrightarrow> reg_change (clear_bcr i)"
  by (simp add: reg_change_def clear_bcr_def put_reg_def regs16_def nat_less_iff)

lemma read_chunks_returns:
  assumes "kernel_ok M" "end_loc = cur + left"
  shows "\<exists>b'. read_chunks M k cur end_loc left b = Inr b'"
  using assms(2)
proof (induction "unat left" arbitrary: cur left b rule: less_induct)
  case less
  show ?case
  proof (cases "cur < end_loc")
    case False
    then show ?thesis by (simp add: read_chunks.simps [of M k cur])
  next
    case True
    then have left: "left \<noteq> 0" and lt: "unat cur < (unat cur + unat left) mod 2 ^ 64"
      using less.prems by (auto simp: word_less_nat_alt unat_word_ariths)
    have "unat cur < 2 ^ 64" "unat left < 2 ^ 64" using unsigned_less [of cur] unsigned_less [of left] by simp_all
    with lt have nowrap: "unat cur + unat left < 2 ^ 64" by (auto simp: mod_if split: if_splits)
    define chunk where "chunk = (if 0x100 > left then left else 0x100)"
    have c: "chunk \<le> left" "0 < unat chunk"
      using left by (auto simp: chunk_def word_le_nat_alt word_less_nat_alt unat_gt_0)
    have cl: "unat chunk \<le> unat left" "chunk \<noteq> 0" using c by (auto simp: word_le_nat_alt)
    have sub: "unat (left - chunk) = unat left - unat chunk" using c by (simp add: unat_sub)
    have add: "unat (cur + chunk) = unat cur + unat chunk"
      using nowrap cl by (simp add: unat_word_ariths)
    then have nw: "\<not> cur + chunk < cur" by (simp add: word_less_nat_alt)
    show ?thesis
    proof (cases "vm_read_overwrite M k cur chunk")
      case (Inl e)
      with True show ?thesis by (subst read_chunks.simps) (simp add: chunk_def [symmetric] Let_def)
    next
      case (Inr data)
      with assms(1) have len: "length data = unat chunk" by (simp add: kernel_ok_def)
      have "read_chunks M k cur end_loc left b
          = read_chunks M k (cur + chunk) end_loc (left - chunk) (b @ data)"
        using True Inr len cl(2) nw
        by (subst read_chunks.simps) (simp add: chunk_def [symmetric] Let_def)
      moreover have "\<exists>b'. read_chunks M k (cur + chunk) end_loc (left - chunk) (b @ data) = Inr b'"
        by (rule less.hyps) (use less.prems sub cl(1) c(2) in auto)
      ultimately show ?thesis by simp
    qed
  qed
qed

lemma read_memory_returns:
  "kernel_ok M \<Longrightarrow> \<exists>bs. read_memory_at_location M k loc n = Inr (KERN_SUCCESS, bs)"
  using read_chunks_returns [of M _ loc n k "[]"] by (auto simp: read_memory_at_location_def)

lemma poke_returns:
  assumes "n \<le> 8"
  shows "\<exists>k. poke M loc v n d = Inr (d\<lparr>kern := k\<rparr>)"
proof -
  have "\<exists>r k. write_memory_to_location M (kern d) loc v n = Inr (r, k)"
    using assms by (auto simp: write_memory_to_location_def Let_def not_less [symmetric] split: sum.splits prod.splits)
  then show ?thesis by (auto simp: poke_def)
qed

section \<open>The invariant of the breakpoints\<close>

definition bp_reg_ok :: "int \<Rightarrow> breakpoint \<Rightarrow> bool" where
  "bp_reg_ok n b = (if bp_hw b then 0 \<le> hw_bp_reg b \<and> hw_bp_reg b < n else hw_bp_reg b = - 1)"

definition bps_ok :: "'k dbg \<Rightarrow> bool" where
  "bps_ok d \<longleftrightarrow> distinct (map fst (breakpoints d)) \<and> (\<forall>c \<in> set (breakpoints d). fst c < fresh d) \<and>
     num_breakpoints d = int (length (breakpoints d)) \<and> 0 \<le> num_hw_bps d \<and> num_hw_bps d \<le> 16 \<and>
     (\<forall>c \<in> set (breakpoints d). bp_reg_ok (num_hw_bps d) (snd c)) \<and>
     distinct (map (hw_bp_reg \<circ> snd) (filter (bp_hw \<circ> snd) (breakpoints d))) \<and>
     (\<forall>c \<in> set (breakpoints d). \<not> bp_temporary (snd c) \<longrightarrow> bp_id (snd c) < current_breakpoint_id d) \<and>
     distinct (map (bp_id \<circ> snd) (filter (Not \<circ> bp_temporary \<circ> snd) (breakpoints d)))"

text \<open>The watchpoints, which the operations on breakpoints leave alone, and both with the threads.\<close>

definition wps_ok :: "'k dbg \<Rightarrow> bool" where
  "wps_ok d \<longleftrightarrow> distinct (map fst (watchpoints d)) \<and> (\<forall>c \<in> set (watchpoints d). fst c < fresh d) \<and>
     num_watchpoints d = int (length (watchpoints d)) \<and> 0 \<le> num_hw_wps d \<and> num_hw_wps d \<le> 16 \<and>
     (\<forall>c \<in> set (watchpoints d). 0 \<le> hw_wp_reg (snd c) \<and> hw_wp_reg (snd c) < num_hw_wps d) \<and>
     distinct (map (hw_wp_reg \<circ> snd) (watchpoints d)) \<and>
     (\<forall>c \<in> set (watchpoints d). wp_id (snd c) < current_watchpoint_id d) \<and>
     distinct (map (wp_id \<circ> snd) (watchpoints d))"

definition dbg_inv :: "'k dbg \<Rightarrow> bool" where
  "dbg_inv d \<longleftrightarrow> bps_ok d \<and> wps_ok d \<and> thr_ok (threads d)"

lemma wps_ok_fields:
  assumes "wps_ok d" "watchpoints d' = watchpoints d" "fresh d \<le> fresh d'"
    "num_watchpoints d' = num_watchpoints d" "num_hw_wps d' = num_hw_wps d"
    "current_watchpoint_id d' = current_watchpoint_id d"
  shows "wps_ok d'"
  using assms by (fastforce simp: wps_ok_def)

lemma wps_ok_breakpoints [simp]:
  "wps_ok (d\<lparr>breakpoints := bs\<rparr>) = wps_ok d"
  "wps_ok (d\<lparr>breakpoints := bs, num_breakpoints := n\<rparr>) = wps_ok d"
  by (simp_all add: wps_ok_def)

lemma wps_ok_same: "wps_ok d \<Longrightarrow> same_debugger d d' \<Longrightarrow> wps_ok d'"
  by (rule wps_ok_fields [of d]) (simp_all add: same_debuggerD)

text \<open>The register \<^verbatim>\<open>find_ready_bp_reg\<close> gives is the first one no hardware breakpoint uses.\<close>

lemma bp_map_used:
  "bp_map d i = 0 \<longleftrightarrow> i \<in> (hw_bp_reg \<circ> snd) ` set (filter (bp_hw \<circ> snd) (breakpoints d))"
proof -
  have "fold (\<lambda>(a, b) m. if bp_hw b then m(hw_bp_reg b := 0) else m) bs m i = 0 \<longleftrightarrow>
      m i = 0 \<or> i \<in> (hw_bp_reg \<circ> snd) ` set (filter (bp_hw \<circ> snd) bs)" for bs and m :: "int \<Rightarrow> int"
    by (induction bs arbitrary: m) auto
  from this [of "breakpoints d" "\<lambda>_. - 1"] show ?thesis unfolding bp_map_def by simp
qed

text \<open>What both finders of registers promise: a free register in range, or \<open>- 1\<close> when all are used.\<close>

locale slot_finder =
  fixes ready :: "'s \<Rightarrow> int"
    and used :: "'s \<Rightarrow> int set"
    and slots :: "'s \<Rightarrow> int"
  assumes ready_free: "ready s \<noteq> - 1 \<Longrightarrow> 0 \<le> ready s \<and> ready s < slots s \<and> ready s \<notin> used s"
    and ready_full: "ready s = - 1 \<Longrightarrow> 0 \<le> i \<Longrightarrow> i < slots s \<Longrightarrow> i \<in> used s"
    and ready_first: "ready s \<noteq> - 1 \<Longrightarrow> 0 \<le> i \<Longrightarrow> i < ready s \<Longrightarrow> i \<in> used s"
begin

text \<open>Registers in use stay distinct when the one found is taken.\<close>

lemma claim_distinct:
  "distinct rs \<Longrightarrow> set rs = used s \<Longrightarrow> ready s \<noteq> - 1 \<Longrightarrow> distinct (rs @ [ready s])"
  using ready_free [of s] by auto

lemma not_full: "finite (used s) \<Longrightarrow> int (card (used s)) < slots s \<Longrightarrow> ready s \<noteq> - 1"
proof
  assume fin: "finite (used s)" and c: "int (card (used s)) < slots s" and r: "ready s = - 1"
  have "{0..<slots s} \<subseteq> used s" using ready_full [OF r] by auto
  from card_mono [OF fin this] c show False by simp
qed

end

definition used_bp_regs :: "'k dbg \<Rightarrow> int set" where
  "used_bp_regs d = (hw_bp_reg \<circ> snd) ` set (filter (bp_hw \<circ> snd) (breakpoints d))"

text \<open>Searching a map of used registers from 0 up keeps these promises.\<close>

lemma first_free_slot:
  assumes ready: "\<And>s. ready s = (case find (\<lambda>i. m s (int i) \<noteq> 0) [0..<nat (slots s)] of None \<Rightarrow> - 1 | Some i \<Rightarrow> int i)"
    and m: "\<And>s (i :: int). m s i = (0 :: int) \<longleftrightarrow> i \<in> used s"
  shows "slot_finder ready used slots"
proof
  fix s :: 'a and i :: int
  let ?P = "\<lambda>i. m s (int i) \<noteq> 0"
  show "0 \<le> ready s \<and> ready s < slots s \<and> ready s \<notin> used s" if "ready s \<noteq> - 1"
    using that by (auto simp: ready m [symmetric] find_Some_iff split: option.splits)
  show "i \<in> used s" if "ready s = - 1" "0 \<le> i" "i < slots s"
  proof -
    have "find ?P [0..<nat (slots s)] = None"
      using that(1) by (auto simp: ready split: option.splits)
    moreover have "nat i < nat (slots s)" using that(2,3) by linarith
    ultimately have "m s (int (nat i)) = 0" by (auto simp: find_None_iff simp del: int_nat_eq)
    with that(2) show ?thesis by (simp add: m)
  qed
  show "i \<in> used s" if r: "ready s \<noteq> - 1" and i: "0 \<le> i" "i < ready s"
  proof -
    from r obtain j where j: "find ?P [0..<nat (slots s)] = Some j" "ready s = int j"
      by (auto simp: ready split: option.splits)
    from j(1) have "\<forall>l < j. \<not> ?P l" by (auto simp: find_Some_iff)
    moreover have "nat i < j" using i j(2) by linarith
    ultimately have "m s (int (nat i)) = 0" by blast
    with i show ?thesis by (simp add: m)
  qed
qed

interpretation bp_slots: slot_finder find_ready_bp_reg used_bp_regs num_hw_bps
  by (rule first_free_slot [of _ bp_map]) (simp_all add: find_ready_bp_reg_def bp_map_used used_bp_regs_def)

text \<open>The invariant depends on five fields; adding, deleting and changing breakpoints keeps it.\<close>

lemma bps_ok_fields:
  assumes "bps_ok d" "breakpoints d' = breakpoints d" "fresh d' = fresh d"
    "num_breakpoints d' = num_breakpoints d" "num_hw_bps d' = num_hw_bps d"
    "current_breakpoint_id d' = current_breakpoint_id d"
  shows "bps_ok d'"
  using assms by (simp add: bps_ok_def)

lemma bps_ok_same: "bps_ok d \<Longrightarrow> same_debugger d d' \<Longrightarrow> bps_ok d'"
  by (rule bps_ok_fields [of d]) (simp_all add: same_debuggerD)

lemma bps_ok_add:
  assumes ok: "bps_ok d" and bp: "bp_id bp = current_breakpoint_id d"
      "bp_hw bp = (find_ready_bp_reg d \<noteq> - 1)" "hw_bp_reg bp = find_ready_bp_reg d"
    and d': "breakpoints d' = breakpoints d @ [(fresh d, bp)]" "fresh d' = fresh d + 1"
      "num_breakpoints d' = num_breakpoints d + 1" "num_hw_bps d' = num_hw_bps d"
      "current_breakpoint_id d' = current_breakpoint_id d + (if bp_temporary bp then 0 else 1)"
  shows "bps_ok d'"
proof -
  let ?regs = "map (hw_bp_reg \<circ> snd) (filter (bp_hw \<circ> snd) (breakpoints d))"
  have regs: "distinct ?regs" "set ?regs = used_bp_regs d"
    using ok by (simp_all add: bps_ok_def used_bp_regs_def)
  have "distinct (map (hw_bp_reg \<circ> snd) (filter (bp_hw \<circ> snd) (breakpoints d')))"
    using bp_slots.claim_distinct [OF regs] bp regs(1) d'(1) by (cases "bp_hw bp") simp_all
  moreover have "bp_reg_ok (num_hw_bps d) bp"
    using bp bp_slots.ready_free [of d] by (auto simp: bp_reg_ok_def)
  moreover have "distinct (map (bp_id \<circ> snd) (filter (Not \<circ> bp_temporary \<circ> snd) (breakpoints d')))"
    using ok bp d'(1) by (force simp: bps_ok_def)
  ultimately show ?thesis using ok bp d' unfolding bps_ok_def by (auto simp: less_Suc_eq)
qed

lemma bps_ok_upd:
  assumes "bps_ok d" "\<And>b. bp_hw (f b) = bp_hw b \<and> hw_bp_reg (f b) = hw_bp_reg b \<and>
      bp_temporary (f b) = bp_temporary b \<and> bp_id (f b) = bp_id b"
  shows "bps_ok (upd_bp a f d)"
proof -
  have m: "map (hw_bp_reg \<circ> snd) (filter (bp_hw \<circ> snd) (pl_update a f bs)) = map (hw_bp_reg \<circ> snd) (filter (bp_hw \<circ> snd) bs)"
    "map (bp_id \<circ> snd) (filter (Not \<circ> bp_temporary \<circ> snd) (pl_update a f bs))
      = map (bp_id \<circ> snd) (filter (Not \<circ> bp_temporary \<circ> snd) bs)"
    "length (pl_update a f bs) = length bs" for bs
    by (induction bs) (auto simp: assms(2))
  let ?bs = "pl_update a f (breakpoints d)"
  have key: "\<exists>x. (fst c, x) \<in> set (breakpoints d) \<and> bp_hw (snd c) = bp_hw x \<and> hw_bp_reg (snd c) = hw_bp_reg x \<and>
      bp_temporary (snd c) = bp_temporary x \<and> bp_id (snd c) = bp_id x" if "c \<in> set ?bs" for c
  proof -
    obtain b y where c: "c = (b, y)" by (cases c)
    with that obtain x where "(b, x) \<in> set (breakpoints d)" "y = (if b = a then f x else x)"
      by (auto simp: pl_update_mem)
    with c assms(2) show ?thesis by (intro exI [of _ x]) simp
  qed
  have "\<forall>c \<in> set ?bs. fst c < fresh d"
  proof
    fix c assume "c \<in> set ?bs"
    from key [OF this] assms(1) show "fst c < fresh d" unfolding bps_ok_def by (metis fst_conv)
  qed
  moreover have "\<forall>c \<in> set ?bs. bp_reg_ok (num_hw_bps d) (snd c)"
  proof
    fix c assume "c \<in> set ?bs"
    from key [OF this] obtain x where x: "(fst c, x) \<in> set (breakpoints d)" "bp_hw (snd c) = bp_hw x"
      "hw_bp_reg (snd c) = hw_bp_reg x" by blast
    from assms(1) x(1) have "bp_reg_ok (num_hw_bps d) x" by (auto simp: bps_ok_def)
    with x(2,3) show "bp_reg_ok (num_hw_bps d) (snd c)" by (simp add: bp_reg_ok_def)
  qed
  moreover have "\<forall>c \<in> set ?bs. \<not> bp_temporary (snd c) \<longrightarrow> bp_id (snd c) < current_breakpoint_id d"
  proof
    fix c assume "c \<in> set ?bs"
    from key [OF this] assms(1) show "\<not> bp_temporary (snd c) \<longrightarrow> bp_id (snd c) < current_breakpoint_id d"
      unfolding bps_ok_def by (metis snd_conv)
  qed
  ultimately show ?thesis
    using assms(1) unfolding bps_ok_def upd_bp_def by (simp add: m)
qed

lemma pl_delete_subset: "set (pl_delete a xs) \<subseteq> set xs"
  by (induction xs) auto

lemma distinct_map_filter_delete:
  "distinct (map f (filter P xs)) \<Longrightarrow> distinct (map f (filter P (pl_delete a xs)))"
  by (induction xs) (use pl_delete_subset in \<open>fastforce split: if_splits\<close>)+

lemma length_pl_delete: "a \<in> fst ` set xs \<Longrightarrow> Suc (length (pl_delete a xs)) = length xs"
  by (induction xs) auto

lemma bps_ok_delete:
  assumes "bps_ok d" "a \<in> fst ` set (breakpoints d)"
  shows "bps_ok (d\<lparr>breakpoints := pl_delete a (breakpoints d), num_breakpoints := num_breakpoints d - 1\<rparr>)"
proof -
  have "int (length (pl_delete a (breakpoints d))) = int (length (breakpoints d)) - 1"
    using length_pl_delete [OF assms(2)] by linarith
  with assms(1) show ?thesis
    using pl_delete_subset [of a "breakpoints d"] unfolding bps_ok_def
    by (simp add: pl_delete_distinct distinct_map_filter_delete) blast
qed

section \<open>Every operation returns and keeps the invariant\<close>

lemma breakpoint_new_returns:
  assumes K: "kernel_ok M" and T: "thr_ok (threads d)" and B: "bps_ok d"
  obtains (nothread) out' e' where "breakpoint_new M loc tmp th d out e = Inr (None, d, out', e')"
      "new_threadinfo th d = None"
  | (new) bp d' out' e' where "breakpoint_new M loc tmp th d out e = Inr (Some bp, d', out', e')"
      "same_debugger (d\<lparr>current_breakpoint_id := current_breakpoint_id d + (if tmp then 0 else 1)\<rparr>) d'"
      "thr_ok (threads d')" "bp_id bp = current_breakpoint_id d" "bp_location bp = loc"
      "bp_temporary bp = tmp" "bp_hw bp = (find_ready_bp_reg d \<noteq> - 1)" "hw_bp_reg bp = find_ready_bp_reg d"
      "\<not> bp_disabled bp" "new_threadinfo th d = Some (bp_threadinfo bp)"
proof (cases "new_threadinfo th d")
  case None
  then show ?thesis by (intro nothread) (simp_all add: breakpoint_new_def)
next
  case (Some ti)
  define reg where "reg = find_ready_bp_reg d"
  define bp where "bp = \<lparr>bp_id = current_breakpoint_id d, bp_location = loc, old_instruction = 0,
      bp_hit_count = 0, bp_disabled = False, bp_temporary = tmp, bp_hw = (reg \<noteq> - 1),
      hw_bp_reg = reg, for_stepping = False, bp_threadinfo = ti,
      bp_bcr = (if reg \<noteq> - 1 then bcr_value else 0), bp_bvr = (if reg \<noteq> - 1 then loc AND NOT 3 else 0)\<rparr>"
  have "\<exists>d1. (if reg \<noteq> - 1 then program_threads M (put_bp_regs bp) ti d else Inr d) = Inr d1 \<and>
      same_debugger d d1 \<and> thr_ok (threads d1)"
  proof (cases "reg = - 1")
    case False
    with bp_slots.ready_free [of d] B have "0 \<le> hw_bp_reg bp" "hw_bp_reg bp < 16"
      by (auto simp: bp_def reg_def bps_ok_def)
    from program_threads_ok [OF K T reg_change_put_bp [OF this]] False show ?thesis by simp
  qed (use T in auto)
  then obtain d1 where d1: "(if reg \<noteq> - 1 then program_threads M (put_bp_regs bp) ti d else Inr d) = Inr d1"
    "same_debugger d d1" "thr_ok (threads d1)" by blast
  define d2 where "d2 = (if tmp then d1 else d1\<lparr>current_breakpoint_id := current_breakpoint_id d1 + 1\<rparr>)"
  have cur: "current_breakpoint_id d1 = current_breakpoint_id d" using d1(2) by (rule same_debuggerD)
  have sd: "same_debugger (d\<lparr>current_breakpoint_id := current_breakpoint_id d + (if tmp then 0 else 1)\<rparr>) d2"
    using d1(2) cur unfolding same_debugger_def d2_def by (cases d; cases d1) auto
  have thr: "thr_ok (threads d2)" using d1(3) by (simp add: d2_def)
  have body: "breakpoint_new M loc tmp th d out e =
      (case find_bp_with_address loc d2 of
         None \<Rightarrow> bind_run (read_memory_at_location M (kern d2) loc 4) (\<lambda>(err, bs).
            if err \<noteq> KERN_SUCCESS
            then Inr (None, d2, out, say e (''could not set breakpoint: could not read memory at '' @ show_hex loc))
            else Inr (Some (bp\<lparr>old_instruction := orig_instruction bs\<rparr>), d2, out, e))
       | Some (_, dup) \<Rightarrow>
           Inr (Some (bp\<lparr>old_instruction := old_instruction dup\<rparr>), d2,
                (if for_stepping dup then out else say out (dup_warning dup bp)), e))"
    unfolding breakpoint_new_def Let_def Some option.case reg_def [symmetric] bp_def [symmetric] d1(1)
      bind_run.simps d2_def [symmetric] ..
  show ?thesis
  proof (cases "find_bp_with_address loc d2")
    case None
    obtain bs where "read_memory_at_location M (kern d2) loc 4 = Inr (KERN_SUCCESS, bs)"
      using read_memory_returns [OF K] by blast
    with None body have "breakpoint_new M loc tmp th d out e
        = Inr (Some (bp\<lparr>old_instruction := orig_instruction bs\<rparr>), d2, out, e)" by simp
    from new [OF this sd thr] Some show ?thesis by (simp add: bp_def reg_def)
  next
    case (Some c)
    obtain a dup where "c = (a, dup)" by (cases c)
    with Some body have "breakpoint_new M loc tmp th d out e
        = Inr (Some (bp\<lparr>old_instruction := old_instruction dup\<rparr>), d2,
               (if for_stepping dup then out else say out (dup_warning dup bp)), e)" by simp
    from new [OF this sd thr] \<open>new_threadinfo th d = Some ti\<close> show ?thesis by (simp add: bp_def reg_def)
  qed
qed

text \<open>What setting a breakpoint, for the user or for a step, does to the list.\<close>

definition added_bp :: "'k dbg \<Rightarrow> u64 \<Rightarrow> bool \<Rightarrow> bool \<Rightarrow> 'k dbg \<Rightarrow> bool" where
  "added_bp d loc tmp stepping d' \<longleftrightarrow> (\<exists>bp. breakpoints d' = breakpoints d @ [(fresh d, bp)] \<and>
     bp_id bp = current_breakpoint_id d \<and> bp_location bp = loc \<and> bp_temporary bp = tmp \<and>
     for_stepping bp = stepping \<and> \<not> bp_disabled bp \<and> bp_hw bp = (find_ready_bp_reg d \<noteq> - 1))"

lemma add_breakpoint:
  assumes B: "bps_ok d" and W: "wps_ok d" and T: "thr_ok (threads d')" and bp: "bp_id bp = current_breakpoint_id d" "bp_location bp = loc"
      "bp_temporary bp = tmp" "bp_hw bp = (find_ready_bp_reg d \<noteq> - 1)" "hw_bp_reg bp = find_ready_bp_reg d"
      "\<not> bp_disabled bp"
    and sd: "same_debugger (d\<lparr>current_breakpoint_id := current_breakpoint_id d + (if tmp then 0 else 1)\<rparr>) d'"
  shows "\<exists>d''. bind_run (if \<not> bp_hw bp then poke M (bp_location bp) BRK 4 (append_bp (bp\<lparr>for_stepping := s\<rparr>) d')
            else Inr (append_bp (bp\<lparr>for_stepping := s\<rparr>) d'))
        (\<lambda>d3. Inr (d3\<lparr>num_breakpoints := num_breakpoints d3 + 1\<rparr>)) = Inr d'' \<and>
      dbg_inv d'' \<and> added_bp d loc tmp s d''"
proof -
  let ?d = "append_bp (bp\<lparr>for_stepping := s\<rparr>) d'"
  obtain k where k: "(if \<not> bp_hw bp then poke M (bp_location bp) BRK 4 ?d else Inr ?d) = Inr (?d\<lparr>kern := k\<rparr>)"
    using poke_returns [of 4 M "bp_location bp" BRK ?d] by (cases "bp_hw bp") (auto intro: that [of "kern d'"] simp: append_bp_def)
  let ?d2 = "?d\<lparr>kern := k, num_breakpoints := num_breakpoints ?d + 1\<rparr>"
  note f = same_debuggerD [OF sd]
  have "bps_ok ?d2"
    by (rule bps_ok_add [OF B, of "bp\<lparr>for_stepping := s\<rparr>"])
       (use bp f in \<open>simp_all add: append_bp_def pl_add_def\<close>)
  moreover have "wps_ok ?d2"
    by (rule wps_ok_fields [OF W]) (use f in \<open>simp_all add: append_bp_def\<close>)
  moreover have "added_bp d loc tmp s ?d2"
    using bp f by (auto simp: added_bp_def append_bp_def pl_add_def)
  moreover have "thr_ok (threads ?d2)" using T by (simp add: append_bp_def)
  ultimately show ?thesis using k by (auto simp: dbg_inv_def)
qed

lemma breakpoint_at_address_ok:
  assumes K: "kernel_ok M" and I: "dbg_inv d"
  shows "\<exists>d' out' e'. breakpoint_at_address M loc tmp th d out e = Inr (d', out', e') \<and> dbg_inv d' \<and>
    (if new_threadinfo th d = None then d' = d else added_bp d loc tmp False d')"
proof -
  have B: "bps_ok d" and W: "wps_ok d" and T: "thr_ok (threads d)" using I by (simp_all add: dbg_inv_def)
  show ?thesis
  proof (cases rule: breakpoint_new_returns [OF K T B, of loc tmp th out e])
    case (1 out' e')
    then show ?thesis using I by (simp add: breakpoint_at_address_def)
  next
    case (2 bp d1 out' e')
    from add_breakpoint [OF B W 2(3) 2(4-9) 2(2), of M False] obtain d3 where
      d3: "(if \<not> bp_hw bp then poke M (bp_location bp) BRK 4 (append_bp (bp\<lparr>for_stepping := False\<rparr>) d1)
            else Inr (append_bp (bp\<lparr>for_stepping := False\<rparr>) d1)) = Inr d3"
        "dbg_inv (d3\<lparr>num_breakpoints := num_breakpoints d3 + 1\<rparr>)"
        "added_bp d loc tmp False (d3\<lparr>num_breakpoints := num_breakpoints d3 + 1\<rparr>)"
      unfolding bind_run_Inr by auto
    show ?thesis
      unfolding breakpoint_at_address_def 2(1) bind_run.simps prod.case option.case Let_def d3(1)
      using d3(2,3) 2(10) by simp
  qed
qed

lemma set_stepping_breakpoint_ok:
  assumes K: "kernel_ok M" and I: "dbg_inv d"
  shows "\<exists>d'. set_stepping_breakpoint M loc th d = Inr d' \<and> dbg_inv d' \<and>
    (if new_threadinfo th d = None then d' = d else added_bp d loc True True d')"
proof -
  have B: "bps_ok d" and W: "wps_ok d" and T: "thr_ok (threads d)" using I by (simp_all add: dbg_inv_def)
  show ?thesis
  proof (cases rule: breakpoint_new_returns [OF K T B, of loc True th None None])
    case (1 out' e')
    then show ?thesis using I by (simp add: set_stepping_breakpoint_def)
  next
    case (2 bp d1 out' e')
    from add_breakpoint [OF B W 2(3) 2(4-9) 2(2), of M True] obtain d3 where
      d3: "(if \<not> bp_hw bp then poke M (bp_location bp) BRK 4 (append_bp (bp\<lparr>for_stepping := True\<rparr>) d1)
            else Inr (append_bp (bp\<lparr>for_stepping := True\<rparr>) d1)) = Inr d3"
        "dbg_inv (d3\<lparr>num_breakpoints := num_breakpoints d3 + 1\<rparr>)"
        "added_bp d loc True True (d3\<lparr>num_breakpoints := num_breakpoints d3 + 1\<rparr>)"
      unfolding bind_run_Inr by auto
    show ?thesis
      unfolding set_stepping_breakpoint_def 2(1) bind_run.simps prod.case option.case Let_def d3(1)
      using d3(2,3) 2(10) by simp
  qed
qed

lemma bp_set_state_ok:
  assumes K: "kernel_ok M" and I: "dbg_inv d" and a: "a \<in> fst ` set (breakpoints d)"
  shows "\<exists>d'. bp_set_state_internal M a x d = Inr d' \<and> dbg_inv d' \<and>
    breakpoints d' = pl_update a (\<lambda>b. b\<lparr>bp_disabled := x\<rparr>) (breakpoints d)"
proof -
  have B: "bps_ok d" and W: "wps_ok d" and T: "thr_ok (threads d)" using I by (simp_all add: dbg_inv_def)
  from a obtain bp where m: "(a, bp) \<in> set (breakpoints d)" by auto
  with B have g: "pl_get (breakpoints d) a = Some bp" by (simp add: pl_get_mem bps_ok_def)
  from m B have r: "bp_reg_ok (num_hw_bps d) bp" "num_hw_bps d \<le> 16" by (auto simp: bps_ok_def)
  have "\<exists>d1. (if bp_hw bp then (if x then disable_hw_bp M bp d else enable_hw_bp M bp d)
      else (if x then poke M (bp_location bp) (old_instruction bp) 4 d else poke M (bp_location bp) BRK 4 d))
      = Inr d1 \<and> same_debugger d d1 \<and> thr_ok (threads d1)"
  proof (cases "bp_hw bp")
    case True
    with r have reg: "0 \<le> hw_bp_reg bp" "hw_bp_reg bp < 16" by (auto simp: bp_reg_ok_def)
    show ?thesis using True program_threads_ok [OF K T reg_change_put_bp [OF reg]]
        program_threads_ok [OF K T reg_change_clear [OF reg]]
      by (simp add: enable_hw_bp_def disable_hw_bp_def)
  next
    case False
    have "\<exists>k. poke M (bp_location bp) v 4 d = Inr (d\<lparr>kern := k\<rparr>)" for v by (rule poke_returns) simp
    with False T show ?thesis by (cases x) (fastforce simp: same_debugger_def)+
  qed
  then obtain d1 where d1: "(if bp_hw bp then (if x then disable_hw_bp M bp d else enable_hw_bp M bp d)
      else (if x then poke M (bp_location bp) (old_instruction bp) 4 d else poke M (bp_location bp) BRK 4 d))
      = Inr d1" "same_debugger d d1" "thr_ok (threads d1)" by blast
  let ?d = "upd_bp a (\<lambda>b. b\<lparr>bp_disabled := x\<rparr>) d1"
  have "bp_set_state_internal M a x d = Inr ?d"
    unfolding bp_set_state_internal_def g option.case d1(1) bind_run.simps ..
  moreover have "bps_ok ?d" by (rule bps_ok_upd [OF bps_ok_same [OF B d1(2)]]) simp
  moreover have "wps_ok ?d" by (rule wps_ok_fields [OF wps_ok_same [OF W d1(2)]]) (simp_all add: upd_bp_def)
  ultimately show ?thesis using d1(3) same_debuggerD(1) [OF d1(2)] by (simp add: dbg_inv_def upd_bp_def)
qed

end
