(* ===== verification/BreakOps.thy ===== *)
theory BreakOps
  imports Breakpoints
begin

text \<open>
  What the operations of \<^verbatim>\<open>source/breakpoint.c\<close> do to the list of breakpoints and to the memory of the
  target: every sequence of them returns and keeps the invariant, the loops do to each breakpoint
  selected what the single operation does, and a software breakpoint is in memory as long as it is set.
\<close>

section \<open>The loops\<close>

text \<open>A change of one element of a list, or of those selected: \<open>None\<close> deletes it.\<close>

primrec touch_all :: "nat set \<Rightarrow> ('a \<Rightarrow> bool) \<Rightarrow> ('a \<Rightarrow> 'a option) \<Rightarrow> 'a plist \<Rightarrow> 'a plist" where
  "touch_all as P h [] = []"
| "touch_all as P h (c # xs) = (if fst c \<in> as \<and> P (snd c)
     then (case h (snd c) of None \<Rightarrow> touch_all as P h xs | Some y \<Rightarrow> (fst c, y) # touch_all as P h xs)
     else c # touch_all as P h xs)"

lemma touch_all_other: "as \<inter> fst ` set xs = {} \<Longrightarrow> touch_all as P h xs = xs"
  by (induction xs) auto

lemma touch_all_update:
  "distinct (map fst xs) \<Longrightarrow> touch_all {a} (\<lambda>_. True) (\<lambda>x. Some (f x)) xs = pl_update a f xs"
  by (induction xs) auto

lemma touch_all_delete: "distinct (map fst xs) \<Longrightarrow> touch_all {a} (\<lambda>_. True) (\<lambda>_. None) xs = pl_delete a xs"
proof (induction xs)
  case (Cons c xs)
  then show ?case using touch_all_other [of "{a}" xs] by (auto simp: image_iff)
qed simp

lemma touch_all_keys: "fst ` set (touch_all as P h xs) \<subseteq> fst ` set xs"
  by (induction xs) (auto split: option.splits)

lemma touch_all_kept: "b \<notin> as \<Longrightarrow> (b, x) \<in> set (touch_all as P h xs) \<longleftrightarrow> (b, x) \<in> set xs"
  by (induction xs) (auto split: option.splits)

lemma touch_all_step:
  assumes "distinct (map fst xs)" "a \<notin> as" "(a, x) \<in> set xs"
  shows "touch_all (insert a as) P h xs =
    touch_all as P h (if P x then touch_all {a} (\<lambda>_. True) h xs else xs)"
  using assms
proof (induction xs)
  case (Cons c xs)
  show ?case
  proof (cases "fst c = a")
    case True
    with Cons.prems have c: "c = (a, x)" "a \<notin> fst ` set xs" by (auto simp: image_iff)
    have o: "touch_all {a} (\<lambda>_. True) h xs = xs" "touch_all (insert a as) P h xs = touch_all as P h xs"
      using c(2) by (auto simp: touch_all_other) (induction xs, auto split: option.splits)
    show ?thesis using c(1) Cons.prems(2) by (simp add: o split: option.split)
  next
    case False
    with Cons show ?thesis by (auto split: option.splits)
  qed
qed simp

text \<open>The body, where it is run, must return, keep the invariant and do \<open>h\<close> to its breakpoint.\<close>

lemma each_bp_touches:
  assumes f: "\<And>a d. dbg_inv d \<Longrightarrow> a \<in> fst ` set (breakpoints d) \<Longrightarrow>
      \<exists>d'. f a d = Inr d' \<and> dbg_inv d' \<and> breakpoints d' = touch_all {a} (\<lambda>_. True) h (breakpoints d)"
    and I: "dbg_inv d"
  shows "\<exists>d'. each_bp P f d = Inr d' \<and> dbg_inv d' \<and>
    breakpoints d' = touch_all (fst ` set (breakpoints d)) P h (breakpoints d)"
proof -
  let ?body = "\<lambda>a d. case pl_get (breakpoints d) a of None \<Rightarrow> Inl UseAfterFree
      | Some b \<Rightarrow> if P b then f a d else Inr d"
  have "\<exists>d'. run_list ?body as d = Inr d' \<and> dbg_inv d' \<and>
      breakpoints d' = touch_all (set as) P h (breakpoints d)"
    if "distinct as" "set as \<subseteq> fst ` set (breakpoints d)" "dbg_inv d" for as d
    using that
  proof (induction as arbitrary: d)
    case Nil
    then show ?case by (simp add: touch_all_other)
  next
    case (Cons a as)
    then obtain x where x: "(a, x) \<in> set (breakpoints d)" by auto
    have dist: "distinct (map fst (breakpoints d))" using Cons.prems by (simp add: dbg_inv_def bps_ok_def)
    with x have g: "pl_get (breakpoints d) a = Some x" by (simp add: pl_get_mem)
    have "\<exists>d1. ?body a d = Inr d1 \<and> dbg_inv d1 \<and>
        breakpoints d1 = (if P x then touch_all {a} (\<lambda>_. True) h (breakpoints d) else breakpoints d)"
      using f [of d a] Cons.prems g by auto
    then obtain d1 where d1: "?body a d = Inr d1" "dbg_inv d1"
      "breakpoints d1 = (if P x then touch_all {a} (\<lambda>_. True) h (breakpoints d) else breakpoints d)" by blast
    have "set as \<subseteq> fst ` set (breakpoints d1)"
    proof
      fix b assume "b \<in> set as"
      with Cons.prems have "b \<in> fst ` set (breakpoints d)" "b \<noteq> a" by auto
      then obtain y where "(b, y) \<in> set (breakpoints d)" "b \<noteq> a" by (auto simp: image_iff)
      then have "(b, y) \<in> set (breakpoints d1)" by (simp add: d1(3) touch_all_kept)
      then show "b \<in> fst ` set (breakpoints d1)" by force
    qed
    with Cons.IH [of d1] Cons.prems d1(2) obtain d2 where
      d2: "run_list ?body as d1 = Inr d2" "dbg_inv d2" "breakpoints d2 = touch_all (set as) P h (breakpoints d1)" by auto
    moreover have "touch_all (set as) P h (breakpoints d1) = touch_all (set (a # as)) P h (breakpoints d)"
      using touch_all_step [OF dist _ x, of "set as" P h] Cons.prems d1(3) by simp
    ultimately show ?case using d1(1) by simp
  qed
  from this [of "map fst (breakpoints d)" d] I show ?thesis
    by (simp add: each_bp_def dbg_inv_def bps_ok_def)
qed

lemma touch_all_keep: "touch_all (fst ` set xs) P (\<lambda>_. None) xs = filter (\<lambda>c. \<not> P (snd c)) xs"
proof -
  have "touch_all as P (\<lambda>_. None) ys = filter (\<lambda>c. \<not> P (snd c)) ys" if "fst ` set ys \<subseteq> as" for as ys
    using that by (induction ys) auto
  then show ?thesis by simp
qed

lemma touch_all_map:
  "touch_all (fst ` set xs) P (\<lambda>x. Some (f x)) xs = map (\<lambda>(a, x). (a, if P x then f x else x)) xs"
proof -
  have "touch_all as P (\<lambda>x. Some (f x)) ys = map (\<lambda>(a, x). (a, if P x then f x else x)) ys"
    if "fst ` set ys \<subseteq> as" for as ys
    using that by (induction ys) auto
  then show ?thesis by simp
qed

section \<open>Deleting, hitting and switching\<close>

lemma pl_delete_update:
  "distinct (map fst xs) \<Longrightarrow> pl_delete a (pl_update a f xs) = pl_delete a xs"
proof (induction xs)
  case (Cons c xs)
  have id: "pl_update a f xs = xs" if "a \<notin> fst ` set xs" using that by (induction xs) auto
  show ?case
  proof (cases "fst c = a")
    case True
    with Cons.prems have "a \<notin> fst ` set xs" by auto
    with True id show ?thesis by (cases c) simp
  next
    case False
    with Cons show ?thesis by (cases c) simp
  qed
qed simp

lemma bp_delete_ok:
  assumes "kernel_ok M" "dbg_inv d" "a \<in> fst ` set (breakpoints d)"
  shows "\<exists>d'. bp_delete_internal M a d = Inr d' \<and> dbg_inv d' \<and> breakpoints d' = pl_delete a (breakpoints d)"
proof -
  obtain d1 where d1: "bp_set_state_internal M a True d = Inr d1" "dbg_inv d1"
    "breakpoints d1 = pl_update a (\<lambda>b. b\<lparr>bp_disabled := True\<rparr>) (breakpoints d)"
    using bp_set_state_ok [OF assms] by blast
  have "a \<in> fst ` set (breakpoints d1)" using assms(3) d1(3) by (metis list.set_map pl_update_pointers)
  with bps_ok_delete [of d1 a] d1(2)
  have "dbg_inv (d1\<lparr>breakpoints := pl_delete a (breakpoints d1), num_breakpoints := num_breakpoints d1 - 1\<rparr>)"
    by (simp add: dbg_inv_def)
  moreover have "pl_delete a (breakpoints d1) = pl_delete a (breakpoints d)"
    using assms(2) by (simp only: d1(3) dbg_inv_def bps_ok_def pl_delete_update)
  ultimately show ?thesis by (simp add: bp_delete_internal_def d1(1))
qed

text \<open>The two bodies of the loops.\<close>

lemma set_state_touches:
  assumes "kernel_ok M" "dbg_inv d" "a \<in> fst ` set (breakpoints d)"
  shows "\<exists>d'. bp_set_state_internal M a x d = Inr d' \<and> dbg_inv d' \<and>
    breakpoints d' = touch_all {a} (\<lambda>_. True) (\<lambda>b. Some (b\<lparr>bp_disabled := x\<rparr>)) (breakpoints d)"
  using bp_set_state_ok [OF assms] assms(2) by (simp add: touch_all_update dbg_inv_def bps_ok_def)

lemma delete_touches:
  assumes "kernel_ok M" "dbg_inv d" "a \<in> fst ` set (breakpoints d)"
  shows "\<exists>d'. bp_delete_internal M a d = Inr d' \<and> dbg_inv d' \<and>
    breakpoints d' = touch_all {a} (\<lambda>_. True) (\<lambda>_. None) (breakpoints d)"
  using bp_delete_ok [OF assms] assms(2) by (simp add: touch_all_delete dbg_inv_def bps_ok_def)

lemma each_set_state:
  assumes "kernel_ok M" "dbg_inv d"
  shows "\<exists>d'. each_bp P (\<lambda>a. bp_set_state_internal M a x) d = Inr d' \<and> dbg_inv d' \<and> breakpoints d' =
    map (\<lambda>(a, b). (a, if P b then b\<lparr>bp_disabled := x\<rparr> else b)) (breakpoints d)"
  using each_bp_touches [OF set_state_touches [OF assms(1)] assms(2), of P x] by (simp add: touch_all_map)

lemma each_delete:
  assumes "kernel_ok M" "dbg_inv d"
  shows "\<exists>d'. each_bp P (bp_delete_internal M) d = Inr d' \<and> dbg_inv d' \<and>
    breakpoints d' = filter (\<lambda>c. \<not> P (snd c)) (breakpoints d)"
  using each_bp_touches [OF delete_touches [OF assms(1)] assms(2), of P] by (simp add: touch_all_keep)

lemma delete_all_ok:
  assumes "kernel_ok M" "dbg_inv d"
  shows "\<exists>d'. breakpoint_delete_all M d = Inr d' \<and> dbg_inv d' \<and> breakpoints d' = []"
  using each_delete [OF assms, of "\<lambda>_. True"] by (simp add: breakpoint_delete_all_def)

lemma delete_all_specific_ok:
  assumes "kernel_ok M" "dbg_inv d"
  shows "\<exists>d'. breakpoint_delete_all_specific M way d = Inr d' \<and> dbg_inv d' \<and>
    breakpoints d' = filter (\<lambda>c. \<not> way_selects way (snd c)) (breakpoints d)"
proof -
  have "breakpoint_delete_specific M (Some a) = bp_delete_internal M a" for a
    by (rule ext) (simp add: breakpoint_delete_specific_def)
  with each_delete [OF assms, of "way_selects way"] show ?thesis by (simp add: breakpoint_delete_all_specific_def)
qed

lemma bp_with_id_mem: "bp_with_id i d = Some a \<Longrightarrow> \<exists>b. (a, b) \<in> set (breakpoints d) \<and> bp_id b = i"
  by (auto simp: bp_with_id_def dest: pl_find_Some)

lemma breakpoint_hit_ok:
  assumes "kernel_ok M" "dbg_inv d" "\<And>a. bp = Some a \<Longrightarrow> a \<in> fst ` set (breakpoints d)"
  shows "\<exists>d'. breakpoint_hit M bp d = Inr d' \<and> dbg_inv d'"
proof (cases bp)
  case None
  with assms(2) show ?thesis by (simp add: breakpoint_hit_def)
next
  case (Some a)
  with assms(3) obtain b where b: "(a, b) \<in> set (breakpoints d)" by auto
  with assms(2) have g: "pl_get (breakpoints d) a = Some b" by (simp add: pl_get_mem dbg_inv_def bps_ok_def)
  have "dbg_inv (upd_bp a (\<lambda>b. b\<lparr>bp_hit_count := bp_hit_count b + 1\<rparr>) d)"
    using assms(2) bps_ok_upd [of d "\<lambda>b. b\<lparr>bp_hit_count := bp_hit_count b + 1\<rparr>" a]
    by (simp add: dbg_inv_def upd_bp_def)
  with g Some bp_delete_ok [OF assms(1,2), of a] assms(3) show ?thesis
    by (auto simp: breakpoint_hit_def breakpoint_delete_specific_def)
qed

section \<open>Sequences of operations\<close>

text \<open>What the commands and the exception handler ask for. A hit names the address of the trap.\<close>

datatype bp_op =
    SetBp u64 bool int
  | SetStepping u64 int
  | DeleteBp int
  | EnableBp int
  | DisableBp int
  | HitBp u64
  | DeleteAll
  | EnableAll
  | DisableAll
  | DeleteAllOf bp_cond
  | EnableAllOf bp_cond
  | DisableAllExcept bp_cond

definition bp_step :: "'k mach \<Rightarrow> bp_op \<Rightarrow> 'k dbg \<Rightarrow> 'k dbg run" where
  "bp_step M x d =
     (case x of
        SetBp loc tmp th \<Rightarrow> bind_run (breakpoint_at_address M loc tmp th d None None) (\<lambda>(d1, _). Inr d1)
      | SetStepping loc th \<Rightarrow> set_stepping_breakpoint M loc th d
      | DeleteBp i \<Rightarrow> bind_run (breakpoint_delete M i d None) (\<lambda>(d1, _). Inr d1)
      | EnableBp i \<Rightarrow> bind_run (breakpoint_enable M i d None) (\<lambda>(d1, _). Inr d1)
      | DisableBp i \<Rightarrow> bind_run (breakpoint_disable M i d None) (\<lambda>(d1, _). Inr d1)
      | HitBp loc \<Rightarrow> breakpoint_hit M (map_option fst (find_bp_with_address loc d)) d
      | DeleteAll \<Rightarrow> breakpoint_delete_all M d
      | EnableAll \<Rightarrow> breakpoint_enable_all M d
      | DisableAll \<Rightarrow> breakpoint_disable_all M d
      | DeleteAllOf w \<Rightarrow> breakpoint_delete_all_specific M w d
      | EnableAllOf w \<Rightarrow> breakpoint_enable_all_specific M w d
      | DisableAllExcept w \<Rightarrow> breakpoint_disable_all_except M w d)"

lemma by_id_ok:
  assumes "kernel_ok M" "dbg_inv d"
  shows "\<exists>d'. breakpoint_delete M i d e = Inr d' \<and> dbg_inv (fst d')"
    and "\<exists>d'. breakpoint_enable M i d e = Inr d' \<and> dbg_inv (fst d')"
    and "\<exists>d'. breakpoint_disable M i d e = Inr d' \<and> dbg_inv (fst d')"
proof -
  have m: "a \<in> fst ` set (breakpoints d)" if "bp_with_id i d = Some a" for a
    using bp_with_id_mem [OF that] by force
  show "\<exists>d'. breakpoint_delete M i d e = Inr d' \<and> dbg_inv (fst d')"
    using bp_delete_ok [OF assms m] assms(2)
    by (cases "bp_with_id i d") (fastforce simp: breakpoint_delete_def)+
  show "\<exists>d'. breakpoint_enable M i d e = Inr d' \<and> dbg_inv (fst d')"
    using bp_set_state_ok [OF assms m, of _ False] assms(2)
    by (cases "bp_with_id i d") (fastforce simp: breakpoint_enable_def)+
  show "\<exists>d'. breakpoint_disable M i d e = Inr d' \<and> dbg_inv (fst d')"
    using bp_set_state_ok [OF assms m, of _ True] assms(2)
    by (cases "bp_with_id i d") (fastforce simp: breakpoint_disable_def)+
qed

lemma bp_step_ok:
  assumes K: "kernel_ok M" and I: "dbg_inv d"
  shows "\<exists>d'. bp_step M x d = Inr d' \<and> dbg_inv d'"
proof (cases x)
  case (SetBp loc tmp th)
  with breakpoint_at_address_ok [OF K I, of loc tmp th None None] show ?thesis
    by (fastforce simp: bp_step_def)
next
  case (SetStepping loc th)
  with set_stepping_breakpoint_ok [OF K I, of loc th] show ?thesis by (auto simp: bp_step_def)
next
  case (HitBp loc)
  have m: "a \<in> fst ` set (breakpoints d)" if "map_option fst (find_bp_with_address loc d) = Some a" for a
    using that by (force simp: find_bp_with_address_def dest: pl_find_Some)
  show ?thesis using breakpoint_hit_ok [OF K I m] by (simp only: HitBp bp_step_def bp_op.case)
next
  case DeleteAll
  with delete_all_ok [OF K I] show ?thesis by (auto simp: bp_step_def)
next
  case (DeleteAllOf w)
  with delete_all_specific_ok [OF K I] show ?thesis by (auto simp: bp_step_def)
next
  case (DeleteBp i)
  with by_id_ok(1) [OF K I, of i None] show ?thesis by (auto simp: bp_step_def)
next
  case (EnableBp i)
  with by_id_ok(2) [OF K I, of i None] show ?thesis by (auto simp: bp_step_def)
next
  case (DisableBp i)
  with by_id_ok(3) [OF K I, of i None] show ?thesis by (auto simp: bp_step_def)
qed (use each_set_state [OF K I] in
  \<open>auto simp: bp_step_def breakpoint_enable_all_def breakpoint_disable_all_def
     breakpoint_enable_all_specific_def breakpoint_disable_all_except_def\<close>)

lemma bp_steps_ok:
  assumes "kernel_ok M" "dbg_inv d"
  shows "\<exists>d'. run_list (bp_step M) ops d = Inr d' \<and> dbg_inv d'"
  using run_list_inv [of ops dbg_inv "bp_step M"] bp_step_ok assms by blast

section \<open>Software breakpoints in memory\<close>

lemma bytes_le_nth: "i < n \<Longrightarrow> bytes_le n w ! i = ucast (drop_bit (8 * i) w)"
  by (simp add: bytes_le_def)

lemma orig_instruction_bytes:
  assumes "length bs = 4"
  shows "bytes_le 4 (orig_instruction bs) = bs"
proof (rule nth_equalityI)
  fix i assume "i < length (bytes_le 4 (orig_instruction bs))"
  then have i: "i < 4" by simp
  show "bytes_le 4 (orig_instruction bs) ! i = bs ! i"
  proof (rule bit_word_eqI)
    fix n assume n: "n < LENGTH(8)"
    then have 0: "8 * i + n < 32" "(8 * i + n) div 8 = i" "(8 * i + n) mod 8 = n" using i by auto
    have last: "31 \<le> 8 * i + n \<Longrightarrow> i = 3 \<and> n = 7" using n i by auto
    show "bit (bytes_le 4 (orig_instruction bs) ! i) n = bit (bs ! i) n"
      using n i assms 0
      by (auto simp add: bytes_le_nth orig_instruction_def bit_ucast_iff bit_drop_bit_eq bit_signed_iff
          bit_number_le min_def dest!: last)
  qed
qed (simp add: assms)

lemma poke_flat:
  assumes "flat_mem M mem"
  obtains k where "poke M loc v 4 d = Inr (d\<lparr>kern := k\<rparr>)" "mem k = put_bytes (mem (kern d)) loc (bytes_le 4 v)"
proof -
  from assms obtain k where "write_memory_to_location M (kern d) loc v 4 = Inr (KERN_SUCCESS, k)"
    "mem k = put_bytes (mem (kern d)) loc (bytes_le (unat (4 :: u64)) v)"
    using write_memory_flat [OF assms, of 4 "kern d" loc v] by auto
  with that show ?thesis by (simp add: poke_def)
qed

lemma BRK_bytes: "bytes_le 4 BRK = [0, 0, 0x20, 0xd4]"
  by code_simp

text \<open>
  The instruction a new breakpoint will put back: the one in memory, or the one the first breakpoint
  of the location keeps.
\<close>

definition instruction_behind :: "('k \<Rightarrow> u64 \<Rightarrow> u8) \<Rightarrow> u64 \<Rightarrow> 'k dbg \<Rightarrow> u8 list" where
  "instruction_behind mem loc d =
     (case find_bp_with_address loc d of None \<Rightarrow> bytes_at (mem (kern d)) loc 4
      | Some (_, b) \<Rightarrow> bytes_le 4 (old_instruction b))"

lemma software_breakpoint_set:
  assumes "flat_mem M mem" "find_ready_bp_reg d = - 1" "unat loc + 4 < 2 ^ 64"
  obtains bp k out' where
    "breakpoint_at_address M loc tmp BP_ALL_THREADS d out e = Inr (d\<lparr>kern := k, fresh := fresh d + 1,
       breakpoints := breakpoints d @ [(fresh d, bp)], num_breakpoints := num_breakpoints d + 1,
       current_breakpoint_id := current_breakpoint_id d + (if tmp then 0 else 1)\<rparr>, out', e)"
    "mem k = put_bytes (mem (kern d)) loc (bytes_le 4 BRK)" "\<not> bp_hw bp" "\<not> bp_disabled bp"
    "bp_location bp = loc" "bytes_le 4 (old_instruction bp) = instruction_behind mem loc d"
    "bp_id bp = current_breakpoint_id d"
proof -
  let ?ti = "\<lparr>all_threads = True, iosdbg_tid = 0, pthread_tid = 0, ti_name = None\<rparr>"
  let ?bp = "\<lparr>bp_id = current_breakpoint_id d, bp_location = loc, old_instruction = 0, bp_hit_count = 0,
      bp_disabled = False, bp_temporary = tmp, bp_hw = False, hw_bp_reg = - 1, for_stepping = False,
      bp_threadinfo = ?ti, bp_bcr = 0, bp_bvr = 0\<rparr>"
  let ?d = "d\<lparr>current_breakpoint_id := current_breakpoint_id d + (if tmp then 0 else 1)\<rparr>"
  have fnd: "find_bp_with_address loc ?d = find_bp_with_address loc d" by (simp add: find_bp_with_address_def)
  have d2: "(if tmp then d else d\<lparr>current_breakpoint_id := current_breakpoint_id d + 1\<rparr>) = ?d" by simp
  have rd: "read_memory_at_location M (kern d) loc 4 = Inr (KERN_SUCCESS, bytes_at (mem (kern d)) loc 4)"
    using read_memory_flat [OF assms(1), of loc 4] assms(3) by simp
  obtain ins out1 where new: "breakpoint_new M loc tmp BP_ALL_THREADS d out e
      = Inr (Some (?bp\<lparr>old_instruction := ins\<rparr>), ?d, out1, e)"
    and ins: "bytes_le 4 ins = instruction_behind mem loc d"
  proof (cases "find_bp_with_address loc d")
    case None
    with rd show ?thesis
      by (intro that [of "orig_instruction (bytes_at (mem (kern d)) loc 4)" out])
        (simp_all add: breakpoint_new_def new_threadinfo_def assms(2) d2 fnd Let_def instruction_behind_def
          orig_instruction_bytes del: if_split)
  next
    case (Some c)
    then show ?thesis
      by (intro that [of "old_instruction (snd c)"
            "if for_stepping (snd c) then out else say out (dup_warning (snd c) ?bp)"])
        (simp_all add: breakpoint_new_def new_threadinfo_def assms(2) d2 fnd Let_def instruction_behind_def
          split_beta del: if_split)
  qed
  let ?b = "?bp\<lparr>old_instruction := ins\<rparr>"
  obtain k where k: "poke M loc BRK 4 (append_bp ?b ?d) = Inr ((append_bp ?b ?d)\<lparr>kern := k\<rparr>)"
    "mem k = put_bytes (mem (kern (append_bp ?b ?d))) loc (bytes_le 4 BRK)"
    by (rule poke_flat [OF assms(1)])
  show ?thesis
    by (rule that [of ?b k])
      (use k new ins in \<open>simp_all add: breakpoint_at_address_def append_bp_def pl_add_def\<close>)
qed

lemma find_last: "find P xs = None \<Longrightarrow> P x \<Longrightarrow> find P (xs @ [x]) = Some x"
  by (induction xs) (auto split: if_splits)

lemma delete_last_software:
  assumes "flat_mem M mem" "a \<notin> fst ` set bs" "breakpoints d = bs @ [(a, bp)]" "\<not> bp_hw bp"
  obtains k where "bp_delete_internal M a d = Inr (d\<lparr>kern := k, breakpoints := bs,
      num_breakpoints := num_breakpoints d - 1\<rparr>)"
    "mem k = put_bytes (mem (kern d)) (bp_location bp) (bytes_le 4 (old_instruction bp))"
proof -
  have g: "map_of (bs @ [(a, bp)]) a = Some bp"
    using assms(2) by (induction bs) auto
  have u: "pl_delete a (pl_update a f (bs @ [(a, bp)])) = bs" for f
    using assms(2) by (induction bs) (auto simp: pl_update_def)
  obtain k where "poke M (bp_location bp) (old_instruction bp) 4 d = Inr (d\<lparr>kern := k\<rparr>)"
    "mem k = put_bytes (mem (kern d)) (bp_location bp) (bytes_le 4 (old_instruction bp))"
    by (rule poke_flat [OF assms(1)])
  with g u assms(3,4) that [of k] show ?thesis
    by (simp add: bp_delete_internal_def bp_set_state_internal_def pl_get_def upd_bp_def)
qed

text \<open>Setting a software breakpoint and deleting it leaves memory and list as they were.\<close>

lemma set_delete_software:
  assumes M: "flat_mem M mem" and d: "bps_ok d" "find_ready_bp_reg d = - 1" "find_bp_with_address loc d = None"
    and loc: "unat loc + 4 < 2 ^ 64"
  shows "\<exists>d1 d2 out'. breakpoint_at_address M loc tmp BP_ALL_THREADS d out e = Inr (d1, out', e) \<and>
    bytes_at (mem (kern d1)) loc 4 = [0, 0, 0x20, 0xd4] \<and>
    (\<forall>x. 4 \<le> unat (x - loc) \<longrightarrow> mem (kern d1) x = mem (kern d) x) \<and>
    bp_delete_internal M (fresh d) d1 = Inr d2 \<and>
    mem (kern d2) = mem (kern d) \<and> breakpoints d2 = breakpoints d"
proof -
  from software_breakpoint_set [OF M d(2) loc, of tmp out e] obtain bp k out' where
    set: "breakpoint_at_address M loc tmp BP_ALL_THREADS d out e = Inr (d\<lparr>kern := k, fresh := fresh d + 1,
       breakpoints := breakpoints d @ [(fresh d, bp)], num_breakpoints := num_breakpoints d + 1,
       current_breakpoint_id := current_breakpoint_id d + (if tmp then 0 else 1)\<rparr>, out', e)"
      (is "_ = Inr (?d1, _, _)")
    and k: "mem k = put_bytes (mem (kern d)) loc (bytes_le 4 BRK)" "\<not> bp_hw bp" "bp_location bp = loc"
      "bytes_le 4 (old_instruction bp) = instruction_behind mem loc d" by metis
  have "fresh d \<notin> fst ` set (breakpoints d)" using d(1) by (auto simp: bps_ok_def)
  then obtain k2 where k2: "bp_delete_internal M (fresh d) ?d1 = Inr (?d1\<lparr>kern := k2,
      breakpoints := breakpoints d, num_breakpoints := num_breakpoints ?d1 - 1\<rparr>)"
    "mem k2 = put_bytes (mem (kern ?d1)) (bp_location bp) (bytes_le 4 (old_instruction bp))"
    by (rule delete_last_software [OF M, of _ _ ?d1 bp]) (simp_all add: k(2))
  have "mem k2 = put_bytes (mem (kern d)) loc (bytes_at (mem (kern d)) loc 4)"
    using k2(2) k d(3) by (simp add: instruction_behind_def put_bytes_twice)
  then have "mem k2 = mem (kern d)" by (simp add: put_bytes_restores)
  moreover have "bytes_at (mem k) loc 4 = bytes_le 4 BRK"
    using put_bytes_get [of "bytes_le 4 BRK" "mem (kern d)" loc] k(1) by simp
  moreover have "\<forall>x. 4 \<le> unat (x - loc) \<longrightarrow> mem k x = mem (kern d) x"
    by (simp add: k(1) put_bytes_def)
  ultimately show ?thesis using set k2(1) BRK_bytes by simp
qed

text \<open>
  Of two software breakpoints at one location, deleting the second puts the instruction back although
  the first is still there and enabled.
\<close>

lemma duplicate_disarms:
  assumes M: "flat_mem M mem" and d: "bps_ok d" "find_ready_bp_reg d = - 1" "find_bp_with_address loc d = None"
    and loc: "unat loc + 4 < 2 ^ 64"
  shows "\<exists>d1 d2 d3 out1 out2 bp.
    breakpoint_at_address M loc False BP_ALL_THREADS d None None = Inr (d1, out1, None) \<and>
    breakpoint_at_address M loc False BP_ALL_THREADS d1 None None = Inr (d2, out2, None) \<and>
    bp_delete_internal M (fresh d1) d2 = Inr d3 \<and> mem (kern d3) = mem (kern d) \<and>
    breakpoints d3 = breakpoints d @ [(fresh d, bp)] \<and> bp_location bp = loc \<and> \<not> bp_disabled bp"
proof -
  have fr: "fresh d \<notin> fst ` set (breakpoints d)" "Suc (fresh d) \<notin> fst ` set (breakpoints d)"
    using d(1) by (auto simp: bps_ok_def)
  from software_breakpoint_set [OF M d(2) loc, of False None None] obtain bp k out1 where
    set1: "breakpoint_at_address M loc False BP_ALL_THREADS d None None = Inr (d\<lparr>kern := k, fresh := fresh d + 1,
       breakpoints := breakpoints d @ [(fresh d, bp)], num_breakpoints := num_breakpoints d + 1,
       current_breakpoint_id := current_breakpoint_id d + (if False then 0 else 1)\<rparr>, out1, None)"
      (is "_ = Inr (?d1, _, _)")
    and k: "mem k = put_bytes (mem (kern d)) loc (bytes_le 4 BRK)" "\<not> bp_hw bp" "\<not> bp_disabled bp" "bp_location bp = loc"
      "bytes_le 4 (old_instruction bp) = instruction_behind mem loc d" by metis
  have r1: "find_ready_bp_reg ?d1 = - 1"
    using d(2) k(2) by (simp add: find_ready_bp_reg_def bp_map_def)
  have f1: "find_bp_with_address loc ?d1 = Some (fresh d, bp)"
    using d(3) k(4) find_last [of "\<lambda>c. bp_location (snd c) = loc" "breakpoints d" "(fresh d, bp)"]
    by (simp add: find_bp_with_address_def pl_find_def)
  from software_breakpoint_set [OF M r1 loc, of False None None] obtain bp2 k2 out2 where
    set2: "breakpoint_at_address M loc False BP_ALL_THREADS ?d1 None None = Inr (?d1\<lparr>kern := k2, fresh := fresh ?d1 + 1,
       breakpoints := breakpoints ?d1 @ [(fresh ?d1, bp2)], num_breakpoints := num_breakpoints ?d1 + 1,
       current_breakpoint_id := current_breakpoint_id ?d1 + (if False then 0 else 1)\<rparr>, out2, None)"
      (is "_ = Inr (?d2, _, _)")
    and k2: "mem k2 = put_bytes (mem (kern ?d1)) loc (bytes_le 4 BRK)" "\<not> bp_hw bp2" "bp_location bp2 = loc"
      "bytes_le 4 (old_instruction bp2) = instruction_behind mem loc ?d1" by metis
  have "fresh ?d1 \<notin> fst ` set (breakpoints ?d1)" using fr by simp
  then obtain k3 where k3: "bp_delete_internal M (fresh ?d1) ?d2 = Inr (?d2\<lparr>kern := k3,
      breakpoints := breakpoints ?d1, num_breakpoints := num_breakpoints ?d2 - 1\<rparr>)"
      (is "_ = Inr ?d3")
    "mem k3 = put_bytes (mem (kern ?d2)) (bp_location bp2) (bytes_le 4 (old_instruction bp2))"
    by (rule delete_last_software [OF M, of _ _ ?d2 bp2]) (simp_all add: k2(2))
  have "bytes_le 4 (old_instruction bp2) = bytes_at (mem (kern d)) loc 4"
    using k2(4) k(5) f1 d(3) by (simp add: instruction_behind_def)
  then have "mem k3 = put_bytes (mem (kern d)) loc (bytes_at (mem (kern d)) loc 4)"
    using k3(2) k2(1,3) k(1) by (simp add: put_bytes_twice)
  then have "mem k3 = mem (kern d)" by (simp add: put_bytes_restores)
  then show ?thesis using set1 set2 k3(1) k(3,4)
    by (intro exI [of _ ?d1] exI [of _ ?d2] exI [of _ ?d3] exI [of _ out1] exI [of _ out2] exI [of _ bp]) simp
qed

end
