(* ===== verification/Watchpoints.thy ===== *)
theory Watchpoints
  imports BreakOps
begin

text \<open>
  Watchpoints, \<^verbatim>\<open>source/watchpoint.c\<close>: each takes one of the hardware watchpoint registers of the
  threads. The operations, the invariant they keep, and the bytes a watchpoint watches.
\<close>

section \<open>Operations\<close>

definition WP_ALL_THREADS :: int where
  "WP_ALL_THREADS = - 1"

definition WP_READ :: u32 where
  "WP_READ = 1"

definition WP_WRITE :: u32 where
  "WP_WRITE = 2"

definition WP_READ_WRITE :: u32 where
  "WP_READ_WRITE = 3"

definition wp_map :: "'k dbg \<Rightarrow> int \<Rightarrow> int" where
  "wp_map d = fold (\<lambda>(a, w) m. m(hw_wp_reg w := 0)) (watchpoints d) (\<lambda>_. - 1)"

definition find_ready_wp_reg :: "'k dbg \<Rightarrow> int" where
  "find_ready_wp_reg d =
     (case find (\<lambda>i. wp_map d (int i) \<noteq> 0) [0..<nat (num_hw_wps d)] of
        None \<Rightarrow> - 1 | Some i \<Rightarrow> int i)"

text \<open>\<^verbatim>\<open>BAS | LSC | PAC | E\<close>, computed as an \<^verbatim>\<open>unsigned\<close>; \<open>LSC\<close> is already in its place.\<close>

definition wcr_value :: "u64 \<Rightarrow> u32 \<Rightarrow> u32 \<Rightarrow> u64" where
  "wcr_value location len LSC =
     ucast (push_bit 5 (push_bit (unat (location AND 7)) (push_bit (unat len) 1 - 1)) OR LSC OR push_bit 1 2 OR 1 :: u32)"

definition watchpoint_new ::
    "'k mach \<Rightarrow> u64 \<Rightarrow> u32 \<Rightarrow> u32 \<Rightarrow> int \<Rightarrow> 'k dbg \<Rightarrow> cbuf \<Rightarrow> (watchpoint option \<times> 'k dbg \<times> cbuf) run" where
  "watchpoint_new M location len LSC th d e =
     (if len = 0 \<or> len > 8
      then Inr (None, d, concat_c e (''data length ('' @ show_dec (sint len) @ '') is invalid''))
      else (case new_threadinfo th d of
         None \<Rightarrow> Inr (None, d, concat_c e (''no such thread with ID '' @ show_dec th))
       | Some ti \<Rightarrow> bind_run (read_memory_at_location M (kern d) location (ucast len)) (\<lambda>(result, bs).
           if result \<noteq> KERN_SUCCESS
           then Inr (None, d, concat_c e
                  (''could not set watchpoint: could not read memory at '' @ show_hex location))
           else let reg = find_ready_wp_reg d in
           if reg = - 1
           then Inr (None, d, concat_c e
                  (concat [''could not set watchpoint: no more hardware watchpoint registers available ('',
                     show_dec (num_hw_wps d), ''/'', show_dec (num_hw_wps d), '') used'']))
           else let wp = \<lparr>wp_id = current_watchpoint_id d, user_location = location,
                   aligned_location = location AND NOT 7, wp_hit_count = 0, wp_data = bs, data_len = len,
                   hw_wp_reg = reg, wp_type = ''r'', wp_threadinfo = ti,
                   wp_wcr = wcr_value location len LSC, wp_wvr = location AND NOT 7\<rparr> in
           if \<not> all_threads ti \<and> find_thread_from_ID (iosdbg_tid ti) d = None
           then Inr (None, d, concat_c e
                  ''the thread for your watchpoint has gone away, please try again'')
           else bind_run (program_threads M (put_wp_regs wp) ti d) (\<lambda>d1.
             Inr (Some (wp\<lparr>wp_id := current_watchpoint_id d1\<rparr>),
                  d1\<lparr>current_watchpoint_id := current_watchpoint_id d1 + 1\<rparr>, e)))))"

definition clear_wcr :: "int \<Rightarrow> debug_state64 \<Rightarrow> debug_state64 run" where
  "clear_wcr i s = bind_run (put_reg (ds_wcr s) i 0) (\<lambda>wcr. Inr (s\<lparr>ds_wcr := wcr\<rparr>))"

definition enable_wp :: "'k mach \<Rightarrow> watchpoint \<Rightarrow> 'k dbg \<Rightarrow> 'k dbg run" where
  "enable_wp M wp d = program_threads M (put_wp_regs wp) (wp_threadinfo wp) d"

definition disable_wp :: "'k mach \<Rightarrow> watchpoint \<Rightarrow> 'k dbg \<Rightarrow> 'k dbg run" where
  "disable_wp M wp d = program_threads M (clear_wcr (hw_wp_reg wp)) (wp_threadinfo wp) d"

definition wp_set_state_internal :: "'k mach \<Rightarrow> watchpoint \<Rightarrow> bool \<Rightarrow> 'k dbg \<Rightarrow> 'k dbg run" where
  "wp_set_state_internal M wp disabled d = (if disabled then disable_wp M wp d else enable_wp M wp d)"

definition wp_delete_internal :: "'k mach \<Rightarrow> nat \<Rightarrow> 'k dbg \<Rightarrow> 'k dbg run" where
  "wp_delete_internal M a d =
     (case pl_get (watchpoints d) a of None \<Rightarrow> Inl UseAfterFree
      | Some wp \<Rightarrow> bind_run (disable_wp M wp d) (\<lambda>d1.
          Inr (d1\<lparr>watchpoints := pl_delete a (watchpoints d1), num_watchpoints := num_watchpoints d1 - 1\<rparr>)))"

definition watch_text :: "watchpoint \<Rightarrow> string" where
  "watch_text wp =
     concat [''Watchpoint '', show_dec (wp_id wp), '': addr = '', show_hex (user_location wp), '' size = '',
       show_dec (sint (data_len wp)), '' type = '', wp_type wp] @
     (if \<not> all_threads (wp_threadinfo wp)
      then concat ['', for thread '', show_dec (iosdbg_tid (wp_threadinfo wp)), '' (tid: '',
             show_hex (pthread_tid (wp_threadinfo wp)), ''), '',
             quoted (case ti_name (wp_threadinfo wp) of Some s \<Rightarrow> s | None \<Rightarrow> []), [CHR 0x0A]]
      else [CHR 0x0A])"

definition watchpoint_at_address ::
    "'k mach \<Rightarrow> u64 \<Rightarrow> u32 \<Rightarrow> u32 \<Rightarrow> int \<Rightarrow> 'k dbg \<Rightarrow> cbuf \<Rightarrow> cbuf \<Rightarrow> ('k dbg \<times> cbuf \<times> cbuf) run" where
  "watchpoint_at_address M location len LSC th d out e =
     bind_run (watchpoint_new M location len (push_bit 3 LSC) th d e) (\<lambda>(r, d1, e1).
       case r of None \<Rightarrow> Inr (d1, out, e1)
       | Some wp \<Rightarrow>
          (let wp1 = wp\<lparr>wp_type := (if LSC = WP_WRITE then ''w'' else if LSC = WP_READ_WRITE then ''rw'' else ''r'')\<rparr>
           in Inr (d1\<lparr>watchpoints := pl_add (watchpoints d1) (fresh d1) wp1, fresh := fresh d1 + 1,
                      num_watchpoints := num_watchpoints d1 + 1\<rparr>, concat_c out (watch_text wp1), e1)))"

definition watchpoint_hit :: "nat option \<Rightarrow> 'k dbg \<Rightarrow> 'k dbg run" where
  "watchpoint_hit wp d =
     (case wp of None \<Rightarrow> Inr d
      | Some a \<Rightarrow> if pl_get (watchpoints d) a = None then Inl UseAfterFree
                 else Inr (upd_wp a (\<lambda>w. w\<lparr>wp_hit_count := wp_hit_count w + 1\<rparr>) d))"

definition watchpoint_delete_specific :: "'k mach \<Rightarrow> nat option \<Rightarrow> 'k dbg \<Rightarrow> 'k dbg run" where
  "watchpoint_delete_specific M wp d = (case wp of None \<Rightarrow> Inr d | Some a \<Rightarrow> wp_delete_internal M a d)"

definition watchpoint_delete :: "'k mach \<Rightarrow> int \<Rightarrow> 'k dbg \<Rightarrow> cbuf \<Rightarrow> ('k dbg \<times> cbuf) run" where
  "watchpoint_delete M i d e =
     (case pl_find (\<lambda>w. wp_id w = i) (watchpoints d) of
        Some (a, _) \<Rightarrow> bind_run (wp_delete_internal M a d) (\<lambda>d1. Inr (d1, e))
      | None \<Rightarrow> Inr (d, concat_c e (''watchpoint '' @ show_dec i @ '' not found'')))"

definition each_wp :: "(nat \<Rightarrow> 'k dbg \<Rightarrow> 'k dbg run) \<Rightarrow> 'k dbg \<Rightarrow> 'k dbg run" where
  "each_wp f d = run_list f (map fst (watchpoints d)) d"

definition wp_set_state_at :: "'k mach \<Rightarrow> bool \<Rightarrow> nat \<Rightarrow> 'k dbg \<Rightarrow> 'k dbg run" where
  "wp_set_state_at M disabled a d =
     (case pl_get (watchpoints d) a of None \<Rightarrow> Inl UseAfterFree
      | Some w \<Rightarrow> wp_set_state_internal M w disabled d)"

definition watchpoint_enable_all :: "'k mach \<Rightarrow> 'k dbg \<Rightarrow> 'k dbg run" where
  "watchpoint_enable_all M d = each_wp (wp_set_state_at M False) d"

definition watchpoint_disable_all :: "'k mach \<Rightarrow> 'k dbg \<Rightarrow> 'k dbg run" where
  "watchpoint_disable_all M d = each_wp (wp_set_state_at M True) d"

definition watchpoint_delete_all :: "'k mach \<Rightarrow> 'k dbg \<Rightarrow> 'k dbg run" where
  "watchpoint_delete_all M d = each_wp (wp_delete_internal M) d"

definition find_wp_with_address :: "u64 \<Rightarrow> 'k dbg \<Rightarrow> (nat \<times> watchpoint) option" where
  "find_wp_with_address addr d = pl_find (\<lambda>w. aligned_location w = addr AND NOT 7) (watchpoints d)"

section \<open>Free registers\<close>

definition used_wp_regs :: "'k dbg \<Rightarrow> int set" where
  "used_wp_regs d = (hw_wp_reg \<circ> snd) ` set (watchpoints d)"

lemma wp_map_used: "wp_map d i = 0 \<longleftrightarrow> i \<in> used_wp_regs d"
proof -
  have "fold (\<lambda>(a, w) m. m(hw_wp_reg w := 0)) ws m i = 0 \<longleftrightarrow>
      m i = 0 \<or> i \<in> (hw_wp_reg \<circ> snd) ` set ws" for ws and m :: "int \<Rightarrow> int"
    by (induction ws arbitrary: m) auto
  from this [of "watchpoints d" "\<lambda>_. - 1"] show ?thesis unfolding wp_map_def used_wp_regs_def by simp
qed

interpretation wp_slots: slot_finder find_ready_wp_reg used_wp_regs num_hw_wps
  by (rule first_free_slot [of _ wp_map]) (simp_all add: find_ready_wp_reg_def wp_map_used)

section \<open>Every operation returns and keeps the invariant\<close>

lemma reg_change_put_wp: "0 \<le> hw_wp_reg w \<Longrightarrow> hw_wp_reg w < 16 \<Longrightarrow> reg_change (put_wp_regs w)"
  by (simp add: reg_change_def put_wp_regs_def put_reg_def regs16_def nat_less_iff)

lemma reg_change_clear_wcr: "0 \<le> i \<Longrightarrow> i < 16 \<Longrightarrow> reg_change (clear_wcr i)"
  by (simp add: reg_change_def clear_wcr_def put_reg_def regs16_def nat_less_iff)

lemma bps_ok_watchpoints [simp]:
  "bps_ok (d\<lparr>watchpoints := ws\<rparr>) = bps_ok d"
  "bps_ok (d\<lparr>watchpoints := ws, num_watchpoints := n\<rparr>) = bps_ok d"
  "bps_ok (d\<lparr>current_watchpoint_id := i\<rparr>) = bps_ok d"
  by (simp_all add: bps_ok_def)

lemma bps_ok_fresher:
  "bps_ok d \<Longrightarrow> bps_ok (d\<lparr>current_watchpoint_id := i, watchpoints := ws, num_watchpoints := n, fresh := fresh d + 1\<rparr>)"
  by (fastforce simp: bps_ok_def)

lemma wps_ok_add:
  assumes "wps_ok d" "find_ready_wp_reg d \<noteq> - 1" "hw_wp_reg w = find_ready_wp_reg d" "wp_id w = current_watchpoint_id d"
    and d': "watchpoints d' = watchpoints d @ [(fresh d, w)]" "fresh d' = fresh d + 1"
      "num_watchpoints d' = num_watchpoints d + 1" "num_hw_wps d' = num_hw_wps d"
      "current_watchpoint_id d' = current_watchpoint_id d + 1"
  shows "wps_ok d'"
proof -
  let ?regs = "map (hw_wp_reg \<circ> snd) (watchpoints d)"
  have "distinct ?regs" "set ?regs = used_wp_regs d"
    using assms(1) by (simp_all add: wps_ok_def used_wp_regs_def)
  from wp_slots.claim_distinct [OF this assms(2)]
  have "distinct (map (hw_wp_reg \<circ> snd) (watchpoints d'))" by (simp add: d'(1) assms(3))
  moreover have "0 \<le> hw_wp_reg w \<and> hw_wp_reg w < num_hw_wps d"
    using wp_slots.ready_free [OF assms(2)] assms(3) by simp
  moreover have "distinct (map (wp_id \<circ> snd) (watchpoints d'))"
    using assms(1,4) d'(1) by (fastforce simp: wps_ok_def)
  ultimately show ?thesis using assms(1,4) d' unfolding wps_ok_def by (auto simp: less_Suc_eq)
qed

lemma distinct_map_delete: "distinct (map f xs) \<Longrightarrow> distinct (map f (pl_delete a xs))"
  using distinct_map_filter_delete [of f "\<lambda>_. True" xs a] by simp

lemma wps_ok_delete:
  assumes "wps_ok d" "a \<in> fst ` set (watchpoints d)"
  shows "wps_ok (d\<lparr>watchpoints := pl_delete a (watchpoints d), num_watchpoints := num_watchpoints d - 1\<rparr>)"
proof -
  have "int (length (pl_delete a (watchpoints d))) = int (length (watchpoints d)) - 1"
    using length_pl_delete [OF assms(2)] by linarith
  with assms(1) show ?thesis
    using pl_delete_subset [of a "watchpoints d"] unfolding wps_ok_def
    by (simp add: distinct_map_delete) blast
qed

lemma switch_wp_ok:
  assumes K: "kernel_ok M" and I: "dbg_inv d" and w: "(a, w) \<in> set (watchpoints d)"
  shows "\<exists>d'. wp_set_state_internal M w x d = Inr d' \<and> same_debugger d d' \<and> dbg_inv d'"
proof -
  have B: "bps_ok d" and W: "wps_ok d" and T: "thr_ok (threads d)" using I by (simp_all add: dbg_inv_def)
  from W w have r: "0 \<le> hw_wp_reg w" "hw_wp_reg w < 16" by (auto simp: wps_ok_def)
  have "\<exists>d'. wp_set_state_internal M w x d = Inr d' \<and> same_debugger d d' \<and> thr_ok (threads d')"
    using program_threads_ok [OF K T reg_change_put_wp [OF r]] program_threads_ok [OF K T reg_change_clear_wcr [OF r]]
    by (simp add: wp_set_state_internal_def enable_wp_def disable_wp_def)
  with bps_ok_same [OF B] wps_ok_same [OF W] show ?thesis by (auto simp: dbg_inv_def)
qed

lemma wp_delete_ok:
  assumes K: "kernel_ok M" and I: "dbg_inv d" and a: "a \<in> fst ` set (watchpoints d)"
  shows "\<exists>d'. wp_delete_internal M a d = Inr d' \<and> dbg_inv d' \<and> watchpoints d' = pl_delete a (watchpoints d)"
proof -
  from a obtain w where w: "(a, w) \<in> set (watchpoints d)" by auto
  with I have g: "pl_get (watchpoints d) a = Some w" by (simp add: pl_get_mem dbg_inv_def wps_ok_def)
  from switch_wp_ok [OF K I w, of True] obtain d1 where d1: "disable_wp M w d = Inr d1" "same_debugger d d1" "dbg_inv d1"
    by (auto simp: wp_set_state_internal_def)
  have eq: "watchpoints d1 = watchpoints d" by (rule same_debuggerD(2) [OF d1(2)])
  have "wps_ok (d1\<lparr>watchpoints := pl_delete a (watchpoints d1), num_watchpoints := num_watchpoints d1 - 1\<rparr>)"
    using wps_ok_delete [of d1 a] d1(3) a eq by (simp add: dbg_inv_def)
  with d1(3) show ?thesis by (simp add: wp_delete_internal_def g d1(1) dbg_inv_def eq)
qed

lemma watchpoint_hit_ok:
  assumes "dbg_inv d" "\<And>a. wp = Some a \<Longrightarrow> a \<in> fst ` set (watchpoints d)"
  shows "\<exists>d'. watchpoint_hit wp d = Inr d' \<and> dbg_inv d'"
proof (cases wp)
  case (Some a)
  with assms obtain w where "(a, w) \<in> set (watchpoints d)" by auto
  with assms(1) have g: "pl_get (watchpoints d) a = Some w" by (simp add: pl_get_mem dbg_inv_def wps_ok_def)
  let ?ws = "pl_update a (\<lambda>w. w\<lparr>wp_hit_count := wp_hit_count w + 1\<rparr>) (watchpoints d)"
  have "map (hw_wp_reg \<circ> snd) ?ws = map (hw_wp_reg \<circ> snd) (watchpoints d)"
    "map (wp_id \<circ> snd) ?ws = map (wp_id \<circ> snd) (watchpoints d)" "length ?ws = length (watchpoints d)"
    by (simp_all add: pl_update_def split_beta)
  moreover have "c \<in> set ?ws \<Longrightarrow> \<exists>x. (fst c, x) \<in> set (watchpoints d) \<and> hw_wp_reg (snd c) = hw_wp_reg x \<and>
      wp_id (snd c) = wp_id x" for c
    by (cases c) (auto simp: pl_update_mem split: if_splits)
  ultimately have "wps_ok (d\<lparr>watchpoints := ?ws\<rparr>)"
    using assms(1) unfolding dbg_inv_def wps_ok_def by fastforce
  with Some g assms(1) show ?thesis by (simp add: watchpoint_hit_def upd_wp_def dbg_inv_def)
qed (use assms in \<open>simp add: watchpoint_hit_def\<close>)

text \<open>A new watchpoint, or an error and no change.\<close>

lemma watchpoint_at_address_ok:
  assumes K: "kernel_ok M" and I: "dbg_inv d"
  shows "\<exists>d' out' e'. watchpoint_at_address M loc len LSC th d out e = Inr (d', out', e') \<and> dbg_inv d' \<and>
    (if len = 0 \<or> len > 8 \<or> new_threadinfo th d = None \<or> find_ready_wp_reg d = - 1
     then watchpoints d' = watchpoints d \<and> e' \<noteq> None
     else (\<exists>w. watchpoints d' = watchpoints d @ [(fresh d, w)] \<and> hw_wp_reg w = find_ready_wp_reg d \<and>
            user_location w = loc \<and> data_len w = len \<and> wp_wcr w = wcr_value loc len (push_bit 3 LSC) \<and> e' = e))"
proof -
  have B: "bps_ok d" and W: "wps_ok d" and T: "thr_ok (threads d)" using I by (simp_all add: dbg_inv_def)
  obtain bs where rd: "read_memory_at_location M (kern d) loc (ucast len) = Inr (KERN_SUCCESS, bs)"
    using read_memory_returns [OF K] by blast
  show ?thesis
  proof (cases "len = 0 \<or> len > 8 \<or> new_threadinfo th d = None \<or> find_ready_wp_reg d = - 1")
    case True
    with I rd show ?thesis
      by (auto simp: watchpoint_at_address_def watchpoint_new_def concat_c_def split: option.split)
  next
    case False
    then obtain ti where ti: "new_threadinfo th d = Some ti" and l: "\<not> (len = 0 \<or> len > 8)"
      and r: "find_ready_wp_reg d \<noteq> - 1" by auto
    have live: "\<not> (\<not> all_threads ti \<and> find_thread_from_ID (iosdbg_tid ti) d = None)"
      using ti by (auto simp: new_threadinfo_def split: if_splits option.splits)
    define wp where "wp = \<lparr>wp_id = current_watchpoint_id d, user_location = loc,
        aligned_location = loc AND NOT 7, wp_hit_count = 0, wp_data = bs, data_len = len,
        hw_wp_reg = find_ready_wp_reg d, wp_type = ''r'', wp_threadinfo = ti,
        wp_wcr = wcr_value loc len (push_bit 3 LSC), wp_wvr = loc AND NOT 7\<rparr>"
    have reg: "0 \<le> hw_wp_reg wp" "hw_wp_reg wp < 16"
      using wp_slots.ready_free [OF r] W by (simp_all add: wp_def wps_ok_def)
    obtain d1 where d1: "program_threads M (put_wp_regs wp) ti d = Inr d1" "same_debugger d d1" "thr_ok (threads d1)"
      using program_threads_ok [OF K T reg_change_put_wp [OF reg]] by blast
    note f = same_debuggerD [OF d1(2)]
    have new: "watchpoint_new M loc len (push_bit 3 LSC) th d e
        = Inr (Some wp, d1\<lparr>current_watchpoint_id := current_watchpoint_id d + 1\<rparr>, e)"
      unfolding watchpoint_new_def ti option.case rd bind_run.simps prod.case Let_def wp_def [symmetric] d1(1)
      using l r live f by (simp add: wp_def)
    let ?t = "if LSC = WP_WRITE then ''w'' else if LSC = WP_READ_WRITE then ''rw'' else ''r''"
    let ?d = "d1\<lparr>current_watchpoint_id := current_watchpoint_id d + 1,
        watchpoints := pl_add (watchpoints d) (fresh d) (wp\<lparr>wp_type := ?t\<rparr>), fresh := fresh d + 1,
        num_watchpoints := num_watchpoints d + 1\<rparr>"
    have "wps_ok ?d"
      by (rule wps_ok_add [OF W r, of "wp\<lparr>wp_type := ?t\<rparr>"]) (use f in \<open>simp_all add: pl_add_def wp_def\<close>)
    moreover have "bps_ok ?d"
      using bps_ok_fresher [OF bps_ok_same [OF B d1(2)]] f by (simp add: bps_ok_def)
    ultimately have "dbg_inv ?d" using d1(3) by (simp add: dbg_inv_def)
    moreover have "watchpoint_at_address M loc len LSC th d out e
        = Inr (?d, concat_c out (watch_text (wp\<lparr>wp_type := ?t\<rparr>)), e)"
      using f by (simp add: watchpoint_at_address_def new Let_def)
    ultimately show ?thesis using False by (simp add: pl_add_def wp_def)
  qed
qed

section \<open>Sequences of operations on breakpoints and watchpoints\<close>

lemma each_wp_ok:
  assumes f: "\<And>a d. dbg_inv d \<Longrightarrow> a \<in> fst ` set (watchpoints d) \<Longrightarrow>
      \<exists>d'. f a d = Inr d' \<and> dbg_inv d' \<and> watchpoints d' = g a (watchpoints d)"
    and g: "\<And>a ws. distinct (map fst ws) \<Longrightarrow> {c \<in> set ws. fst c \<noteq> a} \<subseteq> set (g a ws)"
    and I: "dbg_inv d"
  shows "\<exists>d'. each_wp f d = Inr d' \<and> dbg_inv d' \<and> watchpoints d' = fold g (map fst (watchpoints d)) (watchpoints d)"
proof -
  have "\<exists>d'. run_list f as d = Inr d' \<and> dbg_inv d' \<and> watchpoints d' = fold g as (watchpoints d)"
    if "distinct as" "set as \<subseteq> fst ` set (watchpoints d)" "dbg_inv d" for as d
    using that
  proof (induction as arbitrary: d)
    case (Cons a as)
    then obtain d1 where d1: "f a d = Inr d1" "dbg_inv d1" "watchpoints d1 = g a (watchpoints d)"
      using f [of d a] by auto
    have "distinct (map fst (watchpoints d))" using Cons.prems by (simp add: dbg_inv_def wps_ok_def)
    note keep = g [OF this, of a]
    have "set as \<subseteq> fst ` set (watchpoints d1)"
    proof
      fix b assume "b \<in> set as"
      with Cons.prems have "b \<in> fst ` set (watchpoints d)" "b \<noteq> a" by auto
      with keep d1(3) show "b \<in> fst ` set (watchpoints d1)" by auto
    qed
    with Cons.IH [of d1] Cons.prems d1 show ?case by auto
  qed simp
  from this [of "map fst (watchpoints d)" d] I show ?thesis
    by (simp add: each_wp_def dbg_inv_def wps_ok_def)
qed

lemma watchpoint_delete_all_ok:
  assumes "kernel_ok M" "dbg_inv d"
  shows "\<exists>d'. watchpoint_delete_all M d = Inr d' \<and> dbg_inv d' \<and> watchpoints d' = []"
proof -
  have "fold pl_delete (map fst ws) (ws :: watchpoint plist) = []" for ws
    by (induction ws) auto
  moreover have "{c \<in> set ws. fst c \<noteq> a} \<subseteq> set (pl_delete a ws)" if "distinct (map fst ws)"
    for a and ws :: "watchpoint plist"
    using that by (simp add: pl_delete_set)
  ultimately show ?thesis
    using each_wp_ok [of "wp_delete_internal M" pl_delete d] wp_delete_ok [OF assms(1)] assms(2)
    by (simp add: watchpoint_delete_all_def)
qed

lemma watchpoint_switch_all_ok:
  assumes "kernel_ok M" "dbg_inv d"
  shows "\<exists>d'. each_wp (wp_set_state_at M x) d = Inr d' \<and> dbg_inv d' \<and> watchpoints d' = watchpoints d"
proof -
  have "\<exists>d'. wp_set_state_at M x a d = Inr d' \<and> dbg_inv d' \<and> watchpoints d' = watchpoints d"
    if I: "dbg_inv d" and a: "a \<in> fst ` set (watchpoints d)" for a d
  proof -
    from a obtain w where w: "(a, w) \<in> set (watchpoints d)" by auto
    with I have "pl_get (watchpoints d) a = Some w" by (simp add: pl_get_mem dbg_inv_def wps_ok_def)
    with switch_wp_ok [OF assms(1) I w, of x] same_debuggerD(2) show ?thesis
      by (fastforce simp: wp_set_state_at_def)
  qed
  moreover have "fold (\<lambda>a ws. ws) as ws = ws" for as :: "nat list" and ws :: "watchpoint plist"
    by (induction as) auto
  ultimately show ?thesis
    using each_wp_ok [of "wp_set_state_at M x" "\<lambda>a ws. ws" d] assms(2) by simp
qed

datatype wp_op = SetWp u64 u32 u32 int | DeleteWp int | HitWp u64 | EnableWps | DisableWps | DeleteWps

definition wp_step :: "'k mach \<Rightarrow> wp_op \<Rightarrow> 'k dbg \<Rightarrow> 'k dbg run" where
  "wp_step M x d =
     (case x of
        SetWp loc len LSC th \<Rightarrow> bind_run (watchpoint_at_address M loc len LSC th d None None) (\<lambda>(d1, _). Inr d1)
      | DeleteWp i \<Rightarrow> bind_run (watchpoint_delete M i d None) (\<lambda>(d1, _). Inr d1)
      | HitWp addr \<Rightarrow> watchpoint_hit (map_option fst (find_wp_with_address addr d)) d
      | EnableWps \<Rightarrow> watchpoint_enable_all M d
      | DisableWps \<Rightarrow> watchpoint_disable_all M d
      | DeleteWps \<Rightarrow> watchpoint_delete_all M d)"

lemma wp_step_ok:
  assumes K: "kernel_ok M" and I: "dbg_inv d"
  shows "\<exists>d'. wp_step M x d = Inr d' \<and> dbg_inv d'"
proof (cases x)
  case (SetWp loc len LSC th)
  with watchpoint_at_address_ok [OF K I, of loc len LSC th None None] show ?thesis
    by (fastforce simp: wp_step_def)
next
  case (DeleteWp i)
  show ?thesis
  proof (cases "pl_find (\<lambda>w. wp_id w = i) (watchpoints d)")
    case None
    with DeleteWp I show ?thesis by (simp add: wp_step_def watchpoint_delete_def)
  next
    case (Some c)
    then have "fst c \<in> fst ` set (watchpoints d)" using pl_find_Some [of _ _ "fst c" "snd c"] by force
    from wp_delete_ok [OF K I this] Some DeleteWp show ?thesis
      by (auto simp: wp_step_def watchpoint_delete_def split: prod.split)
  qed
next
  case (HitWp addr)
  have m: "a \<in> fst ` set (watchpoints d)" if "map_option fst (find_wp_with_address addr d) = Some a" for a
    using that by (force simp: find_wp_with_address_def dest: pl_find_Some)
  show ?thesis using watchpoint_hit_ok [OF I m] by (simp only: HitWp wp_step_def wp_op.case)
next
  case EnableWps
  with watchpoint_switch_all_ok [OF K I] show ?thesis by (auto simp: wp_step_def watchpoint_enable_all_def)
next
  case DisableWps
  with watchpoint_switch_all_ok [OF K I] show ?thesis by (auto simp: wp_step_def watchpoint_disable_all_def)
next
  case DeleteWps
  with watchpoint_delete_all_ok [OF K I] show ?thesis by (auto simp: wp_step_def)
qed

definition point_step :: "'k mach \<Rightarrow> bp_op + wp_op \<Rightarrow> 'k dbg \<Rightarrow> 'k dbg run" where
  "point_step M x d = (case x of Inl b \<Rightarrow> bp_step M b d | Inr w \<Rightarrow> wp_step M w d)"

lemma point_steps_ok:
  assumes "kernel_ok M" "dbg_inv d"
  shows "\<exists>d'. run_list (point_step M) ops d = Inr d' \<and> dbg_inv d'"
proof (rule run_list_inv)
  show "\<exists>d'. point_step M x d = Inr d' \<and> dbg_inv d'" if "dbg_inv d" for x d
    using bp_step_ok [OF assms(1) that] wp_step_ok [OF assms(1) that]
    by (simp add: point_step_def split: sum.split)
qed (rule assms(2))

section \<open>The bytes a watchpoint watches\<close>

text \<open>
  The byte select field starts at bit 5 of the control register, one bit for each byte of the aligned
  double word. Bits from 13 on belong to other fields.
\<close>

lemma bit_byte_mask: "bit (push_bit n 1 - 1 :: u32) i \<longleftrightarrow> i < 32 \<and> i < n"
  by (simp only: mask_eq_exp_minus_1 [symmetric] push_bit_of_1 bit_mask_iff) auto

lemma high_bits:
  fixes x :: u32
  assumes "unat x < 2 ^ m" "m \<le> n"
  shows "\<not> bit x n"
proof -
  have "unat (take_bit m x) = unat x" using assms(1) by (simp add: unsigned_take_bit_eq take_bit_nat_eq_self)
  then have "take_bit m x = x" by (simp add: word_unat_eq_iff)
  then show ?thesis using assms(2) by (metis bit_take_bit_iff not_less)
qed

lemma wcr_select:
  assumes LSC: "LSC \<le> 3" and i: "5 \<le> i" "i < 32"
  shows "bit (wcr_value loc len (push_bit 3 LSC)) i \<longleftrightarrow>
    unat (loc AND 7) \<le> i - 5 \<and> i - 5 < unat (loc AND 7) + unat len"
proof -
  have "unat LSC < 2 ^ 2" using LSC by (simp add: word_le_nat_alt)
  then have lsc: "\<not> bit (push_bit 3 LSC) i" using high_bits [of LSC 2 "i - 3"] i by (simp add: bit_push_bit_iff)
  have "\<not> bit (push_bit 1 2 OR 1 :: u32) i" by (rule high_bits [of _ 3]) (use i in simp_all)
  with i lsc show ?thesis unfolding wcr_value_def
    by (simp only: bit_ucast_iff bit_or_iff bit_push_bit_iff bit_byte_mask) (auto simp: bit_or_iff)
qed

text \<open>
  So within the double word exactly the bytes asked for are watched; the field is exceeded exactly when
  the watched bytes reach beyond the double word.
\<close>

lemma watched_bytes:
  assumes "LSC \<le> 3" "b < 8"
  shows "bit (wcr_value loc len (push_bit 3 LSC)) (5 + b) \<longleftrightarrow>
    unat (loc AND 7) \<le> b \<and> b < unat (loc AND 7) + unat len"
  using wcr_select [OF assms(1), of "5 + b" loc len] assms(2) by simp

lemma select_overflow:
  assumes "LSC \<le> 3" "len \<noteq> 0" "len \<le> 8"
  shows "(\<exists>i. 13 \<le> i \<and> i < 32 \<and> bit (wcr_value loc len (push_bit 3 LSC)) i) \<longleftrightarrow>
    8 < unat (loc AND 7) + unat len"
proof
  assume "\<exists>i. 13 \<le> i \<and> i < 32 \<and> bit (wcr_value loc len (push_bit 3 LSC)) i"
  then obtain i where "13 \<le> i" "i < 32" "bit (wcr_value loc len (push_bit 3 LSC)) i" by blast
  with wcr_select [OF assms(1), of i loc len] show "8 < unat (loc AND 7) + unat len" by linarith
next
  assume s: "8 < unat (loc AND 7) + unat len"
  have "loc AND 7 \<le> 7" by (rule word_and_le1)
  then have "unat (loc AND 7) \<le> 7" by (simp add: word_le_nat_alt)
  with s wcr_select [OF assms(1), of 13 loc len]
  have "bit (wcr_value loc len (push_bit 3 LSC)) 13" by simp
  then show "\<exists>i. 13 \<le> i \<and> i < 32 \<and> bit (wcr_value loc len (push_bit 3 LSC)) i"
    by (intro exI [of _ 13]) simp
qed

end
