(* ===== verification/Sample.thy ===== *)
theory Sample
  imports Watchpoints
begin

text \<open>
  A concrete target: a kernel whose state is the memory of the task and whose threads have all registers
  zero, a debugger attached to two threads. The hypotheses of the properties hold for it.
\<close>

definition zero_ts :: thread_state64 where
  "zero_ts = \<lparr>ts_x = replicate 29 0, ts_fp = 0, ts_lr = 0, ts_sp = 0, ts_pc = 0, ts_cpsr = 0\<rparr>"

definition zero_ds :: debug_state64 where
  "zero_ds = \<lparr>ds_bvr = replicate 16 0, ds_bcr = replicate 16 0, ds_wvr = replicate 16 0, ds_wcr = replicate 16 0,
     ds_mdscr_el1 = 0\<rparr>"

definition zero_ns :: neon_state64 where
  "zero_ns = \<lparr>ns_v = replicate 32 0, ns_fpsr = 0, ns_fpcr = 0\<rparr>"

definition flat_mach :: "(u64 \<Rightarrow> u8) mach" where
  "flat_mach = \<lparr>vm_read_overwrite = (\<lambda>k a n. Inr (bytes_at k a (unat n))), vm_region_64 = (\<lambda>k a. Inr 3),
     vm_protect = (\<lambda>k a s p. k), vm_write = (\<lambda>k a bs. (KERN_SUCCESS, put_bytes k a bs)),
     thread_get_state = (\<lambda>k p. Inr zero_ts), thread_set_state = (\<lambda>k p s. (KERN_SUCCESS, k)),
     debug_get_state = (\<lambda>k p. Inr zero_ds), debug_set_state = (\<lambda>k p s. (KERN_SUCCESS, k)),
     neon_get_state = (\<lambda>k p. Inr zero_ns), neon_set_state = (\<lambda>k p s. (KERN_SUCCESS, k)),
     thread_ident = (\<lambda>k p. Inr (ucast p)), thread_name = (\<lambda>k p. Some ''main''),
     mach_port_allocate = (\<lambda>k. Inr 9), request_notification = (\<lambda>k p q. KERN_SUCCESS),
     mach_error_string = (\<lambda>r. ''error'')\<rparr>"

definition sample_thread :: "u32 \<Rightarrow> bool \<Rightarrow> int \<Rightarrow> machthread" where
  "sample_thread p f i = \<lparr>port = p, focused = f, tid = ucast p, tname = ''main'', ID = i, thread_state = zero_ts,
     debug_state = zero_ds, neon_state = zero_ns, just_hit_watchpoint = False, just_hit_breakpoint = False,
     just_hit_sw_breakpoint = False, last_hit_wp_loc = 0, last_hit_wp_PC = 0, last_hit_bkpt_ID = 0,
     stepconfig = no_step\<rparr>"

definition sample_dbg :: "int \<Rightarrow> (u64 \<Rightarrow> u8) dbg" where
  "sample_dbg n = \<lparr>kern = (\<lambda>_. 0), threads = [(1, sample_thread 5 True 1), (2, sample_thread 6 False 2)],
     breakpoints = [], watchpoints = [], num_breakpoints = 0, num_watchpoints = 0, num_hw_bps = n, num_hw_wps = n,
     thread_count = 2, death_notify_port = 0, current_machthread_id = 3, current_breakpoint_id = 1,
     current_watchpoint_id = 1, vars = None, fresh = 3\<rparr>"

lemma flat_mach_ok: "kernel_ok flat_mach" "flat_mem flat_mach (\<lambda>k. k)"
  by (simp_all add: kernel_ok_def flat_mem_def flat_mach_def zero_ds_def regs16_def)

lemma sample_ok:
  assumes "0 \<le> n" "n \<le> 16"
  shows "dbg_inv (sample_dbg n)" "bps_ok (sample_dbg n)"
  using assms by (simp_all add: dbg_inv_def bps_ok_def wps_ok_def thr_ok_def sample_dbg_def sample_thread_def
      zero_ds_def regs16_def)

lemma sample_threads_ok: "threads_ok (threads (sample_dbg n))"
  by (simp add: threads_ok_def sample_dbg_def sample_thread_def)

lemma sample_no_registers:
  "find_ready_bp_reg (sample_dbg 0) = - 1" "find_bp_with_address loc (sample_dbg n) = None"
  by (simp_all add: find_ready_bp_reg_def find_bp_with_address_def pl_find_def sample_dbg_def)

end
