(* ===== verification/Symbols.thy ===== *)
theory Symbols
  imports Memutils "HOL-Library.Multiset"
begin

text \<open>
  Symbols of the target, \<^verbatim>\<open>source/symbol/dbgsymbol.c\<close>: the tables of the images, the search for the
  function an address is in, and the text a frame is shown as. The tables themselves are built from the
  Mach-O files by \<^verbatim>\<open>image.c\<close>. \<^verbatim>\<open>qsort\<close>, the line information of \<^verbatim>\<open>libdwarf\<close> and uninitialised memory
  are arguments.
\<close>

section \<open>Tables\<close>

text \<open>
  \<open>SymGarbage\<close> is the pointer left uninitialised in the symbol of a name that is in the string table of
  its image. \<open>sym_num\<close> is the union of \<^verbatim>\<open>strtabidx\<close> and \<^verbatim>\<open>unnamed_sym_num\<close>.
\<close>

datatype symptr = UNNAMED_SYMBOL | SymText string | SymGarbage

record sym =
  sym_func_start :: u64
  dsc_symname :: symptr
  sym_num :: int
  sym_func_len :: u32

record dbg_sym_entry =
  imagename :: string
  syms :: "sym array"
  load_addr :: u64
  strtab_vmaddr :: u64
  from_dsc :: bool

datatype sym_kind = UNNAMED_SYM | NAMED_SYM

text \<open>\<open>garbage\<close> is the contents of the new symbol before it is filled.\<close>

definition new_sym :: "sym \<Rightarrow> int \<Rightarrow> int \<Rightarrow> u64 \<Rightarrow> u32 \<Rightarrow> sym_kind \<Rightarrow> string option \<Rightarrow> sym" where
  "new_sym garbage cnt arg1 vmaddr_start fxnlen k symname =
     (let s1 = (case symname of None \<Rightarrow> garbage | Some n \<Rightarrow> garbage\<lparr>dsc_symname := SymText n\<rparr>);
          s2 = (case k of NAMED_SYM \<Rightarrow> s1\<lparr>sym_num := arg1\<rparr>
                | UNNAMED_SYM \<Rightarrow> s1\<lparr>dsc_symname := UNNAMED_SYMBOL, sym_num := cnt\<rparr>)
      in s2\<lparr>sym_func_start := vmaddr_start, sym_func_len := fxnlen\<rparr>)"

definition add_symbol_to_entry ::
    "sym \<Rightarrow> int \<Rightarrow> dbg_sym_entry \<Rightarrow> int \<Rightarrow> u64 \<Rightarrow> u32 \<Rightarrow> sym_kind \<Rightarrow> string option
     \<Rightarrow> (int \<times> dbg_sym_entry) run" where
  "add_symbol_to_entry garbage cnt entry arg1 vmaddr_start fxnlen k symname =
     bind_run (array_insert (Some (syms entry)) (Some (new_sym garbage cnt arg1 vmaddr_start fxnlen k symname)))
       (\<lambda>(_, a). case a of None \<Rightarrow> Inl NullDeref
          | Some a' \<Rightarrow> Inr (case k of NAMED_SYM \<Rightarrow> cnt | UNNAMED_SYM \<Rightarrow> cnt + 1, entry\<lparr>syms := a'\<rparr>))"

definition create_sym_entry :: "dbg_sym_entry \<Rightarrow> u64 \<Rightarrow> bool \<Rightarrow> dbg_sym_entry" where
  "create_sym_entry garbage strtab dsc =
     garbage\<lparr>strtab_vmaddr := strtab, syms := array_new, from_dsc := dsc\<rparr>"

section \<open>Searching\<close>

text \<open>The read \<^verbatim>\<open>arg0->items[i]\<close> and the one through the pointer found there.\<close>

definition item_at :: "'a array \<Rightarrow> int \<Rightarrow> 'a run" where
  "item_at a i =
     (case items a of None \<Rightarrow> Inl NullDeref
      | Some b \<Rightarrow> if i < 0 \<or> int (length b) \<le> i then Inl OutOfBounds
                 else (case b ! nat i of None \<Rightarrow> Inl NullDeref | Some x \<Rightarrow> Inr x))"

lemma mid_between:
  fixes lo hi :: int
  assumes "\<not> hi < lo" "lo \<noteq> hi" "hi - 1 \<noteq> lo"
  shows "lo < (lo + hi) sdiv 2" "(lo + hi) sdiv 2 < hi"
  using assms by (auto simp: signed_divide_int_def sgn_if abs_if)

text \<open>
  The start of a function is read by \<open>f\<close>, from a symbol or a pair of entry and symbol (\<^verbatim>\<open>which\<close>). The code
  never searches an empty range, for which it would not end.
\<close>

function bsearch_lc :: "('a \<Rightarrow> u64) \<Rightarrow> 'a array \<Rightarrow> u64 \<Rightarrow> int \<Rightarrow> int \<Rightarrow> int run" where
  "bsearch_lc f a vmaddr lo hi =
     (if hi < lo then Inl Diverges
      else if lo = hi then
        bind_run (item_at a lo) (\<lambda>x. Inr (if f x > vmaddr then - 1 else lo))
      else if hi - 1 = lo then
        bind_run (item_at a hi) (\<lambda>xh. bind_run (item_at a lo) (\<lambda>xl.
          Inr (if vmaddr \<ge> f xh then hi else if vmaddr \<ge> f xl then lo else - 1)))
      else (let mid = (lo + hi) sdiv 2 in
        bind_run (item_at a mid) (\<lambda>x.
          if vmaddr < f x then bsearch_lc f a vmaddr lo (mid - 1)
          else bsearch_lc f a vmaddr mid hi)))"
  by pat_completeness auto
termination
proof (relation "measure (\<lambda>(f, a, v, lo, hi). nat (hi - lo))", goal_cases)
  case 1
  show ?case by simp
next
  case (2 f a vmaddr lo hi mid x)
  then have "(lo + hi) sdiv 2 < hi" "lo \<le> hi" using mid_between(2) [of hi lo] by auto
  then show ?case using 2 by simp
next
  case (3 f a vmaddr lo hi mid x)
  then have "lo < (lo + hi) sdiv 2" "lo \<le> hi" using mid_between(1) [of hi lo] by auto
  then show ?case using 3 by simp
qed

declare bsearch_lc.simps [simp del]

text \<open>
  On a range whose starts ascend the search gives the last element that starts at or before the address,
  or -1 when all start after it.
\<close>

definition range_of :: "'a array \<Rightarrow> int \<Rightarrow> int \<Rightarrow> (int \<Rightarrow> 'a) \<Rightarrow> bool" where
  "range_of a lo hi x \<longleftrightarrow> (\<forall>i. lo \<le> i \<and> i \<le> hi \<longrightarrow> item_at a i = Inr (x i))"

definition found_at :: "(int \<Rightarrow> u64) \<Rightarrow> u64 \<Rightarrow> int \<Rightarrow> int \<Rightarrow> int \<Rightarrow> bool" where
  "found_at s v lo hi r \<longleftrightarrow>
     (if r = - 1 then \<forall>i. lo \<le> i \<and> i \<le> hi \<longrightarrow> v < s i
      else lo \<le> r \<and> r \<le> hi \<and> s r \<le> v \<and> (\<forall>i. r < i \<and> i \<le> hi \<longrightarrow> v < s i))"

lemma found_at_extend:
  assumes "found_at s v lo (mid - 1) r" "\<And>i. mid \<le> i \<Longrightarrow> i \<le> hi \<Longrightarrow> v < s i" "mid \<le> hi"
  shows "found_at s v lo hi r"
proof -
  have "i \<le> mid - 1 \<or> mid \<le> i" for i by linarith
  with assms show ?thesis unfolding found_at_def by (smt (verit))
qed

lemma bsearch_lc_finds:
  assumes "range_of a lo hi x" "0 \<le> lo" "lo \<le> hi"
    and "\<And>i j. lo \<le> i \<Longrightarrow> i \<le> j \<Longrightarrow> j \<le> hi \<Longrightarrow> f (x i) \<le> f (x j)"
  shows "\<exists>r. bsearch_lc f a v lo hi = Inr r \<and> found_at (f \<circ> x) v lo hi r"
  using assms
proof (induction "nat (hi - lo)" arbitrary: lo hi rule: less_induct)
  case less
  note it = less.prems(1) [unfolded range_of_def, rule_format]
  note mono = less.prems(4)
  consider (one) "lo = hi" | (two) "hi - 1 = lo" | (more) "lo + 2 \<le> hi" using less.prems(3) by linarith
  then show ?case
  proof cases
    case one
    with it [of lo] less.prems(2) show ?thesis
      by (subst bsearch_lc.simps) (auto simp: found_at_def not_less)
  next
    case two
    then have i: "item_at a lo = Inr (x lo)" "item_at a hi = Inr (x hi)" "lo \<noteq> hi" "\<not> hi < lo"
      using it [of lo] it [of hi] by auto
    have quant: "(\<forall>i. lo \<le> i \<and> i \<le> hi \<longrightarrow> P i) \<longleftrightarrow> P lo \<and> P hi" "(\<forall>i. lo < i \<and> i \<le> hi \<longrightarrow> P i) \<longleftrightarrow> P hi"
      for P
    proof -
      have "lo \<le> i \<and> i \<le> hi \<longleftrightarrow> i = lo \<or> i = hi" "lo < i \<and> i \<le> hi \<longleftrightarrow> i = hi" for i
        using two by linarith+
      then show "(\<forall>i. lo \<le> i \<and> i \<le> hi \<longrightarrow> P i) \<longleftrightarrow> P lo \<and> P hi" "(\<forall>i. lo < i \<and> i \<le> hi \<longrightarrow> P i) \<longleftrightarrow> P hi"
        by auto
    qed
    have r: "bsearch_lc f a v lo hi =
        Inr (if f (x hi) \<le> v then hi else if f (x lo) \<le> v then lo else - 1)"
      using i two by (subst bsearch_lc.simps) simp
    have "found_at (f \<circ> x) v lo hi (if f (x hi) \<le> v then hi else if f (x lo) \<le> v then lo else - 1)"
      using less.prems(2,3) unfolding found_at_def by (simp add: quant not_le) auto
    with r show ?thesis by blast
  next
    case more
    define mid where "mid = (lo + hi) sdiv 2"
    have m: "lo < mid" "mid < hi" using mid_between [of hi lo] more by (auto simp: mid_def)
    have im: "item_at a mid = Inr (x mid)" using it [of mid] m by simp
    have step: "bsearch_lc f a v lo hi =
        (if v < f (x mid) then bsearch_lc f a v lo (mid - 1) else bsearch_lc f a v mid hi)"
      using more im by (subst bsearch_lc.simps) (simp add: mid_def [symmetric] Let_def)
    show ?thesis
    proof (cases "v < f (x mid)")
      case True
      have "\<exists>r. bsearch_lc f a v lo (mid - 1) = Inr r \<and> found_at (f \<circ> x) v lo (mid - 1) r"
        by (rule less.hyps) (use less.prems m in \<open>auto simp: range_of_def\<close>)
      moreover have "v < f (x i)" if "mid \<le> i" "i \<le> hi" for i
        using True mono [of mid i] that m by (meson less_le_trans less_imp_le)
      ultimately show ?thesis using True step m found_at_extend [of "f \<circ> x" v lo mid _ hi] by auto
    next
      case False
      have "\<exists>r. bsearch_lc f a v mid hi = Inr r \<and> found_at (f \<circ> x) v mid hi r"
        by (rule less.hyps) (use less.prems m in \<open>auto simp: range_of_def\<close>)
      then obtain r where r: "bsearch_lc f a v mid hi = Inr r" "found_at (f \<circ> x) v mid hi r" by blast
      from r(2) False m have "r \<noteq> - 1" by (force simp: found_at_def)
      with r False step m show ?thesis unfolding found_at_def by auto
    qed
  qed
qed


section \<open>The symbol an address is in\<close>

record goodcombo =
  gc_entry :: dbg_sym_entry
  gc_sym :: sym

text \<open>The comparison \<^verbatim>\<open>qsort\<close> is given, on signed numbers; its result is -1, 0 or 1.\<close>

definition goodcombocmp :: "goodcombo vptr \<Rightarrow> goodcombo vptr \<Rightarrow> int" where
  "goodcombocmp a b =
     (case (a, b) of
        (Some gca, Some gcb) \<Rightarrow>
          (let gcasf = sint (sym_func_start (gc_sym gca)); gcbsf = sint (sym_func_start (gc_sym gcb))
           in if gcasf < gcbsf then - 1 else if gcasf = gcbsf then 0 else 1)
      | _ \<Rightarrow> 0)"

definition int_of_len :: "u64 \<Rightarrow> int" where
  "int_of_len n = sint (ucast n :: u32)"

text \<open>An image with one symbol is a candidate wherever that symbol starts.\<close>

definition best_of_entry :: "u64 \<Rightarrow> dbg_sym_entry \<Rightarrow> sym option run" where
  "best_of_entry vmaddr entry =
     (if alen (syms entry) = 0 \<or> vmaddr < load_addr entry then Inr None
      else if alen (syms entry) = 1 then bind_run (item_at (syms entry) 0) (\<lambda>s. Inr (Some s))
      else bind_run (bsearch_lc sym_func_start (syms entry) vmaddr 0 (int_of_len (alen (syms entry) - 1)))
        (\<lambda>bestsymidx. if bestsymidx = - 1 then Inr None
           else bind_run (item_at (syms entry) bestsymidx) (\<lambda>s. Inr (Some s))))"

definition add_candidate :: "u64 \<Rightarrow> dbg_sym_entry \<Rightarrow> goodcombo array \<Rightarrow> goodcombo array run" where
  "add_candidate vmaddr entry combos =
     bind_run (best_of_entry vmaddr entry) (\<lambda>best. case best of
        None \<Rightarrow> Inr combos
      | Some s \<Rightarrow> bind_run (array_insert (Some combos) (Some \<lparr>gc_entry = entry, gc_sym = s\<rparr>))
          (\<lambda>(_, a). case a of None \<Rightarrow> Inl NullDeref | Some c \<Rightarrow> Inr c))"

text \<open>\<open>qs\<close> is the \<^verbatim>\<open>qsort\<close> of the C library. The index of the search is used as it is.\<close>

type_synonym qsort_fun =
  "(goodcombo vptr \<Rightarrow> goodcombo vptr \<Rightarrow> int) \<Rightarrow> goodcombo vptr list \<Rightarrow> goodcombo vptr list"

definition find_symbol :: "qsort_fun \<Rightarrow> dbg_sym_entry list \<Rightarrow> u64 \<Rightarrow> goodcombo option run" where
  "find_symbol qs symlist vmaddr =
     bind_run (run_list (add_candidate vmaddr) symlist array_new) (\<lambda>good.
       if alen good = 0 then Inr None
       else (case array_qsort (qs goodcombocmp) (Some good) of
               (_, None) \<Rightarrow> Inl NullDeref
             | (_, Some good1) \<Rightarrow>
                 bind_run (bsearch_lc (sym_func_start \<circ> gc_sym) good1 vmaddr 0 (int_of_len (alen good1 - 1)))
                   (\<lambda>best. bind_run (item_at good1 best) (\<lambda>gc. Inr (Some gc)))))"

definition sym_text :: "'k mach \<Rightarrow> 'k \<Rightarrow> u8 list \<Rightarrow> dbg_sym_entry \<Rightarrow> sym \<Rightarrow> string run" where
  "sym_text M k stale entry s =
     (case dsc_symname s of
        UNNAMED_SYMBOL \<Rightarrow> Inr (''iosdbg_unnamed_symbol'' @ show_dec (sym_num s))
      | p \<Rightarrow>
          if from_dsc entry then (case p of SymText t \<Rightarrow> Inr t | _ \<Rightarrow> Inl OutOfBounds)
          else bind_run (read_memory_at_location M k (strtab_vmaddr entry + word_of_int (sym_num s)) 512)
            (\<lambda>(_, bs). let buf = bs @ drop (length bs) stale in
               if 0 \<in> set buf then Inr (map (\<lambda>b. char_of (unat b)) (takeWhile (\<lambda>b. b \<noteq> 0) buf))
               else Inl OutOfBounds))"

text \<open>
  The names of the image and the symbol, and the distance as an \<^verbatim>\<open>unsigned int\<close>; \<open>None\<close> is the result 1.
  \<open>stale\<close> is the 512 bytes \<^verbatim>\<open>malloc\<close> gives for the name.
\<close>

definition get_symbol_info_from_address ::
    "qsort_fun \<Rightarrow> 'k mach \<Rightarrow> 'k \<Rightarrow> u8 list \<Rightarrow> dbg_sym_entry list \<Rightarrow> u64 \<Rightarrow> (string \<times> string \<times> u32) option run" where
  "get_symbol_info_from_address qs M k stale symlist vmaddr =
     bind_run (find_symbol qs symlist vmaddr) (\<lambda>r. case r of
        None \<Rightarrow> Inr None
      | Some gc \<Rightarrow> bind_run (sym_text M k stale (gc_entry gc) (gc_sym gc)) (\<lambda>symname.
          Inr (Some (imagename (gc_entry gc), symname, ucast (vmaddr - sym_func_start (gc_sym gc))))))"

text \<open>
  \<open>line_info\<close> is the answer of \<^verbatim>\<open>sym_get_line_info_from_pc\<close> to an address before sliding, \<open>None\<close> on an
  error: the source file, when there is one, and the line (printed with \<^verbatim>\<open>%lld\<close>). It is there when the
  target has debug information.
\<close>

definition after_last_slash :: "string \<Rightarrow> string" where
  "after_last_slash s = rev (takeWhile (\<lambda>c. c \<noteq> CHR ''/'') (rev s))"

definition create_frame_string ::
    "qsort_fun \<Rightarrow> 'k mach \<Rightarrow> 'k \<Rightarrow> u8 list \<Rightarrow> dbg_sym_entry list option \<Rightarrow>
     (u64 \<Rightarrow> (string option \<times> u64) option) option \<Rightarrow> u64 \<Rightarrow> u64 \<Rightarrow> cbuf \<Rightarrow> cbuf run" where
  "create_frame_string qs M k stale symbols line_info slide vmaddr frstr =
     (case symbols of None \<Rightarrow> Inr frstr
      | Some symlist \<Rightarrow>
          bind_run (get_symbol_info_from_address qs M k stale symlist vmaddr) (\<lambda>r. case r of
             None \<Rightarrow> Inr frstr
           | Some (imgname, symname, symdist) \<Rightarrow>
               (let frstr1 = concat_c frstr (imgname @ ''`'' @ symname);
                    frstr2 = (if symdist > 0 then concat_c frstr1 ('' + '' @ show_hex (ucast symdist)) else frstr1)
                in Inr (case line_info of
                     None \<Rightarrow> frstr2
                   | Some f \<Rightarrow> (case f (vmaddr - slide) of
                        None \<Rightarrow> frstr2
                      | Some (None, _) \<Rightarrow> frstr1
                      | Some (Some pc_srcfile, line) \<Rightarrow>
                          concat_c frstr1 ('' at '' @ after_last_slash pc_srcfile @ '':'' @ show_dec (sint line)))))))"

text \<open>The tables are freed with their images; the list keeps its nodes, which point to freed entries.\<close>

definition destroy_all_symbol_entries :: "dbg_sym_entry list option \<Rightarrow> dbg_sym_entry option list option" where
  "destroy_all_symbol_entries symbols = map_option (map (\<lambda>_. None)) symbols"

section \<open>The symbol found is the nearest one\<close>

text \<open>
  The tables \<^verbatim>\<open>image.c\<close> makes: the symbols of an image in the order of their starts, fewer than an \<^verbatim>\<open>int\<close>
  counts, in the lower half of the address space.
\<close>

definition entry_syms :: "dbg_sym_entry \<Rightarrow> sym list" where
  "entry_syms e = map the (array_list (syms e))"

definition entry_ok :: "dbg_sym_entry \<Rightarrow> bool" where
  "entry_ok e \<longleftrightarrow> array_ok (syms e) \<and> None \<notin> set (array_list (syms e)) \<and> unat (alen (syms e)) < 2 ^ 31 \<and>
     sorted (map sym_func_start (entry_syms e)) \<and> (\<forall>s \<in> set (entry_syms e). sym_func_start s < 2 ^ 63)"

definition considered :: "u64 \<Rightarrow> dbg_sym_entry list \<Rightarrow> sym set" where
  "considered v es = (\<Union>e \<in> {e \<in> set es. load_addr e \<le> v}. set (entry_syms e))"

definition qsort_sorts :: "qsort_fun \<Rightarrow> bool" where
  "qsort_sorts qs \<longleftrightarrow> (\<forall>xs. None \<notin> set xs \<longrightarrow> mset (qs goodcombocmp xs) = mset xs \<and>
     sorted_wrt (\<lambda>a b. goodcombocmp a b \<le> 0) (qs goodcombocmp xs))"

lemma array_list_items:
  assumes "array_ok a"
  shows "length (array_list a) = unat (alen a)"
    and "\<lbrakk>0 \<le> i; i < int (unat (alen a))\<rbrakk> \<Longrightarrow>
      item_at a i = (case array_list a ! nat i of None \<Rightarrow> Inl NullDeref | Some x \<Rightarrow> Inr x)"
proof -
  have le: "unat (alen a) \<le> unat (acapacity a)" using assms by (simp add: array_ok_def word_le_nat_alt)
  then show "length (array_list a) = unat (alen a)"
    using assms by (auto simp: array_ok_def array_list_def split: option.splits)
  assume i: "0 \<le> i" "i < int (unat (alen a))"
  then have "alen a \<noteq> 0" by auto
  then obtain b where "items a = Some b" "length b = unat (acapacity a)"
    using assms by (auto simp: array_ok_def split: option.splits)
  moreover from this have "i < int (length b)" "\<not> i < 0" "nat i < unat (alen a)" using i le by linarith+
  ultimately show "item_at a i = (case array_list a ! nat i of None \<Rightarrow> Inl NullDeref | Some x \<Rightarrow> Inr x)"
    by (simp add: item_at_def array_list_def del: of_nat_unat)
qed

lemma signed_take_bit_small:
  fixes k :: int
  assumes "0 \<le> k" "k < 2 ^ n"
  shows "signed_take_bit n k = k"
proof (rule signed_take_bit_int_eq_self)
  have "- (2 ^ n) \<le> (0 :: int)" by simp
  then show "- (2 ^ n) \<le> k" using assms(1) by (rule order_trans)
qed (use assms in simp)

lemma int_of_len_small:
  assumes "unat n < 2 ^ 31"
  shows "int_of_len n = int (unat n)"
proof -
  have "int (unat n) < int (2 ^ 31)" using assms by (simp only: of_nat_less_iff)
  then have "uint n < 2 ^ 31" by simp
  then have "take_bit 32 (uint n) = uint n" "signed_take_bit 31 (uint n) = uint n"
    by (simp_all add: take_bit_int_eq_self signed_take_bit_small)
  then show ?thesis by (simp add: int_of_len_def sint_uint unsigned_ucast_eq)
qed

text \<open>The search over all the elements of an array.\<close>

lemma search_whole:
  fixes f :: "'a \<Rightarrow> u64"
  assumes a: "array_ok a" "None \<notin> set (array_list a)" "alen a \<noteq> 0" "unat (alen a) < 2 ^ 31"
    and srt: "sorted (map f (map the (array_list a)))"
  shows "\<exists>r. bsearch_lc f a v 0 (int_of_len (alen a - 1)) = Inr r \<and>
    (if r = - 1 then \<forall>x \<in> set (map the (array_list a)). v < f x
     else \<exists>y. item_at a r = Inr y \<and> y \<in> set (map the (array_list a)) \<and> f y \<le> v \<and>
       (\<forall>x \<in> set (map the (array_list a)). f x \<le> v \<longrightarrow> f x \<le> f y))"
proof -
  let ?l = "map the (array_list a)"
  define n where "n = length ?l"
  have n: "n = unat (alen a)" "0 < n" using a by (simp_all add: n_def array_list_items(1) unat_gt_0)
  have hi: "int_of_len (alen a - 1) = int n - 1"
    using a n by (subst int_of_len_small) (simp_all add: unat_minus_one)
  have it: "item_at a i = Inr (?l ! nat i)" if "0 \<le> i" "i < int n" for i
  proof -
    have "nat i < length (array_list a)" using that by (simp add: n_def nat_less_iff)
    then have "array_list a ! nat i \<noteq> None" "?l ! nat i = the (array_list a ! nat i)"
      using a(2) nth_mem by (metis, simp)
    then show ?thesis using array_list_items(2) [OF a(1), of i] that n by auto
  qed
  have "\<exists>r. bsearch_lc f a v 0 (int n - 1) = Inr r \<and> found_at (f \<circ> (\<lambda>i. ?l ! nat i)) v 0 (int n - 1) r"
  proof (rule bsearch_lc_finds)
    show "range_of a 0 (int n - 1) (\<lambda>i. ?l ! nat i)" using it by (simp add: range_of_def)
    fix i j :: int assume "0 \<le> i" "i \<le> j" "j \<le> int n - 1"
    then show "f (?l ! nat i) \<le> f (?l ! nat j)"
      using sorted_nth_mono [OF srt, of "nat i" "nat j"] by (simp add: n_def nat_less_iff)
  qed (use n(2) in auto)
  then obtain r where r: "bsearch_lc f a v 0 (int n - 1) = Inr r"
    "found_at (f \<circ> (\<lambda>i. ?l ! nat i)) v 0 (int n - 1) r" by blast
  have idx: "\<exists>i. 0 \<le> i \<and> i < int n \<and> x = ?l ! nat i" if "x \<in> set ?l" for x
  proof -
    from that obtain k where "k < n" "x = ?l ! k" unfolding in_set_conv_nth n_def by blast
    then show ?thesis by (intro exI [of _ "int k"]) simp
  qed
  show ?thesis
  proof (cases "r = - 1")
    case True
    then have "\<forall>i. 0 \<le> i \<and> i \<le> int n - 1 \<longrightarrow> v < f (?l ! nat i)" using r(2) by (simp add: found_at_def)
    then have "\<forall>x \<in> set ?l. v < f x" using idx by fastforce
    with True r(1) hi show ?thesis by auto
  next
    case False
    with r(2) have b: "0 \<le> r" "r < int n" "f (?l ! nat r) \<le> v"
      and later: "\<And>i. r < i \<Longrightarrow> i \<le> int n - 1 \<Longrightarrow> v < f (?l ! nat i)" by (auto simp: found_at_def)
    have "f x \<le> f (?l ! nat r)" if "x \<in> set ?l" "f x \<le> v" for x
    proof -
      from idx [OF that(1)] obtain i where i: "0 \<le> i" "i < int n" "x = ?l ! nat i" by blast
      with later [of i] that(2) have "i \<le> r" by force
      with i b show ?thesis using sorted_nth_mono [OF srt, of "nat i" "nat r"]
        by (simp add: n_def nat_less_iff)
    qed
    moreover have "?l ! nat r \<in> set ?l" using b by (intro nth_mem) (simp add: n_def nat_less_iff)
    ultimately show ?thesis using False r(1) hi it [of r] b by auto
  qed
qed

text \<open>The candidate an image gives.\<close>

lemma best_of_entry_finds:
  assumes e: "entry_ok e"
  shows "\<exists>r. best_of_entry v e = Inr r \<and>
    (case r of
       None \<Rightarrow> v < load_addr e \<or> (\<forall>t \<in> set (entry_syms e). v < sym_func_start t)
     | Some s \<Rightarrow> load_addr e \<le> v \<and> s \<in> set (entry_syms e) \<and>
         (\<forall>t \<in> set (entry_syms e). sym_func_start t \<le> v \<longrightarrow> sym_func_start t \<le> sym_func_start s \<and> sym_func_start s \<le> v))"
proof -
  have a: "array_ok (syms e)" "None \<notin> set (array_list (syms e))" "unat (alen (syms e)) < 2 ^ 31"
    and srt: "sorted (map sym_func_start (map the (array_list (syms e))))"
    using e by (auto simp: entry_ok_def entry_syms_def)
  have len: "length (entry_syms e) = unat (alen (syms e))"
    by (simp add: entry_syms_def array_list_items(1) [OF a(1)])
  consider (skip) "alen (syms e) = 0 \<or> v < load_addr e"
    | (one) "alen (syms e) = 1" "load_addr e \<le> v"
    | (more) "alen (syms e) \<noteq> 0" "alen (syms e) \<noteq> 1" "load_addr e \<le> v" by fastforce
  then show ?thesis
  proof cases
    case skip
    with len show ?thesis by (auto simp: best_of_entry_def)
  next
    case one
    with len obtain t where t: "entry_syms e = [t]" by (auto simp: length_Suc_conv)
    then have "array_list (syms e) = [Some t]" using a(2)
      by (auto simp: entry_syms_def Cons_eq_map_conv map_eq_Cons_conv)
    then have "item_at (syms e) 0 = Inr t" using array_list_items(2) [OF a(1), of 0] one by simp
    with one t show ?thesis by (auto simp: best_of_entry_def)
  next
    case more
    from search_whole [OF a(1,2) more(1) a(3) srt, of v] obtain r where
      r: "bsearch_lc sym_func_start (syms e) v 0 (int_of_len (alen (syms e) - 1)) = Inr r"
      "if r = - 1 then \<forall>x \<in> set (entry_syms e). v < sym_func_start x
       else \<exists>y. item_at (syms e) r = Inr y \<and> y \<in> set (entry_syms e) \<and> sym_func_start y \<le> v \<and>
         (\<forall>x \<in> set (entry_syms e). sym_func_start x \<le> v \<longrightarrow> sym_func_start x \<le> sym_func_start y)"
      unfolding entry_syms_def by blast
    with more show ?thesis by (cases "r = - 1") (auto simp: best_of_entry_def not_less)
  qed
qed

text \<open>The candidates collected from a list of images.\<close>

definition combos_of :: "u64 \<Rightarrow> dbg_sym_entry list \<Rightarrow> goodcombo list \<Rightarrow> bool" where
  "combos_of v es cs \<longleftrightarrow>
     (\<forall>c \<in> set cs. gc_entry c \<in> set es \<and> load_addr (gc_entry c) \<le> v \<and> gc_sym c \<in> set (entry_syms (gc_entry c))) \<and>
     (\<forall>t \<in> considered v es. sym_func_start t \<le> v \<longrightarrow>
        (\<exists>c \<in> set cs. sym_func_start t \<le> sym_func_start (gc_sym c) \<and> sym_func_start (gc_sym c) \<le> v))"

lemma combos_of_step:
  assumes "combos_of v es cs"
    and "case r of
       None \<Rightarrow> v < load_addr e \<or> (\<forall>t \<in> set (entry_syms e). v < sym_func_start t)
     | Some s \<Rightarrow> load_addr e \<le> v \<and> s \<in> set (entry_syms e) \<and>
         (\<forall>t \<in> set (entry_syms e). sym_func_start t \<le> v \<longrightarrow> sym_func_start t \<le> sym_func_start s \<and> sym_func_start s \<le> v)"
  shows "combos_of v (es @ [e]) (cs @ (case r of None \<Rightarrow> [] | Some s \<Rightarrow> [\<lparr>gc_entry = e, gc_sym = s\<rparr>]))"
proof (cases r)
  case None
  with assms show ?thesis by (auto simp: combos_of_def considered_def not_le [symmetric])
next
  case (Some s)
  define c where "c = \<lparr>gc_entry = e, gc_sym = s\<rparr>"
  have new: "\<exists>c' \<in> set (cs @ [c]). sym_func_start t \<le> sym_func_start (gc_sym c') \<and> sym_func_start (gc_sym c') \<le> v"
    if "t \<in> considered v (es @ [e])" "sym_func_start t \<le> v" for t
  proof (cases "t \<in> considered v es")
    case True
    with assms(1) that(2) show ?thesis unfolding combos_of_def by auto
  next
    case False
    with that(1) have "t \<in> set (entry_syms e)" by (auto simp: considered_def)
    with assms(2) that(2) Some show ?thesis by (simp add: c_def)
  qed
  from assms(1) have "\<forall>c \<in> set cs. gc_entry c \<in> set (es @ [e]) \<and> load_addr (gc_entry c) \<le> v \<and>
      gc_sym c \<in> set (entry_syms (gc_entry c))" by (auto simp: combos_of_def)
  with new assms(2) Some show ?thesis unfolding combos_of_def by (auto simp: c_def)
qed

lemma collect_candidates:
  assumes "\<forall>e \<in> set es. entry_ok e" "combos_of v pre cs" "array_tight a" "array_list a = map Some cs"
    and "length cs + length es < 2 ^ 31"
  shows "\<exists>a' cs'. run_list (add_candidate v) es a = Inr a' \<and> array_tight a' \<and> array_list a' = map Some cs' \<and>
    combos_of v (pre @ es) cs' \<and> length cs' \<le> length cs + length es"
  using assms
proof (induction es arbitrary: pre cs a)
  case Nil
  then show ?case by auto
next
  case (Cons e es)
  from best_of_entry_finds [of e v] Cons.prems(1) obtain r where r: "best_of_entry v e = Inr r"
    "case r of
       None \<Rightarrow> v < load_addr e \<or> (\<forall>t \<in> set (entry_syms e). v < sym_func_start t)
     | Some s \<Rightarrow> load_addr e \<le> v \<and> s \<in> set (entry_syms e) \<and>
         (\<forall>t \<in> set (entry_syms e). sym_func_start t \<le> v \<longrightarrow> sym_func_start t \<le> sym_func_start s \<and> sym_func_start s \<le> v)"
    by auto
  define cs1 where "cs1 = cs @ (case r of None \<Rightarrow> [] | Some s \<Rightarrow> [\<lparr>gc_entry = e, gc_sym = s\<rparr>])"
  have c1: "combos_of v (pre @ [e]) cs1" unfolding cs1_def by (rule combos_of_step [OF Cons.prems(2) r(2)])
  have small: "unat (alen a) < 2 ^ 56"
    using Cons.prems(3-5) array_list_items(1) [of a] by (auto simp: array_tight_def)
  obtain a1 where a1: "add_candidate v e a = Inr a1" "array_tight a1" "array_list a1 = map Some cs1"
  proof (cases r)
    case None
    with r(1) Cons.prems show ?thesis by (intro that [of a]) (auto simp: add_candidate_def cs1_def)
  next
    case (Some s)
    from array_insert_tight [OF Cons.prems(3) small, of "Some \<lparr>gc_entry = e, gc_sym = s\<rparr>"] Some r(1) Cons.prems(4)
    show ?thesis by (auto simp: add_candidate_def cs1_def intro!: that)
  qed
  have l1: "length cs1 \<le> length cs + 1" by (auto simp: cs1_def split: option.splits)
  with Cons.prems have "\<exists>a' cs'. run_list (add_candidate v) es a1 = Inr a' \<and> array_tight a' \<and>
      array_list a' = map Some cs' \<and> combos_of v ((pre @ [e]) @ es) cs' \<and> length cs' \<le> length cs1 + length es"
    by (intro Cons.IH c1 a1) auto
  with a1(1) l1 show ?case by fastforce
qed

text \<open>Sorting the candidates.\<close>

lemma array_qsort_list:
  assumes "array_ok a" "items a \<noteq> None" "length (srt (array_list a)) = length (array_list a)"
  obtains a' where "array_qsort srt (Some a) = (ARRAY_OK, Some a')" "array_ok a'" "alen a' = alen a"
    "array_list a' = srt (array_list a)"
proof -
  from assms(1,2) obtain b where b: "items a = Some b" "length b = unat (acapacity a)"
    by (auto simp: array_ok_def split: option.splits)
  have le: "unat (alen a) \<le> length b" using assms(1) b by (simp add: array_ok_def word_le_nat_alt)
  show ?thesis
    by (rule that [of "a\<lparr>items := Some (srt (take (unat (alen a)) b) @ drop (unat (alen a)) b)\<rparr>"])
       (use assms b le in \<open>auto simp: array_qsort_def array_ok_def array_list_def\<close>)
qed

lemma sorted_combos:
  assumes "sorted_wrt (\<lambda>a b. goodcombocmp a b \<le> 0) (map Some cs)"
    and "\<forall>c \<in> set cs. sym_func_start (gc_sym c) < 2 ^ 63"
  shows "sorted (map (sym_func_start \<circ> gc_sym) cs)"
proof -
  have s: "sint w = uint w" if "w < 2 ^ 63" for w :: u64
    using that signed_take_bit_small [of "uint w" 63] by (simp add: sint_uint word_less_def)
  from assms show ?thesis
    by (auto simp: sorted_map sorted_wrt_map goodcombocmp_def Let_def s word_le_def
        intro: sorted_wrt_mono_rel [rotated] split: if_splits)
qed

theorem nearest_symbol:
  assumes qs: "qsort_sorts qs" and es: "\<forall>e \<in> set es. entry_ok e" "length es < 2 ^ 31"
    and some: "t0 \<in> considered v es" "sym_func_start t0 \<le> v"
  shows "\<exists>gc. find_symbol qs es v = Inr (Some gc) \<and>
    gc_entry gc \<in> set es \<and> gc_sym gc \<in> set (entry_syms (gc_entry gc)) \<and> load_addr (gc_entry gc) \<le> v \<and>
    sym_func_start (gc_sym gc) \<le> v \<and>
    (\<forall>t \<in> considered v es. sym_func_start t \<le> v \<longrightarrow> sym_func_start t \<le> sym_func_start (gc_sym gc))"
proof -
  have "combos_of v [] []" by (simp add: combos_of_def considered_def)
  from collect_candidates [OF es(1) this array_new_tight] es(2) array_new_ok(2)
  obtain a cs where a: "run_list (add_candidate v) es array_new = Inr a" "array_tight a"
    "array_list a = map Some cs" "combos_of v es cs" "length cs \<le> length es" by auto
  have ok: "array_ok a" using a(2) by (simp add: array_tight_def)
  from a(4) some obtain c0 where c0: "c0 \<in> set cs" "sym_func_start (gc_sym c0) \<le> v"
    unfolding combos_of_def by blast
  have len: "unat (alen a) = length cs" using array_list_items(1) [OF ok] a(3) by simp
  with c0 have nz: "alen a \<noteq> 0" by auto
  then have it: "items a \<noteq> None" using ok by (auto simp: array_ok_def split: option.splits)
  define l where "l = qs goodcombocmp (array_list a)"
  have l: "mset l = mset (map Some cs)" "sorted_wrt (\<lambda>a b. goodcombocmp a b \<le> 0) l"
    using qs a(3) by (auto simp: qsort_sorts_def l_def)
  define cs1 where "cs1 = map the l"
  have "None \<notin> set l" using l(1) by (metis list.set_map image_iff mset_eq_setD option.distinct(1))
  then have l1: "l = map Some cs1" unfolding cs1_def by (induction l) auto
  have ms: "mset cs1 = mset cs" 
    unfolding cs1_def mset_map l(1) by (simp add: multiset.map_comp comp_def)
  have st: "set cs1 = set cs" "length cs1 = length cs"
    using mset_eq_setD [OF ms] mset_eq_length [OF ms] by auto
  obtain a1 where a1: "array_qsort (qs goodcombocmp) (Some a) = (ARRAY_OK, Some a1)" "array_ok a1"
    "alen a1 = alen a" "array_list a1 = l"
    using array_qsort_list [OF ok it, of "qs goodcombocmp"] l1 st a(3) unfolding l_def [symmetric] by auto
  have "\<forall>c \<in> set cs1. sym_func_start (gc_sym c) < 2 ^ 63"
    using a(4) es(1) st by (auto simp: combos_of_def entry_ok_def)
  then have "sorted (map (sym_func_start \<circ> gc_sym) cs1)" using l(2) l1 by (intro sorted_combos) auto
  then have srt: "sorted (map (sym_func_start \<circ> gc_sym) (map the (array_list a1)))"
    using a1(4) l1 by (simp add: comp_def)
  have m: "map the (array_list a1) = cs1" "None \<notin> set (array_list a1)" "alen a1 \<noteq> 0" "unat (alen a1) < 2 ^ 31"
    using a1(3,4) l1 nz len a(5) es(2) by (auto simp: comp_def)
  from search_whole [OF a1(2) m(2,3,4) srt, of v] obtain r where
    r: "bsearch_lc (sym_func_start \<circ> gc_sym) a1 v 0 (int_of_len (alen a1 - 1)) = Inr r"
    "if r = - 1 then \<forall>x \<in> set cs1. v < (sym_func_start \<circ> gc_sym) x
     else \<exists>y. item_at a1 r = Inr y \<and> y \<in> set cs1 \<and> (sym_func_start \<circ> gc_sym) y \<le> v \<and>
       (\<forall>x \<in> set cs1. (sym_func_start \<circ> gc_sym) x \<le> v \<longrightarrow> (sym_func_start \<circ> gc_sym) x \<le> (sym_func_start \<circ> gc_sym) y)"
    unfolding m(1) by blast
  have "r \<noteq> - 1" using r(2) c0 st by (auto simp: not_le [symmetric])
  with r(2) obtain y where y: "item_at a1 r = Inr y" "y \<in> set cs" "sym_func_start (gc_sym y) \<le> v"
    "\<forall>x \<in> set cs. sym_func_start (gc_sym x) \<le> v \<longrightarrow> sym_func_start (gc_sym x) \<le> sym_func_start (gc_sym y)"
    using st by auto
  have "find_symbol qs es v = Inr (Some y)"
    using a(1) nz a1(1) r(1) y(1) by (simp add: find_symbol_def)
  moreover have "sym_func_start t \<le> sym_func_start (gc_sym y)" if t: "t \<in> considered v es" "sym_func_start t \<le> v" for t
  proof -
    from a(4) t obtain c where "c \<in> set cs" "sym_func_start t \<le> sym_func_start (gc_sym c)"
      "sym_func_start (gc_sym c) \<le> v" unfolding combos_of_def by blast
    with y(4) show ?thesis by fastforce
  qed
  ultimately show ?thesis using y a(4) by (auto simp: combos_of_def)
qed

end
