(* ===== verification/Disasm.thy ===== *)
theory Disasm
  imports Watchpoints Symbols
begin

text \<open>
  Showing the instructions of the target, \<^verbatim>\<open>disassemble_at_location\<close> of \<^verbatim>\<open>source/memutils.c\<close>: it sets the
  variables \<^verbatim>\<open>$_\<close> and \<^verbatim>\<open>$__\<close>, shows the instructions with those behind software breakpoints, marks the one
  the thread in focus is at and names the targets of branches.
\<close>

section \<open>What the debugger calls\<close>

text \<open>
  The calls to the outside: the kernel, the C library, the disassembler (an instruction and its address;
  \<open>None\<close> on failure), \<^verbatim>\<open>ptrace(PT_THUPDATE)\<close>, the names of the signals. \<open>symtab\<close> is \<^verbatim>\<open>debuggee->symbols\<close>
  and \<open>slide\<close> \<^verbatim>\<open>debuggee->aslr_slide\<close>, which stay the same while the target is debugged. \<open>stale_name\<close> and
  \<open>stack_junk\<close> are memory before it is written.
\<close>

record 'k denv =
  mc :: "'k mach"
  cve :: cvenv
  armadillo :: "u64 \<Rightarrow> u64 \<Rightarrow> string option"
  ptrace_thupdate :: "'k \<Rightarrow> u32 \<Rightarrow> 'k"
  sys_signame :: "string list"
  qsort :: qsort_fun
  symtab :: "dbg_sym_entry list option"
  line_info :: "(u64 \<Rightarrow> (string option \<times> u64) option) option"
  slide :: u64
  stale_name :: "u8 list"
  stack_junk :: "u8 list"

definition frame_string :: "'k denv \<Rightarrow> 'k dbg \<Rightarrow> u64 \<Rightarrow> cbuf \<Rightarrow> cbuf run" where
  "frame_string E d vmaddr frstr =
     create_frame_string (qsort E) (mc E) (kern d) (stale_name E) (symtab E) (line_info E) (slide E) vmaddr frstr"

definition symbol_name :: "'k denv \<Rightarrow> 'k dbg \<Rightarrow> dbg_sym_entry list \<Rightarrow> u64 \<Rightarrow> string option run" where
  "symbol_name E d symlist vmaddr =
     bind_run (get_symbol_info_from_address (qsort E) (mc E) (kern d) (stale_name E) symlist vmaddr)
       (\<lambda>r. Inr (map_option (\<lambda>(_, symname, _). symname) r))"

section \<open>Pointers to the names of functions\<close>

text \<open>
  \<^verbatim>\<open>previous_fxn\<close> and \<^verbatim>\<open>current_fxn\<close> are freed before the next lookup, which leaves them as they are when it
  fails: freed unless they were NULL.
\<close>

datatype fxn = FNull | FText string | FFreed

definition look_again :: "'k denv \<Rightarrow> 'k dbg \<Rightarrow> dbg_sym_entry list \<Rightarrow> u64 \<Rightarrow> fxn \<Rightarrow> fxn run" where
  "look_again E d symlist vmaddr p =
     (case p of FFreed \<Rightarrow> Inl UseAfterFree
      | _ \<Rightarrow> bind_run (symbol_name E d symlist vmaddr) (\<lambda>r. Inr (case r of
           Some s \<Rightarrow> FText s | None \<Rightarrow> (if p = FNull then FNull else FFreed))))"

text \<open>\<^verbatim>\<open>!previous_fxn || strcmp(previous_fxn, current_fxn) != 0\<close>.\<close>

definition new_function :: "fxn \<Rightarrow> fxn \<Rightarrow> bool run" where
  "new_function prev cur =
     (case prev of FNull \<Rightarrow> Inr True
      | FFreed \<Rightarrow> Inl UseAfterFree
      | FText s \<Rightarrow> (case cur of FNull \<Rightarrow> Inl NullDeref | FFreed \<Rightarrow> Inl UseAfterFree
                   | FText t \<Rightarrow> Inr (s \<noteq> t)))"

section \<open>One instruction\<close>

text \<open>An automatic variable is set, and a failure described in the output.\<close>

definition set_auto :: "'k denv \<Rightarrow> string \<Rightarrow> u64 \<Rightarrow> 'k dbg \<Rightarrow> cbuf \<Rightarrow> ('k dbg \<times> cbuf) run" where
  "set_auto E name v d out =
     bind_run (set_convvar (cve E) (vars d) (fresh d) (Some name) (Some (show_hex v)) None) (\<lambda>(vs, e).
       Inr (d\<lparr>vars := vs, fresh := fresh d + 1\<rparr>, desc_auto_convvar_error_if_needed out (Some name) e))"

definition ljust :: "nat \<Rightarrow> string \<Rightarrow> string" where
  "ljust n s = s @ replicate (n - length s) (CHR '' '')"

definition esc :: "string \<Rightarrow> string" where
  "esc s = CHR 0x1B # s"

text \<open>
  The instruction is read as eight bytes from a buffer of four, so the upper half is what lies behind it
  on the stack; an instruction with a software breakpoint is the one the breakpoint keeps.
\<close>

definition fetch_instr :: "'k denv \<Rightarrow> 'k dbg \<Rightarrow> u64 \<Rightarrow> (kern_return \<times> u64) run" where
  "fetch_instr E d loc =
     bind_run (read_memory_at_location (mc E) (kern d) loc 4) (\<lambda>(err, bs).
       Inr (err, case find_bp_with_address loc d of
                   Some (_, active) \<Rightarrow> old_instruction active
                 | None \<Rightarrow> number_le (bs @ drop (length bs) (stack_junk E))))"

text \<open>
  Where a branch goes: 0 when that is not known. \<^verbatim>\<open>__x\<close> has 29 registers; \<^verbatim>\<open>__x[29]\<close> is the next field of the
  structure, \<^verbatim>\<open>__fp\<close>, and \<^verbatim>\<open>__x[31]\<close>, for the zero register, is \<^verbatim>\<open>__sp\<close>.
\<close>

definition branch_target :: "thread_state64 \<Rightarrow> u64 \<Rightarrow> branchinfo \<Rightarrow> u64 run" where
  "branch_target ts loc bi =
     (if kind bi \<noteq> UNCOND_BRANCH_REGISTER then Inr (scast (imm bi) + loc)
      else if ts_pc ts = loc then
        (if rn bi = 30 then Inr (ts_lr ts)
         else (let fields = ts_x ts @ [ts_fp ts, ts_lr ts, ts_sp ts] in
               if unat (rn bi) < length fields then Inr (fields ! unat (rn bi)) else Inl OutOfBounds))
      else Inr 0)"

text \<open>The C library prints a NULL string as \<^verbatim>\<open>(null)\<close>.\<close>

definition show_branch :: "'k denv \<Rightarrow> 'k dbg \<Rightarrow> thread_state64 \<Rightarrow> u64 \<Rightarrow> u64 \<Rightarrow> cbuf \<Rightarrow> cbuf run" where
  "show_branch E d ts loc instr out =
     bind_run (is_branch (ucast instr)) (\<lambda>b. case b of
        None \<Rightarrow> Inr out
      | Some bi \<Rightarrow> bind_run (branch_target ts loc bi) (\<lambda>btarget.
          if btarget \<noteq> 0 \<and> symtab E \<noteq> None then
            bind_run (frame_string E d btarget None) (\<lambda>frstr.
              Inr (concat_c out (esc ''[1m ; '' @
                (if kind bi = UNCOND_BRANCH_REGISTER then BIRN_TABLE ! unat (rn bi) @ '' = '' else []) @
                (case frstr of None \<Rightarrow> ''(null)'' | Some s \<Rightarrow> s) @ esc ''[0m'')))
          else Inr out))"

definition show_header :: "'k denv \<Rightarrow> 'k dbg \<Rightarrow> fxn \<Rightarrow> fxn \<Rightarrow> u64 \<Rightarrow> cbuf \<Rightarrow> cbuf run" where
  "show_header E d prev cur loc out =
     (if symtab E = None then Inr out
      else bind_run (new_function prev cur) (\<lambda>b. if \<not> b then Inr out
        else bind_run (frame_string E d loc None) (\<lambda>frstr.
          Inr (case frstr of Some s \<Rightarrow> concat_c out (esc ''[1m'' @ s @ esc ''[0m:'' @ [CHR 0x0A])
               | None \<Rightarrow> concat_c out [CHR 0x0A]))))"

text \<open>
  The body of the loop up to the end of the line: the result of the Mach calls, the state, the output.
  With no thread in focus the states of all threads are fetched before NULL is read through.
\<close>

definition show_instr :: "'k denv \<Rightarrow> u64 \<Rightarrow> 'k dbg \<Rightarrow> cbuf \<Rightarrow> (kern_return \<times> 'k dbg \<times> cbuf) run" where
  "show_instr E loc d out =
     bind_run (fetch_instr E d loc) (\<lambda>(_, instr).
     bind_run (set_auto E ''$__'' instr d out) (\<lambda>(d1, out1).
       case get_focused_thread d1 of None \<Rightarrow> Inl NullDeref
       | Some (a, _) \<Rightarrow>
          (let (err, d2) = get_thread_state (mc E) (Some a) d1 in
           if err \<noteq> KERN_SUCCESS then Inr (KERN_FAILURE, d2, out1)
           else (case pl_get (threads d2) a of None \<Rightarrow> Inl UseAfterFree
             | Some t \<Rightarrow>
                (let disassembled = (case armadillo E instr loc of None \<Rightarrow> ''(disas failed)'' | Some s \<Rightarrow> s);
                     line = (if ts_pc (thread_state t) = loc then ''->  '' else ''    '') @ show_hex loc @ '':  '' @
                            ljust 40 disassembled
                 in bind_run (show_branch E d2 (thread_state t) loc instr (concat_c out1 line)) (\<lambda>out2.
                      Inr (KERN_SUCCESS, d2, concat_c out2 [CHR 0x0A])))))))"

section \<open>The loop\<close>

definition next_names ::
    "'k denv \<Rightarrow> 'k dbg \<Rightarrow> u64 \<Rightarrow> fxn \<Rightarrow> fxn \<Rightarrow> (fxn \<times> fxn) run" where
  "next_names E d loc prev cur =
     (case symtab E of None \<Rightarrow> Inr (prev, cur)
      | Some symlist \<Rightarrow>
          bind_run (look_again E d symlist loc prev) (\<lambda>prev1.
          bind_run (look_again E d symlist (loc + 4) cur) (\<lambda>cur1. Inr (prev1, cur1))))"

function disas_loop ::
    "'k denv \<Rightarrow> u64 \<Rightarrow> u64 \<Rightarrow> u64 \<Rightarrow> fxn \<Rightarrow> fxn \<Rightarrow> 'k dbg \<Rightarrow> cbuf \<Rightarrow> (kern_return \<times> 'k dbg \<times> cbuf) run" where
  "disas_loop E location lim cur_loc prev cur d out =
     (if cur_loc < lim then
        bind_run (read_memory_at_location (mc E) (kern d) cur_loc 4) (\<lambda>(err, _).
          if err \<noteq> KERN_SUCCESS
          then Inr (err, d, concat_c out (concat [''could not read memory at '', show_hex location, '': '',
                 mach_error_string (mc E) err, [CHR 0x0A]]))
          else bind_run (show_header E d prev cur cur_loc out) (\<lambda>out1.
               bind_run (show_instr E cur_loc d out1) (\<lambda>(ret, d1, out2).
                 if ret \<noteq> KERN_SUCCESS then Inr (ret, d1, out2)
                 else bind_run (next_names E d1 cur_loc prev cur) (\<lambda>(prev1, cur1).
                   if cur_loc + 4 < cur_loc then Inl Diverges
                   else disas_loop E location lim (cur_loc + 4) prev1 cur1 d1 out2))))
      else if symtab E \<noteq> None \<and> (cur = FFreed \<or> prev = FFreed) then Inl UseAfterFree
      else Inr (KERN_SUCCESS, d, out))"
  by pat_completeness auto
termination
proof (relation "measure (\<lambda>(E, l, lim, c, p, q, d, e). unat lim - unat c)", goal_cases)
  case 1
  show ?case by simp
next
  case (2 E location lim cur_loc)
  then have "cur_loc < cur_loc + 4" by (simp add: not_less order.strict_iff_order)
  with 2 show ?case by (simp add: word_less_nat_alt)
qed

declare disas_loop.simps [simp del]

definition disassemble_at_location ::
    "'k denv \<Rightarrow> u64 \<Rightarrow> u32 \<Rightarrow> 'k dbg \<Rightarrow> cbuf \<Rightarrow> (kern_return \<times> 'k dbg \<times> cbuf) run" where
  "disassemble_at_location E location num_instrs d out =
     bind_run (set_auto E ''$_'' location d out) (\<lambda>(d1, out1).
     bind_run (case symtab E of None \<Rightarrow> Inr FNull
               | Some symlist \<Rightarrow> look_again E d1 symlist location FNull) (\<lambda>current_fxn.
       disas_loop E location (location + scast (num_instrs * 4)) location FNull current_fxn d1 out1))"

section \<open>Numbers as values of variables\<close>

lemma show_hex_chars:
  "show_hex w \<noteq> []" "\<forall>c \<in> set (show_hex w). c = CHR ''x'' \<or> is_base_digit 16 c"
proof -
  have "show_base 16 (uint w) \<noteq> []" "\<forall>c \<in> set (show_base 16 (uint w)). is_base_digit 16 c"
    using show_base_digits [of 16 "uint w"] digit_char_base_digit by auto
  moreover have "is_base_digit 16 (CHR ''0'')" by code_simp
  ultimately show "show_hex w \<noteq> []" "\<forall>c \<in> set (show_hex w). c = CHR ''x'' \<or> is_base_digit 16 c"
    by (auto simp: show_hex_def)
qed

lemma last_at_None: "last_at c v = None \<longleftrightarrow> c \<notin> set v"
  by (induction v) (auto split: option.splits)

lemma determine_kind_hex: "determine_kind (Some (show_hex w)) None = Inr (CONVVAR_INTEGER, None)"
proof -
  have n: "\<not> is_base_digit 16 (CHR ''.'')" "\<not> is_base_digit 16 (CHR 0x22)" by code_simp+
  have c: "CHR ''.'' \<notin> set (show_hex w)" "CHR 0x22 \<notin> set (show_hex w)"
  proof -
    show "CHR ''.'' \<notin> set (show_hex w)" using show_hex_chars(2) [of w, THEN bspec, of "CHR ''.''"] n(1) by auto
    show "CHR 0x22 \<notin> set (show_hex w)" using show_hex_chars(2) [of w, THEN bspec, of "CHR 0x22"] n(2) by auto
  qed
  have "cchar (show_hex w) 0 = hd (show_hex w)" using show_hex_chars(1) [of w] by (simp add: cchar_def hd_conv_nth)
  moreover have "hd (show_hex w) \<noteq> CHR 0x22" using c(2) show_hex_chars(1) [of w] hd_in_set by metis
  ultimately show ?thesis using show_hex_chars(1) [of w] c(1)
    by (simp add: determine_kind_def Let_def first_at_None [THEN iffD2] last_at_None [THEN iffD2])
qed

lemma update_hex:
  "vkind var = CONVVAR_INTEGER \<Longrightarrow> update_convvar E var (Some (show_hex w)) None =
    Inr (Some (var\<lparr>vdata := DInteger (saturate (uint w)), vstate := CONVVAR_NONVOID\<rparr>), None)"
  using show_hex_chars(1) [of w] by (simp add: update_convvar_def strtol_show_hex)

text \<open>The addresses of the variables have been given out.\<close>

definition vars_ok :: "'k dbg \<Rightarrow> bool" where
  "vars_ok d \<longleftrightarrow> cvars_ok (vars d) \<and> (\<forall>c \<in> set (cells_of (vars d)). fst c < fresh d)"

lemma set_hex:
  assumes ok: "cvars_ok vv" and n: "n = CHR ''$'' # n'" "n \<notin> set bad_names"
  shows "\<exists>vv'. set_convvar E vv a (Some n) (Some (show_hex w)) None = Inr (vv', None) \<and>
    fst ` set (cells_of vv') \<subseteq> insert a (fst ` set (cells_of vv))"
proof (cases vv)
  case None
  then show ?thesis using n determine_kind_hex [of w] update_hex [of _ E w]
    by (simp add: set_convvar_def invalid_name_def convvar_exists_def create_convvar_def Let_def cells_of_def)
next
  case (Some cs)
  show ?thesis
  proof (cases rule: lookup_ok [OF ok, of n])
    case 1
    then have "convvar_exists vv (Some n) None = Inr (False, None)"
      using n Some by (simp add: convvar_exists_def cchar_def)
    with 1 Some n show ?thesis using determine_kind_hex [of w] update_hex [of _ E w]
      by (simp add: set_convvar_def invalid_name_def create_convvar_def Let_def cells_of_def) auto
  next
    case (2 b v)
    then have "convvar_exists vv (Some n) None = Inr (True, None)"
      using n Some by (simp add: convvar_exists_def cchar_def)
    with 2 Some n determine_kind_hex [of w] update_hex [of "v\<lparr>vkind := CONVVAR_INTEGER\<rparr>" E w]
    show ?thesis by (auto simp: set_convvar_def invalid_name_def set_cell_def cells_of_def split: prod.splits if_splits) force+
  qed
qed

lemma set_auto_ok:
  assumes ok: "vars_ok d" and n: "n = CHR ''$'' # n'" "n \<notin> set bad_names"
  obtains vs u where "set_auto E n w d out = Inr (d\<lparr>vars := vs, fresh := fresh d + 1\<rparr>, out)"
    "vars_ok (d\<lparr>vars := vs, fresh := fresh d + 1\<rparr>)" "var_text (cve E) u = Inr (stored_text (cve E) (show_hex w))"
    "\<And>m. var_of vs m = (if m = n then Some u else var_of (vars d) m)"
proof -
  have c: "cvars_ok (vars d)" "fresh d \<notin> fst ` set (cells_of (vars d))" using ok by (auto simp: vars_ok_def)
  from set_hex [OF c(1) n, of "cve E" "fresh d" w] obtain vs where
    vs: "set_convvar (cve E) (vars d) (fresh d) (Some n) (Some (show_hex w)) None = Inr (vs, None)"
    "fst ` set (cells_of vs) \<subseteq> insert (fresh d) (fst ` set (cells_of (vars d)))" by blast
  from set_convvar_updates [OF c vs(1)] obtain u where u: "cvars_ok vs"
    "var_text (cve E) u = Inr (stored_text (cve E) (show_hex w))"
    "\<And>m. var_of vs m = (if m = n then Some u else var_of (vars d) m)" by blast
  have "\<forall>c \<in> set (cells_of vs). fst c < fresh d + 1"
  proof
    fix c assume "c \<in> set (cells_of vs)"
    with vs(2) have "fst c = fresh d \<or> fst c \<in> fst ` set (cells_of (vars d))" by blast
    with ok show "fst c < fresh d + 1" by (auto simp: vars_ok_def)
  qed
  with u(1) have "vars_ok (d\<lparr>vars := vs, fresh := fresh d + 1\<rparr>)" by (simp add: vars_ok_def)
  moreover have "set_auto E n w d out = Inr (d\<lparr>vars := vs, fresh := fresh d + 1\<rparr>, out)"
    using vs(1) by (simp add: set_auto_def desc_auto_convvar_error_if_needed_def)
  ultimately show ?thesis using u that by blast
qed

section \<open>What disassembling keeps\<close>

text \<open>Only the variables and the thread states of the threads change.\<close>

definition stateless :: "machthread plist \<Rightarrow> machthread plist" where
  "stateless ts = map (\<lambda>c. (fst c, (snd c)\<lparr>thread_state := \<lparr>ts_x = [], ts_fp = 0, ts_lr = 0, ts_sp = 0, ts_pc = 0,
     ts_cpsr = 0\<rparr>\<rparr>)) ts"

definition only_shown :: "'k dbg \<Rightarrow> 'k dbg \<Rightarrow> bool" where
  "only_shown d d' \<longleftrightarrow> d' = d\<lparr>vars := vars d', fresh := fresh d', threads := threads d'\<rparr> \<and>
     fresh d \<le> fresh d' \<and> stateless (threads d') = stateless (threads d)"

lemma only_shown_refl [simp]: "only_shown d d"
  by (simp add: only_shown_def)

lemma only_shown_trans: "only_shown d d1 \<Longrightarrow> only_shown d1 d2 \<Longrightarrow> only_shown d d2"
  unfolding only_shown_def by (cases d; cases d1; cases d2) auto

lemma only_shownD:
  assumes "only_shown d d'"
  shows "kern d' = kern d" "breakpoints d' = breakpoints d" "watchpoints d' = watchpoints d"
    "num_breakpoints d' = num_breakpoints d" "num_watchpoints d' = num_watchpoints d"
    "num_hw_bps d' = num_hw_bps d" "num_hw_wps d' = num_hw_wps d" "fresh d \<le> fresh d'"
    "current_breakpoint_id d' = current_breakpoint_id d" "current_watchpoint_id d' = current_watchpoint_id d"
    "stateless (threads d') = stateless (threads d)"
proof -
  note eq = assms [unfolded only_shown_def]
  show "kern d' = kern d" "breakpoints d' = breakpoints d" "watchpoints d' = watchpoints d"
    "num_breakpoints d' = num_breakpoints d" "num_watchpoints d' = num_watchpoints d"
    "num_hw_bps d' = num_hw_bps d" "num_hw_wps d' = num_hw_wps d"
    "current_breakpoint_id d' = current_breakpoint_id d" "current_watchpoint_id d' = current_watchpoint_id d"
    by (subst conjunct1 [OF eq], simp)+
qed (use assms in \<open>simp_all add: only_shown_def\<close>)

text \<open>What a change of the thread states alone does not touch.\<close>

lemma stateless_map:
  assumes "\<And>a t s. f (a, t\<lparr>thread_state := s\<rparr>) = f (a, t)"
  shows "stateless ts = stateless us \<Longrightarrow> map f ts = map f us"
proof -
  have "map f (stateless ts) = map f ts" for ts by (simp add: stateless_def comp_def assms)
  then show "stateless ts = stateless us \<Longrightarrow> map f ts = map f us" by metis
qed

lemma stateless_update: "stateless (pl_update a (\<lambda>t. t\<lparr>thread_state := s\<rparr>) ts) = stateless ts"
  by (simp add: stateless_def pl_update_def comp_def case_prod_beta)

lemma stateless_replace:
  assumes "distinct (map fst ts)" "(a, t) \<in> set ts"
  shows "stateless (pl_update a (\<lambda>_. t\<lparr>thread_state := s\<rparr>) ts) = stateless ts"
proof -
  have "u = t" if "(a, u) \<in> set ts" for u using assms that by (rule eq_key_imp_eq_value [symmetric])
  then show ?thesis by (auto simp: stateless_def pl_update_def)
qed

lemma only_shown_inv:
  assumes "dbg_inv d" "only_shown d d'"
  shows "dbg_inv d'"
proof -
  note f = only_shownD [OF assms(2)]
  have "map fst (threads d') = map fst (threads d)" "map (debug_state \<circ> snd) (threads d') = map (debug_state \<circ> snd) (threads d)"
    using stateless_map [OF _ f(11), of fst] stateless_map [OF _ f(11), of "debug_state \<circ> snd"] by simp_all
  moreover have "thr_ok ts \<longleftrightarrow> distinct (map fst ts) \<and> (\<forall>s \<in> set (map (debug_state \<circ> snd) ts). regs16 s)" for ts
    by (auto simp: thr_ok_def)
  ultimately have "thr_ok (threads d')" using assms(1) unfolding dbg_inv_def by metis
  moreover have "bps_ok d'"
    using assms(1) f unfolding dbg_inv_def bps_ok_def by fastforce
  moreover have "wps_ok d'"
    by (rule wps_ok_fields) (use assms(1) f in \<open>simp_all add: dbg_inv_def\<close>)
  ultimately show ?thesis by (simp add: dbg_inv_def)
qed


section \<open>Decoding and the automatic variables never fail\<close>

lemma figure_cond_total:
  assumes "drop_bit 29 opcode = 2"
  shows "\<exists>c. figure_cond opcode = Inr c"
proof -
  have "bit opcode 31 = bit (drop_bit 29 opcode) 2" by (simp add: bit_drop_bit_eq)
  then have n: "\<not> bit opcode 31" using assms by simp
  have "(2 :: u32) ^ 31 = 0x80000000" by simp
  with n have "opcode AND 0x80000000 = 0" by (metis and_exp_eq_0_iff_not_bit)
  moreover have "NOT 0x7ffffff0 = (0xF OR 0x80000000 :: u32)" by simp
  ultimately have c: "opcode AND NOT 0x7ffffff0 = opcode AND 0xF" by (simp only: bit.conj_disj_distrib) simp
  have "opcode AND 0xF \<le> 0xF" by (rule word_and_le1)
  then have "unat (opcode AND 0xF) \<le> 15" by (simp add: word_le_nat_alt)
  then have "unat (drop_bit 1 (opcode AND 0xF)) < length cond_table"
    by (simp add: unat_drop_bit_eq drop_bit_eq_div unat_div cond_table_def)
  then show ?thesis unfolding figure_cond_def Let_def c by (simp only: not_le [symmetric] if_False) blast
qed

lemma is_branch_total: "\<exists>b. is_branch opcode = Inr b"
proof -
  have "drop_bit 29 opcode = 2" if "figure_kind opcode = COND_BRANCH_IMMEDIATE"
    using that by (auto simp: figure_kind_def Let_def split: if_splits)
  with figure_cond_total [of opcode] show ?thesis by (auto simp: is_branch_def Let_def)
qed

lemma branch_rn_small:
  assumes "is_branch opcode = Inr (Some bi)" "kind bi = UNCOND_BRANCH_REGISTER"
  shows "unat (rn bi) < 32"
proof -
  from assms have r: "rn bi = drop_bit 5 (opcode AND 0x3e0)"
    by (auto simp: is_branch_def Let_def bind_run_Inr branch_rn_def split: if_splits)
  have "opcode AND 0x3e0 \<le> 0x3e0" by (rule word_and_le1)
  then have "unat (opcode AND 0x3e0) \<le> 0x3e0" by (simp add: word_le_nat_alt)
  then show ?thesis by (simp add: r unat_drop_bit_eq drop_bit_eq_div unat_div)
qed

lemma set_auto_shown:
  assumes "vars_ok d" "n = CHR ''$'' # n'" "n \<notin> set bad_names"
  obtains d1 where "set_auto E n w d out = Inr (d1, out)" "vars_ok d1" "only_shown d d1"
    "threads d1 = threads d"
proof -
  from set_auto_ok [OF assms] obtain vs u where
    "set_auto E n w d out = Inr (d\<lparr>vars := vs, fresh := fresh d + 1\<rparr>, out)"
    "vars_ok (d\<lparr>vars := vs, fresh := fresh d + 1\<rparr>)" by blast
  then show ?thesis by (intro that [of "d\<lparr>vars := vs, fresh := fresh d + 1\<rparr>"]) (simp_all add: only_shown_def)
qed

lemma auto_names: "''$_'' \<notin> set bad_names" "''$__'' \<notin> set bad_names"
  by (auto simp: bad_names_def numbered_def)

end
