(* ===== verification/Signals.thy ===== *)
theory Signals
  imports Disasm
begin

text \<open>
  What the debugger does with the signals of its target, \<^verbatim>\<open>source/sigsupport.c\<close>, and their table shown by
  \<^verbatim>\<open>ops_printsiginfo\<close> (\<^verbatim>\<open>source/dbgops.c\<close>).
\<close>

section \<open>The settings\<close>

record sigsetting =
  sig_notify :: int
  sig_pass :: int
  sig_stop :: int

text \<open>The table \<^verbatim>\<open>SETTINGS\<close>, which starts with every setting on.\<close>

definition NSIG :: nat where
  "NSIG = 32"

definition initial_settings :: "sigsetting list" where
  "initial_settings = replicate NSIG \<lparr>sig_notify = 1, sig_pass = 1, sig_stop = 1\<rparr>"

text \<open>
  The three pointers are options, NULL or what they point to. The result is the table, what the pointers
  point to afterwards, and the error.
\<close>

type_synonym sigargs = "int option \<times> int option \<times> int option"

definition sigsettings ::
    "int \<Rightarrow> sigargs \<Rightarrow> bool \<Rightarrow> sigsetting list \<Rightarrow> cbuf \<Rightarrow> (sigsetting list \<times> sigargs \<times> cbuf) run" where
  "sigsettings signo args set_them tab e =
     (if signo < 1 \<or> int NSIG \<le> signo
      then Inr (tab, args, concat_c e (''unknown signal '' @ show_dec signo))
      else (case args of
          (Some n, Some p, Some s) \<Rightarrow>
            if set_them then Inr (tab[nat signo := \<lparr>sig_notify = n, sig_pass = p, sig_stop = s\<rparr>], args, e)
            else (let c = tab ! nat signo in Inr (tab, (Some (sig_notify c), Some (sig_pass c), Some (sig_stop c)), e))
        | _ \<Rightarrow> if set_them then Inl NullDeref
               else Inr (tab, args, concat_c e ''cannot place values into NULL pointers'')))"

section \<open>The names\<close>

text \<open>\<^verbatim>\<open>sys_signame[subcode]\<close> in capitals; an index outside the array of the C library is a fault.\<close>

definition signal_name :: "string list \<Rightarrow> u64 \<Rightarrow> string run" where
  "signal_name names subcode =
     (if unat subcode < length names then Inr (map toupper (names ! unat subcode)) else Inl OutOfBounds)"

text \<open>The variables that \<^verbatim>\<open>sigsettings\<close> fills, uninitialised before: \<open>garbage\<close>.\<close>

definition siginfo_row :: "string list \<Rightarrow> sigsetting list \<Rightarrow> int \<Rightarrow> int \<Rightarrow> cbuf \<Rightarrow> cbuf run" where
  "siginfo_row names tab garbage signo out =
     bind_run (sigsettings signo (Some garbage, Some garbage, Some garbage) False tab None) (\<lambda>(_, (n, p, s), _).
     bind_run (signal_name names (word_of_int signo)) (\<lambda>nm.
       let yn = (\<lambda>v. if v = Some 0 then ''false'' else ''true'') in
       Inr (concat_c out (concat [ljust 11 (''SIG'' @ nm), '' '', ljust 5 (yn p), '' '', ljust 5 (yn s), '' '',
         ljust 6 (yn n), [CHR 0x0A]]))))"

definition ops_printsiginfo :: "string list \<Rightarrow> sigsetting list \<Rightarrow> int \<Rightarrow> cbuf \<Rightarrow> cbuf run" where
  "ops_printsiginfo names tab garbage out =
     run_list (siginfo_row names tab garbage) (map int [1..<NSIG])
       (concat_c (concat_c out (concat [ljust 11 ''NAME'', '' '', ljust 5 ''PASS'', '' '', ljust 5 ''STOP'', '' '',
           ljust 6 ''NOTIFY'', [CHR 0x0A]]))
         (''=========== ===== ===== ======'' @ [CHR 0x0A]))"

section \<open>Reading back and bounds\<close>

lemma sigsettings_bad: "signo < 1 \<or> 32 \<le> signo \<Longrightarrow>
    sigsettings signo args b tab e = Inr (tab, args, concat_c e (''unknown signal '' @ show_dec signo))"
  by (simp add: sigsettings_def NSIG_def)

lemma sigsettings_set:
  assumes "length tab = NSIG" "1 \<le> signo" "signo < 32"
  shows "\<exists>tab'. sigsettings signo (Some n, Some p, Some s) True tab e = Inr (tab', (Some n, Some p, Some s), e) \<and>
    length tab' = NSIG \<and>
    (\<forall>k x y z. 1 \<le> k \<longrightarrow> k < 32 \<longrightarrow> sigsettings k (Some x, Some y, Some z) False tab' e' =
       (if k = signo then Inr (tab', (Some n, Some p, Some s), e')
        else bind_run (sigsettings k (Some x, Some y, Some z) False tab e') (\<lambda>(_, r, e2). Inr (tab', r, e2))))"
proof -
  let ?t = "tab[nat signo := \<lparr>sig_notify = n, sig_pass = p, sig_stop = s\<rparr>]"
  have "nat signo < length tab" using assms by (simp add: NSIG_def)
  then have t: "?t ! nat k = (if k = signo then \<lparr>sig_notify = n, sig_pass = p, sig_stop = s\<rparr> else tab ! nat k)"
    if "1 \<le> k" for k
    using that assms(2) by (cases "k = signo") (auto simp: nth_list_update)
  have "sigsettings signo (Some n, Some p, Some s) True tab e = Inr (?t, (Some n, Some p, Some s), e)"
    using assms by (simp add: sigsettings_def NSIG_def)
  moreover have "sigsettings k (Some x, Some y, Some z) False ?t e' =
      (if k = signo then Inr (?t, (Some n, Some p, Some s), e')
       else bind_run (sigsettings k (Some x, Some y, Some z) False tab e') (\<lambda>(_, r, e2). Inr (?t, r, e2)))"
    if "1 \<le> k" "k < 32" for k x y z
    using that t [OF that(1)] by (simp add: sigsettings_def NSIG_def Let_def)
  ultimately show ?thesis using assms(1) by (intro exI [of _ ?t] conjI allI impI) simp_all
qed

lemma printsiginfo_returns:
  assumes "length names = 32"
  shows "\<exists>out'. ops_printsiginfo names tab garbage out = Inr (Some out')"
proof -
  have row: "\<exists>s'. siginfo_row names tab garbage signo s = Inr s' \<and> s' \<noteq> None" if "signo \<in> set (map int [1..<NSIG])" for signo s
  proof -
    from that obtain k where k: "signo = int k" "1 \<le> k" "k < 32" by (auto simp: NSIG_def)
    then have u: "unat (word_of_int signo :: u64) = k" by (simp add: unat_of_nat)
    obtain n p s' where "sigsettings signo (Some garbage, Some garbage, Some garbage) False tab None = Inr (tab, (n, p, s'), None)"
      using k by (simp add: sigsettings_def NSIG_def Let_def)
    moreover have "signal_name names (word_of_int signo) = Inr (map toupper (names ! k))"
      using u k assms by (simp only: signal_name_def) simp
    ultimately show ?thesis by (simp only: siginfo_row_def bind_run.simps prod.case Let_def concat_c_def) simp
  qed
  have "\<exists>s'. run_list (siginfo_row names tab garbage) (map int [1..<NSIG]) s = Inr s' \<and> s' \<noteq> None" if "s \<noteq> None" for s
  proof (rule run_list_inv)
    show "s \<noteq> None" by (rule that)
    fix x :: int and s :: cbuf assume "x \<in> set (map int [1..<NSIG])"
    from row [OF this] show "\<exists>s'. siginfo_row names tab garbage x s = Inr s' \<and> s' \<noteq> None" .
  qed
  from this [OF concat_c_not_None]
  have "\<exists>o'. run_list (siginfo_row names tab garbage) (map int [1..<NSIG]) (concat_c a b) = Inr (Some o')" for a b
    by blast
  then show ?thesis by (simp only: ops_printsiginfo_def)
qed

end
