(* ===== verification/Exceptions.thy ===== *)
theory Exceptions
  imports Signals
begin

text \<open>
  The handling of the exceptions of the target, \<^verbatim>\<open>source/exception.c\<close>, and the part of the server in
  \<^verbatim>\<open>source/servers.c\<close> that handles a batch of them and decides whether the target resumes by itself.
  Waiting for the end of tracing and the replies to the kernel are not modelled.
\<close>

section \<open>Names and texts\<close>

definition EXC_SOFTWARE :: u32 where
  "EXC_SOFTWARE = 5"

definition EXC_BREAKPOINT :: u32 where
  "EXC_BREAKPOINT = 6"

definition EXC_SOFT_SIGNAL :: u64 where
  "EXC_SOFT_SIGNAL = 0x10003"

definition EXC_ARM_BREAKPOINT :: u64 where
  "EXC_ARM_BREAKPOINT = 1"

definition EXC_ARM_DA_DEBUG :: u64 where
  "EXC_ARM_DA_DEBUG = 0x102"

definition exc_names :: "string list" where
  "exc_names = [''EXC_BAD_ACCESS'', ''EXC_BAD_INSTRUCTION'', ''EXC_ARITHMETIC'', ''EXC_EMULATION'', ''EXC_SOFTWARE'',
     ''EXC_BREAKPOINT'', ''EXC_SYSCALL'', ''EXC_MACH_SYSCALL'', ''EXC_RPC_ALERT'', ''EXC_CRASH'', ''EXC_RESOURCE'',
     ''EXC_GUARD'', ''EXC_CORPSE_NOTIFY'']"

definition exc_str :: "u32 \<Rightarrow> string" where
  "exc_str exception =
     (if 1 \<le> unat exception \<and> unat exception \<le> 13 then exc_names ! (unat exception - 1) else ''<Unknown Exception>'')"

text \<open>
  A signed number: the sign and \<^verbatim>\<open>%#x\<close> of its negation, which is the number itself at the least one. A
  \<^verbatim>\<open>char\<close> or \<^verbatim>\<open>short\<close> is widened to \<^verbatim>\<open>int\<close> with its sign.
\<close>

definition show_signed :: "'a::len word \<Rightarrow> string" where
  "show_signed v = (if v <s 0 then ''-'' else []) @ show_hex (ucast (scast (if v <s 0 then - v else v) :: u32))"

definition show_signed_long :: "u64 \<Rightarrow> string" where
  "show_signed_long v = (if v <s 0 then ''-'' else []) @ show_hex (if v <s 0 then - v else v)"

text \<open>
  Eight bytes are read from each block whatever its size; \<open>behind\<close> is what lies behind a block of fewer
  bytes on the heap.
\<close>

definition long_at :: "u8 list \<Rightarrow> u8 list \<Rightarrow> u64" where
  "long_at data behind = number_le (take 8 (data @ behind))"

definition describe_hit_watchpoint :: "u8 list \<Rightarrow> u8 list \<Rightarrow> u8 list \<Rightarrow> u8 list \<Rightarrow> u32 \<Rightarrow> cbuf \<Rightarrow> cbuf" where
  "describe_hit_watchpoint behind_prev behind_cur prev_data cur_data sz desc =
     (let old_val = long_at prev_data behind_prev; new_val = long_at cur_data behind_cur;
          sh = (\<lambda>v. if sz = 1 then show_signed (ucast v :: 8 word)
                    else if sz = 2 then show_signed (ucast v :: 16 word)
                    else if sz = 4 then show_signed (ucast v :: 32 word)
                    else show_signed_long v)
      in concat_c desc (concat [''Old value: '', sh old_val, [CHR 0x0A], ''New value: '', sh new_val, [CHR 0x0A, CHR 0x0A]]))"

section \<open>The outcome of an exception\<close>

text \<open>
  What the handler reports through its pointers: whether the target should resume by itself, whether the
  description is to be printed, and the description.
\<close>

record verdict =
  should_auto_resume :: bool
  should_print :: bool
  desc :: cbuf

definition describe :: "string \<Rightarrow> verdict \<Rightarrow> verdict" where
  "describe s v = v\<lparr>desc := concat_c (desc v) s\<rparr>"

definition no_print :: "verdict \<Rightarrow> verdict" where
  "no_print v = v\<lparr>should_print := False\<rparr>"

definition no_resume :: "verdict \<Rightarrow> verdict" where
  "no_resume v = v\<lparr>should_auto_resume := False\<rparr>"

type_synonym 'k handled = "('k dbg \<times> verdict) run"

definition disassemble4 :: "'k denv \<Rightarrow> u64 \<Rightarrow> 'k dbg \<Rightarrow> verdict \<Rightarrow> 'k handled" where
  "disassemble4 E loc d v =
     bind_run (disassemble_at_location E loc 4 d (desc v)) (\<lambda>(_, d1, out). Inr (d1, v\<lparr>desc := out\<rparr>))"

text \<open>The thread \<open>a\<close> points to.\<close>

definition the_thread :: "nat \<Rightarrow> 'k dbg \<Rightarrow> machthread run" where
  "the_thread a d = (case pl_get (threads d) a of None \<Rightarrow> Inl UseAfterFree | Some t \<Rightarrow> Inr t)"

section \<open>The handlers\<close>

definition enable_single_step :: "'k mach \<Rightarrow> nat \<Rightarrow> 'k dbg \<Rightarrow> 'k dbg run" where
  "enable_single_step M a d =
     program_thread M (\<lambda>s. Inr (s\<lparr>ds_mdscr_el1 := ds_mdscr_el1 s OR 1\<rparr>)) a d"

definition handle_soft_signal :: "'k denv \<Rightarrow> u32 \<Rightarrow> u64 \<Rightarrow> int \<Rightarrow> 'k dbg \<Rightarrow> verdict \<Rightarrow> 'k handled" where
  "handle_soft_signal E thread subcode pass d v =
     bind_run (signal_name (sys_signame E) subcode) (\<lambda>sigstr.
       let v1 = describe (concat [show_dec (sint subcode), '', SIG'', sigstr, ''. '']) v in
       if pass \<noteq> 0 then Inr (d, v1)
       else Inr (d\<lparr>kern := ptrace_thupdate E (kern d) thread\<rparr>, v1))"

definition handle_hit_watchpoint :: "'k denv \<Rightarrow> u8 list \<Rightarrow> u8 list \<Rightarrow> nat \<Rightarrow> 'k dbg \<Rightarrow> verdict \<Rightarrow> 'k handled" where
  "handle_hit_watchpoint E behind_prev behind_cur a d v =
     bind_run (the_thread a d) (\<lambda>t.
       case find_wp_with_address (last_hit_wp_loc t) d of
         None \<Rightarrow> Inr (d, no_print v)
       | Some (w, _) \<Rightarrow>
           bind_run (watchpoint_hit (Some w) d) (\<lambda>d1.
             case pl_get (watchpoints d1) w of None \<Rightarrow> Inl UseAfterFree
             | Some hit \<Rightarrow>
                bind_run (read_memory_at_location (mc E) (kern d1) (user_location hit) (ucast (data_len hit))) (\<lambda>(_, bs).
                  let data1 = bs @ drop (length bs) (wp_data hit);
                      d2 = upd_wp w (\<lambda>h. h\<lparr>wp_data := data1\<rparr>) d1;
                      v1 = describe (concat ['': '', quoted (tname t), '': watchpoint '', show_dec (wp_id hit), '' at '',
                             show_hex (user_location hit), '' hit '', show_dec (wp_hit_count hit), '' time(s).'',
                             [CHR 0x0A, CHR 0x0A]]) v;
                      v2 = v1\<lparr>desc := describe_hit_watchpoint behind_prev behind_cur (wp_data hit) data1 (data_len hit)
                              (desc v1)\<rparr>
                  in bind_run (disassemble4 E (last_hit_wp_PC t + 4) d2 v2) (\<lambda>(d3, v3).
                       Inr (upd_thread a (\<lambda>t. t\<lparr>last_hit_wp_loc := 0, last_hit_wp_PC := 0\<rparr>) d3, no_resume v3)))))"

text \<open>The breakpoint of a step is deleted when it is hit.\<close>

definition hit_step_bp :: "'k mach \<Rightarrow> nat \<Rightarrow> (nat \<times> breakpoint) option \<Rightarrow> 'k dbg \<Rightarrow> 'k dbg run" where
  "hit_step_bp M a step d =
     (case step of None \<Rightarrow> Inr d
      | Some (s, _) \<Rightarrow> bind_run (breakpoint_hit M (Some s) d) (\<lambda>d1.
          Inr (upd_thread a (\<lambda>t. t\<lparr>stepconfig := (stepconfig t)\<lparr>just_hit_ss_breakpoint := True,
                                                           set_temp_ss_breakpoint := False\<rparr>\<rparr>) d1)))"

definition hit_user_bp :: "'k mach \<Rightarrow> nat \<Rightarrow> nat \<Rightarrow> 'k dbg \<Rightarrow> verdict \<Rightarrow> 'k handled" where
  "hit_user_bp M a h d v =
     bind_run (breakpoint_hit M (Some h) d) (\<lambda>d1.
       case pl_get (breakpoints d1) h of None \<Rightarrow> Inl UseAfterFree
       | Some hit \<Rightarrow>
          (let v1 = describe (concat ['' breakpoint '', show_dec (bp_id hit), '' at '', show_hex (bp_location hit),
                     '' hit '', show_dec (bp_hit_count hit), '' time(s).'', [CHR 0x0A]]) v
           in bind_run (if bp_hw hit then Inr d1
                else bind_run (breakpoint_disable M (bp_id hit)
                       (upd_thread a (\<lambda>t. t\<lparr>just_hit_sw_breakpoint := True\<rparr>) d1) None) (\<lambda>(d2, _). Inr d2))
              (\<lambda>d2. Inr (upd_thread a (\<lambda>t. t\<lparr>last_hit_bkpt_ID := bp_id hit\<rparr>) d2, no_resume v1))))"

definition handle_hit_breakpoint :: "'k mach \<Rightarrow> nat \<Rightarrow> u64 \<Rightarrow> 'k dbg \<Rightarrow> verdict \<Rightarrow> 'k handled" where
  "handle_hit_breakpoint M a subcode d v =
     (let hit = find_bp_with_cond subcode BP_COND_NORMAL d; step = find_bp_with_cond subcode BP_COND_STEPPING d in
      if hit = None \<and> step = None then Inr (d, no_print v)
      else bind_run (hit_step_bp M a step d) (\<lambda>d1.
           bind_run (the_thread a d1) (\<lambda>t.
             case hit of
               None \<Rightarrow> Inr (d1, no_resume (describe ('' instruction step over.'' @ [CHR 0x0A]) v))
             | Some (h, b) \<Rightarrow>
                 if \<not> all_threads (bp_threadinfo b) \<and> \<not> bp_hw b \<and> tid t \<noteq> pthread_tid (bp_threadinfo b)
                 then Inr (d1, no_print v)
                 else hit_user_bp M a h d1 v)))"

definition handle_single_step :: "'k denv \<Rightarrow> nat \<Rightarrow> 'k dbg \<Rightarrow> verdict \<Rightarrow> 'k handled" where
  "handle_single_step E a d v =
     bind_run (breakpoint_enable_all_specific (mc E) BP_COND_NORMAL d) (\<lambda>d1.
     bind_run (the_thread a d1) (\<lambda>t.
       if just_hit_breakpoint t then
         bind_run (if just_hit_sw_breakpoint t
             then bind_run (breakpoint_enable (mc E) (last_hit_bkpt_ID t) d1 None) (\<lambda>(d2, _).
                    Inr (upd_thread a (\<lambda>t. t\<lparr>just_hit_sw_breakpoint := False\<rparr>) d2))
             else Inr d1) (\<lambda>d2.
         bind_run (if \<not> is_stepping (stepconfig t)
             then Inr (if step_kind (stepconfig t) = INST_STEP_OVER \<and> just_hit_ss_breakpoint (stepconfig t)
                       then upd_thread a (\<lambda>t. t\<lparr>stepconfig := (stepconfig t)\<lparr>just_hit_ss_breakpoint := False\<rparr>\<rparr>) d2
                       else d2, no_print v)
             else disassemble4 E (ts_pc (thread_state t)) d2 (describe [CHR 0x0A] (no_resume v))) (\<lambda>(d3, v3).
           Inr (upd_thread a (\<lambda>t. t\<lparr>just_hit_breakpoint := False\<rparr>) d3, v3)))
       else
         disassemble4 E (ts_pc (thread_state t)) d1 (describe [CHR 0x0A]
           (if step_kind (stepconfig t) = INST_STEP_OVER \<and> set_temp_ss_breakpoint (stepconfig t) then v else no_resume v))))"

section \<open>One exception\<close>

record request =
  rq_thread :: u32
  rq_exception :: u32
  rq_codeCnt :: u32
  rq_code :: u64
  rq_subcode :: u64

text \<open>
  What the handler takes besides: the table of signals, the variables it leaves uninitialised for an
  unknown signal, memory behind two blocks, and whether the target is debugged without signals.
\<close>

record hctx =
  sigtab :: "sigsetting list"
  sigjunk :: int
  behind_prev :: "u8 list"
  behind_cur :: "u8 list"
  nosigs :: bool

definition fake_sigstop :: "'k denv \<Rightarrow> hctx \<Rightarrow> nat \<Rightarrow> 'k dbg \<Rightarrow> verdict \<Rightarrow> 'k handled" where
  "fake_sigstop E X a d v =
     bind_run (the_thread a d) (\<lambda>t.
       disassemble4 E (ts_pc (thread_state t)) d (no_resume (describe
         ((if \<not> nosigs X then '', got a fake SIGSTOP exception, but we'' @ CHR 0x27 # ''re sending real signals?''
           else '', fake SIGSTOP signal. Disassembly of first thread:'') @ [CHR 0x0A]) v)))"

definition soft_signal :: "'k denv \<Rightarrow> hctx \<Rightarrow> nat \<Rightarrow> u64 \<Rightarrow> 'k dbg \<Rightarrow> verdict \<Rightarrow> 'k handled" where
  "soft_signal E X a subcode d v =
     bind_run (the_thread a d) (\<lambda>t.
     bind_run (sigsettings (sint (ucast subcode :: u32)) (Some (sigjunk X), Some (sigjunk X), Some (sigjunk X)) False
         (sigtab X) None) (\<lambda>(_, (n, p, s), _).
       let notify = n \<noteq> Some 0; stop = s \<noteq> Some 0; pass = (case p of Some i \<Rightarrow> i | None \<Rightarrow> 0) in
       bind_run (handle_soft_signal E (port t) subcode pass d
           (describe (concat ['', '', quoted (tname t), '' received signal '']) v)) (\<lambda>(d1, v1).
         if \<not> notify \<and> \<not> stop then Inr (d1, no_print v1)
         else if \<not> notify \<and> stop then Inr (d1, no_resume (no_print v1))
         else if notify \<and> \<not> stop then Inr (d1, describe (''Resuming execution.'' @ [CHR 0x0A]) v1)
         else disassemble4 E (ts_pc (thread_state t)) d1 (describe [CHR 0x0A] (no_resume v1)))))"

definition watch_trap :: "'k denv \<Rightarrow> nat \<Rightarrow> u64 \<Rightarrow> 'k dbg \<Rightarrow> verdict \<Rightarrow> 'k handled" where
  "watch_trap E a subcode d v =
     bind_run (enable_single_step (mc E) a (upd_thread a (\<lambda>t. t\<lparr>just_hit_watchpoint := True,
         last_hit_wp_loc := subcode, last_hit_wp_PC := ts_pc (thread_state t)\<rparr>) d)) (\<lambda>d1.
       Inr (d1, no_print v))"

text \<open>A single step is done: the exception at no address.\<close>

definition step_report :: "'k denv \<Rightarrow> nat \<Rightarrow> machthread \<Rightarrow> 'k dbg \<Rightarrow> verdict \<Rightarrow> 'k handled" where
  "step_report E a t d v =
     (if \<not> is_stepping (stepconfig t) then Inr (d, v)
      else (case find_bp_with_cond (ts_pc (thread_state t)) BP_COND_NORMAL d of
          Some (h, _) \<Rightarrow> bind_run (breakpoint_hit (mc E) (Some h) d) (\<lambda>d1.
            case pl_get (breakpoints d1) h of None \<Rightarrow> Inl UseAfterFree
            | Some hit \<Rightarrow> Inr (d1, describe (concat ['': '', quoted (tname t), '': breakpoint '', show_dec (bp_id hit),
                '' at '', show_hex (bp_location hit), '' hit '', show_dec (bp_hit_count hit), '' time(s).'']) v))
        | None \<Rightarrow> Inr (d, describe (concat ['': '', quoted (tname t), '': '',
            if step_kind (stepconfig t) = INST_STEP_OVER then ''instruction step over'' else ''instruction step in'', ''.'']) v)))"

definition step_trap :: "'k denv \<Rightarrow> hctx \<Rightarrow> nat \<Rightarrow> 'k dbg \<Rightarrow> verdict \<Rightarrow> 'k handled" where
  "step_trap E X a d v =
     bind_run (the_thread a d) (\<lambda>t.
       if just_hit_watchpoint t then
         bind_run (handle_hit_watchpoint E (behind_prev X) (behind_cur X) a d v) (\<lambda>(d1, v1).
           Inr (upd_thread a (\<lambda>t. t\<lparr>just_hit_watchpoint := False\<rparr>) d1, v1))
       else
         bind_run (step_report E a t d v) (\<lambda>(d1, v1).
         bind_run (handle_single_step E a d1 v1) (\<lambda>(d2, v2).
           Inr (upd_thread a (\<lambda>t. t\<lparr>stepconfig := (stepconfig t)\<lparr>step_kind := STEP_NONE, is_stepping := False\<rparr>\<rparr>) d2, v2))))"

definition bp_trap :: "'k denv \<Rightarrow> nat \<Rightarrow> u64 \<Rightarrow> 'k dbg \<Rightarrow> verdict \<Rightarrow> 'k handled" where
  "bp_trap E a subcode d v =
     bind_run (the_thread a d) (\<lambda>t.
     bind_run (handle_hit_breakpoint (mc E) a subcode (upd_thread a (\<lambda>t. t\<lparr>just_hit_breakpoint := True\<rparr>) d)
         (describe (concat ['': '', quoted (tname t), '':'']) v)) (\<lambda>(d1, v1).
     bind_run (disassemble4 E (ts_pc (thread_state t)) d1 v1) (\<lambda>(d2, v2).
     bind_run (enable_single_step (mc E) a d2) (\<lambda>d3. Inr (d3, v2)))))"

definition other_trap :: "'k denv \<Rightarrow> nat \<Rightarrow> request \<Rightarrow> 'k dbg \<Rightarrow> verdict \<Rightarrow> 'k handled" where
  "other_trap E a r d v =
     bind_run (the_thread a d) (\<lambda>t.
     bind_run (disassemble4 E (ts_pc (thread_state t)) d
         (describe (concat ['': '', quoted (tname t), '': stop reason: '', exc_str (rq_exception r), '' (code = '',
            show_hex (rq_code r), '', subcode = '', show_hex (rq_subcode r), '')'', [CHR 0x0A]]) v)) (\<lambda>(d1, v1).
       Inr (d1, no_resume v1)))"

text \<open>The thread that caused the exception gets the focus; the handler works on the one in focus then.\<close>

definition focus_on :: "u32 \<Rightarrow> 'k dbg \<Rightarrow> 'k dbg" where
  "focus_on thread d =
     (case get_focused_thread d of
        Some (_, t) \<Rightarrow> if port t \<noteq> thread then set_focused_thread thread d else d
      | None \<Rightarrow> set_focused_thread thread d)"

definition handle_exception :: "'k denv \<Rightarrow> hctx \<Rightarrow> request \<Rightarrow> 'k dbg \<Rightarrow> verdict \<Rightarrow> 'k handled" where
  "handle_exception E X r d v =
     (let d1 = focus_on (rq_thread r) d in
      case get_focused_thread d1 of None \<Rightarrow> Inr (d1, no_print v)
      | Some (a, _) \<Rightarrow>
         (let d2 = snd (get_thread_state (mc E) (Some a) d1) in
          bind_run (the_thread a d2) (\<lambda>t.
            let v1 = describe (concat [[CHR 0x0A], '' * Thread #'', show_dec (ID t), '' (tid = '', show_hex (tid t), '')'']) v in
            if rq_codeCnt r = 0x41414141 then fake_sigstop E X a d2 v1
            else if rq_exception r = EXC_SOFTWARE \<and> rq_code r = EXC_SOFT_SIGNAL
              then soft_signal E X a (rq_subcode r) d2 v1
            else if rq_code r = EXC_ARM_DA_DEBUG then watch_trap E a (rq_subcode r) d2 v1
            else if rq_exception r = EXC_BREAKPOINT \<and> rq_code r = EXC_ARM_BREAKPOINT
              then (if rq_subcode r = 0 then step_trap E X a d2 v1 else bp_trap E a (rq_subcode r) d2 v1)
            else other_trap E a r d2 v1)))"

section \<open>A batch of exceptions\<close>

text \<open>
  The server handles all exceptions that have come, prints the descriptions asked for and resumes the
  target when none of them objects.
\<close>

fun handle_batch :: "'k denv \<Rightarrow> hctx \<Rightarrow> request list \<Rightarrow> 'k dbg \<Rightarrow> bool \<Rightarrow> cbuf \<Rightarrow> ('k dbg \<times> bool \<times> cbuf) run" where
  "handle_batch E X [] d will_auto_resume buf = Inr (d, will_auto_resume, buf)"
| "handle_batch E X (r # rs) d will_auto_resume buf =
     bind_run (handle_exception E X r d \<lparr>should_auto_resume = True, should_print = True, desc = None\<rparr>) (\<lambda>(d1, v).
       handle_batch E X rs d1 (will_auto_resume \<and> should_auto_resume v)
         (if should_print v then concat_c buf (case desc v of None \<Rightarrow> ''(null)'' | Some s \<Rightarrow> s) else buf))"

end
