(* ===== verification/Handled.thy ===== *)
theory Handled
  imports Exceptions Sample
begin

text \<open>
  What the handler of exceptions guarantees: it always returns and keeps the invariant of the debugger,
  what it prints and whether it resumes follow the settings of a signal, and a software breakpoint that
  is hit is stepped over and armed again.
\<close>

section \<open>What the operations on breakpoints leave alone\<close>

definition keeps :: "'k dbg \<Rightarrow> 'k dbg \<Rightarrow> bool" where
  "keeps d d' \<longleftrightarrow> fresh d' = fresh d \<and> vars d' = vars d \<and> undebugged (threads d') = undebugged (threads d)"

lemma keeps_refl [simp]: "keeps d d"
  by (simp add: keeps_def)

lemma keeps_trans: "keeps d d1 \<Longrightarrow> keeps d1 d2 \<Longrightarrow> keeps d d2"
  by (simp add: keeps_def)

lemma same_debugger_keeps: "same_debugger d d' \<Longrightarrow> keeps d d'"
  using same_debuggerD [of d d'] by (auto simp: keeps_def same_debugger_def)

lemma keeps_upd_bp: "keeps d (upd_bp a f d)"
  by (simp add: keeps_def upd_bp_def)

lemma keeps_delete: "keeps d (d\<lparr>breakpoints := bs, num_breakpoints := n\<rparr>)"
  by (simp add: keeps_def)

lemma set_state_keeps:
  assumes K: "kernel_ok M" and I: "dbg_inv d" and a: "a \<in> fst ` set (breakpoints d)"
  shows "\<exists>d'. bp_set_state_internal M a x d = Inr d' \<and> dbg_inv d' \<and> keeps d d' \<and>
    breakpoints d' = pl_update a (\<lambda>b. b\<lparr>bp_disabled := x\<rparr>) (breakpoints d)"
proof -
  obtain d' where d': "bp_set_state_internal M a x d = Inr d'" "dbg_inv d'"
    "breakpoints d' = pl_update a (\<lambda>b. b\<lparr>bp_disabled := x\<rparr>) (breakpoints d)"
    using bp_set_state_ok [OF assms] by blast
  have "keeps d d'"
  proof -
    from d'(1) obtain bp d1 where bp: "pl_get (breakpoints d) a = Some bp"
      and d1: "(if bp_hw bp then (if x then disable_hw_bp M bp d else enable_hw_bp M bp d)
                else (if x then poke M (bp_location bp) (old_instruction bp) 4 d
                      else poke M (bp_location bp) BRK 4 d)) = Inr d1"
      and eq: "d' = upd_bp a (\<lambda>b. b\<lparr>bp_disabled := x\<rparr>) d1"
      unfolding bp_set_state_internal_def by (auto simp: bind_run_Inr split: option.splits)
    have mem: "(a, bp) \<in> set (breakpoints d)" using bp I by (simp add: pl_get_mem dbg_inv_def bps_ok_def)
    have T: "thr_ok (threads d)" using I by (simp add: dbg_inv_def)
    have "keeps d d1"
    proof (cases "bp_hw bp")
      case True
      then have r: "0 \<le> hw_bp_reg bp" "hw_bp_reg bp < 16"
        using mem I by (auto simp: dbg_inv_def bps_ok_def bp_reg_ok_def)
      have "same_debugger d d1"
        using True d1 program_threads_ok [OF K T reg_change_put_bp [OF r], of "bp_threadinfo bp"]
          program_threads_ok [OF K T reg_change_clear [OF r], of "bp_threadinfo bp"]
        by (auto simp: enable_hw_bp_def disable_hw_bp_def split: if_splits)
      then show ?thesis by (rule same_debugger_keeps)
    next
      case False
      with d1 poke_returns [of 4 M "bp_location bp" "old_instruction bp" d] poke_returns [of 4 M "bp_location bp" BRK d]
      obtain k where "d1 = d\<lparr>kern := k\<rparr>" by (auto split: if_splits)
      then show ?thesis by (simp add: keeps_def)
    qed
    then show ?thesis unfolding eq by (rule keeps_trans) (rule keeps_upd_bp)
  qed
  with d' show ?thesis by blast
qed

lemma each_set_state_keeps:
  assumes K: "kernel_ok M" and I: "dbg_inv d"
  shows "\<exists>d'. each_bp P (\<lambda>a. bp_set_state_internal M a x) d = Inr d' \<and> dbg_inv d' \<and> keeps d d' \<and> breakpoints d' =
    map (\<lambda>(a, b). (a, if P b then b\<lparr>bp_disabled := x\<rparr> else b)) (breakpoints d)"
proof -
  let ?body = "\<lambda>a d. case pl_get (breakpoints d) a of None \<Rightarrow> Inl UseAfterFree
      | Some b \<Rightarrow> if P b then bp_set_state_internal M a x d else Inr d"
  let ?J = "\<lambda>d'. dbg_inv d' \<and> keeps d d' \<and> map fst (breakpoints d') = map fst (breakpoints d)"
  have "\<exists>d'. run_list ?body (map fst (breakpoints d)) d = Inr d' \<and> ?J d'"
  proof (rule run_list_inv)
    show "?J d" using I by simp
    fix a d1 assume a: "a \<in> set (map fst (breakpoints d))" and J: "?J d1"
    then have m: "a \<in> fst ` set (breakpoints d1)" by (metis list.set_map)
    then obtain b where b: "pl_get (breakpoints d1) a = Some b"
      using J by (auto simp: pl_get_mem dbg_inv_def bps_ok_def)
    from set_state_keeps [OF K _ m, of x] J obtain d2 where
      "bp_set_state_internal M a x d1 = Inr d2" "dbg_inv d2" "keeps d1 d2"
      "breakpoints d2 = pl_update a (\<lambda>b. b\<lparr>bp_disabled := x\<rparr>) (breakpoints d1)" by blast
    with b J keeps_trans show "\<exists>d2. ?body a d1 = Inr d2 \<and> ?J d2" by (cases "P b") auto
  qed
  with each_set_state [OF K I, of P x] show ?thesis by (auto simp: each_bp_def)
qed

lemma hit_keeps:
  assumes K: "kernel_ok M" and I: "dbg_inv d" and a: "(a, b) \<in> set (breakpoints d)"
  shows "\<exists>d'. breakpoint_hit M (Some a) d = Inr d' \<and> dbg_inv d' \<and> keeps d d' \<and>
    (if bp_temporary b then breakpoints d' = pl_delete a (breakpoints d)
     else d' = upd_bp a (\<lambda>b. b\<lparr>bp_hit_count := bp_hit_count b + 1\<rparr>) d)"
proof -
  have m: "a \<in> fst ` set (breakpoints d)" using a by force
  have g: "pl_get (breakpoints d) a = Some b" using I a by (simp add: pl_get_mem dbg_inv_def bps_ok_def)
  show ?thesis
  proof (cases "bp_temporary b")
    case True
    from set_state_keeps [OF K I m, of True] obtain d1 where d1: "bp_set_state_internal M a True d = Inr d1"
      "keeps d d1" by blast
    obtain d2 where d2: "bp_delete_internal M a d = Inr d2" "dbg_inv d2" "breakpoints d2 = pl_delete a (breakpoints d)"
      using bp_delete_ok [OF K I m] by blast
    then have "d2 = d1\<lparr>breakpoints := pl_delete a (breakpoints d1), num_breakpoints := num_breakpoints d1 - 1\<rparr>"
      using d1(1) by (simp add: bp_delete_internal_def)
    then have "keeps d d2" using keeps_trans [OF d1(2) keeps_delete] by simp
    with True d2 g show ?thesis by (simp add: breakpoint_hit_def breakpoint_delete_specific_def)
  next
    case False
    from breakpoint_hit_ok [OF K I, of "Some a"] m g False
    show ?thesis by (auto simp: breakpoint_hit_def intro!: keeps_upd_bp)
  qed
qed

lemma by_id_keeps:
  assumes K: "kernel_ok M" and I: "dbg_inv d"
  shows "\<exists>d'. breakpoint_enable M i d e = Inr d' \<and> dbg_inv (fst d') \<and> keeps d (fst d')"
    and "\<exists>d'. breakpoint_disable M i d e = Inr d' \<and> dbg_inv (fst d') \<and> keeps d (fst d')"
proof -
  have m: "a \<in> fst ` set (breakpoints d)" if "bp_with_id i d = Some a" for a
    using bp_with_id_mem [OF that] by force
  show "\<exists>d'. breakpoint_enable M i d e = Inr d' \<and> dbg_inv (fst d') \<and> keeps d (fst d')"
    using set_state_keeps [OF K I m, of _ False] I
    by (cases "bp_with_id i d") (fastforce simp: breakpoint_enable_def)+
  show "\<exists>d'. breakpoint_disable M i d e = Inr d' \<and> dbg_inv (fst d') \<and> keeps d (fst d')"
    using set_state_keeps [OF K I m, of _ True] I
    by (cases "bp_with_id i d") (fastforce simp: breakpoint_disable_def)+
qed


section \<open>The invariant of the handler\<close>

text \<open>A target without symbols, whose thread states have all their registers.\<close>

definition plain_target :: "'k denv \<Rightarrow> bool" where
  "plain_target E \<longleftrightarrow> kernel_ok (mc E) \<and> symtab E = None \<and>
     (\<forall>k p. case thread_get_state (mc E) k p of Inl r \<Rightarrow> r \<noteq> KERN_SUCCESS | Inr ts \<Rightarrow> length (ts_x ts) = 29)"

definition handler_inv :: "'k dbg \<Rightarrow> bool" where
  "handler_inv d \<longleftrightarrow> dbg_inv d \<and> vars_ok d"

definition on_thread :: "nat \<Rightarrow> 'k dbg \<Rightarrow> bool" where
  "on_thread a d \<longleftrightarrow> handler_inv d \<and> (\<exists>t. get_focused_thread d = Some (a, t))"

lemma focus_by_map:
  assumes "map (\<lambda>c. (fst c, focused (snd c))) (threads d') = map (\<lambda>c. (fst c, focused (snd c))) (threads d)"
  shows "(\<exists>t. get_focused_thread d' = Some (a, t)) = (\<exists>t. get_focused_thread d = Some (a, t))"
proof -
  have "(\<exists>t. find (\<lambda>c. focused (snd c)) ts = Some (a, t)) = (\<exists>t. find (\<lambda>c. focused (snd c)) us = Some (a, t))"
    if "map (\<lambda>c. (fst c, focused (snd c))) ts = map (\<lambda>c. (fst c, focused (snd c))) us" for ts us :: "machthread plist"
    using that
  proof (induction ts arbitrary: us)
    case (Cons c ts)
    then obtain c' us' where us: "us = c' # us'" "fst c' = fst c" "focused (snd c') = focused (snd c)"
      "map (\<lambda>c. (fst c, focused (snd c))) ts = map (\<lambda>c. (fst c, focused (snd c))) us'"
      by (cases us) auto
    show ?case using us(1-3) Cons.IH [OF us(4)] by (cases "focused (snd c)"; cases c; cases c') auto
  qed simp
  from this [OF assms] show ?thesis
    by (simp add: get_focused_thread_def find_with_cond_def pl_find_def cond_holds_def)
qed

lemma undebugged_map:
  assumes "\<And>a t s. f (a, t\<lparr>debug_state := s\<rparr>) = f (a, t)"
  shows "undebugged ts = undebugged us \<Longrightarrow> map f ts = map f us"
proof -
  have "map f (undebugged ts) = map f ts" for ts by (auto simp: undebugged_def comp_def assms)
  then show "undebugged ts = undebugged us \<Longrightarrow> map f ts = map f us" by metis
qed

text \<open>The ways a step of the handler keeps the invariant.\<close>

lemma on_thread_keeps:
  assumes "on_thread a d" "keeps d d'" "dbg_inv d'"
  shows "on_thread a d'"
proof -
  have "map (\<lambda>c. (fst c, focused (snd c))) (threads d') = map (\<lambda>c. (fst c, focused (snd c))) (threads d)"
    by (rule undebugged_map) (use assms(2) in \<open>simp_all add: keeps_def\<close>)
  from focus_by_map [OF this, of a] assms(1) have "\<exists>t. get_focused_thread d' = Some (a, t)"
    by (simp add: on_thread_def)
  moreover have "vars_ok d'" using assms(1,2) by (simp add: on_thread_def handler_inv_def vars_ok_def keeps_def)
  ultimately show ?thesis using assms(3) by (simp add: on_thread_def handler_inv_def)
qed

lemma on_thread_shown:
  assumes "on_thread a d" "only_shown d d'" "vars_ok d'"
  shows "on_thread a d'"
proof -
  note f = only_shownD [OF assms(2)]
  have "map (\<lambda>c. (fst c, focused (snd c))) (threads d') = map (\<lambda>c. (fst c, focused (snd c))) (threads d)"
    by (rule stateless_map) (use f in simp_all)
  from focus_by_map [OF this, of a] assms f(2) only_shown_inv [OF _ assms(2)] show ?thesis
    by (simp add: on_thread_def handler_inv_def)
qed

lemma on_thread_upd:
  assumes "on_thread a d" "\<And>t. focused (f t) = focused t" "\<And>t. debug_state (f t) = debug_state t"
  shows "on_thread a (upd_thread b f d)"
proof -
  have m: "map (\<lambda>c. (fst c, focused (snd c))) (pl_update b f ts) = map (\<lambda>c. (fst c, focused (snd c))) ts"
    "map fst (pl_update b f ts) = map fst ts" "map (debug_state \<circ> snd) (pl_update b f ts) = map (debug_state \<circ> snd) ts" for ts
    by (induction ts) (auto simp: assms)
  have thr: "thr_ok ts \<longleftrightarrow> distinct (map fst ts) \<and> (\<forall>s \<in> set (map (debug_state \<circ> snd) ts). regs16 s)" for ts
    by (auto simp: thr_ok_def)
  have "bps_ok (upd_thread b f d) = bps_ok d" "wps_ok (upd_thread b f d) = wps_ok d"
    by (simp_all add: upd_thread_def bps_ok_def wps_ok_def)
  moreover have "thr_ok (threads (upd_thread b f d)) = thr_ok (threads d)" unfolding thr by (simp add: upd_thread_def m)
  ultimately have "handler_inv (upd_thread b f d) = handler_inv d"
    by (simp add: handler_inv_def dbg_inv_def) (simp add: upd_thread_def vars_ok_def)
  moreover have "(\<exists>t. get_focused_thread (upd_thread b f d) = Some (a, t)) = (\<exists>t. get_focused_thread d = Some (a, t))"
    by (rule focus_by_map) (simp add: upd_thread_def m)
  ultimately show ?thesis using assms(1) by (simp add: on_thread_def)
qed

lemma on_thread_get:
  assumes "on_thread a d"
  obtains t where "the_thread a d = Inr t" "(a, t) \<in> set (threads d)" "pl_get (threads d) a = Some t"
    "get_focused_thread d = Some (a, t)"
proof -
  from assms obtain t where t: "get_focused_thread d = Some (a, t)" by (auto simp: on_thread_def)
  then have m: "(a, t) \<in> set (threads d)" using find_thread unfolding get_focused_thread_def by blast
  with assms have "pl_get (threads d) a = Some t"
    by (simp add: pl_get_mem on_thread_def handler_inv_def dbg_inv_def thr_ok_def)
  with t m that show ?thesis by (simp add: the_thread_def)
qed

section \<open>The handler returns\<close>

lemma plain_targetD:
  assumes "plain_target E"
  shows "kernel_ok (mc E)" "symtab E = None"
    "thread_get_state (mc E) k p = Inl r \<Longrightarrow> r \<noteq> KERN_SUCCESS"
    "thread_get_state (mc E) k p = Inr ts \<Longrightarrow> length (ts_x ts) = 29"
proof -
  have c: "case thread_get_state (mc E) k p of Inl r \<Rightarrow> r \<noteq> KERN_SUCCESS | Inr ts \<Rightarrow> length (ts_x ts) = 29"
    using assms unfolding plain_target_def by (elim conjE allE)
  show "thread_get_state (mc E) k p = Inl r \<Longrightarrow> r \<noteq> KERN_SUCCESS"
    "thread_get_state (mc E) k p = Inr ts \<Longrightarrow> length (ts_x ts) = 29" using c by simp_all
  show "kernel_ok (mc E)" "symtab E = None" using assms by (simp_all only: plain_target_def)
qed

lemma fetch_returns:
  assumes "plain_target E"
  obtains err instr where "fetch_instr E d loc = Inr (err, instr)"
proof -
  obtain bs where "read_memory_at_location (mc E) (kern d) loc 4 = Inr (KERN_SUCCESS, bs)"
    using read_memory_returns [OF plain_targetD(1) [OF assms(1)]] by blast
  with that show ?thesis by (simp add: fetch_instr_def)
qed

lemma show_branch_returns:
  assumes "symtab E = None" "length (ts_x ts) = 29"
  shows "\<exists>out'. show_branch E d ts loc instr out = Inr out'"
proof -
  obtain b where b: "is_branch (ucast instr) = Inr b" using is_branch_total by blast
  have "\<exists>x. branch_target ts loc bi = Inr x" if "b = Some bi" for bi
    using assms(2) branch_rn_small [of "ucast instr" bi] b that by (auto simp: branch_target_def Let_def)
  with b assms(1) show ?thesis by (cases b) (auto simp: show_branch_def)
qed

lemma fetch_focused:
  assumes E: "plain_target E" and J: "on_thread a d"
  obtains r d' t where "get_thread_state (mc E) (Some a) d = (r, d')" "on_thread a d'" "pl_get (threads d') a = Some t"
    "r = KERN_SUCCESS \<longrightarrow> length (ts_x (thread_state t)) = 29" "only_shown d d'"
proof -
  obtain t where t: "(a, t) \<in> set (threads d)" "pl_get (threads d) a = Some t"
    using on_thread_get [OF J] by blast
  obtain r s where s: "fetch_thread (mc E) (kern d) t = (r, t\<lparr>thread_state := s\<rparr>)"
    "r = KERN_SUCCESS \<longrightarrow> length (ts_x s) = 29"
  proof (cases "thread_get_state (mc E) (kern d) (port t)")
    case (Inl r)
    with plain_targetD(3) [OF E Inl] show ?thesis by (intro that [of r "thread_state t"]) (simp_all add: fetch_thread_def)
  next
    case (Inr s)
    with plain_targetD(4) [OF E Inr] show ?thesis by (intro that [of KERN_SUCCESS s]) (simp_all add: fetch_thread_def)
  qed
  let ?d = "upd_thread a (\<lambda>_. t\<lparr>thread_state := s\<rparr>) d"
  have dist: "distinct (map fst (threads d))" using J by (simp add: on_thread_def handler_inv_def dbg_inv_def thr_ok_def)
  have sh: "only_shown d ?d" using stateless_replace [OF dist t(1), of s] by (simp add: only_shown_def upd_thread_def)
  have "vars_ok ?d" using J by (simp add: on_thread_def handler_inv_def vars_ok_def upd_thread_def)
  then have "on_thread a ?d" by (rule on_thread_shown [OF J sh])
  moreover have "get_thread_state (mc E) (Some a) d = (r, ?d)"
    using t(2) s(1) by (simp add: get_thread_state_def get_state_def)
  moreover have "pl_get (threads ?d) a = Some (t\<lparr>thread_state := s\<rparr>)" using t(2) by (simp add: upd_thread_def)
  ultimately show ?thesis using that s(2) sh by simp
qed

lemma show_instr_total:
  assumes E: "plain_target E" and J: "on_thread a d"
  shows "\<exists>r d' out'. show_instr E loc d out = Inr (r, d', out') \<and> on_thread a d' \<and> only_shown d d'"
proof -
  have H: "handler_inv d" using J by (simp add: on_thread_def)
  obtain e instr where i: "fetch_instr E d loc = Inr (e, instr)" using fetch_returns [OF E] .
  have v: "vars_ok d" using H by (simp add: handler_inv_def)
  obtain d1 where d1: "set_auto E ''$__'' instr d out = Inr (d1, out)" "vars_ok d1" "only_shown d d1"
    using set_auto_shown [OF v refl auto_names(2)] by metis
  have J1: "on_thread a d1" using on_thread_shown [OF J d1(3,2)] .
  obtain t where t: "get_focused_thread d1 = Some (a, t)" using on_thread_get [OF J1] by blast
  obtain r d2 t2 where g: "get_thread_state (mc E) (Some a) d1 = (r, d2)" "on_thread a d2" "pl_get (threads d2) a = Some t2"
    "r = KERN_SUCCESS \<longrightarrow> length (ts_x (thread_state t2)) = 29" "only_shown d1 d2" using fetch_focused [OF E J1] .
  have sh: "only_shown d d2" using only_shown_trans [OF d1(3) g(5)] .
  show ?thesis
  proof (cases "r = KERN_SUCCESS")
    case False
    with i d1(1) t g sh show ?thesis by (simp add: show_instr_def)
  next
    case True
    define line where "line = (if ts_pc (thread_state t2) = loc then ''->  '' else ''    '') @ show_hex loc @ '':  '' @
      ljust 40 (case armadillo E instr loc of None \<Rightarrow> ''(disas failed)'' | Some s \<Rightarrow> s)"
    obtain out' where b: "show_branch E d2 (thread_state t2) loc instr (concat_c out line) = Inr out'"
      using show_branch_returns [OF plain_targetD(2) [OF E]] g(4) True by blast
    with i d1(1) t g sh True show ?thesis by (simp add: show_instr_def line_def Let_def)
  qed
qed

lemma disas_loop_total:
  assumes E: "plain_target E"
  shows "on_thread a d \<Longrightarrow> unat loc + 4 * n < 2 ^ 64 \<Longrightarrow>
    \<exists>r d' out'. disas_loop E location (loc + of_nat (4 * n)) loc FNull FNull d out = Inr (r, d', out') \<and> on_thread a d' \<and>
      only_shown d d'"
proof (induction n arbitrary: loc d out)
  case 0
  then show ?case by (simp add: disas_loop.simps [of E location loc loc] plain_targetD(2) [OF E])
next
  case (Suc n)
  have lt: "loc < loc + of_nat (4 * Suc n)"
    using Suc.prems(2) by (simp add: word_less_nat_alt unat_word_ariths unat_of_nat)
  have nw: "\<not> loc + 4 < loc" "unat (loc + 4) + 4 * n < 2 ^ 64"
    using Suc.prems(2) by (simp_all add: word_less_nat_alt unat_word_ariths)
  obtain bs where rd: "read_memory_at_location (mc E) (kern d) loc 4 = Inr (KERN_SUCCESS, bs)"
    using read_memory_returns [OF plain_targetD(1) [OF E]] by blast
  from show_instr_total [OF E Suc.prems(1), of loc out] obtain r d1 out1 where
    d1: "show_instr E loc d out = Inr (r, d1, out1)" "on_thread a d1" "only_shown d d1" by blast
  have eq: "(loc + 4) + of_nat (4 * n) = loc + of_nat (4 * Suc n)" by (simp add: algebra_simps)
  have sym: "symtab E = None" by (rule plain_targetD(2) [OF E])
  show ?case
  proof (cases "r = KERN_SUCCESS")
    case True
    then have "disas_loop E location (loc + of_nat (4 * Suc n)) loc FNull FNull d out
        = disas_loop E location (loc + of_nat (4 * Suc n)) (loc + 4) FNull FNull d1 out1"
      using lt nw(1) rd d1(1) sym by (subst disas_loop.simps) (simp add: show_header_def next_names_def)
    with Suc.IH [OF d1(2) nw(2), of out1] only_shown_trans [OF d1(3)] show ?thesis unfolding eq by auto
  next
    case False
    then have "disas_loop E location (loc + of_nat (4 * Suc n)) loc FNull FNull d out = Inr (r, d1, out1)"
      using lt nw(1) rd d1(1) sym by (subst disas_loop.simps) (simp add: show_header_def)
    with d1(2,3) show ?thesis by blast
  qed
qed

lemma disassemble4_total:
  assumes E: "plain_target E" and J: "on_thread a d"
  shows "\<exists>d' v'. disassemble4 E loc d v = Inr (d', v') \<and> on_thread a d' \<and> only_shown d d' \<and>
    should_print v' = should_print v \<and> should_auto_resume v' = should_auto_resume v"
proof -
  have v: "vars_ok d" using J by (simp add: on_thread_def handler_inv_def)
  obtain d1 where d1: "set_auto E ''$_'' loc d (desc v) = Inr (d1, desc v)" "vars_ok d1" "only_shown d d1"
    using set_auto_shown [OF v refl auto_names(1)] by metis
  have J1: "on_thread a d1" using on_thread_shown [OF J d1(3,2)] .
  have sym: "symtab E = None" by (rule plain_targetD(2) [OF E])
  have "\<exists>r d' out'. disas_loop E loc (loc + of_nat (4 * 4)) loc FNull FNull d1 (desc v) = Inr (r, d', out') \<and> on_thread a d' \<and>
    only_shown d1 d'"
  proof (cases "unat loc + 4 * 4 < 2 ^ 64")
    case True
    then show ?thesis by (rule disas_loop_total [OF E J1])
  next
    case False
    then have "(unat loc + 16) mod 2 ^ 64 = (unat loc + 16 - 2 ^ 64) mod 2 ^ 64" by (intro le_mod_geq) simp
    also have "\<dots> \<le> unat loc + 16 - 2 ^ 64" by (rule mod_less_eq_dividend)
    also have "\<dots> \<le> unat loc" by simp
    finally have "\<not> loc < loc + 16" by (simp add: word_less_nat_alt unat_word_ariths)
    then show ?thesis using J1 by (simp add: disas_loop.simps [of E loc "loc + 16" loc] sym)
  qed
  then show ?thesis using d1(1) sym only_shown_trans [OF d1(3)] by (auto simp: disassemble4_def disassemble_at_location_def)
qed

lemma single_step_total:
  assumes "kernel_ok M" "on_thread a d"
  shows "\<exists>d'. enable_single_step M a d = Inr d' \<and> on_thread a d' \<and> same_debugger d d'"
proof -
  obtain t where "(a, t) \<in> set (threads d)" using on_thread_get [OF assms(2)] .
  then have m: "a \<in> fst ` set (threads d)" by force
  have T: "thr_ok (threads d)" and I: "dbg_inv d" using assms(2) by (auto simp: on_thread_def handler_inv_def dbg_inv_def)
  have "reg_change (\<lambda>s. Inr (s\<lparr>ds_mdscr_el1 := ds_mdscr_el1 s OR 1\<rparr>))" by (simp add: reg_change_def regs16_def)
  from program_thread_ok [OF assms(1) T m this] obtain d' where d': "enable_single_step M a d = Inr d'"
    "same_debugger d d'" "thr_ok (threads d')" unfolding enable_single_step_def by blast
  have "dbg_inv d'" using d'(2,3) I bps_ok_same [OF _ d'(2)] wps_ok_same [OF _ d'(2)] by (simp add: dbg_inv_def)
  from on_thread_keeps [OF assms(2) same_debugger_keeps [OF d'(2)] this] d' show ?thesis by blast
qed


lemma on_thread_upd_wp:
  assumes J: "on_thread a d" and f: "\<And>w. hw_wp_reg (f w) = hw_wp_reg w" "\<And>w. wp_id (f w) = wp_id w"
  shows "on_thread a (upd_wp b f d)"
proof -
  have m: "map fst (pl_update b f ws) = map fst ws" "map (hw_wp_reg \<circ> snd) (pl_update b f ws) = map (hw_wp_reg \<circ> snd) ws"
    "map (wp_id \<circ> snd) (pl_update b f ws) = map (wp_id \<circ> snd) ws" for ws
    by (induction ws) (auto simp: f)
  have l: "length (pl_update b f ws) = length ws" for ws by (simp add: pl_update_def)
  have w: "wps_ok d \<longleftrightarrow> distinct (map fst (watchpoints d)) \<and> (\<forall>p \<in> set (map fst (watchpoints d)). p < fresh d) \<and>
     num_watchpoints d = int (length (watchpoints d)) \<and> 0 \<le> num_hw_wps d \<and> num_hw_wps d \<le> 16 \<and>
     (\<forall>r \<in> set (map (hw_wp_reg \<circ> snd) (watchpoints d)). 0 \<le> r \<and> r < num_hw_wps d) \<and>
     distinct (map (hw_wp_reg \<circ> snd) (watchpoints d)) \<and>
     (\<forall>i \<in> set (map (wp_id \<circ> snd) (watchpoints d)). i < current_watchpoint_id d) \<and>
     distinct (map (wp_id \<circ> snd) (watchpoints d))" for d :: "'a dbg"
    by (auto simp: wps_ok_def)
  have fields: "watchpoints (upd_wp b f d) = pl_update b f (watchpoints d)" "fresh (upd_wp b f d) = fresh d"
    "num_watchpoints (upd_wp b f d) = num_watchpoints d" "num_hw_wps (upd_wp b f d) = num_hw_wps d"
    "current_watchpoint_id (upd_wp b f d) = current_watchpoint_id d" by (simp_all add: upd_wp_def)
  have "wps_ok (upd_wp b f d) = wps_ok d" unfolding w fields m l ..
  then have "dbg_inv (upd_wp b f d)" using J
    by (simp add: on_thread_def handler_inv_def dbg_inv_def) (simp add: upd_wp_def)
  moreover have "keeps d (upd_wp b f d)" by (simp add: keeps_def upd_wp_def)
  ultimately show ?thesis using on_thread_keeps [OF J] by blast
qed

lemma hit_watchpoint_total:
  assumes E: "plain_target E" and J: "on_thread a d"
  shows "\<exists>d' v'. handle_hit_watchpoint E bp bc a d v = Inr (d', v') \<and> on_thread a d'"
proof -
  obtain t where t: "the_thread a d = Inr t" using on_thread_get [OF J] .
  show ?thesis
  proof (cases "find_wp_with_address (last_hit_wp_loc t) d")
    case None
    with t J show ?thesis by (simp add: handle_hit_watchpoint_def)
  next
    case (Some c)
    obtain w w0 where c: "c = (w, w0)" by (cases c)
    then have mem: "(w, w0) \<in> set (watchpoints d)"
      using Some pl_find_Some [of _ "watchpoints d" w w0] by (simp add: find_wp_with_address_def)
    have "distinct (map fst (watchpoints d))"
      using J by (simp add: on_thread_def handler_inv_def dbg_inv_def wps_ok_def)
    with mem have g: "pl_get (watchpoints d) w = Some w0" by (simp add: pl_get_mem)
    define d1 where "d1 = upd_wp w (\<lambda>w. w\<lparr>wp_hit_count := wp_hit_count w + 1\<rparr>) d"
    have h: "watchpoint_hit (Some w) d = Inr d1" using g by (simp add: watchpoint_hit_def d1_def)
    have J1: "on_thread a d1" unfolding d1_def by (rule on_thread_upd_wp [OF J]) simp_all
    define hit where "hit = w0\<lparr>wp_hit_count := wp_hit_count w0 + 1\<rparr>"
    have g1: "pl_get (watchpoints d1) w = Some hit" using g by (simp add: d1_def upd_wp_def hit_def)
    obtain bs where rd: "read_memory_at_location (mc E) (kern d1) (user_location hit) (ucast (data_len hit)) = Inr (KERN_SUCCESS, bs)"
      using read_memory_returns [OF plain_targetD(1) [OF E]] by blast
    let ?data = "bs @ drop (length bs) (wp_data hit)"
    have J2: "on_thread a (upd_wp w (\<lambda>h. h\<lparr>wp_data := ?data\<rparr>) d1)" by (rule on_thread_upd_wp [OF J1]) simp_all
    let ?v = "describe (concat ['': '', quoted (tname t), '': watchpoint '', show_dec (wp_id hit), '' at '',
        show_hex (user_location hit), '' hit '', show_dec (wp_hit_count hit), '' time(s).'', [CHR 0x0A, CHR 0x0A]]) v"
    let ?v2 = "?v\<lparr>desc := describe_hit_watchpoint bp bc (wp_data hit) ?data (data_len hit) (desc ?v)\<rparr>"
    obtain d3 v3 where d3: "disassemble4 E (last_hit_wp_PC t + 4) (upd_wp w (\<lambda>h. h\<lparr>wp_data := ?data\<rparr>) d1) ?v2 = Inr (d3, v3)"
      "on_thread a d3" using disassemble4_total [OF E J2] by blast
    have "on_thread a (upd_thread a (\<lambda>t. t\<lparr>last_hit_wp_loc := 0, last_hit_wp_PC := 0\<rparr>) d3)"
      by (rule on_thread_upd [OF d3(2)]) simp_all
    then show ?thesis
      unfolding handle_hit_watchpoint_def t bind_run.simps Some c option.case prod.case h g1 rd Let_def d3(1) by blast
  qed
qed

lemma the_thread_Inr: "the_thread a d = Inr t \<longleftrightarrow> pl_get (threads d) a = Some t"
  by (simp add: the_thread_def split: option.splits)

lemma find_bp_mem: "find_bp_with_cond loc way d = Some (h, b) \<Longrightarrow>
    (h, b) \<in> set (breakpoints d) \<and> bp_location b = loc \<and> way_selects way b"
  unfolding find_bp_with_cond_def by (drule pl_find_Some) simp

lemma on_thread_hit:
  assumes K: "kernel_ok M" and J: "on_thread a d" and h: "(h, b) \<in> set (breakpoints d)"
  shows "\<exists>d'. breakpoint_hit M (Some h) d = Inr d' \<and> on_thread a d' \<and>
    (if bp_temporary b then breakpoints d' = pl_delete h (breakpoints d)
     else d' = upd_bp h (\<lambda>b. b\<lparr>bp_hit_count := bp_hit_count b + 1\<rparr>) d)"
proof -
  have I: "dbg_inv d" using J by (simp add: on_thread_def handler_inv_def)
  from hit_keeps [OF K I h] obtain d' where d': "breakpoint_hit M (Some h) d = Inr d'" "dbg_inv d'" "keeps d d'"
    "if bp_temporary b then breakpoints d' = pl_delete h (breakpoints d)
     else d' = upd_bp h (\<lambda>b. b\<lparr>bp_hit_count := bp_hit_count b + 1\<rparr>) d" by blast
  with on_thread_keeps [OF J d'(3,2)] show ?thesis by blast
qed

lemma hit_step_total:
  assumes K: "kernel_ok M" and J: "on_thread a d" and s: "step = find_bp_with_cond loc BP_COND_STEPPING d"
  shows "\<exists>d'. hit_step_bp M a step d = Inr d' \<and> on_thread a d' \<and>
    (\<forall>h b. (h, b) \<in> set (breakpoints d) \<longrightarrow> \<not> for_stepping b \<longrightarrow> (h, b) \<in> set (breakpoints d'))"
proof (cases step)
  case None
  with J show ?thesis by (simp add: hit_step_bp_def)
next
  case (Some c)
  obtain p b where c: "c = (p, b)" by (cases c)
  have m: "(p, b) \<in> set (breakpoints d)" "for_stepping b"
    using find_bp_mem [of loc BP_COND_STEPPING d p b] Some s c by (auto simp: way_selects_def)
  from on_thread_hit [OF K J m(1)] obtain d1 where d1: "breakpoint_hit M (Some p) d = Inr d1" "on_thread a d1"
    "if bp_temporary b then breakpoints d1 = pl_delete p (breakpoints d)
     else d1 = upd_bp p (\<lambda>b. b\<lparr>bp_hit_count := bp_hit_count b + 1\<rparr>) d" by blast
  have dist: "distinct (map fst (breakpoints d))" using J by (simp add: on_thread_def handler_inv_def dbg_inv_def bps_ok_def)
  have keep: "(h, x) \<in> set (breakpoints d1)" if x: "(h, x) \<in> set (breakpoints d)" "\<not> for_stepping x" for h x
  proof -
    have ne: "h \<noteq> p"
    proof
      assume "h = p"
      with x(1) m(1) dist have "x = b" by (metis eq_key_imp_eq_value)
      with x(2) m(2) show False by simp
    qed
    show ?thesis
    proof (cases "bp_temporary b")
      case True
      with d1(3) x(1) ne dist show ?thesis by (simp add: pl_delete_set)
    next
      case False
      with d1(3) x(1) ne show ?thesis by (auto simp: upd_bp_def pl_update_mem)
    qed
  qed
  define f where "f = (\<lambda>t :: machthread. t\<lparr>stepconfig := (stepconfig t)\<lparr>just_hit_ss_breakpoint := True, set_temp_ss_breakpoint := False\<rparr>\<rparr>)"
  have "on_thread a (upd_thread a f d1)" by (rule on_thread_upd [OF d1(2)]) (simp_all add: f_def)
  moreover have "breakpoints (upd_thread a f d1) = breakpoints d1" by (simp add: upd_thread_def)
  ultimately show ?thesis using d1(1) keep Some c by (simp add: hit_step_bp_def f_def)
qed

lemma hit_user_total:
  assumes K: "kernel_ok M" and J: "on_thread a d" and h: "(h, b) \<in> set (breakpoints d)" "\<not> bp_temporary b"
  shows "\<exists>d' v'. hit_user_bp M a h d v = Inr (d', v') \<and> on_thread a d' \<and> \<not> should_auto_resume v' \<and>
    should_print v' = should_print v"
proof -
  let ?f = "\<lambda>b. b\<lparr>bp_hit_count := bp_hit_count b + 1\<rparr>"
  from on_thread_hit [OF K J h(1)] h(2) obtain d1 where d1: "breakpoint_hit M (Some h) d = Inr d1" "on_thread a d1"
    "d1 = upd_bp h ?f d" by auto
  have "distinct (map fst (breakpoints d))" using J by (simp add: on_thread_def handler_inv_def dbg_inv_def bps_ok_def)
  with h(1) have g: "pl_get (breakpoints d1) h = Some (?f b)" by (simp add: d1(3) upd_bp_def pl_get_mem)
  have J2: "on_thread a (upd_thread a (\<lambda>t. t\<lparr>just_hit_sw_breakpoint := True\<rparr>) d1)"
    by (rule on_thread_upd [OF d1(2)]) simp_all
  then have "dbg_inv (upd_thread a (\<lambda>t. t\<lparr>just_hit_sw_breakpoint := True\<rparr>) d1)"
    by (simp add: on_thread_def handler_inv_def)
  from by_id_keeps(2) [OF K this, of "bp_id b" None] obtain d2 where
    d2: "breakpoint_disable M (bp_id b) (upd_thread a (\<lambda>t. t\<lparr>just_hit_sw_breakpoint := True\<rparr>) d1) None = Inr d2"
    "dbg_inv (fst d2)" "keeps (upd_thread a (\<lambda>t. t\<lparr>just_hit_sw_breakpoint := True\<rparr>) d1) (fst d2)" by blast
  have J3: "on_thread a (fst d2)" using on_thread_keeps [OF J2 d2(3,2)] .
  have fin: "on_thread a (upd_thread a (\<lambda>t. t\<lparr>last_hit_bkpt_ID := bp_id b\<rparr>) d3)" if "on_thread a d3" for d3
    by (rule on_thread_upd [OF that]) simp_all
  show ?thesis using d1(1) g d2(1) fin [OF J3] fin [OF d1(2)]
    by (cases d2) (auto simp: hit_user_bp_def no_resume_def describe_def Let_def)
qed

lemma handle_hit_breakpoint_total:
  assumes K: "kernel_ok M" and J: "on_thread a d"
  shows "\<exists>d' v'. handle_hit_breakpoint M a loc d v = Inr (d', v') \<and> on_thread a d'"
proof -
  define step where "step = find_bp_with_cond loc BP_COND_STEPPING d"
  obtain d1 where d1: "hit_step_bp M a step d = Inr d1" "on_thread a d1"
    "\<And>h b. (h, b) \<in> set (breakpoints d) \<Longrightarrow> \<not> for_stepping b \<Longrightarrow> (h, b) \<in> set (breakpoints d1)"
    using hit_step_total [OF K J step_def] by blast
  obtain t where t: "the_thread a d1 = Inr t" using on_thread_get [OF d1(2)] .
  show ?thesis
  proof (cases "find_bp_with_cond loc BP_COND_NORMAL d")
    case None
    with d1 t J show ?thesis
      by (cases step) (simp_all add: handle_hit_breakpoint_def Let_def step_def [symmetric])
  next
    case (Some c)
    obtain h b where c: "c = (h, b)" by (cases c)
    then have m: "(h, b) \<in> set (breakpoints d)" "\<not> bp_temporary b" "\<not> for_stepping b"
      using find_bp_mem [of loc BP_COND_NORMAL d h b] Some by (auto simp: way_selects_def)
    from hit_user_total [OF K d1(2) d1(3) [OF m(1,3)] m(2), of v] Some c t d1(1,2) show ?thesis
      by (auto simp: handle_hit_breakpoint_def Let_def step_def [symmetric])
  qed
qed

lemma single_step_handled:
  assumes E: "plain_target E" and J: "on_thread a d"
  shows "\<exists>d' v'. handle_single_step E a d v = Inr (d', v') \<and> on_thread a d'"
proof -
  have K: "kernel_ok (mc E)" by (rule plain_targetD(1) [OF E])
  have I: "dbg_inv d" using J by (simp add: on_thread_def handler_inv_def)
  obtain d1 where d1: "breakpoint_enable_all_specific (mc E) BP_COND_NORMAL d = Inr d1" "dbg_inv d1" "keeps d d1"
    using each_set_state_keeps [OF K I] unfolding breakpoint_enable_all_specific_def by blast
  have J1: "on_thread a d1" using on_thread_keeps [OF J d1(3,2)] .
  obtain t where t: "the_thread a d1 = Inr t" using on_thread_get [OF J1] .
  show ?thesis
  proof (cases "just_hit_breakpoint t")
    case False
    obtain d2 v2 where "disassemble4 E (ts_pc (thread_state t)) d1 (describe [CHR 0x0A]
        (if step_kind (stepconfig t) = INST_STEP_OVER \<and> set_temp_ss_breakpoint (stepconfig t) then v else no_resume v))
        = Inr (d2, v2)" "on_thread a d2" using disassemble4_total [OF E J1] by blast
    with d1(1) t False show ?thesis by (simp add: handle_single_step_def)
  next
    case True
    have "\<exists>d2. (if just_hit_sw_breakpoint t
             then bind_run (breakpoint_enable (mc E) (last_hit_bkpt_ID t) d1 None) (\<lambda>(d2, _).
                    Inr (upd_thread a (\<lambda>t. t\<lparr>just_hit_sw_breakpoint := False\<rparr>) d2))
             else Inr d1) = Inr d2 \<and> on_thread a d2"
    proof (cases "just_hit_sw_breakpoint t")
      case True
      obtain d2 where d2: "breakpoint_enable (mc E) (last_hit_bkpt_ID t) d1 None = Inr d2" "dbg_inv (fst d2)"
        "keeps d1 (fst d2)" using by_id_keeps(1) [OF K d1(2), of "last_hit_bkpt_ID t" None] by blast
      have "on_thread a (upd_thread a (\<lambda>t. t\<lparr>just_hit_sw_breakpoint := False\<rparr>) (fst d2))"
        by (rule on_thread_upd [OF on_thread_keeps [OF J1 d2(3,2)]]) simp_all
      with True d2(1) show ?thesis by (simp add: case_prod_beta)
    qed (use J1 in simp)
    then obtain d2 where d2: "(if just_hit_sw_breakpoint t
             then bind_run (breakpoint_enable (mc E) (last_hit_bkpt_ID t) d1 None) (\<lambda>(d2, _).
                    Inr (upd_thread a (\<lambda>t. t\<lparr>just_hit_sw_breakpoint := False\<rparr>) d2))
             else Inr d1) = Inr d2" "on_thread a d2" by blast
    have J3: "on_thread a (upd_thread a (\<lambda>t. t\<lparr>stepconfig := (stepconfig t)\<lparr>just_hit_ss_breakpoint := False\<rparr>\<rparr>) d2)"
      by (rule on_thread_upd [OF d2(2)]) simp_all
    obtain d4 v4 where d4: "disassemble4 E (ts_pc (thread_state t)) d2 (describe [CHR 0x0A] (no_resume v)) = Inr (d4, v4)"
      "on_thread a d4" using disassemble4_total [OF E d2(2)] by blast
    have fin: "on_thread a (upd_thread a (\<lambda>t. t\<lparr>just_hit_breakpoint := False\<rparr>) d3)" if "on_thread a d3" for d3
      by (rule on_thread_upd [OF that]) simp_all
    show ?thesis using d1(1) t True d4(1) fin [OF d2(2)] fin [OF J3] fin [OF d4(2)]
      unfolding handle_single_step_def d1(1) bind_run.simps t if_P [OF True] d2(1) by auto
  qed
qed

lemma bp_trap_total:
  assumes E: "plain_target E" and J: "on_thread a d"
  shows "\<exists>d' v'. bp_trap E a loc d v = Inr (d', v') \<and> on_thread a d'"
proof -
  have K: "kernel_ok (mc E)" by (rule plain_targetD(1) [OF E])
  obtain t where t: "the_thread a d = Inr t" using on_thread_get [OF J] .
  have "on_thread a (upd_thread a (\<lambda>t. t\<lparr>just_hit_breakpoint := True\<rparr>) d)" by (rule on_thread_upd [OF J]) simp_all
  from handle_hit_breakpoint_total [OF K this] obtain d1 v1 where
    1: "handle_hit_breakpoint (mc E) a loc (upd_thread a (\<lambda>t. t\<lparr>just_hit_breakpoint := True\<rparr>) d)
         (describe (concat ['': '', quoted (tname t), '':'']) v) = Inr (d1, v1)" "on_thread a d1" by blast
  from disassemble4_total [OF E 1(2)] obtain d2 v2 where
    2: "disassemble4 E (ts_pc (thread_state t)) d1 v1 = Inr (d2, v2)" "on_thread a d2" by blast
  from single_step_total [OF K 2(2)] obtain d3 where "enable_single_step (mc E) a d2 = Inr d3" "on_thread a d3" by blast
  with t 1(1) 2(1) show ?thesis by (simp add: bp_trap_def)
qed

lemma step_trap_total:
  assumes E: "plain_target E" and J: "on_thread a d"
  shows "\<exists>d' v'. step_trap E X a d v = Inr (d', v') \<and> on_thread a d'"
proof -
  have K: "kernel_ok (mc E)" by (rule plain_targetD(1) [OF E])
  obtain t where t: "the_thread a d = Inr t" using on_thread_get [OF J] .
  show ?thesis
  proof (cases "just_hit_watchpoint t")
    case True
    obtain d1 v1 where 1: "handle_hit_watchpoint E (behind_prev X) (behind_cur X) a d v = Inr (d1, v1)" "on_thread a d1"
      using hit_watchpoint_total [OF E J] by blast
    have "on_thread a (upd_thread a (\<lambda>t. t\<lparr>just_hit_watchpoint := False\<rparr>) d1)" by (rule on_thread_upd [OF 1(2)]) simp_all
    with t True 1(1) show ?thesis by (simp add: step_trap_def)
  next
    case False
    have "\<exists>d1 v1. step_report E a t d v = Inr (d1, v1) \<and> on_thread a d1"
    proof (cases "is_stepping (stepconfig t) \<and> find_bp_with_cond (ts_pc (thread_state t)) BP_COND_NORMAL d \<noteq> None")
      case True
      then obtain h b where hb: "find_bp_with_cond (ts_pc (thread_state t)) BP_COND_NORMAL d = Some (h, b)" by auto
      then have m: "(h, b) \<in> set (breakpoints d)" "\<not> bp_temporary b"
        using find_bp_mem [OF hb] by (auto simp: way_selects_def)
      from on_thread_hit [OF K J m(1)] m(2) obtain d1 where d1: "breakpoint_hit (mc E) (Some h) d = Inr d1" "on_thread a d1"
        "d1 = upd_bp h (\<lambda>b. b\<lparr>bp_hit_count := bp_hit_count b + 1\<rparr>) d" by auto
      have "distinct (map fst (breakpoints d))" using J by (simp add: on_thread_def handler_inv_def dbg_inv_def bps_ok_def)
      with m(1) have "pl_get (breakpoints d1) h = Some (b\<lparr>bp_hit_count := bp_hit_count b + 1\<rparr>)"
        by (simp add: d1(3) upd_bp_def pl_get_mem)
      with True hb d1(1,2) show ?thesis by (simp add: step_report_def)
    next
      case False
      with J show ?thesis
        by (cases "find_bp_with_cond (ts_pc (thread_state t)) BP_COND_NORMAL d") (auto simp: step_report_def)
    qed
    then obtain d1 v1 where 1: "step_report E a t d v = Inr (d1, v1)" "on_thread a d1" by blast
    from single_step_handled [OF E 1(2)] obtain d2 v2 where 2: "handle_single_step E a d1 v1 = Inr (d2, v2)" "on_thread a d2"
      by blast
    have "on_thread a (upd_thread a (\<lambda>t. t\<lparr>stepconfig := (stepconfig t)\<lparr>step_kind := STEP_NONE, is_stepping := False\<rparr>\<rparr>) d2)"
      by (rule on_thread_upd [OF 2(2)]) simp_all
    with t False 1(1) 2(1) show ?thesis by (simp add: step_trap_def)
  qed
qed


lemma soft_signal_total:
  assumes E: "plain_target E" and J: "on_thread a d" and s: "unat subcode < length (sys_signame E)"
  shows "\<exists>d' v'. soft_signal E X a subcode d v = Inr (d', v') \<and> on_thread a d'"
proof -
  obtain t where t: "the_thread a d = Inr t" using on_thread_get [OF J] .
  have "\<exists>n p st e. sigsettings signo (Some j, Some j, Some j) False tab None = Inr (tab, (n, p, st), e)" for signo j tab
    by (cases "signo < 1 \<or> int NSIG \<le> signo") (simp_all add: sigsettings_def Let_def)
  then obtain n p st e where g: "sigsettings (sint (ucast subcode :: u32)) (Some (sigjunk X), Some (sigjunk X), Some (sigjunk X))
      False (sigtab X) None = Inr (sigtab X, (n, p, st), e)" by blast
  have J1: "on_thread a (d\<lparr>kern := k\<rparr>)" for k
    by (rule on_thread_keeps [OF J])
       (use J in \<open>auto simp: keeps_def on_thread_def handler_inv_def dbg_inv_def bps_ok_def wps_ok_def\<close>)
  have "\<exists>d1 v1. handle_soft_signal E (port t) subcode pass d u = Inr (d1, v1) \<and> on_thread a d1" for pass u
    using s J J1 by (auto simp: handle_soft_signal_def signal_name_def Let_def)
  then obtain d1 v1 where 1: "handle_soft_signal E (port t) subcode (case p of Some i \<Rightarrow> i | None \<Rightarrow> 0) d
           (describe (concat ['', '', quoted (tname t), '' received signal '']) v) = Inr (d1, v1)" "on_thread a d1" by blast
  obtain d2 v2 where 2: "disassemble4 E (ts_pc (thread_state t)) d1 (describe [CHR 0x0A] (no_resume v1)) = Inr (d2, v2)"
    "on_thread a d2" using disassemble4_total [OF E 1(2)] by blast
  show ?thesis using 1 2
    by (cases "n = Some 0"; cases "st = Some 0") (simp_all add: soft_signal_def t g Let_def)
qed

lemma watch_trap_total:
  assumes E: "plain_target E" and J: "on_thread a d"
  shows "\<exists>d' v'. watch_trap E a loc d v = Inr (d', v') \<and> on_thread a d'"
proof -
  have "on_thread a (upd_thread a (\<lambda>t. t\<lparr>just_hit_watchpoint := True, last_hit_wp_loc := loc,
      last_hit_wp_PC := ts_pc (thread_state t)\<rparr>) d)" by (rule on_thread_upd [OF J]) simp_all
  from single_step_total [OF plain_targetD(1) [OF E] this] show ?thesis by (auto simp: watch_trap_def)
qed

lemma reporting_total:
  assumes E: "plain_target E" and J: "on_thread a d"
  shows "\<exists>d' v'. fake_sigstop E X a d v = Inr (d', v') \<and> on_thread a d'"
    and "\<exists>d' v'. other_trap E a r d v = Inr (d', v') \<and> on_thread a d'"
proof -
  obtain t where t: "the_thread a d = Inr t" using on_thread_get [OF J] .
  from disassemble4_total [OF E J] show "\<exists>d' v'. fake_sigstop E X a d v = Inr (d', v') \<and> on_thread a d'"
    by (simp add: fake_sigstop_def t) metis
  obtain d1 v1 where "disassemble4 E (ts_pc (thread_state t)) d
      (describe (concat ['': '', quoted (tname t), '': stop reason: '', exc_str (rq_exception r), '' (code = '',
         show_hex (rq_code r), '', subcode = '', show_hex (rq_subcode r), '')'', [CHR 0x0A]]) v) = Inr (d1, v1)"
    "on_thread a d1" using disassemble4_total [OF E J] by blast
  then show "\<exists>d' v'. other_trap E a r d v = Inr (d', v') \<and> on_thread a d'" by (simp add: other_trap_def t)
qed

text \<open>Moving the focus changes nothing the invariant speaks of.\<close>

lemma handler_inv_focus:
  assumes "handler_inv d"
  shows "handler_inv (focus_on p d)"
proof -
  have upd: "handler_inv (upd_thread b (\<lambda>t. t\<lparr>focused := x\<rparr>) d)" if "handler_inv d" for b x and d :: "'a dbg"
  proof -
    have m: "map fst (pl_update b (\<lambda>t. t\<lparr>focused := x\<rparr>) ts) = map fst ts"
      "map (debug_state \<circ> snd) (pl_update b (\<lambda>t. t\<lparr>focused := x\<rparr>) ts) = map (debug_state \<circ> snd) ts" for ts
      by (induction ts) auto
    have thr: "thr_ok ts \<longleftrightarrow> distinct (map fst ts) \<and> (\<forall>s \<in> set (map (debug_state \<circ> snd) ts). regs16 s)" for ts
      by (auto simp: thr_ok_def)
    have "thr_ok (threads (upd_thread b (\<lambda>t. t\<lparr>focused := x\<rparr>) d)) = thr_ok (threads d)"
      unfolding thr by (simp add: upd_thread_def m)
    with that show ?thesis
      by (simp add: handler_inv_def dbg_inv_def) (simp add: upd_thread_def vars_ok_def bps_ok_def wps_ok_def)
  qed
  show ?thesis using assms
    by (auto simp: focus_on_def set_focused_thread_def Let_def intro!: upd split: option.splits)
qed

lemma handle_exception_total:
  assumes E: "plain_target E" and H: "handler_inv d" and s: "rq_code r = EXC_SOFT_SIGNAL \<longrightarrow> unat (rq_subcode r) < length (sys_signame E)"
  shows "\<exists>d' v'. handle_exception E X r d v = Inr (d', v') \<and> handler_inv d'"
proof -
  have H1: "handler_inv (focus_on (rq_thread r) d)" by (rule handler_inv_focus [OF H])
  show ?thesis
  proof (cases "get_focused_thread (focus_on (rq_thread r) d)")
    case None
    with H1 show ?thesis by (simp add: handle_exception_def Let_def)
  next
    case (Some c)
    obtain a t0 where c: "c = (a, t0)" by (cases c)
    have J: "on_thread a (focus_on (rq_thread r) d)" using H1 Some c by (simp add: on_thread_def)
    obtain e d2 t where g: "get_thread_state (mc E) (Some a) (focus_on (rq_thread r) d) = (e, d2)" "on_thread a d2"
      using fetch_focused [OF E J] by blast
    obtain t where t: "the_thread a d2 = Inr t" using on_thread_get [OF g(2)] .
    have inv: "handler_inv d'" if "on_thread a d'" for d' :: "'a dbg" using that by (simp add: on_thread_def)
    define v1 where "v1 = describe (concat [[CHR 0x0A], '' * Thread #'', show_dec (ID t), '' (tid = '', show_hex (tid t), '')'']) v"
    have "handle_exception E X r d v =
        (if rq_codeCnt r = 0x41414141 then fake_sigstop E X a d2 v1
         else if rq_exception r = EXC_SOFTWARE \<and> rq_code r = EXC_SOFT_SIGNAL then soft_signal E X a (rq_subcode r) d2 v1
         else if rq_code r = EXC_ARM_DA_DEBUG then watch_trap E a (rq_subcode r) d2 v1
         else if rq_exception r = EXC_BREAKPOINT \<and> rq_code r = EXC_ARM_BREAKPOINT
           then (if rq_subcode r = 0 then step_trap E X a d2 v1 else bp_trap E a (rq_subcode r) d2 v1)
         else other_trap E a r d2 v1)"
      unfolding handle_exception_def Let_def Some c option.case prod.case g(1) snd_conv t bind_run.simps v1_def ..
    moreover note reporting_total(1) [OF E g(2), of X v1] soft_signal_total [OF E g(2), of "rq_subcode r" X v1]
      watch_trap_total [OF E g(2), of "rq_subcode r" v1] step_trap_total [OF E g(2), of X v1]
      bp_trap_total [OF E g(2), of "rq_subcode r" v1] reporting_total(2) [OF E g(2), of r v1]
    ultimately show ?thesis using s inv by (smt (verit, best))
  qed
qed

lemma handle_batch_total:
  assumes E: "plain_target E" and "handler_inv d"
    and "\<forall>r \<in> set rs. rq_code r = EXC_SOFT_SIGNAL \<longrightarrow> unat (rq_subcode r) < length (sys_signame E)"
  shows "\<exists>d' res buf'. handle_batch E X rs d will buf = Inr (d', res, buf') \<and> handler_inv d'"
  using assms(2,3)
proof (induction rs arbitrary: d will buf)
  case (Cons r rs)
  obtain d1 v1 where "handle_exception E X r d \<lparr>should_auto_resume = True, should_print = True, desc = None\<rparr> = Inr (d1, v1)"
    "handler_inv d1" using handle_exception_total [OF E Cons.prems(1)] Cons.prems(2) by fastforce
  with Cons show ?case by simp
qed simp

end
