(* ===== verification/Cycle.thy ===== *)
theory Cycle
  imports Handled
begin

text \<open>
  The course of a software breakpoint through the two exceptions it causes, the verdict on a signal, and
  what the handler does wrong.
\<close>

section \<open>Over a software breakpoint and armed again\<close>

text \<open>The fields of a thread the handler steers by.\<close>

definition ctl :: "machthread \<Rightarrow> machthread" where
  "ctl t = t\<lparr>thread_state := zero_ts, debug_state := zero_ds\<rparr>"

definition ctl_of :: "nat \<Rightarrow> 'k dbg \<Rightarrow> machthread option" where
  "ctl_of a d = map_option ctl (pl_get (threads d) a)"

lemma pl_get_map_eq:
  assumes "map (\<lambda>c. (fst c, f (snd c))) xs = map (\<lambda>c. (fst c, f (snd c))) ys"
  shows "map_option f (pl_get xs a) = map_option f (pl_get ys a)"
proof -
  have "map_option f (pl_get zs a) = map_of (map (\<lambda>c. (fst c, f (snd c))) zs) a" for zs
    by (induction zs) (auto simp: pl_get_def)
  with assms show ?thesis by simp
qed

lemma ctl_of_keeps: "keeps d d' \<Longrightarrow> ctl_of a d' = ctl_of a d"
  unfolding ctl_of_def
  by (rule pl_get_map_eq, rule undebugged_map) (simp_all add: ctl_def keeps_def)

lemma ctl_of_shown: "only_shown d d' \<Longrightarrow> ctl_of a d' = ctl_of a d"
  unfolding ctl_of_def
  by (rule pl_get_map_eq, rule stateless_map) (simp_all add: ctl_def only_shownD)

lemma pl_get_update: "pl_get (pl_update b f xs) a = (if a = b then map_option f (pl_get xs a) else pl_get xs a)"
  by (induction xs) (auto simp: pl_get_def)

lemma ctl_of_upd:
  assumes "\<And>t. ctl (f t) = f (ctl t)"
  shows "ctl_of a (upd_thread a f d) = map_option f (ctl_of a d)"
  by (simp add: ctl_of_def upd_thread_def pl_get_update option.map_comp comp_def assms)

lemma the_thread_ctl:
  assumes "on_thread a d"
  obtains t where "the_thread a d = Inr t" "ctl_of a d = Some (ctl t)" "get_focused_thread d = Some (a, t)"
  using on_thread_get [OF assms] by (metis ctl_of_def option.simps(9))

text \<open>Setting debug states does not write memory.\<close>

definition debug_quiet :: "'k mach \<Rightarrow> ('k \<Rightarrow> u64 \<Rightarrow> u8) \<Rightarrow> bool" where
  "debug_quiet M mem \<longleftrightarrow> (\<forall>k p s. mem (snd (debug_set_state M k p s)) = mem k)"

lemma program_thread_quiet:
  assumes "debug_quiet M mem" "program_thread M f a d = Inr d'"
  shows "mem (kern d') = mem (kern d)"
proof -
  have g: "kern (snd (get_debug_state M (Some a) d)) = kern d"
    by (simp add: get_debug_state_def get_state_def upd_thread_def split: option.splits prod.splits)
  from assms(2) obtain s where
    s: "d' = snd (set_debug_state M (Some a) (upd_thread a (\<lambda>t. t\<lparr>debug_state := s\<rparr>) (snd (get_debug_state M (Some a) d))))"
    by (auto simp: program_thread_def bind_run_Inr Let_def split: option.splits)
  moreover have "kern (upd_thread a (\<lambda>t. t\<lparr>debug_state := s\<rparr>) (snd (get_debug_state M (Some a) d))) = kern d"
    using g by (simp add: upd_thread_def)
  moreover note assms(1)
  ultimately show ?thesis
    by (simp add: set_debug_state_def set_state_def store_debug_def debug_quiet_def split: option.splits prod.splits)
       (metis snd_conv)
qed

text \<open>After enabling single steps the thread has its bit set.\<close>

lemma single_step_bit:
  assumes "enable_single_step M a d = Inr d'" "pl_get (threads d') a = Some t"
  shows "bit (ds_mdscr_el1 (debug_state t)) 0"
proof -
  let ?d1 = "snd (get_debug_state M (Some a) d)"
  from assms(1) obtain u where u: "pl_get (threads ?d1) a = Some u"
    "d' = snd (set_debug_state M (Some a) (upd_thread a (\<lambda>t. t\<lparr>debug_state := (debug_state u)\<lparr>ds_mdscr_el1 :=
       ds_mdscr_el1 (debug_state u) OR 1\<rparr>\<rparr>) ?d1))"
    by (auto simp: enable_single_step_def program_thread_def Let_def split: option.splits)
  have "threads (snd (set_debug_state M (Some a) e)) = threads e" for e
    by (simp add: set_debug_state_def set_state_def split: option.splits prod.splits)
  with u assms(2) show ?thesis by (auto simp: upd_thread_def pl_get_update bit_or_iff bit_1_iff)
qed

text \<open>One software breakpoint for all threads, written into memory.\<close>

definition armed :: "('k \<Rightarrow> u64 \<Rightarrow> u8) \<Rightarrow> nat \<Rightarrow> breakpoint \<Rightarrow> 'k dbg \<Rightarrow> bool" where
  "armed mem h b d \<longleftrightarrow> breakpoints d = [(h, b)] \<and> \<not> bp_hw b \<and> \<not> bp_temporary b \<and> \<not> for_stepping b \<and>
     \<not> bp_disabled b \<and> all_threads (bp_threadinfo b) \<and> bytes_at (mem (kern d)) (bp_location b) 4 = bytes_le 4 BRK"

text \<open>Switching that breakpoint.\<close>

lemma switch_only:
  assumes "flat_mem M mem" "breakpoints d = [(h, b)]" "\<not> bp_hw b"
  obtains k where "bp_set_state_internal M h x d = Inr (upd_bp h (\<lambda>b. b\<lparr>bp_disabled := x\<rparr>) (d\<lparr>kern := k\<rparr>))"
    "mem k = put_bytes (mem (kern d)) (bp_location b) (bytes_le 4 (if x then old_instruction b else BRK))"
proof -
  from poke_flat [OF assms(1), of "bp_location b" "if x then old_instruction b else BRK" d] obtain k where
    k: "poke M (bp_location b) (if x then old_instruction b else BRK) 4 d = Inr (d\<lparr>kern := k\<rparr>)"
      "mem k = put_bytes (mem (kern d)) (bp_location b) (bytes_le 4 (if x then old_instruction b else BRK))" .
  then show ?thesis
    using that [of k] assms(2,3) by (cases x) (simp_all add: bp_set_state_internal_def pl_get_def)
qed

lemma bp_trap_hits:
  assumes E: "plain_target E" and M: "flat_mem (mc E) mem" "debug_quiet (mc E) mem"
    and J: "on_thread a d" and b: "armed mem h b d" and c: "ctl_of a d = Some t"
  shows "\<exists>d' v'. bp_trap E a (bp_location b) d v = Inr (d', v') \<and> on_thread a d' \<and>
    \<not> should_auto_resume v' \<and> should_print v' = should_print v \<and>
    breakpoints d' = [(h, b\<lparr>bp_hit_count := bp_hit_count b + 1, bp_disabled := True\<rparr>)] \<and>
    mem (kern d') = put_bytes (mem (kern d)) (bp_location b) (bytes_le 4 (old_instruction b)) \<and>
    ctl_of a d' = Some (t\<lparr>just_hit_breakpoint := True, just_hit_sw_breakpoint := True, last_hit_bkpt_ID := bp_id b\<rparr>) \<and>
    (\<forall>u. pl_get (threads d') a = Some u \<longrightarrow> bit (ds_mdscr_el1 (debug_state u)) 0)"
proof -
  have K: "kernel_ok (mc E)" by (rule plain_targetD(1) [OF E])
  have bp: "breakpoints d = [(h, b)]" "\<not> bp_hw b" "\<not> bp_temporary b" "\<not> for_stepping b" "all_threads (bp_threadinfo b)"
    using b by (simp_all add: armed_def)
  obtain t0 where t0: "the_thread a d = Inr t0" using on_thread_get [OF J] .
  let ?d0 = "upd_thread a (\<lambda>t. t\<lparr>just_hit_breakpoint := True\<rparr>) d"
  have J0: "on_thread a ?d0" by (rule on_thread_upd [OF J]) simp_all
  have c0: "ctl_of a ?d0 = Some (t\<lparr>just_hit_breakpoint := True\<rparr>)" by (subst ctl_of_upd) (simp_all add: c ctl_def)
  obtain t1 where t1: "the_thread a ?d0 = Inr t1" using on_thread_get [OF J0] .
  have bp0: "breakpoints ?d0 = [(h, b)]" by (simp add: upd_thread_def bp)
  have fnd: "find_bp_with_cond (bp_location b) BP_COND_NORMAL ?d0 = Some (h, b)"
    "find_bp_with_cond (bp_location b) BP_COND_STEPPING ?d0 = None"
    using bp by (simp_all add: find_bp_with_cond_def bp0 pl_find_def way_selects_def)
  let ?b1 = "b\<lparr>bp_hit_count := bp_hit_count b + 1\<rparr>"
  let ?d1 = "upd_bp h (\<lambda>b. b\<lparr>bp_hit_count := bp_hit_count b + 1\<rparr>) ?d0"
  have hit: "breakpoint_hit (mc E) (Some h) ?d0 = Inr ?d1"
    using bp by (simp add: breakpoint_hit_def bp0 pl_get_def)
  have bp1: "breakpoints ?d1 = [(h, ?b1)]" by (simp add: upd_bp_def bp0)
  let ?d2 = "upd_thread a (\<lambda>t. t\<lparr>just_hit_sw_breakpoint := True\<rparr>) ?d1"
  have bp2: "breakpoints ?d2 = [(h, ?b1)]" using bp1 by (simp add: upd_thread_def)
  obtain k where k: "bp_set_state_internal (mc E) h True ?d2 = Inr (upd_bp h (\<lambda>b. b\<lparr>bp_disabled := True\<rparr>) (?d2\<lparr>kern := k\<rparr>))"
    "mem k = put_bytes (mem (kern ?d2)) (bp_location b) (bytes_le 4 (old_instruction b))"
    using switch_only [OF M(1) bp2, of True] bp by auto
  let ?d3 = "upd_bp h (\<lambda>b. b\<lparr>bp_disabled := True\<rparr>) (?d2\<lparr>kern := k\<rparr>)"
  have dis: "breakpoint_disable (mc E) (bp_id ?b1) ?d2 None = Inr (?d3, None)"
    using k(1) by (simp add: breakpoint_disable_def bp_with_id_def bp2 pl_find_def)
  let ?d4 = "upd_thread a (\<lambda>t. t\<lparr>last_hit_bkpt_ID := bp_id b\<rparr>) ?d3"
  let ?v0 = "describe (concat ['': '', quoted (tname t0), '':'']) v"
  obtain v1 where hb: "handle_hit_breakpoint (mc E) a (bp_location b) ?d0 ?v0 = Inr (?d4, v1)"
    "\<not> should_auto_resume v1" "should_print v1 = should_print v"
    using fnd hit bp1 bp dis t1
    by (auto simp: handle_hit_breakpoint_def hit_step_bp_def hit_user_bp_def Let_def pl_get_def no_resume_def describe_def)
  have J4: "on_thread a ?d4" using handle_hit_breakpoint_total [OF K J0, of "bp_location b" ?v0] hb(1) by auto
  have c4: "ctl_of a ?d4 = Some (t\<lparr>just_hit_breakpoint := True, just_hit_sw_breakpoint := True, last_hit_bkpt_ID := bp_id b\<rparr>)"
  proof -
    have "ctl_of a ?d1 = ctl_of a ?d0" "ctl_of a ?d3 = ctl_of a ?d2" by (simp_all add: ctl_of_def upd_bp_def)
    moreover have "ctl_of a ?d2 = map_option (\<lambda>t. t\<lparr>just_hit_sw_breakpoint := True\<rparr>) (ctl_of a ?d1)"
      "ctl_of a ?d4 = map_option (\<lambda>t. t\<lparr>last_hit_bkpt_ID := bp_id b\<rparr>) (ctl_of a ?d3)"
      by (rule ctl_of_upd, simp add: ctl_def)+
    ultimately show ?thesis using c0 by simp
  qed
  obtain d5 v5 where d5: "disassemble4 E (ts_pc (thread_state t0)) ?d4 v1 = Inr (d5, v5)" "on_thread a d5" "only_shown ?d4 d5"
    "should_print v5 = should_print v1" "should_auto_resume v5 = should_auto_resume v1"
    using disassemble4_total [OF E J4] by blast
  obtain d6 where d6: "enable_single_step (mc E) a d5 = Inr d6" "on_thread a d6" "same_debugger d5 d6"
    using single_step_total [OF K d5(2)] by blast
  have "bp_trap E a (bp_location b) d v = Inr (d6, v5)"
    using t0 hb(1) d5(1) d6(1) by (simp add: bp_trap_def)
  moreover have "breakpoints d6 = [(h, b\<lparr>bp_hit_count := bp_hit_count b + 1, bp_disabled := True\<rparr>)]"
  proof -
    have "breakpoints d6 = breakpoints ?d4" using same_debuggerD(1) [OF d6(3)] only_shownD(2) [OF d5(3)] by simp
    also have "\<dots> = pl_update h (\<lambda>b. b\<lparr>bp_disabled := True\<rparr>) (breakpoints ?d2)" by (simp add: upd_thread_def upd_bp_def)
    finally show ?thesis by (simp add: bp2)
  qed
  moreover have "mem (kern d6) = put_bytes (mem (kern d)) (bp_location b) (bytes_le 4 (old_instruction b))"
  proof -
    have "mem (kern d6) = mem (kern ?d4)"
      using program_thread_quiet [OF M(2) d6(1) [unfolded enable_single_step_def]] only_shownD(1) [OF d5(3)] by simp
    also have "\<dots> = mem k" by (simp add: upd_thread_def upd_bp_def)
    finally show ?thesis using k(2) by (simp add: upd_thread_def upd_bp_def)
  qed
  moreover have "ctl_of a d6 = Some (t\<lparr>just_hit_breakpoint := True, just_hit_sw_breakpoint := True, last_hit_bkpt_ID := bp_id b\<rparr>)"
    using ctl_of_keeps [OF same_debugger_keeps [OF d6(3)]] ctl_of_shown [OF d5(3)] c4 by simp
  ultimately show ?thesis using d5(4,5) hb(2,3) d6(2) single_step_bit [OF d6(1)] by auto
qed


lemma step_trap_rearms:
  assumes E: "plain_target E" and M: "flat_mem (mc E) mem" and J: "on_thread a d"
    and bp: "breakpoints d = [(h, b)]" "\<not> bp_hw b" "\<not> bp_temporary b" "\<not> for_stepping b"
    and t: "ctl_of a d = Some t" "\<not> just_hit_watchpoint t" "just_hit_breakpoint t" "just_hit_sw_breakpoint t"
      "last_hit_bkpt_ID t = bp_id b" "\<not> is_stepping (stepconfig t)"
  shows "\<exists>d'. step_trap E X a d v = Inr (d', no_print v) \<and> handler_inv d' \<and>
    breakpoints d' = [(h, b\<lparr>bp_disabled := False\<rparr>)] \<and>
    mem (kern d') = put_bytes (mem (kern d)) (bp_location b) (bytes_le 4 BRK)"
proof -
  obtain t0 where t0: "the_thread a d = Inr t0" "ctl_of a d = Some (ctl t0)" using the_thread_ctl [OF J] .
  have f0: "\<not> just_hit_watchpoint t0" "\<not> is_stepping (stepconfig t0)" using t t0(2) by (auto simp: ctl_def)
  have g: "pl_get (breakpoints d) h = Some b" using bp(1) by (simp add: pl_get_def)
  obtain k where k: "bp_set_state_internal (mc E) h False d = Inr (upd_bp h (\<lambda>b. b\<lparr>bp_disabled := False\<rparr>) (d\<lparr>kern := k\<rparr>))"
    "mem k = put_bytes (mem (kern d)) (bp_location b) (bytes_le 4 BRK)"
    using switch_only [OF M bp(1,2), of False] by auto
  let ?d1 = "upd_bp h (\<lambda>b. b\<lparr>bp_disabled := False\<rparr>) (d\<lparr>kern := k\<rparr>)"
  have all: "breakpoint_enable_all_specific (mc E) BP_COND_NORMAL d = Inr ?d1"
    using bp k(1) by (simp add: breakpoint_enable_all_specific_def each_bp_def way_selects_def pl_get_def)
  have bp1: "breakpoints ?d1 = [(h, b\<lparr>bp_disabled := False\<rparr>)]" by (simp add: upd_bp_def bp(1))
  have "dbg_inv ?d1" "keeps d ?d1"
    using set_state_keeps [OF plain_targetD(1) [OF E] _, of d h False] J g k(1) bp(1)
    by (auto simp: on_thread_def handler_inv_def)
  then have J1: "on_thread a ?d1" and c1: "ctl_of a ?d1 = Some t"
    using on_thread_keeps [OF J] ctl_of_keeps [of d ?d1 a] t(1) by auto
  obtain t1 where t1: "the_thread a ?d1 = Inr t1" "ctl_of a ?d1 = Some (ctl t1)" using the_thread_ctl [OF J1] .
  have f1: "just_hit_breakpoint t1" "just_hit_sw_breakpoint t1" "last_hit_bkpt_ID t1 = bp_id b" "\<not> is_stepping (stepconfig t1)"
    using c1 t1(2) t by (auto simp: ctl_def)
  obtain k2 where k2: "bp_set_state_internal (mc E) h False ?d1 = Inr (upd_bp h (\<lambda>b. b\<lparr>bp_disabled := False\<rparr>) (?d1\<lparr>kern := k2\<rparr>))"
    "mem k2 = put_bytes (mem (kern ?d1)) (bp_location b) (bytes_le 4 BRK)"
    using switch_only [OF M bp1, of False] bp by auto
  let ?d2 = "upd_bp h (\<lambda>b. b\<lparr>bp_disabled := False\<rparr>) (?d1\<lparr>kern := k2\<rparr>)"
  have en: "breakpoint_enable (mc E) (bp_id b) ?d1 None = Inr (?d2, None)"
    using k2(1) by (simp add: breakpoint_enable_def bp_with_id_def bp1 pl_find_def)
  have bp2: "breakpoints ?d2 = [(h, b\<lparr>bp_disabled := False\<rparr>)]" using bp1 by (simp add: upd_bp_def)
  have m2: "mem (kern ?d2) = put_bytes (mem (kern d)) (bp_location b) (bytes_le 4 BRK)"
    using k(2) k2(2) by (simp add: upd_bp_def put_bytes_twice)
  have only: "\<exists>d'. handle_single_step E a d v = Inr (d', no_print v) \<and> breakpoints d' = breakpoints ?d2 \<and> kern d' = kern ?d2"
    using f1 by (simp add: handle_single_step_def all t1(1) en) (simp add: upd_thread_def)
  then obtain d3 where d3: "handle_single_step E a d v = Inr (d3, no_print v)" "breakpoints d3 = breakpoints ?d2"
    "kern d3 = kern ?d2" by blast
  have "step_trap E X a d v = Inr (upd_thread a (\<lambda>t. t\<lparr>stepconfig := (stepconfig t)\<lparr>step_kind := STEP_NONE,
      is_stepping := False\<rparr>\<rparr>) d3, no_print v)"
    using t0(1) f0 d3(1) by (simp add: step_trap_def step_report_def)
  moreover from this step_trap_total [OF E J, of X v]
  have "handler_inv (upd_thread a (\<lambda>t. t\<lparr>stepconfig := (stepconfig t)\<lparr>step_kind := STEP_NONE,
      is_stepping := False\<rparr>\<rparr>) d3)" by (simp add: on_thread_def)
  ultimately show ?thesis using d3(2,3) bp2 m2 by (simp add: upd_thread_def)
qed

text \<open>The two exceptions one after the other.\<close>

definition bp_request :: "request \<Rightarrow> bool" where
  "bp_request r \<longleftrightarrow> rq_codeCnt r \<noteq> 0x41414141 \<and> rq_exception r = EXC_BREAKPOINT \<and> rq_code r = EXC_ARM_BREAKPOINT"

lemma handle_focused:
  assumes E: "plain_target E" and J: "on_thread a d" and c: "ctl_of a d = Some t" "port t = rq_thread r"
    and r: "bp_request r"
  obtains d2 v1 where "on_thread a d2" "only_shown d d2" "should_print v1 = should_print v"
    "should_auto_resume v1 = should_auto_resume v"
    "handle_exception E X r d v = (if rq_subcode r = 0 then step_trap E X a d2 v1 else bp_trap E a (rq_subcode r) d2 v1)"
proof -
  obtain t0 where t0: "ctl_of a d = Some (ctl t0)" "get_focused_thread d = Some (a, t0)"
    using the_thread_ctl [OF J] by metis
  have "port t0 = rq_thread r" using c t0(1) by (auto simp: ctl_def)
  then have fo: "focus_on (rq_thread r) d = d" using t0(2) by (simp add: focus_on_def)
  obtain e d2 where g: "get_thread_state (mc E) (Some a) d = (e, d2)" "on_thread a d2" "only_shown d d2"
    using fetch_focused [OF E J] by metis
  obtain t2 where t2: "the_thread a d2 = Inr t2" using on_thread_get [OF g(2)] .
  have codes: "EXC_BREAKPOINT \<noteq> EXC_SOFTWARE" "EXC_ARM_BREAKPOINT \<noteq> EXC_ARM_DA_DEBUG"
    by (simp_all add: EXC_BREAKPOINT_def EXC_SOFTWARE_def EXC_ARM_BREAKPOINT_def EXC_ARM_DA_DEBUG_def)
  let ?v1 = "describe (concat [[CHR 0x0A], '' * Thread #'', show_dec (ID t2), '' (tid = '', show_hex (tid t2), '')'']) v"
  have he: "handle_exception E X r d v = (if rq_subcode r = 0 then step_trap E X a d2 ?v1 else bp_trap E a (rq_subcode r) d2 ?v1)"
    unfolding handle_exception_def Let_def fo t0(2) option.case prod.case g(1) snd_conv t2 bind_run.simps
    using r codes by (simp only: bp_request_def if_False if_True simp_thms)
  show ?thesis by (rule that [OF g(2,3) _ _ he]) (simp_all add: describe_def)
qed

lemma breakpoint_cycle:
  assumes E: "plain_target E" and M: "flat_mem (mc E) mem" "debug_quiet (mc E) mem"
    and J: "on_thread a d" and b: "armed mem h b d" "bp_location b \<noteq> 0"
    and t: "ctl_of a d = Some t" "\<not> just_hit_watchpoint t" "\<not> is_stepping (stepconfig t)"
    and r: "bp_request r1" "rq_thread r1 = port t" "rq_subcode r1 = bp_location b"
      "bp_request r2" "rq_thread r2 = port t" "rq_subcode r2 = 0"
  shows "\<exists>d1 v1 d2 v2. handle_exception E X r1 d v = Inr (d1, v1) \<and> handle_exception E X r2 d1 w = Inr (d2, v2) \<and>
    \<not> should_auto_resume v1 \<and> should_print v1 = should_print v \<and>
    mem (kern d1) = put_bytes (mem (kern d)) (bp_location b) (bytes_le 4 (old_instruction b)) \<and>
    (\<forall>u. pl_get (threads d1) a = Some u \<longrightarrow> bit (ds_mdscr_el1 (debug_state u)) 0) \<and>
    should_auto_resume v2 = should_auto_resume w \<and> \<not> should_print v2 \<and>
    mem (kern d2) = mem (kern d) \<and> breakpoints d2 = [(h, b\<lparr>bp_hit_count := bp_hit_count b + 1\<rparr>)]"
proof -
  obtain d0 v0 where d0: "on_thread a d0" "only_shown d d0" "should_print v0 = should_print v"
    "handle_exception E X r1 d v = (if rq_subcode r1 = 0 then step_trap E X a d0 v0 else bp_trap E a (rq_subcode r1) d0 v0)"
    using handle_focused [OF E J t(1) _ r(1), of v X] r(2) by metis
  have b0: "armed mem h b d0" using b(1) only_shownD(1,2) [OF d0(2)] by (simp add: armed_def)
  have t0: "ctl_of a d0 = Some t" using ctl_of_shown [OF d0(2)] t(1) by simp
  from bp_trap_hits [OF E M d0(1) b0 t0, of v0] obtain d1 v1 where
    d1: "bp_trap E a (bp_location b) d0 v0 = Inr (d1, v1)" "on_thread a d1" "\<not> should_auto_resume v1"
      "should_print v1 = should_print v0" "breakpoints d1 = [(h, b\<lparr>bp_hit_count := bp_hit_count b + 1, bp_disabled := True\<rparr>)]"
      "mem (kern d1) = put_bytes (mem (kern d0)) (bp_location b) (bytes_le 4 (old_instruction b))"
      "ctl_of a d1 = Some (t\<lparr>just_hit_breakpoint := True, just_hit_sw_breakpoint := True, last_hit_bkpt_ID := bp_id b\<rparr>)"
      "\<forall>u. pl_get (threads d1) a = Some u \<longrightarrow> bit (ds_mdscr_el1 (debug_state u)) 0" by blast
  have h1: "handle_exception E X r1 d v = Inr (d1, v1)" using d0(4) d1(1) r(3) b(2) by simp
  obtain e1 w1 where e1: "on_thread a e1" "only_shown d1 e1" "should_auto_resume w1 = should_auto_resume w"
    "handle_exception E X r2 d1 w = (if rq_subcode r2 = 0 then step_trap E X a e1 w1 else bp_trap E a (rq_subcode r2) e1 w1)"
    using handle_focused [OF E d1(2,7) _ r(4), of w X] r(5) by (metis (no_types) machthread.select_convs(1) machthread.surjective machthread.update_convs(10,11,14))
  have c1: "ctl_of a e1 = Some (t\<lparr>just_hit_breakpoint := True, just_hit_sw_breakpoint := True, last_hit_bkpt_ID := bp_id b\<rparr>)"
    using ctl_of_shown [OF e1(2)] d1(7) by simp
  have be: "breakpoints e1 = [(h, b\<lparr>bp_hit_count := bp_hit_count b + 1, bp_disabled := True\<rparr>)]" "kern e1 = kern d1"
    using only_shownD(1,2) [OF e1(2)] d1(5) by simp_all
  obtain d2 where d2: "step_trap E X a e1 w1 = Inr (d2, no_print w1)"
    "breakpoints d2 = [(h, b\<lparr>bp_hit_count := bp_hit_count b + 1, bp_disabled := True\<rparr>\<lparr>bp_disabled := False\<rparr>)]"
    "mem (kern d2) = put_bytes (mem (kern e1)) (bp_location b) (bytes_le 4 BRK)"
    using step_trap_rearms [OF E M(1) e1(1) be(1) _ _ _ c1, of X w1] b(1) t(2,3) by (auto simp: armed_def)
  have "mem (kern d2) = put_bytes (put_bytes (mem (kern d)) (bp_location b) (bytes_le 4 (old_instruction b))) (bp_location b)
      (bytes_at (mem (kern d)) (bp_location b) 4)"
    using d2(3) be(2) d1(6) only_shownD(1) [OF d0(2)] b(1) by (simp add: armed_def)
  then have m: "mem (kern d2) = mem (kern d)" by (simp add: put_bytes_twice put_bytes_restores)
  have "breakpoints d2 = [(h, b\<lparr>bp_hit_count := bp_hit_count b + 1\<rparr>)]"
    using d2(2) b(1) by (cases b) (simp add: armed_def)
  with h1 e1(3,4) d2(1) r(6) d1 d0(3) only_shownD(1) [OF d0(2)] m show ?thesis
    by (intro exI [of _ d1] exI [of _ v1] exI [of _ d2] exI [of _ "no_print w1"]) (simp add: no_print_def)
qed


section \<open>What follows from the settings of a signal\<close>

lemma soft_signal_verdict:
  assumes E: "plain_target E" and J: "on_thread a d" and tab: "length (sigtab X) = NSIG" "1 \<le> signo" "signo < 32"
    and names: "32 \<le> length (sys_signame E)"
    and v: "should_auto_resume v" "should_print v"
  shows "\<exists>d' v'. soft_signal E X a (word_of_int signo) d v = Inr (d', v') \<and> on_thread a d' \<and>
    (should_auto_resume v' \<longleftrightarrow> sig_stop (sigtab X ! nat signo) = 0) \<and>
    (should_print v' \<longleftrightarrow> sig_notify (sigtab X ! nat signo) \<noteq> 0) \<and>
    (sig_pass (sigtab X ! nat signo) \<noteq> 0 \<longrightarrow> kern d' = kern d)"
proof -
  obtain t where t: "the_thread a d = Inr t" using on_thread_get [OF J] .
  define k where "k = nat signo"
  have k: "signo = int k" "1 \<le> k" "k < 32" using tab(2,3) unfolding k_def by linarith+
  have u: "unat (word_of_int signo :: u64) = k" using k by (simp add: unat_of_nat)
  have si: "sint (ucast (word_of_int signo :: u64) :: u32) = signo"
  proof -
    have "int_of_len (word_of_int signo) = int (unat (word_of_int signo :: u64))"
      by (rule int_of_len_small) (use u k in simp)
    then show ?thesis using u k(1) by (simp only: int_of_len_def)
  qed
  define c where "c = sigtab X ! nat signo"
  have g: "sigsettings signo (Some (sigjunk X), Some (sigjunk X), Some (sigjunk X)) False (sigtab X) None
      = Inr (sigtab X, (Some (sig_notify c), Some (sig_pass c), Some (sig_stop c)), None)"
    using tab by (simp add: sigsettings_def NSIG_def c_def Let_def)
  have J1: "on_thread a (d\<lparr>kern := k\<rparr>)" for k
    by (rule on_thread_keeps [OF J])
       (use J in \<open>auto simp: keeps_def on_thread_def handler_inv_def dbg_inv_def bps_ok_def wps_ok_def\<close>)
  have hs: "\<exists>d1 v1. handle_soft_signal E (port t) (word_of_int signo) pass d w = Inr (d1, v1) \<and> on_thread a d1 \<and>
      should_auto_resume v1 = should_auto_resume w \<and> should_print v1 = should_print w \<and> (pass \<noteq> 0 \<longrightarrow> kern d1 = kern d)"
    for pass w
    using names u k J J1 by (auto simp: handle_soft_signal_def signal_name_def Let_def describe_def)
  have fl: "should_auto_resume (describe x v) = should_auto_resume v" "should_print (describe x v) = should_print v" for x
    by (simp_all add: describe_def)
  obtain d1 v1 where 1: "handle_soft_signal E (port t) (word_of_int signo) (sig_pass c) d
      (describe (concat ['', '', quoted (tname t), '' received signal '']) v) = Inr (d1, v1)" "on_thread a d1"
      "should_auto_resume v1" "should_print v1" "sig_pass c \<noteq> 0 \<longrightarrow> kern d1 = kern d"
    using hs [of "sig_pass c" "describe (concat ['', '', quoted (tname t), '' received signal '']) v"] v
    unfolding fl by blast
  obtain d2 v2 where 2: "disassemble4 E (ts_pc (thread_state t)) d1 (describe [CHR 0x0A] (no_resume v1)) = Inr (d2, v2)"
    "on_thread a d2" "only_shown d1 d2" "should_print v2 = should_print (describe [CHR 0x0A] (no_resume v1))"
    "should_auto_resume v2 = should_auto_resume (describe [CHR 0x0A] (no_resume v1))"
    using disassemble4_total [OF E 1(2)] by blast
  show ?thesis using 1 2 only_shownD(1) [OF 2(3)]
    by (cases "sig_notify c = 0"; cases "sig_stop c = 0")
       (simp_all add: soft_signal_def t si g Let_def no_resume_def no_print_def describe_def flip: c_def)
qed

section \<open>Where the handler goes wrong\<close>

text \<open>Going past a breakpoint enables every breakpoint of the user, also one that was disabled by the user.\<close>

lemma single_step_enables:
  assumes K: "kernel_ok (mc E)" and J: "on_thread a d" and t: "ctl_of a d = Some t" "just_hit_breakpoint t"
      "\<not> just_hit_sw_breakpoint t" "\<not> is_stepping (stepconfig t)"
  shows "\<exists>d'. handle_single_step E a d v = Inr (d', no_print v) \<and>
    breakpoints d' = map (\<lambda>(h, b). (h, if \<not> bp_temporary b \<and> \<not> for_stepping b then b\<lparr>bp_disabled := False\<rparr> else b)) (breakpoints d)"
proof -
  have I: "dbg_inv d" using J by (simp add: on_thread_def handler_inv_def)
  obtain d1 where d1: "breakpoint_enable_all_specific (mc E) BP_COND_NORMAL d = Inr d1" "dbg_inv d1" "keeps d d1"
    "breakpoints d1 = map (\<lambda>(h, b). (h, if \<not> bp_temporary b \<and> \<not> for_stepping b then b\<lparr>bp_disabled := False\<rparr> else b)) (breakpoints d)"
    using each_set_state_keeps [OF K I, of "way_selects BP_COND_NORMAL" False]
    unfolding breakpoint_enable_all_specific_def way_selects_def by auto
  have J1: "on_thread a d1" and c1: "ctl_of a d1 = Some t"
    using on_thread_keeps [OF J d1(3,2)] ctl_of_keeps [OF d1(3), of a] t(1) by auto
  obtain t1 where t1: "the_thread a d1 = Inr t1" "ctl_of a d1 = Some (ctl t1)" using the_thread_ctl [OF J1] .
  have "just_hit_breakpoint t1" "\<not> just_hit_sw_breakpoint t1" "\<not> is_stepping (stepconfig t1)"
    using c1 t1(2) t by (auto simp: ctl_def)
  then show ?thesis using d1(1,4) t1(1) by (simp add: handle_single_step_def) (simp add: upd_thread_def)
qed

text \<open>
  A software breakpoint for one thread that another thread runs into is left in memory, and the target
  resumes: at the same instruction.
\<close>

lemma emulated_thread_stuck:
  assumes t: "the_thread a d = Inr t" and h: "find_bp_with_cond loc BP_COND_NORMAL d = Some (h, b)"
      "\<not> all_threads (bp_threadinfo b)" "\<not> bp_hw b" "tid t \<noteq> pthread_tid (bp_threadinfo b)"
    and s: "find_bp_with_cond loc BP_COND_STEPPING d = None"
  shows "handle_hit_breakpoint M a loc d v = Inr (d, no_print v)"
  using assms by (simp add: handle_hit_breakpoint_def hit_step_bp_def Let_def)

text \<open>A value of one, two or four bytes is shown whatever lies behind it on the heap.\<close>

lemma number_le_ucast:
  assumes "length bs = n" "LENGTH('a::len) = 8 * n" "n \<le> 8"
  shows "(ucast (number_le (bs @ behind)) :: 'a word) = ucast (number_le bs)"
proof (rule bit_word_eqI)
  fix i assume "i < LENGTH('a)"
  then have "i < 8 * n" "i div 8 < n" using assms(2) by auto
  then show "bit (ucast (number_le (bs @ behind)) :: 'a word) i = bit (ucast (number_le bs) :: 'a word) i"
    using assms by (auto simp: bit_ucast_iff bit_number_le nth_append)
qed

lemma long_at_small:
  assumes "length bs = n" "LENGTH('a::len) = 8 * n" "n \<le> 8"
  shows "(ucast (long_at bs behind) :: 'a word) = ucast (number_le bs)"
proof -
  have "take 8 (bs @ behind) = bs @ take (8 - n) behind" using assms by simp
  then show ?thesis using number_le_ucast [OF assms] by (simp add: long_at_def)
qed

lemma describe_value:
  assumes "length prev = unat sz" "length cur = unat sz" "sz \<in> {1, 2, 4, 8}"
  shows "describe_hit_watchpoint b1 b2 prev cur sz out = describe_hit_watchpoint [] [] prev cur sz out"
proof -
  consider "sz = 1" | "sz = 2" | "sz = 4" | "sz = 8" using assms(3) by blast
  then show ?thesis
    using assms(1,2) long_at_small [where 'a = 8 and n = 1] long_at_small [where 'a = 16 and n = 2]
      long_at_small [where 'a = 32 and n = 4]
    by cases (simp_all add: describe_hit_watchpoint_def Let_def long_at_def)
qed

end
