(* ===== verification/Stepping.thy ===== *)
theory Stepping
  imports Cycle
begin

text \<open>
  Stepping by instruction, \<^verbatim>\<open>source/cmd/stepcmd.c\<close>: what is prepared before the target resumes, and how a step
  over a call ends. The reply that resumes the target is not modelled.
\<close>

section \<open>Preparing a step\<close>

definition set_step_kind :: "nat \<Rightarrow> step_kind \<Rightarrow> 'k dbg \<Rightarrow> 'k dbg" where
  "set_step_kind a x d = upd_thread a (\<lambda>t. t\<lparr>stepconfig := (stepconfig t)\<lparr>step_kind := x\<rparr>\<rparr>) d"

text \<open>
  The instruction at the program counter: the one a breakpoint keeps, or four bytes of memory over a zero.
\<close>

definition opcode_at :: "'k mach \<Rightarrow> u64 \<Rightarrow> 'k dbg \<Rightarrow> u32 run" where
  "opcode_at M pc d =
     (case find_bp_with_cond pc BP_COND_NORMAL d of
        Some (_, b) \<Rightarrow> Inr (ucast (old_instruction b))
      | None \<Rightarrow> bind_run (read_memory_at_location M (kern d) pc 4) (\<lambda>(_, bs). Inr (ucast (number_le bs))))"

text \<open>A call through a register other than 30, or to an address: its return gets a breakpoint.\<close>

definition at_call :: "branchinfo option \<Rightarrow> bool" where
  "at_call b = (case b of None \<Rightarrow> False | Some info \<Rightarrow> is_subroutine_call info \<noteq> 0 \<and> rn info \<noteq> 30)"

definition prepare_over :: "'k mach \<Rightarrow> nat \<Rightarrow> 'k dbg \<Rightarrow> (bool \<times> 'k dbg) run" where
  "prepare_over M a d =
     bind_run (the_thread a d) (\<lambda>t.
     bind_run (opcode_at M (ts_pc (thread_state t)) d) (\<lambda>opcode.
     bind_run (is_branch opcode) (\<lambda>branch.
       if at_call branch
       then bind_run (if set_temp_ss_breakpoint (stepconfig t) then Inr d
              else bind_run (set_stepping_breakpoint M (ts_pc (thread_state t) + 4) (ID t) d) (\<lambda>d1.
                Inr (upd_thread a (\<lambda>t. t\<lparr>stepconfig := (stepconfig t)\<lparr>set_temp_ss_breakpoint := True\<rparr>\<rparr>) d1)))
            (\<lambda>d1. Inr (False, d1))
       else Inr (True, d))))"

definition prepare :: "'k mach \<Rightarrow> step_kind \<Rightarrow> 'k dbg \<Rightarrow> 'k dbg run" where
  "prepare M kd d =
     bind_run (breakpoint_disable_all_except M BP_COND_STEPPING d) (\<lambda>d1.
       case get_focused_thread d of None \<Rightarrow> Inl NullDeref
       | Some (a, _) \<Rightarrow>
           bind_run (if kd = INST_STEP_INTO then Inr (True, set_step_kind a INST_STEP_INTO d1)
                     else prepare_over M a (set_step_kind a INST_STEP_OVER d1)) (\<lambda>(need_ss, d2).
             if need_ss
             then bind_run (enable_single_step M a d2) (\<lambda>d3.
                    Inr (upd_thread a (\<lambda>t. t\<lparr>stepconfig := (stepconfig t)\<lparr>is_stepping := True\<rparr>\<rparr>) d3))
             else Inr d2))"

section \<open>What a step prepares\<close>

lemma disable_all_except_ok:
  assumes K: "kernel_ok M" and J: "on_thread a d"
  shows "\<exists>d'. breakpoint_disable_all_except M BP_COND_STEPPING d = Inr d' \<and> on_thread a d' \<and> ctl_of a d' = ctl_of a d \<and>
    keeps d d' \<and> breakpoints d' = map (\<lambda>(h, b). (h, if \<not> for_stepping b then b\<lparr>bp_disabled := True\<rparr> else b)) (breakpoints d)"
proof -
  have I: "dbg_inv d" using J by (simp add: on_thread_def handler_inv_def)
  from each_set_state_keeps [OF K I, of "\<lambda>b. \<not> for_stepping b" True] obtain d' where
    "breakpoint_disable_all_except M BP_COND_STEPPING d = Inr d'" "dbg_inv d'" "keeps d d'"
    "breakpoints d' = map (\<lambda>(h, b). (h, if \<not> for_stepping b then b\<lparr>bp_disabled := True\<rparr> else b)) (breakpoints d)"
    unfolding breakpoint_disable_all_except_def by auto
  with on_thread_keeps [OF J] ctl_of_keeps show ?thesis by blast
qed

lemma set_step_kind_ok:
  assumes "on_thread a d" "ctl_of a d = Some t"
  shows "on_thread a (set_step_kind a x d)" "ctl_of a (set_step_kind a x d) = Some (t\<lparr>stepconfig := (stepconfig t)\<lparr>step_kind := x\<rparr>\<rparr>)"
    "breakpoints (set_step_kind a x d) = breakpoints d" "kern (set_step_kind a x d) = kern d"
proof -
  show "on_thread a (set_step_kind a x d)" unfolding set_step_kind_def by (rule on_thread_upd [OF assms(1)]) simp_all
  show "ctl_of a (set_step_kind a x d) = Some (t\<lparr>stepconfig := (stepconfig t)\<lparr>step_kind := x\<rparr>\<rparr>)"
    unfolding set_step_kind_def by (subst ctl_of_upd) (simp_all add: ctl_def assms(2))
qed (simp_all add: set_step_kind_def upd_thread_def)

text \<open>A single step: the bit is set and the thread marked.\<close>

lemma marked_step:
  assumes K: "kernel_ok M" and J: "on_thread a d" and c: "ctl_of a d = Some t"
  shows "\<exists>d'. bind_run (enable_single_step M a d) (\<lambda>d3.
      Inr (upd_thread a (\<lambda>t. t\<lparr>stepconfig := (stepconfig t)\<lparr>is_stepping := True\<rparr>\<rparr>) d3)) = Inr d' \<and> on_thread a d' \<and>
    ctl_of a d' = Some (t\<lparr>stepconfig := (stepconfig t)\<lparr>is_stepping := True\<rparr>\<rparr>) \<and> breakpoints d' = breakpoints d \<and>
    (\<forall>u. pl_get (threads d') a = Some u \<longrightarrow> bit (ds_mdscr_el1 (debug_state u)) 0)"
proof -
  obtain d1 where d1: "enable_single_step M a d = Inr d1" "on_thread a d1" "same_debugger d d1"
    using single_step_total [OF K J] by blast
  let ?f = "\<lambda>t :: machthread. t\<lparr>stepconfig := (stepconfig t)\<lparr>is_stepping := True\<rparr>\<rparr>"
  have "on_thread a (upd_thread a ?f d1)" by (rule on_thread_upd [OF d1(2)]) simp_all
  moreover have "ctl_of a (upd_thread a ?f d1) = Some (?f t)"
    using ctl_of_keeps [OF same_debugger_keeps [OF d1(3)], of a] c by (subst ctl_of_upd) (simp_all add: ctl_def)
  moreover have "breakpoints (upd_thread a ?f d1) = breakpoints d"
    using same_debuggerD(1) [OF d1(3)] by (simp add: upd_thread_def)
  moreover have "bit (ds_mdscr_el1 (debug_state u)) 0" if "pl_get (threads (upd_thread a ?f d1)) a = Some u" for u
    using that single_step_bit [OF d1(1)] by (auto simp: upd_thread_def pl_get_update)
  ultimately show ?thesis using d1(1) by simp
qed

lemma step_into_prepared:
  assumes K: "kernel_ok M" and J: "on_thread a d" and c: "ctl_of a d = Some t"
  shows "\<exists>d'. prepare M INST_STEP_INTO d = Inr d' \<and> on_thread a d' \<and>
    ctl_of a d' = Some (t\<lparr>stepconfig := (stepconfig t)\<lparr>step_kind := INST_STEP_INTO, is_stepping := True\<rparr>\<rparr>) \<and>
    breakpoints d' = map (\<lambda>(h, b). (h, if \<not> for_stepping b then b\<lparr>bp_disabled := True\<rparr> else b)) (breakpoints d) \<and>
    (\<forall>u. pl_get (threads d') a = Some u \<longrightarrow> bit (ds_mdscr_el1 (debug_state u)) 0)"
proof -
  obtain d1 where d1: "breakpoint_disable_all_except M BP_COND_STEPPING d = Inr d1" "on_thread a d1" "ctl_of a d1 = Some t"
    "breakpoints d1 = map (\<lambda>(h, b). (h, if \<not> for_stepping b then b\<lparr>bp_disabled := True\<rparr> else b)) (breakpoints d)"
    using disable_all_except_ok [OF K J] c by auto
  note s = set_step_kind_ok [OF d1(2,3), of INST_STEP_INTO]
  obtain t0 where f: "get_focused_thread d = Some (a, t0)" using on_thread_get [OF J] .
  from marked_step [OF K s(1,2)] show ?thesis by (auto simp: prepare_def d1(1,4) f s(3))
qed

text \<open>A breakpoint for a step leaves the threads as they are, but for their debug registers.\<close>

lemma set_stepping_keeps:
  assumes K: "kernel_ok M" and J: "on_thread a d" and th: "new_threadinfo th d \<noteq> None"
  shows "\<exists>d' b. set_stepping_breakpoint M loc th d = Inr d' \<and> dbg_inv d' \<and> vars_ok d' \<and> ctl_of a d' = ctl_of a d \<and>
    (\<exists>t. get_focused_thread d' = Some (a, t)) \<and> breakpoints d' = breakpoints d @ [(fresh d, b)] \<and> bp_location b = loc \<and>
    bp_temporary b \<and> for_stepping b \<and> \<not> bp_disabled b"
proof -
  have I: "dbg_inv d" using J by (simp add: on_thread_def handler_inv_def)
  then have T: "thr_ok (threads d)" and B: "bps_ok d" by (simp_all add: dbg_inv_def)
  from set_stepping_breakpoint_ok [OF K I, of loc th] th obtain d' where
    d': "set_stepping_breakpoint M loc th d = Inr d'" "dbg_inv d'" "added_bp d loc True True d'" by auto
  obtain b where b: "breakpoints d' = breakpoints d @ [(fresh d, b)]" "bp_location b = loc" "bp_temporary b"
    "for_stepping b" "\<not> bp_disabled b" using d'(3) by (auto simp: added_bp_def)
  obtain bp d1 o1 e1 where n: "breakpoint_new M loc True th d None None = Inr (Some bp, d1, o1, e1)"
    "same_debugger (d\<lparr>current_breakpoint_id := current_breakpoint_id d\<rparr>) d1"
    using breakpoint_new_returns [OF K T B, of loc True th None None] th by (metis add.right_neutral)
  have sd: "same_debugger d d1" using n(2) by simp
  let ?D = "append_bp (bp\<lparr>for_stepping := True\<rparr>) d1"
  obtain k where k: "(if \<not> bp_hw bp then poke M (bp_location bp) BRK 4 ?D else Inr ?D) = Inr (?D\<lparr>kern := k\<rparr>)"
    using poke_returns [of 4 M "bp_location bp" BRK ?D] by (cases "bp_hw bp") (auto intro: that [of "kern ?D"])
  have "set_stepping_breakpoint M loc th d = Inr (?D\<lparr>kern := k, num_breakpoints := num_breakpoints ?D + 1\<rparr>)"
    using k by (simp add: set_stepping_breakpoint_def n(1) Let_def)
  with d'(1) have "d' = ?D\<lparr>kern := k, num_breakpoints := num_breakpoints ?D + 1\<rparr>" by simp
  then have f: "threads d' = threads d1" "vars d' = vars d1" "fresh d' = fresh d1 + 1" by (simp_all add: append_bp_def)
  have kp: "keeps d d1" by (rule same_debugger_keeps [OF sd])
  have J1: "\<exists>t. get_focused_thread d1 = Some (a, t)"
    using on_thread_keeps [OF J kp] bps_ok_same [OF B sd] wps_ok_same [OF _ sd] I d'(2) f(1)
    by (simp add: dbg_inv_def on_thread_def)
  have "get_focused_thread d' = get_focused_thread d1" "ctl_of a d' = ctl_of a d1"
    using f(1) by (simp_all add: get_focused_thread_def find_with_cond_def ctl_of_def)
  moreover have "vars_ok d'" using J kp f by (auto simp: on_thread_def handler_inv_def vars_ok_def keeps_def)
  ultimately show ?thesis using d'(1,2) b ctl_of_keeps [OF kp, of a] J1 by metis
qed

lemma new_threadinfo_ctl:
  assumes "(a, u) \<in> set (threads d)" "ID u \<noteq> BP_ALL_THREADS"
  shows "new_threadinfo (ID u) d \<noteq> None"
proof -
  have "find_thread_from_ID (ID u) d \<noteq> None"
    using assms(1) unfolding find_thread_from_ID_def find_with_cond_def pl_find_def find_None_iff
    by (auto simp: cond_holds_def)
  with assms(2) show ?thesis by (auto simp: new_threadinfo_def split: option.splits)
qed

lemma step_over_call_prepared:
  assumes K: "kernel_ok M" and J: "on_thread a d" and t: "pl_get (threads d) a = Some t" "ID t \<noteq> BP_ALL_THREADS"
      "\<not> set_temp_ss_breakpoint (stepconfig t)"
    and op: "breakpoint_disable_all_except M BP_COND_STEPPING d = Inr d1"
      "opcode_at M (ts_pc (thread_state t)) d1 = Inr opcode" "is_branch opcode = Inr (Some bi)"
    and call: "is_subroutine_call bi \<noteq> 0" "rn bi \<noteq> 30"
  shows "\<exists>d' b. prepare M INST_STEP_OVER d = Inr d' \<and> dbg_inv d' \<and>
    ctl_of a d' = Some (ctl t\<lparr>stepconfig := (stepconfig t)\<lparr>step_kind := INST_STEP_OVER, set_temp_ss_breakpoint := True\<rparr>\<rparr>) \<and>
    breakpoints d' = map (\<lambda>(h, b). (h, if \<not> for_stepping b then b\<lparr>bp_disabled := True\<rparr> else b)) (breakpoints d) @ [(fresh d, b)] \<and>
    bp_location b = ts_pc (thread_state t) + 4 \<and> bp_temporary b \<and> for_stepping b \<and> \<not> bp_disabled b"
proof -
  have d1: "on_thread a d1" "ctl_of a d1 = ctl_of a d" "keeps d d1"
    "breakpoints d1 = map (\<lambda>(h, b). (h, if \<not> for_stepping b then b\<lparr>bp_disabled := True\<rparr> else b)) (breakpoints d)"
    using disable_all_except_ok [OF K J] op(1) by auto
  let ?g = "\<lambda>t. (thread_state t, ID t, stepconfig t)"
  have "map_option ?g (pl_get (threads d1) a) = map_option ?g (pl_get (threads d) a)"
    by (rule pl_get_map_eq, rule undebugged_map) (use d1(3) in \<open>simp_all add: keeps_def\<close>)
  then obtain t1 where t1: "pl_get (threads d1) a = Some t1" "thread_state t1 = thread_state t" "ID t1 = ID t"
    "stepconfig t1 = stepconfig t" using t(1) by auto
  have c1: "ctl_of a d1 = Some (ctl t)" using d1(2) t(1) by (simp add: ctl_of_def)
  let ?d2 = "set_step_kind a INST_STEP_OVER d1"
  note s2 = set_step_kind_ok [OF d1(1) c1, of INST_STEP_OVER]
  have t2: "pl_get (threads ?d2) a = Some (t1\<lparr>stepconfig := (stepconfig t1)\<lparr>step_kind := INST_STEP_OVER\<rparr>\<rparr>)"
    using t1(1) by (simp add: set_step_kind_def upd_thread_def)
  have o2: "opcode_at M (ts_pc (thread_state t)) ?d2 = Inr opcode"
    using op(2) unfolding opcode_at_def find_bp_with_cond_def s2(3,4) .
  have "new_threadinfo (ID t) ?d2 \<noteq> None"
    using new_threadinfo_ctl [of a _ ?d2, OF map_of_SomeD [OF t2 [unfolded pl_get_def]]] t1(3) t(2) by simp
  from set_stepping_keeps [OF K s2(1) this, of "ts_pc (thread_state t) + 4"] obtain d3 b where
    d3: "set_stepping_breakpoint M (ts_pc (thread_state t) + 4) (ID t) ?d2 = Inr d3" "dbg_inv d3" "vars_ok d3"
      "ctl_of a d3 = ctl_of a ?d2" "\<exists>t. get_focused_thread d3 = Some (a, t)"
      "breakpoints d3 = breakpoints ?d2 @ [(fresh ?d2, b)]" "bp_location b = ts_pc (thread_state t) + 4"
      "bp_temporary b" "for_stepping b" "\<not> bp_disabled b" by blast
  let ?f = "\<lambda>t :: machthread. t\<lparr>stepconfig := (stepconfig t)\<lparr>set_temp_ss_breakpoint := True\<rparr>\<rparr>"
  obtain t0 where f: "get_focused_thread d = Some (a, t0)" using on_thread_get [OF J] .
  have "prepare M INST_STEP_OVER d = Inr (upd_thread a ?f d3)"
    using t1 t(3) call d3(1)
    by (simp add: prepare_def op(1) f prepare_over_def the_thread_def t2 o2 op(3) at_call_def)
  moreover have "ctl_of a (upd_thread a ?f d3) = Some (ctl t\<lparr>stepconfig := (stepconfig t)\<lparr>step_kind := INST_STEP_OVER,
      set_temp_ss_breakpoint := True\<rparr>\<rparr>)"
    using d3(4) s2(2) by (subst ctl_of_upd) (simp_all add: ctl_def)
  moreover have "fresh ?d2 = fresh d" using d1(3) by (simp add: set_step_kind_def upd_thread_def keeps_def)
  moreover have "dbg_inv (upd_thread a ?f d3)"
  proof -
    have m: "map fst (pl_update a ?f ts) = map fst ts" "map (debug_state \<circ> snd) (pl_update a ?f ts) = map (debug_state \<circ> snd) ts" for ts
      by (induction ts) auto
    have thr: "thr_ok ts \<longleftrightarrow> distinct (map fst ts) \<and> (\<forall>s \<in> set (map (debug_state \<circ> snd) ts). regs16 s)" for ts
      by (auto simp: thr_ok_def)
    have "thr_ok (threads (upd_thread a ?f d3)) = thr_ok (threads d3)" unfolding thr by (simp add: upd_thread_def m)
    with d3(2) show ?thesis by (simp add: dbg_inv_def) (simp add: upd_thread_def bps_ok_def wps_ok_def)
  qed
  ultimately show ?thesis using d1(4) s2(3) d3(6-)
    by (intro exI [of _ "upd_thread a ?f d3"] exI [of _ b]) (simp add: upd_thread_def)
qed

end
