(* ===== verification/SampleEnv.thy ===== *)
theory SampleEnv
  imports Stepping
begin

text \<open>
  The concrete target of \<open>Sample\<close> with the rest of what the debugger calls, and states of it at which the
  properties of exceptions, steps and symbols are instantiated.
\<close>

definition sample_cvenv :: cvenv where
  "sample_cvenv = \<lparr>strtod = (\<lambda>s. (0, [])), show_f = (\<lambda>b. ''0.000000''), ptr_of = (\<lambda>s. 0), junk = DInteger 0\<rparr>"

definition sort_combos :: qsort_fun where
  "sort_combos = (\<lambda>cmp xs. sort_key (\<lambda>c. case c of None \<Rightarrow> 0 | Some gc \<Rightarrow> sint (sym_func_start (gc_sym gc))) xs)"

definition sample_env :: "(u64 \<Rightarrow> u8) denv" where
  "sample_env = \<lparr>mc = flat_mach, cve = sample_cvenv, armadillo = (\<lambda>i a. Some ''nop''), ptrace_thupdate = (\<lambda>k p. k),
     sys_signame = replicate 32 ''sig'', qsort = sort_combos, symtab = None, line_info = None, slide = 0,
     stale_name = replicate 512 0, stack_junk = replicate 8 0\<rparr>"

definition sample_ctx :: hctx where
  "sample_ctx = \<lparr>sigtab = initial_settings, sigjunk = 0, behind_prev = [], behind_cur = [], nosigs = False\<rparr>"

definition fresh_verdict :: verdict where
  "fresh_verdict = \<lparr>should_auto_resume = True, should_print = True, desc = None\<rparr>"

text \<open>A software breakpoint at \<open>0x100004000\<close>, in memory.\<close>

definition sample_swbp :: breakpoint where
  "sample_swbp = \<lparr>bp_id = 1, bp_location = 0x100004000, old_instruction = 0xd503201f, bp_hit_count = 0, bp_disabled = False,
     bp_temporary = False, bp_hw = False, hw_bp_reg = - 1, for_stepping = False,
     bp_threadinfo = \<lparr>all_threads = True, iosdbg_tid = 0, pthread_tid = 0, ti_name = None\<rparr>, bp_bcr = 0, bp_bvr = 0\<rparr>"

definition sample_armed :: "(u64 \<Rightarrow> u8) dbg" where
  "sample_armed = (sample_dbg 0)\<lparr>kern := put_bytes (\<lambda>_. 0) 0x100004000 (bytes_le 4 BRK), breakpoints := [(1, sample_swbp)],
     num_breakpoints := 1, current_breakpoint_id := 2\<rparr>"

definition sample_request :: "u64 \<Rightarrow> request" where
  "sample_request subcode = \<lparr>rq_thread = 5, rq_exception = EXC_BREAKPOINT, rq_codeCnt = 2, rq_code = EXC_ARM_BREAKPOINT,
     rq_subcode = subcode\<rparr>"

lemma sample_plain: "plain_target sample_env"
  using flat_mach_ok(1) by (simp add: plain_target_def sample_env_def) (simp add: flat_mach_def zero_ts_def)

lemma sample_flat: "flat_mem (mc sample_env) (\<lambda>k. k)" "debug_quiet (mc sample_env) (\<lambda>k. k)" "kernel_ok (mc sample_env)"
  using flat_mach_ok by (simp_all add: sample_env_def debug_quiet_def) (simp add: flat_mach_def)

lemma sample_vars_ok: "vars_ok (sample_dbg n)"
  by (simp add: vars_ok_def sample_dbg_def cvars_ok_def cells_of_def cells_ok_def)

lemma sample_handler: "0 \<le> n \<Longrightarrow> n \<le> 16 \<Longrightarrow> handler_inv (sample_dbg n)"
  using sample_ok sample_vars_ok by (simp add: handler_inv_def)

lemma sample_armed_inv: "handler_inv sample_armed"
  by (simp add: handler_inv_def dbg_inv_def bps_ok_def wps_ok_def thr_ok_def bp_reg_ok_def sample_armed_def sample_dbg_def
      sample_swbp_def sample_thread_def zero_ds_def regs16_def vars_ok_def cvars_ok_def cells_of_def cells_ok_def)

lemma sample_focus:
  "get_focused_thread sample_armed = Some (1, sample_thread 5 True 1)"
  "get_focused_thread (sample_dbg n) = Some (1, sample_thread 5 True 1)"
  by (simp_all add: get_focused_thread_def find_with_cond_def pl_find_def cond_holds_def sample_armed_def sample_dbg_def
      sample_thread_def)

lemma sample_on_thread: "on_thread 1 sample_armed" "0 \<le> n \<Longrightarrow> n \<le> 16 \<Longrightarrow> on_thread 1 (sample_dbg n)"
  using sample_armed_inv sample_handler sample_focus by (auto simp: on_thread_def)

lemma sample_is_armed: "armed (\<lambda>k. k) 1 sample_swbp sample_armed"
proof -
  have "bytes_at (put_bytes (\<lambda>_. 0) 0x100004000 (bytes_le 4 BRK)) 0x100004000 4 = bytes_le 4 BRK"
    using put_bytes_get [of "bytes_le 4 BRK" "\<lambda>_. 0" "0x100004000"] by simp
  then show ?thesis by (simp add: armed_def sample_armed_def sample_swbp_def)
qed

lemma sample_ctl:
  "ctl_of 1 sample_armed = Some (sample_thread 5 True 1)" "ctl_of 1 (sample_dbg n) = Some (sample_thread 5 True 1)"
  by (simp_all add: ctl_of_def sample_armed_def sample_dbg_def pl_get_def ctl_def sample_thread_def)

text \<open>A target at the call \<^verbatim>\<open>bl #0x40\<close> at address 0.\<close>

definition sample_at_bl :: "(u64 \<Rightarrow> u8) dbg" where
  "sample_at_bl = (sample_dbg 6)\<lparr>kern := put_bytes (\<lambda>_. 0) 0 (bytes_le 4 0x94000010)\<rparr>"

lemma sample_at_bl_mem: "kern sample_at_bl = put_bytes (\<lambda>_. 0) 0 (bytes_le 4 0x94000010)"
  by (simp add: sample_at_bl_def)
lemma sample_bl_bytes: "bytes_le 4 0x94000010 = [0x10, 0, 0, 0x94]" by code_simp

lemma sample_bl_word: "ucast (number_le (bytes_le 4 0x94000010)) = (0x94000010 :: u32)" unfolding sample_bl_bytes by simp

lemma sample_at_bl_opcode: "opcode_at flat_mach 0 sample_at_bl = Inr 0x94000010"
proof -
  have "opcode_at flat_mach 0 sample_at_bl =
      bind_run (read_memory_at_location flat_mach (kern sample_at_bl) 0 4) (\<lambda>(_, bs). Inr (ucast (number_le bs)))"
    by (simp add: opcode_at_def find_bp_with_cond_def pl_find_def sample_at_bl_def sample_dbg_def)
  also have "read_memory_at_location flat_mach (kern sample_at_bl) 0 4 = Inr (KERN_SUCCESS, bytes_at (kern sample_at_bl) 0 4)"
    using read_memory_flat [OF flat_mach_ok(2), of 0 4 "kern sample_at_bl"] by simp
  also have "bytes_at (kern sample_at_bl) 0 4 = bytes_le 4 0x94000010"
    unfolding sample_at_bl_mem using put_bytes_get [of "bytes_le 4 0x94000010" "\<lambda>_. 0" 0] by simp
  finally show ?thesis by (simp only: bind_run.simps prod.case sample_bl_word)
qed


lemma sample_at_bl_disable: "breakpoint_disable_all_except flat_mach BP_COND_STEPPING sample_at_bl = Inr sample_at_bl"
    by (simp add: breakpoint_disable_all_except_def each_bp_def sample_at_bl_def sample_dbg_def)

lemma sample_at_bl_focus: "on_thread 1 sample_at_bl"
  unfolding sample_at_bl_def
  by (rule on_thread_keeps [OF sample_on_thread(2) [of 6]])
       (use sample_ok(1) [of 6] in \<open>simp_all add: keeps_def dbg_inv_def bps_ok_def wps_ok_def\<close>)

lemma sample_at_bl_thread: "pl_get (threads sample_at_bl) 1 = Some (sample_thread 5 True 1)"
  by (simp add: sample_at_bl_def sample_dbg_def pl_get_def)

lemma sample_at_bl_fields: "ts_pc (thread_state (sample_thread p f i)) = 0" "ID (sample_thread p f i) = i" "\<not> set_temp_ss_breakpoint (stepconfig (sample_thread p f i))"
   "breakpoints sample_at_bl = []" "fresh sample_at_bl = 3"
  by (simp_all add: sample_thread_def zero_ts_def no_step_def sample_at_bl_def sample_dbg_def)

lemma sample_bl_branch: "is_branch 0x94000010 = Inr (Some \<lparr>kind = UNCOND_BRANCH_IMMEDIATE, conditional = 0, cond = UNKNOWN_COND,
      imm = 0x40, rn = 64, is_subroutine_call = 1\<rparr>)" by code_simp

text \<open>The target of the software breakpoint, its thread behind it, the breakpoint disabled by the user.\<close>

definition sample_disabled :: "(u64 \<Rightarrow> u8) dbg" where
  "sample_disabled = upd_bp 1 (\<lambda>b. b\<lparr>bp_disabled := True\<rparr>) sample_armed"

definition sample_past_bp :: "(u64 \<Rightarrow> u8) dbg" where
  "sample_past_bp = upd_thread 1 (\<lambda>t. t\<lparr>just_hit_breakpoint := True\<rparr>) sample_disabled"

lemma sample_past_bp_thread: "on_thread 1 sample_past_bp"
proof -
  have "dbg_inv sample_disabled"
    using sample_armed_inv bps_ok_upd [of sample_armed "\<lambda>b. b\<lparr>bp_disabled := True\<rparr>" 1]
    by (simp add: handler_inv_def dbg_inv_def sample_disabled_def) (simp add: upd_bp_def wps_ok_def)
  then show ?thesis
    unfolding sample_past_bp_def
    by (intro on_thread_upd on_thread_keeps [OF sample_on_thread(1)]) (simp_all add: sample_disabled_def keeps_upd_bp)
qed

lemma sample_past_bp_ctl: "ctl_of 1 sample_past_bp = Some ((sample_thread 5 True 1)\<lparr>just_hit_breakpoint := True\<rparr>)"
proof -
  have "ctl_of 1 sample_disabled = ctl_of 1 sample_armed"
    by (simp only: sample_disabled_def ctl_of_def) (simp add: upd_bp_def)
  then have c: "ctl_of 1 sample_disabled = Some (sample_thread 5 True 1)" by (simp only: sample_ctl)
  have "ctl_of 1 sample_past_bp = map_option (\<lambda>t. t\<lparr>just_hit_breakpoint := True\<rparr>) (ctl_of 1 sample_disabled)"
    unfolding sample_past_bp_def by (rule ctl_of_upd) (simp add: ctl_def)
  then show ?thesis unfolding c by simp
qed

lemma sample_past_bp_points: "breakpoints sample_past_bp = [(1, sample_swbp\<lparr>bp_disabled := True\<rparr>)]"
  by (simp add: sample_past_bp_def sample_disabled_def upd_thread_def upd_bp_def sample_armed_def)

text \<open>The same software breakpoint, for the other thread.\<close>

definition sample_for_other :: breakpoint where
  "sample_for_other = sample_swbp\<lparr>bp_threadinfo := \<lparr>all_threads = False, iosdbg_tid = 2, pthread_tid = 6, ti_name = None\<rparr>\<rparr>"

definition sample_other_armed :: "(u64 \<Rightarrow> u8) dbg" where
  "sample_other_armed = sample_armed\<lparr>breakpoints := [(1, sample_for_other)]\<rparr>"

lemma sample_other_found:
  "the_thread 1 sample_other_armed = Inr (sample_thread 5 True 1)"
  "find_bp_with_cond 0x100004000 BP_COND_NORMAL sample_other_armed = Some (1, sample_for_other)"
  "find_bp_with_cond 0x100004000 BP_COND_STEPPING sample_other_armed = None"
  by (simp_all add: the_thread_def pl_get_def find_bp_with_cond_def pl_find_def way_selects_def sample_other_armed_def
      sample_armed_def sample_dbg_def sample_for_other_def sample_swbp_def)

text \<open>Two images with symbols.\<close>

definition sample_sym :: "u64 \<Rightarrow> sym" where
  "sample_sym s = \<lparr>sym_func_start = s, dsc_symname = SymText ''f'', sym_num = 0, sym_func_len = 4\<rparr>"

definition sample_entry :: "u64 \<Rightarrow> u64 list \<Rightarrow> dbg_sym_entry" where
  "sample_entry base starts = \<lparr>imagename = ''a.out'', syms = \<lparr>items = Some (map (Some \<circ> sample_sym) starts @ [None]),
     alen = of_nat (length starts), acapacity = of_nat (length starts) + 1\<rparr>, load_addr = base, strtab_vmaddr = 0, from_dsc = True\<rparr>"

definition sample_images :: "dbg_sym_entry list" where
  "sample_images = [sample_entry 0x1000 [0x1000, 0x1100, 0x1400], sample_entry 0x8000 [0x8000, 0x9000]]"

lemma sample_entry_syms:
  "entry_syms (sample_entry 0x1000 [0x1000, 0x1100, 0x1400]) = map sample_sym [0x1000, 0x1100, 0x1400]"
  "entry_syms (sample_entry 0x8000 [0x8000, 0x9000]) = map sample_sym [0x8000, 0x9000]"
  by (simp_all add: entry_syms_def array_list_def sample_entry_def)

lemma sample_sym_start: "sym_func_start (sample_sym s) = s"
  by (simp add: sample_sym_def)

lemma sample_entry_array:
  "array_ok (syms (sample_entry 0x1000 [0x1000, 0x1100, 0x1400]))" "array_ok (syms (sample_entry 0x8000 [0x8000, 0x9000]))"
  "None \<notin> set (array_list (syms (sample_entry 0x1000 [0x1000, 0x1100, 0x1400])))"
  "None \<notin> set (array_list (syms (sample_entry 0x8000 [0x8000, 0x9000])))"
  "alen (syms (sample_entry 0x1000 [0x1000, 0x1100, 0x1400])) = 3" "alen (syms (sample_entry 0x8000 [0x8000, 0x9000])) = 2"
  by (simp_all add: array_ok_def array_list_def sample_entry_def)

lemma sample_images_ok: "\<forall>e \<in> set sample_images. entry_ok e"
  by (simp add: sample_images_def entry_ok_def sample_entry_syms sample_entry_array sample_sym_start)

lemma sample_considered: "considered 0x1200 sample_images = sample_sym ` {0x1000, 0x1100, 0x1400}"
proof -
  have "{e \<in> set sample_images. load_addr e \<le> 0x1200} = {sample_entry 0x1000 [0x1000, 0x1100, 0x1400]}"
    by (auto simp: sample_images_def) (simp_all add: sample_entry_def)
  then show ?thesis by (simp add: considered_def sample_entry_syms)
qed

lemma sort_combos_sorts: "qsort_sorts sort_combos"
proof -
  let ?k = "\<lambda>c. case c of None \<Rightarrow> 0 | Some gc \<Rightarrow> sint (sym_func_start (gc_sym gc))"
  have "sorted_wrt (\<lambda>a b. goodcombocmp a b \<le> 0) (sort_key ?k xs)" if "None \<notin> set xs" for xs
  proof -
    have "sorted_wrt (\<lambda>a b. ?k a \<le> ?k b) (sort_key ?k xs)"
      using sorted_sort_key [of ?k xs] by (simp add: sorted_map)
    then show ?thesis
    proof (rule sorted_wrt_mono_rel [rotated])
      fix a b assume "a \<in> set (sort_key ?k xs)" "b \<in> set (sort_key ?k xs)" "?k a \<le> ?k b"
      with that obtain x y where "a = Some x" "b = Some y" "?k a \<le> ?k b" by (cases a; cases b) auto
      then show "goodcombocmp a b \<le> 0" by (simp add: goodcombocmp_def Let_def)
    qed
  qed
  then show ?thesis by (simp add: qsort_sorts_def sort_combos_def)
qed

end
