(* ===== verification/Dexpr.thy ===== *)
theory Dexpr
  imports Expr Memutils Threads "HOL-Library.While_Combinator"
begin

text \<open>
  Location descriptions of DWARF, \<^verbatim>\<open>source/symbol/dexpr.c\<close>: lists of operations of a stack machine that say
  where a variable is. The machine is run on its array of 512 cells and its index, with the buffer of 1024
  characters its operations are written to. A list linked in both directions is the list of its elements,
  and a pointer into it an index.
\<close>

section \<open>The operations\<close>

text \<open>The operations \<^verbatim>\<open>dwarf.h\<close> names, with the numbers of the DWARF standard.\<close>

abbreviation DW_OP_addr :: u8 where "DW_OP_addr \<equiv> 0x03"
abbreviation DW_OP_deref :: u8 where "DW_OP_deref \<equiv> 0x06"
abbreviation DW_OP_const1u :: u8 where "DW_OP_const1u \<equiv> 0x08"
abbreviation DW_OP_const1s :: u8 where "DW_OP_const1s \<equiv> 0x09"
abbreviation DW_OP_const2u :: u8 where "DW_OP_const2u \<equiv> 0x0A"
abbreviation DW_OP_const2s :: u8 where "DW_OP_const2s \<equiv> 0x0B"
abbreviation DW_OP_const4u :: u8 where "DW_OP_const4u \<equiv> 0x0C"
abbreviation DW_OP_const4s :: u8 where "DW_OP_const4s \<equiv> 0x0D"
abbreviation DW_OP_const8u :: u8 where "DW_OP_const8u \<equiv> 0x0E"
abbreviation DW_OP_const8s :: u8 where "DW_OP_const8s \<equiv> 0x0F"
abbreviation DW_OP_constu :: u8 where "DW_OP_constu \<equiv> 0x10"
abbreviation DW_OP_consts :: u8 where "DW_OP_consts \<equiv> 0x11"
abbreviation DW_OP_dup :: u8 where "DW_OP_dup \<equiv> 0x12"
abbreviation DW_OP_drop :: u8 where "DW_OP_drop \<equiv> 0x13"
abbreviation DW_OP_over :: u8 where "DW_OP_over \<equiv> 0x14"
abbreviation DW_OP_pick :: u8 where "DW_OP_pick \<equiv> 0x15"
abbreviation DW_OP_swap :: u8 where "DW_OP_swap \<equiv> 0x16"
abbreviation DW_OP_rot :: u8 where "DW_OP_rot \<equiv> 0x17"
abbreviation DW_OP_xderef :: u8 where "DW_OP_xderef \<equiv> 0x18"
abbreviation DW_OP_abs :: u8 where "DW_OP_abs \<equiv> 0x19"
abbreviation DW_OP_and :: u8 where "DW_OP_and \<equiv> 0x1A"
abbreviation DW_OP_div :: u8 where "DW_OP_div \<equiv> 0x1B"
abbreviation DW_OP_minus :: u8 where "DW_OP_minus \<equiv> 0x1C"
abbreviation DW_OP_mod :: u8 where "DW_OP_mod \<equiv> 0x1D"
abbreviation DW_OP_mul :: u8 where "DW_OP_mul \<equiv> 0x1E"
abbreviation DW_OP_neg :: u8 where "DW_OP_neg \<equiv> 0x1F"
abbreviation DW_OP_not :: u8 where "DW_OP_not \<equiv> 0x20"
abbreviation DW_OP_or :: u8 where "DW_OP_or \<equiv> 0x21"
abbreviation DW_OP_plus :: u8 where "DW_OP_plus \<equiv> 0x22"
abbreviation DW_OP_plus_uconst :: u8 where "DW_OP_plus_uconst \<equiv> 0x23"
abbreviation DW_OP_shl :: u8 where "DW_OP_shl \<equiv> 0x24"
abbreviation DW_OP_shr :: u8 where "DW_OP_shr \<equiv> 0x25"
abbreviation DW_OP_shra :: u8 where "DW_OP_shra \<equiv> 0x26"
abbreviation DW_OP_xor :: u8 where "DW_OP_xor \<equiv> 0x27"
abbreviation DW_OP_bra :: u8 where "DW_OP_bra \<equiv> 0x28"
abbreviation DW_OP_eq :: u8 where "DW_OP_eq \<equiv> 0x29"
abbreviation DW_OP_ge :: u8 where "DW_OP_ge \<equiv> 0x2A"
abbreviation DW_OP_gt :: u8 where "DW_OP_gt \<equiv> 0x2B"
abbreviation DW_OP_le :: u8 where "DW_OP_le \<equiv> 0x2C"
abbreviation DW_OP_lt :: u8 where "DW_OP_lt \<equiv> 0x2D"
abbreviation DW_OP_ne :: u8 where "DW_OP_ne \<equiv> 0x2E"
abbreviation DW_OP_skip :: u8 where "DW_OP_skip \<equiv> 0x2F"
abbreviation DW_OP_lit0 :: u8 where "DW_OP_lit0 \<equiv> 0x30"
abbreviation DW_OP_lit31 :: u8 where "DW_OP_lit31 \<equiv> 0x4F"
abbreviation DW_OP_reg0 :: u8 where "DW_OP_reg0 \<equiv> 0x50"
abbreviation DW_OP_reg31 :: u8 where "DW_OP_reg31 \<equiv> 0x6F"
abbreviation DW_OP_breg0 :: u8 where "DW_OP_breg0 \<equiv> 0x70"
abbreviation DW_OP_breg31 :: u8 where "DW_OP_breg31 \<equiv> 0x8F"
abbreviation DW_OP_regx :: u8 where "DW_OP_regx \<equiv> 0x90"
abbreviation DW_OP_fbreg :: u8 where "DW_OP_fbreg \<equiv> 0x91"
abbreviation DW_OP_bregx :: u8 where "DW_OP_bregx \<equiv> 0x92"
abbreviation DW_OP_piece :: u8 where "DW_OP_piece \<equiv> 0x93"
abbreviation DW_OP_deref_size :: u8 where "DW_OP_deref_size \<equiv> 0x94"
abbreviation DW_OP_xderef_size :: u8 where "DW_OP_xderef_size \<equiv> 0x95"
abbreviation DW_OP_nop :: u8 where "DW_OP_nop \<equiv> 0x96"
abbreviation DW_OP_push_object_address :: u8 where "DW_OP_push_object_address \<equiv> 0x97"
abbreviation DW_OP_call2 :: u8 where "DW_OP_call2 \<equiv> 0x98"
abbreviation DW_OP_call4 :: u8 where "DW_OP_call4 \<equiv> 0x99"
abbreviation DW_OP_call_ref :: u8 where "DW_OP_call_ref \<equiv> 0x9A"
abbreviation DW_OP_form_tls_address :: u8 where "DW_OP_form_tls_address \<equiv> 0x9B"
abbreviation DW_OP_call_frame_cfa :: u8 where "DW_OP_call_frame_cfa \<equiv> 0x9C"
abbreviation DW_OP_bit_piece :: u8 where "DW_OP_bit_piece \<equiv> 0x9D"
abbreviation DW_OP_implicit_value :: u8 where "DW_OP_implicit_value \<equiv> 0x9E"
abbreviation DW_OP_stack_value :: u8 where "DW_OP_stack_value \<equiv> 0x9F"
abbreviation DW_OP_implicit_pointer :: u8 where "DW_OP_implicit_pointer \<equiv> 0xA0"
abbreviation DW_OP_addrx :: u8 where "DW_OP_addrx \<equiv> 0xA1"
abbreviation DW_OP_constx :: u8 where "DW_OP_constx \<equiv> 0xA2"
abbreviation DW_OP_entry_value :: u8 where "DW_OP_entry_value \<equiv> 0xA3"
abbreviation DW_OP_const_type :: u8 where "DW_OP_const_type \<equiv> 0xA4"
abbreviation DW_OP_regval_type :: u8 where "DW_OP_regval_type \<equiv> 0xA5"
abbreviation DW_OP_deref_type :: u8 where "DW_OP_deref_type \<equiv> 0xA6"
abbreviation DW_OP_xderef_type :: u8 where "DW_OP_xderef_type \<equiv> 0xA7"
abbreviation DW_OP_convert :: u8 where "DW_OP_convert \<equiv> 0xA8"
abbreviation DW_OP_reinterpret :: u8 where "DW_OP_reinterpret \<equiv> 0xA9"

definition op_names :: "(u8 \<times> string) list" where
  "op_names =
     [(DW_OP_addr, ''DW_OP_addr''), (DW_OP_deref, ''DW_OP_deref''), (DW_OP_const1u, ''DW_OP_const1u''),
      (DW_OP_const1s, ''DW_OP_const1s''), (DW_OP_const2u, ''DW_OP_const2u''), (DW_OP_const2s, ''DW_OP_const2s''),
      (DW_OP_const4u, ''DW_OP_const4u''), (DW_OP_const4s, ''DW_OP_const4s''), (DW_OP_const8u, ''DW_OP_const8u''),
      (DW_OP_const8s, ''DW_OP_const8s''), (DW_OP_constu, ''DW_OP_constu''), (DW_OP_consts, ''DW_OP_consts''),
      (DW_OP_dup, ''DW_OP_dup''), (DW_OP_drop, ''DW_OP_drop''), (DW_OP_over, ''DW_OP_over''),
      (DW_OP_pick, ''DW_OP_pick''), (DW_OP_swap, ''DW_OP_swap''), (DW_OP_rot, ''DW_OP_rot''),
      (DW_OP_xderef, ''DW_OP_xderef''), (DW_OP_abs, ''DW_OP_abs''), (DW_OP_and, ''DW_OP_and''),
      (DW_OP_div, ''DW_OP_div''), (DW_OP_minus, ''DW_OP_minus''), (DW_OP_mod, ''DW_OP_mod''),
      (DW_OP_mul, ''DW_OP_mul''), (DW_OP_neg, ''DW_OP_neg''), (DW_OP_not, ''DW_OP_not''), (DW_OP_or, ''DW_OP_or''),
      (DW_OP_plus, ''DW_OP_plus''), (DW_OP_plus_uconst, ''DW_OP_plus_uconst''), (DW_OP_shl, ''DW_OP_shl''),
      (DW_OP_shr, ''DW_OP_shr''), (DW_OP_shra, ''DW_OP_shra''), (DW_OP_xor, ''DW_OP_xor''),
      (DW_OP_bra, ''DW_OP_bra''), (DW_OP_eq, ''DW_OP_eq''), (DW_OP_ge, ''DW_OP_ge''), (DW_OP_gt, ''DW_OP_gt''),
      (DW_OP_le, ''DW_OP_le''), (DW_OP_lt, ''DW_OP_lt''), (DW_OP_ne, ''DW_OP_ne''), (DW_OP_skip, ''DW_OP_skip''),
      (DW_OP_regx, ''DW_OP_regx''), (DW_OP_fbreg, ''DW_OP_fbreg''), (DW_OP_bregx, ''DW_OP_bregx''),
      (DW_OP_piece, ''DW_OP_piece''), (DW_OP_deref_size, ''DW_OP_deref_size''),
      (DW_OP_xderef_size, ''DW_OP_xderef_size''), (DW_OP_nop, ''DW_OP_nop''),
      (DW_OP_push_object_address, ''DW_OP_push_object_address''), (DW_OP_call2, ''DW_OP_call2''),
      (DW_OP_call4, ''DW_OP_call4''), (DW_OP_call_ref, ''DW_OP_call_ref''),
      (DW_OP_form_tls_address, ''DW_OP_form_tls_address''), (DW_OP_call_frame_cfa, ''DW_OP_call_frame_cfa''),
      (DW_OP_bit_piece, ''DW_OP_bit_piece''), (DW_OP_implicit_value, ''DW_OP_implicit_value''),
      (DW_OP_stack_value, ''DW_OP_stack_value''), (DW_OP_implicit_pointer, ''DW_OP_implicit_pointer''),
      (DW_OP_addrx, ''DW_OP_addrx''), (DW_OP_constx, ''DW_OP_constx''), (DW_OP_entry_value, ''DW_OP_entry_value''),
      (DW_OP_const_type, ''DW_OP_const_type''), (DW_OP_regval_type, ''DW_OP_regval_type''),
      (DW_OP_deref_type, ''DW_OP_deref_type''), (DW_OP_xderef_type, ''DW_OP_xderef_type''),
      (DW_OP_convert, ''DW_OP_convert''), (DW_OP_reinterpret, ''DW_OP_reinterpret'')]"

definition get_op_name :: "u8 \<Rightarrow> string" where
  "get_op_name oper =
     (if DW_OP_lit0 \<le> oper \<and> oper \<le> DW_OP_lit31 then ''DW_OP_lit'' @ show_dec (uint (oper - DW_OP_lit0))
      else if DW_OP_reg0 \<le> oper \<and> oper \<le> DW_OP_reg31 then ''DW_OP_reg'' @ show_dec (uint (oper - DW_OP_reg0))
      else if DW_OP_breg0 \<le> oper \<and> oper \<le> DW_OP_breg31 then ''DW_OP_breg'' @ show_dec (uint (oper - DW_OP_breg0))
      else (case map_of op_names oper of None \<Rightarrow> ''<unknown expression opcode>'' | Some name \<Rightarrow> name))"

section \<open>Lists of descriptions\<close>

record locdesc =
  locdesc_lopc :: u64
  locdesc_hipc :: u64
  locdesc_bounded :: bool
  locdesc_op :: u8
  locdesc_opd1 :: u64
  locdesc_opd2 :: u64
  locdesc_opd3 :: u64
  locdesc_offsetforbranch :: u64

definition is_locdesc_in_bounds :: "locdesc \<Rightarrow> u64 \<Rightarrow> bool" where
  "is_locdesc_in_bounds ld pc \<longleftrightarrow> \<not> locdesc_bounded ld \<or> pc \<ge> locdesc_lopc ld \<and> pc < locdesc_hipc ld"

definition create_new_locdesc ::
    "bool \<Rightarrow> u64 \<Rightarrow> u64 \<Rightarrow> u8 \<Rightarrow> u64 \<Rightarrow> u64 \<Rightarrow> u64 \<Rightarrow> u64 \<Rightarrow> locdesc" where
  "create_new_locdesc bounded lopc hipc oper opd1 opd2 opd3 offsetforbranch =
     \<lparr>locdesc_lopc = (if bounded then lopc else 0), locdesc_hipc = (if bounded then hipc else 0), locdesc_bounded = bounded,
      locdesc_op = oper, locdesc_opd1 = opd1, locdesc_opd2 = opd2, locdesc_opd3 = opd3,
      locdesc_offsetforbranch = offsetforbranch\<rparr>"

datatype loclist_source = LOCATION_EXPRESSION | LOCATION_LIST_ENTRY | LOCATION_LIST_ENTRY_SPLIT

definition create_location_description ::
    "loclist_source \<Rightarrow> u64 \<Rightarrow> u64 \<Rightarrow> u8 \<Rightarrow> u64 \<Rightarrow> u64 \<Rightarrow> u64 \<Rightarrow> u64 \<Rightarrow> locdesc" where
  "create_location_description src lopc hipc oper opd1 opd2 opd3 offsetforbranch =
     create_new_locdesc (src = LOCATION_LIST_ENTRY) lopc hipc oper opd1 opd2 opd3 offsetforbranch"

definition copy_one :: "locdesc \<Rightarrow> locdesc" where
  "copy_one ld = create_new_locdesc (locdesc_bounded ld) (locdesc_lopc ld) (locdesc_hipc ld) (locdesc_op ld)
     (locdesc_opd1 ld) (locdesc_opd2 ld) (locdesc_opd3 ld) (locdesc_offsetforbranch ld)"

definition copy_locdesc :: "locdesc list \<Rightarrow> locdesc list" where
  "copy_locdesc based_on = (case based_on of [] \<Rightarrow> [] | ld # rest \<Rightarrow> copy_one ld # map copy_one rest)"

text \<open>A table of \<open>lcount\<close> empty lists.\<close>

definition initialize_die_loclists :: "nat \<Rightarrow> locdesc list list" where
  "initialize_die_loclists lcount = replicate lcount []"

text \<open>The description is added behind those of the attribute's entry \<open>idx\<close>, which has one.\<close>

definition add_additional_location_description ::
    "locdesc list list \<Rightarrow> locdesc \<Rightarrow> nat \<Rightarrow> locdesc list list run" where
  "add_additional_location_description locs add idx =
     (if length locs \<le> idx then Inl OutOfBounds
      else if locs ! idx = [] then Inl NullDeref else Inr (locs[idx := locs ! idx @ [add]]))"

definition get_next_location_description :: "locdesc list \<Rightarrow> locdesc list" where
  "get_next_location_description ld = (case ld of [] \<Rightarrow> [] | _ # rest \<Rightarrow> rest)"

section \<open>Registers\<close>

definition get_register_name :: "16 word \<Rightarrow> string" where
  "get_register_name oper =
     (if oper < 29 then ''$x'' @ show_dec (uint oper)
      else if oper = 29 then ''$fp'' else if oper = 30 then ''$lr'' else if oper = 31 then ''$sp'' else '''')"

definition get_register_value :: "'k dbg \<Rightarrow> int \<Rightarrow> u64 run" where
  "get_register_value d regno =
     (if regno < 0 \<or> regno > 31 then Inr 0
      else (case get_focused_thread d of None \<Rightarrow> Inl NullDeref
            | Some (_, t) \<Rightarrow>
                if regno < 29 then (if nat regno < length (ts_x (thread_state t)) then Inr (ts_x (thread_state t) ! nat regno)
                                 else Inl OutOfBounds)
                else if regno = 29 then Inr (ts_fp (thread_state t))
                else if regno = 30 then Inr (ts_lr (thread_state t))
                else Inr (ts_sp (thread_state t))))"

text \<open>A 64-bit register number is cut to an \<^verbatim>\<open>int\<close>, and to 16 bits for its name.\<close>

definition reg_of :: "u64 \<Rightarrow> int" where
  "reg_of opd = sint (ucast opd :: u32)"

definition evaluate_frame_base :: "locdesc \<Rightarrow> string option" where
  "evaluate_frame_base fb =
     (if DW_OP_reg0 \<le> locdesc_op fb \<and> locdesc_op fb \<le> DW_OP_reg31
      then Some (get_register_name (ucast (locdesc_op fb - DW_OP_reg0)))
      else if locdesc_op fb = DW_OP_regx then Some (get_register_name (ucast (locdesc_opd1 fb)))
      else None)"

section \<open>The machine\<close>

record dstate =
  dx_ld :: "nat option"
  dx_stack :: "u64 list"
  dx_sp :: u32
  dx_expr :: string
  dx_out :: cbuf

definition cell_at :: "u64 list \<Rightarrow> u32 \<Rightarrow> u64 run" where
  "cell_at st i = (if unat i < length st then Inr (st ! unat i) else Inl OutOfBounds)"

definition set_cell_at :: "u32 \<Rightarrow> u64 \<Rightarrow> u64 list \<Rightarrow> u64 list run" where
  "set_cell_at i v st = (if unat i < length st then Inr (st[unat i := v]) else Inl OutOfBounds)"

text \<open>\<^verbatim>\<open>%+lld\<close>.\<close>

definition show_plus :: "u64 \<Rightarrow> string" where
  "show_plus w = (if sint w < 0 then show_dec (sint w) else CHR ''+'' # show_dec (sint w))"

text \<open>The operations that push a number: the text of the operand and the number.\<close>

definition dw_const :: "u8 \<Rightarrow> u64 \<Rightarrow> (string \<times> u64) option" where
  "dw_const oper opd1 =
     (if oper = DW_OP_addr then Some (show_hex opd1, opd1)
      else if oper = DW_OP_const1u then Some (show_dec (uint (ucast opd1 :: u8)), ucast (ucast opd1 :: u8))
      else if oper = DW_OP_const1s then Some (show_dec (sint (ucast opd1 :: u8)), scast (ucast opd1 :: u8))
      else if oper = DW_OP_const2u then Some (show_dec (uint (ucast opd1 :: 16 word)), ucast (ucast opd1 :: 16 word))
      else if oper = DW_OP_const2s then Some (show_dec (sint (ucast opd1 :: 16 word)), scast (ucast opd1 :: 16 word))
      else if oper = DW_OP_const4u then Some (show_dec (sint (ucast opd1 :: u32)), ucast (ucast opd1 :: u32))
      else if oper = DW_OP_const4s then Some (show_dec (sint (ucast opd1 :: u32)), scast (ucast opd1 :: u32))
      else if oper \<in> {DW_OP_const8u, DW_OP_const8s, DW_OP_constu, DW_OP_consts} then Some (show_dec (sint opd1), opd1)
      else if DW_OP_lit0 \<le> oper \<and> oper \<le> DW_OP_lit31 then Some ([], ucast (oper - DW_OP_lit0))
      else None)"

text \<open>The operations that push the value of a register, with an offset or without.\<close>

definition dw_register :: "'k dbg \<Rightarrow> u8 \<Rightarrow> u64 \<Rightarrow> u64 \<Rightarrow> (string \<times> string \<times> u64 run) option" where
  "dw_register d oper opd1 opd2 =
     (if DW_OP_reg0 \<le> oper \<and> oper \<le> DW_OP_reg31 then
        Some (get_register_name (ucast (oper - DW_OP_reg0)), [], get_register_value d (uint (oper - DW_OP_reg0)))
      else if DW_OP_breg0 \<le> oper \<and> oper \<le> DW_OP_breg31 then
        Some (get_register_name (ucast (oper - DW_OP_breg0)), show_plus opd1,
          bind_run (get_register_value d (uint (oper - DW_OP_breg0))) (\<lambda>v. Inr (v + opd1)))
      else if oper = DW_OP_regx then
        Some (get_register_name (ucast opd1), [], get_register_value d (reg_of opd1))
      else if oper = DW_OP_bregx then
        Some (get_register_name (ucast opd1), show_plus opd2,
          bind_run (get_register_value d (reg_of opd1)) (\<lambda>v. Inr (v + opd2)))
      else None)"

text \<open>\<^verbatim>\<open>>>\<close> and \<^verbatim>\<open>/\<close> are those of signed numbers; a shift by the width or more, or less than 0, is undefined.\<close>

definition c_shift :: "nat \<Rightarrow> u64 \<Rightarrow> (nat \<Rightarrow> u64) \<Rightarrow> u64 run" where
  "c_shift w n f = (if unat n < w then Inr (f (unat n)) else Inl BadShift)"

definition truth :: "bool \<Rightarrow> u64" where
  "truth b = (if b then 1 else 0)"

definition dw_unary :: "u8 \<Rightarrow> u64 \<Rightarrow> (u64 \<Rightarrow> u64) option" where
  "dw_unary oper opd1 =
     (if oper = DW_OP_abs then Some (\<lambda>a. if sint a < 0 then - a else a)
      else if oper = DW_OP_neg then Some (\<lambda>a. - a)
      else if oper = DW_OP_not then Some (\<lambda>a. NOT a)
      else if oper = DW_OP_plus_uconst then Some (\<lambda>a. a + opd1)
      else None)"

definition dw_binary :: "u8 \<Rightarrow> (u64 \<Rightarrow> u64 \<Rightarrow> u64 run) option" where
  "dw_binary oper =
     (if oper = DW_OP_and then Some (\<lambda>a b. Inr (a AND b))
      else if oper = DW_OP_div then Some (\<lambda>a b. if b = 0 then Inl DivTrap else Inr (c_div a b))
      else if oper = DW_OP_minus then Some (\<lambda>a b. Inr (a - b))
      else if oper = DW_OP_mod then Some (\<lambda>a b. if b = 0 then Inl DivTrap else Inr (c_mod a b))
      else if oper = DW_OP_mul then Some (\<lambda>a b. Inr (a * b))
      else if oper = DW_OP_or then Some (\<lambda>a b. Inr (a OR b))
      else if oper = DW_OP_plus then Some (\<lambda>a b. Inr (a + b))
      else if oper = DW_OP_shl then Some (\<lambda>a b. c_shift 64 b (\<lambda>n. push_bit n a))
      else if oper = DW_OP_shr then Some (\<lambda>a b. c_shift 64 b (\<lambda>n. signed_drop_bit n a))
      else if oper = DW_OP_shra then Some (\<lambda>a b. c_shift 32 b (\<lambda>n. c_div a (scast (push_bit n 1 :: u32))))
      else if oper = DW_OP_xor then Some (\<lambda>a b. Inr (a XOR b))
      else if oper = DW_OP_eq then Some (\<lambda>a b. Inr (truth (a = b)))
      else if oper = DW_OP_ge then Some (\<lambda>a b. Inr (truth (sint a \<ge> sint b)))
      else if oper = DW_OP_gt then Some (\<lambda>a b. Inr (truth (sint a > sint b)))
      else if oper = DW_OP_le then Some (\<lambda>a b. Inr (truth (sint a \<le> sint b)))
      else if oper = DW_OP_lt then Some (\<lambda>a b. Inr (truth (sint a < sint b)))
      else if oper = DW_OP_ne then Some (\<lambda>a b. Inr (truth (a \<noteq> b)))
      else None)"

definition not_implemented :: "u8 list" where
  "not_implemented = [DW_OP_piece, DW_OP_xderef_size, DW_OP_push_object_address, DW_OP_call2, DW_OP_call4, DW_OP_call_ref,
     DW_OP_form_tls_address, DW_OP_call_frame_cfa, DW_OP_bit_piece, DW_OP_implicit_value]"

text \<open>What an operation leaves: the stack, its index, the output and the text of the operation.\<close>

type_synonym dx_effect = "(u64 list \<times> u32 \<times> cbuf \<times> string) run"

definition push_cell :: "u64 \<Rightarrow> dstate \<Rightarrow> cbuf \<Rightarrow> string \<Rightarrow> dx_effect" where
  "push_cell v s out txt =
     bind_run (set_cell_at (dx_sp s + 1) v (dx_stack s)) (\<lambda>st. Inr (st, dx_sp s + 1, out, txt))"

text \<open>The eight bytes at the address on top; they stay 0 where nothing could be read.\<close>

definition dw_fetch :: "'k mach \<Rightarrow> 'k dbg \<Rightarrow> string \<Rightarrow> dstate \<Rightarrow> (u64 \<times> cbuf) run" where
  "dw_fetch M d name s =
     bind_run (cell_at (dx_stack s) (dx_sp s)) (\<lambda>addr.
     bind_run (read_memory_at_location M (kern d) addr 8) (\<lambda>(err, bs).
       Inr (number_le bs, if err \<noteq> 0 then concat_c (dx_out s)
          (concat [''warning: could not read memory at '', show_hex addr, '' for '', name, [CHR 0x0A]]) else dx_out s)))"

definition dw_deref_size :: "'k mach \<Rightarrow> 'k dbg \<Rightarrow> u64 \<Rightarrow> dstate \<Rightarrow> dx_effect" where
  "dw_deref_size M d opd1 s =
     bind_run (dw_fetch M d ''DW_OP_deref_size'' s) (\<lambda>(dat, out).
       let sz = unat (ucast opd1 :: u8); txt = ''DW_OP_deref_size '' @ show_dec (int sz)
       in if 1 \<le> sz \<and> sz \<le> 8 then push_cell (take_bit (8 * sz) dat) s out txt
          else Inr (dx_stack s, dx_sp s,
            concat_c out (''warning: second operand for DW_OP_deref_size is 0'' @ [CHR 0x0A]), txt))"

text \<open>\<open>cv\<close> and \<open>rg\<close> look up convenience variables and registers for the expression evaluator.\<close>

definition dw_fbreg ::
    "(string \<Rightarrow> string option) \<Rightarrow> (string \<Rightarrow> string option) option \<Rightarrow> locdesc option \<Rightarrow> u64 \<Rightarrow> dstate \<Rightarrow> dx_effect" where
  "dw_fbreg cv rg framebase opd1 s =
     (case framebase of None \<Rightarrow> Inl NullDeref
      | Some fb \<Rightarrow>
          (let reg = (case evaluate_frame_base fb of None \<Rightarrow> ''(null)'' | Some r \<Rightarrow> r);
               expr = reg @ show_plus opd1
           in bind_run (eval_expr cv rg (Some expr) None) (\<lambda>(res, e).
                push_cell res s
                  (if e \<noteq> None then concat_c (dx_out s)
                     (concat [''warning: could not evaluate '', quoted expr, '' for DW_OP_fbreg'', [CHR 0x0A]])
                   else dx_out s) expr)))"

text \<open>The operations on the cells at the top.\<close>

definition dw_shuffle :: "u8 \<Rightarrow> u64 \<Rightarrow> dstate \<Rightarrow> dx_effect" where
  "dw_shuffle oper opd1 s =
     (let st = dx_stack s; sp = dx_sp s; name = get_op_name oper in
      if oper = DW_OP_dup then bind_run (cell_at st sp) (\<lambda>v. push_cell v s (dx_out s) name)
      else if oper = DW_OP_drop then Inr (st, sp - 1, dx_out s, name)
      else if oper = DW_OP_over then bind_run (cell_at st (sp - 1)) (\<lambda>v. push_cell v s (dx_out s) name)
      else if oper = DW_OP_pick then
        bind_run (cell_at st (sp - ucast (ucast opd1 :: u8))) (\<lambda>v.
          push_cell v s (dx_out s) (name @ show_dec (uint (ucast opd1 :: u8))))
      else if oper = DW_OP_swap then
        bind_run (cell_at st sp) (\<lambda>t. bind_run (cell_at st (sp - 1)) (\<lambda>v.
        bind_run (set_cell_at sp v st) (\<lambda>st1. bind_run (set_cell_at (sp - 1) t st1) (\<lambda>st2.
          Inr (st2, sp, dx_out s, name)))))
      else
        bind_run (cell_at st sp) (\<lambda>t. bind_run (cell_at st (sp - 1)) (\<lambda>v. bind_run (cell_at st (sp - 2)) (\<lambda>w.
        bind_run (set_cell_at sp v st) (\<lambda>st1. bind_run (set_cell_at (sp - 1) w st1) (\<lambda>st2.
        bind_run (set_cell_at (sp - 2) t st2) (\<lambda>st3. Inr (st3, sp, dx_out s, name))))))))"

definition dw_arith :: "u8 \<Rightarrow> u64 \<Rightarrow> dstate \<Rightarrow> dx_effect option" where
  "dw_arith oper opd1 s =
     (let st = dx_stack s; sp = dx_sp s; name = get_op_name oper in
      case dw_unary oper opd1 of
        Some f \<Rightarrow> Some (bind_run (cell_at st sp) (\<lambda>a. bind_run (set_cell_at sp (f a) st) (\<lambda>st1.
          Inr (st1, sp, dx_out s, if oper = DW_OP_plus_uconst then name @ '' '' @ show_dec (sint opd1) else name))))
      | None \<Rightarrow> (case dw_binary oper of None \<Rightarrow> None
          | Some f \<Rightarrow> Some (bind_run (cell_at st (sp - 1)) (\<lambda>a. bind_run (cell_at st sp) (\<lambda>b.
              bind_run (f a b) (\<lambda>r. bind_run (set_cell_at (sp - 1) r st) (\<lambda>st1.
              Inr (st1, sp - 1, dx_out s, name))))))))"

text \<open>All but the jumps and the end.\<close>

definition dw_effect ::
    "'k mach \<Rightarrow> 'k dbg \<Rightarrow> (string \<Rightarrow> string option) \<Rightarrow> (string \<Rightarrow> string option) option \<Rightarrow> locdesc option \<Rightarrow>
     locdesc \<Rightarrow> dstate \<Rightarrow> dx_effect" where
  "dw_effect M d cv rg framebase ld s =
     (let oper = locdesc_op ld; opd1 = locdesc_opd1 ld; opd2 = locdesc_opd2 ld;
          stay = (\<lambda>txt. Inr (dx_stack s, dx_sp s, concat_c (dx_out s) txt, [])) in
      case dw_const oper opd1 of Some (txt, v) \<Rightarrow> push_cell v s (dx_out s) txt
      | None \<Rightarrow> (case dw_register d oper opd1 opd2 of
          Some (name, txt, r) \<Rightarrow> bind_run r (\<lambda>v. push_cell v s (dx_out s) (name @ txt))
        | None \<Rightarrow> (case dw_arith oper opd1 s of Some r \<Rightarrow> r
          | None \<Rightarrow>
              if oper \<in> {DW_OP_dup, DW_OP_drop, DW_OP_over, DW_OP_pick, DW_OP_swap, DW_OP_rot} then dw_shuffle oper opd1 s
              else if oper = DW_OP_deref then
                bind_run (dw_fetch M d ''DW_OP_deref'' s) (\<lambda>(dat, out). push_cell dat s out '' DW_OP_deref'')
              else if oper = DW_OP_deref_size then dw_deref_size M d opd1 s
              else if oper = DW_OP_fbreg then dw_fbreg cv rg framebase opd1 s
              else if oper = DW_OP_nop \<or> oper = DW_OP_xderef then Inr (dx_stack s, dx_sp s, dx_out s, [])
              else if oper \<in> set not_implemented then stay (get_op_name oper @ '' not implemented'' @ [CHR 0x0A])
              else stay (concat [''Unhanded DWARF operation '', show_hex (ucast oper), [CHR 0x0A]]))))"

text \<open>
  Jumps count operations, not bytes. A negative one, by \<open>- n\<close>, goes \<open>n - 1\<close> back. From the first operation
  back, and from the last one on, the pointer is NULL, and is not followed any further.
\<close>

fun walk_back :: "nat \<Rightarrow> nat option \<Rightarrow> nat option run" where
  "walk_back 0 ld = Inr ld"
| "walk_back (Suc n) ld =
     (case ld of None \<Rightarrow> Inl NullDeref
      | Some i \<Rightarrow> walk_back n (case i of 0 \<Rightarrow> None | Suc j \<Rightarrow> Some j))"

definition ld_next :: "nat \<Rightarrow> nat \<Rightarrow> nat option" where
  "ld_next len i = (if Suc i < len then Some (Suc i) else None)"

fun walk_on :: "nat \<Rightarrow> nat \<Rightarrow> nat option \<Rightarrow> nat option run" where
  "walk_on len 0 ld = Inr ld"
| "walk_on len (Suc n) ld =
     (case ld of None \<Rightarrow> Inl NullDeref | Some i \<Rightarrow> walk_on len n (ld_next len i))"

definition skip_of :: "locdesc \<Rightarrow> int" where
  "skip_of ld = sint (ucast (locdesc_opd1 ld) :: 16 word)"

definition dw_jump :: "nat \<Rightarrow> int \<Rightarrow> nat \<Rightarrow> nat option run" where
  "dw_jump len skip i =
     (if skip < 0 then walk_back (nat (- skip - 1)) (Some i) else walk_on len (nat skip) (Some i))"

definition dx_step ::
    "'k mach \<Rightarrow> 'k dbg \<Rightarrow> (string \<Rightarrow> string option) \<Rightarrow> (string \<Rightarrow> string option) option \<Rightarrow> locdesc option \<Rightarrow>
     locdesc list \<Rightarrow> nat \<Rightarrow> dstate \<Rightarrow> dstate run" where
  "dx_step M d cv rg framebase locs i s =
     (let ld = locs ! i; oper = locdesc_op ld in
      if oper = DW_OP_skip then
        bind_run (dw_jump (length locs) (skip_of ld) i) (\<lambda>ld'. Inr (s\<lparr>dx_ld := ld'\<rparr>))
      else if oper = DW_OP_bra then
        bind_run (cell_at (dx_stack s) (dx_sp s)) (\<lambda>v.
          if v \<noteq> 0 then bind_run (dw_jump (length locs) (skip_of ld) i) (\<lambda>ld'. Inr (s\<lparr>dx_ld := ld'\<rparr>))
          else (let ex = dx_expr s @ get_op_name oper @ '' '' @ show_dec (skip_of ld) in
                if length ex < 1024 then Inr (s\<lparr>dx_expr := ex, dx_ld := ld_next (length locs) i\<rparr>) else Inl OutOfBounds))
      else if oper = DW_OP_stack_value then Inr (s\<lparr>dx_ld := None\<rparr>)
      else bind_run (dw_effect M d cv rg framebase ld s) (\<lambda>(st, sp, out, txt).
        if length (dx_expr s @ txt) < 1024
        then Inr \<lparr>dx_ld = ld_next (length locs) i, dx_stack = st, dx_sp = sp, dx_expr = dx_expr s @ txt, dx_out = out\<rparr>
        else Inl OutOfBounds))"

text \<open>The loop runs while there is an operation and nothing undefined has happened; \<open>None\<close> is a loop without end.\<close>

definition dx_more :: "dstate run \<Rightarrow> bool" where
  "dx_more r = (case r of Inl _ \<Rightarrow> False | Inr s \<Rightarrow> dx_ld s \<noteq> None)"

definition dx_body ::
    "'k mach \<Rightarrow> 'k dbg \<Rightarrow> (string \<Rightarrow> string option) \<Rightarrow> (string \<Rightarrow> string option) option \<Rightarrow> locdesc option \<Rightarrow>
     locdesc list \<Rightarrow> dstate run \<Rightarrow> dstate run" where
  "dx_body M d cv rg framebase locs r =
     bind_run r (\<lambda>s. case dx_ld s of None \<Rightarrow> Inr s | Some i \<Rightarrow> dx_step M d cv rg framebase locs i s)"

definition dx_start :: "locdesc list \<Rightarrow> cbuf \<Rightarrow> dstate" where
  "dx_start locs out =
     \<lparr>dx_ld = (if locs = [] then None else Some 0), dx_stack = replicate 512 0, dx_sp = 0, dx_expr = [], dx_out = out\<rparr>"

definition decode_location_description ::
    "'k mach \<Rightarrow> 'k dbg \<Rightarrow> (string \<Rightarrow> string option) \<Rightarrow> (string \<Rightarrow> string option) option \<Rightarrow> locdesc option \<Rightarrow>
     locdesc list \<Rightarrow> cbuf \<Rightarrow> (u64 \<times> cbuf) run option" where
  "decode_location_description M d cv rg framebase locs out =
     map_option (\<lambda>r. bind_run r (\<lambda>s. bind_run (cell_at (dx_stack s) (dx_sp s)) (\<lambda>v. Inr (v, dx_out s))))
       (while_option dx_more (dx_body M d cv rg framebase locs) (Inr (dx_start locs out)))"

end
