(* ===== verification/DexprSpec.thy ===== *)
theory DexprSpec
  imports Dexpr
begin

text \<open>
  The stack machine of the DWARF standard as operations on a list, its top first, and the proof that the
  code computes what it gives: for location descriptions without jumps and memory, short enough for the
  buffer. Jumps forward end; the jumps to the next operation and to the operation itself never do.
\<close>

section \<open>The machine on a list\<close>

definition dw_pushed :: "(int \<Rightarrow> u64) \<Rightarrow> u8 \<Rightarrow> u64 \<Rightarrow> u64 \<Rightarrow> u64 option" where
  "dw_pushed reg oper opd1 opd2 =
     (if DW_OP_reg0 \<le> oper \<and> oper \<le> DW_OP_reg31 then Some (reg (uint (oper - DW_OP_reg0)))
      else if DW_OP_breg0 \<le> oper \<and> oper \<le> DW_OP_breg31 then Some (reg (uint (oper - DW_OP_breg0)) + opd1)
      else if oper = DW_OP_regx then Some (reg (reg_of opd1))
      else if oper = DW_OP_bregx then Some (reg (reg_of opd1) + opd2)
      else None)"

definition dw_meaning :: "(int \<Rightarrow> u64) \<Rightarrow> locdesc \<Rightarrow> u64 list \<Rightarrow> u64 list option" where
  "dw_meaning reg ld st =
     (let oper = locdesc_op ld; opd1 = locdesc_opd1 ld; opd2 = locdesc_opd2 ld in
      case dw_const oper opd1 of Some (_, v) \<Rightarrow> Some (v # st)
      | None \<Rightarrow>
          (case dw_pushed reg oper opd1 opd2 of Some v \<Rightarrow> Some (v # st)
           | None \<Rightarrow>
             (case dw_unary oper opd1 of
              Some f \<Rightarrow> (case st of a # r \<Rightarrow> Some (f a # r) | _ \<Rightarrow> None)
            | None \<Rightarrow> (case dw_binary oper of
                Some f \<Rightarrow> (case st of b # a # r \<Rightarrow> (case f a b of Inr v \<Rightarrow> Some (v # r) | Inl _ \<Rightarrow> None) | _ \<Rightarrow> None)
              | None \<Rightarrow>
                  if oper = DW_OP_dup then (case st of a # r \<Rightarrow> Some (a # a # r) | _ \<Rightarrow> None)
                  else if oper = DW_OP_drop then (case st of a # r \<Rightarrow> Some r | _ \<Rightarrow> None)
                  else if oper = DW_OP_over then (case st of b # a # r \<Rightarrow> Some (a # b # a # r) | _ \<Rightarrow> None)
                  else if oper = DW_OP_pick then
                    (let k = unat (ucast opd1 :: u8) in if k < length st then Some (st ! k # st) else None)
                  else if oper = DW_OP_swap then (case st of b # a # r \<Rightarrow> Some (a # b # r) | _ \<Rightarrow> None)
                  else if oper = DW_OP_rot then (case st of c # b # a # r \<Rightarrow> Some (b # a # c # r) | _ \<Rightarrow> None)
                  else if oper = DW_OP_nop then Some st
                  else None))))"

fun dw_run :: "(int \<Rightarrow> u64) \<Rightarrow> locdesc list \<Rightarrow> u64 list \<Rightarrow> u64 list option" where
  "dw_run reg [] st = Some st"
| "dw_run reg (ld # lds) st = (case dw_meaning reg ld st of None \<Rightarrow> None | Some st1 \<Rightarrow> dw_run reg lds st1)"

section \<open>The array holds the list\<close>

definition holds :: "u64 list \<Rightarrow> u32 \<Rightarrow> u64 list \<Rightarrow> bool" where
  "holds cs sp st \<longleftrightarrow> length cs = 512 \<and> unat sp = length st \<and> (\<exists>rest. cs = 0 # rev st @ rest)"

lemma unat_less_32: "unat (x :: u32) < 4294967296"
proof -
  have "int (unat x) < 4294967296" using uint_bounded [of x] by simp
  then show ?thesis by linarith
qed

lemma sub_index:
  fixes sp :: u32
  assumes "k \<le> unat sp"
  shows "unat (sp - of_nat k) = unat sp - k"
proof -
  have "unat sp < 4294967296" by (rule unat_less_32)
  with assms have "k < 4294967296" by linarith
  then have "unat (of_nat k :: u32) = k" by (simp add: unat_of_nat take_bit_nat_eq_self)
  with assms show ?thesis by (simp add: unat_sub word_le_nat_alt)
qed

lemma holds_length: "holds cs sp st \<Longrightarrow> length st < 512"
  by (auto simp: holds_def)

lemma holds_nth:
  assumes "holds cs sp st" "k < length st"
  shows "cs ! (length st - k) = st ! k"
proof -
  obtain rest where c: "cs = 0 # rev st @ rest" using assms by (auto simp: holds_def)
  have "length st - k = Suc (length st - Suc k)" using assms by simp
  moreover have "length st - Suc k < length st" using assms(2) by linarith
  ultimately show ?thesis using assms(2) by (simp add: c nth_append rev_nth)
qed

lemma cell_holds:
  assumes "holds cs sp st" "k < length st"
  shows "cell_at cs (sp - of_nat k) = Inr (st ! k)"
  using assms sub_index [of k sp] holds_nth [OF assms] holds_length [OF assms(1)] by (simp add: cell_at_def holds_def)

lemma set_holds:
  assumes "holds cs sp st" "k < length st"
  shows "\<exists>cs'. set_cell_at (sp - of_nat k) v cs = Inr cs' \<and> holds cs' sp (st[k := v])"
proof -
  obtain rest where c: "cs = 0 # rev st @ rest" using assms by (auto simp: holds_def)
  have i: "unat (sp - of_nat k) = Suc (length st - Suc k)" using assms sub_index [of k sp] by (simp add: holds_def)
  have "(rev st @ rest)[length st - Suc k := v] = rev (st[k := v]) @ rest"
    using assms(2) by (auto simp: list_update_append rev_update)
  moreover have "length st - Suc k < 511" using assms holds_length [OF assms(1)] by linarith
  ultimately show ?thesis using assms i by (simp add: set_cell_at_def holds_def c)
qed

lemma push_holds:
  assumes "holds cs sp st" "length st < 511"
  shows "\<exists>cs'. set_cell_at (sp + 1) v cs = Inr cs' \<and> holds cs' (sp + 1) (v # st)"
proof -
  obtain rest where c: "cs = 0 # rev st @ rest" using assms by (auto simp: holds_def)
  then obtain x rest' where r: "rest = x # rest'" using assms by (cases rest) (auto simp: holds_def)
  have i: "unat (sp + 1) = Suc (length st)"
    using assms by (simp add: holds_def unat_word_ariths)
  show ?thesis using assms i by (simp add: set_cell_at_def holds_def c r list_update_append)
qed

lemma pop_holds: "holds cs sp (a # st) \<Longrightarrow> holds cs (sp - 1) st"
  using sub_index [of 1 sp] by (auto simp: holds_def)

lemma show_number_length:
  "length (show_dec (sint (w :: u64))) \<le> 20" "length (show_plus w) \<le> 20" "length (show_hex w) \<le> 20"
  "length (show_dec (sint (c :: u8))) \<le> 20" "length (show_dec (uint c)) \<le> 20" "length (show_dec (sint (h :: 16 word))) \<le> 20"
  "length (show_dec (uint h)) \<le> 20" "length (show_dec (sint (i :: u32))) \<le> 20"
proof -
  have n: "- (2 ^ 63) \<le> uint (x :: 'a :: len word)" for x by (rule order.trans [of _ 0]) simp_all
  have w: "- (2 ^ 63) \<le> sint w" "sint w < 2 ^ 63" using sint_range_size [of w] by (simp_all add: word_size)
  have c: "- (2 ^ 7) \<le> sint c" "sint c < 2 ^ 7" "0 \<le> uint c" "uint c < 2 ^ 8"
    using sint_range_size [of c] uint_bounded [of c] by (simp_all add: word_size)
  have h: "- (2 ^ 15) \<le> sint h" "sint h < 2 ^ 15" "0 \<le> uint h" "uint h < 2 ^ 16"
    using sint_range_size [of h] uint_bounded [of h] by (simp_all add: word_size)
  have i: "- (2 ^ 31) \<le> sint i" "sint i < 2 ^ 31" using sint_range_size [of i] by (simp_all add: word_size)
  show "length (show_dec (sint w)) \<le> 20" using w by (intro show_dec_length) simp_all
  show "length (show_plus w) \<le> 20"
    using w show_base_length [of 10 "sint w" 19] show_base_length [of 10 "- sint w" 19]
    by (simp add: show_plus_def show_dec_def)
  show "length (show_hex w) \<le> 20"
    using show_base_length [of 16 "uint w" 16] uint_bounded [of w] by (simp add: show_hex_def)
  show "length (show_dec (sint c)) \<le> 20" "length (show_dec (uint c)) \<le> 20" using c n [of c] by (intro show_dec_length; simp)+
  show "length (show_dec (sint h)) \<le> 20" "length (show_dec (uint h)) \<le> 20" using h n [of h] by (intro show_dec_length; simp)+
  show "length (show_dec (sint i)) \<le> 20" using i by (intro show_dec_length) simp_all
qed

lemma register_name_length: "length (get_register_name r) \<le> 4"
proof -
  have "length (show_dec (uint r)) \<le> 2" if "r < 29"
    using that show_base_length [of 10 "uint r" 2] by (simp add: show_dec_def word_less_def)
  then show ?thesis by (auto simp: get_register_name_def)
qed

section \<open>One operation\<close>

definition regs_of :: "'k dbg \<Rightarrow> int \<Rightarrow> u64" where
  "regs_of d r = (case get_register_value d r of Inr v \<Rightarrow> v | Inl _ \<Rightarrow> 0)"

definition regs_readable :: "'k dbg \<Rightarrow> bool" where
  "regs_readable d \<longleftrightarrow> (\<exists>a t. get_focused_thread d = Some (a, t) \<and> length (ts_x (thread_state t)) = 29)"

lemma register_read: "regs_readable d \<Longrightarrow> get_register_value d r = Inr (regs_of d r)"
  by (auto simp: regs_readable_def regs_of_def get_register_value_def)

definition simulates :: "dstate \<Rightarrow> dx_effect \<Rightarrow> u64 list \<Rightarrow> bool" where
  "simulates s r st \<longleftrightarrow> (\<exists>cs sp txt. r = Inr (cs, sp, dx_out s, txt) \<and> holds cs sp st \<and> length txt \<le> 38)"

abbreviation stack_of :: "dstate \<Rightarrow> u64 list \<Rightarrow> bool" where
  "stack_of s st \<equiv> holds (dx_stack s) (dx_sp s) st"

lemma push_simulates:
  assumes "stack_of s st" "length st < 511" "length txt \<le> 38"
  shows "simulates s (push_cell v s (dx_out s) txt) (v # st)"
  using push_holds [OF assms(1,2), of v] assms(3) by (auto simp: push_cell_def simulates_def)

lemma const_text: "dw_const oper opd1 = Some (txt, v) \<Longrightarrow> length txt \<le> 20"
  using show_number_length(3) [of opd1] by (auto simp: dw_const_def show_number_length split: if_splits)

lemma register_text:
  assumes "dw_register d oper opd1 opd2 = Some (name, txt, r)"
  shows "length (name @ txt) \<le> 38"
  using assms register_name_length [of "ucast (oper - DW_OP_reg0)"] register_name_length [of "ucast (oper - DW_OP_breg0)"]
    register_name_length [of "ucast opd1"] show_number_length(2) [of opd1] show_number_length(2) [of opd2]
  by (auto simp: dw_register_def split: if_splits)

lemma top_holds: "holds cs sp st \<Longrightarrow> st \<noteq> [] \<Longrightarrow> cell_at cs sp = Inr (hd st)"
  using cell_holds [of cs sp st 0] by (simp add: hd_conv_nth)

lemma second_holds: "holds cs sp st \<Longrightarrow> 1 < length st \<Longrightarrow> cell_at cs (sp - 1) = Inr (st ! 1)"
  using cell_holds [of cs sp st 1] by simp

lemma third_holds: "holds cs sp st \<Longrightarrow> 2 < length st \<Longrightarrow> cell_at cs (sp - 2) = Inr (st ! 2)"
  using cell_holds [of cs sp st 2] by simp

lemma const_simulates:
  assumes "dw_const (locdesc_op ld) (locdesc_opd1 ld) = Some (txt, v)" "stack_of s st" "length st < 511"
  shows "simulates s (dw_effect M d cv rg fb ld s) (v # st)"
  using push_simulates [OF assms(2,3), of "txt" v] const_text [OF assms(1)] assms(1) by (simp add: dw_effect_def Let_def)

lemma register_simulates:
  assumes "dw_register d (locdesc_op ld) (locdesc_opd1 ld) (locdesc_opd2 ld) = Some (name, txt, Inr v)"
    "dw_const (locdesc_op ld) (locdesc_opd1 ld) = None" "stack_of s st" "length st < 511"
  shows "simulates s (dw_effect M d cv rg fb ld s) (v # st)"
  using push_simulates [OF assms(3,4), of "name @ txt" v] register_text [OF assms(1)] assms(1,2)
  by (simp add: dw_effect_def Let_def)

lemma name_length: "length (get_op_name oper) \<le> 30"
proof -
  have "\<forall>n \<in> set (map (length \<circ> snd) op_names). n \<le> 30" by (simp add: op_names_def)
  then have "length n \<le> 30" if "map_of op_names oper = Some n" for n
    using map_of_SomeD [OF that] by fastforce
  moreover have "length (show_dec (uint (x :: u8))) \<le> 20 \<and> length (show_dec (uint x)) \<le> 21" for x
    using show_number_length(5) [of x] by simp
  ultimately show ?thesis by (auto simp: get_op_name_def split: option.split)
qed

lemma unary_simulates:
  assumes "dw_unary oper opd1 = Some f" "stack_of s (a # r)"
  shows "\<exists>q. dw_arith oper opd1 s = Some q \<and> simulates s q (f a # r)"
proof -
  obtain cs' where c: "set_cell_at (dx_sp s) (f a) (dx_stack s) = Inr cs'" "holds cs' (dx_sp s) (f a # r)"
    using set_holds [OF assms(2), of 0 "f a"] by auto
  have t: "cell_at (dx_stack s) (dx_sp s) = Inr a" using top_holds [OF assms(2)] by simp
  have n: "get_op_name DW_OP_plus_uconst = ''DW_OP_plus_uconst''" by (simp add: get_op_name_def op_names_def)
  show ?thesis
    using assms(1) c t n name_length [of oper] show_number_length(1) [of opd1] by (auto simp: dw_arith_def simulates_def Let_def)
qed

lemma binary_simulates:
  assumes "dw_unary oper opd1 = None" "dw_binary oper = Some f" "f a b = Inr v" "stack_of s (b # a # r)"
  shows "\<exists>q. dw_arith oper opd1 s = Some q \<and> simulates s q (v # r)"
proof -
  obtain cs' where c: "set_cell_at (dx_sp s - 1) v (dx_stack s) = Inr cs'" "holds cs' (dx_sp s) (b # v # r)"
    using set_holds [OF assms(4), of 1 v] by auto
  have t: "cell_at (dx_stack s) (dx_sp s) = Inr b" "cell_at (dx_stack s) (dx_sp s - 1) = Inr a"
    using top_holds [OF assms(4)] second_holds [OF assms(4)] by simp_all
  show ?thesis
    using assms(1,2,3) c t name_length [of oper] pop_holds [OF c(2)] by (auto simp: dw_arith_def simulates_def Let_def)
qed

lemma shuffle_simulates:
  assumes "oper \<in> {DW_OP_dup, DW_OP_drop, DW_OP_over, DW_OP_pick, DW_OP_swap, DW_OP_rot}"
    and "stack_of s st" "length st < 511"
    and "(if oper = DW_OP_dup then (case st of a # r \<Rightarrow> Some (a # a # r) | _ \<Rightarrow> None)
      else if oper = DW_OP_drop then (case st of a # r \<Rightarrow> Some r | _ \<Rightarrow> None)
      else if oper = DW_OP_over then (case st of b # a # r \<Rightarrow> Some (a # b # a # r) | _ \<Rightarrow> None)
      else if oper = DW_OP_pick then (let k = unat (ucast opd1 :: u8) in if k < length st then Some (st ! k # st) else None)
      else if oper = DW_OP_swap then (case st of b # a # r \<Rightarrow> Some (a # b # r) | _ \<Rightarrow> None)
      else if oper = DW_OP_rot then (case st of c # b # a # r \<Rightarrow> Some (b # a # c # r) | _ \<Rightarrow> None)
      else None) = Some st'"
  shows "simulates s (dw_shuffle oper opd1 s) st'"
proof -
  note p = push_simulates [OF assms(2,3)]
  have n: "get_op_name DW_OP_dup = ''DW_OP_dup''" "get_op_name DW_OP_drop = ''DW_OP_drop''"
    "get_op_name DW_OP_over = ''DW_OP_over''" "get_op_name DW_OP_pick = ''DW_OP_pick''"
    "get_op_name DW_OP_swap = ''DW_OP_swap''" "get_op_name DW_OP_rot = ''DW_OP_rot''"
    by (simp_all add: get_op_name_def op_names_def)
  consider "oper = DW_OP_dup" | "oper = DW_OP_drop" | "oper = DW_OP_over" | "oper = DW_OP_pick" | "oper = DW_OP_swap"
    | "oper = DW_OP_rot" using assms(1) by auto
  then show ?thesis
  proof cases
    case 1
    then obtain a r where s: "st = a # r" "st' = a # a # r" using assms(4) by (auto split: list.splits)
    show ?thesis using 1 p [of "''DW_OP_dup''" a] top_holds [OF assms(2)] by (simp add: dw_shuffle_def Let_def n s)
  next
    case 2
    then obtain a where s: "st = a # st'" using assms(4) by (auto split: list.splits)
    show ?thesis using 2 pop_holds [of "dx_stack s" "dx_sp s" a st'] assms(2)
      by (simp add: dw_shuffle_def Let_def n s simulates_def)
  next
    case 3
    then obtain a b r where s: "st = b # a # r" "st' = a # b # a # r" using assms(4) by (auto split: list.splits)
    show ?thesis using 3 p [of "''DW_OP_over''" a] second_holds [OF assms(2)] by (simp add: dw_shuffle_def Let_def n s)
  next
    case 4
    define k where "k = unat (ucast opd1 :: u8)"
    have k: "k < length st" "st' = st ! k # st" using 4 assms(4) by (auto simp: k_def Let_def split: if_splits)
    have c: "(ucast (ucast opd1 :: u8) :: u32) = of_nat k" by (simp add: k_def)
    have l: "length (''DW_OP_pick'' @ show_dec (uint (ucast opd1 :: u8))) \<le> 38"
      using show_number_length(5) [of "ucast opd1"] by simp
    show ?thesis using 4 p [OF l, of "st ! k"] cell_holds [OF assms(2) k(1)] by (simp add: dw_shuffle_def Let_def n c k(2))
  next
    case 5
    then obtain a b r where s: "st = b # a # r" "st' = a # b # r" using assms(4) by (auto split: list.splits)
    obtain c1 where c1: "set_cell_at (dx_sp s) a (dx_stack s) = Inr c1" "holds c1 (dx_sp s) (a # a # r)"
      using set_holds [OF assms(2), of 0 a] by (auto simp: s)
    obtain c2 where c2: "set_cell_at (dx_sp s - 1) b c1 = Inr c2" "holds c2 (dx_sp s) (a # b # r)"
      using set_holds [OF c1(2), of 1 b] by auto
    show ?thesis using 5 c1(1) c2 top_holds [OF assms(2)] second_holds [OF assms(2)]
      by (simp add: dw_shuffle_def Let_def n s simulates_def)
  next
    case 6
    then obtain a b c r where s: "st = c # b # a # r" "st' = b # a # c # r" using assms(4) by (auto split: list.splits)
    obtain c1 where c1: "set_cell_at (dx_sp s) b (dx_stack s) = Inr c1" "holds c1 (dx_sp s) (b # b # a # r)"
      using set_holds [OF assms(2), of 0 b] by (auto simp: s)
    obtain c2 where c2: "set_cell_at (dx_sp s - 1) a c1 = Inr c2" "holds c2 (dx_sp s) (b # a # a # r)"
      using set_holds [OF c1(2), of 1 a] by auto
    obtain c3 where c3: "set_cell_at (dx_sp s - 2) c c2 = Inr c3" "holds c3 (dx_sp s) (b # a # c # r)"
      using set_holds [OF c2(2), of 2 c] by auto
    show ?thesis using 6 c1(1) c2(1) c3 top_holds [OF assms(2)] second_holds [OF assms(2)] third_holds [OF assms(2)]
      by (simp add: dw_shuffle_def Let_def n s simulates_def)
  qed
qed

lemma register_pushed:
  assumes "regs_readable d"
  shows "case dw_pushed (regs_of d) oper opd1 opd2 of
      None \<Rightarrow> dw_register d oper opd1 opd2 = None
    | Some v \<Rightarrow> \<exists>name txt. dw_register d oper opd1 opd2 = Some (name, txt, Inr v)"
  by (simp add: dw_pushed_def dw_register_def register_read [OF assms])

lemma effect_simulates:
  assumes m: "dw_meaning (regs_of d) ld st = Some st'" and s: "stack_of s st" "length st < 511" and r: "regs_readable d"
  shows "simulates s (dw_effect M d cv rg fb ld s) st'"
proof (cases "dw_const (locdesc_op ld) (locdesc_opd1 ld)")
  case (Some p)
  then obtain tx v where c: "dw_const (locdesc_op ld) (locdesc_opd1 ld) = Some (tx, v)" by (cases p) auto
  then have "st' = v # st" using m by (simp add: dw_meaning_def Let_def)
  then show ?thesis using const_simulates [OF c s] by simp
next
  case None
  note c = None
  show ?thesis
  proof (cases "dw_pushed (regs_of d) (locdesc_op ld) (locdesc_opd1 ld) (locdesc_opd2 ld)")
    case (Some v)
    then obtain name tx where e: "dw_register d (locdesc_op ld) (locdesc_opd1 ld) (locdesc_opd2 ld) = Some (name, tx, Inr v)"
      using register_pushed [OF r, of "locdesc_op ld" "locdesc_opd1 ld" "locdesc_opd2 ld"] by auto
    have "st' = v # st" using m c Some by (simp add: dw_meaning_def Let_def)
    then show ?thesis using register_simulates [OF e c s] by simp
  next
    case None
    note p = None
    have e: "dw_register d (locdesc_op ld) (locdesc_opd1 ld) (locdesc_opd2 ld) = None"
      using register_pushed [OF r, of "locdesc_op ld" "locdesc_opd1 ld" "locdesc_opd2 ld"] None by simp
    note m1 = m [unfolded dw_meaning_def Let_def c None option.case]
    show ?thesis
    proof (cases "dw_unary (locdesc_op ld) (locdesc_opd1 ld)")
      case (Some f)
      then obtain a q where q: "st = a # q" "st' = f a # q"
        using m1 by (auto split: list.splits)
      show ?thesis using unary_simulates [OF Some s(1) [unfolded q]] c e by (auto simp: dw_effect_def Let_def q)
    next
      case None
      note u = None
      show ?thesis
      proof (cases "dw_binary (locdesc_op ld)")
        case (Some f)
        then obtain b a q v where q: "st = b # a # q" "f a b = Inr v" "st' = v # q"
          using m1 u by (auto split: list.splits sum.splits)
        show ?thesis using binary_simulates [OF u Some q(2) s(1) [unfolded q]] c e by (auto simp: dw_effect_def Let_def q)
      next
        case None
        have a: "dw_arith (locdesc_op ld) (locdesc_opd1 ld) s = None" using u None by (simp add: dw_arith_def Let_def)
        show ?thesis
        proof (cases "locdesc_op ld = DW_OP_nop")
          case True
          then have "st' = st" using m1 u None by simp
          then show ?thesis using c e a True s(1) by (simp add: dw_effect_def Let_def simulates_def)
        next
          case False
          then have o: "locdesc_op ld \<in> {DW_OP_dup, DW_OP_drop, DW_OP_over, DW_OP_pick, DW_OP_swap, DW_OP_rot}"
            using m1 u None by (auto split: if_splits)
          have "simulates s (dw_shuffle (locdesc_op ld) (locdesc_opd1 ld) s) st'"
            by (rule shuffle_simulates [OF o s]) (use m1 u None False o in \<open>auto simp: Let_def\<close>)
          then show ?thesis using c e a o by (simp add: dw_effect_def Let_def)
        qed
      qed
    qed
  qed
qed

section \<open>Running a description\<close>

lemma meaning_no_jump:
  assumes "dw_meaning reg ld st = Some st'"
  shows "locdesc_op ld \<noteq> DW_OP_skip" "locdesc_op ld \<noteq> DW_OP_bra" "locdesc_op ld \<noteq> DW_OP_stack_value"
  using assms by (auto simp: dw_meaning_def dw_const_def dw_pushed_def dw_unary_def dw_binary_def Let_def)

definition at_op :: "locdesc list \<Rightarrow> nat \<Rightarrow> dstate \<Rightarrow> u64 list \<Rightarrow> bool" where
  "at_op locs i s st \<longleftrightarrow> dx_ld s = (if i < length locs then Some i else None) \<and> stack_of s st \<and> length st \<le> i \<and>
     length (dx_expr s) \<le> 38 * i"

lemma meaning_length: "dw_meaning reg ld st = Some st' \<Longrightarrow> length st' \<le> Suc (length st)"
  by (auto simp: dw_meaning_def Let_def split: option.splits if_splits list.splits sum.splits)

lemma step_runs:
  assumes m: "dw_meaning (regs_of d) (locs ! i) st = Some st'" and a: "at_op locs i s st" and i: "i < length locs" "i < 26"
    and r: "regs_readable d"
  shows "\<exists>s'. dx_body M d cv rg fb locs (Inr s) = Inr s' \<and> at_op locs (Suc i) s' st' \<and> dx_out s' = dx_out s"
proof -
  have "length st < 511" using a i by (simp add: at_op_def)
  then have "simulates s (dw_effect M d cv rg fb (locs ! i) s) st'"
    using effect_simulates [OF m _ _ r] a by (simp add: at_op_def)
  then obtain cs sp tx where e: "dw_effect M d cv rg fb (locs ! i) s = Inr (cs, sp, dx_out s, tx)" "holds cs sp st'"
    "length tx \<le> 38" by (auto simp: simulates_def)
  have "length (dx_expr s @ tx) < 1024" using a e(3) i by (simp add: at_op_def)
  then show ?thesis
    using a e i meaning_no_jump [OF m] meaning_length [OF m]
    by (simp add: dx_body_def dx_step_def at_op_def ld_next_def Let_def)
qed

lemma start_at: "at_op locs 0 (dx_start locs out) []" "dx_out (dx_start locs out) = out"
  using replicate_Suc [of 511 "0 :: u64"] by (simp_all add: at_op_def dx_start_def holds_def)

lemma prefix_runs:
  assumes "dw_run (regs_of d) pre st = Some st'" "at_op (before @ pre @ post) (length before) s st"
    "length before + length pre \<le> 26" "regs_readable d"
  shows "\<exists>s'. while_option dx_more (dx_body M d cv rg fb (before @ pre @ post)) (Inr s) =
      while_option dx_more (dx_body M d cv rg fb (before @ pre @ post)) (Inr s') \<and>
      at_op (before @ pre @ post) (length (before @ pre)) s' st' \<and> dx_out s' = dx_out s"
  using assms
proof (induction pre arbitrary: before st s)
  case Nil
  then show ?case by auto
next
  case (Cons ld pre)
  obtain st1 where m: "dw_meaning (regs_of d) ld st = Some st1" "dw_run (regs_of d) pre st1 = Some st'"
    using Cons.prems(1) by (auto split: option.splits)
  let ?l = "before @ (ld # pre) @ post"
  obtain s1 where s1: "dx_body M d cv rg fb ?l (Inr s) = Inr s1" "at_op ?l (Suc (length before)) s1 st1" "dx_out s1 = dx_out s"
    using step_runs [of d ?l "length before" st st1 s M cv rg fb] m(1) Cons.prems by auto
  have "dx_more (Inr s)" using Cons.prems(2) by (simp add: dx_more_def at_op_def)
  then have w: "while_option dx_more (dx_body M d cv rg fb ?l) (Inr s) = while_option dx_more (dx_body M d cv rg fb ?l) (Inr s1)"
    using s1(1) by (subst while_option_unfold) simp
  show ?case
    using Cons.IH [of st1 "before @ [ld]" s1] m(2) s1 Cons.prems w by auto
qed

theorem stack_machine:
  assumes "dw_run (regs_of d) pre [] = Some st" "length pre \<le> 26" "regs_readable d"
    and "post = [] \<or> locdesc_op (hd post) = DW_OP_stack_value"
  shows "decode_location_description M d cv rg fb (pre @ post) out =
    Some (Inr (case st of [] \<Rightarrow> 0 | v # _ \<Rightarrow> v, out))"
proof -
  let ?c = "dx_body M d cv rg fb (pre @ post)"
  obtain s where s: "while_option dx_more ?c (Inr (dx_start (pre @ post) out)) = while_option dx_more ?c (Inr s)"
    "at_op (pre @ post) (length pre) s st" "dx_out s = out"
    using prefix_runs [of d pre "[]" st "[]" post "dx_start (pre @ post) out" M cv rg fb] assms(1,2,3) start_at
    by auto
  have "\<exists>s'. while_option dx_more ?c (Inr s) = Some (Inr s') \<and> dx_stack s' = dx_stack s \<and> dx_sp s' = dx_sp s \<and> dx_out s' = out"
  proof (cases post)
    case Nil
    then have "\<not> dx_more (Inr s)" using s(2) by (simp add: dx_more_def at_op_def)
    then show ?thesis using s(3) by (subst while_option_unfold) auto
  next
    case (Cons ld rest)
    then have "dx_more (Inr s)" "?c (Inr s) = Inr (s\<lparr>dx_ld := None\<rparr>)"
      using s(2) assms(4) by (simp_all add: dx_more_def at_op_def dx_body_def dx_step_def Let_def nth_append)
    moreover have "\<not> dx_more (Inr (s\<lparr>dx_ld := None\<rparr>))" by (simp add: dx_more_def)
    ultimately show ?thesis using s(3) by (subst while_option_unfold, subst while_option_unfold) auto
  qed
  moreover have "cell_at (dx_stack s) (dx_sp s) = Inr (case st of [] \<Rightarrow> 0 | v # _ \<Rightarrow> v)"
    using s(2) top_holds [of "dx_stack s" "dx_sp s" st]
    by (cases st) (auto simp: at_op_def holds_def cell_at_def)
  ultimately show ?thesis using s(1) by (auto simp: decode_location_description_def)
qed

section \<open>Jumps\<close>

lemma walk_on_forward: "i < len \<Longrightarrow> walk_on len n (Some i) = Inr (Some j) \<Longrightarrow> j = i + n \<and> j < len"
proof (induction n arbitrary: i)
  case 0
  then show ?case by simp
next
  case (Suc n)
  then show ?case
  proof (cases "Suc i < len")
    case True
    then show ?thesis using Suc.IH [of "Suc i"] Suc.prems by (simp add: ld_next_def)
  next
    case False
    then show ?thesis using Suc.prems by (cases n) (simp_all add: ld_next_def)
  qed
qed

text \<open>A jump to the operation itself, or by 0, to the next one: both stay where they are.\<close>

lemma stuck_runs:
  assumes "dx_step M d cv rg fb locs i s = Inr s" "dx_ld s = Some i"
  shows "while_option dx_more (dx_body M d cv rg fb locs) (Inr s) = None"
proof -
  have m: "dx_more (Inr s)" and b: "dx_body M d cv rg fb locs (Inr s) = Inr s"
    using assms by (simp_all add: dx_more_def dx_body_def)
  have False if w: "while_option dx_more (dx_body M d cv rg fb locs) (Inr s) = Some t" for t
  proof -
    have "t = Inr s" by (rule while_option_rule [OF _ w, where P = "\<lambda>r. r = Inr s"]) (use b in auto)
    with while_option_stop [OF w] m show False by simp
  qed
  then show ?thesis by (cases "while_option dx_more (dx_body M d cv rg fb locs) (Inr s)") auto
qed

lemma dstate_same_ld: "dx_ld s = x \<Longrightarrow> s\<lparr>dx_ld := x\<rparr> = s"
  by (cases s) simp

theorem jump_to_itself:
  assumes "dw_run (regs_of d) pre [] = Some st" "length pre \<le> 26" "regs_readable d"
    and "locdesc_op ld = DW_OP_skip \<or> locdesc_op ld = DW_OP_bra \<and> (\<exists>v r. st = v # r \<and> v \<noteq> 0)"
    and "skip_of ld = 0 \<or> skip_of ld = - 1"
  shows "decode_location_description M d cv rg fb (pre @ ld # post) out = None"
proof -
  let ?l = "pre @ ld # post"
  obtain s where s: "while_option dx_more (dx_body M d cv rg fb ?l) (Inr (dx_start ?l out)) =
      while_option dx_more (dx_body M d cv rg fb ?l) (Inr s)" "at_op ?l (length pre) s st"
    using prefix_runs [of d pre "[]" st "[]" "ld # post" "dx_start ?l out" M cv rg fb] assms(1,2,3) start_at by auto
  have l: "dx_ld s = Some (length pre)" using s(2) by (simp add: at_op_def)
  have j: "dw_jump (length ?l) (skip_of ld) (length pre) = Inr (Some (length pre))"
    using assms(5) by (auto simp: dw_jump_def)
  have "dx_step M d cv rg fb ?l (length pre) s = Inr s"
  proof (cases "locdesc_op ld = DW_OP_skip")
    case True
    then show ?thesis using j dstate_same_ld [OF l] by (simp add: dx_step_def)
  next
    case False
    then obtain v r where v: "locdesc_op ld = DW_OP_bra" "st = v # r" "v \<noteq> 0" using assms(4) by auto
    have "cell_at (dx_stack s) (dx_sp s) = Inr v" using s(2) top_holds [of "dx_stack s" "dx_sp s" st] v by (simp add: at_op_def)
    then show ?thesis using v j dstate_same_ld [OF l] by (simp add: dx_step_def)
  qed
  from stuck_runs [OF this l] s(1) show ?thesis by (simp add: decode_location_description_def)
qed

definition forward_only :: "locdesc list \<Rightarrow> bool" where
  "forward_only locs \<longleftrightarrow> (\<forall>ld \<in> set locs. locdesc_op ld \<in> {DW_OP_skip, DW_OP_bra} \<longrightarrow> 0 < skip_of ld)"

definition ops_left :: "nat \<Rightarrow> dstate run \<Rightarrow> nat" where
  "ops_left len r = (case r of Inl _ \<Rightarrow> 0 | Inr s \<Rightarrow> (case dx_ld s of None \<Rightarrow> 0 | Some i \<Rightarrow> Suc len - i))"

lemma jump_forward:
  assumes "forward_only locs" "i < length locs" "locdesc_op (locs ! i) \<in> {DW_OP_skip, DW_OP_bra}"
    and "dw_jump (length locs) (skip_of (locs ! i)) i = Inr (Some j)"
  shows "i < j \<and> j < length locs"
proof -
  have "0 < skip_of (locs ! i)" using assms(1,2,3) by (auto simp: forward_only_def)
  then show ?thesis
    using walk_on_forward [of i "length locs" "nat (skip_of (locs ! i))" j] assms(2,4) by (simp add: dw_jump_def)
qed

lemma step_forward:
  assumes "forward_only locs" "i < length locs" "dx_step M d cv rg fb locs i s = Inr s'" "dx_ld s' = Some j"
  shows "i < j \<and> j < length locs"
proof -
  consider (jump) "locdesc_op (locs ! i) \<in> {DW_OP_skip, DW_OP_bra} \<and> dw_jump (length locs) (skip_of (locs ! i)) i = Inr (Some j)"
    | (on) "ld_next (length locs) i = Some j"
    using assms(3,4)
    by (auto simp: dx_step_def Let_def bind_run_Inr split: if_splits prod.splits)
  then show ?thesis
  proof cases
    case jump
    then show ?thesis using jump_forward [OF assms(1,2)] by blast
  next
    case on
    then show ?thesis by (auto simp: ld_next_def split: if_splits)
  qed
qed

theorem forward_ends:
  assumes "forward_only locs"
  shows "decode_location_description M d cv rg fb locs out \<noteq> None"
proof -
  let ?P = "\<lambda>r. \<forall>s i. r = Inr s \<longrightarrow> dx_ld s = Some i \<longrightarrow> i < length locs"
  have "\<exists>r. while_option dx_more (dx_body M d cv rg fb locs) (Inr (dx_start locs out)) = Some r"
  proof (rule measure_while_option_Some [where P = ?P and f = "ops_left (length locs)"])
    fix r assume P: "?P r" and m: "dx_more r"
    obtain s i where s: "r = Inr s" "dx_ld s = Some i" "i < length locs"
      using P m by (cases r) (auto simp: dx_more_def)
    have b: "dx_body M d cv rg fb locs r = dx_step M d cv rg fb locs i s" by (simp add: dx_body_def s)
    show "?P (dx_body M d cv rg fb locs r) \<and> ops_left (length locs) (dx_body M d cv rg fb locs r) < ops_left (length locs) r"
    proof (cases "dx_body M d cv rg fb locs r")
      case (Inl a)
      then show ?thesis using s by (simp add: ops_left_def)
    next
      case (Inr s')
      then show ?thesis
        using step_forward [OF assms s(3), of M d cv rg fb s s'] s b [symmetric]
        by (cases "dx_ld s'") (auto simp: ops_left_def Inr)
    qed
  next
    show "?P (Inr (dx_start locs out))" by (auto simp: dx_start_def split: if_splits)
  qed
  then show ?thesis by (auto simp: decode_location_description_def)
qed

text \<open>Copies of a list of descriptions; a description keeps its bounds when it has any.\<close>

definition bounds_cleared :: "locdesc \<Rightarrow> bool" where
  "bounds_cleared ld \<longleftrightarrow> (\<not> locdesc_bounded ld \<longrightarrow> locdesc_lopc ld = 0 \<and> locdesc_hipc ld = 0)"

lemma created_cleared: "bounds_cleared (create_location_description src lo hi oper o1 o2 o3 off)"
  by (simp add: bounds_cleared_def create_location_description_def create_new_locdesc_def)

lemma copy_same: "\<forall>ld \<in> set locs. bounds_cleared ld \<Longrightarrow> copy_locdesc locs = locs"
proof -
  have "copy_one ld = ld" if "bounds_cleared ld" for ld
    using that by (cases ld) (auto simp: copy_one_def create_new_locdesc_def bounds_cleared_def)
  then show "\<forall>ld \<in> set locs. bounds_cleared ld \<Longrightarrow> copy_locdesc locs = locs"
    by (cases locs) (auto simp: copy_locdesc_def map_idI)
qed

lemma created_in_bounds:
  "is_locdesc_in_bounds (create_location_description src lo hi oper o1 o2 o3 off) pc \<longleftrightarrow>
    src = LOCATION_LIST_ENTRY \<longrightarrow> lo \<le> pc \<and> pc < hi"
  by (auto simp: is_locdesc_in_bounds_def create_location_description_def create_new_locdesc_def)

end
