(* ===== verification/Reg.thy ===== *)
theory Reg
  imports Strext Threads
begin

text \<open>
  The registers of a thread as text, \<^verbatim>\<open>source/reg.c\<close>, and the lookup the expression evaluator makes. The
  general purpose registers are read and written through \<^verbatim>\<open>__x[which]\<close> with \<open>which\<close> up to 31: from 29 on
  these are the next members of the structure, \<^verbatim>\<open>__fp\<close>, \<^verbatim>\<open>__lr\<close> and \<^verbatim>\<open>__sp\<close>.
\<close>

section \<open>Reading\<close>

datatype num_type = INTEGER_TYPE | LONG_TYPE

datatype reg_format = DECIMAL | HEXADECIMAL

datatype regtype = NONE | INTEGER | LONG | FLOAT | DOUBLE | QUADWORD

definition num_to_str :: "num_type \<Rightarrow> reg_format \<Rightarrow> u64 \<Rightarrow> string" where
  "num_to_str ty fmt num =
     (case ty of
        INTEGER_TYPE \<Rightarrow> if fmt = DECIMAL then show_dec (sint (ucast num :: u32)) else show_hex (ucast (ucast num :: u32))
      | LONG_TYPE \<Rightarrow> if fmt = DECIMAL then show_dec (sint num) else show_hex num)"

definition clean_reg :: "string \<Rightarrow> cbuf \<Rightarrow> string \<times> cbuf" where
  "clean_reg reg e =
     (let r = (if cchar reg 0 = CHR ''$'' then drop 1 reg else reg)
      in if length r \<le> 1 then (r, concat_c e (''invalid register '' @ quoted r)) else (map tolower r, e))"

definition good_reg :: "char \<Rightarrow> int \<Rightarrow> bool" where
  "good_reg ty num \<longleftrightarrow> 0 \<le> num \<and> num \<le> 31 \<and> ty \<in> set ''qvdsxw''"

definition x_fields :: "thread_state64 \<Rightarrow> u64 list" where
  "x_fields ts = ts_x ts @ [ts_fp ts, ts_lr ts, ts_sp ts]"

definition x_at :: "thread_state64 \<Rightarrow> int \<Rightarrow> u64 run" where
  "x_at ts i = (if nat i < length (x_fields ts) then Inr (x_fields ts ! nat i) else Inl OutOfBounds)"

definition v_at :: "neon_state64 \<Rightarrow> int \<Rightarrow> 128 word run" where
  "v_at ns i = (if nat i < length (ns_v ns) then Inr (ns_v ns ! nat i) else Inl OutOfBounds)"

definition byte2 :: "u8 \<Rightarrow> string" where
  "byte2 b = ''0x'' @ [digit_char (unat (drop_bit 4 b)), digit_char (unat (b AND 0xF))]"

definition bytes_of :: "128 word \<Rightarrow> u8 list" where
  "bytes_of v = map (\<lambda>i. ucast (drop_bit (8 * i) v)) [0..<16]"

definition quad_text :: "128 word \<Rightarrow> string" where
  "quad_text v = CHR 0x7B # concat (map (\<lambda>b. byte2 b @ '' '') (butlast (bytes_of v))) @ byte2 (last (bytes_of v)) @ [CHR 0x7D]"

definition named_reg :: "machthread \<Rightarrow> string \<Rightarrow> (regtype \<times> u64) option" where
  "named_reg t reg =
     (if reg = ''fp'' \<or> reg = ''x29'' then Some (LONG, ts_fp (thread_state t))
      else if reg = ''lr'' \<or> reg = ''x30'' then Some (LONG, ts_lr (thread_state t))
      else if reg = ''sp'' \<or> reg = ''x31'' then Some (LONG, ts_sp (thread_state t))
      else if reg = ''pc'' then Some (LONG, ts_pc (thread_state t))
      else if reg = ''cpsr'' then Some (INTEGER, ucast (ts_cpsr (thread_state t)))
      else if reg = ''fpsr'' then Some (INTEGER, ucast (ns_fpsr (neon_state t)))
      else if reg = ''fpcr'' then Some (INTEGER, ucast (ns_fpcr (neon_state t)))
      else None)"

text \<open>The type, the text of the register and the text of its value; \<open>None\<close> for a name of no register.\<close>

definition numbered_reg :: "machthread \<Rightarrow> reg_format \<Rightarrow> string \<Rightarrow> (regtype \<times> string \<times> string) option run" where
  "numbered_reg t fmt reg =
     (let ty = cchar reg 0; which = sint (ucast (fst (strtol (drop 1 reg) 10)) :: u32);
          num = (\<lambda>rt nt w. let s = num_to_str nt fmt w in Inr (Some (rt, s, s))) in
      if \<not> good_reg ty which then Inr None
      else if ty = CHR ''q'' \<or> ty = CHR ''v'' then
        bind_run (v_at (neon_state t) which) (\<lambda>v.
          Inr (Some (QUADWORD, CHR ''v'' # show_dec which @ '' = '' @ quad_text v, quad_text v)))
      else if ty = CHR ''s'' then bind_run (v_at (neon_state t) which) (\<lambda>v. num FLOAT INTEGER_TYPE (ucast v))
      else if ty = CHR ''d'' then bind_run (v_at (neon_state t) which) (\<lambda>v. num DOUBLE LONG_TYPE (ucast v))
      else if ty = CHR ''w'' then bind_run (x_at (thread_state t) which) (\<lambda>v. num INTEGER INTEGER_TYPE v)
      else bind_run (x_at (thread_state t) which) (\<lambda>v. num LONG LONG_TYPE v))"

definition reg_value :: "machthread \<Rightarrow> reg_format \<Rightarrow> string \<Rightarrow> (regtype \<times> string \<times> string) option run" where
  "reg_value t fmt reg =
     (case named_reg t reg of
        Some (rt, w) \<Rightarrow> (let s = num_to_str (if rt = LONG then LONG_TYPE else INTEGER_TYPE) fmt w in Inr (Some (rt, s, s)))
      | None \<Rightarrow> numbered_reg t fmt reg)"

text \<open>
  The outputs: the type, the text of the register (\<open>None\<close> on an error), the name as it is looked up and the text
  of the value. The states are fetched first.
\<close>

record regout =
  outtype :: regtype
  regstr :: "string option"
  cleanedreg :: "string option"
  valstr :: "string option"

definition no_regout :: regout where
  "no_regout = \<lparr>outtype = NONE, regstr = None, cleanedreg = None, valstr = None\<rparr>"

definition thread_at :: "nat \<Rightarrow> 'k dbg \<Rightarrow> machthread run" where
  "thread_at a d = (case pl_get (threads d) a of None \<Rightarrow> Inl UseAfterFree | Some t \<Rightarrow> Inr t)"

definition regtoa ::
    "'k mach \<Rightarrow> nat \<Rightarrow> reg_format \<Rightarrow> string option \<Rightarrow> cbuf \<Rightarrow> 'k dbg \<Rightarrow> ('k dbg \<times> regout \<times> cbuf) run" where
  "regtoa M a fmt reg e d =
     (case reg of None \<Rightarrow> Inr (d, no_regout, concat_c e ''invalid register'')
      | Some r \<Rightarrow>
          if r = [] then Inr (d, no_regout, concat_c e ''invalid register'')
          else (let (r1, e1) = clean_reg r e in
            if e1 \<noteq> None then Inr (d, no_regout, e1)
            else (let d1 = snd (get_neon_state M (Some a) (snd (get_thread_state M (Some a) d))) in
              bind_run (thread_at a d1) (\<lambda>t. bind_run (reg_value t fmt r1) (\<lambda>v. Inr (case v of
                  None \<Rightarrow> (d1, no_regout\<lparr>cleanedreg := Some r1\<rparr>, concat_c e1 (''invalid register '' @ quoted r1))
                | Some (rt, s, val) \<Rightarrow>
                    (d1, \<lparr>outtype = rt, regstr = Some s, cleanedreg = Some r1, valstr = Some val\<rparr>, e1)))))))"

definition regtol ::
    "'k mach \<Rightarrow> nat \<Rightarrow> reg_format \<Rightarrow> string option \<Rightarrow> cbuf \<Rightarrow> 'k dbg \<Rightarrow> ('k dbg \<times> u64 \<times> regout \<times> cbuf) run" where
  "regtol M a fmt reg e d =
     bind_run (regtoa M a fmt reg e d) (\<lambda>(d1, out, e1).
       Inr (case regstr out of None \<Rightarrow> (d1, LONG_MIN, out, e1)
         | Some str \<Rightarrow>
             if outtype out \<noteq> QUADWORD then
               (let (val, e2) = strtol_err (Some str) e1
                in if e2 \<noteq> None then (d1, LONG_MIN, out, e2) else (d1, val, out, e2))
             else (d1, LONG_MIN, out, e1)))"

section \<open>Writing\<close>

text \<open>
  \<open>to_float\<close> and \<open>to_double\<close> give the bits of \<^verbatim>\<open>strtold\<close>'s result, rounded, and the text it leaves; \<open>minus1\<close> are the
  bits of -1.
\<close>

record fpenv =
  to_float :: "string \<Rightarrow> u32 \<times> string"
  to_double :: "string \<Rightarrow> u64 \<times> string"
  minus1_f :: u32
  minus1_lf :: u64

definition set_x :: "int \<Rightarrow> u64 \<Rightarrow> thread_state64 \<Rightarrow> thread_state64 run" where
  "set_x i v ts =
     (let k = nat i; n = length (ts_x ts) in
      if k < n then Inr (ts\<lparr>ts_x := (ts_x ts)[k := v]\<rparr>)
      else if k = n then Inr (ts\<lparr>ts_fp := v\<rparr>) else if k = n + 1 then Inr (ts\<lparr>ts_lr := v\<rparr>)
      else if k = n + 2 then Inr (ts\<lparr>ts_sp := v\<rparr>) else Inl OutOfBounds)"

definition set_v :: "int \<Rightarrow> 128 word \<Rightarrow> neon_state64 \<Rightarrow> neon_state64 run" where
  "set_v i v ns = (if nat i < length (ns_v ns) then Inr (ns\<lparr>ns_v := (ns_v ns)[nat i := v]\<rparr>) else Inl OutOfBounds)"

text \<open>The bytes are taken from the end; what is left when the spaces have run out is taken again and again.\<close>

definition hex02 :: "u32 \<Rightarrow> string" where
  "hex02 b = (let s = show_base 16 (uint b) in if length s < 2 then CHR ''0'' # s else s)"

fun last_bytes :: "nat \<Rightarrow> string \<Rightarrow> u32 list" where
  "last_bytes 0 val = []"
| "last_bytes (Suc n) val =
     (if CHR '' '' \<in> set val
      then ucast (fst (strtol (rev (takeWhile (\<lambda>c. c \<noteq> CHR '' '') (rev val))) 0))
             # last_bytes n (rev (drop 1 (dropWhile (\<lambda>c. c \<noteq> CHR '' '') (rev val))))
      else ucast (fst (strtol val 0)) # last_bytes n val)"

text \<open>\<^verbatim>\<open>strtoul\<close> of hexadecimal digits.\<close>

definition strtoul16 :: "string \<Rightarrow> u64" where
  "strtoul16 s = (let v = digits_value 16 0 s in if v < 2 ^ 64 then word_of_int v else - 1)"

definition quad_of :: "string \<Rightarrow> 128 word" where
  "quad_of val =
     (let bs = last_bytes 16 val; lo = strtoul16 (concat (map hex02 (take 8 bs))); hi = strtoul16 (concat (map hex02 (drop 8 bs)))
      in ucast hi OR push_bit 64 (ucast lo))"

text \<open>Named registers: the new thread, or an error.\<close>

definition set_named :: "string \<Rightarrow> string \<Rightarrow> machthread \<Rightarrow> (machthread + string) option" where
  "set_named reg val t =
     (let (value_d, e) = strtol_err (Some val) None; ts = thread_state t; ns = neon_state t;
          full = (\<lambda>t'. case e of Some m \<Rightarrow> Some (Inr (''invalid value '' @ quoted m)) | None \<Rightarrow> Some (Inl t'));
          half = (\<lambda>t'. case e of Some m \<Rightarrow> Some (Inr (''invalud value '' @ quoted m)) | None \<Rightarrow> Some (Inl t')) in
      if reg = ''fp'' \<or> reg = ''x29'' then full (t\<lparr>thread_state := ts\<lparr>ts_fp := value_d\<rparr>\<rparr>)
      else if reg = ''lr'' \<or> reg = ''x30'' then full (t\<lparr>thread_state := ts\<lparr>ts_lr := value_d\<rparr>\<rparr>)
      else if reg = ''sp'' \<or> reg = ''x31'' then full (t\<lparr>thread_state := ts\<lparr>ts_sp := value_d\<rparr>\<rparr>)
      else if reg = ''pc'' then full (t\<lparr>thread_state := ts\<lparr>ts_pc := value_d\<rparr>\<rparr>)
      else if reg = ''cpsr'' then half (t\<lparr>thread_state := ts\<lparr>ts_cpsr := ucast value_d\<rparr>\<rparr>)
      else if reg = ''fpsr'' then half (t\<lparr>neon_state := ns\<lparr>ns_fpsr := ucast value_d\<rparr>\<rparr>)
      else if reg = ''fpcr'' then half (t\<lparr>neon_state := ns\<lparr>ns_fpcr := ucast value_d\<rparr>\<rparr>)
      else None)"

text \<open>
  Numbered registers. A value written to a \<^verbatim>\<open>w\<close> register is an \<^verbatim>\<open>int\<close>, and is or-ed into the upper half too when it is
  negative; one written to \<^verbatim>\<open>d\<close> or \<^verbatim>\<open>s\<close> is extended with its sign to 128 bits.
\<close>

definition set_quad :: "int \<Rightarrow> string \<Rightarrow> machthread \<Rightarrow> (machthread + string) run" where
  "set_quad which val t =
     (if cchar val 0 \<noteq> CHR 0x7B \<or> last val \<noteq> CHR 0x7D \<or> length val = 2 then Inr (Inr (''bad value '' @ quoted val))
      else bind_run (set_v which (quad_of (drop 1 (butlast val))) (neon_state t)) (\<lambda>ns. Inr (Inl (t\<lparr>neon_state := ns\<rparr>))))"

definition set_gpr :: "char \<Rightarrow> int \<Rightarrow> u64 \<Rightarrow> machthread \<Rightarrow> machthread run" where
  "set_gpr ty which value_ld t =
     bind_run (x_at (thread_state t) which) (\<lambda>old.
     bind_run (set_x which (if ty = CHR ''x'' then value_ld
         else (old AND NOT 0xFFFFFFFF) OR scast (ucast value_ld :: u32)) (thread_state t)) (\<lambda>ts.
       Inr (t\<lparr>thread_state := ts\<rparr>)))"

definition set_numbered :: "fpenv \<Rightarrow> string \<Rightarrow> string \<Rightarrow> machthread \<Rightarrow> (machthread + string) run" where
  "set_numbered F reg val t =
     (let ty = cchar reg 0; (w, e) = strtol_err (Some (drop 1 reg)) None; which = sint (ucast w :: u32);
          (value_ld, e_ld) = strtol_err (Some val) None;
          (value_f, e_f) = strtold_err (to_float F) (minus1_f F) (Some val) None;
          (value_lf, e_lf) = strtold_err (to_double F) (minus1_lf F) (Some val) None in
      case e of Some m \<Rightarrow> Inr (Inr m)
      | None \<Rightarrow>
          if \<not> good_reg ty which then Inr (Inr (''invalid register '' @ quoted reg))
          else if ty = CHR ''x'' \<or> ty = CHR ''w'' then
            (case e_ld of Some m \<Rightarrow> Inr (Inr m)
             | None \<Rightarrow> bind_run (set_gpr ty which value_ld t) (\<lambda>t'. Inr (Inl t')))
          else if ty = CHR ''q'' \<or> ty = CHR ''v'' then set_quad which val t
          else if e_f \<noteq> None \<and> e_lf \<noteq> None then Inr (Inr (the e_f))
          else bind_run (set_v which (if ty = CHR ''d'' then scast value_lf else scast value_f) (neon_state t)) (\<lambda>ns.
                 Inr (Inl (t\<lparr>neon_state := ns\<rparr>))))"

definition setreg ::
    "'k mach \<Rightarrow> fpenv \<Rightarrow> nat \<Rightarrow> string option \<Rightarrow> string option \<Rightarrow> cbuf \<Rightarrow> 'k dbg \<Rightarrow> ('k dbg \<times> cbuf) run" where
  "setreg M F a reg val e d =
     (if reg = None \<or> reg = Some [] then Inr (d, concat_c e ''invalid register'')
      else if val = None \<or> val = Some [] then Inr (d, concat_c e ''invalid value'')
      else (let (r, e1) = clean_reg (the reg) e; v = the val in
        if e1 \<noteq> None then Inr (d, e1)
        else bind_run (thread_at a d) (\<lambda>t.
          bind_run (case set_named r v t of Some res \<Rightarrow> Inr res | None \<Rightarrow> set_numbered F r v t) (\<lambda>res. case res of
              Inr m \<Rightarrow> Inr (d, concat_c e1 m)
            | Inl t' \<Rightarrow> Inr (snd (set_neon_state M (Some a) (snd (set_thread_state M (Some a) (upd_thread a (\<lambda>_. t') d)))), e1)))))"

end
