(* ===== verification/RegProof.thy ===== *)
theory RegProof
  imports Reg Sample
begin

section \<open>The bytes of a vector register\<close>

definition hi4 :: "u8 \<Rightarrow> nat" where "hi4 b = unat (drop_bit 4 b)"
definition lo4 :: "u8 \<Rightarrow> nat" where "lo4 b = unat (b AND 0xF)"

lemma nibbles: "hi4 b < 16" "lo4 b < 16" "unat b = 16 * hi4 b + lo4 b"
proof -
  have "int (unat b) < 256" using uint_bounded [of b] by simp
  then have b: "unat b < 256" by linarith
  have h: "hi4 b = unat b div 16" by (simp add: hi4_def unat_drop_bit_eq drop_bit_eq_div unat_div)
  have "b AND 0xF = take_bit 4 b" by (simp add: take_bit_eq_mask mask_eq_exp_minus_1)
  then have l: "lo4 b = unat b mod 16" by (simp only: lo4_def unsigned_take_bit_eq) (simp add: take_bit_eq_mod)
  show "hi4 b < 16" "lo4 b < 16" "unat b = 16 * hi4 b + lo4 b" using b by (simp_all add: h l)
qed

lemma byte2_digits: "byte2 b = ''0x'' @ [digit_char (hi4 b), digit_char (lo4 b)]"
  by (simp add: byte2_def hi4_def lo4_def)

lemma no_space: "d < 16 \<Longrightarrow> digit_char d \<noteq> CHR '' ''"
  using digit_char_base_digit [of d 16] by (auto simp: is_base_digit_def digit_val_def isdigit_def isalpha_def tolower_def)

lemma byte2_read: "strtol (byte2 b) 0 = (ucast b, [])"
proof -
  let ?ds = "[digit_char (hi4 b), digit_char (lo4 b)]"
  note d = digit_chars [OF nibbles(1) [of b]] digit_chars [OF nibbles(2) [of b]]
  have g: "is_base_digit 16 (digit_char (hi4 b))" "is_base_digit 16 (digit_char (lo4 b))"
    using nibbles [of b] by (simp_all add: digit_char_base_digit)
  have h: "has_0x (''0x'' @ ?ds)" using d by (simp add: has_0x_def)
  have s: "dropWhile isspace (''0x'' @ ?ds) = ''0x'' @ ?ds" by (simp add: isspace_def)
  have n: "strtol_sign (''0x'' @ ?ds) = (False, ''0x'' @ ?ds)" by (simp add: strtol_sign_def)
  have v: "digits_value 16 0 ?ds = int (unat b)" using d nibbles(3) [of b] by simp
  have "int (unat b) < 256" using uint_bounded [of b] by simp
  moreover have "- 9223372036854775808 \<le> uint b" by (rule order.trans [of _ 0]) simp_all
  ultimately have w: "saturate (int (unat b)) = ucast b" by (simp add: saturate_def)
  show ?thesis
    unfolding byte2_digits strtol_def s n using h g v w by (simp add: strtol_base_def Let_def)
qed

lemma byte2_no_space: "CHR '' '' \<notin> set (byte2 b)"
  using no_space [OF nibbles(1) [of b]] no_space [OF nibbles(2) [of b]] by (auto simp: byte2_digits)

lemma hex02_digits: "hex02 (ucast (b :: u8)) = [digit_char (hi4 b), digit_char (lo4 b)]"
proof -
  have u: "uint (ucast b :: u32) = int (unat b)" 
  proof -
    have "uint b < 2 ^ 32" using uint_bounded [of b] by simp
    then show ?thesis by (simp add: unsigned_ucast_eq take_bit_int_eq_self)
  qed
  have n: "int (unat b) = 16 * int (hi4 b) + int (lo4 b)" using nibbles(3) [of b] by simp
  have l: "int (lo4 b) < 16" "int (hi4 b) < 16" using nibbles [of b] by simp_all
  show ?thesis
  proof (cases "hi4 b = 0")
    case True
    then have "show_base 16 (uint (ucast b :: u32)) = [digit_char (lo4 b)]"
      unfolding u n using l by (simp add: show_base.simps)
    moreover have "digit_char 0 = CHR ''0''" by code_simp
    ultimately show ?thesis using True by (simp add: hex02_def)
  next
    case False
    have q: "(16 * int (hi4 b) + int (lo4 b)) div 16 = int (hi4 b)" "(16 * int (hi4 b) + int (lo4 b)) mod 16 = int (lo4 b)"
      using l by simp_all
    have "show_base 16 (16 * int (hi4 b) + int (lo4 b)) = [digit_char (hi4 b), digit_char (lo4 b)]"
      using False l q by (subst show_base.simps) (simp add: show_base.simps [of 16 "int (hi4 b)"])
    then show ?thesis unfolding hex02_def u n by simp
  qed
qed

lemma hex02_value: "digits_value 16 acc (hex02 (ucast (b :: u8))) = acc * 256 + int (unat b)"
  using digit_chars [OF nibbles(1) [of b]] digit_chars [OF nibbles(2) [of b]] nibbles(3) [of b]
  by (simp add: hex02_digits)

definition spaced :: "u8 list \<Rightarrow> string" where
  "spaced bs = concat (map (\<lambda>b. byte2 b @ '' '') (butlast bs)) @ byte2 (last bs)"

lemma spaced_snoc: "bs \<noteq> [] \<Longrightarrow> spaced (bs @ [b]) = spaced bs @ '' '' @ byte2 b"
  by (cases bs rule: rev_exhaust) (simp_all add: spaced_def butlast_append)

lemma byte_casts: "(ucast (ucast (b :: u8) :: u64) :: u32) = ucast b"
  by (rule bit_word_eqI) (auto simp: bit_ucast_iff dest: bit_imp_le_length)

lemma last_word:
  assumes "CHR '' '' \<notin> set w"
  shows "rev (takeWhile (\<lambda>c. c \<noteq> CHR '' '') (rev (xs @ '' '' @ w))) = w"
    "rev (drop 1 (dropWhile (\<lambda>c. c \<noteq> CHR '' '') (rev (xs @ '' '' @ w)))) = xs"
proof -
  have "\<forall>c \<in> set (rev w). c \<noteq> CHR '' ''" using assms by auto
  from takeWhile_all_append [OF this, of "CHR '' '' # rev xs"]
  show "rev (takeWhile (\<lambda>c. c \<noteq> CHR '' '') (rev (xs @ '' '' @ w))) = w"
    "rev (drop 1 (dropWhile (\<lambda>c. c \<noteq> CHR '' '') (rev (xs @ '' '' @ w)))) = xs" by simp_all
qed

lemma last_bytes_spaced: "bs \<noteq> [] \<Longrightarrow> last_bytes (length bs) (spaced bs) = rev (map ucast bs)"
proof (induction bs rule: rev_induct)
  case Nil
  then show ?case by simp
next
  case (snoc b bs)
  show ?case
  proof (cases "bs = []")
    case True
    then show ?thesis using byte2_no_space [of b] by (simp add: spaced_def byte2_read byte_casts)
  next
    case False
    note w = last_word [OF byte2_no_space [of b], of "spaced bs"]
    have "CHR '' '' \<in> set (spaced bs @ '' '' @ byte2 b)" by simp
    then have "last_bytes (Suc (length bs)) (spaced bs @ '' '' @ byte2 b) = ucast (fst (strtol (byte2 b) 0)) # last_bytes (length bs) (spaced bs)"
      by (simp only: last_bytes.simps w if_True)
    then show ?thesis using snoc.IH [OF False] False by (simp add: spaced_snoc byte2_read byte_casts)
  qed
qed

fun bytes_value :: "u8 list \<Rightarrow> int" where
  "bytes_value [] = 0"
| "bytes_value (b # bs) = int (unat b) + 256 * bytes_value bs"

lemma bytes_value_bounds: "0 \<le> bytes_value bs \<and> bytes_value bs < 256 ^ length bs"
proof (induction bs)
  case (Cons b bs)
  have "int (unat b) < 256" "0 \<le> int (unat b)" using uint_bounded [of b] by simp_all
  moreover have "256 * bytes_value bs + 256 \<le> 256 * 256 ^ length bs" using Cons by linarith
  ultimately show ?case using Cons by simp
qed simp

lemma bytes_value_digits:
  "digits_value 16 acc (concat (map hex02 (rev (map ucast (bs :: u8 list))))) = acc * 256 ^ length bs + bytes_value bs"
  by (induction bs arbitrary: acc) (simp_all add: digits_value_append hex02_value algebra_simps)

lemma bytes_value_number: "number_le bs = word_of_int (bytes_value bs)"
proof (induction bs)
  case (Cons b bs)
  have "(ucast b :: u64) OR push_bit 8 (number_le bs) = ucast b + push_bit 8 (number_le bs)"
    by (rule disjunctive_add_eq_or [symmetric], rule bit_word_eqI)
       (auto simp: bit_and_iff bit_ucast_iff bit_push_bit_iff dest: bit_imp_le_length)
  also have "\<dots> = word_of_int (int (unat b)) + 256 * number_le bs" by (simp add: push_bit_eq_mult)
  finally show ?case using Cons by simp
qed simp

lemma strtoul16_bytes:
  assumes "length bs \<le> 8"
  shows "strtoul16 (concat (map hex02 (rev (map ucast (bs :: u8 list))))) = number_le bs"
proof -
  have "(256 :: int) ^ length bs \<le> 256 ^ 8" by (rule power_increasing [OF assms]) simp
  then have "bytes_value bs < 2 ^ 64" using bytes_value_bounds [of bs] by simp
  then show ?thesis
    using bytes_value_digits [of 0 bs] by (simp add: strtoul16_def bytes_value_number)
qed

lemma bit_bytes_of: "i < 16 \<Longrightarrow> bit (bytes_of v ! i) n \<longleftrightarrow> n < 8 \<and> bit v (8 * i + n)"
  by (simp add: bytes_of_def bit_ucast_iff bit_drop_bit_eq)

theorem quad_text_read: "quad_of (spaced (bytes_of v)) = v"
proof -
  let ?bs = "bytes_of v"
  have l: "length ?bs = 16" by (simp add: bytes_of_def)
  then have "?bs \<noteq> []" by auto
  from last_bytes_spaced [OF this] l have b: "last_bytes 16 (spaced ?bs) = rev (map ucast ?bs)" by simp
  have t: "take 8 (rev (map ucast ?bs :: u32 list)) = rev (map ucast (drop 8 ?bs))"
    "drop 8 (rev (map ucast ?bs :: u32 list)) = rev (map ucast (take 8 ?bs))"
    by (simp_all add: take_rev drop_rev l drop_map take_map)
  have q: "quad_of (spaced ?bs) = ucast (number_le (take 8 ?bs)) OR push_bit 64 (ucast (number_le (drop 8 ?bs)))"
    using strtoul16_bytes [of "drop 8 ?bs"] strtoul16_bytes [of "take 8 ?bs"] l
    by (simp only: quad_of_def b t Let_def) simp
  show ?thesis
  proof (rule bit_word_eqI)
    fix n assume n: "n < LENGTH(128)"
    have e: "8 * (n div 8) + n mod 8 = n" by simp
    show "bit (quad_of (spaced ?bs)) n = bit v n"
    proof (cases "n < 64")
      case True
      then have "n div 8 < 8" by simp
      then show ?thesis using True l e bit_bytes_of [of "n div 8" v "n mod 8"]
        by (simp add: q bit_or_iff bit_push_bit_iff bit_ucast_iff bit_number_le)
    next
      case False
      then obtain m where m: "n = m + 64" using le_Suc_ex [of 64 n] by (auto simp: add.commute)
      then have "8 + m div 8 < 16" using n by simp
      moreover have "8 * (8 + m div 8) + m mod 8 = n" using m by simp
      ultimately show ?thesis using m n l bit_bytes_of [of "8 + m div 8" v "m mod 8"]
        by (simp add: q bit_or_iff bit_push_bit_iff bit_ucast_iff bit_number_le)
    qed
  qed
qed

section \<open>Writing and reading\<close>

text \<open>A kernel that gives the states it was given, those of vectors apart from the others.\<close>

definition states_kept :: "'k mach \<Rightarrow> bool" where
  "states_kept M \<longleftrightarrow>
     (\<forall>k p s. \<exists>k'. thread_set_state M k p s = (KERN_SUCCESS, k') \<and> thread_get_state M k' p = Inr s) \<and>
     (\<forall>k p s. \<exists>k'. neon_set_state M k p s = (KERN_SUCCESS, k') \<and> neon_get_state M k' p = Inr s \<and>
        (\<forall>q. thread_get_state M k' q = thread_get_state M k q))"

definition set_result :: "fpenv \<Rightarrow> string \<Rightarrow> string \<Rightarrow> machthread \<Rightarrow> (machthread + string) run" where
  "set_result F r v t = (case set_named r v t of Some res \<Rightarrow> Inr res | None \<Rightarrow> set_numbered F r v t)"

lemma pl_get_updated: "pl_get xs a = Some x \<Longrightarrow> pl_get (pl_update a f xs) a = Some (f x)"
  by (induction xs) (auto simp: pl_get_def)

lemma write_then_read:
  assumes K: "states_kept M" and t: "pl_get (threads d) a = Some t"
    and c: "clean_reg reg None = (r, None)" "reg \<noteq> []" "val \<noteq> []"
    and s: "set_result F r val t = Inr (Inl t')" "port t' = port t"
    and c2: "clean_reg reg2 None = (r2, None)" "reg2 \<noteq> []" and v: "reg_value t' fmt r2 = Inr (Some (rt, tx, vl))"
  shows "\<exists>d'. setreg M F a (Some reg) (Some val) None d = Inr (d', None) \<and>
    (\<exists>d''. regtoa M a fmt (Some reg2) None d' =
      Inr (d'', \<lparr>outtype = rt, regstr = Some tx, cleanedreg = Some r2, valstr = Some vl\<rparr>, None))"
proof -
  define d0 where "d0 = upd_thread a (\<lambda>_. t') d"
  have g0: "pl_get (threads d0) a = Some t'" using pl_get_updated [OF t, of "\<lambda>_. t'"] by (simp add: d0_def upd_thread_def)
  obtain k1 where k1: "thread_set_state M (kern d0) (port t') (thread_state t') = (KERN_SUCCESS, k1)"
    "thread_get_state M k1 (port t') = Inr (thread_state t')" using K unfolding states_kept_def by blast
  obtain k2 where k2: "neon_set_state M k1 (port t') (neon_state t') = (KERN_SUCCESS, k2)"
    "neon_get_state M k2 (port t') = Inr (neon_state t')" "thread_get_state M k2 (port t') = Inr (thread_state t')"
    using K k1(2) unfolding states_kept_def by metis
  define d' where "d' = d0\<lparr>kern := k2\<rparr>"
  have w: "setreg M F a (Some reg) (Some val) None d = Inr (d', None)"
    using c t s(1) k1(1) k2(1) g0
    by (simp add: setreg_def thread_at_def set_result_def set_thread_state_def set_neon_state_def set_state_def
        store_thread_def store_neon_def d'_def flip: d0_def)
  have g1: "pl_get (threads d') a = Some t'" using g0 by (simp add: d'_def)
  have "\<exists>d''. snd (get_neon_state M (Some a) (snd (get_thread_state M (Some a) d'))) = d'' \<and> pl_get (threads d'') a = Some t'"
  proof -
    have f: "fetch_thread M k2 t' = (KERN_SUCCESS, t')" "fetch_neon M k2 t' = (KERN_SUCCESS, t')"
      using k2(2,3) by (simp_all add: fetch_thread_def fetch_neon_def)
    have "snd (get_thread_state M (Some a) d') = upd_thread a (\<lambda>_. t') d'" using f g1 by (simp add: get_thread_state_def get_state_def d'_def)
    moreover have "pl_get (threads (upd_thread a (\<lambda>_. t') d')) a = Some t'"
      using pl_get_updated [OF g1, of "\<lambda>_. t'"] by (simp add: upd_thread_def)
    moreover have "kern (upd_thread a (\<lambda>_. t') d') = k2" by (simp add: upd_thread_def d'_def)
    ultimately show ?thesis
      using f pl_get_updated [of "threads (upd_thread a (\<lambda>_. t') d')" a t' "\<lambda>_. t'"]
      by (simp add: get_neon_state_def get_state_def) (simp add: upd_thread_def)
  qed
  then obtain d'' where r: "snd (get_neon_state M (Some a) (snd (get_thread_state M (Some a) d'))) = d''" "pl_get (threads d'') a = Some t'"
    by blast
  have "regtoa M a fmt (Some reg2) None d' =
      Inr (d'', \<lparr>outtype = rt, regstr = Some tx, cleanedreg = Some r2, valstr = Some vl\<rparr>, None)"
    using c2 r v by (simp add: regtoa_def thread_at_def)
  with w show ?thesis by blast
qed

lemma clean_reg_plain:
  assumes "r = c # rest" "rest \<noteq> []" "\<forall>x \<in> set r. tolower x = x" "c \<noteq> CHR ''$''"
  shows "clean_reg r None = (r, None)" "clean_reg (CHR ''$'' # r) None = (r, None)"
proof -
  have "map tolower r = r" using assms(3) by (simp add: map_idI)
  then show "clean_reg r None = (r, None)" "clean_reg (CHR ''$'' # r) None = (r, None)"
    using assms(1,2,4) by (simp_all add: clean_reg_def cchar_def)
qed

text \<open>The numbered registers: \<open>c\<close> followed by a number.\<close>

lemma reg_number:
  assumes "0 \<le> n" "n < 32"
  shows "sint (ucast (fst (strtol (show_dec n) 10)) :: u32) = n" "strtol_err (Some (show_dec n)) None = (word_of_int n, None)"
    "sint (ucast (word_of_int n :: u64) :: u32) = n" "show_dec n \<noteq> []" "\<forall>x \<in> set (show_dec n). tolower x = x"
proof -
  have r: "- (2 ^ 63) \<le> n" "n < 2 ^ 63" using assms by simp_all
  note t = strtol_show_dec [OF r]
  have "(ucast (word_of_int n :: u64) :: u32) = word_of_int n"
    by (rule bit_word_eqI) (simp add: bit_ucast_iff bit_word_of_int_iff)
  moreover have "sint (word_of_int n :: u32) = n" using assms by (simp add: signed_of_int signed_take_bit_int_eq_self)
  ultimately show s: "sint (ucast (word_of_int n :: u64) :: u32) = n" by simp
  then show "sint (ucast (fst (strtol (show_dec n) 10)) :: u32) = n" using t [of 10] by simp
  show "strtol_err (Some (show_dec n)) None = (word_of_int n, None)" using t [of 0] by (simp add: strtol_err_def)
  have ds: "show_base 10 n \<noteq> []" "\<forall>c \<in> set (show_base 10 n). \<exists>k < 10. c = digit_char k"
    using show_base_digits [of 10 n] assms by auto
  then show "show_dec n \<noteq> []" using assms by (simp add: show_dec_def)
  have "tolower (digit_char k) = digit_char k" if "k < 10" for k
    using digit_chars [of k] that by (auto simp: tolower_def isdigit_def)
  then show "\<forall>x \<in> set (show_dec n). tolower x = x" using ds assms by (auto simp: show_dec_def)
qed

lemma not_named:
  assumes "c \<in> set ''vqdsw''" "r \<noteq> []" "\<forall>x \<in> set r. isdigit x"
  shows "set_named (c # r) val t = None" "named_reg t (c # r) = None"
proof -
  obtain d q where r: "r = d # q" "isdigit d" using assms(2,3) by (cases r) auto
  have "c # r \<noteq> ''fp''" "c # r \<noteq> ''x29''" "c # r \<noteq> ''lr''" "c # r \<noteq> ''x30''" "c # r \<noteq> ''sp''" "c # r \<noteq> ''x31''" "c # r \<noteq> ''pc''"
    "c # r \<noteq> ''cpsr''" "c # r \<noteq> ''fpsr''" "c # r \<noteq> ''fpcr''"
    using assms(1) r(2) unfolding r(1) by (auto simp: isdigit_def)
  then show "set_named (c # r) val t = None" "named_reg t (c # r) = None"
    by (simp_all only: set_named_def named_reg_def Let_def prod.case_eq_if if_False simp_thms)
qed

lemma number_digits: "0 \<le> n \<Longrightarrow> \<forall>x \<in> set (show_dec n). isdigit x"
  using show_base_digits [of 10 n] digit_chars by (fastforce simp: show_dec_def)

lemma x_not_named:
  assumes "0 \<le> n" "n < 29"
  shows "set_named (CHR ''x'' # show_dec n) val t = None" "named_reg t (CHR ''x'' # show_dec n) = None"
proof -
  let ?v = "\<lambda>s. sint (ucast (fst (strtol s 10)) :: u32)"
  have e: "?v ''29'' = 29" "?v ''30'' = 30" "?v ''31'' = 31" by code_simp+
  have "?v (show_dec n) = n" using reg_number(1) [of n] assms by simp
  then have "show_dec n \<noteq> ''29''" "show_dec n \<noteq> ''30''" "show_dec n \<noteq> ''31''" using e assms(2) by auto
  then have "CHR ''x'' # show_dec n \<notin> {''fp'', ''x29'', ''lr'', ''x30'', ''sp'', ''x31'', ''pc'', ''cpsr'', ''fpsr'', ''fpcr''}"
    by auto
  then show "set_named (CHR ''x'' # show_dec n) val t = None" "named_reg t (CHR ''x'' # show_dec n) = None"
    by (simp_all only: insert_iff empty_iff de_Morgan_disj set_named_def named_reg_def Let_def prod.case_eq_if if_False simp_thms)
qed

lemma good_number: "0 \<le> n \<Longrightarrow> n < 32 \<Longrightarrow> c \<in> set ''qvdsxw'' \<Longrightarrow> good_reg c n"
  by (auto simp: good_reg_def)

lemma cchar_Cons0: "cchar (c # r) 0 = c"
  by (simp add: cchar_def)

lemma value_read: "strtol_err (Some (show_dec (sint (v :: u64)))) None = (v, None)"
proof -
  have "- (2 ^ 63) \<le> sint v" "sint v < 2 ^ 63" using sint_range_size [of v] by (simp_all add: word_size)
  from strtol_show_dec [OF this, of 0] show ?thesis by (simp add: strtol_err_def)
qed

lemma set_x_register:
  assumes "0 \<le> n" "n < 29" "length (ts_x (thread_state t)) = 29"
  shows "set_result F (CHR ''x'' # show_dec n) (show_dec (sint v)) t =
    Inr (Inl (t\<lparr>thread_state := (thread_state t)\<lparr>ts_x := (ts_x (thread_state t))[nat n := v]\<rparr>\<rparr>))"
proof -
  have n: "n < 32" "nat n < 29" using assms by simp_all
  note r = reg_number [OF assms(1) n(1)]
  have g: "good_reg CHR ''x'' n" using good_number [OF assms(1) n(1)] by simp
  have x: "x_at (thread_state t) n = Inr (x_fields (thread_state t) ! nat n)" using n assms(3) by (simp add: x_at_def x_fields_def)
  show ?thesis
    unfolding set_result_def x_not_named [OF assms(1,2)] set_numbered_def
    using r g x n assms(3) value_read [of v]
    by (simp add: cchar_Cons0 Let_def split_beta set_gpr_def set_x_def)
qed

lemma read_x_register:
  assumes "0 \<le> n" "n < 29" "length (ts_x (thread_state t)) = 29"
  shows "reg_value t HEXADECIMAL (CHR ''x'' # show_dec n) =
    Inr (Some (LONG, show_hex (ts_x (thread_state t) ! nat n), show_hex (ts_x (thread_state t) ! nat n)))"
proof -
  have n: "n < 32" "nat n < 29" using assms by simp_all
  note r = reg_number [OF assms(1) n(1)]
  have g: "good_reg CHR ''x'' n" using good_number [OF assms(1) n(1)] by simp
  have x: "x_at (thread_state t) n = Inr (ts_x (thread_state t) ! nat n)"
    using n assms(3) by (simp add: x_at_def x_fields_def nth_append)
  show ?thesis
    unfolding reg_value_def x_not_named [OF assms(1,2)] numbered_reg_def
    using r(1) g x by (simp add: cchar_Cons0 Let_def num_to_str_def)
qed

text \<open>A general purpose register reads back what was written to it, as text; as a number it stops at the largest \<^verbatim>\<open>long\<close>.\<close>

lemma x_register_written:
  assumes "states_kept M" "pl_get (threads d) a = Some t" "length (ts_x (thread_state t)) = 29" "0 \<le> n" "n < 29"
  shows "\<exists>d' d''. setreg M F a (Some (CHR ''x'' # show_dec n)) (Some (show_dec (sint v))) None d = Inr (d', None) \<and>
    regtol M a HEXADECIMAL (Some (CHR ''$'' # CHR ''x'' # show_dec n)) None d' =
      Inr (d'', saturate (uint v), \<lparr>outtype = LONG, regstr = Some (show_hex v), cleanedreg = Some (CHR ''x'' # show_dec n),
        valstr = Some (show_hex v)\<rparr>, None)"
proof -
  define t' where "t' = t\<lparr>thread_state := (thread_state t)\<lparr>ts_x := (ts_x (thread_state t))[nat n := v]\<rparr>\<rparr>"
  have n: "n < 32" using assms by simp
  note r = reg_number [OF assms(4) n]
  have lw: "\<forall>x \<in> set (CHR ''x'' # show_dec n). tolower x = x" using r(5) by (simp add: tolower_def)
  note cl = clean_reg_plain [OF refl r(4) lw]
  have vn: "show_dec (sint v) \<noteq> []" using show_base_digits [of 10 "\<bar>sint v\<bar>"] by (auto simp: show_dec_def)
  have rv: "reg_value t' HEXADECIMAL (CHR ''x'' # show_dec n) = Inr (Some (LONG, show_hex v, show_hex v))"
    using read_x_register [of n t'] assms(3,4,5) by (simp add: t'_def)
  have sr: "set_result F (CHR ''x'' # show_dec n) (show_dec (sint v)) t = Inr (Inl t')"
    unfolding t'_def by (rule set_x_register [OF assms(4,5,3)])
  have p: "port t' = port t" by (simp add: t'_def)
  have c: "CHR ''x'' \<noteq> CHR ''$''" by simp
  from write_then_read [OF assms(1,2) cl(1) [OF c] _ vn sr p cl(2) [OF c] _ rv]
  obtain d' d'' where w: "setreg M F a (Some (CHR ''x'' # show_dec n)) (Some (show_dec (sint v))) None d = Inr (d', None)"
    "regtoa M a HEXADECIMAL (Some (CHR ''$'' # CHR ''x'' # show_dec n)) None d' =
      Inr (d'', \<lparr>outtype = LONG, regstr = Some (show_hex v), cleanedreg = Some (CHR ''x'' # show_dec n), valstr = Some (show_hex v)\<rparr>, None)"
    by auto
  have "strtol_err (Some (show_hex v)) None = (saturate (uint v), None)" by (simp add: strtol_err_def strtol_show_hex)
  with w show ?thesis by (auto simp: regtol_def)
qed

lemma quad_text_spaced: "quad_text v = CHR 0x7B # spaced (bytes_of v) @ [CHR 0x7D]"
  by (simp add: quad_text_def spaced_def)

lemma set_v_register:
  assumes "0 \<le> n" "n < 32" "length (ns_v (neon_state t)) = 32"
  shows "set_result F (CHR ''v'' # show_dec n) (quad_text v) t =
    Inr (Inl (t\<lparr>neon_state := (neon_state t)\<lparr>ns_v := (ns_v (neon_state t))[nat n := v]\<rparr>\<rparr>))"
proof -
  note r = reg_number [OF assms(1,2)]
  have nn: "set_named (CHR ''v'' # show_dec n) (quad_text v) t = None"
    by (rule not_named) (use r(4) number_digits [OF assms(1)] in simp_all)
  have g: "good_reg CHR ''v'' n" using good_number [OF assms(1,2)] by simp
  have b: "spaced (bytes_of v) \<noteq> []" by (simp add: spaced_def byte2_def)
  have q: "cchar (quad_text v) 0 = CHR 0x7B" "last (quad_text v) = CHR 0x7D" "length (quad_text v) \<noteq> 2"
    "drop 1 (butlast (quad_text v)) = spaced (bytes_of v)"
    using b by (simp_all add: quad_text_spaced cchar_def butlast_append)
  show ?thesis
    unfolding set_result_def nn set_numbered_def
    using r g assms q
    by (simp add: cchar_Cons0 Let_def split_beta set_quad_def set_v_def quad_text_read)
qed

text \<open>The text shown for a vector register, written back, gives the register that was shown.\<close>

lemma v_register_written:
  assumes "states_kept M" "pl_get (threads d) a = Some t" "length (ns_v (neon_state t)) = 32" "0 \<le> n" "n < 32"
  shows "\<exists>d' d''. setreg M F a (Some (CHR ''v'' # show_dec n)) (Some (quad_text v)) None d = Inr (d', None) \<and>
    regtol M a HEXADECIMAL (Some (CHR ''v'' # show_dec n)) None d' =
      Inr (d'', LONG_MIN, \<lparr>outtype = QUADWORD, regstr = Some (CHR ''v'' # show_dec n @ '' = '' @ quad_text v),
        cleanedreg = Some (CHR ''v'' # show_dec n), valstr = Some (quad_text v)\<rparr>, None)"
proof -
  define t' where "t' = t\<lparr>neon_state := (neon_state t)\<lparr>ns_v := (ns_v (neon_state t))[nat n := v]\<rparr>\<rparr>"
  note r = reg_number [OF assms(4,5)]
  have lw: "\<forall>x \<in> set (CHR ''v'' # show_dec n). tolower x = x" using r(5) by (simp add: tolower_def)
  note cl = clean_reg_plain [OF refl r(4) lw]
  have vn: "quad_text v \<noteq> []" by (simp add: quad_text_def)
  have nn: "named_reg t' (CHR ''v'' # show_dec n) = None"
    by (rule not_named) (use r(4) number_digits [OF assms(4)] in simp_all)
  have rv: "reg_value t' HEXADECIMAL (CHR ''v'' # show_dec n) =
      Inr (Some (QUADWORD, CHR ''v'' # show_dec n @ '' = '' @ quad_text v, quad_text v))"
    unfolding reg_value_def nn numbered_reg_def
    using r(1) good_number [OF assms(4,5), of "CHR ''v''"] assms(3,4,5) by (simp add: cchar_Cons0 Let_def v_at_def t'_def)
  have sr: "set_result F (CHR ''v'' # show_dec n) (quad_text v) t = Inr (Inl t')"
    unfolding t'_def by (rule set_v_register [OF assms(4,5,3)])
  have p: "port t' = port t" by (simp add: t'_def)
  have c: "CHR ''v'' \<noteq> CHR ''$''" by simp
  from write_then_read [OF assms(1,2) cl(1) [OF c] _ vn sr p cl(1) [OF c] _ rv]
  show ?thesis by (auto simp: regtol_def)
qed

text \<open>Writing a \<^verbatim>\<open>w\<close> register keeps the upper half exactly when the value is not negative as an \<^verbatim>\<open>int\<close>.\<close>

lemma w_register_written:
  assumes "0 \<le> n" "n < 29" "length (ts_x (thread_state t)) = 29"
  shows "\<exists>t'. set_gpr CHR ''w'' n value_ld t = Inr t' \<and>
    (let old = ts_x (thread_state t) ! nat n; new = ts_x (thread_state t') ! nat n in
      (ucast new :: u32) = ucast value_ld \<and>
      drop_bit 32 new = (if 0 \<le> sint (ucast value_ld :: u32) then drop_bit 32 old else mask 32))"
proof -
  let ?old = "ts_x (thread_state t) ! nat n"
  define w where "w = (ucast value_ld :: u32)"
  define new where "new = (?old AND NOT 0xFFFFFFFF) OR scast w"
  have n: "nat n < 29" using assms by simp
  have x: "x_at (thread_state t) n = Inr ?old" using n assms(3) by (simp add: x_at_def x_fields_def nth_append)
  have m: "(0xFFFFFFFF :: u64) = mask 32" by (simp add: mask_eq_exp_minus_1)
  have s: "set_gpr CHR ''w'' n value_ld t = Inr (t\<lparr>thread_state := (thread_state t)\<lparr>ts_x := (ts_x (thread_state t))[nat n := new]\<rparr>\<rparr>)"
    using n assms(3) by (simp add: set_gpr_def x set_x_def new_def w_def Let_def)
  have b: "bit new k \<longleftrightarrow> (if k < 32 then bit w k else k < 64 \<and> (bit ?old k \<or> bit w 31))" for k
    unfolding new_def m by (cases "k = 31") (auto simp: bit_or_iff bit_and_iff bit_not_iff bit_mask_iff bit_signed_iff min_def dest: bit_imp_le_length)
  have neg: "0 \<le> sint w \<longleftrightarrow> \<not> bit w 31" using bit_last_iff [of w] by auto
  have "(ucast new :: u32) = w" by (rule bit_word_eqI) (simp add: bit_ucast_iff b)
  moreover have "drop_bit 32 new = (if 0 \<le> sint w then drop_bit 32 ?old else mask 32)"
    by (rule bit_word_eqI) (auto simp: bit_drop_bit_eq b neg bit_mask_iff dest: bit_imp_le_length)
  ultimately show ?thesis using s n assms(3) by (simp add: w_def)
qed

section \<open>A kernel that keeps the states\<close>

definition state_mach :: "((u32 \<Rightarrow> thread_state64) \<times> (u32 \<Rightarrow> neon_state64)) mach" where
  "state_mach = \<lparr>vm_read_overwrite = (\<lambda>k a n. Inl 1), vm_region_64 = (\<lambda>k a. Inr 3), vm_protect = (\<lambda>k a s p. k),
     vm_write = (\<lambda>k a bs. (1, k)), thread_get_state = (\<lambda>k p. Inr (fst k p)),
     thread_set_state = (\<lambda>k p s. (KERN_SUCCESS, ((fst k)(p := s), snd k))),
     debug_get_state = (\<lambda>k p. Inr zero_ds), debug_set_state = (\<lambda>k p s. (KERN_SUCCESS, k)),
     neon_get_state = (\<lambda>k p. Inr (snd k p)), neon_set_state = (\<lambda>k p s. (KERN_SUCCESS, (fst k, (snd k)(p := s)))),
     thread_ident = (\<lambda>k p. Inr (ucast p)), thread_name = (\<lambda>k p. Some ''main''), mach_port_allocate = (\<lambda>k. Inr 9),
     request_notification = (\<lambda>k p q. KERN_SUCCESS), mach_error_string = (\<lambda>r. ''error'')\<rparr>"

definition state_dbg :: "((u32 \<Rightarrow> thread_state64) \<times> (u32 \<Rightarrow> neon_state64)) dbg" where
  "state_dbg = \<lparr>kern = (\<lambda>_. zero_ts, \<lambda>_. zero_ns), threads = [(1, sample_thread 5 True 1)], breakpoints = [],
     watchpoints = [], num_breakpoints = 0, num_watchpoints = 0, num_hw_bps = 6, num_hw_wps = 4, thread_count = 1,
     death_notify_port = 0, current_machthread_id = 2, current_breakpoint_id = 1, current_watchpoint_id = 1, vars = None,
     fresh = 2\<rparr>"

definition sample_fpenv :: fpenv where
  "sample_fpenv = \<lparr>to_float = \<lambda>s. (0, s), to_double = \<lambda>s. (0, s), minus1_f = 0xbf800000, minus1_lf = 0xbff0000000000000\<rparr>"

lemma state_mach_keeps: "states_kept state_mach"
  by (simp add: states_kept_def state_mach_def)

lemma state_dbg_thread:
  "pl_get (threads state_dbg) 1 = Some (sample_thread 5 True 1)"
  "length (ts_x (thread_state (sample_thread 5 True 1))) = 29" "length (ns_v (neon_state (sample_thread 5 True 1))) = 32"
  by (simp_all add: state_dbg_def pl_get_def sample_thread_def zero_ts_def zero_ns_def)

end
