(* ===== verification/Args.thy ===== *)
theory Args
  imports Strext Containers
begin

text \<open>
  The arguments of a command, \<^verbatim>\<open>source/cmd/argparse.c\<close>: for each group of the regular expression the queue of the texts
  it matched, a NULL being \<open>None\<close>. The regular expressions are PCRE2, a parameter. The queues are their contents, as
  \<open>Containers\<close> shows them to be.
\<close>

section \<open>Argument maps\<close>

record argmap =
  arggroup :: string
  argvals :: "string option list"
  argvalcnt :: int

record cmd_args =
  num_args :: int
  argmaps :: "argmap list"

definition no_args :: cmd_args where
  "no_args = \<lparr>num_args = 0, argmaps = []\<rparr>"

fun ins_map :: "argmap list \<Rightarrow> string \<Rightarrow> string option \<Rightarrow> argmap list" where
  "ins_map [] g v = [\<lparr>arggroup = g, argvals = [v], argvalcnt = 1\<rparr>]"
| "ins_map (m # ms) g v =
     (if arggroup m = g then m\<lparr>argvals := argvals m @ [v], argvalcnt := argvalcnt m + 1\<rparr> # ms
      else m # ins_map ms g v)"

definition argins :: "cmd_args \<Rightarrow> string option \<Rightarrow> string option \<Rightarrow> cmd_args" where
  "argins args g v = (case g of None \<Rightarrow> args | Some gr \<Rightarrow> args\<lparr>argmaps := ins_map (argmaps args) gr v\<rparr>)"

fun copy_map :: "argmap list \<Rightarrow> string \<Rightarrow> string option \<times> argmap list" where
  "copy_map [] g = (None, [])"
| "copy_map (m # ms) g =
     (if arggroup m = g
      then (case argvals m of [] \<Rightarrow> (None, m # ms) | v # vs \<Rightarrow> (v, m\<lparr>argvals := vs\<rparr> # ms))
      else (let (v, ms') = copy_map ms g in (v, m # ms')))"

definition argcopy :: "cmd_args \<Rightarrow> string \<Rightarrow> string option \<times> cmd_args" where
  "argcopy args g = (let (v, ms) = copy_map (argmaps args) g in (v, args\<lparr>argmaps := ms\<rparr>))"

text \<open>
  A copy turns every queue round once, by the count of the values that were put in; values that were taken out
  since then are made up for by NULLs, in the copy and in the original.
\<close>

fun dup_vals :: "nat \<Rightarrow> string option list \<Rightarrow> string option list \<Rightarrow> string option list \<times> string option list" where
  "dup_vals 0 ws ds = (ws, ds)"
| "dup_vals (Suc n) ws ds = (let v = (case ws of [] \<Rightarrow> None | w # _ \<Rightarrow> w) in dup_vals n (tl ws @ [v]) (ds @ [v]))"

definition dup_map :: "argmap \<Rightarrow> argmap \<times> argmap" where
  "dup_map m = (let (ws, ds) = dup_vals (nat (argvalcnt m)) (argvals m) [] in (m\<lparr>argvals := ds\<rparr>, m\<lparr>argvals := ws\<rparr>))"

definition argdup :: "cmd_args \<Rightarrow> cmd_args \<times> cmd_args" where
  "argdup args =
     (args\<lparr>argmaps := map (fst \<circ> dup_map) (argmaps args)\<rparr>, args\<lparr>argmaps := map (snd \<circ> dup_map) (argmaps args)\<rparr>)"

text \<open>What is given back: of every queue the values in front of its first NULL.\<close>

fun leading :: "string option list \<Rightarrow> string list" where
  "leading (Some v # vs) = v # leading vs"
| "leading vs = []"

definition argfree :: "cmd_args \<Rightarrow> string list" where
  "argfree args = concat (map (leading \<circ> argvals) (argmaps args))"

section \<open>Parsing\<close>

text \<open>
  PCRE2: the error of a pattern that does not compile, the number of a named group, and a match, from an offset, with
  its return code, the texts of its groups by number and by name (\<open>None\<close> for an error) and its end.
\<close>

record pmatch =
  mrc :: int
  by_number :: "int \<Rightarrow> string option"
  by_name :: "string \<Rightarrow> string option"
  match_end :: nat

record pcre =
  compile_error :: "string \<Rightarrow> (int \<times> string) option"
  name_number :: "string \<Rightarrow> string \<Rightarrow> int"
  match_at :: "string \<Rightarrow> string \<Rightarrow> nat \<Rightarrow> pmatch"

definition PCRE2_ERROR_NOUNIQUESUBSTRING :: int where
  "PCRE2_ERROR_NOUNIQUESUBSTRING = - 50"

definition group_text :: "pcre \<Rightarrow> string \<Rightarrow> pmatch \<Rightarrow> string \<Rightarrow> string option" where
  "group_text R pat m g =
     (let idx = name_number R pat g in
      if idx = PCRE2_ERROR_NOUNIQUESUBSTRING then by_name m g else by_number m idx)"

definition add_arg :: "string \<Rightarrow> string option \<Rightarrow> cmd_args \<Rightarrow> cmd_args" where
  "add_arg g v args = argins (if v = None then args else args\<lparr>num_args := num_args args + 1\<rparr>) (Some g) v"

fun first_groups :: "pcre \<Rightarrow> string \<Rightarrow> pmatch \<Rightarrow> string list \<Rightarrow> cmd_args \<Rightarrow> cmd_args" where
  "first_groups R pat m [] args = args"
| "first_groups R pat m (g # gs) args = first_groups R pat m gs (add_arg g (group_text R pat m g) args)"

text \<open>The loop over the rest goes on from the end of each match, and ends when the group is not matched any more.\<close>

partial_function (option) rest_group ::
    "pcre \<Rightarrow> string \<Rightarrow> string \<Rightarrow> string \<Rightarrow> pmatch \<Rightarrow> cmd_args \<Rightarrow> cmd_args option" where
  "rest_group R pat s g m args =
     (let idx = name_number R pat g in
      if idx < 0 then Some args
      else (case by_number m idx of None \<Rightarrow> Some args
        | Some v \<Rightarrow> rest_group R pat s g (match_at R pat s (match_end m)) (add_arg g (Some v) args)))"

declare rest_group.simps [code]

definition parse_and_create_args ::
    "pcre \<Rightarrow> string option \<Rightarrow> string \<Rightarrow> string list \<Rightarrow> int \<Rightarrow> bool \<Rightarrow> cbuf \<Rightarrow> (cmd_args option \<times> cbuf) run" where
  "parse_and_create_args R as pat groupnames num_groups unk e =
     (case as of None \<Rightarrow> Inr (Some no_args, e)
      | Some s \<Rightarrow>
          (case compile_error R pat of
             Some (off, msg) \<Rightarrow> Inr (None, concat_c e (''regex compilation failed at offset '' @ show_dec off @ '': '' @ msg))
           | None \<Rightarrow>
               (let m = match_at R pat s 0; lim = nat (if unk then num_groups - 1 else num_groups) in
                if mrc m < 0 then Inr (None, concat_c e ''malformed arguments'')
                else if length groupnames < lim then Inl OutOfBounds
                else (let args = first_groups R pat m (take lim groupnames) no_args in
                  if \<not> unk then Inr (Some args, e)
                  else if length groupnames \<le> lim then Inl OutOfBounds
                  else (case rest_group R pat s (groupnames ! lim) m args of
                          None \<Rightarrow> Inl Diverges | Some a \<Rightarrow> Inr (Some a, e))))))"

section \<open>A store of arguments\<close>

text \<open>The values of a group, in order; and that no value was taken out yet.\<close>

fun map_vals :: "argmap list \<Rightarrow> string \<Rightarrow> string option list" where
  "map_vals [] g = []"
| "map_vals (m # ms) g = (if arggroup m = g then argvals m else map_vals ms g)"

definition vals_of :: "cmd_args \<Rightarrow> string \<Rightarrow> string option list" where
  "vals_of args g = map_vals (argmaps args) g"

definition args_full :: "cmd_args \<Rightarrow> bool" where
  "args_full args \<longleftrightarrow> (\<forall>m \<in> set (argmaps args). argvalcnt m = int (length (argvals m)))"

locale arg_store =
  fixes ins :: "'s \<Rightarrow> string \<Rightarrow> string option \<Rightarrow> 's"
    and copy :: "'s \<Rightarrow> string \<Rightarrow> string option \<times> 's"
    and vals :: "'s \<Rightarrow> string \<Rightarrow> string option list"
  assumes ins_vals: "vals (ins s g v) h = (if h = g then vals s g @ [v] else vals s h)"
    and copy_value: "fst (copy s g) = (case vals s g of [] \<Rightarrow> None | v # _ \<Rightarrow> v)"
    and copy_vals: "vals (snd (copy s g)) h = (if h = g then tl (vals s g) else vals s h)"
begin

lemma ins_all: "vals (fold (\<lambda>v s. ins s g v) vs s) h = (if h = g then vals s g @ vs else vals s h)"
  by (induction vs arbitrary: s) (simp_all add: ins_vals)

text \<open>The values of a group come out in the order they went in, whatever is taken from other groups.\<close>

lemma take_one:
  assumes "vals s g = Some v # vs"
  shows "fst (copy s g) = Some v" "vals (snd (copy s g)) g = vs" "h \<noteq> g \<Longrightarrow> vals (snd (copy s g)) h = vals s h"
  using assms by (simp_all add: copy_value copy_vals)

lemma take_none: "vals s g = [] \<Longrightarrow> fst (copy s g) = None \<and> vals (snd (copy s g)) g = []"
  by (simp add: copy_value copy_vals)

end

lemma ins_map_vals: "map_vals (ins_map ms g v) h = (if h = g then map_vals ms g @ [v] else map_vals ms h)"
  by (induction ms) auto

lemma copy_map_vals:
  "fst (copy_map ms g) = (case map_vals ms g of [] \<Rightarrow> None | v # _ \<Rightarrow> v)"
  "map_vals (snd (copy_map ms g)) h = (if h = g then tl (map_vals ms g) else map_vals ms h)"
  by (induction ms) (auto simp: split_beta split: list.split)

interpretation args: arg_store "\<lambda>s g v. argins s (Some g) v" argcopy vals_of
  by unfold_locales (simp_all add: argins_def argcopy_def vals_of_def ins_map_vals copy_map_vals split_beta)

text \<open>The texts left of a group, up to the first NULL: what the loops of the commands see.\<close>

definition arg_texts :: "cmd_args \<Rightarrow> string \<Rightarrow> string list" where
  "arg_texts args g = leading (vals_of args g)"

lemma argcopy_texts:
  "fst (argcopy args g) = (case arg_texts args g of [] \<Rightarrow> None | v # _ \<Rightarrow> Some v)"
  "arg_texts args g = v # vs \<Longrightarrow> arg_texts (snd (argcopy args g)) g = vs"
proof -
  show "fst (argcopy args g) = (case arg_texts args g of [] \<Rightarrow> None | v # _ \<Rightarrow> Some v)"
    unfolding arg_texts_def args.copy_value by (cases "vals_of args g" rule: leading.cases) (simp_all add: list.case_eq_if)
  assume "arg_texts args g = v # vs"
  then obtain ws where "vals_of args g = Some v # ws" "leading ws = vs"
    unfolding arg_texts_def by (cases "vals_of args g" rule: leading.cases) auto
  then show "arg_texts (snd (argcopy args g)) g = vs" by (simp add: arg_texts_def args.copy_vals)
qed

section \<open>Copies\<close>

lemma dup_vals_rotates:
  "n \<le> length ws \<Longrightarrow> dup_vals n ws ds = (drop n ws @ take n ws, ds @ take n ws)"
proof (induction n arbitrary: ws ds)
  case (Suc n)
  then obtain w vs where w: "ws = w # vs" by (cases ws) auto
  with Suc.prems have "n \<le> length (vs @ [w])" by simp
  from Suc.IH [OF this, of "ds @ [w]"] show ?case using Suc.prems by (simp add: w)
qed simp

lemma dup_map_full:
  assumes "argvalcnt m = int (length (argvals m))"
  shows "dup_map m = (m, m)"
  using dup_vals_rotates [of "length (argvals m)" "argvals m" "[]"] assms by (simp add: dup_map_def)

lemma argdup_full: "args_full args \<Longrightarrow> argdup args = (args, args)"
  by (simp add: argdup_def args_full_def dup_map_full map_idI)

lemma add_arg_full: "args_full args \<Longrightarrow> args_full (add_arg g v args)"
proof -
  have "\<forall>m \<in> set ms. argvalcnt m = int (length (argvals m)) \<Longrightarrow> \<forall>m \<in> set (ins_map ms g v). argvalcnt m = int (length (argvals m))" for ms
    by (induction ms) auto
  then show "args_full args \<Longrightarrow> args_full (add_arg g v args)" by (simp add: args_full_def add_arg_def argins_def)
qed

lemma first_groups_full: "args_full args \<Longrightarrow> args_full (first_groups R pat m gs args)"
  by (induction gs arbitrary: args) (simp_all add: add_arg_full)

lemma no_args_full: "args_full no_args"
  by (simp add: args_full_def no_args_def)

section \<open>The texts of the groups\<close>

lemma add_arg_vals: "vals_of (add_arg g v args) h = (if h = g then vals_of args g @ [v] else vals_of args h)"
proof -
  have "vals_of (args\<lparr>num_args := n\<rparr>) = vals_of args" for n by (rule ext) (simp add: vals_of_def)
  then show ?thesis by (simp add: add_arg_def args.ins_vals)
qed

lemma first_groups_vals:
  "distinct gs \<Longrightarrow> vals_of (first_groups R pat m gs args) h =
    (if h \<in> set gs then vals_of args h @ [group_text R pat m h] else vals_of args h)"
  by (induction gs arbitrary: args) (auto simp: add_arg_vals)

text \<open>The matches of the last group, one behind the other.\<close>

inductive matches :: "pcre \<Rightarrow> string \<Rightarrow> string \<Rightarrow> string \<Rightarrow> pmatch \<Rightarrow> string list \<Rightarrow> bool"
  for R :: pcre and pat :: string and s :: string and g :: string where
  no_match: "name_number R pat g < 0 \<or> by_number m (name_number R pat g) = None \<Longrightarrow> matches R pat s g m []"
| next_match: "0 \<le> name_number R pat g \<Longrightarrow> by_number m (name_number R pat g) = Some v \<Longrightarrow>
    matches R pat s g (match_at R pat s (match_end m)) vs \<Longrightarrow> matches R pat s g m (v # vs)"

lemma rest_group_vals:
  assumes "matches R pat s g m vs"
  shows "\<exists>a. rest_group R pat s g m args = Some a \<and> vals_of a g = vals_of args g @ map Some vs \<and>
    (\<forall>h. h \<noteq> g \<longrightarrow> vals_of a h = vals_of args h) \<and> (args_full args \<longrightarrow> args_full a)"
  using assms
proof (induction arbitrary: args)
  case (no_match m)
  then show ?case by (subst rest_group.simps) (auto simp: Let_def split: option.split)
next
  case (next_match m v vs)
  from next_match.IH [of "add_arg g (Some v) args"] next_match.hyps show ?case
    by (subst rest_group.simps) (auto simp: Let_def add_arg_vals add_arg_full)
qed

text \<open>Matches that move forward end.\<close>

lemma matches_end:
  assumes "\<And>k. k \<le> length s \<Longrightarrow> by_number (match_at R pat s k) (name_number R pat g) \<noteq> None \<Longrightarrow>
      k < match_end (match_at R pat s k) \<and> match_end (match_at R pat s k) \<le> length s"
    and "k \<le> length s"
  shows "\<exists>vs. matches R pat s g (match_at R pat s k) vs"
  using assms(2)
proof (induction "length s - k" arbitrary: k rule: less_induct)
  case less
  show ?case
  proof (cases "0 \<le> name_number R pat g \<and> by_number (match_at R pat s k) (name_number R pat g) \<noteq> None")
    case True
    then obtain v where v: "by_number (match_at R pat s k) (name_number R pat g) = Some v" by blast
    from assms(1) [OF less.prems] True
    have e: "k < match_end (match_at R pat s k)" "match_end (match_at R pat s k) \<le> length s" by blast+
    with less.hyps [of "match_end (match_at R pat s k)"]
    obtain vs where "matches R pat s g (match_at R pat s (match_end (match_at R pat s k))) vs"
      by (meson diff_less_mono2 less_le_trans)
    with True v show ?thesis by (blast intro: matches.next_match)
  qed (auto intro!: exI [of _ "[]"] matches.no_match)
qed

end
