(* ===== verification/Taskops.thy ===== *)
theory Taskops
  imports Exceptions
begin

text \<open>
  The operations on the target as a whole, \<^verbatim>\<open>source/dbgops.c\<close>, the functions \<^verbatim>\<open>struct debuggee\<close> points to in
  \<^verbatim>\<open>source/handlers.c\<close>, and the replies to exceptions. A session is the debugger of \<open>Target\<close> with the ports, the queue
  of the exceptions that wait for a reply, and the messages sent as replies.
\<close>

section \<open>Messages\<close>

record exc_msg =
  msgh_bits :: u32
  msgh_remote_port :: u32
  msgh_id :: u32
  msg_NDR :: u64
  msg_body :: request

record exc_reply =
  rpl_bits :: u32
  rpl_remote_port :: u32
  rpl_local_port :: u32
  rpl_id :: u32
  rpl_NDR :: u64
  RetCode :: kern_return

definition reply_to_exception :: "exc_msg \<Rightarrow> kern_return \<Rightarrow> exc_reply" where
  "reply_to_exception req ret =
     \<lparr>rpl_bits = msgh_bits req AND 0x1f, rpl_remote_port = msgh_remote_port req, rpl_local_port = MACH_PORT_NULL,
      rpl_id = msgh_id req + 100, rpl_NDR = msg_NDR req, RetCode = ret\<rparr>"

section \<open>The session\<close>

text \<open>
  The Mach and BSD calls on the task with a port or a process number. \<open>task_threads\<close> gives the result and what the
  variable for the list holds afterwards, which is not initialised. \<open>answer\<close> is what the user answers to a question.
\<close>

type_synonym exc_port = "u32 \<times> u32 \<times> u32 \<times> u32"

record 'k tcalls =
  task_suspend :: "'k \<Rightarrow> u32 \<Rightarrow> kern_return \<times> 'k"
  task_resume :: "'k \<Rightarrow> u32 \<Rightarrow> kern_return \<times> 'k"
  suspend_count :: "'k \<Rightarrow> u32 \<Rightarrow> kern_return + int"
  task_threads :: "'k \<Rightarrow> u32 \<Rightarrow> kern_return \<times> u32 list option"
  get_exception_ports :: "'k \<Rightarrow> u32 \<Rightarrow> kern_return \<times> exc_port list"
  set_exception_ports :: "'k \<Rightarrow> u32 \<Rightarrow> exc_port \<Rightarrow> kern_return \<times> 'k"
  insert_right :: "'k \<Rightarrow> u32 \<Rightarrow> kern_return \<times> 'k"
  port_deallocate :: "'k \<Rightarrow> u32 \<Rightarrow> kern_return \<times> 'k"
  vm_dealloc :: "'k \<Rightarrow> u32 list \<Rightarrow> kern_return"
  send_kill :: "'k \<Rightarrow> int \<Rightarrow> int \<Rightarrow> int \<times> 'k"
  pt_detach :: "'k \<Rightarrow> int \<Rightarrow> int \<times> 'k"
  answer :: "'k \<Rightarrow> string \<Rightarrow> char"
  thread_blank :: machthread

record 'k tenv =
  de :: "'k denv"
  tc :: "'k tcalls"

record 'k sess =
  db :: "'k dbg"
  task :: u32
  pid :: int
  debuggee_name :: "string option"
  exception_port :: u32
  original_ports :: "exc_port list"
  exc_queue :: "exc_msg list option"
  need_reply :: bool
  sent :: "exc_reply list"
  signals :: "sigsetting list"
  no_signals :: bool

definition on_db :: "('k dbg \<Rightarrow> 'k dbg run) \<Rightarrow> 'k sess \<Rightarrow> 'k sess run" where
  "on_db f S = bind_run (f (db S)) (\<lambda>d. Inr (S\<lparr>db := d\<rparr>))"

definition set_kern :: "'k \<Rightarrow> 'k sess \<Rightarrow> 'k sess" where
  "set_kern k S = S\<lparr>db := (db S)\<lparr>kern := k\<rparr>\<rparr>"

definition task_call :: "('k \<Rightarrow> u32 \<Rightarrow> kern_return \<times> 'k) \<Rightarrow> u32 \<Rightarrow> 'k sess \<Rightarrow> kern_return \<times> 'k sess" where
  "task_call f p S = (let (r, k) = f (kern (db S)) p in (r, set_kern k S))"

section \<open>Handlers\<close>

definition suspended :: "'k tenv \<Rightarrow> 'k sess \<Rightarrow> bool" where
  "suspended T S = (case suspend_count (tc T) (kern (db S)) (task S) of Inl _ \<Rightarrow> False | Inr n \<Rightarrow> n = 1)"

definition suspend :: "'k tenv \<Rightarrow> 'k sess \<Rightarrow> kern_return \<times> 'k sess" where
  "suspend T S = (if suspended T S then (KERN_FAILURE, S) else task_call (task_suspend (tc T)) (task S) S)"

definition resume :: "'k tenv \<Rightarrow> 'k sess \<Rightarrow> kern_return \<times> 'k sess" where
  "resume T S = task_call (task_resume (tc T)) (task S) S"

definition warn_on_mach_err :: "'k tenv \<Rightarrow> string \<Rightarrow> kern_return \<Rightarrow> cbuf \<Rightarrow> cbuf" where
  "warn_on_mach_err T fn r out =
     (if r \<noteq> KERN_SUCCESS \<and> out \<noteq> None then concat_c out (fn @ '': '' @ mach_error_string (mc (de T)) r @ [CHR 0x0A]) else out)"

definition restore_exception_ports :: "'k tenv \<Rightarrow> 'k sess \<Rightarrow> 'k sess" where
  "restore_exception_ports T S =
     fold (\<lambda>p S. set_kern (snd (set_exception_ports (tc T) (kern (db S)) (task S) p)) S) (original_ports S) S"

definition EXC_MASK_ALL :: u32 where "EXC_MASK_ALL = 0x1bfe"
definition EXC_BEHAVIOR :: u32 where "EXC_BEHAVIOR = 0x80000001"
definition THREAD_STATE_NONE :: u32 where "THREAD_STATE_NONE = 5"

text \<open>The port stays what it was when none can be allocated.\<close>

definition setup_exception_handling :: "'k tenv \<Rightarrow> 'k sess \<Rightarrow> cbuf \<Rightarrow> kern_return \<times> 'k sess \<times> cbuf" where
  "setup_exception_handling T S out =
     (let warn = warn_on_mach_err T ''setup_exception_handling'';
          (r1, S1) = (case mach_port_allocate (mc (de T)) (kern (db S)) of
             Inl r \<Rightarrow> (r, S) | Inr p \<Rightarrow> (KERN_SUCCESS, S\<lparr>exception_port := p\<rparr>));
          (r2, S2) = task_call (insert_right (tc T)) (exception_port S1) S1;
          (r3, ps) = get_exception_ports (tc T) (kern (db S2)) (task S2);
          S3 = (if r3 = KERN_SUCCESS then S2\<lparr>original_ports := ps\<rparr> else S2);
          (r4, k) = set_exception_ports (tc T) (kern (db S3)) (task S3)
             (EXC_MASK_ALL, exception_port S3, EXC_BEHAVIOR, THREAD_STATE_NONE)
      in (r4, set_kern k S3, warn r4 (warn r3 (warn r2 (warn r1 out)))))"

definition deallocate_ports :: "'k tenv \<Rightarrow> 'k sess \<Rightarrow> cbuf \<Rightarrow> kern_return \<times> 'k sess \<times> cbuf" where
  "deallocate_ports T S out =
     (let warn = warn_on_mach_err T ''deallocate_ports'';
          (r1, S1) = task_call (port_deallocate (tc T)) (exception_port S) S;
          S2 = S1\<lparr>exception_port := MACH_PORT_NULL\<rparr>;
          (r2, S3) = task_call (port_deallocate (tc T)) (task S2) S2;
          S4 = S3\<lparr>task := MACH_PORT_NULL, db := (db S3)\<lparr>death_notify_port := MACH_PORT_NULL\<rparr>\<rparr>
      in (r2, S4, warn r2 (warn r1 out)))"

definition get_threads :: "'k tenv \<Rightarrow> 'k sess \<Rightarrow> cbuf \<Rightarrow> kern_return \<times> u32 list option \<times> cbuf" where
  "get_threads T S out =
     (let (r, ts) = task_threads (tc T) (kern (db S)) (task S) in (r, ts, warn_on_mach_err T ''get_threads'' r out))"

section \<open>Replies, stopping and running\<close>

definition reply_to_all_exceptions :: "'k sess \<Rightarrow> 'k sess run" where
  "reply_to_all_exceptions S =
     (if \<not> need_reply S then Inr S
      else (case exc_queue S of None \<Rightarrow> Inr (S\<lparr>need_reply := False\<rparr>)
            | Some q \<Rightarrow> Inr (S\<lparr>sent := sent S @ map (\<lambda>r. reply_to_exception r KERN_SUCCESS) q, exc_queue := Some [],
                             need_reply := False\<rparr>)))"

definition ops_resume :: "'k tenv \<Rightarrow> 'k sess \<Rightarrow> (kern_return \<times> 'k sess) run" where
  "ops_resume T S = bind_run (reply_to_all_exceptions S) (\<lambda>S1. Inr (resume T S1))"

definition ops_suspend :: "'k tenv \<Rightarrow> 'k sess \<Rightarrow> kern_return \<times> 'k sess" where
  "ops_suspend T S = suspend T S"

section \<open>The threads that points are for\<close>

definition delete_invalid_bp :: "'k mach \<Rightarrow> nat \<Rightarrow> breakpoint \<Rightarrow> 'k dbg \<times> cbuf \<Rightarrow> ('k dbg \<times> cbuf) run" where
  "delete_invalid_bp M a b s =
     bind_run (breakpoint_delete_specific M (Some a) (fst s)) (\<lambda>d. Inr (d,
       concat_c (snd s) (concat [[CHR 0x0A], ''[The thread assigned to breakpoint '', show_dec (bp_id b),
         '' has gone away, deleting it]'', [CHR 0x0A]])))"

definition delete_invalid_wp :: "'k mach \<Rightarrow> nat \<Rightarrow> watchpoint \<Rightarrow> 'k dbg \<times> cbuf \<Rightarrow> ('k dbg \<times> cbuf) run" where
  "delete_invalid_wp M a w s =
     bind_run (watchpoint_delete_specific M (Some a) (fst s)) (\<lambda>d. Inr (d,
       concat_c (snd s) (concat [[CHR 0x0A], ''[The thread assigned to watchpoint '', show_dec (wp_id w),
         '' has gone away, deleting it]'', [CHR 0x0A]])))"

definition correct_threadinfo :: "machthread \<Rightarrow> threadinfo \<Rightarrow> threadinfo" where
  "correct_threadinfo t ti = ti\<lparr>iosdbg_tid := ID t, pthread_tid := tid t, ti_name := Some (tname t)\<rparr>"

definition corrected :: "string \<Rightarrow> int \<Rightarrow> cbuf \<Rightarrow> cbuf" where
  "corrected what i out =
     concat_c out (concat [[CHR 0x0A], ''[Corrected thread info for '', what, '' '', show_dec i, '']'', [CHR 0x0A]])"

definition clear_bp_regs :: "breakpoint \<Rightarrow> debug_state64 \<Rightarrow> debug_state64 run" where
  "clear_bp_regs b s =
     bind_run (put_reg (ds_bcr s) (hw_bp_reg b) 0) (\<lambda>bcr.
     bind_run (put_reg (ds_bvr s) (hw_bp_reg b) 0) (\<lambda>bvr.
       Inr (s\<lparr>ds_bcr := bcr, ds_bvr := bvr, ds_mdscr_el1 := 0\<rparr>)))"

definition clear_wp_regs :: "watchpoint \<Rightarrow> debug_state64 \<Rightarrow> debug_state64 run" where
  "clear_wp_regs w s =
     bind_run (put_reg (ds_wcr s) (hw_wp_reg w) 0) (\<lambda>wcr.
     bind_run (put_reg (ds_wvr s) (hw_wp_reg w) 0) (\<lambda>wvr.
       Inr (s\<lparr>ds_wcr := wcr, ds_wvr := wvr, ds_mdscr_el1 := 0\<rparr>)))"

definition fetch_point_threads :: "threadinfo \<Rightarrow> 'k dbg \<Rightarrow> (nat \<times> machthread) option \<times> (nat \<times> machthread) option" where
  "fetch_point_threads ti d =
     (let right = find_thread_from_TID (pthread_tid ti) d in
      case find_thread_from_ID (iosdbg_tid ti) d of None \<Rightarrow> (right, right) | Some f \<Rightarrow> (Some f, right))"

definition adjust_breakpoint :: "'k mach \<Rightarrow> nat \<Rightarrow> 'k dbg \<times> cbuf \<Rightarrow> ('k dbg \<times> cbuf) run" where
  "adjust_breakpoint M a s =
     (case pl_get (breakpoints (fst s)) a of None \<Rightarrow> Inl UseAfterFree
      | Some b \<Rightarrow>
          if all_threads (bp_threadinfo b) \<or> \<not> bp_hw b then Inr s
          else (case fetch_point_threads (bp_threadinfo b) (fst s) of
              (Some (fa, f), Some (ca, c)) \<Rightarrow>
                if tid f \<noteq> pthread_tid (bp_threadinfo b) \<or> ID f \<noteq> iosdbg_tid (bp_threadinfo b)
                then bind_run (program_thread M (clear_bp_regs b) fa (fst s)) (\<lambda>d1.
                     bind_run (program_thread M (put_bp_regs b) ca d1) (\<lambda>d2.
                       Inr (upd_bp a (\<lambda>b. b\<lparr>bp_threadinfo := correct_threadinfo c (bp_threadinfo b)\<rparr>) d2,
                            corrected ''breakpoint'' (bp_id b) (snd s))))
                else Inr s
            | _ \<Rightarrow> delete_invalid_bp M a b s))"

definition adjust_breakpoints :: "'k mach \<Rightarrow> 'k dbg \<times> cbuf \<Rightarrow> ('k dbg \<times> cbuf) run" where
  "adjust_breakpoints M s = run_list (adjust_breakpoint M) (map fst (breakpoints (fst s))) s"

definition adjust_watchpoint :: "'k mach \<Rightarrow> nat \<Rightarrow> 'k dbg \<times> cbuf \<Rightarrow> ('k dbg \<times> cbuf) run" where
  "adjust_watchpoint M a s =
     (case pl_get (watchpoints (fst s)) a of None \<Rightarrow> Inl UseAfterFree
      | Some w \<Rightarrow>
          if all_threads (wp_threadinfo w) then Inr s
          else (case fetch_point_threads (wp_threadinfo w) (fst s) of
              (Some (fa, f), Some (ca, c)) \<Rightarrow>
                if tid f \<noteq> pthread_tid (wp_threadinfo w) \<or> ID f \<noteq> iosdbg_tid (wp_threadinfo w)
                then bind_run (program_thread M (clear_wp_regs w) fa (fst s)) (\<lambda>d1.
                     bind_run (program_thread M (put_wp_regs w) ca d1) (\<lambda>d2.
                       Inr (upd_wp a (\<lambda>w. w\<lparr>wp_threadinfo := correct_threadinfo c (wp_threadinfo w)\<rparr>) d2,
                            corrected ''watchpoint'' (wp_id w) (snd s))))
                else Inr s
            | _ \<Rightarrow> delete_invalid_wp M a w s))"

definition adjust_watchpoints :: "'k mach \<Rightarrow> 'k dbg \<times> cbuf \<Rightarrow> ('k dbg \<times> cbuf) run" where
  "adjust_watchpoints M s = run_list (adjust_watchpoint M) (map fst (watchpoints (fst s))) s"

definition adjust_bps_and_wps :: "'k mach \<Rightarrow> 'k dbg \<times> cbuf \<Rightarrow> ('k dbg \<times> cbuf) run" where
  "adjust_bps_and_wps M s = bind_run (adjust_breakpoints M s) (adjust_watchpoints M)"

section \<open>The monitor of the threads\<close>

definition reselect :: "u32 list \<Rightarrow> 'k dbg \<times> cbuf \<Rightarrow> ('k dbg \<times> cbuf) run" where
  "reselect ports s =
     (case get_focused_thread (fst s) of Some _ \<Rightarrow> Inr s
      | None \<Rightarrow>
          (let out1 = (if snd s \<noteq> None then concat_c (snd s) [CHR 0x0A] else snd s);
               out2 = concat_c out1 (''[Previously selected thread dead, selecting thread #1]'' @ [CHR 0x0A]) in
           case ports of [] \<Rightarrow> Inl OutOfBounds | p # _ \<Rightarrow> Inr (set_focused_thread p (fst s), out2)))"

text \<open>The format of the last warning has one conversion and two arguments: the name of the function is what it shows.\<close>

definition ops_threadupdate :: "'k tenv \<Rightarrow> 'k sess \<Rightarrow> cbuf \<Rightarrow> ('k sess \<times> cbuf) run" where
  "ops_threadupdate T S out =
     (let M = mc (de T); (_, ts, out1) = get_threads T S out in
      case ts of None \<Rightarrow> Inr (S, out1)
      | Some ports \<Rightarrow>
          bind_run (update_thread_list M (thread_blank (tc T)) (Some ports) (db S) out1) (\<lambda>s1.
          bind_run (reselect ports s1) (\<lambda>(d2, out2).
            let d3 = (case get_focused_thread d2 of None \<Rightarrow> d2 | Some (a, _) \<Rightarrow> update_all_thread_states M (Some a) d2) in
          bind_run (adjust_bps_and_wps M (d3, out2)) (\<lambda>(d4, out4).
            let r = vm_dealloc (tc T) (kern d4) ports in
            Inr (S\<lparr>db := d4\<rparr>, if r \<noteq> KERN_SUCCESS then concat_c out4 (''warning: vm_deallocate: ops_threadupdate'' @ [CHR 0x0A])
                             else out4)))))"

section \<open>Detaching\<close>

partial_function (option) detach_loop :: "('k \<Rightarrow> int \<Rightarrow> int \<times> 'k) \<Rightarrow> int \<Rightarrow> int \<times> 'k \<Rightarrow> 'k option" where
  "detach_loop f p s = (if fst s = - 1 then detach_loop f p (f (snd s) p) else Some (snd s))"

declare detach_loop.simps [code]

definition SIGSTOP :: int where "SIGSTOP = 17"
definition SIGCONT :: int where "SIGCONT = 19"

definition let_go :: "'k tenv \<Rightarrow> bool \<Rightarrow> 'k sess \<Rightarrow> 'k sess run" where
  "let_go T from_death S =
     (if from_death \<or> no_signals S then Inr S
      else (let k1 = snd (send_kill (tc T) (kern (db S)) (pid S) SIGSTOP) in
        case detach_loop (pt_detach (tc T)) (pid S) (pt_detach (tc T) k1 (pid S)) of None \<Rightarrow> Inl Diverges
        | Some k2 \<Rightarrow> Inr (set_kern (snd (send_kill (tc T) k2 (pid S) SIGCONT)) S)))"

definition void_automatic :: "cvars \<Rightarrow> cvars run" where
  "void_automatic vs =
     bind_run (void_convvar vs (Some ''$_'')) (\<lambda>vs1. bind_run (void_convvar vs1 (Some ''$__'')) (\<lambda>vs2.
       void_convvar vs2 (Some ''$ASLR'')))"

definition clear_mdscr :: "debug_state64 \<Rightarrow> debug_state64 run" where
  "clear_mdscr s = Inr (s\<lparr>ds_mdscr_el1 := 0\<rparr>)"

text \<open>
  The lists are freed, which is the empty list here. The resume at the end goes to the port the task has then, which is
  \<^verbatim>\<open>MACH_PORT_NULL\<close>.
\<close>

definition forget_target :: "'k sess \<Rightarrow> cbuf \<Rightarrow> ('k sess \<times> cbuf) run" where
  "forget_target S out =
     bind_run (void_automatic (vars (db S))) (\<lambda>vs.
       Inr (S\<lparr>db := (db S)\<lparr>breakpoints := [], watchpoints := [], threads := [], num_breakpoints := 0,
                num_watchpoints := 0, vars := vs\<rparr>,
              no_signals := False, exc_queue := None, debuggee_name := None, pid := - 1\<rparr>,
            concat_c out (concat [''Detached from '', (case debuggee_name S of None \<Rightarrow> ''(null)'' | Some n \<Rightarrow> n), '' ('',
              show_dec (pid S), '')'', [CHR 0x0A]])))"

definition ops_detach :: "'k tenv \<Rightarrow> bool \<Rightarrow> 'k sess \<Rightarrow> cbuf \<Rightarrow> ('k sess \<times> cbuf) run" where
  "ops_detach T from_death S out =
     (let M = mc (de T); S1 = snd (ops_suspend T S) in
      bind_run (on_db (breakpoint_delete_all M) S1) (\<lambda>S2.
      bind_run (on_db (watchpoint_delete_all M) S2) (\<lambda>S3.
      bind_run (on_db (\<lambda>d. run_list (program_thread M clear_mdscr) (map fst (threads d)) d) S3) (\<lambda>S4.
      bind_run (reply_to_all_exceptions (restore_exception_ports T S4)) (\<lambda>S5.
      case deallocate_ports T S5 out of (_, S6, out6) \<Rightarrow>
      bind_run (let_go T from_death S6) (\<lambda>S7.
      bind_run (forget_target S7 out6) (\<lambda>(S8, out8).
      bind_run (ops_resume T S8) (\<lambda>(_, S9). Inr (S9, out8)))))))))"

end
