(* ===== verification/TaskopsProof.thy ===== *)
theory TaskopsProof
  imports Taskops BreakOps
begin

text \<open>
  The points of single threads follow their threads: after an update of the list of threads each is for the thread
  with its system-wide ID, under the number that thread has now, and those whose thread is gone are deleted. Every
  exception is replied to once, in the order they came. Detaching leaves the task suspended.
\<close>

section \<open>Loops that change one element at a time\<close>

lemma run_touches:
  assumes f: "\<And>a s. I s \<Longrightarrow> a \<in> fst ` set (pts s) \<Longrightarrow>
      \<exists>s'. f a s = Inr s' \<and> I s' \<and> pts s' = touch_all {a} (\<lambda>_. True) h (pts s)"
    and D: "\<And>s. I s \<Longrightarrow> distinct (map fst (pts s))" and I: "I s"
  shows "\<exists>s'. run_list f (map fst (pts s)) s = Inr s' \<and> I s' \<and>
    pts s' = touch_all (fst ` set (pts s)) (\<lambda>_. True) h (pts s)"
proof -
  have "\<exists>s'. run_list f as s = Inr s' \<and> I s' \<and> pts s' = touch_all (set as) (\<lambda>_. True) h (pts s)"
    if "distinct as" "set as \<subseteq> fst ` set (pts s)" "I s" for as s
    using that
  proof (induction as arbitrary: s)
    case Nil
    then show ?case by (simp add: touch_all_other)
  next
    case (Cons a as)
    then obtain x where x: "(a, x) \<in> set (pts s)" by auto
    from f [of s a] Cons.prems obtain s1 where
      s1: "f a s = Inr s1" "I s1" "pts s1 = touch_all {a} (\<lambda>_. True) h (pts s)" by auto
    have "set as \<subseteq> fst ` set (pts s1)"
    proof
      fix b assume "b \<in> set as"
      with Cons.prems have "b \<in> fst ` set (pts s)" "b \<noteq> a" by auto
      then obtain y where "(b, y) \<in> set (pts s)" "b \<noteq> a" by (auto simp: image_iff)
      then have "(b, y) \<in> set (pts s1)" by (simp add: s1(3) touch_all_kept)
      then show "b \<in> fst ` set (pts s1)" by force
    qed
    with Cons.IH [of s1] Cons.prems s1(2) obtain s2 where
      s2: "run_list f as s1 = Inr s2" "I s2" "pts s2 = touch_all (set as) (\<lambda>_. True) h (pts s1)" by auto
    moreover have "touch_all (set as) (\<lambda>_. True) h (pts s1) = touch_all (set (a # as)) (\<lambda>_. True) h (pts s)"
      using touch_all_step [OF D [OF Cons.prems(3)] _ x, of "set as" "\<lambda>_. True" h] Cons.prems s1(3) by simp
    ultimately show ?case using s1(1) by simp
  qed
  from this [of "map fst (pts s)" s] I D show ?thesis by simp
qed

lemma touch_all_whole: "touch_all (fst ` set xs) (\<lambda>_. True) h xs = List.map_filter (\<lambda>(a, x). map_option (Pair a) (h x)) xs"
proof -
  have "touch_all as (\<lambda>_. True) h ys = List.map_filter (\<lambda>(a, x). map_option (Pair a) (h x)) ys" if "fst ` set ys \<subseteq> as" for as ys
    using that by (induction ys) (auto simp: List.map_filter_simps split: option.splits)
  then show ?thesis by simp
qed

lemma touch_one:
  assumes "distinct (map fst xs)" "pl_get xs a = Some x"
  shows "touch_all {a} (\<lambda>_. True) h xs = (case h x of None \<Rightarrow> pl_delete a xs | Some y \<Rightarrow> pl_update a (\<lambda>_. y) xs)"
  using assms
proof (induction xs)
  case (Cons c xs)
  have o: "touch_all {a} (\<lambda>_. True) h xs = xs" "pl_update a f xs = xs" if "a \<notin> fst ` set xs" for f
    using that by (simp add: touch_all_other) (use that in \<open>induction xs, auto\<close>)
  show ?case
  proof (cases "fst c = a")
    case True
    with Cons.prems have "a \<notin> fst ` set xs" "snd c = x" by (auto simp: pl_get_def split: if_splits)
    with True o show ?thesis by (cases c) (auto split: option.split)
  next
    case False
    with Cons.prems have "pl_get xs a = Some x" by (cases c) (simp add: pl_get_def)
    with Cons False show ?thesis by (cases c) (auto split: option.splits)
  qed
qed (simp add: pl_get_def)

section \<open>What identifies the threads\<close>

definition idents :: "machthread plist \<Rightarrow> (nat \<times> int \<times> u64 \<times> string) list" where
  "idents ts = map (\<lambda>(a, t). (a, ID t, tid t, tname t)) ts"

lemma idents_undebugged: "idents (undebugged ts) = idents ts"
  by (induction ts) (auto simp: idents_def undebugged_def)

lemma idents_same: "undebugged (threads d') = undebugged (threads d) \<Longrightarrow> idents (threads d') = idents (threads d)"
  by (metis idents_undebugged)

text \<open>The thread a point is for now: the new information, or \<open>None\<close> when there is no such thread.\<close>

definition settle :: "machthread plist \<Rightarrow> threadinfo \<Rightarrow> threadinfo option" where
  "settle ts ti =
     (case pl_find (\<lambda>t. tid t = pthread_tid ti) ts of None \<Rightarrow> None
      | Some (_, t) \<Rightarrow> Some (if ID t = iosdbg_tid ti then ti else correct_threadinfo t ti))"

definition settle_bp :: "machthread plist \<Rightarrow> breakpoint \<Rightarrow> breakpoint option" where
  "settle_bp ts b =
     (if all_threads (bp_threadinfo b) \<or> \<not> bp_hw b then Some b
      else map_option (\<lambda>ti. b\<lparr>bp_threadinfo := ti\<rparr>) (settle ts (bp_threadinfo b)))"

definition settle_wp :: "machthread plist \<Rightarrow> watchpoint \<Rightarrow> watchpoint option" where
  "settle_wp ts w =
     (if all_threads (wp_threadinfo w) then Some w
      else map_option (\<lambda>ti. w\<lparr>wp_threadinfo := ti\<rparr>) (settle ts (wp_threadinfo w)))"

lemma find_idents:
  assumes "idents ts = idents us"
  shows "map_option (\<lambda>(a, t). (a, ID t, tid t, tname t)) (pl_find (\<lambda>t. P (ID t) (tid t)) ts) =
    map_option (\<lambda>(a, t). (a, ID t, tid t, tname t)) (pl_find (\<lambda>t. P (ID t) (tid t)) us)"
proof -
  have "map_option (\<lambda>(a, t). (a, ID t, tid t, tname t)) (pl_find (\<lambda>t. P (ID t) (tid t)) xs) =
      find (\<lambda>(a, i, j, n). P i j) (idents xs)" for xs
    by (induction xs) (auto simp: pl_find_def idents_def)
  with assms show ?thesis by simp
qed

lemma settle_idents:
  assumes "idents ts = idents us"
  shows "settle ts ti = settle us ti"
proof -
  have e: "settle xs ti = (case map_option (\<lambda>(a, t). (a, ID t, tid t, tname t)) (pl_find (\<lambda>t. tid t = pthread_tid ti) xs) of
      None \<Rightarrow> None | Some (_, i, j, n) \<Rightarrow> Some (if i = iosdbg_tid ti then ti else
        ti\<lparr>iosdbg_tid := i, pthread_tid := j, ti_name := Some n\<rparr>))" for xs
    by (auto simp: settle_def correct_threadinfo_def split: option.split)
  show ?thesis unfolding e using find_idents [OF assms, of "\<lambda>_ j. j = pthread_tid ti"] by simp
qed

text \<open>IDs are distinct, and so are the system-wide ones.\<close>

definition ids_ok :: "machthread plist \<Rightarrow> bool" where
  "ids_ok ts \<longleftrightarrow> distinct (map (ID \<circ> snd) ts) \<and> distinct (map (tid \<circ> snd) ts)"

lemma ids_ok_idents: "idents ts = idents us \<Longrightarrow> ids_ok ts \<longleftrightarrow> ids_ok us"
proof -
  have "map (ID \<circ> snd) xs = map (fst \<circ> snd) (idents xs)" "map (tid \<circ> snd) xs = map (fst \<circ> snd \<circ> snd) (idents xs)" for xs
    by (auto simp: idents_def)
  then show "idents ts = idents us \<Longrightarrow> ids_ok ts \<longleftrightarrow> ids_ok us" unfolding ids_ok_def by metis
qed

lemma fetched:
  assumes "ids_ok (threads d)"
  shows "case fetch_point_threads ti d of
      (Some (fa, f), Some (ca, c)) \<Rightarrow> (fa, f) \<in> set (threads d) \<and> (ca, c) \<in> set (threads d) \<and>
        settle (threads d) ti = Some (if tid f \<noteq> pthread_tid ti \<or> ID f \<noteq> iosdbg_tid ti then correct_threadinfo c ti else ti)
    | _ \<Rightarrow> settle (threads d) ti = None"
proof (cases "find_thread_from_TID (pthread_tid ti) d")
  case None
  then have "pl_find (\<lambda>t. tid t = pthread_tid ti) (threads d) = None"
    by (simp add: find_thread_from_TID_def find_with_cond_def cond_holds_def [abs_def])
  with None show ?thesis by (auto simp: fetch_point_threads_def settle_def split: option.split)
next
  case (Some p)
  obtain ca c where p: "p = (ca, c)" by (cases p)
  have pf: "pl_find (\<lambda>t. tid t = pthread_tid ti) (threads d) = Some (ca, c)"
    using Some p by (simp add: find_thread_from_TID_def find_with_cond_def cond_holds_def [abs_def])
  from pl_find_Some [OF this] have c: "(ca, c) \<in> set (threads d)" "tid c = pthread_tid ti" by blast+
  show ?thesis
  proof (cases "find_thread_from_ID (iosdbg_tid ti) d")
    case None
    have "ID c \<noteq> iosdbg_tid ti"
      using None c(1) unfolding find_thread_from_ID_def find_thread_None by (auto simp: cond_holds_def)
    with None Some p pf c show ?thesis by (simp add: fetch_point_threads_def settle_def Let_def)
  next
    case (Some q)
    obtain fa f where q: "q = (fa, f)" by (cases q)
    with Some find_thread have f: "(fa, f) \<in> set (threads d)" "ID f = iosdbg_tid ti"
      unfolding find_thread_from_ID_def by (fastforce simp: cond_holds_def)+
    have i1: "inj_on (ID \<circ> snd) (set (threads d))" and i2: "inj_on (tid \<circ> snd) (set (threads d))"
      using assms by (simp_all add: ids_ok_def distinct_map)
    have "tid f = pthread_tid ti \<longleftrightarrow> ID c = iosdbg_tid ti"
      using inj_onD [OF i1, of "(fa, f)" "(ca, c)"] inj_onD [OF i2, of "(fa, f)" "(ca, c)"] c f by auto
    with Some q \<open>find_thread_from_TID (pthread_tid ti) d = Some p\<close> p pf c f show ?thesis
      by (simp add: fetch_point_threads_def settle_def Let_def)
  qed
qed

lemma fetched_none:
  assumes "ids_ok (threads d)" "settle (threads d) ti = None" "fetch_point_threads ti d = (x, y)"
  shows "x = None \<or> y = None"
proof (cases x)
  case (Some p)
  with fetched [OF assms(1), of ti] assms(2,3) show ?thesis by (cases y) (simp_all add: split_beta)
qed simp

lemma fetched_some:
  assumes "ids_ok (threads d)" "settle (threads d) ti = Some ti'"
  obtains fa f ca c where "fetch_point_threads ti d = (Some (fa, f), Some (ca, c))"
    "(fa, f) \<in> set (threads d)" "(ca, c) \<in> set (threads d)"
    "ti' = (if tid f \<noteq> pthread_tid ti \<or> ID f \<noteq> iosdbg_tid ti then correct_threadinfo c ti else ti)"
proof -
  obtain x y where xy: "fetch_point_threads ti d = (x, y)" by (cases "fetch_point_threads ti d")
  note fe = fetched [OF assms(1), of ti, unfolded xy]
  from fe assms(2) obtain fa f where x: "x = Some (fa, f)" by (cases x) auto
  from fe assms(2) obtain ca c where y: "y = Some (ca, c)" unfolding x by (cases y) auto
  show thesis by (rule that [of fa f ca c]) (use fe assms(2) xy x y in simp_all)
qed

section \<open>One point\<close>

lemma reg_change_clear_bp: "0 \<le> hw_bp_reg b \<Longrightarrow> hw_bp_reg b < 16 \<Longrightarrow> reg_change (clear_bp_regs b)"
  by (simp add: reg_change_def clear_bp_regs_def put_reg_def regs16_def nat_less_iff)

lemma reg_change_clear_wp: "0 \<le> hw_wp_reg w \<Longrightarrow> hw_wp_reg w < 16 \<Longrightarrow> reg_change (clear_wp_regs w)"
  by (simp add: reg_change_def clear_wp_regs_def put_reg_def regs16_def nat_less_iff)

lemma move_registers:
  assumes K: "kernel_ok M" and I: "dbg_inv d" and f: "reg_change f" and g: "reg_change g"
    and a: "a \<in> fst ` set (threads d)" "b \<in> fst ` set (threads d)"
  shows "\<exists>d1 d2. program_thread M f a d = Inr d1 \<and> program_thread M g b d1 = Inr d2 \<and> same_debugger d d2 \<and> dbg_inv d2"
proof -
  have T: "thr_ok (threads d)" using I by (simp add: dbg_inv_def)
  from program_thread_ok [OF K T a(1) f] obtain d1 where
    d1: "program_thread M f a d = Inr d1" "same_debugger d d1" "thr_ok (threads d1)" by blast
  have "b \<in> fst ` set (threads d1)" using a(2) same_debuggerD(11) [OF d1(2)] by (metis list.set_map)
  from program_thread_ok [OF K d1(3) this g] obtain d2 where
    d2: "program_thread M g b d1 = Inr d2" "same_debugger d1 d2" "thr_ok (threads d2)" by blast
  have s: "same_debugger d d2" by (rule same_debugger_trans [OF d1(2) d2(2)])
  then have "dbg_inv d2" using I d2(3) bps_ok_same [OF _ s] wps_ok_same [OF _ s] by (simp add: dbg_inv_def)
  with s d1 d2 show ?thesis by blast
qed

lemma bp_delete_threads:
  assumes K: "kernel_ok M" and I: "dbg_inv d" and g: "pl_get (breakpoints d) a = Some b" and hw: "bp_hw b"
  shows "\<exists>d'. bp_delete_internal M a d = Inr d' \<and> dbg_inv d' \<and> breakpoints d' = pl_delete a (breakpoints d) \<and>
    watchpoints d' = watchpoints d \<and> undebugged (threads d') = undebugged (threads d)"
proof -
  have T: "thr_ok (threads d)" and B: "bps_ok d" using I by (simp_all add: dbg_inv_def)
  have m: "(a, b) \<in> set (breakpoints d)" using g B by (simp add: pl_get_mem bps_ok_def)
  with B hw have r: "0 \<le> hw_bp_reg b" "hw_bp_reg b < 16" by (fastforce simp: bps_ok_def bp_reg_ok_def)+
  from program_threads_ok [OF K T reg_change_clear [OF r], of "bp_threadinfo b"] obtain d1 where
    d1: "disable_hw_bp M b d = Inr d1" "same_debugger d d1" by (auto simp: disable_hw_bp_def)
  from bp_delete_ok [OF K I, of a] m obtain d' where
    d': "bp_delete_internal M a d = Inr d'" "dbg_inv d'" "breakpoints d' = pl_delete a (breakpoints d)" by force
  have "threads d' = threads d1" "watchpoints d' = watchpoints d1"
    using d'(1) by (auto simp: bp_delete_internal_def bp_set_state_internal_def g hw d1(1) upd_bp_def)
  with d' d1(2) same_debuggerD(2) [OF d1(2)] show ?thesis by (auto simp: same_debugger_def)
qed

lemma pl_update_other: "a \<notin> fst ` set xs \<Longrightarrow> pl_update a f xs = xs"
  by (induction xs) auto

lemma pl_update_value:
  "distinct (map fst xs) \<Longrightarrow> pl_get xs a = Some x \<Longrightarrow> pl_update a (\<lambda>_. f x) xs = pl_update a f xs"
proof (induction xs)
  case (Cons c xs)
  then show ?case by (cases c) (auto simp: pl_get_def pl_update_other split: if_splits)
qed simp

lemma pl_update_id: "distinct (map fst xs) \<Longrightarrow> pl_get xs a = Some x \<Longrightarrow> pl_update a (\<lambda>_. x) xs = xs"
  using pl_update_value [of xs a x "\<lambda>x. x"] by (simp add: pl_update_def)

lemma key_mem: "(a, x) \<in> set xs \<Longrightarrow> a \<in> fst ` set xs"
  by force

text \<open>What an adjustment keeps.\<close>

definition adjust_inv :: "(nat \<times> int \<times> u64 \<times> string) list \<Rightarrow> 'k dbg \<Rightarrow> bool" where
  "adjust_inv J d \<longleftrightarrow> dbg_inv d \<and> idents (threads d) = J \<and> ids_ok (threads d)"

lemma adjust_inv_moved:
  assumes "adjust_inv J d" "same_debugger d d'" "dbg_inv d'"
  shows "adjust_inv J d'" "breakpoints d' = breakpoints d" "watchpoints d' = watchpoints d"
proof -
  have "idents (threads d') = idents (threads d)"
    by (rule idents_same) (use assms(2) in \<open>simp add: same_debugger_def\<close>)
  with assms ids_ok_idents [OF this] show "adjust_inv J d'" by (simp add: adjust_inv_def)
  show "breakpoints d' = breakpoints d" "watchpoints d' = watchpoints d" using same_debuggerD [OF assms(2)] by simp_all
qed

lemma adjust_breakpoint_step:
  assumes K: "kernel_ok M" and I: "adjust_inv J (fst s)" and a: "a \<in> fst ` set (breakpoints (fst s))"
  shows "\<exists>s'. adjust_breakpoint M a s = Inr s' \<and> adjust_inv J (fst s') \<and> watchpoints (fst s') = watchpoints (fst s) \<and>
    breakpoints (fst s') = touch_all {a} (\<lambda>_. True) (settle_bp (threads (fst s))) (breakpoints (fst s))"
proof -
  let ?d = "fst s"
  have inv: "dbg_inv ?d" "ids_ok (threads ?d)" "bps_ok ?d" using I by (simp_all add: adjust_inv_def dbg_inv_def)
  have D: "distinct (map fst (breakpoints ?d))" using inv(3) by (simp add: bps_ok_def)
  obtain b where b: "(a, b) \<in> set (breakpoints ?d)" using a by auto
  with D have g: "pl_get (breakpoints ?d) a = Some b" by (simp add: pl_get_mem)
  note t1 = touch_one [OF D g, of "settle_bp (threads ?d)"]
  let ?ti = "bp_threadinfo b"
  show ?thesis
  proof (cases "all_threads ?ti \<or> \<not> bp_hw b")
    case True
    then show ?thesis using I by (simp add: adjust_breakpoint_def g t1 settle_bp_def pl_update_id [OF D g])
  next
    case False
    with b inv(3) have r: "0 \<le> hw_bp_reg b" "hw_bp_reg b < 16" by (fastforce simp: bps_ok_def bp_reg_ok_def)+
    note fe = fetched [OF inv(2), of ?ti]
    show ?thesis
    proof (cases "settle (threads ?d) ?ti")
      case None
      note n = fetched_none [OF inv(2) None]
      from bp_delete_threads [OF K inv(1) g] False obtain d' where
        d': "bp_delete_internal M a ?d = Inr d'" "dbg_inv d'" "breakpoints d' = pl_delete a (breakpoints ?d)"
        "watchpoints d' = watchpoints ?d" "idents (threads d') = idents (threads ?d)"
        using idents_same by (metis (no_types, lifting))
      have A: "adjust_breakpoint M a s = delete_invalid_bp M a b s"
        using False n by (cases "fetch_point_threads ?ti ?d") (auto simp: adjust_breakpoint_def g split: option.split)
      have "settle_bp (threads ?d) b = None" using False None by (simp add: settle_bp_def)
      then show ?thesis using A d' I ids_ok_idents [OF d'(5)]
        by (simp add: delete_invalid_bp_def breakpoint_delete_specific_def t1 adjust_inv_def)
    next
      case (Some ti')
      from fetched_some [OF inv(2) this] obtain fa f ca c where F: "fetch_point_threads ?ti ?d = (Some (fa, f), Some (ca, c))"
        and fm: "(fa, f) \<in> set (threads ?d)" "(ca, c) \<in> set (threads ?d)"
        and ti': "ti' = (if tid f \<noteq> pthread_tid ?ti \<or> ID f \<noteq> iosdbg_tid ?ti then correct_threadinfo c ?ti else ?ti)" .
      let ?move = "tid f \<noteq> pthread_tid ?ti \<or> ID f \<noteq> iosdbg_tid ?ti"
      have st: "settle_bp (threads ?d) b = Some (b\<lparr>bp_threadinfo := if ?move then correct_threadinfo c ?ti else ?ti\<rparr>)"
        using False Some by (simp add: settle_bp_def ti')
      show ?thesis
      proof (cases ?move)
        case True
        from move_registers [OF K inv(1) reg_change_clear_bp [OF r] reg_change_put_bp [OF r]
            key_mem [OF fm(1)] key_mem [OF fm(2)]] obtain d1 d2 where
          d: "program_thread M (clear_bp_regs b) fa ?d = Inr d1" "program_thread M (put_bp_regs b) ca d1 = Inr d2"
          "same_debugger ?d d2" "dbg_inv d2" by blast
        note m = adjust_inv_moved [OF I d(3,4)]
        let ?f = "\<lambda>b. b\<lparr>bp_threadinfo := correct_threadinfo c (bp_threadinfo b)\<rparr>"
        have "bps_ok (upd_bp a ?f d2)" by (rule bps_ok_upd) (use d(4) in \<open>simp_all add: dbg_inv_def\<close>)
        then have "adjust_inv J (upd_bp a ?f d2)" using m(1)
          by (simp add: adjust_inv_def dbg_inv_def upd_bp_def wps_ok_def)
        then show ?thesis using True False g F d m
          by (simp add: adjust_breakpoint_def t1 st upd_bp_def pl_update_value [OF D g, of ?f])
      next
        case nm: False
        then show ?thesis using False g F I
          by (simp add: adjust_breakpoint_def t1 st pl_update_id [OF D g])
      qed
    qed
  qed
qed

lemma wps_ok_upd:
  assumes "wps_ok d" "\<And>w. hw_wp_reg (f w) = hw_wp_reg w \<and> wp_id (f w) = wp_id w"
  shows "wps_ok (upd_wp a f d)"
proof -
  let ?ws = "pl_update a f (watchpoints d)"
  have "map (hw_wp_reg \<circ> snd) ?ws = map (hw_wp_reg \<circ> snd) (watchpoints d)" "map (wp_id \<circ> snd) ?ws = map (wp_id \<circ> snd) (watchpoints d)"
    "length ?ws = length (watchpoints d)"
    using assms(2) by (auto simp: pl_update_def split_beta)
  moreover have "c \<in> set ?ws \<Longrightarrow> \<exists>x. (fst c, x) \<in> set (watchpoints d) \<and> hw_wp_reg (snd c) = hw_wp_reg x \<and> wp_id (snd c) = wp_id x" for c
    using assms(2) by (cases c) (auto simp: pl_update_mem split: if_splits)
  ultimately show ?thesis using assms(1) unfolding upd_wp_def wps_ok_def by fastforce
qed

lemma adjust_watchpoint_step:
  assumes K: "kernel_ok M" and I: "adjust_inv J (fst s)" and a: "a \<in> fst ` set (watchpoints (fst s))"
  shows "\<exists>s'. adjust_watchpoint M a s = Inr s' \<and> adjust_inv J (fst s') \<and> breakpoints (fst s') = breakpoints (fst s) \<and>
    watchpoints (fst s') = touch_all {a} (\<lambda>_. True) (settle_wp (threads (fst s))) (watchpoints (fst s))"
proof -
  let ?d = "fst s"
  have inv: "dbg_inv ?d" "ids_ok (threads ?d)" "wps_ok ?d" "bps_ok ?d" using I by (simp_all add: adjust_inv_def dbg_inv_def)
  have D: "distinct (map fst (watchpoints ?d))" using inv(3) by (simp add: wps_ok_def)
  obtain w where w: "(a, w) \<in> set (watchpoints ?d)" using a by auto
  with D have g: "pl_get (watchpoints ?d) a = Some w" by (simp add: pl_get_mem)
  from w inv(3) have r: "0 \<le> hw_wp_reg w" "hw_wp_reg w < 16" by (auto simp: wps_ok_def)
  note t1 = touch_one [OF D g, of "settle_wp (threads ?d)"]
  let ?ti = "wp_threadinfo w"
  show ?thesis
  proof (cases "all_threads ?ti")
    case True
    then show ?thesis using I by (simp add: adjust_watchpoint_def g t1 settle_wp_def pl_update_id [OF D g])
  next
    case False
    show ?thesis
    proof (cases "settle (threads ?d) ?ti")
      case None
      note n = fetched_none [OF inv(2) None]
      from switch_wp_ok [OF K inv(1) w, of True] obtain d1 where
        d1: "disable_wp M w ?d = Inr d1" "same_debugger ?d d1" "dbg_inv d1" by (auto simp: wp_set_state_internal_def)
      from wp_delete_ok [OF K inv(1) a] obtain d' where
        d': "wp_delete_internal M a ?d = Inr d'" "dbg_inv d'" "watchpoints d' = pl_delete a (watchpoints ?d)" by blast
      then have e: "threads d' = threads d1" "breakpoints d' = breakpoints d1" by (auto simp: wp_delete_internal_def g d1(1))
      note m = adjust_inv_moved [OF I d1(2,3)]
      have A: "adjust_watchpoint M a s = delete_invalid_wp M a w s"
        using False n by (cases "fetch_point_threads ?ti ?d") (auto simp: adjust_watchpoint_def g split: option.split)
      have "settle_wp (threads ?d) w = None" using False None by (simp add: settle_wp_def)
      then show ?thesis using A d' e m
        by (simp add: delete_invalid_wp_def watchpoint_delete_specific_def t1 adjust_inv_def)
    next
      case (Some ti')
      from fetched_some [OF inv(2) this] obtain fa f ca c where F: "fetch_point_threads ?ti ?d = (Some (fa, f), Some (ca, c))"
        and fm: "(fa, f) \<in> set (threads ?d)" "(ca, c) \<in> set (threads ?d)"
        and ti': "ti' = (if tid f \<noteq> pthread_tid ?ti \<or> ID f \<noteq> iosdbg_tid ?ti then correct_threadinfo c ?ti else ?ti)" .
      let ?move = "tid f \<noteq> pthread_tid ?ti \<or> ID f \<noteq> iosdbg_tid ?ti"
      have st: "settle_wp (threads ?d) w = Some (w\<lparr>wp_threadinfo := if ?move then correct_threadinfo c ?ti else ?ti\<rparr>)"
        using False Some by (simp add: settle_wp_def ti')
      show ?thesis
      proof (cases ?move)
        case True
        from move_registers [OF K inv(1) reg_change_clear_wp [OF r] reg_change_put_wp [OF r]
            key_mem [OF fm(1)] key_mem [OF fm(2)]] obtain d1 d2 where
          d: "program_thread M (clear_wp_regs w) fa ?d = Inr d1" "program_thread M (put_wp_regs w) ca d1 = Inr d2"
          "same_debugger ?d d2" "dbg_inv d2" by blast
        note m = adjust_inv_moved [OF I d(3,4)]
        let ?f = "\<lambda>w. w\<lparr>wp_threadinfo := correct_threadinfo c (wp_threadinfo w)\<rparr>"
        have "wps_ok (upd_wp a ?f d2)" by (rule wps_ok_upd) (use d(4) in \<open>simp_all add: dbg_inv_def\<close>)
        then have "adjust_inv J (upd_wp a ?f d2)" using m(1)
          by (simp add: adjust_inv_def dbg_inv_def upd_wp_def)
        then show ?thesis using True False g F d m
          by (simp add: adjust_watchpoint_def t1 st upd_wp_def pl_update_value [OF D g, of ?f])
      next
        case nm: False
        then show ?thesis using False g F I
          by (simp add: adjust_watchpoint_def t1 st pl_update_id [OF D g])
      qed
    qed
  qed
qed

section \<open>All points\<close>

definition settle_all :: "('a \<Rightarrow> 'a option) \<Rightarrow> 'a plist \<Rightarrow> 'a plist" where
  "settle_all h xs = List.map_filter (\<lambda>(a, x). map_option (Pair a) (h x)) xs"

lemma settle_bp_idents: "idents ts = idents us \<Longrightarrow> settle_bp ts = settle_bp us"
  by (rule ext) (simp only: settle_bp_def settle_idents [of ts us])

lemma settle_wp_idents: "idents ts = idents us \<Longrightarrow> settle_wp ts = settle_wp us"
  by (rule ext) (simp only: settle_wp_def settle_idents [of ts us])

lemma adjusted:
  assumes K: "kernel_ok M" and I: "dbg_inv d" and ids: "ids_ok (threads d)"
  shows "\<exists>d' out'. adjust_bps_and_wps M (d, out) = Inr (d', out') \<and> dbg_inv d' \<and> idents (threads d') = idents (threads d) \<and>
    breakpoints d' = settle_all (settle_bp (threads d)) (breakpoints d) \<and>
    watchpoints d' = settle_all (settle_wp (threads d)) (watchpoints d)"
proof -
  define J where "J = idents (threads d)"
  let ?I1 = "\<lambda>s. adjust_inv J (fst s) \<and> watchpoints (fst s) = watchpoints d"
  have "\<exists>s'. run_list (adjust_breakpoint M) (map fst (breakpoints (fst (d, out)))) (d, out) = Inr s' \<and> ?I1 s' \<and>
      breakpoints (fst s') = touch_all (fst ` set (breakpoints (fst (d, out)))) (\<lambda>_. True) (settle_bp (threads d)) (breakpoints (fst (d, out)))"
  proof (rule run_touches [where I = ?I1 and pts = "\<lambda>s. breakpoints (fst s)"])
    show "?I1 (d, out)" using I ids by (simp add: adjust_inv_def J_def)
  next
    fix a and s :: "'a dbg \<times> cbuf" assume s: "?I1 s" "a \<in> fst ` set (breakpoints (fst s))"
    then have "settle_bp (threads (fst s)) = settle_bp (threads d)"
      by (intro settle_bp_idents) (simp add: adjust_inv_def J_def)
    with adjust_breakpoint_step [OF K _ s(2)] s(1)
    show "\<exists>s'. adjust_breakpoint M a s = Inr s' \<and> ?I1 s' \<and>
        breakpoints (fst s') = touch_all {a} (\<lambda>_. True) (settle_bp (threads d)) (breakpoints (fst s))" by fastforce
  qed (simp add: adjust_inv_def dbg_inv_def bps_ok_def)
  then obtain s1 where s1: "adjust_breakpoints M (d, out) = Inr s1" "adjust_inv J (fst s1)" "watchpoints (fst s1) = watchpoints d"
    "breakpoints (fst s1) = settle_all (settle_bp (threads d)) (breakpoints d)"
    by (auto simp: adjust_breakpoints_def touch_all_whole settle_all_def)
  let ?I2 = "\<lambda>s. adjust_inv J (fst s) \<and> breakpoints (fst s) = breakpoints (fst s1)"
  have "\<exists>s'. run_list (adjust_watchpoint M) (map fst (watchpoints (fst s1))) s1 = Inr s' \<and> ?I2 s' \<and>
      watchpoints (fst s') = touch_all (fst ` set (watchpoints (fst s1))) (\<lambda>_. True) (settle_wp (threads d)) (watchpoints (fst s1))"
  proof (rule run_touches [where I = ?I2 and pts = "\<lambda>s. watchpoints (fst s)"])
    show "?I2 s1" using s1 by simp
  next
    fix a and s :: "'a dbg \<times> cbuf" assume s: "?I2 s" "a \<in> fst ` set (watchpoints (fst s))"
    then have "settle_wp (threads (fst s)) = settle_wp (threads d)"
      by (intro settle_wp_idents) (simp add: adjust_inv_def J_def)
    with adjust_watchpoint_step [OF K _ s(2)] s(1)
    show "\<exists>s'. adjust_watchpoint M a s = Inr s' \<and> ?I2 s' \<and>
        watchpoints (fst s') = touch_all {a} (\<lambda>_. True) (settle_wp (threads d)) (watchpoints (fst s))" by fastforce
  qed (simp add: adjust_inv_def dbg_inv_def wps_ok_def)
  then obtain s2 where s2: "adjust_watchpoints M s1 = Inr s2" "adjust_inv J (fst s2)" "breakpoints (fst s2) = breakpoints (fst s1)"
    "watchpoints (fst s2) = settle_all (settle_wp (threads d)) (watchpoints d)"
    by (auto simp: adjust_watchpoints_def touch_all_whole settle_all_def s1(3))
  have "adjust_bps_and_wps M (d, out) = Inr s2" by (simp add: adjust_bps_and_wps_def s1(1) s2(1))
  moreover obtain d' out' where "s2 = (d', out')" by (cases s2)
  ultimately show ?thesis using s2 s1(4) by (auto simp: adjust_inv_def J_def)
qed

section \<open>What the calls of a detach leave alone\<close>

text \<open>
  A view of the kernel that no call on memory or on a thread changes, as the suspend count of the task is; the
  operations on points change neither it nor the convenience variables.
\<close>

definition mach_keeps :: "'k mach \<Rightarrow> ('k \<Rightarrow> 'v) \<Rightarrow> bool" where
  "mach_keeps M f \<longleftrightarrow> (\<forall>k a n p. f (vm_protect M k a n p) = f k) \<and> (\<forall>k a bs. f (snd (vm_write M k a bs)) = f k) \<and>
     (\<forall>k p s. f (snd (debug_set_state M k p s)) = f k)"

definition view :: "('k \<Rightarrow> 'v) \<Rightarrow> 'k dbg \<Rightarrow> 'v \<times> cvars" where
  "view f d = (f (kern d), vars d)"

lemma view_simps [simp]:
  "view f (d\<lparr>threads := ts\<rparr>) = view f d" "view f (d\<lparr>breakpoints := bs\<rparr>) = view f d" "view f (d\<lparr>watchpoints := ws\<rparr>) = view f d"
  "view f (d\<lparr>num_breakpoints := i\<rparr>) = view f d" "view f (d\<lparr>num_watchpoints := i\<rparr>) = view f d"
  "view f (upd_bp a g d) = view f d" "view f (upd_thread a h d) = view f d"
  by (simp_all add: view_def upd_bp_def upd_thread_def)

lemma run_list_keeps:
  assumes "\<And>x s s'. g x s = Inr s' \<Longrightarrow> F s' = F s" and "run_list g xs s = Inr s'"
  shows "F s' = F s"
  using assms(2) by (induction xs arbitrary: s) (auto simp: bind_run_Inr dest: assms(1))

lemma poke_view:
  assumes K: "mach_keeps M f" and p: "poke M loc v n d = Inr d'"
  shows "view f d' = view f d"
  using p K by (auto simp: poke_def write_memory_to_location_def mach_keeps_def view_def Let_def bind_run_Inr
      split: sum.splits prod.splits if_splits) (metis snd_conv)+

lemma program_thread_view:
  assumes K: "mach_keeps M f" and p: "program_thread M g a d = Inr d'"
  shows "view f d' = view f d"
proof -
  have g: "view f (snd (get_debug_state M (Some a) d)) = view f d" for d
    by (simp add: get_debug_state_def get_state_def split: option.split prod.split)
  have "f (snd (store_debug M k t)) = f k" for k t using K by (simp add: store_debug_def mach_keeps_def)
  then have s: "view f (snd (set_debug_state M (Some a) d)) = view f d" for d
    by (simp add: set_debug_state_def set_state_def view_def split: option.split prod.split) (metis snd_conv)
  from p obtain t s1 where "d' = snd (set_debug_state M (Some a) (upd_thread a (\<lambda>t. t\<lparr>debug_state := s1\<rparr>) (snd (get_debug_state M (Some a) d))))"
    by (auto simp: program_thread_def Let_def bind_run_Inr split: option.splits)
  then show ?thesis by (simp add: g s)
qed

lemma program_loop_view:
  assumes K: "mach_keeps M f" and p: "run_list (program_thread M g) xs d = Inr d'"
  shows "view f d' = view f d"
  by (rule run_list_keeps [where F = "view f", OF program_thread_view [OF K] p])

lemma program_threads_view:
  assumes K: "mach_keeps M f" and p: "program_threads M g ti d = Inr d'"
  shows "view f d' = view f d"
  using p program_loop_view [OF K] program_thread_view [OF K]
  by (auto simp: program_threads_def split: if_splits option.splits)

lemma bp_delete_view:
  assumes K: "mach_keeps M f" and p: "bp_delete_internal M a d = Inr d'"
  shows "view f d' = view f d"
  using p by (auto simp: bp_delete_internal_def bp_set_state_internal_def enable_hw_bp_def disable_hw_bp_def bind_run_Inr
      split: option.splits if_splits dest: program_threads_view [OF K] poke_view [OF K])

lemma wp_delete_view:
  assumes K: "mach_keeps M f" and p: "wp_delete_internal M a d = Inr d'"
  shows "view f d' = view f d"
  using p by (auto simp: wp_delete_internal_def disable_wp_def bind_run_Inr split: option.splits dest: program_threads_view [OF K])

lemma delete_all_view:
  assumes K: "mach_keeps M f"
  shows "breakpoint_delete_all M d = Inr d' \<Longrightarrow> view f d' = view f d"
    "watchpoint_delete_all M d = Inr d' \<Longrightarrow> view f d' = view f d"
proof -
  assume "breakpoint_delete_all M d = Inr d'"
  then show "view f d' = view f d" unfolding breakpoint_delete_all_def each_bp_def
    by (rule run_list_keeps [rotated]) (auto split: option.splits dest: bp_delete_view [OF K])
next
  assume "watchpoint_delete_all M d = Inr d'"
  then show "view f d' = view f d" unfolding watchpoint_delete_all_def each_wp_def
    by (rule run_list_keeps [rotated]) (rule wp_delete_view [OF K])
qed

section \<open>Detaching\<close>

text \<open>
  The calls on the task as a detach needs them: they keep the suspend count of the task, a call on the null port has no
  effect on it, and \<^verbatim>\<open>PT_DETACH\<close> succeeds at once.
\<close>

definition detach_calls :: "'k tcalls \<Rightarrow> u32 \<Rightarrow> int \<Rightarrow> bool" where
  "detach_calls C p i \<longleftrightarrow>
     (\<forall>k q x. suspend_count C (snd (set_exception_ports C k q x)) p = suspend_count C k p) \<and>
     (\<forall>k q. suspend_count C (snd (port_deallocate C k q)) p = suspend_count C k p) \<and>
     (\<forall>k s. suspend_count C (snd (send_kill C k i s)) p = suspend_count C k p) \<and>
     (\<forall>k. suspend_count C (snd (pt_detach C k i)) p = suspend_count C k p \<and> fst (pt_detach C k i) \<noteq> - 1) \<and>
     (\<forall>k. suspend_count C (snd (task_resume C k MACH_PORT_NULL)) p = suspend_count C k p) \<and>
     (\<forall>k n. suspend_count C k p = Inr n \<longrightarrow> suspend_count C (snd (task_suspend C k p)) p = Inr (n + 1))"

lemma void_convvar_ok:
  assumes ok: "cvars_ok vs"
  shows "\<exists>vs'. void_convvar vs (Some n) = Inr vs' \<and> cvars_ok vs'"
  using ok
proof (cases rule: lookup_ok [of vs n, case_names none some])
  case (some a v)
  from some obtain cs where cs: "vs = Some cs" "(a, Some v) \<in> set cs" by (cases vs) (auto simp: cells_of_def)
  with cells_ok_update [of cs a v "v\<lparr>vstate := CONVVAR_VOID\<rparr>"] ok
  have "cvars_ok (set_cell vs a (Some (v\<lparr>vstate := CONVVAR_VOID\<rparr>)))" by (simp add: cvars_ok_def cells_of_def set_cell_def)
  with some show ?thesis by (simp add: void_convvar_def)
qed (use ok in \<open>simp_all add: void_convvar_def\<close>)

lemma void_automatic_ok:
  assumes "cvars_ok vs"
  obtains vs' where "void_automatic vs = Inr vs'" "cvars_ok vs'"
proof -
  from void_convvar_ok [OF assms] obtain v1 where v1: "void_convvar vs (Some ''$_'') = Inr v1" "cvars_ok v1" by blast
  from void_convvar_ok [OF v1(2)] obtain v2 where v2: "void_convvar v1 (Some ''$__'') = Inr v2" "cvars_ok v2" by blast
  from void_convvar_ok [OF v2(2)] obtain v3 where v3: "void_convvar v2 (Some ''$ASLR'') = Inr v3" "cvars_ok v3" by blast
  show thesis by (rule that [of v3]) (simp_all add: void_automatic_def v1 v2 v3)
qed

text \<open>The suspend count of the task with port \<open>p\<close>, through a session.\<close>

abbreviation (input) count_of :: "'k tenv \<Rightarrow> u32 \<Rightarrow> 'k sess \<Rightarrow> kern_return + int" where
  "count_of T p S \<equiv> suspend_count (tc T) (kern (db S)) p"

lemma let_go_detached:
  assumes D: "detach_calls (tc T) p (pid S)"
  obtains S' where "let_go T from_death S = Inr S'" "count_of T p S' = count_of T p S" "task S' = task S"
    "vars (db S') = vars (db S)" "need_reply S' = need_reply S" "exc_queue S' = exc_queue S"
proof (cases "from_death \<or> no_signals S")
  case True
  then show thesis by (intro that [of S]) (simp_all add: let_go_def)
next
  case False
  define k1 where "k1 = snd (send_kill (tc T) (kern (db S)) (pid S) SIGSTOP)"
  define k2 where "k2 = snd (pt_detach (tc T) k1 (pid S))"
  have "detach_loop (pt_detach (tc T)) (pid S) (pt_detach (tc T) k1 (pid S)) = Some k2"
    using D by (subst detach_loop.simps) (simp add: detach_calls_def k2_def)
  with False have "let_go T from_death S = Inr (set_kern (snd (send_kill (tc T) k2 (pid S) SIGCONT)) S)"
    by (simp add: let_go_def k1_def)
  then show thesis by (rule that) (use D in \<open>simp_all add: set_kern_def detach_calls_def k1_def k2_def\<close>)
qed

lemma ports_restored:
  assumes D: "detach_calls (tc T) p i"
  shows "count_of T p (restore_exception_ports T S) = count_of T p S" "vars (db (restore_exception_ports T S)) = vars (db S)"
    "task (restore_exception_ports T S) = task S" "pid (restore_exception_ports T S) = pid S"
proof -
  define g where "g = (\<lambda>x S. set_kern (snd (set_exception_ports (tc T) (kern (db S)) (task S) x)) S)"
  have "count_of T p (fold g ps S) = count_of T p S \<and> vars (db (fold g ps S)) = vars (db S) \<and>
      task (fold g ps S) = task S \<and> pid (fold g ps S) = pid S" for ps S
  proof (induction ps arbitrary: S)
    case (Cons x ps)
    have "count_of T p (g x S) = count_of T p S" "vars (db (g x S)) = vars (db S)" "task (g x S) = task S"
      "pid (g x S) = pid S" for S
      using D by (cases x; simp add: g_def set_kern_def detach_calls_def)+
    with Cons [of "g x S"] show ?case by simp
  qed simp
  then show "count_of T p (restore_exception_ports T S) = count_of T p S" "vars (db (restore_exception_ports T S)) = vars (db S)"
    "task (restore_exception_ports T S) = task S" "pid (restore_exception_ports T S) = pid S"
    unfolding restore_exception_ports_def g_def by blast+
qed

lemma dbg_inv_kern: "dbg_inv (d\<lparr>kern := k\<rparr>) = dbg_inv d"
  by (simp add: dbg_inv_def bps_ok_def wps_ok_def)

lemma reg_change_clear_mdscr: "reg_change clear_mdscr"
  by (simp add: reg_change_def clear_mdscr_def regs16_def)

text \<open>Up to the point where the ports are given back: all points deleted, the task stopped once.\<close>

lemma points_gone:
  assumes K: "kernel_ok M" and I: "dbg_inv d" and keeps: "mach_keeps M f"
  obtains d2 d3 d4 where "breakpoint_delete_all M d = Inr d2" "watchpoint_delete_all M d2 = Inr d3"
    "run_list (program_thread M clear_mdscr) (map fst (threads d3)) d3 = Inr d4" "view f d4 = view f d"
proof -
  from delete_all_ok [OF K I] obtain d2 where d2: "breakpoint_delete_all M d = Inr d2" "dbg_inv d2" by blast
  from watchpoint_delete_all_ok [OF K d2(2)] obtain d3 where d3: "watchpoint_delete_all M d2 = Inr d3" "dbg_inv d3" by blast
  have "thr_ok (threads d3)" using d3(2) by (simp add: dbg_inv_def)
  from program_threads_ok [OF K this reg_change_clear_mdscr, of "\<lparr>all_threads = True, iosdbg_tid = 0, pthread_tid = 0, ti_name = None\<rparr>"]
  obtain d4 where d4: "run_list (program_thread M clear_mdscr) (map fst (threads d3)) d3 = Inr d4"
    by (auto simp: program_threads_def)
  from delete_all_view(1) [OF keeps d2(1)] delete_all_view(2) [OF keeps d3(1)] program_loop_view [OF keeps d4]
  have "view f d4 = view f d" by simp
  with d2(1) d3(1) d4 that show thesis by blast
qed

lemma suspended_once:
  assumes D: "detach_calls (tc T) (task S) i" and c: "count_of T (task S) S = Inr 0"
  shows "count_of T (task S) (snd (ops_suspend T S)) = Inr 1"
    "snd (ops_suspend T S) = S\<lparr>db := (db S)\<lparr>kern := kern (db (snd (ops_suspend T S)))\<rparr>\<rparr>"
proof -
  have s: "snd (ops_suspend T S) = set_kern (snd (task_suspend (tc T) (kern (db S)) (task S))) S"
    using c by (simp add: ops_suspend_def suspend_def suspended_def task_call_def split_beta)
  show "count_of T (task S) (snd (ops_suspend T S)) = Inr 1" unfolding s using D c by (simp add: set_kern_def detach_calls_def)
  show "snd (ops_suspend T S) = S\<lparr>db := (db S)\<lparr>kern := kern (db (snd (ops_suspend T S)))\<rparr>\<rparr>"
    unfolding s by (simp add: set_kern_def)
qed

lemma all_replied:
  obtains S' where "reply_to_all_exceptions S = Inr S'" "db S' = db S" "task S' = task S" "pid S' = pid S" "\<not> need_reply S'"
    "no_signals S' = no_signals S"
  by (cases "need_reply S"; cases "exc_queue S") (auto simp: reply_to_all_exceptions_def)

lemma detached_suspended:
  assumes K: "kernel_ok (mc (de T))" and I: "dbg_inv (db S)" and V: "cvars_ok (vars (db S))"
    and keeps: "mach_keeps (mc (de T)) (\<lambda>k. suspend_count (tc T) k (task S))"
    and D: "detach_calls (tc T) (task S) (pid S)" and c: "count_of T (task S) S = Inr 0"
  shows "\<exists>S' out'. ops_detach T from_death S out = Inr (S', out') \<and> count_of T (task S) S' = Inr 1 \<and>
    task S' = MACH_PORT_NULL \<and> pid S' = - 1 \<and> breakpoints (db S') = [] \<and> watchpoints (db S') = []"
proof -
  let ?p = "task S" and ?M = "mc (de T)"
  let ?f = "\<lambda>k. suspend_count (tc T) k ?p"
  define S1 where "S1 = snd (ops_suspend T S)"
  note s1 = suspended_once [OF D c, folded S1_def]
  have i1: "dbg_inv (db S1)" and v1: "vars (db S1) = vars (db S)" using I by (subst s1(2), simp add: dbg_inv_kern)+
  from points_gone [OF K i1 keeps] obtain d2 d3 d4 where
    d: "breakpoint_delete_all ?M (db S1) = Inr d2" "watchpoint_delete_all ?M d2 = Inr d3"
    "run_list (program_thread ?M clear_mdscr) (map fst (threads d3)) d3 = Inr d4" "view ?f d4 = view ?f (db S1)" .
  define S4 where "S4 = S1\<lparr>db := d4\<rparr>"
  have f1: "task S1 = ?p" "pid S1 = pid S" by (subst s1(2), simp)+
  have S4: "count_of T ?p S4 = Inr 1" "vars (db S4) = vars (db S)" "task S4 = ?p" "pid S4 = pid S"
    using d(4) s1(1) v1 f1 by (simp_all add: view_def S4_def)
  obtain S5 where r: "reply_to_all_exceptions (restore_exception_ports T S4) = Inr S5"
    and q: "db S5 = db (restore_exception_ports T S4)" "task S5 = ?p" "pid S5 = pid S" "\<not> need_reply S5"
    using all_replied [of "restore_exception_ports T S4"] ports_restored(3,4) [OF D, of S4] S4 by metis
  have c5: "count_of T ?p S5 = Inr 1" "vars (db S5) = vars (db S)"
    using ports_restored(1,2) [OF D, of S4] S4 q(1) by simp_all
  obtain rr S6 out6 where e: "deallocate_ports T S5 out = (rr, S6, out6)" by (metis prod_cases3)
  have S6: "count_of T ?p S6 = Inr 1" "vars (db S6) = vars (db S)" "task S6 = MACH_PORT_NULL" "pid S6 = pid S" "\<not> need_reply S6"
    using e c5 q D by (auto simp: deallocate_ports_def task_call_def set_kern_def split_beta detach_calls_def Let_def)
  from let_go_detached [of T ?p S6] D S6(4) obtain S7 where
    S7: "let_go T from_death S6 = Inr S7" "count_of T ?p S7 = Inr 1" "task S7 = MACH_PORT_NULL" "vars (db S7) = vars (db S)" "\<not> need_reply S7"
    using S6 by metis
  from void_automatic_ok [OF V] obtain vs where vs: "void_automatic (vars (db S7)) = Inr vs" using S7(4) by metis
  obtain S8 out8 where f: "forget_target S7 out6 = Inr (S8, out8)" and S8: "kern (db S8) = kern (db S7)" "task S8 = MACH_PORT_NULL"
    "pid S8 = - 1" "breakpoints (db S8) = []" "watchpoints (db S8) = []" "\<not> need_reply S8"
    using vs S7 by (simp add: forget_target_def)
  have "ops_resume T S8 = Inr (resume T S8)" using S8(6) by (simp add: ops_resume_def reply_to_all_exceptions_def)
  then have "ops_detach T from_death S out = Inr (snd (resume T S8), out8)"
    using d r e S7(1) f by (simp add: ops_detach_def on_db_def S1_def [symmetric] S4_def [symmetric] split_beta)
  moreover have "count_of T ?p (snd (resume T S8)) = Inr 1"
    using D S7(2) S8(1,2) by (simp add: resume_def task_call_def set_kern_def split_beta detach_calls_def)
  ultimately show ?thesis using S8 by (auto simp: resume_def task_call_def set_kern_def split_beta)
qed

end
