(* ===== verification/Servers.thy ===== *)
theory Servers
  imports Taskops
begin

text \<open>
  The threads of the debugger that serve its target, \<^verbatim>\<open>source/servers.c\<close>: what each does with what it received. The
  Mach messages, the kernel event and the status of the target are input, and the order in which the servers and the
  commands run is a sequence of events; the locks make each of them one step.
\<close>

section \<open>Exceptions\<close>

text \<open>
  The exceptions of a round are put into the queue of those to reply to, which does not exist after a detach. \<open>pb\<close> and
  \<open>cb\<close> are memory behind two blocks and \<open>sj\<close> an uninitialised variable, see \<open>Exceptions\<close>.
\<close>

definition gather :: "exc_msg list \<Rightarrow> 'k sess \<Rightarrow> 'k sess" where
  "gather msgs S = S\<lparr>need_reply := True, exc_queue := map_option (\<lambda>q. q @ msgs) (exc_queue S)\<rparr>"

definition session_ctx :: "int \<Rightarrow> u8 list \<Rightarrow> u8 list \<Rightarrow> 'k sess \<Rightarrow> hctx" where
  "session_ctx sj pb cb S = \<lparr>sigtab = signals S, sigjunk = sj, behind_prev = pb, behind_cur = cb, nosigs = no_signals S\<rparr>"

definition exception_round ::
    "'k tenv \<Rightarrow> int \<Rightarrow> u8 list \<Rightarrow> u8 list \<Rightarrow> exc_msg list \<Rightarrow> 'k sess \<Rightarrow> ('k sess \<times> cbuf) run" where
  "exception_round T sj pb cb msgs S =
     (let S1 = gather msgs (snd (ops_suspend T S)) in
      bind_run (handle_batch (de T) (session_ctx sj pb cb S1) (map msg_body msgs) (db S1) True None) (\<lambda>(d, auto, buf).
        let S2 = S1\<lparr>db := d\<rparr> in
        if auto then bind_run (ops_resume T S2) (\<lambda>(_, S3). Inr (S3, buf)) else Inr (S2, buf)))"

section \<open>The death of the target\<close>

text \<open>The status as the macros read it: exited with a value, ended by a signal, or neither.\<close>

datatype wait_status = Exited int | Signaled int | Other_status

definition hex8 :: "int \<Rightarrow> string" where
  "hex8 i = (let s = show_base 16 i in ''0x'' @ replicate (8 - length s) (CHR ''0'') @ s)"

definition hex_alt :: "int \<Rightarrow> string" where
  "hex_alt i = (if i = 0 then ''0'' else ''0x'' @ show_base 16 i)"

text \<open>One variable becomes void, and the other is set.\<close>

definition end_vars :: "'k tenv \<Rightarrow> string \<Rightarrow> string \<Rightarrow> int \<Rightarrow> 'k sess \<Rightarrow> cbuf \<Rightarrow> ('k sess \<times> cbuf) run" where
  "end_vars T gone name v S out =
     bind_run (void_convvar (vars (db S)) (Some gone)) (\<lambda>vs.
     bind_run (set_convvar (cve (de T)) vs (fresh (db S)) (Some name) (Some (hex_alt v)) None) (\<lambda>(vs', e).
       Inr (S\<lparr>db := (db S)\<lparr>vars := vs', fresh := fresh (db S) + 1\<rparr>\<rparr>, desc_auto_convvar_error_if_needed out (Some name) e)))"

definition death_report :: "'k tenv \<Rightarrow> wait_status \<Rightarrow> 'k sess \<Rightarrow> ('k sess \<times> cbuf) run" where
  "death_report T st S =
     (let who = (case debuggee_name S of None \<Rightarrow> ''(null)'' | Some n \<Rightarrow> n) @ '' ('' @ show_dec (pid S) @ '')'' in
      case st of
        Exited v \<Rightarrow> end_vars T ''$_exitsignal'' ''$_exitcode'' v S
            (concat_c None (concat [[CHR 0x0A], ''['', who, '' exited normally (status = '', hex8 v, '')]'', [CHR 0x0A]]))
      | Signaled n \<Rightarrow> end_vars T ''$_exitcode'' ''$_exitsignal'' n S
            (concat_c None (concat [[CHR 0x0A], ''['', who, '' terminated due to signal '', show_dec n, '']'', [CHR 0x0A]]))
      | Other_status \<Rightarrow> Inr (S, None))"

definition death_server :: "'k tenv \<Rightarrow> wait_status \<Rightarrow> 'k sess \<Rightarrow> ('k sess \<times> cbuf) run" where
  "death_server T st S =
     (if pid S = - 1 then Inr (S, None)
      else bind_run (death_report T st S) (\<lambda>(S1, buf). ops_detach T True S1 buf))"

section \<open>The monitor of the threads\<close>

definition monitor_round :: "'k tenv \<Rightarrow> 'k sess \<Rightarrow> ('k sess \<times> cbuf) run" where
  "monitor_round T S = (if MACH_PORT_VALID (death_notify_port (db S)) then ops_threadupdate T S None else Inr (S, None))"

text \<open>
  \<open>kq\<close> tells whether the event queue could be made. The exception server makes the queue of exceptions before it waits
  for the first.
\<close>

definition setup_servers :: "'k tenv \<Rightarrow> bool \<Rightarrow> 'k sess \<Rightarrow> cbuf \<Rightarrow> 'k sess \<times> cbuf" where
  "setup_servers T kq S out =
     (case setup_exception_handling T S out of (_, S1, out1) \<Rightarrow>
       (S1\<lparr>exc_queue := Some []\<rparr>,
        if kq then out1 else concat_c out1 (''warning: could not create kernel event queue'' @ [CHR 0x0A])))"

section \<open>Events\<close>

datatype event = Exceptions "exc_msg list" | Threads_changed | Suspend | Continue

definition handle_event :: "'k tenv \<Rightarrow> int \<Rightarrow> u8 list \<Rightarrow> u8 list \<Rightarrow> event \<Rightarrow> 'k sess \<Rightarrow> 'k sess run" where
  "handle_event T sj pb cb ev S =
     (case ev of
        Exceptions msgs \<Rightarrow> bind_run (exception_round T sj pb cb msgs S) (\<lambda>(S1, _). Inr S1)
      | Threads_changed \<Rightarrow> bind_run (monitor_round T S) (\<lambda>(S1, _). Inr S1)
      | Suspend \<Rightarrow> Inr (snd (ops_suspend T S))
      | Continue \<Rightarrow> bind_run (ops_resume T S) (\<lambda>(_, S1). Inr S1))"

fun received :: "event list \<Rightarrow> exc_msg list" where
  "received [] = []"
| "received (Exceptions msgs # evs) = msgs @ received evs"
| "received (_ # evs) = received evs"

section \<open>Every exception is replied to once\<close>

text \<open>
  The messages received so far are, in their order, those that were replied to and then those that wait; none waits
  when no reply is needed.
\<close>

definition replies_ok :: "exc_msg list \<Rightarrow> 'k sess \<Rightarrow> bool" where
  "replies_ok msgs S \<longleftrightarrow> (\<exists>dn q. exc_queue S = Some q \<and> msgs = dn @ q \<and>
     sent S = map (\<lambda>r. reply_to_exception r KERN_SUCCESS) dn \<and> (\<not> need_reply S \<longrightarrow> q = []))"

lemma task_call_fields:
  "exc_queue (snd (task_call f p S)) = exc_queue S" "need_reply (snd (task_call f p S)) = need_reply S"
  "sent (snd (task_call f p S)) = sent S" "pid (snd (task_call f p S)) = pid S"
  by (simp_all add: task_call_def set_kern_def split_beta)

lemma replies_suspend: "replies_ok msgs S \<Longrightarrow> replies_ok msgs (snd (ops_suspend T S))"
  by (simp add: replies_ok_def ops_suspend_def suspend_def task_call_fields)

lemma replies_gather: "replies_ok msgs S \<Longrightarrow> replies_ok (msgs @ new) (gather new S)"
  by (auto simp: replies_ok_def gather_def)

lemma replies_db: "replies_ok msgs S \<Longrightarrow> replies_ok msgs (S\<lparr>db := d\<rparr>)"
  by (simp add: replies_ok_def)

lemma replies_resume:
  assumes "replies_ok msgs S"
  shows "\<exists>r S'. ops_resume T S = Inr (r, S') \<and> replies_ok msgs S' \<and> exc_queue S' = Some []"
proof -
  from assms obtain dn q where "exc_queue S = Some q" "msgs = dn @ q"
    "sent S = map (\<lambda>r. reply_to_exception r KERN_SUCCESS) dn" "\<not> need_reply S \<longrightarrow> q = []" by (auto simp: replies_ok_def)
  then show ?thesis
    by (cases "need_reply S")
      (auto simp: ops_resume_def reply_to_all_exceptions_def resume_def task_call_def set_kern_def replies_ok_def split_beta)
qed

lemma replies_resumed:
  "replies_ok msgs S \<Longrightarrow> ops_resume T S = Inr (r, S') \<Longrightarrow> replies_ok msgs S' \<and> exc_queue S' = Some []"
  using replies_resume [of msgs S T] by auto

lemma replies_event:
  assumes "replies_ok msgs S" "handle_event T sj pb cb ev S = Inr S'"
  shows "replies_ok (msgs @ received [ev]) S'"
proof (cases ev)
  case (Exceptions new)
  have g: "replies_ok (msgs @ new) (gather new (snd (ops_suspend T S)))"
    by (rule replies_gather [OF replies_suspend [OF assms(1)]])
  show ?thesis using assms(2) replies_db [OF g]
    by (auto simp: Exceptions handle_event_def exception_round_def Let_def bind_run_Inr split: if_splits
        dest: replies_resumed [OF replies_db [OF g]])
next
  case Threads_changed
  then show ?thesis using assms replies_db [OF assms(1)]
    by (auto simp: handle_event_def monitor_round_def ops_threadupdate_def Let_def bind_run_Inr
        split: if_splits option.splits prod.splits)
next
  case Suspend
  then show ?thesis using assms(2) replies_suspend [OF assms(1), of T] by (auto simp: handle_event_def)
next
  case Continue
  with assms(2) show ?thesis by (auto simp: handle_event_def bind_run_Inr dest: replies_resumed [OF assms(1)])
qed

lemma received_append: "received (xs @ ys) = received xs @ received ys"
  by (induction xs rule: received.induct) auto

lemma replies_events:
  assumes "run_list (handle_event T sj pb cb) evs S = Inr S'" "replies_ok msgs S"
  shows "replies_ok (msgs @ received evs) S'"
  using assms
proof (induction evs arbitrary: S msgs)
  case (Cons ev evs)
  then obtain S1 where "handle_event T sj pb cb ev S = Inr S1" "run_list (handle_event T sj pb cb) evs S1 = Inr S'"
    by (auto simp: bind_run_Inr)
  with Cons.IH [of S1 "msgs @ received [ev]"] replies_event [OF Cons.prems(2)] show ?case
    using received_append [of "[ev]" evs] by simp
qed simp

end
