(* ===== verification/SampleSession.thy ===== *)
theory SampleSession
  imports TaskopsProof Servers SampleEnv
begin

text \<open>
  A session to instantiate the properties of the whole debugger at: the kernel counts how often the task, port 7, is
  suspended, and the calls on any other port do nothing.
\<close>

definition count_mach :: "int mach" where
  "count_mach = \<lparr>vm_read_overwrite = (\<lambda>k a n. Inr (replicate (unat n) 0)), vm_region_64 = (\<lambda>k a. Inr 3),
     vm_protect = (\<lambda>k a s p. k), vm_write = (\<lambda>k a bs. (KERN_SUCCESS, k)),
     thread_get_state = (\<lambda>k p. Inr zero_ts), thread_set_state = (\<lambda>k p s. (KERN_SUCCESS, k)),
     debug_get_state = (\<lambda>k p. Inr zero_ds), debug_set_state = (\<lambda>k p s. (KERN_SUCCESS, k)),
     neon_get_state = (\<lambda>k p. Inr zero_ns), neon_set_state = (\<lambda>k p s. (KERN_SUCCESS, k)),
     thread_ident = (\<lambda>k p. Inr (ucast p)), thread_name = (\<lambda>k p. Some ''main''),
     mach_port_allocate = (\<lambda>k. Inr 9), request_notification = (\<lambda>k p q. KERN_SUCCESS),
     mach_error_string = (\<lambda>r. ''error'')\<rparr>"

definition count_calls :: "int tcalls" where
  "count_calls = \<lparr>task_suspend = (\<lambda>k p. if p = 7 then (KERN_SUCCESS, k + 1) else (KERN_FAILURE, k)),
     task_resume = (\<lambda>k p. if p = 7 then (KERN_SUCCESS, k - 1) else (KERN_FAILURE, k)),
     suspend_count = (\<lambda>k p. if p = 7 then Inr k else Inl KERN_FAILURE), task_threads = (\<lambda>k p. (KERN_SUCCESS, Some [5, 6])),
     get_exception_ports = (\<lambda>k p. (KERN_SUCCESS, [(0x1bfe, 3, 1, 5)])), set_exception_ports = (\<lambda>k p x. (KERN_SUCCESS, k)),
     insert_right = (\<lambda>k p. (KERN_SUCCESS, k)), port_deallocate = (\<lambda>k p. (KERN_SUCCESS, k)), vm_dealloc = (\<lambda>k ps. KERN_SUCCESS),
     send_kill = (\<lambda>k i s. (0, k)), pt_detach = (\<lambda>k i. (0, k)), answer = (\<lambda>k s. CHR ''y''), thread_blank = sample_thread 0 False 0\<rparr>"

definition count_env :: "int tenv" where
  "count_env = \<lparr>de = \<lparr>mc = count_mach, cve = sample_cvenv, armadillo = (\<lambda>i a. Some ''nop''), ptrace_thupdate = (\<lambda>k p. k),
     sys_signame = replicate 32 ''sig'', qsort = sort_combos, symtab = None, line_info = None, slide = 0,
     stale_name = replicate 512 0, stack_junk = replicate 8 0\<rparr>, tc = count_calls\<rparr>"

definition count_dbg :: "machthread plist \<Rightarrow> int dbg" where
  "count_dbg ts = \<lparr>kern = 0, threads = ts, breakpoints = [], watchpoints = [], num_breakpoints = 0, num_watchpoints = 0,
     num_hw_bps = 6, num_hw_wps = 4, thread_count = int (length ts), death_notify_port = 11, current_machthread_id = 3,
     current_breakpoint_id = 1, current_watchpoint_id = 1, vars = None, fresh = 3\<rparr>"

definition count_sess :: "machthread plist \<Rightarrow> int sess" where
  "count_sess ts = \<lparr>db = count_dbg ts, task = 7, pid = 100, debuggee_name = Some ''app'', exception_port = 9,
     original_ports = [(0x1bfe, 3, 1, 5)], exc_queue = Some [], need_reply = False, sent = [], signals = initial_settings,
     no_signals = False\<rparr>"

lemma count_ok: "kernel_ok (mc (de count_env))" "mach_keeps (mc (de count_env)) (\<lambda>k. suspend_count (tc count_env) k 7)"
  "detach_calls (tc count_env) 7 100"
  by (simp_all add: count_env_def count_mach_def count_calls_def kernel_ok_def mach_keeps_def detach_calls_def regs16_def
      zero_ds_def MACH_PORT_NULL_def)

lemma count_sess_ok:
  "dbg_inv (db (count_sess [(1, sample_thread 5 True 1), (2, sample_thread 6 False 2)]))"
  "cvars_ok (vars (db (count_sess ts)))" "task (count_sess ts) = 7" "pid (count_sess ts) = 100"
  "suspend_count (tc count_env) (kern (db (count_sess ts))) 7 = Inr 0"
  by (simp_all add: count_sess_def count_dbg_def dbg_inv_def bps_ok_def wps_ok_def thr_ok_def sample_thread_def zero_ds_def
      regs16_def cvars_ok_def cells_of_def cells_ok_def count_env_def count_calls_def)

text \<open>An exception of a thread the debugger does not know, while it has none in focus, resumes the target.\<close>

definition stray :: "u32 \<Rightarrow> exc_msg" where
  "stray i = \<lparr>msgh_bits = 0x1112, msgh_remote_port = 21, msgh_id = i, msg_NDR = 0,
     msg_body = \<lparr>rq_thread = 8, rq_exception = 1, rq_codeCnt = 2, rq_code = 1, rq_subcode = 0\<rparr>\<rparr>"

lemma stray_handled:
  "\<exists>S'. run_list (handle_event count_env 0 [] []) [Exceptions [stray 1, stray 2], Suspend, Continue] (count_sess []) = Inr S'"
proof -
  have f: "get_focused_thread (d :: int dbg) = None" "set_focused_thread p d = d" if "threads d = []" for d p
    using that by (simp_all add: get_focused_thread_def find_with_cond_def pl_find_def set_focused_thread_def
        thread_from_port_def split: option.split)
  have t: "threads (db (snd (ops_suspend count_env S))) = threads (db S)" "exc_queue (snd (ops_suspend count_env S)) = exc_queue S" for S
    by (simp_all add: ops_suspend_def suspend_def task_call_def set_kern_def split_beta)
  have h: "handle_exception E X r (d :: int dbg) v = Inr (d, no_print v)" if "threads d = []" for E X r d v
    using f [OF that] by (simp add: handle_exception_def focus_on_def Let_def)
  have r: "\<exists>y. ops_resume count_env S = Inr y" for S
    by (cases "need_reply S"; cases "exc_queue S") (simp_all add: ops_resume_def reply_to_all_exceptions_def)
  have th: "threads (db (count_sess [])) = []" by (simp add: count_sess_def count_dbg_def)
  define S1 where "S1 = gather [stray 1, stray 2] (snd (ops_suspend count_env (count_sess [])))"
  have e: "threads (db S1) = []" by (simp add: S1_def gather_def t th)
  obtain y S2 where "ops_resume count_env (S1\<lparr>db := db S1\<rparr>) = Inr (y, S2)" using r by (metis surj_pair)
  then have "handle_event count_env 0 [] [] (Exceptions [stray 1, stray 2]) (count_sess []) = Inr S2"
    by (simp add: handle_event_def exception_round_def Let_def S1_def [symmetric] h [OF e] no_print_def)
  moreover obtain z S3 where "ops_resume count_env (snd (ops_suspend count_env S2)) = Inr (z, S3)" using r by (metis surj_pair)
  ultimately show ?thesis by (simp add: handle_event_def [of _ _ _ _ Suspend] handle_event_def [of _ _ _ _ Continue])
qed

text \<open>Two hardware breakpoints of single threads: the thread of one has another number now, that of the other is gone.\<close>

definition point_for :: "int \<Rightarrow> int \<Rightarrow> int \<Rightarrow> u64 \<Rightarrow> breakpoint" where
  "point_for i reg n t = \<lparr>bp_id = i, bp_location = 0x1000, old_instruction = 0, bp_hit_count = 0, bp_disabled = False,
     bp_temporary = False, bp_hw = True, hw_bp_reg = reg, for_stepping = False,
     bp_threadinfo = \<lparr>all_threads = False, iosdbg_tid = n, pthread_tid = t, ti_name = Some ''main''\<rparr>, bp_bcr = bcr_value,
     bp_bvr = 0x1000\<rparr>"

definition follow_dbg :: "int dbg" where
  "follow_dbg = (count_dbg [(1, sample_thread 5 True 1), (2, sample_thread 6 False 2)])
     \<lparr>breakpoints := [(3, point_for 1 0 1 6), (4, point_for 2 1 2 99)], num_breakpoints := 2, current_breakpoint_id := 3, fresh := 5\<rparr>"

lemma follow_ok: "dbg_inv follow_dbg" "ids_ok (threads follow_dbg)"
  by (simp_all add: follow_dbg_def count_dbg_def dbg_inv_def bps_ok_def wps_ok_def thr_ok_def sample_thread_def zero_ds_def
      regs16_def point_for_def bp_reg_ok_def ids_ok_def)

lemma follow_settled:
  "settle_all (settle_bp (threads follow_dbg)) (breakpoints follow_dbg) = [(3, (point_for 1 0 2 6))]"
  by (simp add: settle_all_def settle_bp_def settle_def follow_dbg_def count_dbg_def point_for_def sample_thread_def
      pl_find_def List.map_filter_simps correct_threadinfo_def)

end
