(* ===== verification/Commands.thy ===== *)
theory Commands
  imports Expr Taskops Args Reg Stepping
begin

text \<open>
  The commands, \<^verbatim>\<open>source/cmd/*cmd.c\<close>: each takes its arguments, the session, the buffer of the output and that of the
  error. An expression in an argument is evaluated with the convenience variables and the registers of the thread in
  focus.
\<close>

section \<open>Expressions\<close>

datatype cmd_error_t = CMD_SUCCESS | CMD_FAILURE | CMD_QUIT

type_synonym 'k cmd = "(cmd_error_t \<times> 'k sess \<times> cbuf \<times> cbuf) run"

definition cv_lookup :: "cvenv \<Rightarrow> cvars \<Rightarrow> string \<Rightarrow> string option" where
  "cv_lookup E vs n = (case convvar_strval E vs (Some n) None of Inr (Some s, None) \<Rightarrow> Some s | _ \<Rightarrow> None)"

definition reg_lookup :: "'k mach \<Rightarrow> 'k dbg \<Rightarrow> (string \<Rightarrow> string option) option" where
  "reg_lookup M d =
     (case get_focused_thread d of None \<Rightarrow> None
      | Some (a, _) \<Rightarrow> Some (\<lambda>n. case regtol M a HEXADECIMAL (Some n) None d of
            Inr (_, _, out, _) \<Rightarrow> valstr out | Inl _ \<Rightarrow> None))"

text \<open>
  A variable that was freed but is still linked is a fault for every expression, and not only for those whose lookup
  comes past it. The states of the thread in focus, which a register lookup fetches, are fetched again by what uses them.
\<close>

definition vars_live :: "cvenv \<Rightarrow> cvars \<Rightarrow> bool" where
  "vars_live E vs =
     list_all (\<lambda>(a, c). case c of None \<Rightarrow> False | Some v \<Rightarrow> (case var_text E v of Inr _ \<Rightarrow> True | Inl _ \<Rightarrow> False)) (cells_of vs)"

definition eval_in :: "'k tenv \<Rightarrow> 'k sess \<Rightarrow> string option \<Rightarrow> cbuf \<Rightarrow> (u64 \<times> cbuf) run" where
  "eval_in T S str e =
     (let E = cve (de T); vs = vars (db S) in
      if \<not> vars_live E vs then Inl UseAfterFree
      else eval_expr (cv_lookup E vs) (reg_lookup (mc (de T)) (db S)) str e)"

definition rjust :: "nat \<Rightarrow> string \<Rightarrow> string" where
  "rjust n s = replicate (n - length s) (CHR '' '') @ s"

definition hex_pad :: "nat \<Rightarrow> int \<Rightarrow> string" where
  "hex_pad n i = (let s = show_base 16 i in replicate (n - length s) (CHR ''0'') @ s)"

definition nl :: string where "nl = [CHR 0x0A]"

definition int_of :: "u64 \<Rightarrow> int" where
  "int_of w = sint (ucast w :: u32)"

definition tokens :: "string \<Rightarrow> string list" where
  "tokens s = (case token_array (Some s) '' '' of None \<Rightarrow> [] | Some ts \<Rightarrow> ts)"

section \<open>Breakpoints\<close>

definition delete_ids ::
    "string \<Rightarrow> (int \<Rightarrow> 'k dbg \<Rightarrow> ('k dbg \<times> cbuf) run) \<Rightarrow> string list \<Rightarrow> 'k dbg \<times> cbuf \<Rightarrow> ('k dbg \<times> cbuf) run" where
  "delete_ids what del ids s =
     run_list (\<lambda>x (d, out). let i = int_of (fst (strtol_err (Some x) None)) in
         bind_run (del i d) (\<lambda>(d1, e). Inr (d1, concat_c out (case e of
             Some m \<Rightarrow> m @ nl | None \<Rightarrow> concat [what, '' '', show_dec i, '' deleted'', nl])))) ids s"

definition bp_delete_by_id :: "'k mach \<Rightarrow> int \<Rightarrow> 'k dbg \<Rightarrow> ('k dbg \<times> cbuf) run" where
  "bp_delete_by_id M i d = bind_run (breakpoint_delete M i d (Some None)) (\<lambda>(d1, e). Inr (d1, the e))"

definition delete_points ::
    "'k tenv \<Rightarrow> string \<Rightarrow> string \<Rightarrow> ('k dbg \<Rightarrow> int) \<Rightarrow> ('k dbg \<Rightarrow> 'k dbg run) \<Rightarrow> (int \<Rightarrow> 'k dbg \<Rightarrow> ('k dbg \<times> cbuf) run)
     \<Rightarrow> cmd_args \<Rightarrow> 'k sess \<Rightarrow> cbuf \<Rightarrow> cbuf \<Rightarrow> 'k cmd" where
  "delete_points T what Cap num del_all del args S out e =
     (if num (db S) = 0 then Inr (CMD_FAILURE, S, out, concat_c e (concat [''no '', what, ''s'']))
      else (case fst (argcopy args ''ids'') of
          None \<Rightarrow>
            if answer (tc T) (kern (db S)) (concat [''Delete all '', what, ''s? (y/n) '']) = CHR ''n''
            then Inr (CMD_SUCCESS, S, concat_c out (''Nothing deleted.'' @ nl), e)
            else bind_run (on_db del_all S) (\<lambda>S1. Inr (CMD_SUCCESS, S1, concat_c out
                (concat [''All '', what, ''(s) removed. ('', show_dec (num (db S)), '' '', what, ''(s))'', nl]), e))
        | Some ids \<Rightarrow> bind_run (delete_ids Cap del (tokens ids) (db S, out)) (\<lambda>(d, out1).
            Inr (CMD_SUCCESS, S\<lparr>db := d\<rparr>, out1, e))))"

definition cmdfunc_breakpoint_delete :: "'k tenv \<Rightarrow> cmd_args \<Rightarrow> 'k sess \<Rightarrow> cbuf \<Rightarrow> cbuf \<Rightarrow> 'k cmd" where
  "cmdfunc_breakpoint_delete T =
     (let M = mc (de T) in delete_points T ''breakpoint'' ''Breakpoint'' num_breakpoints (breakpoint_delete_all M) (bp_delete_by_id M))"

definition for_thread :: "threadinfo \<Rightarrow> string" where
  "for_thread ti = concat [replicate 8 (CHR '' ''), ''for thread '', show_dec (iosdbg_tid ti), '' (tid: '',
     show_hex (pthread_tid ti), ''), '', quoted (case ti_name ti of Some n \<Rightarrow> n | None \<Rightarrow> ''(null)'')]"

definition bp_line :: "breakpoint \<Rightarrow> string" where
  "bp_line b =
     concat [''    '', show_dec (bp_id b), '': address = '', hex_pad 16 (uint (bp_location b)), '', hit count = '',
       show_dec (bp_hit_count b), '', hardware = '', show_dec (if bp_hw b then 1 else 0), nl] @
     (if all_threads (bp_threadinfo b) then []
      else for_thread (bp_threadinfo b) @ (if \<not> bp_hw b then '' (emulated thread-specific)'' @ nl else nl))"

definition cmdfunc_breakpoint_list :: "'k sess \<Rightarrow> cbuf \<Rightarrow> cbuf \<Rightarrow> 'k cmd" where
  "cmdfunc_breakpoint_list S out e =
     (if num_breakpoints (db S) = 0 then Inr (CMD_FAILURE, S, out, concat_c e ''no breakpoints'')
      else Inr (CMD_SUCCESS, S, fold (\<lambda>(a, b) o1. concat_c o1 (bp_line b)) (breakpoints (db S))
                  (concat_c out (''Current breakpoints:'' @ nl)), e))"

definition thread_warning :: "string \<Rightarrow> string" where
  "thread_warning what =
     concat [''warning: debuggee is not stopped, thread IDs could have changed.'', nl,
       replicate 9 (CHR '' ''), ''It is suggested to interrupt the debuggee, remind yourself of the list of threads,'', nl,
       replicate 9 (CHR '' ''), ''and set the '', what, '' again.'', nl]"

text \<open>The number of the thread, read to the base 10: \<open>Inl\<close> the error.\<close>

definition thread_arg :: "'k tenv \<Rightarrow> string \<Rightarrow> cmd_args \<Rightarrow> 'k sess \<Rightarrow> cbuf \<Rightarrow> string + int \<times> cbuf" where
  "thread_arg T what args S out =
     (case fst (argcopy args ''tid'') of None \<Rightarrow> Inr (- 1, out)
      | Some s \<Rightarrow>
          (let th = int_of (fst (strtol s 10)) in
           if \<not> (1 \<le> th \<and> th \<le> thread_count (db S)) then Inl (''bad thread number '' @ show_dec th)
           else Inr (th, if suspended T S then out else concat_c out (thread_warning what))))"

definition set_one_bp :: "'k tenv \<Rightarrow> int \<Rightarrow> string \<Rightarrow> 'k sess \<times> cbuf \<Rightarrow> ('k sess \<times> cbuf) run" where
  "set_one_bp T th loc s =
     (let S = fst s; out = snd s; warn = (\<lambda>m. concat [''warning: could not set breakpoint: '', m, nl]) in
      bind_run (eval_in T S (Some loc) None) (\<lambda>(location, e). case e of
          Some m \<Rightarrow> Inr (S, concat_c out (warn m))
        | None \<Rightarrow> bind_run (breakpoint_at_address (mc (de T)) location False th (db S) (Some out) (Some None)) (\<lambda>(d1, out1, e1).
            let S1 = S\<lparr>db := d1\<rparr>; out2 = the out1 in
            Inr (S1, case the e1 of Some m \<Rightarrow> concat_c out2 (warn m) | None \<Rightarrow> out2))))"

definition cmdfunc_breakpoint_set :: "'k tenv \<Rightarrow> cmd_args \<Rightarrow> 'k sess \<Rightarrow> cbuf \<Rightarrow> cbuf \<Rightarrow> 'k cmd" where
  "cmdfunc_breakpoint_set T args S out e =
     (case thread_arg T ''breakpoint'' args S out of
        Inl m \<Rightarrow> Inr (CMD_FAILURE, S, out, concat_c e m)
      | Inr (th, out1) \<Rightarrow> bind_run (run_list (set_one_bp T th) (arg_texts args ''locations'') (S, out1)) (\<lambda>(S1, out2).
          Inr (CMD_SUCCESS, S1, out2, e)))"

section \<open>Watchpoints\<close>

definition cmdfunc_watchpoint_delete :: "'k tenv \<Rightarrow> cmd_args \<Rightarrow> 'k sess \<Rightarrow> cbuf \<Rightarrow> cbuf \<Rightarrow> 'k cmd" where
  "cmdfunc_watchpoint_delete T =
     (let M = mc (de T) in delete_points T ''watchpoint'' ''Watchpoint'' num_watchpoints (watchpoint_delete_all M)
        (\<lambda>i d. watchpoint_delete M i d None))"

definition wp_line :: "watchpoint \<Rightarrow> string" where
  "wp_line w =
     concat [''    '', show_dec (wp_id w), '': address = '', hex_pad 16 (uint (user_location w)), '', hit count = '',
       show_dec (wp_hit_count w), '', size = '', show_dec (sint (data_len w)), '', type = '', wp_type w, nl] @
     (if all_threads (wp_threadinfo w) then [] else for_thread (wp_threadinfo w) @ nl)"

definition cmdfunc_watchpoint_list :: "'k sess \<Rightarrow> cbuf \<Rightarrow> cbuf \<Rightarrow> 'k cmd" where
  "cmdfunc_watchpoint_list S out e =
     (if num_watchpoints (db S) = 0 then Inr (CMD_FAILURE, S, out, concat_c e ''no watchpoints'')
      else Inr (CMD_SUCCESS, S, fold (\<lambda>(a, w) o1. concat_c o1 (wp_line w)) (watchpoints (db S))
                  (concat_c out (''Current watchpoints:'' @ nl)), e))"

definition wp_kind :: "string option \<Rightarrow> u32" where
  "wp_kind t = (case t of None \<Rightarrow> WP_WRITE
     | Some s \<Rightarrow> if s = ''r'' then WP_READ else if s = ''w'' then WP_WRITE else WP_READ_WRITE)"

definition cmdfunc_watchpoint_set :: "'k tenv \<Rightarrow> cmd_args \<Rightarrow> 'k sess \<Rightarrow> cbuf \<Rightarrow> cbuf \<Rightarrow> 'k cmd" where
  "cmdfunc_watchpoint_set T args S out e =
     (case thread_arg T ''watchpoint'' args S out of
        Inl m \<Rightarrow> Inr (CMD_FAILURE, S, out, concat_c e m)
      | Inr (th, out1) \<Rightarrow>
          (let LSC = wp_kind (fst (argcopy args ''type'')) in
           bind_run (eval_in T S (fst (argcopy args ''location'')) e) (\<lambda>(location, e1).
             if e1 \<noteq> None then Inr (CMD_FAILURE, S, out1, e1)
             else (let (n, e2) = strtol_err (fst (argcopy args ''size'')) e1 in
               if e2 \<noteq> None then Inr (CMD_FAILURE, S, out1, e2)
               else bind_run (watchpoint_at_address (mc (de T)) location (ucast n) LSC th (db S) out1 e2) (\<lambda>(d1, out2, e3).
                 Inr (if e3 \<noteq> None then CMD_FAILURE else CMD_SUCCESS, S\<lparr>db := d1\<rparr>, out2, e3))))))"

end
