(* ===== verification/Procutils.thy ===== *)
theory Procutils
  imports Commands
begin

text \<open>
  What a target is found with: the list of processes in \<^verbatim>\<open>source/procutils.c\<close>, \<^verbatim>\<open>parse_pid\<close> and the wait for a
  launch in \<^verbatim>\<open>source/cmd/misccmd.c\<close>, the user's answers in \<^verbatim>\<open>source/interaction.c\<close>, and \<^verbatim>\<open>find_slide\<close> in
  \<^verbatim>\<open>source/handlers.c\<close>.
\<close>

section \<open>Processes\<close>

record proc =
  p_pid :: int
  p_comm :: string
  p_zombie :: bool

text \<open>The two calls of \<^verbatim>\<open>sysctl\<close>: either fails with an error text, or the second one gives the processes.\<close>

datatype proc_table = Size_fails string | List_fails string | Procs "proc list"

definition fill_kinfo_proc_buffer :: "proc_table \<Rightarrow> cbuf \<Rightarrow> proc list \<times> cbuf" where
  "fill_kinfo_proc_buffer R e =
     (case R of
        Size_fails m \<Rightarrow> ([], concat_c e (concat [''couldn'', [CHR 0x27], ''t get the size of our kinfo_proc buffer: '', m, nl]))
      | List_fails m \<Rightarrow> ([], concat_c e (concat [''second sysctl call failed: '', m, nl]))
      | Procs ps \<Rightarrow> (ps, e))"

definition MAXCOMLEN :: nat where "MAXCOMLEN = 16"

definition is_match :: "string \<Rightarrow> proc \<Rightarrow> bool" where
  "is_match progname p =
     (let n = min (length (p_comm p)) (MAXCOMLEN + 1) in take n (p_comm p) = take n progname \<and> \<not> p_zombie p)"

definition count_match :: "string \<Rightarrow> proc \<Rightarrow> int \<times> string \<times> int \<Rightarrow> int \<times> string \<times> int" where
  "count_match progname p s =
     (let (n, txt, final) = s in
      if is_match progname p
      then (n + 1, concat [txt, '' PID '', show_dec (p_pid p), '': '', p_comm p, nl], p_pid p) else s)"

definition pid_of_program :: "proc_table \<Rightarrow> string \<Rightarrow> cbuf \<Rightarrow> int \<times> cbuf" where
  "pid_of_program R progname e =
     (let (ps, e1) = fill_kinfo_proc_buffer R e in
      if e1 \<noteq> None then (- 1, e1)
      else (let (n, txt, final) = fold (count_match progname) ps (0, [], - 1) in
        if n > 1 then (- 1, concat_c e1 (concat [''multiple instances of '', quoted progname, '': '', nl, txt]))
        else if n = 0 then (- 1, concat_c e1 (''could not find a process named '' @ quoted progname))
        else (final, e1)))"

definition progname_from_pid :: "proc_table \<Rightarrow> int \<Rightarrow> cbuf \<Rightarrow> string option \<times> cbuf" where
  "progname_from_pid R p e =
     (let (ps, e1) = fill_kinfo_proc_buffer R e in
      if e1 \<noteq> None then (None, e1)
      else (case find (\<lambda>q. p_pid q = p) ps of
              Some q \<Rightarrow> (Some (p_comm q), e1)
            | None \<Rightarrow> (None, concat_c e1 (''could not find process for pid '' @ show_dec p))))"

definition parse_pid :: "proc_table \<Rightarrow> string \<Rightarrow> cbuf \<Rightarrow> int \<times> cbuf" where
  "parse_pid R pidstr e =
     (if is_number_fast (Some pidstr) then (let (n, e1) = strtol_err (Some pidstr) e in (int_of n, e1))
      else pid_of_program R pidstr e)"

text \<open>
  The wait looks at one table of processes after another, until the target is there or the user interrupts after the
  last of them. The error of the look before the loop is still there in its first round.
\<close>

fun wait_rounds :: "proc_table list \<Rightarrow> string \<Rightarrow> int \<times> cbuf \<Rightarrow> int" where
  "wait_rounds [] target s = fst s"
| "wait_rounds (R # Rs) target s =
     (if fst s \<noteq> - 1 then fst s else wait_rounds Rs target (fst (parse_pid R target (snd s)), None))"

definition wait_for_launch :: "proc_table \<Rightarrow> proc_table list \<Rightarrow> string \<Rightarrow> int" where
  "wait_for_launch R Rs target = wait_rounds Rs target (parse_pid R target None)"

section \<open>Answers\<close>

definition to_lower :: "char \<Rightarrow> char" where
  "to_lower c = (let n = of_char c :: nat in if 65 \<le> n \<and> n \<le> 90 then char_of (n + 32) else c)"

text \<open>
  The lines the user enters, without their ends; the question is asked again until one starts with y or n. Only the first
  may be empty. At the end of the input the line is empty and the byte before it is written.
\<close>

fun answer_again :: "string list \<Rightarrow> nat \<Rightarrow> (char \<times> nat) run" where
  "answer_again [] n = Inl OutOfBounds"
| "answer_again (l # ls) n =
     (let ret = (case l of [] \<Rightarrow> CHR 0x00 | c # _ \<Rightarrow> to_lower c) in
      if ret = CHR ''y'' \<or> ret = CHR ''n'' then Inr (ret, n + 1) else answer_again ls (n + 1))"

definition answer_lines :: "string list \<Rightarrow> (char \<times> nat) run" where
  "answer_lines ls = (case ls of [] # _ \<Rightarrow> Inr (CHR ''y'', 1) | _ \<Rightarrow> answer_again ls 0)"

section \<open>The slide\<close>

text \<open>
  A region of memory at or behind an address, a fresh block of \<^verbatim>\<open>malloc\<close>, and what is read as the size of a load command
  from its block after it was freed.
\<close>

record 'k slide_env =
  vm_region_recurse :: "'k \<Rightarrow> u32 \<Rightarrow> u64 \<Rightarrow> (u64 \<times> u64) option"
  fresh_block :: "nat \<Rightarrow> u8 list"
  freed_cmdsize :: "u8 list \<Rightarrow> u32"

definition read_into :: "'k mach \<Rightarrow> 'k \<Rightarrow> u64 \<Rightarrow> u64 \<Rightarrow> u8 list \<Rightarrow> (kern_return \<times> u8 list) run" where
  "read_into M k loc n old = bind_run (read_memory_at_location M k loc n) (\<lambda>(r, bs). Inr (r, bs @ drop (length bs) old))"

definition field :: "nat \<Rightarrow> nat \<Rightarrow> u8 list \<Rightarrow> u64" where
  "field off n bs = number_le (take n (drop off bs))"

definition MH_MAGIC_64 :: u64 where "MH_MAGIC_64 = 0xFEEDFACF"
definition MH_EXECUTE :: u64 where "MH_EXECUTE = 2"
definition LC_SEGMENT_64 :: u64 where "LC_SEGMENT_64 = 0x19"

definition is_executable :: "u8 list \<Rightarrow> bool" where
  "is_executable mh = (field 0 4 mh = MH_MAGIC_64 \<and> field 12 4 mh = MH_EXECUTE)"

definition text_name :: "u8 list" where
  "text_name = map (\<lambda>c. of_nat (of_char c)) ''__TEXT'' @ [0]"

definition is_text_segment :: "u8 list \<Rightarrow> bool" where
  "is_text_segment seg = (field 0 4 seg = LC_SEGMENT_64 \<and> take 7 (drop 8 seg) = text_name)"

partial_function (option) find_header ::
    "'k mach \<Rightarrow> 'k slide_env \<Rightarrow> 'k \<Rightarrow> u32 \<Rightarrow> u64 \<Rightarrow> u8 list \<Rightarrow> (u64 \<times> u8 list) option run option" where
  "find_header M V k t addr mh =
     (case vm_region_recurse V k t addr of None \<Rightarrow> Some (Inr None)
      | Some (a, sz) \<Rightarrow>
          (case read_into M k a 32 mh of Inl f \<Rightarrow> Some (Inl f)
           | Inr (r, mh1) \<Rightarrow>
               if r = KERN_SUCCESS \<and> is_executable mh1 then Some (Inr (Some (a, mh1)))
               else find_header M V k t (a + sz) mh1))"

declare find_header.simps [code]

fun text_slide :: "'k mach \<Rightarrow> 'k slide_env \<Rightarrow> 'k \<Rightarrow> u64 \<Rightarrow> nat \<Rightarrow> u64 \<Rightarrow> u64 run" where
  "text_slide M V k hdr 0 addr = Inr (- 1)"
| "text_slide M V k hdr (Suc n) addr =
     bind_run (read_into M k addr 72 (fresh_block V 72)) (\<lambda>(_, seg).
       if is_text_segment seg then Inr (hdr - field 24 8 seg)
       else text_slide M V k hdr n (addr + ucast (freed_cmdsize V seg)))"

definition find_slide :: "'k mach \<Rightarrow> 'k slide_env \<Rightarrow> 'k \<Rightarrow> u32 \<Rightarrow> u64 run" where
  "find_slide M V k t =
     (case find_header M V k t 0 (replicate 32 0) of None \<Rightarrow> Inl Diverges
      | Some r \<Rightarrow> bind_run r (\<lambda>h. case h of None \<Rightarrow> Inr 0
          | Some (a, mh) \<Rightarrow> if a = 0 then Inr (- 1) else text_slide M V k a (unat (field 16 4 mh)) (a + 32)))"

section \<open>Properties\<close>

lemma count_match_fold:
  "fst (fold (count_match progname) ps (n, tx, f)) = n + int (length (filter (is_match progname) ps))"
  "snd (snd (fold (count_match progname) ps (n, tx, f))) = (case rev (filter (is_match progname) ps) of [] \<Rightarrow> f | p # _ \<Rightarrow> p_pid p)"
  by (induction ps arbitrary: n tx f) (auto simp: count_match_def Let_def split: list.split)

lemma pid_of_unique:
  assumes "filter (is_match prog) ps = [p]"
  shows "pid_of_program (Procs ps) prog None = (p_pid p, None)"
proof -
  obtain n tx q where r: "fold (count_match prog) ps (0, [], - 1) = (n, tx, q)" by (cases "fold (count_match prog) ps (0, [], - 1)")
  have "n = 1" "q = p_pid p" using count_match_fold [of prog ps 0 "[]" "- 1"] assms by (simp_all add: r)
  then show ?thesis by (simp add: pid_of_program_def fill_kinfo_proc_buffer_def Let_def r)
qed

lemma pid_of_others:
  assumes "length (filter (is_match prog) ps) \<noteq> 1"
  shows "fst (pid_of_program (Procs ps) prog None) = - 1 \<and> snd (pid_of_program (Procs ps) prog None) \<noteq> None"
proof -
  obtain n tx q where r: "fold (count_match prog) ps (0, [], - 1) = (n, tx, q)" by (cases "fold (count_match prog) ps (0, [], - 1)")
  have "n \<noteq> 1" "0 \<le> n" using count_match_fold(1) [of prog ps 0 "[]" "- 1"] assms by (simp_all add: r)
  then show ?thesis by (auto simp: pid_of_program_def fill_kinfo_proc_buffer_def Let_def r)
qed

text \<open>A process whose name starts the name that is asked for matches, as \<^verbatim>\<open>s\<close> does for \<^verbatim>\<open>sshd\<close>.\<close>

lemma prefix_matches:
  assumes "\<not> p_zombie p" "length (p_comm p) \<le> 17"
  shows "is_match (p_comm p @ rest) p"
  using assms by (simp add: is_match_def MAXCOMLEN_def)

inductive header_from :: "('k \<Rightarrow> u32 \<Rightarrow> u64 \<Rightarrow> (u64 \<times> u64) option) \<Rightarrow> (u64 \<Rightarrow> u8) \<Rightarrow> 'k \<Rightarrow> u32 \<Rightarrow> u64 \<Rightarrow> u64 \<Rightarrow> bool" for rg mem k t where
  header_here: "rg k t a = Some (h, sz) \<Longrightarrow> unat h + 32 < 2 ^ 64 \<Longrightarrow> is_executable (bytes_at mem h 32) \<Longrightarrow> header_from rg mem k t a h"
| header_later: "rg k t a = Some (b, sz) \<Longrightarrow> unat b + 32 < 2 ^ 64 \<Longrightarrow> \<not> is_executable (bytes_at mem b 32) \<Longrightarrow>
    header_from rg mem k t (b + sz) h \<Longrightarrow> header_from rg mem k t a h"

inductive text_at :: "(u64 \<Rightarrow> u8) \<Rightarrow> nat \<Rightarrow> u64 \<Rightarrow> u64 \<Rightarrow> bool" for mem where
  text_here: "is_text_segment (bytes_at mem a 72) \<Longrightarrow> unat a + 72 < 2 ^ 64 \<Longrightarrow> text_at mem (Suc n) a (field 24 8 (bytes_at mem a 72))"
| text_later: "\<not> is_text_segment (bytes_at mem a 72) \<Longrightarrow> unat a + 72 < 2 ^ 64 \<Longrightarrow>
    text_at mem n (a + field 4 4 (bytes_at mem a 72)) v \<Longrightarrow> text_at mem (Suc n) a v"

lemma read_into_flat:
  assumes "flat_mem M mem" "unat a + n < 2 ^ 64" "n < 2 ^ 64" "length old = n"
  shows "read_into M k a (of_nat n) old = Inr (KERN_SUCCESS, bytes_at (mem k) a n)"
proof -
  have u: "unat (of_nat n :: u64) = n" using assms(3) by (simp add: unat_of_nat)
  show ?thesis using read_memory_flat [OF assms(1), of a "of_nat n" k] assms(2,4) u by (simp add: read_into_def)
qed

lemma find_header_found:
  assumes F: "flat_mem M mem" and h: "header_from (vm_region_recurse V) (mem k) k t a h" and l: "length mh = 32"
  shows "find_header M V k t a mh = Some (Inr (Some (h, bytes_at (mem k) h 32)))"
  using h l
proof (induction arbitrary: mh)
  case (header_here a h sz)
  then show ?case using read_into_flat [OF F header_here(2), of mh k] by (subst find_header.simps) simp
next
  case (header_later a b sz h)
  from header_later.IH [of "bytes_at (mem k) b 32"] show ?case
    using header_later.hyps header_later.prems read_into_flat [OF F header_later.hyps(2), of mh k] by (subst find_header.simps) simp
qed

lemma text_slide_found:
  assumes F: "flat_mem M mem" and t: "text_at (mem k) n a v" and j: "length (fresh_block V 72) = 72"
    and c: "\<And>seg. ucast (freed_cmdsize V seg) = field 4 4 seg"
  shows "text_slide M V k hdr n a = Inr (hdr - v)"
  using t
proof (induction)
  case (text_here a n)
  then show ?case using read_into_flat [OF F text_here(2) _ j, of k] by simp
next
  case (text_later a n v)
  then show ?case using read_into_flat [OF F text_later(2) _ j, of k] by (simp add: c)
qed

lemma slide_found:
  assumes "flat_mem M mem" "length (fresh_block V 72) = 72" "\<And>seg. ucast (freed_cmdsize V seg) = field 4 4 seg"
    and "header_from (vm_region_recurse V) (mem k) k t 0 h" "h \<noteq> 0"
    and "text_at (mem k) (unat (field 16 4 (bytes_at (mem k) h 32))) (h + 32) v"
  shows "find_slide M V k t = Inr (h - v)"
  using find_header_found [OF assms(1,4), of "replicate 32 0"] text_slide_found [OF assms(1,6,2,3)] assms(5)
  by (simp add: find_slide_def)

lemma no_header_no_slide:
  assumes "vm_region_recurse V k t 0 = None"
  shows "find_slide M V k t = Inr 0"
  using assms by (simp add: find_slide_def find_header.simps [of M V k t 0])

end
