(* ===== verification/Commands2.thy ===== *)
theory Commands2
  imports Commands
begin

text \<open>
  The commands on registers, variables, threads, signals, memory and the running of the target, \<^verbatim>\<open>regcmd.c\<close>,
  \<^verbatim>\<open>varcmd.c\<close>, \<^verbatim>\<open>tcmd.c\<close>, \<^verbatim>\<open>sigcmd.c\<close>, \<^verbatim>\<open>memcmd.c\<close>, \<^verbatim>\<open>stepcmd.c\<close> and \<^verbatim>\<open>misccmd.c\<close> in \<^verbatim>\<open>source/cmd\<close>.
\<close>

section \<open>Registers\<close>

text \<open>
  The C library's \<^verbatim>\<open>%g\<close> of a float and \<^verbatim>\<open>%.15g\<close> of a double, by their bits; its conversions to them; and what lies on
  the stack where an array of a length is put.
\<close>

record cenv =
  show_g :: "u32 \<Rightarrow> string"
  show_g15 :: "u64 \<Rightarrow> string"
  fpe :: fpenv
  vla_junk :: "nat \<Rightarrow> u8 list"

definition row16 :: "string \<Rightarrow> u64 \<Rightarrow> string" where
  "row16 name v = concat [rjust 10 name, '' = 0x'', hex_pad 16 (uint v), nl]"

definition all_regs :: "thread_state64 \<Rightarrow> string list" where
  "all_regs ts =
     map (\<lambda>i. row16 (''x'' @ show_dec (int i)) (ts_x ts ! i)) [0..<29] @
     [row16 ''fp'' (ts_fp ts), row16 ''lr'' (ts_lr ts), row16 ''sp'' (ts_sp ts), row16 ''pc'' (ts_pc ts),
      concat [rjust 10 ''cpsr'', '' = 0x'', hex_pad 8 (uint (ts_cpsr ts)), nl]]"

definition view_text :: "cenv \<Rightarrow> u64 \<Rightarrow> regout \<Rightarrow> string" where
  "view_text C val out =
     (let row = (\<lambda>s. concat [rjust 8 (case cleanedreg out of Some r \<Rightarrow> r | None \<Rightarrow> ''(null)''), '' = '', s, nl]) in
      case outtype out of
        LONG \<Rightarrow> row (''0x'' @ hex_pad 16 (uint val))
      | INTEGER \<Rightarrow> row (''0x'' @ hex_pad 8 (uint (ucast val :: u32)))
      | FLOAT \<Rightarrow> row (show_g C (ucast val))
      | DOUBLE \<Rightarrow> row (show_g15 C val)
      | QUADWORD \<Rightarrow> row (case valstr out of Some s \<Rightarrow> s | None \<Rightarrow> ''(null)'')
      | NONE \<Rightarrow> [])"

definition view_reg :: "'k tenv \<Rightarrow> cenv \<Rightarrow> nat \<Rightarrow> string \<Rightarrow> 'k dbg \<times> cbuf \<Rightarrow> ('k dbg \<times> cbuf) run" where
  "view_reg T C a reg s =
     bind_run (regtol (mc (de T)) a HEXADECIMAL (Some reg) None (fst s)) (\<lambda>(d1, val, ro, e).
       let out1 = (case e of None \<Rightarrow> snd s | Some m \<Rightarrow> concat_c (snd s) (concat [rjust 10 ''error:'', '' '', m, nl])) in
       Inr (d1, if outtype ro = NONE then out1 else concat_c out1 (view_text C val ro)))"

text \<open>Without a thread in focus the states are fetched, or the name is looked at, before NULL is read through.\<close>

definition cmdfunc_register_view :: "'k tenv \<Rightarrow> cenv \<Rightarrow> cmd_args \<Rightarrow> 'k sess \<Rightarrow> cbuf \<Rightarrow> cbuf \<Rightarrow> 'k cmd" where
  "cmdfunc_register_view T C args S out e =
     (case get_focused_thread (db S) of
        None \<Rightarrow> if num_args args = 0 \<or> arg_texts args ''reg'' \<noteq> [] then Inl NullDeref else Inr (CMD_SUCCESS, S, out, e)
      | Some (a, _) \<Rightarrow>
          if num_args args = 0 then
            (let d1 = snd (get_thread_state (mc (de T)) (Some a) (db S)) in
             bind_run (thread_at a d1) (\<lambda>t.
               if length (ts_x (thread_state t)) < 29 then Inl OutOfBounds
               else Inr (CMD_SUCCESS, S\<lparr>db := d1\<rparr>, fold (\<lambda>r o1. concat_c o1 r) (all_regs (thread_state t)) out, e)))
          else bind_run (run_list (view_reg T C a) (arg_texts args ''reg'') (db S, out)) (\<lambda>(d1, out1).
            Inr (CMD_SUCCESS, S\<lparr>db := d1\<rparr>, out1, e)))"

definition failed_if :: "cbuf \<Rightarrow> cmd_error_t" where
  "failed_if e = (if e \<noteq> None then CMD_FAILURE else CMD_SUCCESS)"

definition cmdfunc_register_write :: "'k tenv \<Rightarrow> cenv \<Rightarrow> cmd_args \<Rightarrow> 'k sess \<Rightarrow> cbuf \<Rightarrow> cbuf \<Rightarrow> 'k cmd" where
  "cmdfunc_register_write T C args S out e =
     (case get_focused_thread (db S) of None \<Rightarrow> Inl NullDeref
      | Some (a, _) \<Rightarrow> bind_run (setreg (mc (de T)) (fpe C) a (fst (argcopy args ''reg'')) (fst (argcopy args ''value'')) e (db S)) (\<lambda>(d1, e1).
          Inr (failed_if e1, S\<lparr>db := d1\<rparr>, out, e1)))"

section \<open>Variables\<close>

definition cmdfunc_variable_print :: "'k tenv \<Rightarrow> cmd_args \<Rightarrow> 'k sess \<Rightarrow> cbuf \<Rightarrow> cbuf \<Rightarrow> 'k cmd" where
  "cmdfunc_variable_print T args S out e =
     bind_run (if num_args args = 0 then show_all_cvars (cve (de T)) (vars (db S)) out
               else run_list (\<lambda>n. p_convvar (cve (de T)) (vars (db S)) (Some n)) (arg_texts args ''var'') out) (\<lambda>out1.
       Inr (CMD_SUCCESS, S, out1, e))"

definition set_var :: "'k tenv \<Rightarrow> string option \<Rightarrow> string option \<Rightarrow> 'k sess \<Rightarrow> cbuf \<Rightarrow> ('k sess \<times> cbuf) run" where
  "set_var T name value S e =
     bind_run (set_convvar (cve (de T)) (vars (db S)) (fresh (db S)) name value e) (\<lambda>(vs, e1).
       Inr (S\<lparr>db := (db S)\<lparr>vars := vs, fresh := fresh (db S) + 1\<rparr>\<rparr>, e1))"

definition cmdfunc_variable_set :: "'k tenv \<Rightarrow> cmd_args \<Rightarrow> 'k sess \<Rightarrow> cbuf \<Rightarrow> cbuf \<Rightarrow> 'k cmd" where
  "cmdfunc_variable_set T args S out e =
     bind_run (set_var T (fst (argcopy args ''var'')) (fst (argcopy args ''value'')) S e) (\<lambda>(S1, e1).
       Inr (failed_if e1, S1, out, e1))"

definition cmdfunc_variable_unset :: "cmd_args \<Rightarrow> 'k sess \<Rightarrow> cbuf \<Rightarrow> cbuf \<Rightarrow> 'k cmd" where
  "cmdfunc_variable_unset args S out e =
     bind_run (void_convvar (vars (db S)) (fst (argcopy args ''var''))) (\<lambda>vs.
       Inr (CMD_SUCCESS, S\<lparr>db := (db S)\<lparr>vars := vs\<rparr>\<rparr>, out, e))"

section \<open>Threads\<close>

definition thread_line :: "'k tenv \<Rightarrow> 'k dbg \<Rightarrow> nat \<times> machthread \<Rightarrow> cbuf \<Rightarrow> cbuf run" where
  "thread_line T d th out =
     (let t = snd th; pc = ts_pc (thread_state t) in
      bind_run (frame_string (de T) d pc None) (\<lambda>fr.
        Inr (concat_c (concat_c out (concat [rjust 4 (if focused t then ''* '' else []), ''thread '', show_dec (ID t), '', tid = '',
            show_hex (tid t), '', where = 0x'', hex_pad 16 (uint pc)]))
          (concat ['' '', (case fr of Some s \<Rightarrow> s | None \<Rightarrow> ''(null)''), '', name = '', quoted (tname t), nl]))))"

definition cmdfunc_thread_list :: "'k tenv \<Rightarrow> 'k sess \<Rightarrow> cbuf \<Rightarrow> cbuf \<Rightarrow> 'k cmd" where
  "cmdfunc_thread_list T S out e =
     bind_run (run_list (thread_line T (db S)) (threads (db S)) out) (\<lambda>out1. Inr (CMD_SUCCESS, S, out1, e))"

definition cmdfunc_thread_select :: "'k tenv \<Rightarrow> cmd_args \<Rightarrow> 'k sess \<Rightarrow> cbuf \<Rightarrow> cbuf \<Rightarrow> 'k cmd" where
  "cmdfunc_thread_select T args S out e =
     (let (n, e1) = strtol_err (fst (argcopy args ''tid'')) e; i = int_of n in
      if e1 \<noteq> None then Inr (CMD_FAILURE, S, out, e1)
      else if i < 1 \<or> thread_count (db S) < i then
        Inr (CMD_FAILURE, S, out, concat_c e1 (concat [''out of bounds, must be [1, '', show_dec (thread_count (db S)), '']'']))
      else (let (r, d1) = set_focused_thread_with_idx i (db S) in
        if r \<noteq> 0 then Inr (CMD_FAILURE, S\<lparr>db := d1\<rparr>, out, concat_c e1 (''could not set focused thread to thread '' @ show_dec i))
        else (case get_focused_thread d1 of None \<Rightarrow> Inl NullDeref
          | Some (_, f) \<Rightarrow>
              bind_run (disassemble_at_location (de T) (ts_pc (thread_state f)) 4 d1 (concat_c out
                (concat [''Selected thread '', show_dec (ID f), '', tid = '', show_hex (tid f), '', '', quoted (tname f), nl, nl]))) (\<lambda>(_, d2, out2).
                Inr (CMD_SUCCESS, S\<lparr>db := d2\<rparr>, out2, e1)))))"

section \<open>Signals\<close>

definition signal_names :: "(string \<times> int) list" where
  "signal_names =
     [(''SIGHUP'', 1), (''SIGINT'', 2), (''SIGQUIT'', 3), (''SIGILL'', 4), (''SIGTRAP'', 5), (''SIGABRT'', 6), (''SIGEMT'', 7),
      (''SIGFPE'', 8), (''SIGKILL'', 9), (''SIGBUS'', 10), (''SIGSEGV'', 11), (''SIGSYS'', 12), (''SIGPIPE'', 13), (''SIGALRM'', 14),
      (''SIGTERM'', 15), (''SIGURG'', 16), (''SIGSTOP'', 17), (''SIGTSTP'', 18), (''SIGCONT'', 19), (''SIGCHLD'', 20), (''SIGTTIN'', 21),
      (''SIGTTOU'', 22), (''SIGIO'', 23), (''SIGXCPU'', 24), (''SIGXFSZ'', 25), (''SIGVTALRM'', 26), (''SIGPROF'', 27),
      (''SIGWINCH'', 28), (''SIGINFO'', 29), (''SIGUSR1'', 30), (''SIGUSR2'', 31)]"

definition UNKNOWN_SIGNAL :: int where "UNKNOWN_SIGNAL = - 1"

definition sigstr_to_signum :: "string option \<Rightarrow> int run" where
  "sigstr_to_signum s = (case s of None \<Rightarrow> Inl NullDeref
     | Some n \<Rightarrow> Inr (case map_of signal_names n of Some i \<Rightarrow> i | None \<Rightarrow> UNKNOWN_SIGNAL))"

fun occurs_in :: "string \<Rightarrow> string \<Rightarrow> bool" where
  "occurs_in pat [] = (pat = [])"
| "occurs_in pat (c # s) = (take (length pat) (c # s) = pat \<or> occurs_in pat s)"

definition preference :: "string option \<Rightarrow> int run" where
  "preference s = (case s of None \<Rightarrow> Inl NullDeref
     | Some v \<Rightarrow> Inr (if occurs_in ''true'' v \<or> occurs_in ''1'' v then 1 else 0))"

definition cmdfunc_signal_deliver :: "'k tenv \<Rightarrow> cmd_args \<Rightarrow> 'k sess \<Rightarrow> cbuf \<Rightarrow> cbuf \<Rightarrow> 'k cmd" where
  "cmdfunc_signal_deliver T args S out e =
     (let s = fst (argcopy args ''signal'') in
      bind_run (sigstr_to_signum s) (\<lambda>signum.
        if signum = UNKNOWN_SIGNAL then Inr (CMD_FAILURE, S, out, concat_c e (''unknown signal '' @ quoted (the s)))
        else Inr (CMD_SUCCESS, set_kern (snd (send_kill (tc T) (kern (db S)) (pid S) signum)) S, out, e)))"

definition set_signal ::
    "string option \<Rightarrow> string option \<Rightarrow> string option \<Rightarrow> string \<Rightarrow> sigsetting list \<Rightarrow> sigsetting list run" where
  "set_signal n p st s tab =
     bind_run (sigstr_to_signum (Some s)) (\<lambda>sig.
     bind_run (preference n) (\<lambda>notify. bind_run (preference p) (\<lambda>pass. bind_run (preference st) (\<lambda>stop.
     bind_run (sigsettings sig (Some notify, Some pass, Some stop) True tab None) (\<lambda>(tab1, _, _). Inr tab1)))))"

text \<open>\<open>garbage\<close> is what the variables for the settings held before.\<close>

definition cmdfunc_signal_handle :: "'k tenv \<Rightarrow> int \<Rightarrow> cmd_args \<Rightarrow> 'k sess \<Rightarrow> cbuf \<Rightarrow> cbuf \<Rightarrow> 'k cmd" where
  "cmdfunc_signal_handle T garbage args S out e =
     (let sg = fst (argcopy args ''signals''); n = fst (argcopy args ''notify''); p = fst (argcopy args ''pass'');
          st = fst (argcopy args ''stop'') in
      if sg = None \<and> n = None \<and> p = None \<and> st = None then
        bind_run (ops_printsiginfo (sys_signame (de T)) (signals S) garbage out) (\<lambda>out1. Inr (CMD_SUCCESS, S, out1, e))
      else bind_run (run_list (set_signal n p st) (case sg of None \<Rightarrow> [] | Some s \<Rightarrow> tokens s) (signals S)) (\<lambda>tab.
        Inr (CMD_SUCCESS, S\<lparr>signals := tab\<rparr>, out, e)))"

section \<open>Memory\<close>

definition count_arg :: "cmd_args \<Rightarrow> string \<Rightarrow> cbuf \<Rightarrow> int \<times> cbuf" where
  "count_arg args g e = (let (n, e1) = strtol_err (fst (argcopy args g)) e in (int_of n, e1))"

definition range_text :: "string \<Rightarrow> u64 \<Rightarrow> int \<Rightarrow> string \<Rightarrow> string" where
  "range_text what location n err =
     concat [''could not '', what, '' from '', show_hex location, '' to '', show_hex (location + word_of_int n), '': '', err]"

definition cmdfunc_disassemble :: "'k tenv \<Rightarrow> cmd_args \<Rightarrow> 'k sess \<Rightarrow> cbuf \<Rightarrow> cbuf \<Rightarrow> 'k cmd" where
  "cmdfunc_disassemble T args S out e =
     bind_run (eval_in T S (fst (argcopy args ''location'')) e) (\<lambda>(location, e1).
       if e1 \<noteq> None then Inr (CMD_FAILURE, S, out, e1)
       else (let (n, e2) = count_arg args ''count'' e1 in
         if e2 \<noteq> None then Inr (CMD_FAILURE, S, out, e2)
         else if n < 0 then Inr (CMD_FAILURE, S, out, concat_c e2 (''bad count '' @ show_dec n))
         else bind_run (disassemble_at_location (de T) location (word_of_int n) (db S) out) (\<lambda>(err, d1, out1).
           if err \<noteq> KERN_SUCCESS then Inr (CMD_FAILURE, S\<lparr>db := d1\<rparr>, out1,
             concat_c e2 (range_text ''disassemble'' location n (mach_error_string (mc (de T)) err)))
           else Inr (CMD_SUCCESS, S\<lparr>db := d1\<rparr>, out1, e2))))"

definition cmdfunc_examine :: "'k tenv \<Rightarrow> cenv \<Rightarrow> cmd_args \<Rightarrow> 'k sess \<Rightarrow> cbuf \<Rightarrow> cbuf \<Rightarrow> 'k cmd" where
  "cmdfunc_examine T C args S out e =
     bind_run (eval_in T S (fst (argcopy args ''location'')) e) (\<lambda>(location, e1).
       if e1 \<noteq> None then Inr (CMD_FAILURE, S, out, e1)
       else (let (n, e2) = count_arg args ''count'' e1 in
         if e2 \<noteq> None then Inr (CMD_FAILURE, S, out, e2)
         else if n < 0 then Inr (CMD_FAILURE, S, out, concat_c e2 ''negative count'')
         else bind_run (dump_memory (mc (de T)) (kern (db S)) (vla_junk C 16) location (word_of_int n) out) (\<lambda>(err, out1).
           if err \<noteq> KERN_SUCCESS then Inr (CMD_FAILURE, S, out1,
             concat_c e2 (range_text ''dump memory'' location n (mach_error_string (mc (de T)) err)))
           else Inr (CMD_SUCCESS, S, out1, e2))))"

text \<open>
  The bytes that are searched for. A value is kept in a variable of the branch that computes it, which the search reads
  after the end of that branch: the bytes are taken to be still there.
\<close>

definition expr_size :: "string \<Rightarrow> nat option" where
  "expr_size ty = map_of [(''--ec'', 1), (''--ecu'', 1), (''--es'', 2), (''--esu'', 2), (''--ed'', 4), (''--edu'', 4), (''--eld'', 8),
     (''--eldu'', 8)] ty"

definition find_target :: "'k tenv \<Rightarrow> cenv \<Rightarrow> string option \<Rightarrow> string option \<Rightarrow> 'k sess \<Rightarrow> cbuf \<Rightarrow> (u8 list option \<times> cbuf) run" where
  "find_target T C ty target S e =
     (case ty of None \<Rightarrow> Inl NullDeref
      | Some t \<Rightarrow>
          if t = ''--s'' then
            (case target of None \<Rightarrow> Inl NullDeref | Some s \<Rightarrow> Inr (Some (map (\<lambda>c. of_nat (of_char c)) s), e))
          else if t = ''--f'' then
            (let (f, e1) = strtold_err (to_float (fpe C)) (minus1_f (fpe C)) target e in Inr (Some (bytes_le 4 (ucast f)), e1))
          else if t = ''--fd'' \<or> t = ''--fld'' then
            (let (f, e1) = strtold_err (to_double (fpe C)) (minus1_lf (fpe C)) target e in Inr (Some (bytes_le 8 f), e1))
          else (case expr_size t of None \<Rightarrow> Inr (None, e)
            | Some n \<Rightarrow> bind_run (eval_in T S target e) (\<lambda>(v, e1). Inr (Some (bytes_le n v), e1))))"

text \<open>
  The search, position by position, up to the last one inclusive. A read that fails reports a success and leaves the
  array as it was, so only the limit ends the search; \<open>LONG_MAX\<close> does not. Incrementing \<open>LONG_MAX\<close>
  wraps.
\<close>

partial_function (option) search ::
    "'k mach \<Rightarrow> cenv \<Rightarrow> 'k \<Rightarrow> u8 list \<Rightarrow> u64 \<Rightarrow> u64 \<Rightarrow> int \<Rightarrow> cbuf \<Rightarrow> (int \<times> cbuf) run option" where
  "search M C k target end_pos start n out =
     (if start \<le>s end_pos then
        (case read_memory_at_location M k start (of_nat (length target)) of
           Inl f \<Rightarrow> Some (Inl f)
         | Inr (ret, bs) \<Rightarrow>
             if ret \<noteq> KERN_SUCCESS then Some (Inr (n, out))
             else if take (length target) (bs @ drop (length bs) (vla_junk C (length target))) = target then
               (case dump_memory M k (vla_junk C 16) start 16 out of
                  Inl f \<Rightarrow> Some (Inl f)
                | Inr (_, out1) \<Rightarrow> search M C k target end_pos (start + 1) (n + 1) out1)
             else search M C k target end_pos (start + 1) n out)
      else Some (Inr (n, out)))"

declare search.simps [code]

definition LONG_MAX :: u64 where "LONG_MAX = 0x7FFFFFFFFFFFFFFF"

definition search_from ::
    "'k tenv \<Rightarrow> cenv \<Rightarrow> u64 \<Rightarrow> u64 \<Rightarrow> u8 list option \<Rightarrow> 'k sess \<Rightarrow> cbuf \<Rightarrow> cbuf \<Rightarrow> 'k cmd" where
  "search_from T C start cnt target S out e =
     (let lim = (if cnt = LONG_MIN then LONG_MAX else cnt);
          target_len = (case target of None \<Rightarrow> - 1 | Some bs \<Rightarrow> int (length bs)) in
      if lim \<noteq> LONG_MAX \<and> sint lim < target_len then
        Inr (CMD_FAILURE, S, out, concat_c e (concat [''count ('', show_dec (sint lim), '') < sizeof(target type) ('',
          show_dec target_len, '')'']))
      else (case target of None \<Rightarrow> Inl OutOfBounds
        | Some bs \<Rightarrow>
            (let end_pos = (if lim = LONG_MAX then LONG_MAX else start + cnt);
                 out1 = concat_c (concat_c out (''Searching from '' @ show_hex start))
                   (if end_pos = LONG_MAX then '' without a limit... (aborting on error)'' @ nl
                    else concat ['' to '', show_hex end_pos, ''...'', nl]) in
             case search (mc (de T)) C (kern (db S)) bs end_pos start 0 out1 of
               None \<Rightarrow> Inl Diverges
             | Some r \<Rightarrow> bind_run r (\<lambda>(n, out2).
                 Inr (CMD_SUCCESS, S, concat_c out2 (concat [nl, show_dec n, '' result(s)'', nl]), e)))))"

definition cmdfunc_memory_find :: "'k tenv \<Rightarrow> cenv \<Rightarrow> cmd_args \<Rightarrow> 'k sess \<Rightarrow> cbuf \<Rightarrow> cbuf \<Rightarrow> 'k cmd" where
  "cmdfunc_memory_find T C args S out e =
     bind_run (eval_in T S (fst (argcopy args ''start'')) e) (\<lambda>(start, e1).
       if e1 \<noteq> None then Inr (CMD_FAILURE, S, out, e1)
       else (let cs = fst (argcopy args ''count''); (cnt, e2) = (if cs = None then (LONG_MIN, e1) else strtol_err cs e1) in
         if e2 \<noteq> None then Inr (CMD_FAILURE, S, out, e2)
         else bind_run (find_target T C (fst (argcopy args ''type'')) (fst (argcopy args ''target'')) S e2) (\<lambda>(target, e3).
           if e3 \<noteq> None then Inr (CMD_FAILURE, S, out, e3)
           else search_from T C start cnt target S out e3)))"

definition cmdfunc_memory_write :: "'k tenv \<Rightarrow> cmd_args \<Rightarrow> 'k sess \<Rightarrow> cbuf \<Rightarrow> cbuf \<Rightarrow> 'k cmd" where
  "cmdfunc_memory_write T args S out e =
     bind_run (eval_in T S (fst (argcopy args ''location'')) e) (\<lambda>(location, e1).
       if e1 \<noteq> None then Inr (CMD_FAILURE, S, out, e1)
       else bind_run (eval_in T S (fst (argcopy args ''data'')) e1) (\<lambda>(v, e2).
         if e2 \<noteq> None then Inr (CMD_FAILURE, S, out, e2)
         else (let (n, e3) = count_arg args ''size'' e2 in
           if e3 \<noteq> None then Inr (CMD_FAILURE, S, out, e3)
           else bind_run (write_memory_to_location (mc (de T)) (kern (db S)) location v (word_of_int n)) (\<lambda>(ret, k).
             let S1 = set_kern k S in
             if ret \<noteq> KERN_SUCCESS
             then Inr (CMD_FAILURE, S1, out, concat_c e3 (''couldn'' @ CHR 0x27 # ''t write memory: '' @ mach_error_string (mc (de T)) ret))
             else Inr (CMD_SUCCESS, S1, out, e3)))))"

section \<open>Stepping\<close>

definition cmdfunc_step :: "'k tenv \<Rightarrow> step_kind \<Rightarrow> 'k sess \<Rightarrow> cbuf \<Rightarrow> cbuf \<Rightarrow> 'k cmd" where
  "cmdfunc_step T kd S out e =
     bind_run (on_db (prepare (mc (de T)) kd) S) (\<lambda>S1. bind_run (ops_resume T S1) (\<lambda>(_, S2).
       Inr (CMD_SUCCESS, S2, out, e)))"

end
