(* ===== verification/Commands3.thy ===== *)
theory Commands3
  imports Commands2 Procutils Servers
begin

text \<open>
  The commands of \<^verbatim>\<open>source/cmd/misccmd.c\<close>: attaching and detaching, running and stopping the target, backtraces and
  expressions. The shell is the session with what these commands keep beside it.
\<close>

section \<open>The shell\<close>

record 'k shell =
  ses :: "'k sess"
  aslr_slide :: u64
  eval_cnt :: int
  currently_tracing :: bool
  tracing_disabled :: bool

type_synonym 'k shell_cmd = "(cmd_error_t \<times> 'k shell \<times> cbuf \<times> cbuf) run"

definition in_session :: "'k cmd \<Rightarrow> 'k shell \<Rightarrow> 'k shell_cmd" where
  "in_session r H = bind_run r (\<lambda>(c, S1, out1, e1). Inr (c, H\<lparr>ses := S1\<rparr>, out1, e1))"

definition cmdfunc_aslr :: "'k shell \<Rightarrow> cbuf \<Rightarrow> cbuf \<Rightarrow> 'k shell_cmd" where
  "cmdfunc_aslr H out e = Inr (CMD_SUCCESS, H, concat_c out (concat [''    '', show_hex (aslr_slide H), nl]), e)"

section \<open>Backtraces\<close>

text \<open>
  A frame is the address of the next one and a return address. A read that fails reports a success and leaves the frame
  as it was.
\<close>

definition read_frame :: "'k mach \<Rightarrow> 'k \<Rightarrow> u64 \<Rightarrow> u8 list \<Rightarrow> (kern_return \<times> u8 list) run" where
  "read_frame M k loc old = bind_run (read_memory_at_location M k loc 16) (\<lambda>(r, bs). Inr (r, bs @ drop (length bs) old))"

definition frame_next :: "u8 list \<Rightarrow> u64" where "frame_next bs = number_le (take 8 bs)"
definition frame_addr :: "u8 list \<Rightarrow> u64" where "frame_addr bs = number_le (take 8 (drop 8 bs))"

definition frame_line :: "'k denv \<Rightarrow> 'k dbg \<Rightarrow> string \<Rightarrow> u64 \<Rightarrow> cbuf \<Rightarrow> cbuf run" where
  "frame_line E d lead addr out =
     bind_run (frame_string E d addr None) (\<lambda>fr.
       let out1 = concat_c out (concat [lead, ''0x'', hex_pad 16 (uint addr)]) in
       Inr (concat_c (case fr of None \<Rightarrow> out1 | Some s \<Rightarrow> concat_c out1 (CHR '' '' # s)) nl))"

partial_function (option) unwind ::
    "'k denv \<Rightarrow> 'k dbg \<Rightarrow> u8 list \<Rightarrow> int \<Rightarrow> cbuf \<Rightarrow> (int \<times> cbuf) run option" where
  "unwind E d frame n out =
     (if frame_next frame = 0 then Some (Inr (n, out))
      else (case frame_line E d (concat [''    frame #'', show_dec n, '': '']) (frame_addr frame) out of
          Inl f \<Rightarrow> Some (Inl f)
        | Inr out1 \<Rightarrow>
            (case read_frame (mc E) (kern d) (frame_next frame) frame of
               Inl f \<Rightarrow> Some (Inl f)
             | Inr (_, frame1) \<Rightarrow> unwind E d frame1 (n + 1) out1)))"

declare unwind.simps [code]

definition cmdfunc_backtrace :: "'k tenv \<Rightarrow> cenv \<Rightarrow> 'k sess \<Rightarrow> cbuf \<Rightarrow> cbuf \<Rightarrow> 'k cmd" where
  "cmdfunc_backtrace T C S out e =
     (if \<not> suspended T S then Inr (CMD_FAILURE, S, out, concat_c e ''debuggee must be suspended'')
      else (case get_focused_thread (db S) of None \<Rightarrow> Inl NullDeref
        | Some (a, _) \<Rightarrow>
            (let E = de T; d = snd (get_thread_state (mc E) (Some a) (db S)); S1 = S\<lparr>db := d\<rparr> in
             bind_run (thread_at a d) (\<lambda>t.
             bind_run (frame_line E d ''  * frame #0: '' (ts_pc (thread_state t)) out) (\<lambda>out1.
             bind_run (frame_line E d ''    frame #1: '' (ts_lr (thread_state t)) out1) (\<lambda>out2.
             bind_run (read_frame (mc E) (kern d) (ts_fp (thread_state t)) (vla_junk C 16)) (\<lambda>(err, frame).
               if err \<noteq> KERN_SUCCESS
               then Inr (CMD_FAILURE, S1, out2, concat_c e (''backtrace failed: '' @ mach_error_string (mc E) err))
               else (case unwind E d frame 2 out2 of None \<Rightarrow> Inl Diverges
                 | Some r \<Rightarrow> bind_run r (\<lambda>(n, out3).
                     Inr (CMD_SUCCESS, S1, concat_c out3 (concat ['' - cannot unwind past frame '', show_dec (n - 1), '' -'', nl]), e))))))))))"

section \<open>Running and stopping\<close>

definition cmdfunc_continue :: "'k tenv \<Rightarrow> 'k shell \<Rightarrow> cbuf \<Rightarrow> cbuf \<Rightarrow> 'k shell_cmd" where
  "cmdfunc_continue T H out e =
     (if \<not> suspended T (ses H) then Inr (CMD_FAILURE, H, out, e)
      else bind_run (on_db (breakpoint_delete_all_specific (mc (de T)) BP_COND_STEPPING) (ses H)) (\<lambda>S1.
           bind_run (ops_resume T S1) (\<lambda>(_, S2).
             let out1 = concat_c out (concat [''Process '', show_dec (pid S2), '' resuming'', nl]) in
             Inr (CMD_SUCCESS, H\<lparr>ses := S2\<rparr>, if currently_tracing H then concat_c out1 nl else out1, e))))"

definition cmdfunc_detach :: "'k tenv \<Rightarrow> bool \<Rightarrow> 'k shell \<Rightarrow> cbuf \<Rightarrow> cbuf \<Rightarrow> 'k shell_cmd" where
  "cmdfunc_detach T from_death H out e =
     bind_run (ops_detach T from_death (ses H) out) (\<lambda>(S1, out1).
       Inr (CMD_SUCCESS, H\<lparr>ses := S1, currently_tracing := currently_tracing H \<and> tracing_disabled H\<rparr>, out1, e))"

definition cmdfunc_interrupt :: "'k tenv \<Rightarrow> 'k sess \<Rightarrow> cbuf \<Rightarrow> cbuf \<Rightarrow> 'k cmd" where
  "cmdfunc_interrupt T S out e =
     (if pid S = - 1 then Inr (CMD_FAILURE, S, out, e)
      else bind_run (on_db (\<lambda>d. run_list (program_thread (mc (de T)) clear_mdscr) (map fst (threads d)) d) S) (\<lambda>S1.
        Inr (CMD_SUCCESS, set_kern (snd (send_kill (tc T) (kern (db S1)) (pid S1) SIGSTOP)) S1, out, e)))"

definition SIGKILL :: int where "SIGKILL = 9"

text \<open>The settings of \<^verbatim>\<open>SIGKILL\<close> are put aside while the target is killed. \<open>garbage\<close> is uninitialised memory.\<close>

definition cmdfunc_kill :: "'k tenv \<Rightarrow> int \<Rightarrow> 'k sess \<Rightarrow> cbuf \<Rightarrow> cbuf \<Rightarrow> 'k cmd" where
  "cmdfunc_kill T garbage S out e =
     (if answer (tc T) (kern (db S)) (concat [''Do you really want to kill '',
          (case debuggee_name S of None \<Rightarrow> ''(null)'' | Some n \<Rightarrow> n), ''? (y/n) '']) = CHR ''n''
      then Inr (CMD_SUCCESS, S, out, e)
      else bind_run (sigsettings SIGKILL (Some garbage, Some garbage, Some garbage) False (signals S) e) (\<lambda>(_, backup, e1).
        if e1 \<noteq> None then Inr (CMD_FAILURE, S, out, e1)
        else bind_run (sigsettings SIGKILL (Some 0, Some 1, Some 0) True (signals S) e1) (\<lambda>(tab, _, e2).
          let S1 = S\<lparr>signals := tab\<rparr> in
          if e2 \<noteq> None then Inr (CMD_FAILURE, S1, out, e2)
          else bind_run (ops_detach T False S1 out) (\<lambda>(S2, out2).
            let S3 = set_kern (snd (send_kill (tc T) (kern (db S2)) (pid S) SIGKILL)) S2 in
            bind_run (sigsettings SIGKILL backup True (signals S3) e2) (\<lambda>(tab3, _, e3).
              Inr (failed_if e3, S3\<lparr>signals := tab3\<rparr>, out2, e3))))))"

definition cmdfunc_quit :: "'k tenv \<Rightarrow> 'k shell \<Rightarrow> cbuf \<Rightarrow> cbuf \<Rightarrow> 'k shell_cmd" where
  "cmdfunc_quit T H out e =
     bind_run (if pid (ses H) \<noteq> - 1 then ops_detach T False (ses H) out else Inr (ses H, out)) (\<lambda>(S1, out1).
       Inr (CMD_QUIT, H\<lparr>ses := S1, currently_tracing := currently_tracing H \<and> tracing_disabled H\<rparr>, out1, e))"

definition cmdfunc_trace :: "'k shell \<Rightarrow> cbuf \<Rightarrow> cbuf \<Rightarrow> 'k shell_cmd" where
  "cmdfunc_trace H out e =
     (if tracing_disabled H then Inr (CMD_FAILURE, H, out, concat_c e ''tracing is not supported on this host'')
      else if currently_tracing H then Inr (CMD_FAILURE, H, out, concat_c e ''already tracing'')
      else Inr (CMD_SUCCESS, H\<lparr>currently_tracing := True\<rparr>, out, e))"

section \<open>Evaluating expressions\<close>

definition evaluate_one :: "'k tenv \<Rightarrow> string \<Rightarrow> 'k shell \<times> cbuf \<Rightarrow> ('k shell \<times> cbuf) run" where
  "evaluate_one T ex s =
     (let H = fst s; i = show_dec (eval_cnt H) in
      bind_run (eval_in T (ses H) (Some ex) None) (\<lambda>(v, err). case err of
          Some m \<Rightarrow> Inr (H, concat_c (snd s) (concat [''could not evaluate expr '', i, '': '', m, nl]))
        | None \<Rightarrow> bind_run (set_var T (Some (CHR ''$'' # i)) (Some (show_dec (sint v))) (ses H) None) (\<lambda>(S1, _).
            Inr (H\<lparr>ses := S1, eval_cnt := eval_cnt H + 1\<rparr>,
                 concat_c (snd s) (concat [''$'', i, '' = '', show_dec (sint v), nl])))))"

definition cmdfunc_evaluate :: "'k tenv \<Rightarrow> cmd_args \<Rightarrow> 'k shell \<Rightarrow> cbuf \<Rightarrow> cbuf \<Rightarrow> 'k shell_cmd" where
  "cmdfunc_evaluate T args H out e =
     bind_run (run_list (evaluate_one T) (arg_texts args ''expr'') (H, out)) (\<lambda>(H1, out1). Inr (CMD_SUCCESS, H1, out1, e))"

section \<open>Attaching\<close>

text \<open>
  What attaching asks the system: the processes, the tables of them a wait looks at, the port of a task, the regions of
  its memory, and whether the shared cache can be opened (and mapped: the error) and the list of images read.
\<close>

record 'k aenv =
  procs :: "'k \<Rightarrow> proc_table"
  waits :: "proc_table list"
  task_for_pid :: "int \<Rightarrow> kern_return \<times> u32"
  regions :: "'k slide_env"
  dsc_open :: bool
  dsc_mmap_error :: "string option"
  dyld_infos_fail :: bool
  pt_attach :: "'k \<Rightarrow> int \<Rightarrow> 'k"

definition dsc_warning :: string where
  "dsc_warning = concat [''warning: could not properly examine the debuggee'', [CHR 0x27], ''s dyld_all_image_infos structure, '',
     ''symbolication will be minimal.'', nl]"

definition fresh_target :: "int \<Rightarrow> string \<Rightarrow> 'k sess \<Rightarrow> 'k sess" where
  "fresh_target p n S =
     S\<lparr>pid := p, debuggee_name := Some n,
       db := (db S)\<lparr>breakpoints := [], watchpoints := [], threads := [], num_breakpoints := 0, num_watchpoints := 0\<rparr>\<rparr>"

definition first_threads :: "'k tenv \<Rightarrow> 'k sess \<Rightarrow> cbuf \<Rightarrow> ('k sess \<times> cbuf) run" where
  "first_threads T S out =
     (case get_threads T S out of (_, ts, out1) \<Rightarrow>
        (case ts of None \<Rightarrow> Inl NullDeref
         | Some [] \<Rightarrow> Inl OutOfBounds
         | Some (p # ps) \<Rightarrow>
             (let M = mc (de T); d = resetmtid ((db S)\<lparr>thread_count := int (length (p # ps))\<rparr>) in
              bind_run (update_thread_list M (thread_blank (tc T)) (Some (p # ps)) d out1) (\<lambda>(d1, out2).
                let d2 = set_focused_thread p d1 in
                Inr (S\<lparr>db := snd (get_thread_state M (map_option fst (get_focused_thread d2)) d2)\<rparr>, out2)))))"

text \<open>The variables: the codes of the last exit become void, and the slide is set.\<close>

definition attach_vars :: "'k tenv \<Rightarrow> u64 \<Rightarrow> 'k sess \<Rightarrow> cbuf \<Rightarrow> ('k sess \<times> cbuf) run" where
  "attach_vars T sl S out =
     bind_run (void_convvar (vars (db S)) (Some ''$_exitcode'')) (\<lambda>v1.
     bind_run (void_convvar v1 (Some ''$_exitsignal'')) (\<lambda>v2.
     bind_run (set_var T (Some ''$ASLR'') (Some (show_hex sl)) (S\<lparr>db := (db S)\<lparr>vars := v2\<rparr>\<rparr>) None) (\<lambda>(S1, e).
       Inr (S1, case e of None \<Rightarrow> out | Some m \<Rightarrow> concat_c out (concat [''warning: '', m, nl])))))"

text \<open>Without the shared cache the command is done before the target is attached to with \<^verbatim>\<open>ptrace\<close>.\<close>

definition attach_symbols :: "'k aenv \<Rightarrow> string option \<Rightarrow> 'k sess \<Rightarrow> cbuf \<Rightarrow> 'k sess \<times> cbuf" where
  "attach_symbols A ns S out =
     (if \<not> dsc_open A then (S, concat_c out dsc_warning)
      else (let out1 = (case dsc_mmap_error A of
                Some m \<Rightarrow> concat_c out (concat [''mmap dyld_shared_cache_arm64 failed: '', m, '', minimal symbolication.'', nl])
              | None \<Rightarrow> if dyld_infos_fail A then concat_c out dsc_warning else out) in
        if ns = None then (set_kern (pt_attach A (kern (db S)) (pid S)) S, out1)
        else (S\<lparr>no_signals := True\<rparr>, concat_c out1 (''Not sending initial SIGSTOP. Disassembly omitted.'' @ nl))))"

definition target_name :: "'k aenv \<Rightarrow> 'k \<Rightarrow> string \<Rightarrow> int \<Rightarrow> cbuf \<Rightarrow> string option \<times> cbuf" where
  "target_name A k target p e =
     (if is_number_fast (Some target) then progname_from_pid (procs A k) p e else (Some target, e))"

text \<open>What follows once the threads are known: the servers, the report and the symbols.\<close>

definition attached_report :: "string \<Rightarrow> int \<Rightarrow> u64 \<Rightarrow> string" where
  "attached_report name p sl = concat [''Attached to '', name, '' (pid: '', show_dec p, ''), slide: '', show_hex sl, ''.'', nl]"

definition finish_attach ::
    "'k tenv \<Rightarrow> 'k aenv \<Rightarrow> bool \<Rightarrow> string \<Rightarrow> string option \<Rightarrow> int \<Rightarrow> u64 \<Rightarrow> 'k sess \<Rightarrow> cbuf \<Rightarrow> ('k sess \<times> cbuf) run" where
  "finish_attach T A kq name ns p sl S out =
     (let (S1, out1) = setup_servers T kq S out in
      bind_run (attach_vars T sl S1 (concat_c out1 (attached_report name p sl))) (\<lambda>(S2, out2).
        Inr (attach_symbols A ns S2 out2)))"

definition slide_warning :: "u64 \<Rightarrow> cbuf \<Rightarrow> cbuf" where
  "slide_warning sl out =
     (if sl = - 1 then concat_c out (concat [''warning: couldn'', [CHR 0x27], ''t find debuggee'', [CHR 0x27], ''s ASLR slide'', nl])
      else out)"

definition attach_to ::
    "'k tenv \<Rightarrow> 'k aenv \<Rightarrow> bool \<Rightarrow> string \<Rightarrow> string option \<Rightarrow> int \<Rightarrow> 'k shell \<Rightarrow> cbuf \<Rightarrow> cbuf \<Rightarrow> 'k shell_cmd" where
  "attach_to T A kq target ns p H out e =
     (let S1 = snd (suspend T (ses H)) in
      bind_run (find_slide (mc (de T)) (regions A) (kern (db S1)) (task S1)) (\<lambda>sl.
        let H1 = H\<lparr>ses := S1\<lparr>pid := p\<rparr>, aslr_slide := sl\<rparr>; out1 = slide_warning sl out;
            (n, e1) = target_name A (kern (db S1)) target p e in
        (case n of None \<Rightarrow> Inr (CMD_FAILURE, H1, out1, e1)
         | Some name \<Rightarrow> bind_run (first_threads T (fresh_target p name S1) out1) (\<lambda>(S2, out2).
             bind_run (finish_attach T A kq name ns p sl S2 out2) (\<lambda>(S3, out3).
               Inr (CMD_SUCCESS, H1\<lparr>ses := S3\<rparr>, out3, e1))))))"

definition no_task :: "string \<Rightarrow> int \<Rightarrow> string \<Rightarrow> string" where
  "no_task target p m =
     concat [''couldn'', [CHR 0x27], ''t get task port for '', target, '' (pid: '', show_dec p, ''): '', m, nl,
       ''Did you forget to sign iosdbg with entitlements?'', nl, ''Are you privileged enough to debug this process?'']"

definition attach_unattached ::
    "'k tenv \<Rightarrow> 'k aenv \<Rightarrow> bool \<Rightarrow> string option \<Rightarrow> string option \<Rightarrow> string option \<Rightarrow> 'k shell \<Rightarrow> cbuf \<Rightarrow> cbuf \<Rightarrow> 'k shell_cmd" where
  "attach_unattached T A kq waitfor target ns H out e =
     (case target of None \<Rightarrow> Inl NullDeref
      | Some tg \<Rightarrow>
          (let R = procs A (kern (db (ses H)));
               (p, e1) = (if waitfor \<noteq> None then (wait_for_launch R (waits A) tg, e) else parse_pid R tg e) in
           if e1 \<noteq> None \<or> p = - 1 then Inr (CMD_FAILURE, H, out, e1)
           else (let (r, tp) = task_for_pid A p; H1 = H\<lparr>ses := (ses H)\<lparr>task := tp\<rparr>\<rparr> in
             if r \<noteq> KERN_SUCCESS
             then Inr (CMD_FAILURE, H1, out, concat_c e1 (no_task tg p (mach_error_string (mc (de T)) r)))
             else attach_to T A kq tg ns p H1 out e1)))"

text \<open>
  While something is debugged, the user is asked, it is detached from, and the command starts again with the arguments put
  back.
\<close>

definition cmdfunc_attach :: "'k tenv \<Rightarrow> 'k aenv \<Rightarrow> bool \<Rightarrow> cmd_args \<Rightarrow> 'k shell \<Rightarrow> cbuf \<Rightarrow> cbuf \<Rightarrow> 'k shell_cmd" where
  "cmdfunc_attach T A kq args H out e =
     (let (waitfor, args1) = argcopy args ''waitfor''; (target, args2) = argcopy args1 ''target'';
          ns = (\<lambda>as. fst (argcopy as ''nosigs'')) in
      if pid (ses H) = - 1 then attach_unattached T A kq waitfor target (ns args2) H out e
      else if answer (tc T) (kern (db (ses H))) (concat [''Detach from '', (case debuggee_name (ses H) of None \<Rightarrow> ''(null)'' | Some n \<Rightarrow> n),
           '' and reattach to '', (case target of None \<Rightarrow> ''(null)'' | Some t \<Rightarrow> t), ''? (y/n) '']) = CHR ''n''
      then Inr (CMD_SUCCESS, H, out, e)
      else bind_run (cmdfunc_detach T False H None None) (\<lambda>(_, H1, out1, _).
        case target of None \<Rightarrow> Inl NullDeref
        | Some t \<Rightarrow>
            (let args3 = argins (argins args2 (Some ''waitfor'') waitfor) (Some ''target'') (Some t);
                 (w, args4) = argcopy args3 ''waitfor''; (tg, args5) = argcopy args4 ''target'' in
             attach_unattached T A kq w tg (ns args5) H1 out1 e)))"

end
