(* ===== verification/CommandsProof.thy ===== *)
theory CommandsProof
  imports Commands3 TaskopsProof
begin

text \<open>
  Searching memory finds the positions that match, and without a count it does not end; a backtrace shows the frames of
  a chain that ends, and does not complete on one that does not.
\<close>

section \<open>Searching memory\<close>

lemma dump_row_returns:
  assumes "kernel_ok M"
  shows "\<exists>out'. dump_memory M k st a 16 out = Inr (KERN_SUCCESS, out')"
proof -
  from read_memory_returns [OF assms, of k a 16] obtain bs where bs: "read_memory_at_location M k a 16 = Inr (KERN_SUCCESS, bs)" by blast
  have "dump_rows M k s 16 (0 + 16) l o1 = Inr (KERN_SUCCESS, o1)" for s l o1 by (subst dump_rows.simps) simp
  then show ?thesis unfolding dump_memory_def by (subst dump_rows.simps) (simp add: bs Let_def)
qed

definition dumped :: "'k mach \<Rightarrow> cenv \<Rightarrow> 'k \<Rightarrow> u64 \<Rightarrow> cbuf \<Rightarrow> cbuf" where
  "dumped M C k a out = (case dump_memory M k (vla_junk C 16) a 16 out of Inr (_, o1) \<Rightarrow> o1 | Inl _ \<Rightarrow> out)"

text \<open>The positions from \<open>a\<close> on, \<open>m\<close> of them, at which the memory has the bytes.\<close>

definition found_at :: "(u64 \<Rightarrow> u8) \<Rightarrow> u8 list \<Rightarrow> u64 \<Rightarrow> nat \<Rightarrow> u64 list" where
  "found_at mem bs a m = filter (\<lambda>x. bytes_at mem x (length bs) = bs) (map (\<lambda>i. a + of_nat i) [0..<m])"

lemma found_at_Suc:
  "found_at mem bs a (Suc m) = (if bytes_at mem a (length bs) = bs then [a] else []) @ found_at mem bs (a + 1) m"
proof -
  have "map (\<lambda>i. a + of_nat i) [0..<Suc m] = a # map (\<lambda>i. (a + 1) + of_nat i) [0..<m]"
    by (subst upt_conv_Cons) (simp_all add: map_Suc_upt [symmetric] add.assoc add.left_commute del: upt_Suc)
  then show ?thesis by (simp add: found_at_def)
qed

lemma search_finds:
  assumes K: "kernel_ok M" and F: "flat_mem M mem" and r: "0 \<le> sint a" "sint a + int m = sint e + 1" "sint e < 2 ^ 63 - 1"
    and n: "length bs < 2 ^ 32"
  shows "search M C k bs e a i out =
    Some (Inr (i + int (length (found_at (mem k) bs a m)), fold (dumped M C k) (found_at (mem k) bs a m) out))"
  using r
proof (induction m arbitrary: a i out)
  case 0
  then have "\<not> a \<le>s e" by (simp add: word_sle_eq)
  then show ?case by (subst search.simps) (simp add: found_at_def)
next
  case (Suc m)
  then have le: "a \<le>s e" and lt: "sint a < 2 ^ 63 - 1" by (simp_all add: word_sle_eq)
  have s1: "sint (a + 1) = sint a + 1"
    using Suc.prems(1) lt by (simp add: sint_word_ariths signed_take_bit_int_eq_self)
  have u: "unat a < 2 ^ 63"
  proof -
    have "uint a = sint a" using Suc.prems(1) by (simp add: uint_sint take_bit_int_eq_self lt [THEN less_trans])
    then have "int (unat a) < 9223372036854775808" using lt by simp
    then have "unat a < 9223372036854775808" by linarith
    then show ?thesis by simp
  qed
  have un: "unat (of_nat (length bs) :: u64) = length bs" using n by (simp add: unat_of_nat)
  have "unat a + unat (of_nat (length bs) :: u64) < 2 ^ 64" using u n un by simp
  from read_memory_flat [OF F this] have rd: "read_memory_at_location M k a (of_nat (length bs)) = Inr (KERN_SUCCESS, bytes_at (mem k) a (length bs))"
    by (simp add: un)
  obtain o1 where d: "dump_memory M k (vla_junk C 16) a 16 out = Inr (KERN_SUCCESS, o1)" using dump_row_returns [OF K] by blast
  have IH: "search M C k bs e (a + 1) i out = Some (Inr (i + int (length (found_at (mem k) bs (a + 1) m)), fold (dumped M C k) (found_at (mem k) bs (a + 1) m) out))" for i out
    by (rule Suc.IH) (use Suc.prems s1 in simp_all)
  show ?case
    by (subst search.simps) (simp add: le rd d dumped_def [abs_def] IH found_at_Suc)
qed

lemma search_unlimited:
  fixes M :: "'k mach"
  assumes K: "kernel_ok M"
  shows "search M C k bs LONG_MAX a i out = None"
proof -
  have "e = LONG_MAX \<longrightarrow> \<not> kernel_ok M" if "search M C k bs e a i out = Some y" for M :: "'k mach" and C k bs e a i out y
  proof (rule search.raw_induct [where P = "\<lambda>M C k bs e a i out y. e = LONG_MAX \<longrightarrow> \<not> kernel_ok M", OF _ that], goal_cases)
    case (1 rec M C k bs e a i out y)
    show ?case
    proof (intro impI notI)
      assume e: "e = LONG_MAX" and K: "kernel_ok M"
      have "sint a < 2 ^ 63" using sint_range_size [of a] by (simp add: word_size)
      then have le: "a \<le>s e" by (simp add: word_sle_eq e LONG_MAX_def)
      obtain bs' where rd: "read_memory_at_location M k a (of_nat (length bs)) = Inr (KERN_SUCCESS, bs')"
        using read_memory_returns [OF K] by blast
      obtain o1 where d: "dump_memory M k (vla_junk C 16) a 16 out = Inr (KERN_SUCCESS, o1)"
        using dump_row_returns [OF K] by blast
      have "\<exists>i' o'. rec M C k bs e (a + 1) i' o' = Some y"
        using 1(2) by (auto simp: le rd d split: if_splits)
      with 1(1) e K show False by blast
    qed
  qed
  with K show ?thesis by (cases "search M C k bs LONG_MAX a i out") auto
qed

lemma search_unending:
  assumes "kernel_ok (mc (de T))"
  shows "search_from T C start LONG_MIN (Some bs) S out e = Inl Diverges"
  by (simp add: search_from_def Let_def search_unlimited [OF assms])

text \<open>What is shown for the positions that match, and the line at the end.\<close>

definition shown_matches :: "'k tenv \<Rightarrow> cenv \<Rightarrow> 'k sess \<Rightarrow> u64 list \<Rightarrow> cbuf \<Rightarrow> cbuf" where
  "shown_matches T C S xs out =
     concat_c (fold (dumped (mc (de T)) C (kern (db S))) xs out) (concat [nl, show_dec (int (length xs)), '' result(s)'', nl])"

lemma search_counted:
  assumes K: "kernel_ok (mc (de T))" and F: "flat_mem (mc (de T)) mem"
    and r: "0 \<le> sint start" "int (length bs) \<le> sint cnt" "sint start + sint cnt < 2 ^ 63 - 1" and n: "length bs < 2 ^ 32"
  shows "search_from T C start cnt (Some bs) S out e = Inr (CMD_SUCCESS, S,
    shown_matches T C S (found_at (mem (kern (db S))) bs start (nat (sint cnt) + 1))
      (concat_c (concat_c out (''Searching from '' @ show_hex start)) (concat ['' to '', show_hex (start + cnt), ''...'', nl])), e)"
proof -
  have c0: "0 \<le> sint cnt" "sint cnt < 2 ^ 63 - 1" using r by simp_all
  have ne: "cnt \<noteq> LONG_MIN" "cnt \<noteq> LONG_MAX" using c0 by (auto simp: LONG_MIN_def LONG_MAX_def)
  have e: "sint (start + cnt) = sint start + sint cnt"
    using r c0 by (simp add: sint_word_ariths signed_take_bit_int_eq_self)
  have ne2: "start + cnt \<noteq> LONG_MAX" using e r(3) by (auto simp: LONG_MAX_def)
  have m: "sint start + int (nat (sint cnt) + 1) = sint (start + cnt) + 1" using e c0 by simp
  have m3: "sint (start + cnt) < 2 ^ 63 - 1" using e r(3) by simp
  show ?thesis
    using ne ne2 r(2) search_finds [OF K F r(1) m m3 n, of C "kern (db S)"]
    by (simp add: search_from_def Let_def shown_matches_def)
qed

section \<open>Backtraces\<close>

text \<open>The word at an address, and the return addresses of the chain of frames that starts there.\<close>

definition word_at :: "(u64 \<Rightarrow> u8) \<Rightarrow> u64 \<Rightarrow> u64" where
  "word_at mem a = number_le (bytes_at mem a 8)"

inductive frame_chain :: "(u64 \<Rightarrow> u8) \<Rightarrow> u64 \<Rightarrow> u64 list \<Rightarrow> bool" for mem :: "u64 \<Rightarrow> u8" where
  last_frame: "word_at mem a = 0 \<Longrightarrow> unat a + 16 < 2 ^ 64 \<Longrightarrow> frame_chain mem a []"
| next_frame: "word_at mem a \<noteq> 0 \<Longrightarrow> unat a + 16 < 2 ^ 64 \<Longrightarrow> frame_chain mem (word_at mem a) vs \<Longrightarrow>
    frame_chain mem a (word_at mem (a + 8) # vs)"

lemma frame_at:
  assumes "flat_mem M mem" "unat a + 16 < 2 ^ 64"
  shows "read_frame M k a old = Inr (KERN_SUCCESS, bytes_at (mem k) a 16 @ drop 16 old)"
    "frame_next (bytes_at (mem k) a 16 @ xs) = word_at (mem k) a" "frame_addr (bytes_at (mem k) a 16 @ xs) = word_at (mem k) (a + 8)"
proof -
  have u: "unat (16 :: u64) = 16" by simp
  from read_memory_flat [OF assms(1), of a 16 k] assms(2) u
  show "read_frame M k a old = Inr (KERN_SUCCESS, bytes_at (mem k) a 16 @ drop 16 old)" by (simp add: read_frame_def)
  have s: "[0..<16] = [0..<8] @ [8..<16]" "[8..<16] = map (\<lambda>i. i + 8) [0..<8]" by code_simp+
  have b: "bytes_at (mem k) a 16 = bytes_at (mem k) a 8 @ bytes_at (mem k) (a + 8) 8"
    unfolding bytes_at_def s(1) by (simp only: map_append s(2) map_map) (simp add: ac_simps)
  show "frame_next (bytes_at (mem k) a 16 @ xs) = word_at (mem k) a" "frame_addr (bytes_at (mem k) a 16 @ xs) = word_at (mem k) (a + 8)"
    by (simp_all add: b frame_next_def frame_addr_def word_at_def)
qed

fun shown_frames :: "'k denv \<Rightarrow> 'k dbg \<Rightarrow> int \<Rightarrow> u64 list \<Rightarrow> cbuf \<Rightarrow> cbuf run" where
  "shown_frames E d n [] out = Inr out"
| "shown_frames E d n (v # vs) out =
     bind_run (frame_line E d (concat [''    frame #'', show_dec n, '': '']) v out) (\<lambda>out1. shown_frames E d (n + 1) vs out1)"

lemma unwind_chain:
  assumes F: "flat_mem (mc E) mem" and c: "frame_chain (mem (kern d)) a vs"
    and s: "shown_frames E d n vs out = Inr out'"
  shows "unwind E d (bytes_at (mem (kern d)) a 16 @ xs) n out = Some (Inr (n + int (length vs), out'))"
  using c s
proof (induction arbitrary: n out xs)
  case (last_frame a)
  then show ?case using frame_at [OF F last_frame(2)] by (subst unwind.simps) simp
next
  case (next_frame a vs)
  from next_frame.prems obtain out1 where
    o1: "frame_line E d (concat [''    frame #'', show_dec n, '': '']) (word_at (mem (kern d)) (a + 8)) out = Inr out1"
    "shown_frames E d (n + 1) vs out1 = Inr out'" by (auto simp: bind_run_Inr)
  have "unat (word_at (mem (kern d)) a) + 16 < 2 ^ 64" using next_frame.hyps(3) by cases simp_all
  note r = frame_at(1) [OF F this] and f = frame_at(2,3) [OF F next_frame.hyps(2)]
  have "unwind E d (bytes_at (mem (kern d)) a 16 @ xs) n out =
      unwind E d (bytes_at (mem (kern d)) (word_at (mem (kern d)) a) 16 @ drop 16 (bytes_at (mem (kern d)) a 16 @ xs)) (n + 1) out1"
    using next_frame.hyps(1) o1(1) by (subst unwind.simps) (simp add: f r)
  with next_frame.IH [OF o1(2)] show ?case by simp
qed

text \<open>A set of frames that each lead to another of the set, as a frame that leads to itself.\<close>

definition frame_loop :: "(u64 \<Rightarrow> u8) \<Rightarrow> u64 set \<Rightarrow> bool" where
  "frame_loop mem A \<longleftrightarrow> (\<forall>a \<in> A. word_at mem a \<noteq> 0 \<and> word_at mem a \<in> A \<and> unat a + 16 < 2 ^ 64)"

lemma frame_line_plain:
  assumes "symtab E = None"
  shows "frame_line E d lead v out = Inr (concat_c (concat_c out (concat [lead, ''0x'', hex_pad 16 (uint v)])) nl)"
  using assms by (simp add: frame_line_def frame_string_def create_frame_string_def Let_def)

lemma unwind_loop:
  fixes E :: "'k denv"
  assumes F: "flat_mem (mc E) mem" and L: "frame_loop (mem (kern d)) A" "a \<in> A" and s: "symtab E = None"
  shows "unwind E d (bytes_at (mem (kern d)) a 16 @ xs) n out = None"
proof -
  have "symtab E = None \<longrightarrow> flat_mem (mc E) mem \<longrightarrow> frame_loop (mem (kern d)) A \<longrightarrow>
      (\<forall>a \<in> A. \<forall>xs. fr \<noteq> bytes_at (mem (kern d)) a 16 @ xs)"
    if "unwind E d fr n out = Some y" for E :: "'k denv" and d fr n out y
  proof (rule unwind.raw_induct [where P = "\<lambda>E d fr n out y. symtab E = None \<longrightarrow> flat_mem (mc E) mem \<longrightarrow> frame_loop (mem (kern d)) A \<longrightarrow>
      (\<forall>a \<in> A. \<forall>xs. fr \<noteq> bytes_at (mem (kern d)) a 16 @ xs)", OF _ that], goal_cases)
    case (1 rec E d fr n out y)
    show ?case
    proof (intro impI ballI allI notI)
      fix a xs
      assume s: "symtab E = None" and F: "flat_mem (mc E) mem" and L: "frame_loop (mem (kern d)) A"
        and a: "a \<in> A" "fr = bytes_at (mem (kern d)) a 16 @ xs"
      let ?b = "word_at (mem (kern d)) a"
      have b: "?b \<noteq> 0" "?b \<in> A" "unat a + 16 < 2 ^ 64" "unat ?b + 16 < 2 ^ 64" using L a(1) by (auto simp: frame_loop_def)
      note f = frame_at(2) [OF F b(3)] and r = frame_at(1) [OF F b(4)]
      obtain out1 where "rec E d (bytes_at (mem (kern d)) ?b 16 @ drop 16 fr) (n + 1) out1 = Some y"
        using 1(2) b(1) by (simp add: a(2) f r frame_line_plain [OF s])
      from 1(1) [OF this] s F L b(2) show False by blast
    qed
  qed
  with F L s show ?thesis by (cases "unwind E d (bytes_at (mem (kern d)) a 16 @ xs) n out") blast+
qed

text \<open>The command, on a target that is stopped and has a thread in focus whose state the kernel gives.\<close>

lemma backtrace_starts:
  assumes "suspended T S" "get_focused_thread (db S) = Some (a, t0)"
    and "d = snd (get_thread_state (mc (de T)) (Some a) (db S))" "pl_get (threads d) a = Some t"
    and F: "flat_mem (mc (de T)) mem" and fp: "unat (ts_fp (thread_state t)) + 16 < 2 ^ 64"
    and "frame_line (de T) d ''  * frame #0: '' (ts_pc (thread_state t)) out = Inr out1"
    and "frame_line (de T) d ''    frame #1: '' (ts_lr (thread_state t)) out1 = Inr out2"
  shows "cmdfunc_backtrace T C S out e =
    (case unwind (de T) d (bytes_at (mem (kern d)) (ts_fp (thread_state t)) 16 @ drop 16 (vla_junk C 16)) 2 out2 of
       None \<Rightarrow> Inl Diverges
     | Some r \<Rightarrow> bind_run r (\<lambda>(n, out3). Inr (CMD_SUCCESS, S\<lparr>db := d\<rparr>,
         concat_c out3 (concat ['' - cannot unwind past frame '', show_dec (n - 1), '' -'', nl]), e)))"
proof -
  obtain r where g: "get_thread_state (mc (de T)) (Some a) (db S) = (r, d)"
    using assms(3) by (cases "get_thread_state (mc (de T)) (Some a) (db S)") simp
  show ?thesis
    unfolding cmdfunc_backtrace_def assms(2) option.case prod.case Let_def g snd_conv
    using assms(1,4,7,8) frame_at(1) [OF F fp] by (simp add: thread_at_def)
qed

lemma backtrace_chain:
  assumes "suspended T S" "get_focused_thread (db S) = Some (a, t0)"
    and "d = snd (get_thread_state (mc (de T)) (Some a) (db S))" "pl_get (threads d) a = Some t"
    and F: "flat_mem (mc (de T)) mem" and c: "frame_chain (mem (kern d)) (ts_fp (thread_state t)) vs" and sym: "symtab (de T) = None"
  shows "\<exists>out'. cmdfunc_backtrace T C S out e = Inr (CMD_SUCCESS, S\<lparr>db := d\<rparr>, concat_c out'
      (concat ['' - cannot unwind past frame '', show_dec (int (length vs) + 1), '' -'', nl]), e) \<and>
    shown_frames (de T) d 2 vs (concat_c (concat_c (concat_c (concat_c out (concat [''  * frame #0: '', ''0x'',
        hex_pad 16 (uint (ts_pc (thread_state t)))])) nl)
        (concat [''    frame #1: '', ''0x'', hex_pad 16 (uint (ts_lr (thread_state t)))])) nl) = Inr out'"
proof -
  note l = frame_line_plain [OF sym]
  have fp: "unat (ts_fp (thread_state t)) + 16 < 2 ^ 64" using c by cases simp_all
  have s: "\<exists>o'. shown_frames (de T) d n ws o1 = Inr o'" for n ws o1
    by (induction ws arbitrary: n o1) (simp_all add: l)
  obtain out' where o': "shown_frames (de T) d 2 vs (concat_c (concat_c (concat_c (concat_c out (concat [''  * frame #0: '', ''0x'',
        hex_pad 16 (uint (ts_pc (thread_state t)))])) nl)
        (concat [''    frame #1: '', ''0x'', hex_pad 16 (uint (ts_lr (thread_state t)))])) nl) = Inr out'" using s by blast
  show ?thesis
    by (intro exI [of _ out'] conjI o', subst backtrace_starts [OF assms(1-4) F fp l l])
      (simp only: unwind_chain [OF F c o'], simp add: ac_simps)
qed

lemma backtrace_loop:
  assumes "suspended T S" "get_focused_thread (db S) = Some (a, t0)"
    and "d = snd (get_thread_state (mc (de T)) (Some a) (db S))" "pl_get (threads d) a = Some t"
    and F: "flat_mem (mc (de T)) mem" and L: "frame_loop (mem (kern d)) A" "ts_fp (thread_state t) \<in> A" and sym: "symtab (de T) = None"
  shows "cmdfunc_backtrace T C S out e = Inl Diverges"
proof -
  have fp: "unat (ts_fp (thread_state t)) + 16 < 2 ^ 64" using L by (simp add: frame_loop_def)
  note l = frame_line_plain [OF sym]
  show ?thesis
    by (subst backtrace_starts [OF assms(1-4) F fp l l]) (simp only: unwind_loop [OF F L sym] option.simps)
qed

end
