(* ===== verification/SampleCommands.thy ===== *)
theory SampleCommands
  imports CommandsProof SampleSession RegProof
begin

text \<open>
  A session for the properties of the commands: the state of the kernel is the memory of the task, which is always
  suspended, and the frame pointer of its threads is at 0x1000.
\<close>

definition frame_mach :: "(u64 \<Rightarrow> u8) mach" where
  "frame_mach = flat_mach\<lparr>thread_get_state := (\<lambda>k p. Inr (zero_ts\<lparr>ts_fp := 0x1000\<rparr>))\<rparr>"

definition frame_calls :: "(u64 \<Rightarrow> u8) tcalls" where
  "frame_calls = \<lparr>task_suspend = (\<lambda>k p. (KERN_SUCCESS, k)), task_resume = (\<lambda>k p. (KERN_SUCCESS, k)),
     suspend_count = (\<lambda>k p. Inr 1), task_threads = (\<lambda>k p. (KERN_SUCCESS, Some [5, 6])),
     get_exception_ports = (\<lambda>k p. (KERN_SUCCESS, [])), set_exception_ports = (\<lambda>k p x. (KERN_SUCCESS, k)),
     insert_right = (\<lambda>k p. (KERN_SUCCESS, k)), port_deallocate = (\<lambda>k p. (KERN_SUCCESS, k)), vm_dealloc = (\<lambda>k ps. KERN_SUCCESS),
     send_kill = (\<lambda>k i s. (0, k)), pt_detach = (\<lambda>k i. (0, k)), answer = (\<lambda>k s. CHR ''y''), thread_blank = sample_thread 0 False 0\<rparr>"

definition frame_env :: "(u64 \<Rightarrow> u8) tenv" where
  "frame_env = \<lparr>de = \<lparr>mc = frame_mach, cve = sample_cvenv, armadillo = (\<lambda>i a. Some ''nop''), ptrace_thupdate = (\<lambda>k p. k),
     sys_signame = replicate 32 ''sig'', qsort = sort_combos, symtab = None, line_info = None, slide = 0,
     stale_name = replicate 512 0, stack_junk = replicate 8 0\<rparr>, tc = frame_calls\<rparr>"

definition frame_sess :: "(u64 \<Rightarrow> u8) \<Rightarrow> (u64 \<Rightarrow> u8) sess" where
  "frame_sess m = \<lparr>db = (sample_dbg 2)\<lparr>kern := m\<rparr>, task = 7, pid = 100, debuggee_name = Some ''app'', exception_port = 9,
     original_ports = [], exc_queue = Some [], need_reply = False, sent = [], signals = initial_settings, no_signals = False\<rparr>"

definition sample_cenv :: cenv where
  "sample_cenv = \<lparr>show_g = (\<lambda>w. ''0''), show_g15 = (\<lambda>w. ''0''), fpe = sample_fpenv, vla_junk = (\<lambda>n. replicate n 0)\<rparr>"

lemma frame_ok: "kernel_ok (mc (de frame_env))" "flat_mem (mc (de frame_env)) (\<lambda>k. k)" "suspended frame_env (frame_sess m)"
  "symtab (de frame_env) = None"
  by (simp_all add: kernel_ok_def flat_mem_def frame_env_def frame_mach_def flat_mach_def zero_ds_def regs16_def
      frame_calls_def suspended_def)

definition frame_thread :: machthread where
  "frame_thread = (sample_thread 5 True 1)\<lparr>thread_state := zero_ts\<lparr>ts_fp := 0x1000\<rparr>\<rparr>"

text \<open>Every other byte of a memory that is zero but for a frame at 0x1000 whose successor is at 0x2000, and one that is its own.\<close>

definition two_frames :: "u64 \<Rightarrow> u8" where
  "two_frames a = (if a = 0x1001 then 0x20 else if a = 0x1008 then 0x44 else 0)"

definition own_frame :: "u64 \<Rightarrow> u8" where
  "own_frame a = (if a = 0x1001 then 0x10 else 0)"

lemma frame_focus:
  "get_focused_thread (db (frame_sess m)) = Some (1, sample_thread 5 True 1)"
  "pl_get (threads (snd (get_thread_state (mc (de frame_env)) (Some 1) (db (frame_sess m))))) 1 = Some frame_thread"
  "kern (snd (get_thread_state (mc (de frame_env)) (Some 1) (db (frame_sess m)))) = m"
  by (simp_all add: frame_sess_def sample_dbg_def sample_thread_def get_focused_thread_def find_with_cond_def pl_find_def
      cond_holds_def get_thread_state_def frame_env_def frame_mach_def flat_mach_def frame_thread_def pl_get_def pl_update_def get_state_def fetch_thread_def upd_thread_def)

lemma eight: "[0..<8] = [0, 1, 2, 3, 4, 5, 6, 7 :: nat]"
  by code_simp

lemma two_frames_chain: "frame_chain two_frames 0x1000 [0x44]"
proof -
  have w: "word_at two_frames 0x1000 = 0x2000" "word_at two_frames (0x1000 + 8) = 0x44" "word_at two_frames 0x2000 = 0"
    by (simp_all add: word_at_def bytes_at_def eight two_frames_def)
  have "frame_chain two_frames 0x2000 []" using w by (intro frame_chain.intros) simp_all
  then show ?thesis using next_frame [where mem = two_frames and a = "0x1000" and vs = "[]"] w by simp
qed

lemma own_frame_loop: "frame_loop own_frame {0x1000}"
  by (simp add: frame_loop_def word_at_def bytes_at_def eight own_frame_def)

lemma part_of_bytes:
  assumes "off + n \<le> N"
  shows "take n (drop off (bytes_at mem a N)) = bytes_at mem (a + of_nat off) n"
proof (rule nth_equalityI)
  show "length (take n (drop off (bytes_at mem a N))) = length (bytes_at mem (a + of_nat off) n)"
    using assms by (simp add: bytes_at_def)
  show "take n (drop off (bytes_at mem a N)) ! i = bytes_at mem (a + of_nat off) n ! i"
    if "i < length (take n (drop off (bytes_at mem a N)))" for i
    using that assms by (simp add: bytes_at_def add.assoc)
qed

text \<open>An executable at 0x4000 whose only command loads its text segment for the address 0x1000.\<close>

definition image_bytes :: "u64 \<Rightarrow> u8" where
  "image_bytes a = (case map_of [(0x4000, 0xCF), (0x4001, 0xFA), (0x4002, 0xED), (0x4003, 0xFE), (0x400C, 2), (0x4010, 1), (0x4020, 0x19),
     (0x4028, 0x5F), (0x4029, 0x5F), (0x402A, 0x54), (0x402B, 0x45), (0x402C, 0x58), (0x402D, 0x54), (0x4039, 0x10)] a of
     Some b \<Rightarrow> b | None \<Rightarrow> 0)"

definition image_regions :: "(u64 \<Rightarrow> u8) slide_env" where
  "image_regions = \<lparr>vm_region_recurse = (\<lambda>k t a. Some (0x4000, 0x4000)), fresh_block = (\<lambda>n. replicate n 0),
     freed_cmdsize = (\<lambda>seg. ucast (field 4 4 seg))\<rparr>"

lemma seven: "[0..<7] = [0, 1, 2, 3, 4, 5, 6 :: nat]" "[0..<4] = [0, 1, 2, 3 :: nat]"
  by code_simp+

lemma image_fields:
  "is_executable (bytes_at image_bytes 0x4000 32)" "field 16 4 (bytes_at image_bytes 0x4000 32) = 1"
  "is_text_segment (bytes_at image_bytes 0x4020 72)" "field 24 8 (bytes_at image_bytes 0x4020 72) = 0x1000"
     apply (simp_all add: is_executable_def is_text_segment_def field_def part_of_bytes part_of_bytes [of 0, simplified])
     apply (simp_all add: bytes_at_def seven eight image_bytes_def MH_MAGIC_64_def MH_EXECUTE_def LC_SEGMENT_64_def text_name_def)
  done

lemma freed_field: "ucast (ucast (field 4 4 seg) :: u32) = field 4 4 seg"
proof (rule bit_word_eqI)
  fix n assume "n < LENGTH(64)"
  show "bit (ucast (ucast (field 4 4 seg) :: u32) :: u64) n = bit (field 4 4 seg) n"
    by (auto simp: bit_ucast_iff field_def bit_number_le)
qed

end
