(* ===== verification/Cmddocs.thy ===== *)
theory Cmddocs
  imports CPrelude
begin

text \<open>
  The documentation of the commands, the regular expressions of their arguments and the names of the groups, from the
  headers of \<^verbatim>\<open>source/cmd\<close>. A line of a documentation is the number of its tabs and its text.
\<close>

definition doc_text :: "(nat \<times> string) list \<Rightarrow> string" where
  "doc_text ls = concat (map (\<lambda>(n, s). replicate n (CHR 0x09) @ s @ [CHR 0x0A]) ls)"

text \<open>In a regular expression \<^verbatim>\<open>~\<close> stands for the backslash.\<close>

definition regex_text :: "string list \<Rightarrow> string" where
  "regex_text ls = map (\<lambda>c. if c = CHR ''~'' then CHR 0x5C else c) (concat ls)"

definition NO_ARGUMENT_REGEX :: string where "NO_ARGUMENT_REGEX = []"

definition NO_GROUPS :: "string list" where "NO_GROUPS = []"

section \<open>The target\<close>

definition ASLR_COMMAND_DOCUMENTATION :: string where
  "ASLR_COMMAND_DOCUMENTATION = doc_text
     [(0, ''Show debuggee's ASLR slide.''), (0, ''This command has no arguments.''), (0, []), (0, ''Syntax:''),
      (1, ''aslr''), (0, [])]"

definition ATTACH_COMMAND_DOCUMENTATION :: string where
  "ATTACH_COMMAND_DOCUMENTATION = doc_text
     [(0, ''Attach to a program via its PID or name.''),
      (0, ''To attach upon launch, give '--waitfor' before the program's name.''),
      (0, ''This command has one mandatory argument and two optional arguments.''), (0, []),
      (0, ''Mandatory arguments:''), (1, ''target''),
      (2, ''What you want to attach to. It can be a PID or a process name.''), (0, []), (0, []),
      (0, ''Optional arguments:''), (1, ''--waitfor''),
      (2, '''--waitfor' tells iosdbg to wait for process launch.''), (1, ''--ns''),
      (2, '''--ns' tells iosdbg not to send a real SIGSTOP to the debuggee,''),
      (2, ''    but instead fake it. Useful for debugging some daemons.''), (0, []), (0, ''Syntax:''),
      (1, ''attach --waitfor? target --ns?''), (0, [])]"

definition BACKTRACE_COMMAND_DOCUMENTATION :: string where
  "BACKTRACE_COMMAND_DOCUMENTATION = doc_text
     [(0, ''Print a backtrace of the entire stack. All stack frames are printed.''),
      (0, ''This command has no arguments.''), (0, []), (0, ''Syntax:''), (1, ''backtrace''), (0, [])]"

definition CONTINUE_COMMAND_DOCUMENTATION :: string where
  "CONTINUE_COMMAND_DOCUMENTATION = doc_text
     [(0, ''Resume debuggee execution.''), (0, ''This command has no arguments.''), (0, []), (0, ''Syntax:''),
      (1, ''continue''), (0, [])]"

definition DETACH_COMMAND_DOCUMENTATION :: string where
  "DETACH_COMMAND_DOCUMENTATION = doc_text
     [(0, ''Detach from the debuggee.''), (0, ''This command has no arguments.''), (0, []), (0, ''Syntax:''),
      (1, ''detach''), (0, [])]"

definition EVALUATE_COMMAND_DOCUMENTATION :: string where
  "EVALUATE_COMMAND_DOCUMENTATION = doc_text
     [(0, ''Evaluate an expression on the current thread.''),
      (0, ''This command has one mandatory argument and no optional arguments.''), (0, []),
      (0, ''Mandatory arguments:''), (1, ''expr''), (2, ''The expression.''),
      (2, ''This command accepts an arbitrary amount of this argument.''), (0, []), (0, ''Syntax:''),
      (1, ''evaluate expr''), (0, [])]"

definition HELP_COMMAND_DOCUMENTATION :: string where
  "HELP_COMMAND_DOCUMENTATION = doc_text
     [(0, ''Get help for a command.''), (0, ''This command has no mandatory arguments and one optional argument.''),
      (0, []), (0, ''Optional arguments:''), (1, ''command''),
      (2, ''The command you'll be shown documentation for.''),
      (2, ''Omit this argument to be shown all top level commands.''), (0, []), (0, ''Syntax:''),
      (1, ''help command?''), (0, [])]"

definition INTERRUPT_COMMAND_DOCUMENTATION :: string where
  "INTERRUPT_COMMAND_DOCUMENTATION = doc_text
     [(0, ''Interrupt the debuggee.''), (0, ''This commmand has no arguments.''), (0, []), (0, ''Syntax:''),
      (1, ''interrupt''), (0, [])]"

definition KILL_COMMAND_DOCUMENTATION :: string where
  "KILL_COMMAND_DOCUMENTATION = doc_text
     [(0, ''Kill the debuggee.''), (0, ''This command has no arguments.''), (0, []), (0, ''Syntax:''), (1, ''kill''),
      (0, [])]"

definition QUIT_COMMAND_DOCUMENTATION :: string where
  "QUIT_COMMAND_DOCUMENTATION = doc_text
     [(0, ''Quit iosdbg.''), (0, ''This command has no arguments.''), (0, []), (0, ''Syntax:''), (1, ''quit''),
      (0, [])]"

definition TRACE_COMMAND_DOCUMENTATION :: string where
  "TRACE_COMMAND_DOCUMENTATION = doc_text
     [(0, ''This command provides similar functionality as strace through the kdebug interface.''),
      (0, ''This command has no arguments.''), (0, []), (0, ''Syntax:''), (1, ''trace''), (0, [])]"

definition ATTACH_COMMAND_REGEX :: string where
  "ATTACH_COMMAND_REGEX = regex_text
     [''(?J)(((?<waitfor>--waitfor)~s+'',
      ''(\"(?<target>.*)\"|(?!.*\")(?<target>~w+)))|'',
      ''^~s*((\"(?<target>.*)\")|'',
      ''(?!.*\")(?<target>~w+)))(~s+(?<nosigs>--ns))?'']"

definition EVALUATE_COMMAND_REGEX :: string where
  "EVALUATE_COMMAND_REGEX = regex_text
     [''(?<expr>[^~s]+)'']"

definition HELP_COMMAND_REGEX :: string where
  "HELP_COMMAND_REGEX = regex_text
     [''(?<cmd>[~w~s]+)?'']"

definition ATTACH_COMMAND_REGEX_GROUPS :: "string list" where
  "ATTACH_COMMAND_REGEX_GROUPS = [''waitfor'', ''target'', ''nosigs'']"

definition EVALUATE_COMMAND_REGEX_GROUPS :: "string list" where
  "EVALUATE_COMMAND_REGEX_GROUPS = [''expr'']"

definition HELP_COMMAND_REGEX_GROUPS :: "string list" where
  "HELP_COMMAND_REGEX_GROUPS = [''cmd'']"

section \<open>Breakpoints\<close>

definition BREAKPOINT_COMMAND_DOCUMENTATION :: string where
  "BREAKPOINT_COMMAND_DOCUMENTATION = doc_text
     [(0, '''breakpoint' describes the group of commands which deal with breakpoints.'')]"

definition BREAKPOINT_DELETE_COMMAND_DOCUMENTATION :: string where
  "BREAKPOINT_DELETE_COMMAND_DOCUMENTATION = doc_text
     [(0, ''Delete breakpoints.''), (0, ''This command has no mandatory arguments and one optional argument.''),
      (0, []), (0, ''Optional arguments:''), (1, ''id''), (2, ''The ID of the breakpoint you want to delete.''),
      (2, ''This command accepts an arbitrary amount of this argument.''),
      (2, ''Omit this argument to delete all breakpoints.''), (0, []), (0, ''Syntax:''),
      (1, ''breakpoint delete id?''), (0, [])]"

definition BREAKPOINT_LIST_COMMAND_DOCUMENTATION :: string where
  "BREAKPOINT_LIST_COMMAND_DOCUMENTATION = doc_text
     [(0, ''List breakpoints.''), (0, ''This command has no arguments.''), (0, []), (0, ''Syntax:''),
      (1, ''breakpoint list''), (0, [])]"

definition BREAKPOINT_SET_COMMAND_DOCUMENTATION :: string where
  "BREAKPOINT_SET_COMMAND_DOCUMENTATION = doc_text
     [(0, ''Set a breakpoint.''), (0, ''This command has one mandatory argument and one optional argument.''),
      (0, []), (0, ''Mandatory arguments:''), (1, ''location''),
      (2, ''This expression will used as the location for the breakpoint.''),
      (2, ''This command accepts an arbitrary amount of this argument.''), (0, []), (0, []),
      (0, ''Optional arguments:''), (1, ''tid''),
      (2, '''tid' ensures a breakpoint is only active for a specific thread.''),
      (2, ''iosdbg will notify you if this thread goes away.''),
      (2, ''If this argument is omitted, this breakpoint applies to all threads.''), (0, []), (0, ''Syntax:''),
      (1, ''breakpoint set (--t tid)? location''), (0, [])]"

definition BREAKPOINT_DELETE_COMMAND_REGEX :: string where
  "BREAKPOINT_DELETE_COMMAND_REGEX = regex_text
     [''(?<ids>[~d~s]+)?'']"

definition BREAKPOINT_SET_COMMAND_REGEX :: string where
  "BREAKPOINT_SET_COMMAND_REGEX = regex_text
     [''(--t~s+(?<tid>(0[xX])?[[:xdigit:]]+)~s+)?(?<locations>[~w+~-*~/~$()]+)'']"

definition BREAKPOINT_DELETE_COMMAND_REGEX_GROUPS :: "string list" where
  "BREAKPOINT_DELETE_COMMAND_REGEX_GROUPS = [''ids'']"

definition BREAKPOINT_SET_COMMAND_REGEX_GROUPS :: "string list" where
  "BREAKPOINT_SET_COMMAND_REGEX_GROUPS = [''tid'', ''locations'']"

section \<open>Memory\<close>

definition DISASSEMBLE_COMMAND_DOCUMENTATION :: string where
  "DISASSEMBLE_COMMAND_DOCUMENTATION = doc_text
     [(0, ''Disassemble debuggee memory.''),
      (0, ''This command has two mandatory arguments and no optional arguments.''), (0, []),
      (0, ''Mandatory arguments:''), (1, ''location''),
      (2, ''This expression will be evaluated and used as where iosdbg will start disassembling.''), (1, ''count''),
      (2, ''How many instructions iosdbg will disassemble.''), (0, []), (0, ''Syntax:''),
      (1, ''disassemble location count''), (0, [])]"

definition EXAMINE_COMMAND_DOCUMENTATION :: string where
  "EXAMINE_COMMAND_DOCUMENTATION = doc_text
     [(0, ''View debuggee memory.''), (0, ''This command has two mandatory arguments and no optional arguments.''),
      (0, []), (0, ''Mandatory arguments:''), (1, ''location''),
      (2, ''This expression will be evaluted and used as where iosdbg will start dumping memory.''), (1, ''count''),
      (2, ''How many bytes iosdbg will dump.''), (0, []), (0, ''Syntax:''), (1, ''examine location count''), (0, [])]"

definition MEMORY_COMMAND_DOCUMENTATION :: string where
  "MEMORY_COMMAND_DOCUMENTATION = doc_text
     [(0, '''memory' describes the group of commands which deal with manipulating debuggee memory.'')]"

definition MEMORY_FIND_COMMAND_DOCUMENTATION :: string where
  "MEMORY_FIND_COMMAND_DOCUMENTATION = doc_text
     [(0, ''Search debuggee memory.''),
      (0, ''This command has three mandatory arguments and one optional argument.''), (0, []),
      (0, ''Mandatory arguments:''), (1, ''start''),
      (2, ''This expression will be evaluated and used as the starting point of the search.''), (1, ''type''),
      (2, ''The type of the data you're searching for.''), (2, ''Valid types:''),
      (2, ''--s'' @ [CHR 0x09] @ ''string''), (2, ''--f'' @ [CHR 0x09] @ ''float''),
      (2, ''--fd'' @ [CHR 0x09] @ ''double''), (2, ''--fld'' @ [CHR 0x09] @ ''long double''),
      (2, ''--ec'' @ [CHR 0x09] @ ''expression, treat result as signed char''),
      (2, ''--ecu'' @ [CHR 0x09] @ ''expression, treat result as unsigned char''),
      (2, ''--es'' @ [CHR 0x09] @ ''expression, treat result as signed short''),
      (2, ''--esu'' @ [CHR 0x09] @ ''expression, treat result as unsigned short''),
      (2, ''--ed'' @ [CHR 0x09] @ ''expression, treat result as signed integer''),
      (2, ''--edu'' @ [CHR 0x09] @ ''expression, treat result as unsigned integer''),
      (2, ''--eld'' @ [CHR 0x09] @ ''expression, treat result as signed long''),
      (2, ''--eldu'' @ [CHR 0x09] @ ''expression, treat result as unsigned long''), (1, ''target''),
      (2, ''What you're searching for.''), (0, []), (0, ''Optional arguments:''), (1, ''count''),
      (2, ''How many bytes iosdbg will search before aborting.''),
      (2, ''When this argument is omitted, iosdbg aborts search on error.''), (0, []), (0, ''Syntax:''),
      (1, ''memory find <start> <count>? <type> <target>''), (0, [])]"

definition MEMORY_WRITE_COMMAND_DOCUMENTATION :: string where
  "MEMORY_WRITE_COMMAND_DOCUMENTATION = doc_text
     [(0, ''Write arbitrary data to debuggee memory.''),
      (0, ''This command has three mandatory arguments and no optional arguments.''), (0, []),
      (0, ''Mandatory arguments:''), (1, ''location''), (2, ''Where to write to.''), (1, ''data''),
      (2, ''What to write.''), (1, ''count''), (2, ''The size of your data.''), (0, []), (0, ''Syntax:''),
      (1, ''memory write location data count''), (0, [])]"

definition DISASSEMBLE_COMMAND_REGEX :: string where
  "DISASSEMBLE_COMMAND_REGEX = regex_text
     [''(?<location>[~w+~-*~/~$()]+)~s+(?<count>[~w+~-*~/~$()]+)'']"

definition EXAMINE_COMMAND_REGEX :: string where
  "EXAMINE_COMMAND_REGEX = regex_text
     [''(?<location>[~w+~-*~/~$()]+)~s+(?<count>[~w+~-*~/~$()]+)'']"

definition MEMORY_FIND_COMMAND_REGEX :: string where
  "MEMORY_FIND_COMMAND_REGEX = regex_text
     [''(?J)^(?<start>[~w+~-*~/~$()]+)~s+'',
      ''((?<count>(0[xX])?[[:xdigit:]]+)~s+)?'',
      ''(?<type>--(s|f|fd|fld|ec|ecu|es|esu|ed|edu|eld|eldu))~s+'',
      ''(?(?=\")\"(?<target>.*)\"|(?<target>[~w+~-*~/~$()~.]+))'']"

definition MEMORY_WRITE_COMMAND_REGEX :: string where
  "MEMORY_WRITE_COMMAND_REGEX = regex_text
     [''^(?<location>[~w+~-*~/~$()]+)~s+'',
      ''(?<data>[~w+~-*~/~$()]+)~s+'',
      ''(?<size>(0[xX])?~d+)'']"

definition DISASSEMBLE_COMMAND_REGEX_GROUPS :: "string list" where
  "DISASSEMBLE_COMMAND_REGEX_GROUPS = [''location'', ''count'']"

definition EXAMINE_COMMAND_REGEX_GROUPS :: "string list" where
  "EXAMINE_COMMAND_REGEX_GROUPS = [''location'', ''count'']"

definition MEMORY_FIND_COMMAND_REGEX_GROUPS :: "string list" where
  "MEMORY_FIND_COMMAND_REGEX_GROUPS = [''start'', ''count'', ''type'', ''target'']"

definition MEMORY_WRITE_COMMAND_REGEX_GROUPS :: "string list" where
  "MEMORY_WRITE_COMMAND_REGEX_GROUPS = [''location'', ''data'', ''size'']"

section \<open>Registers\<close>

definition REGISTER_COMMAND_DOCUMENTATION :: string where
  "REGISTER_COMMAND_DOCUMENTATION = doc_text
     [(0, '''register' describes the group of commands which deal with registers.'')]"

definition REGISTER_VIEW_COMMAND_DOCUMENTATION :: string where
  "REGISTER_VIEW_COMMAND_DOCUMENTATION = doc_text
     [(0, ''Show one or more debuggee registers.''),
      (0, ''This command has no mandatory arguments and one optional argument.''), (0, []),
      (0, ''Optional arguments:''), (1, ''reg''), (2, ''The general purpose or floating point register.''),
      (2, ''This command accepts an arbitrary amount of this argument.''),
      (2, ''Omit this argument to see every general purpose register.''), (0, []), (0, ''Syntax:''),
      (1, ''register view reg?''), (0, [])]"

definition REGISTER_WRITE_COMMAND_DOCUMENTATION :: string where
  "REGISTER_WRITE_COMMAND_DOCUMENTATION = doc_text
     [(0, ''Write to debuggee registers.''),
      (0, ''This command has two mandatory arguments and no optional arguments.''), (0, []),
      (0, ''Mandatory arguments:''), (1, ''reg''), (2, ''The register you're modifying.''), (1, ''value''),
      (2, ''The value you're going to set `reg` equal to.''),
      (2, ''If you want to modify one of the 128 bit V registers, format value as follows:''),
      (2, ''\"{byte1 byte2 byte3 byte4 byte5 byte6 byte7 byte8 byte9 byte10 byte11 byte12 byte13 byte14 byte15 byte16}\".''),
      (2, ''Bytes do not have to be in hex.''), (0, []), (0, ''Syntax:''), (1, ''register write reg value''), (0, [])]"

definition REGISTER_VIEW_COMMAND_REGEX :: string where
  "REGISTER_VIEW_COMMAND_REGEX = regex_text
     [''(?<reg>[^~s]+)'']"

definition REGISTER_WRITE_COMMAND_REGEX :: string where
  "REGISTER_WRITE_COMMAND_REGEX = regex_text
     [''^(?<reg>[~$~w~d]+)~s+(?<value>(~{.*~})|(-?(0[xX])?[~d~.]+))'']"

definition REGISTER_VIEW_COMMAND_REGEX_GROUPS :: "string list" where
  "REGISTER_VIEW_COMMAND_REGEX_GROUPS = [''reg'']"

definition REGISTER_WRITE_COMMAND_REGEX_GROUPS :: "string list" where
  "REGISTER_WRITE_COMMAND_REGEX_GROUPS = [''reg'', ''value'']"

section \<open>Signals\<close>

definition SIGNAL_COMMAND_DOCUMENTATION :: string where
  "SIGNAL_COMMAND_DOCUMENTATION = doc_text
     [(0, '''signal' describes the group of commands which deal with signals.'')]"

definition SIGNAL_DELIVER_COMMAND_DOCUMENTATION :: string where
  "SIGNAL_DELIVER_COMMAND_DOCUMENTATION = doc_text
     [(0, ''Deliver an arbitrary signal to the debuggee.''),
      (0, ''This command has one mandatory argument and no optional arguments.''), (0, []),
      (0, ''Mandatory arguments:''), (1, ''signal''), (2, ''The signal to deliver.''), (0, []), (0, ''Syntax:''),
      (1, ''signal deliver signal''), (0, [])]"

definition SIGNAL_HANDLE_COMMAND_DOCUMENTATION :: string where
  "SIGNAL_HANDLE_COMMAND_DOCUMENTATION = doc_text
     [(0, ''Change how iosdbg will handle signals sent from the OS to the debuggee.''),
      (0, ''This command has no mandatory arguments and four optional arguments.''), (0, []),
      (0, ''Optional arguments:''), (1, ''signals''), (2, ''The signal(s) you're updating.''), (1, ''notify''),
      (2, ''Whether or not iosdbg notifies you if the signal has been received.''), (1, ''pass''),
      (2, ''Whether or not the signal will be passed to the debuggee.''), (1, ''stop''),
      (2, ''Whether or not the debuggee will be stopped upon receiving this signal.''), (0, []),
      (0, ''If none of these arguments are given, the current policy is shown.''), (0, []), (0, ''Syntax:''),
      (1, ''signal handle signals --notify <boolean> --pass <boolean> --stop <boolean>''),
      (1, ''signal handle signals -n <boolean> -p <boolean> -s <boolean>''), (0, [])]"

definition SIGNAL_DELIVER_COMMAND_REGEX :: string where
  "SIGNAL_DELIVER_COMMAND_REGEX = regex_text
     [''^(?<signal>[^~s]+)'']"

definition SIGNAL_HANDLE_COMMAND_REGEX :: string where
  "SIGNAL_HANDLE_COMMAND_REGEX = regex_text
     [''^(?<signals>[~w~s]+)~s+'',
      ''--?(n(otify)?)~s+(?<notify>1|0|true|false)~s+'',
      ''--?(p(ass)?)~s+(?<pass>1|0|true|false)~s+'',
      ''--?(s(top)?)~s+(?<stop>1|0|true|false)'']"

definition SIGNAL_DELIVER_COMMAND_REGEX_GROUPS :: "string list" where
  "SIGNAL_DELIVER_COMMAND_REGEX_GROUPS = [''signal'']"

definition SIGNAL_HANDLE_COMMAND_REGEX_GROUPS :: "string list" where
  "SIGNAL_HANDLE_COMMAND_REGEX_GROUPS = [''signals'', ''notify'', ''pass'', ''stop'']"

section \<open>Steps\<close>

definition STEP_COMMAND_DOCUMENTATION :: string where
  "STEP_COMMAND_DOCUMENTATION = doc_text
     [(0, '''step' describes the group of commands which deal with stepping.'')]"

definition STEP_INST_INTO_COMMAND_DOCUMENTATION :: string where
  "STEP_INST_INTO_COMMAND_DOCUMENTATION = doc_text
     [(0, ''Execute the next machine instruction.''), (0, ''This command has no arguments.''), (0, []),
      (0, ''Syntax:''), (1, ''step inst-into''), (0, [])]"

definition STEP_INST_OVER_COMMAND_DOCUMENTATION :: string where
  "STEP_INST_OVER_COMMAND_DOCUMENTATION = doc_text
     [(0, ''Execute the next machine instruction.''),
      (0, ''If a function call is encountered, proceed until the function returns.''),
      (0, ''This command has no arguments.''), (0, []), (0, ''Syntax:''), (1, ''step inst-over''), (0, [])]"

section \<open>Symbols\<close>

definition SYMBOLS_COMMAND_DOCUMENTATION :: string where
  "SYMBOLS_COMMAND_DOCUMENTATION = doc_text
     [(0, '''symbols' describes the group of commands which deal with DWARF file processing.'')]"

definition SYMBOLS_ADD_COMMAND_DOCUMENTATION :: string where
  "SYMBOLS_ADD_COMMAND_DOCUMENTATION = doc_text
     [(0, ''Specify a DWARF file for source level debugging. C language only.''),
      (0, ''This command has one mandatory arguments and no optional arguments.''), (0, []),
      (0, ''Mandatory arguments:''), (1, ''path''), (2, ''The path to the DWARF file.''), (0, []), (0, ''Syntax:''),
      (1, ''symbols add path''), (0, [])]"

definition SYMBOLS_ADD_COMMAND_REGEX :: string where
  "SYMBOLS_ADD_COMMAND_REGEX = regex_text
     [''(?<path>[~.~/~w~s]+)'']"

definition SYMBOLS_ADD_COMMAND_REGEX_GROUPS :: "string list" where
  "SYMBOLS_ADD_COMMAND_REGEX_GROUPS = [''path'']"

section \<open>Threads\<close>

definition THREAD_COMMAND_DOCUMENTATION :: string where
  "THREAD_COMMAND_DOCUMENTATION = doc_text
     [(0, '''thread' describes the group of commmands which deal with managing debuggee threads.'')]"

definition THREAD_LIST_COMMAND_DOCUMENTATION :: string where
  "THREAD_LIST_COMMAND_DOCUMENTATION = doc_text
     [(0, ''Inquire about existing threads of the debuggee.''), (0, ''This command has no arguments.''), (0, []),
      (0, ''Syntax:''), (1, ''thread list''), (0, [])]"

definition THREAD_SELECT_COMMAND_DOCUMENTATION :: string where
  "THREAD_SELECT_COMMAND_DOCUMENTATION = doc_text
     [(0, ''Select the thread to focus on while debugging.''),
      (0, ''This command has one mandatory argument and no optional arguments.''), (0, []),
      (0, ''Mandatory arguments:''), (1, ''tid''), (2, ''The thread ID to focus on.''), (0, []), (0, ''Syntax:''),
      (1, ''thread select tid''), (0, [])]"

definition THREAD_SELECT_COMMAND_REGEX :: string where
  "THREAD_SELECT_COMMAND_REGEX = regex_text
     [''^~s*(?<tid>~d+)'']"

definition THREAD_SELECT_COMMAND_REGEX_GROUPS :: "string list" where
  "THREAD_SELECT_COMMAND_REGEX_GROUPS = [''tid'']"

section \<open>Variables\<close>

definition VARIABLE_COMMAND_DOCUMENTATION :: string where
  "VARIABLE_COMMAND_DOCUMENTATION = doc_text
     [(0, '''variable' describes the group of commands which deal with convenience variables.'')]"

definition VARIABLE_PRINT_COMMAND_DOCUMENTATION :: string where
  "VARIABLE_PRINT_COMMAND_DOCUMENTATION = doc_text
     [(0, ''Show convenience variables.''),
      (0, ''This command has no mandatory arguments and one optional argument.''), (0, []),
      (0, ''Optional arguments:''), (1, ''var''), (2, ''The convenience variable.''),
      (2, ''If this argument is omitted, every variable is shown.''), (0, []), (0, ''Syntax''),
      (1, ''var print var?''), (0, [])]"

definition VARIABLE_SET_COMMAND_DOCUMENTATION :: string where
  "VARIABLE_SET_COMMAND_DOCUMENTATION = doc_text
     [(0, ''Create a new convenience variable or set the value of an existing one.''),
      (0, ''This command has two mandatory arguments and no optional arguments.''), (0, []),
      (0, ''Mandatory arguments:''), (1, ''var''), (2, ''The convenience variable.''),
      (2, ''It must start with '$'.''), (1, ''value''), (2, ''What you're setting `var` to.''), (0, []),
      (0, ''Syntax:''), (1, ''variable set var value''), (0, [])]"

definition VARIABLE_UNSET_COMMAND_DOCUMENTATION :: string where
  "VARIABLE_UNSET_COMMAND_DOCUMENTATION = doc_text
     [(0, ''Revert the value of an existing convenience variable to void.''), (0, ''The variable is not deleted.''),
      (0, ''This commmand has one mandatory argument and no optional arguments.''), (0, []),
      (0, ''Mandatory arguments:''), (1, ''var''), (2, ''The convenience variable.''), (0, []), (0, ''Syntax:''),
      (1, ''variable unset var''), (0, [])]"

definition VARIABLE_PRINT_COMMAND_REGEX :: string where
  "VARIABLE_PRINT_COMMAND_REGEX = regex_text
     [''(?<var>~$[~w~d+~-*~/$()]+)?'']"

definition VARIABLE_SET_COMMAND_REGEX :: string where
  "VARIABLE_SET_COMMAND_REGEX = regex_text
     [''(?J)(?<var>~$[~w~d+~-*~/$()]+)~s+'',
      ''((?=\")(?<value>\".*\")|(?<value>[.~-~w~d+~-*~/$()]+))'']"

definition VARIABLE_UNSET_COMMAND_REGEX :: string where
  "VARIABLE_UNSET_COMMAND_REGEX = regex_text
     [''(?<var>~$[~w~d+~-*~/$()]+)'']"

definition VARIABLE_PRINT_COMMAND_REGEX_GROUPS :: "string list" where
  "VARIABLE_PRINT_COMMAND_REGEX_GROUPS = [''var'']"

definition VARIABLE_SET_COMMAND_REGEX_GROUPS :: "string list" where
  "VARIABLE_SET_COMMAND_REGEX_GROUPS = [''var'', ''value'']"

definition VARIABLE_UNSET_COMMAND_REGEX_GROUPS :: "string list" where
  "VARIABLE_UNSET_COMMAND_REGEX_GROUPS = [''var'']"

section \<open>Watchpoints\<close>

definition WATCHPOINT_COMMAND_DOCUMENTATION :: string where
  "WATCHPOINT_COMMAND_DOCUMENTATION = doc_text
     [(0, '''watchpoint' describes the group of commands which deal with watchpoints.'')]"

definition WATCHPOINT_DELETE_COMMAND_DOCUMENTATION :: string where
  "WATCHPOINT_DELETE_COMMAND_DOCUMENTATION = doc_text
     [(0, ''Delete watchpoints.''), (0, ''This command has no mandatory arguments and one optional argument.''),
      (0, []), (0, ''Optional arguments:''), (1, ''id''), (2, ''The ID of the watchpoint you want to delete.''),
      (2, ''This command accepts an arbitrary amount of this argument.''),
      (2, ''Omit this argument to delete all watchpoints.''), (0, []), (0, ''Syntax:''),
      (1, ''watchpoint delete id?''), (0, [])]"

definition WATCHPOINT_LIST_COMMAND_DOCUMENTATION :: string where
  "WATCHPOINT_LIST_COMMAND_DOCUMENTATION = doc_text
     [(0, ''List watchpoints.''), (0, ''This command has no arguments.''), (0, []), (0, ''Syntax:''),
      (1, ''watchpoint list''), (0, [])]"

definition WATCHPOINT_SET_COMMAND_DOCUMENTATION :: string where
  "WATCHPOINT_SET_COMMAND_DOCUMENTATION = doc_text
     [(0, ''Set a watchpoint.''), (0, ''This command has two mandatory arguments and two optional arguments.''),
      (0, []), (0, ''Mandatory arguments:''), (1, ''location''),
      (2, ''This expression will be used as the watchpoint's location.''), (1, ''size''),
      (2, ''The size of the data to watch.''), (0, []), (0, ''Optional arguments:''), (1, ''tid''),
      (2, ''The thread this watchpoint will be assigned to.''), (1, ''type''),
      (2, ''The type of the watchpoint. Acceptable values are:''), (3, '''--r'  (read)''), (3, '''--w'  (write)''),
      (3, '''--rw' (read/write)''), (2, ''If this argument is omitted, iosdbg assumes --w.''), (0, []),
      (0, ''Syntax:''), (1, ''watchpoint set tid? type? location size''), (0, [])]"

definition WATCHPOINT_DELETE_COMMAND_REGEX :: string where
  "WATCHPOINT_DELETE_COMMAND_REGEX = regex_text
     [''(?<ids>[~d~s]+)?'']"

definition WATCHPOINT_SET_COMMAND_REGEX :: string where
  "WATCHPOINT_SET_COMMAND_REGEX = regex_text
     [''^~s*(--t~s+(?<tid>~d+)~s+)?'',
      ''(--(?<type>~w{1,})~s+)?'',
      ''(?<location>[~w+~-*~/~$()]+)~s+'',
      ''(?<size>(0[xX])?~d+)'']"

definition WATCHPOINT_DELETE_COMMAND_REGEX_GROUPS :: "string list" where
  "WATCHPOINT_DELETE_COMMAND_REGEX_GROUPS = [''ids'']"

definition WATCHPOINT_SET_COMMAND_REGEX_GROUPS :: "string list" where
  "WATCHPOINT_SET_COMMAND_REGEX_GROUPS = [''tid'', ''type'', ''location'', ''size'']"

end
