(* ===== verification/Cmdtab.thy ===== *)
theory Cmdtab
  imports Cmddocs
begin

text \<open>
  The commands, \<^verbatim>\<open>source/cmd/cmd.c\<close> and \<^verbatim>\<open>cmd.h\<close>: each with its name, alias, documentation, arguments, subcommands,
  level, and the functions that audit its arguments and carry it out, which are named here and defined where they are
  modelled.
\<close>

record regexinfo =
  argregex :: string
  num_groups :: int
  unk_num_args :: bool
  groupnames :: "string list"

datatype cmd_fn =
    F_aslr | F_attach | F_backtrace | F_breakpoint_delete | F_breakpoint_list | F_breakpoint_set | F_continue | F_detach
  | F_disassemble | F_evaluate | F_examine | F_help | F_kill | F_memory_find | F_memory_write | F_interrupt | F_quit
  | F_register_view | F_register_write | F_signal_deliver | F_signal_handle | F_step_inst_into | F_step_inst_over
  | F_symbols_add | F_thread_list | F_thread_select | F_trace | F_variable_print | F_variable_set | F_variable_unset
  | F_watchpoint_delete | F_watchpoint_list | F_watchpoint_set

datatype audit_fn =
    A_aslr | A_attach | A_backtrace | A_breakpoint_set | A_continue | A_detach | A_disassemble | A_evaluate | A_examine
  | A_kill | A_memory_find | A_memory_write | A_register_view | A_register_write | A_signal_deliver | A_step_inst_into
  | A_step_inst_over | A_symbols_add | A_thread_list | A_thread_select | A_watchpoint_set

datatype dbg_cmd = Dbg_cmd (cname: string) (calias: "string option") (documentation: string) (rinfo: regexinfo)
    (subcmds: "dbg_cmd list") (clevel: int) (parentcmd: bool) (cmd_function: "cmd_fn option") (audit_function: "audit_fn option")

definition common_initialization ::
    "string \<Rightarrow> string option \<Rightarrow> string \<Rightarrow> int \<Rightarrow> string \<Rightarrow> int \<Rightarrow> bool \<Rightarrow> string list \<Rightarrow> bool \<Rightarrow> cmd_fn option \<Rightarrow> audit_fn option
     \<Rightarrow> dbg_cmd list \<Rightarrow> dbg_cmd" where
  "common_initialization n al doc lv re ng unk groups isparent f a subs =
     Dbg_cmd n al doc \<lparr>argregex = re, num_groups = ng, unk_num_args = unk, groupnames = take (nat ng) groups\<rparr> subs lv isparent f a"

definition create_parent_cmd ::
    "string \<Rightarrow> string option \<Rightarrow> string \<Rightarrow> int \<Rightarrow> string \<Rightarrow> int \<Rightarrow> bool \<Rightarrow> string list \<Rightarrow> dbg_cmd list \<Rightarrow> cmd_fn option \<Rightarrow> audit_fn option
     \<Rightarrow> dbg_cmd" where
  "create_parent_cmd n al doc lv re ng unk groups subs f a = common_initialization n al doc lv re ng unk groups True f a subs"

definition create_child_cmd ::
    "string \<Rightarrow> string option \<Rightarrow> string \<Rightarrow> int \<Rightarrow> string \<Rightarrow> int \<Rightarrow> bool \<Rightarrow> string list \<Rightarrow> cmd_fn option \<Rightarrow> audit_fn option \<Rightarrow> dbg_cmd" where
  "create_child_cmd n al doc lv re ng unk groups f a = common_initialization n al doc lv re ng unk groups False f a []"

definition aslr_cmd :: dbg_cmd where
  "aslr_cmd = create_parent_cmd ''aslr'' None ASLR_COMMAND_DOCUMENTATION 0
     NO_ARGUMENT_REGEX 0 False NO_GROUPS [] (Some F_aslr) (Some A_aslr)"

definition attach_cmd :: dbg_cmd where
  "attach_cmd = create_parent_cmd ''attach'' None ATTACH_COMMAND_DOCUMENTATION 0
     ATTACH_COMMAND_REGEX 3 False ATTACH_COMMAND_REGEX_GROUPS [] (Some F_attach) (Some A_attach)"

definition backtrace_cmd :: dbg_cmd where
  "backtrace_cmd = create_parent_cmd ''backtrace'' (Some ''bt'') BACKTRACE_COMMAND_DOCUMENTATION 0
     NO_ARGUMENT_REGEX 0 False NO_GROUPS [] (Some F_backtrace) (Some A_backtrace)"

definition breakpoint_cmd :: dbg_cmd where
  "breakpoint_cmd = create_parent_cmd ''breakpoint'' (Some ''b'') BREAKPOINT_COMMAND_DOCUMENTATION 0
     NO_ARGUMENT_REGEX 0 False NO_GROUPS 
      [create_child_cmd ''delete'' None BREAKPOINT_DELETE_COMMAND_DOCUMENTATION 1
        BREAKPOINT_DELETE_COMMAND_REGEX 1 False BREAKPOINT_DELETE_COMMAND_REGEX_GROUPS (Some F_breakpoint_delete) None,
       create_child_cmd ''list'' None BREAKPOINT_LIST_COMMAND_DOCUMENTATION 1
        NO_ARGUMENT_REGEX 0 False NO_GROUPS (Some F_breakpoint_list) None,
       create_child_cmd ''set'' None BREAKPOINT_SET_COMMAND_DOCUMENTATION 1
        BREAKPOINT_SET_COMMAND_REGEX 2 True BREAKPOINT_SET_COMMAND_REGEX_GROUPS (Some F_breakpoint_set) (Some A_breakpoint_set)]
      None None"

definition continue_cmd :: dbg_cmd where
  "continue_cmd = create_parent_cmd ''continue'' (Some ''c'') CONTINUE_COMMAND_DOCUMENTATION 0
     NO_ARGUMENT_REGEX 0 False NO_GROUPS [] (Some F_continue) (Some A_continue)"

definition detach_cmd :: dbg_cmd where
  "detach_cmd = create_parent_cmd ''detach'' None DETACH_COMMAND_DOCUMENTATION 0
     NO_ARGUMENT_REGEX 0 False NO_GROUPS [] (Some F_detach) (Some A_detach)"

definition disassemble_cmd :: dbg_cmd where
  "disassemble_cmd = create_parent_cmd ''disassemble'' (Some ''dis'') DISASSEMBLE_COMMAND_DOCUMENTATION 0
     DISASSEMBLE_COMMAND_REGEX 2 False DISASSEMBLE_COMMAND_REGEX_GROUPS [] (Some F_disassemble) (Some A_disassemble)"

definition evaluate_cmd :: dbg_cmd where
  "evaluate_cmd = create_parent_cmd ''evaluate'' None EVALUATE_COMMAND_DOCUMENTATION 0
     EVALUATE_COMMAND_REGEX 1 True EVALUATE_COMMAND_REGEX_GROUPS [] (Some F_evaluate) (Some A_evaluate)"

definition examine_cmd :: dbg_cmd where
  "examine_cmd = create_parent_cmd ''examine'' (Some ''x'') EXAMINE_COMMAND_DOCUMENTATION 0
     EXAMINE_COMMAND_REGEX 2 False EXAMINE_COMMAND_REGEX_GROUPS [] (Some F_examine) (Some A_examine)"

definition help_cmd :: dbg_cmd where
  "help_cmd = create_parent_cmd ''help'' None HELP_COMMAND_DOCUMENTATION 0
     HELP_COMMAND_REGEX 1 False HELP_COMMAND_REGEX_GROUPS [] (Some F_help) None"

definition kill_cmd :: dbg_cmd where
  "kill_cmd = create_parent_cmd ''kill'' None KILL_COMMAND_DOCUMENTATION 0
     NO_ARGUMENT_REGEX 0 False NO_GROUPS [] (Some F_kill) (Some A_kill)"

definition memory_cmd :: dbg_cmd where
  "memory_cmd = create_parent_cmd ''memory'' None MEMORY_COMMAND_DOCUMENTATION 0
     NO_ARGUMENT_REGEX 0 False NO_GROUPS 
      [create_child_cmd ''find'' None MEMORY_FIND_COMMAND_DOCUMENTATION 1
        MEMORY_FIND_COMMAND_REGEX 4 False MEMORY_FIND_COMMAND_REGEX_GROUPS (Some F_memory_find) (Some A_memory_find),
       create_child_cmd ''write'' None MEMORY_WRITE_COMMAND_DOCUMENTATION 1
        MEMORY_WRITE_COMMAND_REGEX 3 False MEMORY_WRITE_COMMAND_REGEX_GROUPS (Some F_memory_write) (Some A_memory_write)]
      None None"

definition interrupt_cmd :: dbg_cmd where
  "interrupt_cmd = create_parent_cmd ''interrupt'' None INTERRUPT_COMMAND_DOCUMENTATION 0
     NO_ARGUMENT_REGEX 0 False NO_GROUPS [] (Some F_interrupt) None"

definition quit_cmd :: dbg_cmd where
  "quit_cmd = create_parent_cmd ''quit'' (Some ''q'') QUIT_COMMAND_DOCUMENTATION 0
     NO_ARGUMENT_REGEX 0 False NO_GROUPS [] (Some F_quit) None"

definition register_cmd :: dbg_cmd where
  "register_cmd = create_parent_cmd ''register'' None REGISTER_COMMAND_DOCUMENTATION 0
     NO_ARGUMENT_REGEX 0 False NO_GROUPS 
      [create_child_cmd ''view'' None REGISTER_VIEW_COMMAND_DOCUMENTATION 1
        REGISTER_VIEW_COMMAND_REGEX 1 True REGISTER_VIEW_COMMAND_REGEX_GROUPS (Some F_register_view) (Some A_register_view),
       create_child_cmd ''write'' None REGISTER_WRITE_COMMAND_DOCUMENTATION 1
        REGISTER_WRITE_COMMAND_REGEX 2 False REGISTER_WRITE_COMMAND_REGEX_GROUPS (Some F_register_write) (Some A_register_write)]
      None None"

definition signal_cmd :: dbg_cmd where
  "signal_cmd = create_parent_cmd ''signal'' None SIGNAL_COMMAND_DOCUMENTATION 0
     NO_ARGUMENT_REGEX 0 False NO_GROUPS 
      [create_child_cmd ''deliver'' None SIGNAL_DELIVER_COMMAND_DOCUMENTATION 1
        SIGNAL_DELIVER_COMMAND_REGEX 1 False SIGNAL_DELIVER_COMMAND_REGEX_GROUPS (Some F_signal_deliver) (Some A_signal_deliver),
       create_child_cmd ''handle'' None SIGNAL_HANDLE_COMMAND_DOCUMENTATION 1
        SIGNAL_HANDLE_COMMAND_REGEX 4 False SIGNAL_HANDLE_COMMAND_REGEX_GROUPS (Some F_signal_handle) None]
      None None"

definition step_cmd :: dbg_cmd where
  "step_cmd = create_parent_cmd ''step'' None STEP_COMMAND_DOCUMENTATION 0
     NO_ARGUMENT_REGEX 0 False NO_GROUPS 
      [create_child_cmd ''inst-into'' None STEP_INST_INTO_COMMAND_DOCUMENTATION 1
        NO_ARGUMENT_REGEX 0 False NO_GROUPS (Some F_step_inst_into) (Some A_step_inst_into),
       create_child_cmd ''inst-over'' None STEP_INST_OVER_COMMAND_DOCUMENTATION 1
        NO_ARGUMENT_REGEX 0 False NO_GROUPS (Some F_step_inst_over) (Some A_step_inst_over)]
      None None"

definition symbols_cmd :: dbg_cmd where
  "symbols_cmd = create_parent_cmd ''symbols'' None SYMBOLS_COMMAND_DOCUMENTATION 0
     NO_ARGUMENT_REGEX 0 False NO_GROUPS 
      [create_child_cmd ''add'' None SYMBOLS_ADD_COMMAND_DOCUMENTATION 1
        SYMBOLS_ADD_COMMAND_REGEX 1 False SYMBOLS_ADD_COMMAND_REGEX_GROUPS (Some F_symbols_add) (Some A_symbols_add)]
      None None"

definition thread_cmd :: dbg_cmd where
  "thread_cmd = create_parent_cmd ''thread'' None THREAD_COMMAND_DOCUMENTATION 0
     NO_ARGUMENT_REGEX 0 False NO_GROUPS 
      [create_child_cmd ''list'' None THREAD_LIST_COMMAND_DOCUMENTATION 1
        NO_ARGUMENT_REGEX 0 False NO_GROUPS (Some F_thread_list) (Some A_thread_list),
       create_child_cmd ''select'' None THREAD_SELECT_COMMAND_DOCUMENTATION 1
        THREAD_SELECT_COMMAND_REGEX 1 False THREAD_SELECT_COMMAND_REGEX_GROUPS (Some F_thread_select) (Some A_thread_select)]
      None None"

definition trace_cmd :: dbg_cmd where
  "trace_cmd = create_parent_cmd ''trace'' None TRACE_COMMAND_DOCUMENTATION 0
     NO_ARGUMENT_REGEX 0 False NO_GROUPS [] (Some F_trace) None"

definition variable_cmd :: dbg_cmd where
  "variable_cmd = create_parent_cmd ''variable'' None VARIABLE_COMMAND_DOCUMENTATION 0
     NO_ARGUMENT_REGEX 0 False NO_GROUPS 
      [create_child_cmd ''print'' None VARIABLE_PRINT_COMMAND_DOCUMENTATION 1
        VARIABLE_PRINT_COMMAND_REGEX 1 True VARIABLE_PRINT_COMMAND_REGEX_GROUPS (Some F_variable_print) None,
       create_child_cmd ''set'' None VARIABLE_SET_COMMAND_DOCUMENTATION 1
        VARIABLE_SET_COMMAND_REGEX 2 False VARIABLE_SET_COMMAND_REGEX_GROUPS (Some F_variable_set) None,
       create_child_cmd ''unset'' None VARIABLE_UNSET_COMMAND_DOCUMENTATION 1
        VARIABLE_UNSET_COMMAND_REGEX 1 True VARIABLE_UNSET_COMMAND_REGEX_GROUPS (Some F_variable_unset) None]
      None None"

definition watchpoint_cmd :: dbg_cmd where
  "watchpoint_cmd = create_parent_cmd ''watchpoint'' (Some ''w'') WATCHPOINT_COMMAND_DOCUMENTATION 0
     NO_ARGUMENT_REGEX 0 False NO_GROUPS 
      [create_child_cmd ''delete'' None WATCHPOINT_DELETE_COMMAND_DOCUMENTATION 1
        WATCHPOINT_DELETE_COMMAND_REGEX 1 True WATCHPOINT_DELETE_COMMAND_REGEX_GROUPS (Some F_watchpoint_delete) None,
       create_child_cmd ''list'' None WATCHPOINT_LIST_COMMAND_DOCUMENTATION 1
        NO_ARGUMENT_REGEX 0 False NO_GROUPS (Some F_watchpoint_list) None,
       create_child_cmd ''set'' None WATCHPOINT_SET_COMMAND_DOCUMENTATION 1
        WATCHPOINT_SET_COMMAND_REGEX 4 False WATCHPOINT_SET_COMMAND_REGEX_GROUPS (Some F_watchpoint_set) (Some A_watchpoint_set)]
      None None"

definition COMMANDS :: "dbg_cmd list" where
  "COMMANDS =
     [aslr_cmd, attach_cmd, backtrace_cmd, breakpoint_cmd, continue_cmd, detach_cmd, disassemble_cmd,
      evaluate_cmd, examine_cmd, help_cmd, kill_cmd, memory_cmd, interrupt_cmd, quit_cmd, register_cmd,
      signal_cmd, step_cmd, symbols_cmd, thread_cmd, trace_cmd, variable_cmd, watchpoint_cmd]"

end
