(* ===== verification/Completer.thy ===== *)
theory Completer
  imports Cmdtab Commands
begin

text \<open>
  Finding the command a line names, \<^verbatim>\<open>source/cmd/completer.c\<close>: the words of the line are matched against the names of
  the commands at their level, and the command that was matched last is kept for the line to be carried out.
\<close>

section \<open>State\<close>

record matchedcmdinfo =
  m_rinfo :: "regexinfo option"
  m_cmd :: "dbg_cmd option"
  m_function :: "cmd_fn option"
  m_audit :: "audit_fn option"

text \<open>The line readline holds, the two flags, and the match.\<close>

record rline =
  rl_line_buffer :: string
  IS_HELP_COMMAND :: bool
  LINE_MODIFIED :: bool
  CURRENT_MATCH_INFO :: matchedcmdinfo

definition RAND_PAD_LEN :: nat where "RAND_PAD_LEN = 10"

definition no_match_info :: matchedcmdinfo where
  "no_match_info = \<lparr>m_rinfo = None, m_cmd = None, m_function = None, m_audit = None\<rparr>"

definition reset_matchedcmdinfo :: "rline \<Rightarrow> rline" where
  "reset_matchedcmdinfo R = R\<lparr>CURRENT_MATCH_INFO := no_match_info\<rparr>"

definition rl_line_buffer_word_array :: "rline \<Rightarrow> string list" where
  "rl_line_buffer_word_array R = tokens (rl_line_buffer R)"

section \<open>Words of the line\<close>

definition everything_before :: "rline \<Rightarrow> string \<Rightarrow> string" where
  "everything_before R text = concat (map (\<lambda>w. w @ '' '') (takeWhile (\<lambda>w. w \<noteq> text) (rl_line_buffer_word_array R)))"

definition count_spaces_before :: "rline \<Rightarrow> string \<Rightarrow> int" where
  "count_spaces_before R text =
     (let idx = int (length (takeWhile (\<lambda>w. w \<noteq> text) (rl_line_buffer_word_array R))) in
      if IS_HELP_COMMAND R then idx - 1 else idx)"

text \<open>The word before the last occurrence of a text that is not the first word; otherwise the first word.\<close>

fun before_last :: "string list \<Rightarrow> string \<Rightarrow> nat \<Rightarrow> string option" where
  "before_last ws text 0 = None"
| "before_last ws text (Suc idx) = (if ws ! idx = text \<and> idx > 0 then Some (ws ! (idx - 1)) else before_last ws text idx)"

definition word_before :: "rline \<Rightarrow> string \<Rightarrow> string run" where
  "word_before R text =
     (let ws = rl_line_buffer_word_array R in
      if ws = [] then Inl OutOfBounds
      else if text = [] then Inr (last ws)
      else (case before_last ws text (length ws) of Some w \<Rightarrow> Inr w | None \<Rightarrow> Inr (hd ws)))"

section \<open>Matching\<close>

text \<open>The queue of parents: each is looked at with its subcommands in their order, and those that are parents join.\<close>

lemma subcmds_size: "sum_list (map size_dbg_cmd (subcmds p)) < size_dbg_cmd p"
  by (cases p) (simp add: size_list_conv_sum_list)

function level_order :: "dbg_cmd list \<Rightarrow> (dbg_cmd \<times> dbg_cmd) list" where
  "level_order [] = []"
| "level_order (p # q) = map (\<lambda>s. (p, s)) (subcmds p) @ level_order (q @ filter parentcmd (subcmds p))"
  by pat_completeness auto

lemma filter_size: "sum_list (map f (filter P xs)) \<le> (sum_list (map f xs) :: nat)"
  by (induction xs) auto

termination level_order
  using subcmds_size filter_size [where f = size_dbg_cmd]
  by (relation "measure (\<lambda>q. sum_list (map size_dbg_cmd q))") (auto intro: le_less_trans)

definition strncmp_eq :: "string \<Rightarrow> string \<Rightarrow> nat \<Rightarrow> bool" where
  "strncmp_eq a b n = (take n a = take n b)"

definition padded :: "rline \<Rightarrow> bool" where
  "padded R = (\<not> IS_HELP_COMMAND R \<and> LINE_MODIFIED R)"

definition unpad_len :: "rline \<Rightarrow> nat \<Rightarrow> nat" where
  "unpad_len R n = (if padded R \<and> n > RAND_PAD_LEN then n - RAND_PAD_LEN else n)"

definition sub_matches :: "rline \<Rightarrow> string \<Rightarrow> string \<Rightarrow> dbg_cmd \<times> dbg_cmd \<Rightarrow> bool" where
  "sub_matches R text parent ps =
     (let pn = take (unpad_len R (length parent)) parent in
      strncmp_eq (cname (fst ps)) pn (length pn) \<and> strncmp_eq (cname (snd ps)) text (unpad_len R (length text)))"

text \<open>The commands that match, in their order; the word before is only looked at for a subcommand of the level.\<close>

definition matches_at :: "dbg_cmd list \<Rightarrow> rline \<Rightarrow> string \<Rightarrow> int \<Rightarrow> dbg_cmd list run" where
  "matches_at cmds R text target_level =
     (if target_level \<ge> 1 then
        (let ps = filter (\<lambda>(p, s). clevel s = target_level)
               (concat (map (\<lambda>c. if parentcmd c then level_order [c] else []) cmds)) in
         if ps = [] then Inr []
         else bind_run (word_before R text) (\<lambda>parent. Inr (map snd (filter (sub_matches R text parent) ps))))
      else Inr (filter (\<lambda>c. strncmp_eq (cname c) text (unpad_len R (length text))) cmds))"

definition match_info_of :: "dbg_cmd \<Rightarrow> matchedcmdinfo" where
  "match_info_of c = \<lparr>m_rinfo = Some (rinfo c), m_cmd = Some c, m_function = cmd_function c, m_audit = audit_function c\<rparr>"

definition match_at_level :: "dbg_cmd list \<Rightarrow> string \<Rightarrow> int \<Rightarrow> rline \<Rightarrow> (string list \<times> rline) run" where
  "match_at_level cmds text target_level R =
     bind_run (matches_at cmds R text target_level) (\<lambda>ms.
       Inr (map cname ms, fold (\<lambda>c R. R\<lparr>CURRENT_MATCH_INFO := match_info_of c\<rparr>) ms R))"

definition ambiguous_command_at_level :: "dbg_cmd list \<Rightarrow> rline \<Rightarrow> string \<Rightarrow> int \<Rightarrow> bool run" where
  "ambiguous_command_at_level cmds R c target_level =
     bind_run (matches_at cmds R c target_level) (\<lambda>ms. Inr (length ms > 1))"

fun no_ambiguity_from :: "dbg_cmd list \<Rightarrow> rline \<Rightarrow> string list \<Rightarrow> int \<Rightarrow> bool run" where
  "no_ambiguity_from cmds R [] cur_level = Inr True"
| "no_ambiguity_from cmds R (t # ts) cur_level =
     bind_run (ambiguous_command_at_level cmds R t cur_level) (\<lambda>a.
       if a then Inr False else no_ambiguity_from cmds R ts (cur_level + 1))"

definition no_ambiguity_before :: "dbg_cmd list \<Rightarrow> rline \<Rightarrow> string \<Rightarrow> bool run" where
  "no_ambiguity_before cmds R text = no_ambiguity_from cmds R (tokens (everything_before R text)) 0"

section \<open>Completions\<close>

text \<open>
  What the generator gives, one after another, until its first NULL. \<^verbatim>\<open>rl_completion_matches\<close> of readline makes the array
  of the completions of them: none when there are none, the only one, or the text to insert followed by all of them.
\<close>

definition completion_generator :: "dbg_cmd list \<Rightarrow> string \<Rightarrow> rline \<Rightarrow> (string list \<times> rline) run" where
  "completion_generator cmds text R =
     (let level_to_match = count_spaces_before R text in
      bind_run (no_ambiguity_before cmds R text) (\<lambda>ok.
        if \<not> ok then Inr ([], reset_matchedcmdinfo R)
        else bind_run (match_at_level cmds text level_to_match R) (\<lambda>(ms, R1).
          Inr (ms, if length ms > 1 then reset_matchedcmdinfo R1 else R1))))"

definition completions_of :: "(string \<Rightarrow> string list \<Rightarrow> string) \<Rightarrow> string \<Rightarrow> string list \<Rightarrow> string list" where
  "completions_of lcd text ms = (if length ms \<le> 1 then ms else lcd text ms # ms)"

definition completer :: "dbg_cmd list \<Rightarrow> (string \<Rightarrow> string list \<Rightarrow> string) \<Rightarrow> string \<Rightarrow> rline \<Rightarrow> (string list \<times> rline) run" where
  "completer cmds lcd text R =
     bind_run (completion_generator cmds text R) (\<lambda>(ms, R1). Inr (completions_of lcd text ms, R1))"

end
