(* ===== verification/Audits.thy ===== *)
theory Audits
  imports Completer Commands3
begin

text \<open>
  The checks before a command is carried out, \<^verbatim>\<open>source/cmd/audit.c\<close>: each looks at a copy of the arguments, by the
  names of their groups, and adds to the error.
\<close>

definition with_arg :: "string list \<Rightarrow> nat \<Rightarrow> cmd_args \<Rightarrow> (string option \<Rightarrow> 'a run) \<Rightarrow> 'a run" where
  "with_arg gs i args k = (if i < length gs then k (fst (argcopy args (gs ! i))) else Inl OutOfBounds)"

definition no_debuggee :: "'k sess \<Rightarrow> cbuf \<Rightarrow> cbuf" where
  "no_debuggee S e = (if pid S = - 1 then concat_c e ''no debuggee'' else e)"

definition audit_attach :: "int \<Rightarrow> cmd_args \<Rightarrow> string list \<Rightarrow> cbuf \<Rightarrow> cbuf run" where
  "audit_attach own args gs e =
     with_arg gs 1 args (\<lambda>target. case target of None \<Rightarrow> Inr (concat_c e ''no target'')
       | Some t \<Rightarrow> with_arg gs 0 args (\<lambda>waitfor.
           if waitfor \<noteq> None \<and> is_number_fast target then Inr (concat_c e ''cannot wait for PIDs'')
           else if t = ''0'' \<or> t = ''kernel_task'' then Inr (concat_c e ''cannot debug the kernel'')
           else if t = ''iosdbg'' \<or> int_of (fst (strtol t 10)) = own
           then Inr (concat_c e ''cannot attach to myself! Use another iosdbg instance'')
           else Inr e))"

definition audit_breakpoint_set :: "'k sess \<Rightarrow> cmd_args \<Rightarrow> string list \<Rightarrow> cbuf \<Rightarrow> cbuf run" where
  "audit_breakpoint_set S args gs e =
     (let e1 = no_debuggee S e in
      with_arg gs 0 args (\<lambda>tidstr. with_arg gs 1 args (\<lambda>locations.
        Inr (if locations = None then concat_c e1 ''need location'' else e1))))"

text \<open>A location and a number of things to show there; for \<^verbatim>\<open>disassemble\<close> the number is read.\<close>

definition audit_location ::
    "string \<Rightarrow> (string option \<Rightarrow> cbuf \<Rightarrow> cbuf) \<Rightarrow> 'k sess \<Rightarrow> cmd_args \<Rightarrow> string list \<Rightarrow> cbuf \<Rightarrow> cbuf run" where
  "audit_location missing check S args gs e =
     (if pid S = - 1 then Inr (concat_c e ''no debuggee'')
      else with_arg gs 0 args (\<lambda>location.
        if location = None then Inr (concat_c e ''need location'')
        else with_arg gs 1 args (\<lambda>n. Inr (if n = None then concat_c e missing else check n e))))"

definition audit_disassemble :: "'k sess \<Rightarrow> cmd_args \<Rightarrow> string list \<Rightarrow> cbuf \<Rightarrow> cbuf run" where
  "audit_disassemble = audit_location ''need count'' (\<lambda>n e. snd (strtol_err n e))"

definition audit_examine :: "'k sess \<Rightarrow> cmd_args \<Rightarrow> string list \<Rightarrow> cbuf \<Rightarrow> cbuf run" where
  "audit_examine = audit_location ''need amount'' (\<lambda>n e. e)"

definition need_first :: "string \<Rightarrow> cmd_args \<Rightarrow> string list \<Rightarrow> cbuf \<Rightarrow> cbuf run" where
  "need_first what args gs e = with_arg gs 0 args (\<lambda>v. Inr (if v = None then concat_c e what else e))"

definition audit_memory_find :: "fpenv \<Rightarrow> 'k sess \<Rightarrow> cmd_args \<Rightarrow> string list \<Rightarrow> cbuf \<Rightarrow> cbuf run" where
  "audit_memory_find F S args gs e =
     (let e1 = no_debuggee S e in
      with_arg gs 0 args (\<lambda>start. with_arg gs 1 args (\<lambda>cnt. with_arg gs 2 args (\<lambda>ty. with_arg gs 3 args (\<lambda>target.
        case ty of None \<Rightarrow> Inr (concat_c e1 ''missing type'')
        | Some t \<Rightarrow>
            if t = ''--s'' \<and> target = None then Inr (concat_c e1 ''attempt to search for empty string'')
            else if t = ''--f'' \<or> t = ''--fd'' \<or> t = ''--fld''
            then Inr (snd (strtold_err (to_double F) (minus1_lf F) target e1))
            else Inr e1)))))"

definition audit_signal_deliver :: "'k sess \<Rightarrow> cmd_args \<Rightarrow> string list \<Rightarrow> cbuf \<Rightarrow> cbuf run" where
  "audit_signal_deliver S args gs e =
     (if pid S = - 1 then Inr (concat_c e ''no debuggee'') else need_first ''need signal number'' args gs e)"

definition audit_thread_list :: "'k sess \<Rightarrow> cbuf \<Rightarrow> cbuf run" where
  "audit_thread_list S e =
     Inr (if pid S = - 1 then concat_c e ''no debuggee'' else if threads (db S) = [] then concat_c e ''no threads'' else e)"

definition audit_thread_select :: "'k sess \<Rightarrow> cmd_args \<Rightarrow> string list \<Rightarrow> cbuf \<Rightarrow> cbuf run" where
  "audit_thread_select S args gs e =
     (if pid S = - 1 then Inr (concat_c e ''no debuggee'')
      else if threads (db S) = [] then Inr (concat_c e ''no threads'')
      else need_first ''need thread ID'' args gs e)"

text \<open>Without a size the arguments are given back twice.\<close>

definition audit_watchpoint_set :: "'k sess \<Rightarrow> cmd_args \<Rightarrow> string list \<Rightarrow> cbuf \<Rightarrow> cbuf run" where
  "audit_watchpoint_set S args gs e =
     (if pid S = - 1 then Inr (concat_c e ''no debuggee'')
      else with_arg gs 0 args (\<lambda>tid. with_arg gs 1 args (\<lambda>ty.
        if ty \<noteq> None \<and> the ty \<noteq> ''r'' \<and> the ty \<noteq> ''w'' \<and> the ty \<noteq> ''rw''
        then Inr (concat_c e (''invalid watchpoint type '' @ quoted (the ty)))
        else with_arg gs 2 args (\<lambda>location.
          if location = None then Inr (concat_c e ''need location'')
          else with_arg gs 3 args (\<lambda>size. if size = None then Inl DoubleFree else Inr e)))))"

fun run_audit :: "fpenv \<Rightarrow> int \<Rightarrow> audit_fn \<Rightarrow> 'k sess \<Rightarrow> cmd_args \<Rightarrow> string list \<Rightarrow> cbuf \<Rightarrow> cbuf run" where
  "run_audit F own A_aslr S args gs e = Inr (no_debuggee S e)"
| "run_audit F own A_attach S args gs e = audit_attach own args gs e"
| "run_audit F own A_backtrace S args gs e = Inr (no_debuggee S e)"
| "run_audit F own A_breakpoint_set S args gs e = audit_breakpoint_set S args gs e"
| "run_audit F own A_continue S args gs e = Inr (no_debuggee S e)"
| "run_audit F own A_detach S args gs e = Inr (no_debuggee S e)"
| "run_audit F own A_disassemble S args gs e = audit_disassemble S args gs e"
| "run_audit F own A_evaluate S args gs e = need_first ''need expression(s)'' args gs e"
| "run_audit F own A_examine S args gs e = audit_examine S args gs e"
| "run_audit F own A_kill S args gs e = Inr (no_debuggee S e)"
| "run_audit F own A_memory_find S args gs e = audit_memory_find F S args gs e"
| "run_audit F own A_memory_write S args gs e = Inr (no_debuggee S e)"
| "run_audit F own A_register_view S args gs e = Inr (no_debuggee S e)"
| "run_audit F own A_register_write S args gs e = Inr (no_debuggee S e)"
| "run_audit F own A_signal_deliver S args gs e = audit_signal_deliver S args gs e"
| "run_audit F own A_step_inst_into S args gs e = Inr (no_debuggee S e)"
| "run_audit F own A_step_inst_over S args gs e = Inr (no_debuggee S e)"
| "run_audit F own A_symbols_add S args gs e = need_first ''need path to DWARF file'' args gs e"
| "run_audit F own A_thread_list S args gs e = audit_thread_list S e"
| "run_audit F own A_thread_select S args gs e = audit_thread_select S args gs e"
| "run_audit F own A_watchpoint_set S args gs e = audit_watchpoint_set S args gs e"

end
