(* ===== verification/Cmdline.thy ===== *)
theory Cmdline
  imports Audits
begin

text \<open>
  Carrying out a line of input: the documentation in \<^verbatim>\<open>source/cmd/documentation.c\<close>, \<^verbatim>\<open>prepare_and_call_cmdfunc\<close> in
  \<^verbatim>\<open>completer.c\<close>, aliases, shell commands and \<^verbatim>\<open>do_cmdline_command\<close> in \<^verbatim>\<open>cmd.c\<close>, and what \<^verbatim>\<open>linecb\<close> in
  \<^verbatim>\<open>source/iosdbg.c\<close> does with a line and the output.
\<close>

section \<open>The environment\<close>

text \<open>
  Beside what the commands use: PCRE2; of readline the text to insert for several completions and the display of a list
  of matches of a width; the results of \<^verbatim>\<open>rand\<close>; the shell; reading a DWARF file; the number of the debugger's own process, whether
  an event queue could be made, and uninitialised memory.
\<close>

datatype sh_result = Spawn_fails string | Sh_exited int | Sh_signaled int

record 'k ienv =
  ten :: "'k tenv"
  cen :: cenv
  aen :: "'k aenv"
  pcre_of :: pcre
  lcd_of :: "string \<Rightarrow> string list \<Rightarrow> string"
  display_matches :: "string list \<Rightarrow> nat \<Rightarrow> string"
  rand_of :: "nat \<Rightarrow> nat"
  bin_sh :: "string \<Rightarrow> sh_result"
  dwarf_error :: "string option \<Rightarrow> string option"
  own_pid :: int
  kqueue_ok :: bool
  junk_int :: int

section \<open>Documentation\<close>

definition longest :: "string list \<Rightarrow> nat" where
  "longest ns = fold (\<lambda>n m. max (length n) m) ns 0"

definition show_all_top_level_cmds :: "'k ienv \<Rightarrow> cbuf \<Rightarrow> cbuf" where
  "show_all_top_level_cmds I out =
     (let ns = map cname (filter (\<lambda>c. clevel c = 0) COMMANDS) in
      concat_c (concat_c out (''List of top level commands:'' @ nl)) (display_matches I ([] # ns) (longest ns)))"

definition documentation_for_cmd :: "'k ienv \<Rightarrow> dbg_cmd \<Rightarrow> cbuf \<Rightarrow> cbuf" where
  "documentation_for_cmd I c out =
     (let alias_line = (\<lambda>lead o1. case calias c of None \<Rightarrow> o1
            | Some a \<Rightarrow> concat_c o1 (concat [lead, ''This command has an alias: '', quoted a, nl]));
          out1 = concat_c out (documentation c) in
      if cmd_function c = None then
        (let ns = map (cname \<circ> snd) (filter (\<lambda>(p, s). clevel s = clevel c + 1) (level_order [c])) in
         alias_line nl (concat_c (concat_c out1 (''This command has the following subcommands:'' @ nl))
           (display_matches I ([] # ns) (longest ns))))
      else alias_line [] out1)"

definition unknown_cmd :: "string option \<Rightarrow> string" where
  "unknown_cmd n = concat [''unknown command '', [CHR 0x22], (case n of None \<Rightarrow> ''(null)'' | Some s \<Rightarrow> s), [CHR 0x22]]"

definition documented :: "string list \<Rightarrow> dbg_cmd option" where
  "documented ws =
     (case ws of
        [w] \<Rightarrow> find (\<lambda>c. cname c = w) COMMANDS
      | _ \<Rightarrow> map_option snd (find (\<lambda>(p, s). clevel s = int (length ws) - 1 \<and> cname p = ws ! nat (clevel s - 1) \<and>
               cname s = ws ! nat (clevel s)) (concat (map (\<lambda>c. level_order [c]) COMMANDS))))"

definition documentation_for_cmdname :: "'k ienv \<Rightarrow> string option \<Rightarrow> cbuf \<Rightarrow> cbuf \<Rightarrow> cbuf \<times> cbuf" where
  "documentation_for_cmdname I n out e =
     (case documented (case n of None \<Rightarrow> [] | Some s \<Rightarrow> tokens s) of
        Some c \<Rightarrow> (documentation_for_cmd I c out, e)
      | None \<Rightarrow> (out, concat_c e (unknown_cmd n)))"

definition cmdfunc_help :: "'k ienv \<Rightarrow> cmd_args \<Rightarrow> 'k shell \<Rightarrow> cbuf \<Rightarrow> cbuf \<Rightarrow> 'k shell_cmd" where
  "cmdfunc_help I args H out e =
     (if num_args args = 0 then Inr (CMD_SUCCESS, H, show_all_top_level_cmds I out, e)
      else (case documentation_for_cmdname I (fst (argcopy args ''cmd'')) out e of (out1, e1) \<Rightarrow> Inr (failed_if e1, H, out1, e1)))"

definition cmdfunc_symbols_add :: "'k ienv \<Rightarrow> cmd_args \<Rightarrow> 'k shell \<Rightarrow> cbuf \<Rightarrow> cbuf \<Rightarrow> 'k shell_cmd" where
  "cmdfunc_symbols_add I args H out e =
     (case dwarf_error I (fst (argcopy args ''path'')) of
        Some m \<Rightarrow> Inr (CMD_FAILURE, H, out, concat_c e (concat [''failed: '', m, nl]))
      | None \<Rightarrow> Inr (CMD_SUCCESS, H, out, e))"

section \<open>Calling a command\<close>

fun run_cmd_fn :: "'k ienv \<Rightarrow> cmd_fn \<Rightarrow> cmd_args \<Rightarrow> 'k shell \<Rightarrow> cbuf \<Rightarrow> cbuf \<Rightarrow> 'k shell_cmd" where
  "run_cmd_fn I F_aslr args H out e = cmdfunc_aslr H out e"
| "run_cmd_fn I F_attach args H out e = cmdfunc_attach (ten I) (aen I) (kqueue_ok I) args H out e"
| "run_cmd_fn I F_backtrace args H out e = in_session (cmdfunc_backtrace (ten I) (cen I) (ses H) out e) H"
| "run_cmd_fn I F_breakpoint_delete args H out e = in_session (cmdfunc_breakpoint_delete (ten I) args (ses H) out e) H"
| "run_cmd_fn I F_breakpoint_list args H out e = in_session (cmdfunc_breakpoint_list (ses H) out e) H"
| "run_cmd_fn I F_breakpoint_set args H out e = in_session (cmdfunc_breakpoint_set (ten I) args (ses H) out e) H"
| "run_cmd_fn I F_continue args H out e = cmdfunc_continue (ten I) H out e"
| "run_cmd_fn I F_detach args H out e = cmdfunc_detach (ten I) False H out e"
| "run_cmd_fn I F_disassemble args H out e = in_session (cmdfunc_disassemble (ten I) args (ses H) out e) H"
| "run_cmd_fn I F_evaluate args H out e = cmdfunc_evaluate (ten I) args H out e"
| "run_cmd_fn I F_examine args H out e = in_session (cmdfunc_examine (ten I) (cen I) args (ses H) out e) H"
| "run_cmd_fn I F_help args H out e = cmdfunc_help I args H out e"
| "run_cmd_fn I F_kill args H out e = in_session (cmdfunc_kill (ten I) (junk_int I) (ses H) out e) H"
| "run_cmd_fn I F_memory_find args H out e = in_session (cmdfunc_memory_find (ten I) (cen I) args (ses H) out e) H"
| "run_cmd_fn I F_memory_write args H out e = in_session (cmdfunc_memory_write (ten I) args (ses H) out e) H"
| "run_cmd_fn I F_interrupt args H out e = in_session (cmdfunc_interrupt (ten I) (ses H) out e) H"
| "run_cmd_fn I F_quit args H out e = cmdfunc_quit (ten I) H out e"
| "run_cmd_fn I F_register_view args H out e = in_session (cmdfunc_register_view (ten I) (cen I) args (ses H) out e) H"
| "run_cmd_fn I F_register_write args H out e = in_session (cmdfunc_register_write (ten I) (cen I) args (ses H) out e) H"
| "run_cmd_fn I F_signal_deliver args H out e = in_session (cmdfunc_signal_deliver (ten I) args (ses H) out e) H"
| "run_cmd_fn I F_signal_handle args H out e = in_session (cmdfunc_signal_handle (ten I) (junk_int I) args (ses H) out e) H"
| "run_cmd_fn I F_step_inst_into args H out e = in_session (cmdfunc_step (ten I) INST_STEP_INTO (ses H) out e) H"
| "run_cmd_fn I F_step_inst_over args H out e = in_session (cmdfunc_step (ten I) INST_STEP_OVER (ses H) out e) H"
| "run_cmd_fn I F_symbols_add args H out e = cmdfunc_symbols_add I args H out e"
| "run_cmd_fn I F_thread_list args H out e = in_session (cmdfunc_thread_list (ten I) (ses H) out e) H"
| "run_cmd_fn I F_thread_select args H out e = in_session (cmdfunc_thread_select (ten I) args (ses H) out e) H"
| "run_cmd_fn I F_trace args H out e = cmdfunc_trace H out e"
| "run_cmd_fn I F_variable_print args H out e = in_session (cmdfunc_variable_print (ten I) args (ses H) out e) H"
| "run_cmd_fn I F_variable_set args H out e = in_session (cmdfunc_variable_set (ten I) args (ses H) out e) H"
| "run_cmd_fn I F_variable_unset args H out e = in_session (cmdfunc_variable_unset args (ses H) out e) H"
| "run_cmd_fn I F_watchpoint_delete args H out e = in_session (cmdfunc_watchpoint_delete (ten I) args (ses H) out e) H"
| "run_cmd_fn I F_watchpoint_list args H out e = in_session (cmdfunc_watchpoint_list (ses H) out e) H"
| "run_cmd_fn I F_watchpoint_set args H out e = in_session (cmdfunc_watchpoint_set (ten I) args (ses H) out e) H"

record 'k outcome =
  o_result :: cmd_error_t
  o_shell :: "'k shell"
  o_line :: rline
  o_force :: bool
  o_out :: cbuf
  o_error :: cbuf

definition audited :: "'k ienv \<Rightarrow> matchedcmdinfo \<Rightarrow> cmd_args \<Rightarrow> string list \<Rightarrow> 'k shell \<Rightarrow> cbuf \<Rightarrow> cbuf run" where
  "audited I m args gs H e =
     (case m_audit m of None \<Rightarrow> Inr e
      | Some a \<Rightarrow> run_audit (fpe (cen I)) (own_pid I) a (ses H) args gs e)"

text \<open>The arguments are duplicated for the audit; the originals go to the command.\<close>

definition call_parsed ::
    "'k ienv \<Rightarrow> matchedcmdinfo \<Rightarrow> dbg_cmd \<Rightarrow> cmd_fn \<Rightarrow> cmd_args \<Rightarrow> rline \<Rightarrow> 'k shell \<Rightarrow> cbuf \<Rightarrow> cbuf \<Rightarrow> 'k outcome run" where
  "call_parsed I m c f args R H out e =
     (let (duped, orig) = (if m_audit m = None then (args, args) else argdup args);
          gs = (case m_rinfo m of None \<Rightarrow> [] | Some r \<Rightarrow> groupnames r); R1 = reset_matchedcmdinfo R in
      bind_run (audited I m duped gs H e) (\<lambda>e1.
        if e1 \<noteq> None then
          Inr \<lparr>o_result = CMD_FAILURE, o_shell = H, o_line = R1, o_force = True,
               o_out = concat_c (documentation_for_cmd I c out) nl, o_error = e1\<rparr>
        else bind_run (run_cmd_fn I f orig H out e1) (\<lambda>(r, H1, out1, e2).
          Inr \<lparr>o_result = r, o_shell = H1, o_line = R1, o_force = False, o_out = out1, o_error = e2\<rparr>)))"

definition prepare_and_call_cmdfunc ::
    "'k ienv \<Rightarrow> string option \<Rightarrow> rline \<Rightarrow> 'k shell \<Rightarrow> cbuf \<Rightarrow> cbuf \<Rightarrow> 'k outcome run" where
  "prepare_and_call_cmdfunc I args R H out e =
     (let m = CURRENT_MATCH_INFO R; R1 = reset_matchedcmdinfo R in
      case m_function m of
        None \<Rightarrow>
          Inr (case m_cmd m of
             Some c \<Rightarrow> \<lparr>o_result = CMD_SUCCESS, o_shell = H, o_line = R1, o_force = False, o_out = documentation_for_cmd I c out, o_error = e\<rparr>
           | None \<Rightarrow> \<lparr>o_result = CMD_FAILURE, o_shell = H, o_line = R1, o_force = False, o_out = out, o_error = e\<rparr>)
      | Some f \<Rightarrow>
          (case (m_rinfo m, m_cmd m) of
             (Some ri, Some c) \<Rightarrow>
               bind_run (parse_and_create_args (pcre_of I) args (argregex ri) (groupnames ri) (num_groups ri) (unk_num_args ri) e) (\<lambda>(pa, e1).
                 if e1 \<noteq> None then
                   Inr \<lparr>o_result = CMD_FAILURE, o_shell = H, o_line = R1, o_force = True, o_out = documentation_for_cmd I c out, o_error = e1\<rparr>
                 else (case pa of None \<Rightarrow> Inl NullDeref | Some a \<Rightarrow> call_parsed I m c f a R H out e1))
           | _ \<Rightarrow> Inl NullDeref))"

section \<open>A line\<close>

definition expand_aliases :: "string \<Rightarrow> rline \<Rightarrow> (string \<times> rline) run" where
  "expand_aliases command R =
     (let n = length (takeWhile (\<lambda>c. c \<noteq> CHR '' '') command);
          (bytes, token) = (if n < length command then (int n, substr (Some command) 0 (int n)) else (0, Some command)) in
      case token of None \<Rightarrow> Inl NullDeref
      | Some t \<Rightarrow>
          (case find (\<lambda>c. calias c = Some t) COMMANDS of
             None \<Rightarrow> Inr (command, R)
           | Some c \<Rightarrow>
               bind_run (strcut command 0 bytes) (\<lambda>c1. bind_run (strins c1 (Some (cname c)) 0) (\<lambda>c2.
                 Inr (c2, R\<lparr>rl_line_buffer := c2\<rparr>)))))"

definition execute_shell_cmd :: "'k ienv \<Rightarrow> string \<Rightarrow> cbuf \<Rightarrow> cbuf \<times> cbuf" where
  "execute_shell_cmd I command e =
     (if command = [] then (None, concat_c e ''command missing'')
      else (case bin_sh I command of
          Spawn_fails m \<Rightarrow> (None, concat_c e (concat [''posix spawn failed: '', m, nl]))
        | Sh_exited n \<Rightarrow> (Some (concat [nl, nl, ''shell returned '', show_dec n]), e)
        | Sh_signaled n \<Rightarrow> (Some (concat [nl, nl, ''shell terminated due to signal '', show_dec n]), e)))"

text \<open>Every word gets a random text of its own.\<close>

definition pad_words :: "(nat \<Rightarrow> nat) \<Rightarrow> string list \<Rightarrow> string list" where
  "pad_words rnd ws = map (\<lambda>i. ws ! i @ strnran (\<lambda>j. rnd (RAND_PAD_LEN * i + j)) RAND_PAD_LEN) [0..<length ws]"

definition randcommand :: "string list \<Rightarrow> string" where
  "randcommand ws = strclean (concat (map (\<lambda>w. w @ '' '') ws))"

definition rest_args :: "string list \<Rightarrow> string run" where
  "rest_args ws =
     (if list_all (\<lambda>w. RAND_PAD_LEN \<le> length w) ws
      then Inr (strclean (concat (map (\<lambda>w. CHR '' '' # take (length w - RAND_PAD_LEN) w) ws)))
      else Inl OutOfBounds)"

text \<open>The words until one has no completions: the completions of the last that had, and the rest as arguments.\<close>

datatype found = Undefined | Found "string list" "string option"

fun match_tokens :: "'k ienv \<Rightarrow> string list \<Rightarrow> bool \<Rightarrow> string list \<Rightarrow> rline \<Rightarrow> (found \<times> rline) run" where
  "match_tokens I [] first prev R = Inr (Found prev None, R)"
| "match_tokens I (w # ws) first prev R =
     bind_run (completer COMMANDS (lcd_of I) w R) (\<lambda>(cs, R1).
       if cs = [] then
         (if first then Inr (Undefined, R1) else bind_run (rest_args (w # ws)) (\<lambda>a. Inr (Found prev (Some a), R1)))
       else match_tokens I ws False cs R1)"

definition ambiguous_text :: "string \<Rightarrow> string list \<Rightarrow> string" where
  "ambiguous_text command cs =
     (let s = concat [''ambiguous command '', [CHR 0x22], command, [CHR 0x22], '': '', concat (map (\<lambda>c. c @ '', '') (tl cs))] in
      take (length s - 2) s)"

definition carry_out :: "'k ienv \<Rightarrow> string \<Rightarrow> found \<Rightarrow> rline \<Rightarrow> 'k shell \<Rightarrow> cbuf \<Rightarrow> cbuf \<Rightarrow> 'k outcome run" where
  "carry_out I command fd R H out e =
     (case fd of
        Undefined \<Rightarrow> prepare_and_call_cmdfunc I None R H out
          (concat_c e (concat [''undefined command '', [CHR 0x22], command, [CHR 0x22], ''. Try '', [CHR 0x22], ''help'', [CHR 0x22], ''.'']))
      | Found prev args \<Rightarrow>
          if length prev > 1 then
            Inr \<lparr>o_result = CMD_FAILURE, o_shell = H, o_line = R, o_force = False, o_out = out, o_error = concat_c e (ambiguous_text command prev)\<rparr>
          else prepare_and_call_cmdfunc I args R H out e)"

definition do_cmdline_command ::
    "'k ienv \<Rightarrow> string \<Rightarrow> bool \<Rightarrow> rline \<Rightarrow> 'k shell \<Rightarrow> cbuf \<Rightarrow> cbuf \<Rightarrow> (string \<times> 'k outcome) run" where
  "do_cmdline_command I line user_invoked R H out e =
     (let uc = strclean line; R0 = R\<lparr>rl_line_buffer := uc\<rparr> in
      if uc \<noteq> [] \<and> hd uc = CHR ''!'' then
        (let (reason, e1) = execute_shell_cmd I (tl uc) e in
         Inr (uc, \<lparr>o_result = (if e1 \<noteq> None then CMD_FAILURE else CMD_SUCCESS), o_shell = H, o_line = R0, o_force = False,
           o_out = (case reason of None \<Rightarrow> out | Some r \<Rightarrow> concat_c out (r @ nl)), o_error = e1\<rparr>))
      else
        bind_run (expand_aliases uc R0) (\<lambda>(command, R1).
          let ws = tokens command; rc = randcommand (pad_words (rand_of I) ws);
              R2 = (if ws = [] then R1 else R1\<lparr>rl_line_buffer := rc, LINE_MODIFIED := True\<rparr>) in
          bind_run (match_tokens I (if ws = [] then [] else tokens rc) True [] R2) (\<lambda>(fd, R3).
          bind_run (carry_out I uc fd R3 H out e) (\<lambda>oc.
            Inr (uc, oc\<lparr>o_line := (o_line oc)\<lparr>rl_line_buffer := (if user_invoked then uc else []), LINE_MODIFIED := False\<rparr>\<rparr>)))))"

section \<open>The prompt\<close>

text \<open>
  What readline reads: a tab looks whether the line is to be completed for \<^verbatim>\<open>help\<close> (readline then completes the word
  itself, with \<open>completer\<close>), a return ends that.
\<close>

definition rl_getc :: "'k ienv \<Rightarrow> char \<Rightarrow> rline \<Rightarrow> rline run" where
  "rl_getc I c R =
     (if c = CHR 0x09 then
        (case rl_line_buffer_word_array R of [] \<Rightarrow> Inr R
         | w # _ \<Rightarrow> bind_run (completer COMMANDS (lcd_of I) w R) (\<lambda>(cs, R1).
             Inr (if cs \<noteq> [] \<and> hd cs = ''help'' then R1\<lparr>IS_HELP_COMMAND := True\<rparr> else R1)))
      else if c = CHR 0x0D then Inr (R\<lparr>IS_HELP_COMMAND := False\<rparr>) else Inr R)"

record 'k top =
  rl :: rline
  sh :: "'k shell"
  prevline :: "string option"
  history :: "string list"
  quit :: bool
  printed :: string

definition shown_out :: "cbuf \<Rightarrow> string" where
  "shown_out b = (case b of None \<Rightarrow> ''(null)'' | Some s \<Rightarrow> s)"

definition outcome_text :: "'k outcome \<Rightarrow> string" where
  "outcome_text oc =
     (let forced = (if o_force oc then shown_out (o_out oc) else []); rest = (if o_force oc then None else o_out oc) in
      forced @ (if o_result oc = CMD_FAILURE \<and> o_error oc \<noteq> None then concat [''error: '', the (o_error oc), nl]
                else (case rest of None \<Rightarrow> [] | Some s \<Rightarrow> s)))"

definition linecb :: "'k ienv \<Rightarrow> string \<Rightarrow> 'k top \<Rightarrow> 'k top run" where
  "linecb I line P =
     (let again = (line = [] \<and> prevline P \<noteq> None);
          l = (if again then the (prevline P) else line);
          h = (if \<not> again \<and> line \<noteq> [] \<and> prevline P \<noteq> Some line \<and> \<not> is_whitespace (Some line) then [line] else []) in
      bind_run (do_cmdline_command I l True (rl P) (sh P) None None) (\<lambda>(cpy, oc).
        let P1 = P\<lparr>rl := o_line oc, sh := o_shell oc, history := history P @ h, printed := printed P @ outcome_text oc\<rparr> in
        Inr (if o_result oc = CMD_QUIT then P1\<lparr>quit := True\<rparr> else P1\<lparr>prevline := Some cpy\<rparr>)))"

end
