(* ===== verification/CmdlineProof.thy ===== *)
theory CmdlineProof
  imports Cmdline "HOL-Library.Sublist"
begin

text \<open>
  What a line of words means: the first word is the start of the name of one command, the second perhaps that of one of
  its subcommands, and the rest are arguments. The search over the padded words finds that.
\<close>

section \<open>Words\<close>

definition word_ok :: "string \<Rightarrow> bool" where
  "word_ok w \<longleftrightarrow> w \<noteq> [] \<and> CHR '' '' \<notin> set w"

lemma tokens_eq: "tokens s = token_loop (strtok_r (Some s) '' '')"
  by (simp add: tokens_def token_array_def)

lemma tokens_empty [simp]: "tokens [] = []"
  by (simp add: tokens_eq strtok_r_def)

lemma takeWhile_all: "CHR '' '' \<notin> set w \<Longrightarrow> takeWhile (\<lambda>c. c \<noteq> CHR '' '') (w @ s) = w @ takeWhile (\<lambda>c. c \<noteq> CHR '' '') s"
  by (induction w) auto

lemma dropWhile_all: "CHR '' '' \<notin> set w \<Longrightarrow> dropWhile (\<lambda>c. c \<noteq> CHR '' '') (w @ s) = dropWhile (\<lambda>c. c \<noteq> CHR '' '') s"
  by (induction w) auto

lemma strtok_word:
  assumes "word_ok w"
  shows "strtok_r (Some (w @ CHR '' '' # s)) '' '' = (Some w, Some s)" "strtok_r (Some w) '' '' = (Some w, None)"
proof -
  have d: "dropWhile (\<lambda>c. c = CHR '' '') (w @ t) = w @ t" for t
    using assms by (cases w) (auto simp: word_ok_def)
  have e: "dropWhile (\<lambda>c. c \<noteq> CHR '' '') w = []" using dropWhile_all [of w "[]"] assms by (simp add: word_ok_def)
  show "strtok_r (Some (w @ CHR '' '' # s)) '' '' = (Some w, Some s)" "strtok_r (Some w) '' '' = (Some w, None)"
    using assms takeWhile_all [of w "[]"] dropWhile_all [of w "[]"]
    by (simp_all add: strtok_r_def Let_def d d [of "[]", simplified] takeWhile_all dropWhile_all e word_ok_def)
qed

lemma tokens_words:
  assumes "\<forall>w \<in> set ws. word_ok w"
  shows "tokens (concat (map (\<lambda>w. w @ '' '') ws)) = ws"
  using assms
proof (induction ws)
  case (Cons w ws)
  have "tokens (w @ CHR '' '' # concat (map (\<lambda>w. w @ '' '') ws)) = w # tokens (concat (map (\<lambda>w. w @ '' '') ws))"
    using strtok_word(1) [of w "concat (map (\<lambda>w. w @ '' '') ws)"] Cons.prems by (simp add: tokens_eq)
  with Cons show ?case by simp
qed simp

lemma tokens_last:
  assumes "\<forall>w \<in> set ws. word_ok w" "word_ok v"
  shows "tokens (concat (map (\<lambda>w. w @ '' '') ws) @ v) = ws @ [v]"
  using assms
proof (induction ws)
  case Nil
  then show ?case using strtok_word(2) [of v] by (simp add: tokens_eq)
next
  case (Cons w ws)
  have "tokens (w @ CHR '' '' # concat (map (\<lambda>w. w @ '' '') ws) @ v) = w # tokens (concat (map (\<lambda>w. w @ '' '') ws) @ v)"
    using strtok_word(1) [of w "concat (map (\<lambda>w. w @ '' '') ws) @ v"] Cons.prems by (simp add: tokens_eq)
  with Cons show ?case by simp
qed

text \<open>The padded words.\<close>

lemma ran_char: "n < length ran_chars \<Longrightarrow> \<not> isblank (ran_chars ! n)"
proof -
  have "list_all (\<lambda>c. \<not> isblank c) ran_chars" by code_simp
  then show "n < length ran_chars \<Longrightarrow> \<not> isblank (ran_chars ! n)" by (simp add: list_all_length)
qed

lemma strnran_ok: "length (strnran r n) = n" "c \<in> set (strnran r n) \<Longrightarrow> \<not> isblank c"
proof -
  have "length ran_chars > 0" by (simp add: ran_chars_def)
  then show "length (strnran r n) = n" "c \<in> set (strnran r n) \<Longrightarrow> \<not> isblank c"
    using ran_char by (auto simp: strnran_def)
qed

definition pad_of :: "(nat \<Rightarrow> nat) \<Rightarrow> nat \<Rightarrow> string" where
  "pad_of r i = strnran (\<lambda>j. r (RAND_PAD_LEN * i + j)) RAND_PAD_LEN"

lemma pad_words_eq: "pad_words r ws = map (\<lambda>i. ws ! i @ pad_of r i) [0..<length ws]"
  by (simp add: pad_words_def pad_of_def)

lemma pad_ok: "length (pad_of r i) = RAND_PAD_LEN" "c \<in> set (pad_of r i) \<Longrightarrow> \<not> isblank c"
  using strnran_ok by (auto simp: pad_of_def)

lemma padded_word_ok: "word_ok w \<Longrightarrow> word_ok (w @ pad_of r i)"
  using pad_ok(2) [of "CHR '' ''" r i] by (auto simp: word_ok_def isblank_def)

lemma pad_words_ok: "\<forall>w \<in> set ws. word_ok w \<Longrightarrow> \<forall>w \<in> set (pad_words r ws). word_ok w"
  by (auto simp: pad_words_eq intro!: padded_word_ok)

lemma strclean_padded:
  assumes "ws \<noteq> []" "\<not> isblank (hd (hd ws))" and ok: "\<forall>w \<in> set ws. word_ok w"
  shows "tokens (randcommand (pad_words r ws)) = pad_words r ws"
proof -
  let ?ps = "pad_words r ws" let ?n = "length ws - 1"
  have hw: "hd ws \<noteq> []" using assms(1) ok by (cases ws) (auto simp: word_ok_def)
  have ps: "?ps \<noteq> []" "?ps = butlast ?ps @ [last ?ps]" using assms(1) by (simp_all add: pad_words_eq)
  have l: "last ?ps = last ws @ pad_of r ?n" using assms(1) by (simp add: pad_words_eq last_map last_conv_nth)
  have h: "hd ?ps = hd ws @ pad_of r 0" using assms(1) by (simp add: pad_words_eq hd_map hd_conv_nth)
  let ?b = "concat (map (\<lambda>w. w @ '' '') (butlast ?ps)) @ last ?ps"
  have c: "concat (map (\<lambda>w. w @ '' '') ?ps) = ?b @ '' ''" by (subst ps(2)) simp
  have ne: "pad_of r ?n \<noteq> []" using pad_ok(1) [of r ?n] by (auto simp: RAND_PAD_LEN_def)
  then have lb: "\<not> isblank (last ?b)" using pad_ok(2) [OF last_in_set [OF ne]] by (simp add: l)
  have ne2: "?b \<noteq> []" using ne by (simp add: l)
  have hb: "\<not> isblank (hd ?b)"
  proof (cases "butlast ?ps")
    case Nil
    then have "last ?ps = hd ?ps" using ps by (metis append_Nil hd_conv_nth last.simps list.sel(1))
    with Nil h assms(2) hw show ?thesis by simp
  next
    case (Cons x xs)
    then have "x = hd ?ps" by (metis hd_append list.distinct(1) list.sel(1) ps(2))
    with Cons h assms(2) hw show ?thesis by simp
  qed
  have "strclean (?b @ '' '') = ?b"
  proof -
    obtain x xs where b: "?b = x # xs" using ne2 by (cases ?b) auto
    have sl: "strip_lead (?b @ '' '') = ?b @ '' ''" using hb by (simp add: b)
    have "strip_trail (t @ '' '') = strip_trail t" for t
      by (subst strip_trail.simps) (simp add: isblank_def)
    then have st: "strip_trail (?b @ '' '') = ?b" using lb strip_trail_same [of ?b] by metis
    show ?thesis by (simp add: strclean_def Let_def sl st del: append_assoc)
  qed
  moreover have "tokens ?b = butlast ?ps @ [last ?ps]"
    using pad_words_ok [OF ok, of r] ps(1) by (intro tokens_last) (auto dest: in_set_butlastD)
  ultimately show ?thesis using ps(2) by (simp add: randcommand_def c)
qed

section \<open>The table\<close>

lemmas cmd_defs = aslr_cmd_def attach_cmd_def backtrace_cmd_def breakpoint_cmd_def continue_cmd_def detach_cmd_def
  disassemble_cmd_def evaluate_cmd_def examine_cmd_def help_cmd_def kill_cmd_def memory_cmd_def interrupt_cmd_def quit_cmd_def
  register_cmd_def signal_cmd_def step_cmd_def symbols_cmd_def thread_cmd_def trace_cmd_def variable_cmd_def watchpoint_cmd_def

lemmas make_defs = create_parent_cmd_def create_child_cmd_def common_initialization_def

text \<open>The commands are parents at level 0, their subcommands are children at level 1 without subcommands.\<close>

definition two_levels :: "dbg_cmd \<Rightarrow> bool" where
  "two_levels c \<longleftrightarrow> parentcmd c \<and> clevel c = 0 \<and> (\<forall>s \<in> set (subcmds c). clevel s = 1 \<and> \<not> parentcmd s \<and> subcmds s = [])"

lemma COMMANDS_levels: "\<forall>c \<in> set COMMANDS. two_levels c"
  by (simp add: COMMANDS_def two_levels_def cmd_defs make_defs)

lemma level_order_two: "two_levels c \<Longrightarrow> level_order [c] = map (\<lambda>s. (c, s)) (subcmds c)"
proof -
  assume "two_levels c"
  then have "filter parentcmd (subcmds c) = []" by (simp add: two_levels_def filter_empty_conv)
  then show ?thesis by simp
qed

definition sub_pairs :: "(dbg_cmd \<times> dbg_cmd) list" where
  "sub_pairs = concat (map (\<lambda>c. map (\<lambda>s. (c, s)) (subcmds c)) COMMANDS)"

lemma all_pairs: "concat (map (\<lambda>c. if parentcmd c then level_order [c] else []) COMMANDS) = sub_pairs"
proof -
  have "map (\<lambda>c. if parentcmd c then level_order [c] else []) COMMANDS = map (\<lambda>c. map (\<lambda>s. (c, s)) (subcmds c)) COMMANDS"
    using COMMANDS_levels by (intro map_cong) (auto simp: level_order_two two_levels_def)
  then show ?thesis by (simp only: sub_pairs_def)
qed

lemma pairs_level: "filter (\<lambda>(p, s). clevel s = l) sub_pairs = (if l = 1 then sub_pairs else [])"
proof -
  have "\<forall>x \<in> set sub_pairs. clevel (snd x) = 1"
    using COMMANDS_levels by (auto simp: sub_pairs_def two_levels_def)
  then show ?thesis by (auto intro!: filter_True filter_False)
qed

lemma pairs_not_empty: "sub_pairs \<noteq> []"
  by (simp add: sub_pairs_def COMMANDS_def cmd_defs make_defs)

section \<open>What a line means\<close>

datatype resolution = Unknown | Ambiguous "dbg_cmd list" | Names dbg_cmd "string list"

definition starting :: "string \<Rightarrow> dbg_cmd list \<Rightarrow> dbg_cmd list" where
  "starting w cs = filter (\<lambda>c. prefix w (cname c)) cs"

fun resolve :: "string list \<Rightarrow> resolution" where
  "resolve [] = Unknown"
| "resolve (w # ws) =
     (case starting w COMMANDS of
        [] \<Rightarrow> Unknown
      | [c] \<Rightarrow>
          (case ws of [] \<Rightarrow> Names c []
           | v # vs \<Rightarrow> (case starting v (subcmds c) of [] \<Rightarrow> Names c ws | [s] \<Rightarrow> Names s vs | ss \<Rightarrow> Ambiguous ss))
      | cs \<Rightarrow> Ambiguous cs)"

text \<open>A line whose words are the given ones, each padded with a text of its own.\<close>

definition padded_line :: "string list \<Rightarrow> (nat \<Rightarrow> string) \<Rightarrow> rline \<Rightarrow> bool" where
  "padded_line ws pad R \<longleftrightarrow> (\<forall>w \<in> set ws. word_ok w) \<and> (\<forall>i. length (pad i) = RAND_PAD_LEN) \<and>
     rl_line_buffer_word_array R = map (\<lambda>i. ws ! i @ pad i) [0..<length ws] \<and> distinct (rl_line_buffer_word_array R) \<and>
     LINE_MODIFIED R \<and> \<not> IS_HELP_COMMAND R"

lemma strncmp_prefix: "strncmp_eq n (w @ p) (length w) \<longleftrightarrow> prefix w n"
  by (auto simp: strncmp_eq_def prefix_def) (metis append_take_drop_id)

lemma unpad_padded:
  assumes "padded_line ws pad R" "w \<in> set ws"
  shows "unpad_len R (length (w @ pad i)) = length w"
  using assms by (cases w) (auto simp: padded_line_def unpad_len_def padded_def word_ok_def)

lemma takeWhile_nth:
  assumes "distinct xs" "i < length xs"
  shows "takeWhile (\<lambda>w. w \<noteq> xs ! i) xs = take i xs"
  using assms by (intro takeWhile_eq_take_P_nth) (auto simp: nth_eq_iff_index_eq)

lemma before_last_nth:
  assumes "distinct xs" "0 < i" "i < n" "n \<le> length xs"
  shows "before_last xs (xs ! i) n = Some (xs ! (i - 1))"
  using assms
proof (induction n)
  case (Suc n)
  then show ?case by (cases "i = n") (auto simp: nth_eq_iff_index_eq)
qed simp

lemma words_at:
  assumes "padded_line ws pad R" "i < length ws"
  shows "rl_line_buffer_word_array R ! i = ws ! i @ pad i" "count_spaces_before R (ws ! i @ pad i) = int i"
    "tokens (everything_before R (ws ! i @ pad i)) = take i (rl_line_buffer_word_array R)"
    "0 < i \<Longrightarrow> word_before R (ws ! i @ pad i) = Inr (ws ! (i - 1) @ pad (i - 1))"
proof -
  let ?xs = "rl_line_buffer_word_array R"
  have x: "?xs = map (\<lambda>i. ws ! i @ pad i) [0..<length ws]" "distinct ?xs" and w: "\<forall>w \<in> set ws. word_ok w"
    and p: "\<And>i. length (pad i) = RAND_PAD_LEN" using assms(1) by (auto simp: padded_line_def)
  show n: "?xs ! i = ws ! i @ pad i" using assms(2) by (simp add: x(1))
  have l: "i < length ?xs" using assms(2) by (simp add: x(1))
  note tw = takeWhile_nth [OF x(2) l, unfolded n]
  show "count_spaces_before R (ws ! i @ pad i) = int i"
    using assms l tw by (simp add: count_spaces_before_def padded_line_def)
  have "\<forall>w \<in> set ?xs. w \<noteq> [] \<and> CHR '' '' \<notin> set w"
    unfolding rl_line_buffer_word_array_def tokens_eq
    using token_array_tokens [of "rl_line_buffer R"] by (simp add: token_array_def)
  then have "\<forall>w \<in> set (take i ?xs). word_ok w" by (auto simp: word_ok_def dest: in_set_takeD)
  then show "tokens (everything_before R (ws ! i @ pad i)) = take i ?xs"
    by (simp add: everything_before_def tw tokens_words)
  show "word_before R (ws ! i @ pad i) = Inr (ws ! (i - 1) @ pad (i - 1))" if "0 < i"
  proof -
    have ne: "ws ! i @ pad i \<noteq> []" "?xs \<noteq> []" using p [of i] l by (auto simp: RAND_PAD_LEN_def)
    have "before_last ?xs (ws ! i @ pad i) (length ?xs) = Some (?xs ! (i - 1))"
      using before_last_nth [OF x(2) that l] n by simp
    moreover have "i - 1 < length ws" using assms(2) by simp
    then have "?xs ! (i - 1) = ws ! (i - 1) @ pad (i - 1)" unfolding x(1) by (subst nth_map) (simp_all del: One_nat_def)
    ultimately show ?thesis using ne by (auto simp: word_before_def Let_def)
  qed
qed

lemma matches_first:
  assumes "padded_line ws pad R" "0 < length ws"
  shows "matches_at COMMANDS R (ws ! 0 @ pad 0) 0 = Inr (starting (ws ! 0) COMMANDS)"
  using unpad_padded [OF assms(1), of "ws ! 0" 0] assms(2) by (simp add: matches_at_def starting_def strncmp_prefix)

lemma matches_second:
  assumes P: "padded_line ws pad R" and "1 < length ws" and c: "starting (ws ! 0) COMMANDS = [c]"
  shows "matches_at COMMANDS R (ws ! 1 @ pad 1) 1 = Inr (starting (ws ! 1) (subcmds c))"
proof -
  have u: "unpad_len R (length (ws ! i @ pad i)) = length (ws ! i)" if "i < length ws" for i
    using unpad_padded [OF P, of "ws ! i" i] that by simp
  have l: "0 < length ws" using assms(2) by linarith
  have "sub_matches R (ws ! 1 @ pad 1) (ws ! 0 @ pad 0) = (\<lambda>ps. prefix (ws ! 1) (cname (snd ps)) \<and> prefix (ws ! 0) (cname (fst ps)))"
    unfolding sub_matches_def u [OF l] u [OF assms(2)]
    using strncmp_prefix [of _ "ws ! 0" "[]"] by (auto simp: Let_def strncmp_prefix fun_eq_iff)
  then have "filter (sub_matches R (ws ! 1 @ pad 1) (ws ! 0 @ pad 0)) sub_pairs =
      filter (\<lambda>ps. prefix (ws ! 1) (cname (snd ps))) (filter (\<lambda>ps. prefix (ws ! 0) (cname (fst ps))) sub_pairs)"
    by (simp only: filter_filter conj_commute)
  also have "filter (\<lambda>ps. prefix (ws ! 0) (cname (fst ps))) sub_pairs =
      concat (map (\<lambda>c. map (\<lambda>s. (c, s)) (subcmds c)) (starting (ws ! 0) COMMANDS))"
  proof -
    have "filter (\<lambda>ps. prefix w (cname (fst ps))) (concat (map (\<lambda>c. map (\<lambda>s. (c, s)) (subcmds c)) cs)) =
        concat (map (\<lambda>c. map (\<lambda>s. (c, s)) (subcmds c)) (starting w cs))" for w and cs :: "dbg_cmd list"
      by (induction cs) (auto simp: starting_def filter_map o_def)
    then show ?thesis by (simp only: sub_pairs_def)
  qed
  finally have "map snd (filter (sub_matches R (ws ! 1 @ pad 1) (ws ! 0 @ pad 0)) sub_pairs) = starting (ws ! 1) (subcmds c)"
    unfolding c by (simp add: filter_map o_def starting_def [symmetric]) 
  then show ?thesis
    using words_at(4) [OF P assms(2)] by (simp add: matches_at_def all_pairs pairs_level pairs_not_empty)
qed

lemma matches_deeper: "2 \<le> l \<Longrightarrow> matches_at COMMANDS R text l = Inr []"
  by (simp add: matches_at_def all_pairs pairs_level)

section \<open>The search over the words\<close>

lemma padded_line_info [simp]: "padded_line ws pad (R\<lparr>CURRENT_MATCH_INFO := m\<rparr>) = padded_line ws pad R"
  by (simp add: padded_line_def rl_line_buffer_word_array_def)

lemma padded_line_reset [simp]: "padded_line ws pad (reset_matchedcmdinfo R) = padded_line ws pad R"
  by (simp add: reset_matchedcmdinfo_def)

lemma gen_first:
  assumes P: "padded_line ws pad R" and l: "0 < length ws"
  shows "completer COMMANDS lcd (ws ! 0 @ pad 0) R =
    (case starting (ws ! 0) COMMANDS of [] \<Rightarrow> Inr ([], R)
     | [c] \<Rightarrow> Inr ([cname c], R\<lparr>CURRENT_MATCH_INFO := match_info_of c\<rparr>)
     | cs \<Rightarrow> Inr (lcd (ws ! 0 @ pad 0) (map cname cs) # map cname cs, reset_matchedcmdinfo R))"
proof -
  have f: "fold (\<lambda>c R. R\<lparr>CURRENT_MATCH_INFO := match_info_of c\<rparr>) cs (R :: rline)\<lparr>CURRENT_MATCH_INFO := no_match_info\<rparr> =
      R\<lparr>CURRENT_MATCH_INFO := no_match_info\<rparr>" for cs :: "dbg_cmd list" and R
    by (induction cs arbitrary: R) simp_all
  show ?thesis
    using words_at(2,3) [OF P l] matches_first [OF P l] f
    by (auto simp: completer_def completion_generator_def no_ambiguity_before_def match_at_level_def completions_of_def
        reset_matchedcmdinfo_def split: list.split)
qed

lemma ambiguous_first:
  assumes "padded_line ws pad R" "0 < length ws"
  shows "ambiguous_command_at_level COMMANDS R (ws ! 0 @ pad 0) 0 = Inr (1 < length (starting (ws ! 0) COMMANDS))"
  using matches_first [OF assms] by (simp add: ambiguous_command_at_level_def)

lemma padded_take:
  assumes "padded_line ws pad R"
  shows "0 < length ws \<Longrightarrow> take 1 (rl_line_buffer_word_array R) = [ws ! 0 @ pad 0]"
    "1 < length ws \<Longrightarrow> take 2 (rl_line_buffer_word_array R) = [ws ! 0 @ pad 0, ws ! 1 @ pad 1]"
  using assms by (auto simp: padded_line_def take_map take_upt upt_conv_Cons numeral_2_eq_2 take_Suc hd_map hd_upt)

lemma gen_second:
  assumes P: "padded_line ws pad R" and l: "1 < length ws"
  shows "starting (ws ! 0) COMMANDS = [c] \<Longrightarrow> completer COMMANDS lcd (ws ! 1 @ pad 1) R =
    (case starting (ws ! 1) (subcmds c) of [] \<Rightarrow> Inr ([], R)
     | [s] \<Rightarrow> Inr ([cname s], R\<lparr>CURRENT_MATCH_INFO := match_info_of s\<rparr>)
     | ss \<Rightarrow> Inr (lcd (ws ! 1 @ pad 1) (map cname ss) # map cname ss, reset_matchedcmdinfo R))" (is "?c \<Longrightarrow> ?A")
    and "1 < length (starting (ws ! 0) COMMANDS) \<Longrightarrow> completer COMMANDS lcd (ws ! 1 @ pad 1) R = Inr ([], reset_matchedcmdinfo R)"
    (is "?d \<Longrightarrow> ?B")
proof -
  have l0: "0 < length ws" using l by linarith
  have t: "tokens (everything_before R (ws ! 1 @ pad 1)) = [ws ! 0 @ pad 0]"
    using words_at(3) [OF P l] padded_take(1) [OF P l0] by simp
  have f: "fold (\<lambda>c R. R\<lparr>CURRENT_MATCH_INFO := match_info_of c\<rparr>) cs (R :: rline)\<lparr>CURRENT_MATCH_INFO := no_match_info\<rparr> =
      R\<lparr>CURRENT_MATCH_INFO := no_match_info\<rparr>" for cs :: "dbg_cmd list" and R
    by (induction cs arbitrary: R) simp_all
  note d = completer_def completion_generator_def no_ambiguity_before_def t words_at(2) [OF P l] ambiguous_first [OF P l0]
  show "?c \<Longrightarrow> ?A"
    using matches_second [OF P l] f
    by (auto simp: d match_at_level_def completions_of_def reset_matchedcmdinfo_def simp del: One_nat_def split: list.split)
  show "?d \<Longrightarrow> ?B" by (simp add: d completions_of_def del: One_nat_def)
qed

lemma gen_third:
  assumes P: "padded_line ws pad R" and l: "2 < length ws" and c: "starting (ws ! 0) COMMANDS = [c]"
  shows "completer COMMANDS lcd (ws ! 2 @ pad 2) R =
    Inr ([], if 1 < length (starting (ws ! 1) (subcmds c)) then reset_matchedcmdinfo R else R)"
proof -
  have l0: "0 < length ws" "1 < length ws" using l by linarith+
  have t: "tokens (everything_before R (ws ! 2 @ pad 2)) = [ws ! 0 @ pad 0, ws ! 1 @ pad 1]"
    using words_at(3) [OF P l] padded_take(2) [OF P l0(2)] by simp
  have a: "ambiguous_command_at_level COMMANDS R (ws ! 1 @ pad 1) 1 = Inr (1 < length (starting (ws ! 1) (subcmds c)))"
    using matches_second [OF P l0(2) c] by (simp add: ambiguous_command_at_level_def)
  show ?thesis
    using ambiguous_first [OF P l0(1)] c a
    by (simp add: completer_def completion_generator_def no_ambiguity_before_def t words_at(2) [OF P l] matches_deeper
        match_at_level_def completions_of_def del: One_nat_def)
qed

definition args_text :: "string list \<Rightarrow> string option" where
  "args_text ws = (if ws = [] then None else Some (strclean (concat (map (\<lambda>w. CHR '' '' # w) ws))))"

lemma rest_args_padded:
  assumes "padded_line ws pad R"
  shows "rest_args (map (\<lambda>i. ws ! i @ pad i) [k..<length ws]) = Inr (strclean (concat (map (\<lambda>w. CHR '' '' # w) (drop k ws))))"
proof -
  have l: "length (pad i) = RAND_PAD_LEN" for i using assms by (simp add: padded_line_def)
  have "map (\<lambda>i. CHR '' '' # take (length (ws ! i @ pad i) - RAND_PAD_LEN) (ws ! i @ pad i)) [k..<length ws] =
      map (\<lambda>w. CHR '' '' # w) (map (\<lambda>i. ws ! i) [k..<length ws])" by (simp add: l)
  also have "map (\<lambda>i. ws ! i) [k..<length ws] = drop k ws" by (metis drop_map drop_upt map_nth add_0)
  finally have e: "map (\<lambda>i. CHR '' '' # take (length (ws ! i @ pad i) - RAND_PAD_LEN) (ws ! i @ pad i)) [k..<length ws] =
      map (\<lambda>w. CHR '' '' # w) (drop k ws)" .
  have "list_all (\<lambda>w. RAND_PAD_LEN \<le> length w) (map (\<lambda>i. ws ! i @ pad i) [k..<length ws])" by (simp add: list_all_iff l)
  then show ?thesis by (simp only: rest_args_def if_True map_map o_def e)
qed

lemma reset_info [simp]: "reset_matchedcmdinfo (R\<lparr>CURRENT_MATCH_INFO := m\<rparr>) = reset_matchedcmdinfo R"
  by (simp add: reset_matchedcmdinfo_def)

lemma reset_twice [simp]: "reset_matchedcmdinfo (reset_matchedcmdinfo R) = reset_matchedcmdinfo R"
  by (simp add: reset_matchedcmdinfo_def)

definition found_as :: "resolution \<Rightarrow> rline \<Rightarrow> (found \<times> rline) run \<Rightarrow> bool" where
  "found_as r R res \<longleftrightarrow>
     (case r of
        Unknown \<Rightarrow> res = Inr (Undefined, R)
      | Ambiguous cs \<Rightarrow> (\<exists>lcd a. res = Inr (Found (lcd # map cname cs) a, reset_matchedcmdinfo R))
      | Names c as \<Rightarrow> res = Inr (Found [cname c] (args_text as), R\<lparr>CURRENT_MATCH_INFO := match_info_of c\<rparr>))"

lemma resolve_eq:
  assumes "ws \<noteq> []"
  shows "resolve ws =
     (case starting (ws ! 0) COMMANDS of
        [] \<Rightarrow> Unknown
      | [c] \<Rightarrow>
          (if length ws = 1 then Names c []
           else (case starting (ws ! 1) (subcmds c) of [] \<Rightarrow> Names c (drop 1 ws) | [s] \<Rightarrow> Names s (drop 2 ws) | ss \<Rightarrow> Ambiguous ss))
      | cs \<Rightarrow> Ambiguous cs)"
  using assms by (cases ws; cases "tl ws") (auto split: list.split)

lemma line_found:
  assumes P: "padded_line ws pad R" and ne: "ws \<noteq> []"
  shows "found_as (resolve ws) R (match_tokens I (map (\<lambda>i. ws ! i @ pad i) [0..<length ws]) True [] R)"
proof -
  let ?x = "\<lambda>i. ws ! i @ pad i"
  have l0: "0 < length ws" using ne by simp
  have u0: "map ?x [0..<length ws] = ?x 0 # map ?x [1..<length ws]" using l0 by (simp add: upt_conv_Cons)
  note r = resolve_eq [OF ne]
  note g0 = gen_first [OF P l0, of "lcd_of I"]
  show ?thesis
  proof (cases "starting (ws ! 0) COMMANDS")
    case Nil
    then show ?thesis by (simp add: r u0 g0 found_as_def)
  next
    case (Cons c cs)
    note top = Cons
    show ?thesis
    proof (cases "1 < length ws")
      case False
      then have o: "length ws = 1" "[1..<length ws] = []" using l0 False by (linarith, simp)
      then show ?thesis
        by (cases cs) (simp_all add: r u0 g0 top found_as_def args_text_def)
    next
      case True
      have u1: "map ?x [1..<length ws] = ?x 1 # map ?x [2..<length ws]" using True by (simp add: upt_conv_Cons numeral_2_eq_2)
      have n1: "length ws \<noteq> 1" using True by linarith
      have ra: "rest_args (?x 1 # map ?x [2..<length ws]) = Inr (strclean (concat (map (\<lambda>w. CHR '' '' # w) (drop 1 ws))))"
        using rest_args_padded [OF P, of 1] by (simp only: u1)
      show ?thesis
      proof (cases cs)
        case (Cons c' cs')
        then have d: "1 < length (starting (ws ! 0) COMMANDS)" by (simp add: top)
        let ?R = "reset_matchedcmdinfo R"
        have "padded_line ws pad ?R" using P by simp
        note g1 = gen_second(2) [OF this True d, of "lcd_of I"]
        show ?thesis
          by (simp add: r u0 u1 g0 top Cons g1 ra found_as_def del: One_nat_def)
      next
        case Nil
        then have c: "starting (ws ! 0) COMMANDS = [c]" by (simp add: top)
        let ?R = "R\<lparr>CURRENT_MATCH_INFO := match_info_of c\<rparr>"
        have P1: "padded_line ws pad ?R" using P by simp
        note g1 = gen_second(1) [OF P1 True c, of "lcd_of I"]
        show ?thesis
        proof (cases "starting (ws ! 1) (subcmds c)")
          case Nil
          then show ?thesis
            using g1 ra True n1 by (simp add: r u0 u1 g0 c found_as_def args_text_def del: One_nat_def)
        next
          case (Cons s ss)
          note sub = Cons
          let ?R2 = "if ss = [] then R\<lparr>CURRENT_MATCH_INFO := match_info_of s\<rparr> else reset_matchedcmdinfo R"
          show ?thesis
          proof (cases "2 < length ws")
            case False
            then have "drop 2 ws = []" "[2..<length ws] = []" using True by simp_all
            then show ?thesis
              using g1 by (cases ss) (simp_all add: r n1 u0 u1 g0 c sub found_as_def args_text_def del: One_nat_def)
          next
            case l2: True
            have u2: "map ?x [2..<length ws] = ?x 2 # map ?x [3..<length ws]" using l2 by (simp add: upt_conv_Cons numeral_3_eq_3 numeral_2_eq_2)
            have ra2: "rest_args (?x 2 # map ?x [3..<length ws]) = Inr (strclean (concat (map (\<lambda>w. CHR '' '' # w) (drop 2 ws))))"
              using rest_args_padded [OF P, of 2] by (simp only: u2)
            have P2: "padded_line ws pad ?R2" using P by simp
            note g2 = gen_third [OF P2 l2 c, of "lcd_of I"]
            have "drop 2 ws \<noteq> []" using l2 by simp
            then show ?thesis
              using g1 g2 ra2 by (cases ss) (simp_all add: r n1 u0 u1 u2 g0 c sub found_as_def args_text_def del: One_nat_def)
          qed
        qed
      qed
    qed
  qed
qed

section \<open>Carrying out what was found\<close>

text \<open>What a line does by its meaning.\<close>

definition undefined_text :: "string \<Rightarrow> string" where
  "undefined_text command = concat [''undefined command '', [CHR 0x22], command, [CHR 0x22], ''. Try '', [CHR 0x22], ''help'', [CHR 0x22], ''.'']"

definition by_meaning :: "'k ienv \<Rightarrow> string \<Rightarrow> resolution \<Rightarrow> rline \<Rightarrow> 'k shell \<Rightarrow> cbuf \<Rightarrow> cbuf \<Rightarrow> 'k outcome run" where
  "by_meaning I command r R H out e =
     (let failed = (\<lambda>m. \<lparr>o_result = CMD_FAILURE, o_shell = H, o_line = R, o_force = False, o_out = out, o_error = concat_c e m\<rparr>) in
      case r of
        Unknown \<Rightarrow> Inr (failed (undefined_text command))
      | Ambiguous cs \<Rightarrow> Inr (failed (ambiguous_text command ([] # map cname cs)))
      | Names c as \<Rightarrow> prepare_and_call_cmdfunc I (args_text as) (R\<lparr>CURRENT_MATCH_INFO := match_info_of c\<rparr>) H out e)"

lemma starting_subset: "set (starting w cs) \<subseteq> set cs"
  by (auto simp: starting_def)

lemma resolve_ambiguous: "resolve ws = Ambiguous cs \<Longrightarrow> 2 \<le> length cs"
proof -
  have l: "2 \<le> length ss" if "x # y # zs = ss" for x y zs and ss :: "dbg_cmd list" using that [symmetric] by simp
  assume "resolve ws = Ambiguous cs"
  then show ?thesis by (cases ws; cases "tl ws") (auto split: list.splits intro: l)
qed

lemma no_info_reset: "CURRENT_MATCH_INFO R = no_match_info \<Longrightarrow> reset_matchedcmdinfo R = R"
  by (simp add: reset_matchedcmdinfo_def)

lemma carry_out_meaning:
  assumes f: "found_as (resolve ws) R (Inr (fd, R3))" and m: "CURRENT_MATCH_INFO R = no_match_info"
  shows "carry_out I command fd R3 H out e = by_meaning I command (resolve ws) R H out e"
proof (cases "resolve ws")
  case Unknown
  with f have "fd = Undefined" "R3 = R" by (simp_all add: found_as_def)
  then show ?thesis
    by (simp add: carry_out_def by_meaning_def Unknown prepare_and_call_cmdfunc_def m no_match_info_def Let_def
        no_info_reset [OF m] undefined_text_def)
next
  case (Ambiguous cs)
  with f obtain lcd a where "fd = Found (lcd # map cname cs) a" "R3 = R"
    by (auto simp: found_as_def no_info_reset [OF m])
  then show ?thesis
    using resolve_ambiguous [OF Ambiguous]
    by (cases cs) (simp_all add: carry_out_def by_meaning_def Ambiguous Let_def ambiguous_text_def)
next
  case (Names c as)
  with f show ?thesis by (simp add: found_as_def carry_out_def by_meaning_def)
qed

lemma tokens_ok: "\<forall>w \<in> set (tokens s). word_ok w"
  using token_array_tokens [of s] by (auto simp: tokens_eq token_array_def word_ok_def)

lemma first_word:
  assumes "\<not> isblank (hd s)" "tokens s \<noteq> []"
  shows "\<not> isblank (hd (hd (tokens s)))"
proof (cases s)
  case (Cons c cs)
  then have "c \<noteq> CHR '' ''" using assms(1) by (auto simp: isblank_def)
  then have "\<exists>r. strtok_r (Some s) '' '' = (Some (c # takeWhile (\<lambda>c. c \<noteq> CHR '' '') cs), r)"
    by (simp add: Cons strtok_r_def Let_def)
  then obtain r where "strtok_r (Some s) '' '' = (Some (c # takeWhile (\<lambda>c. c \<noteq> CHR '' '') cs), r)" by blast
  then have "hd (tokens s) = c # takeWhile (\<lambda>c. c \<noteq> CHR '' '') cs" by (cases r) (simp_all add: tokens_eq)
  then show ?thesis using assms(1) by (simp add: Cons)
qed (use assms(2) in simp)

definition reset_line :: "bool \<Rightarrow> string \<Rightarrow> 'k outcome \<Rightarrow> 'k outcome" where
  "reset_line user_invoked uc oc = oc\<lparr>o_line := (o_line oc)\<lparr>rl_line_buffer := (if user_invoked then uc else []), LINE_MODIFIED := False\<rparr>\<rparr>"

text \<open>
  A line that is no shell command and has words, with the aliases put in: its outcome is that of its meaning, provided
  that no two padded words are the same.
\<close>

lemma line_by_meaning:
  assumes uc: "strclean line = uc" "hd uc \<noteq> CHR ''!''"
    and a: "expand_aliases uc (R\<lparr>rl_line_buffer := uc\<rparr>) = Inr (command, R1)" and h: "\<not> isblank (hd command)"
    and ne: "tokens command \<noteq> []" and d: "distinct (pad_words (rand_of I) (tokens command))"
    and R: "\<not> IS_HELP_COMMAND R" "CURRENT_MATCH_INFO R = no_match_info"
  shows "do_cmdline_command I line u R H out e =
    bind_run (by_meaning I uc (resolve (tokens command)) (R1\<lparr>rl_line_buffer := randcommand (pad_words (rand_of I) (tokens command)), LINE_MODIFIED := True\<rparr>) H out e)
      (\<lambda>oc. Inr (uc, reset_line u uc oc))"
proof -
  let ?ws = "tokens command"
  let ?rc = "randcommand (pad_words (rand_of I) ?ws)"
  let ?R2 = "R1\<lparr>rl_line_buffer := ?rc, LINE_MODIFIED := True\<rparr>"
  have R1: "IS_HELP_COMMAND R1 = IS_HELP_COMMAND R" "CURRENT_MATCH_INFO R1 = CURRENT_MATCH_INFO R"
    using a by (auto simp: expand_aliases_def Let_def bind_run_Inr split: option.splits prod.splits if_splits)
  have t: "tokens ?rc = pad_words (rand_of I) ?ws" by (rule strclean_padded [OF ne first_word [OF h ne] tokens_ok])
  have P: "padded_line ?ws (pad_of (rand_of I)) ?R2"
    using tokens_ok d R(1) by (simp add: padded_line_def rl_line_buffer_word_array_def t [unfolded pad_words_eq] pad_words_eq pad_ok(1) R1(1))
  obtain fd R3 where f: "match_tokens I (pad_words (rand_of I) ?ws) True [] ?R2 = Inr (fd, R3)"
    and fa: "found_as (resolve ?ws) ?R2 (Inr (fd, R3))"
    using line_found [OF P ne, of I] by (auto simp: found_as_def pad_words_eq split: resolution.splits)
  have c: "carry_out I uc fd R3 H out e = by_meaning I uc (resolve ?ws) ?R2 H out e"
    by (rule carry_out_meaning [OF fa]) (simp add: R1 R)
  have n: "\<not> (uc \<noteq> [] \<and> hd uc = CHR ''!'')" using uc(2) by simp
  show ?thesis
    unfolding do_cmdline_command_def uc(1) Let_def if_not_P [OF n] a bind_run.simps prod.case if_not_P [OF ne] t f c reset_line_def
    by (rule refl)
qed

end
