(* ===== verification/CmdlineSafe.thy ===== *)
theory CmdlineSafe
  imports CmdlineProof
begin

text \<open>
  The table of commands is well formed, every command can be called by its full name, and a line without words carries out
  what was completed last.
\<close>

section \<open>The table\<close>

definition all_commands :: "dbg_cmd list" where
  "all_commands = COMMANDS @ concat (map subcmds COMMANDS)"

lemma command_names:
  "map (\<lambda>c. (cname c, map cname (subcmds c))) COMMANDS =
    [(''aslr'', []), (''attach'', []), (''backtrace'', []), (''breakpoint'', [''delete'', ''list'', ''set'']), (''continue'', []),
     (''detach'', []), (''disassemble'', []), (''evaluate'', []), (''examine'', []), (''help'', []), (''kill'', []),
     (''memory'', [''find'', ''write'']), (''interrupt'', []), (''quit'', []), (''register'', [''view'', ''write'']),
     (''signal'', [''deliver'', ''handle'']), (''step'', [''inst-into'', ''inst-over'']), (''symbols'', [''add'']),
     (''thread'', [''list'', ''select'']), (''trace'', []), (''variable'', [''print'', ''set'', ''unset'']),
     (''watchpoint'', [''delete'', ''list'', ''set''])]"
  by (simp add: COMMANDS_def cmd_defs make_defs)

definition no_prefix :: "string list \<Rightarrow> bool" where
  "no_prefix ns \<longleftrightarrow> distinct ns \<and> list_all (\<lambda>a. list_all (\<lambda>b. a \<noteq> b \<longrightarrow> take (length a) b \<noteq> a) ns) ns"

lemma names_free:
  "no_prefix (map cname COMMANDS)" "list_all (\<lambda>c. no_prefix (map cname (subcmds c))) COMMANDS"
proof -
  have t: "no_prefix (map fst ls) \<and> list_all (\<lambda>x. no_prefix (snd x)) ls"
    if "ls = map (\<lambda>c. (cname c, map cname (subcmds c))) COMMANDS" for ls
    unfolding that command_names by code_simp
  from t [OF refl] show "no_prefix (map cname COMMANDS)" "list_all (\<lambda>c. no_prefix (map cname (subcmds c))) COMMANDS"
    by (simp_all add: list_all_iff o_def)
qed

lemma starting_own:
  assumes "no_prefix (map cname cs)" "c \<in> set cs"
  shows "starting (cname c) cs = [c]"
proof -
  have i: "prefix (cname c) (cname d) \<longleftrightarrow> d = c" if "d \<in> set cs" for d
  proof -
    have "cname c = cname d" if "prefix (cname c) (cname d)"
    proof (rule ccontr)
      assume "cname c \<noteq> cname d"
      then have "take (length (cname c)) (cname d) \<noteq> cname c"
        using assms \<open>d \<in> set cs\<close> unfolding no_prefix_def list_all_iff set_map by blast
      with that show False by (auto simp: prefix_def)
    qed
    moreover have "inj_on cname (set cs)" using assms(1) by (simp add: no_prefix_def distinct_map)
    ultimately show ?thesis using assms(2) that by (auto dest: inj_onD)
  qed
  have "distinct cs" using assms(1) by (auto simp: no_prefix_def distinct_map)
  moreover have "starting (cname c) cs = filter (\<lambda>d. d = c) cs" using i by (auto simp: starting_def intro: filter_cong)
  moreover have "filter (\<lambda>d. d = c) cs = [c]" if "distinct cs" "c \<in> set cs"
    using that by (induction cs) (auto simp: filter_empty_conv)
  ultimately show ?thesis using assms(2) by simp
qed

lemma full_names:
  assumes "c \<in> set COMMANDS"
  shows "resolve [cname c] = Names c []" "s \<in> set (subcmds c) \<Longrightarrow> resolve (cname c # cname s # as) = Names s as"
  using starting_own [OF names_free(1) assms] starting_own [of "subcmds c" s] names_free(2) assms
  by (auto simp: list_all_iff)

text \<open>Every pattern has the groups its command reads, at most four, and the last one repeats when their number is open.\<close>

definition names_group :: "string \<Rightarrow> string \<Rightarrow> bool" where
  "names_group re g = occurs_in (concat [''(?<'', g, ''>'']) re"

definition pattern_ok :: "dbg_cmd \<Rightarrow> bool" where
  "pattern_ok c \<longleftrightarrow> int (length (groupnames (rinfo c))) = num_groups (rinfo c) \<and> num_groups (rinfo c) \<le> 4 \<and>
     (unk_num_args (rinfo c) \<longrightarrow> 1 \<le> num_groups (rinfo c)) \<and> distinct (groupnames (rinfo c)) \<and>
     list_all (names_group (argregex (rinfo c))) (groupnames (rinfo c))"

definition pattern_list :: "(string \<times> string list) list" where
  "pattern_list =
    [(ATTACH_COMMAND_REGEX, ATTACH_COMMAND_REGEX_GROUPS), (BREAKPOINT_DELETE_COMMAND_REGEX, BREAKPOINT_DELETE_COMMAND_REGEX_GROUPS),
     (BREAKPOINT_SET_COMMAND_REGEX, BREAKPOINT_SET_COMMAND_REGEX_GROUPS), (DISASSEMBLE_COMMAND_REGEX, DISASSEMBLE_COMMAND_REGEX_GROUPS),
     (EVALUATE_COMMAND_REGEX, EVALUATE_COMMAND_REGEX_GROUPS), (EXAMINE_COMMAND_REGEX, EXAMINE_COMMAND_REGEX_GROUPS),
     (HELP_COMMAND_REGEX, HELP_COMMAND_REGEX_GROUPS), (MEMORY_FIND_COMMAND_REGEX, MEMORY_FIND_COMMAND_REGEX_GROUPS),
     (MEMORY_WRITE_COMMAND_REGEX, MEMORY_WRITE_COMMAND_REGEX_GROUPS), (REGISTER_VIEW_COMMAND_REGEX, REGISTER_VIEW_COMMAND_REGEX_GROUPS),
     (REGISTER_WRITE_COMMAND_REGEX, REGISTER_WRITE_COMMAND_REGEX_GROUPS), (SIGNAL_DELIVER_COMMAND_REGEX, SIGNAL_DELIVER_COMMAND_REGEX_GROUPS),
     (SIGNAL_HANDLE_COMMAND_REGEX, SIGNAL_HANDLE_COMMAND_REGEX_GROUPS), (SYMBOLS_ADD_COMMAND_REGEX, SYMBOLS_ADD_COMMAND_REGEX_GROUPS),
     (THREAD_SELECT_COMMAND_REGEX, THREAD_SELECT_COMMAND_REGEX_GROUPS), (VARIABLE_PRINT_COMMAND_REGEX, VARIABLE_PRINT_COMMAND_REGEX_GROUPS),
     (VARIABLE_SET_COMMAND_REGEX, VARIABLE_SET_COMMAND_REGEX_GROUPS), (VARIABLE_UNSET_COMMAND_REGEX, VARIABLE_UNSET_COMMAND_REGEX_GROUPS),
     (WATCHPOINT_DELETE_COMMAND_REGEX, WATCHPOINT_DELETE_COMMAND_REGEX_GROUPS), (WATCHPOINT_SET_COMMAND_REGEX, WATCHPOINT_SET_COMMAND_REGEX_GROUPS)]"

lemma pattern_list_ok: "list_all (\<lambda>(re, gs). list_all (names_group re) gs) pattern_list"
  by code_simp

lemmas group_defs = NO_GROUPS_def
  ATTACH_COMMAND_REGEX_GROUPS_def
  EVALUATE_COMMAND_REGEX_GROUPS_def
  HELP_COMMAND_REGEX_GROUPS_def
  BREAKPOINT_DELETE_COMMAND_REGEX_GROUPS_def
  BREAKPOINT_SET_COMMAND_REGEX_GROUPS_def
  DISASSEMBLE_COMMAND_REGEX_GROUPS_def
  EXAMINE_COMMAND_REGEX_GROUPS_def
  MEMORY_FIND_COMMAND_REGEX_GROUPS_def
  MEMORY_WRITE_COMMAND_REGEX_GROUPS_def
  REGISTER_VIEW_COMMAND_REGEX_GROUPS_def
  REGISTER_WRITE_COMMAND_REGEX_GROUPS_def
  SIGNAL_DELIVER_COMMAND_REGEX_GROUPS_def
  SIGNAL_HANDLE_COMMAND_REGEX_GROUPS_def
  SYMBOLS_ADD_COMMAND_REGEX_GROUPS_def
  THREAD_SELECT_COMMAND_REGEX_GROUPS_def
  VARIABLE_PRINT_COMMAND_REGEX_GROUPS_def
  VARIABLE_SET_COMMAND_REGEX_GROUPS_def
  VARIABLE_UNSET_COMMAND_REGEX_GROUPS_def
  WATCHPOINT_DELETE_COMMAND_REGEX_GROUPS_def
  WATCHPOINT_SET_COMMAND_REGEX_GROUPS_def

lemma all_patterns: "list_all pattern_ok all_commands"
  using pattern_list_ok
  by (simp add: pattern_list_def all_commands_def COMMANDS_def cmd_defs make_defs pattern_ok_def group_defs)

section \<open>A blank line\<close>

text \<open>A match that is kept from a completion is what a line without words carries out.\<close>

lemma completed:
  assumes "rl_line_buffer R = w" "word_ok w" "starting w COMMANDS = [c]" "cname c \<noteq> ''help''" "\<not> LINE_MODIFIED R" "\<not> IS_HELP_COMMAND R"
  shows "rl_getc I (CHR 0x09) R = Inr (R\<lparr>CURRENT_MATCH_INFO := match_info_of c\<rparr>)"
proof -
  have t: "tokens w = [w]" using tokens_last [of "[]" w] assms(2) by simp
  have m: "matches_at COMMANDS R w 0 = Inr [c]"
    using assms(3,5,6) strncmp_prefix [of _ w "[]"] by (simp add: matches_at_def starting_def unpad_len_def padded_def)
  show ?thesis
    using assms(4,6) m
    by (simp add: rl_getc_def rl_line_buffer_word_array_def assms(1) t completer_def completion_generator_def
        count_spaces_before_def no_ambiguity_before_def everything_before_def match_at_level_def completions_of_def)
qed

lemma blank_line:
  assumes "strclean l = []" "CURRENT_MATCH_INFO R = match_info_of c"
  shows "do_cmdline_command I l u R H out e =
    bind_run (by_meaning I [] (Names c []) (R\<lparr>rl_line_buffer := []\<rparr>) H out e) (\<lambda>oc. Inr ([], reset_line u [] oc))"
proof -
  have a: "expand_aliases [] (R\<lparr>rl_line_buffer := []\<rparr>) = Inr ([], R\<lparr>rl_line_buffer := []\<rparr>)"
    by (simp add: expand_aliases_def COMMANDS_def cmd_defs make_defs)
  have r: "R\<lparr>rl_line_buffer := [], CURRENT_MATCH_INFO := match_info_of c\<rparr> = R\<lparr>rl_line_buffer := []\<rparr>"
    using assms(2) by (cases R) simp
  show ?thesis
    by (simp add: do_cmdline_command_def assms(1) Let_def a carry_out_def by_meaning_def args_text_def reset_line_def r)
qed

end
