(* ===== verification/Detached.thy ===== *)
theory Detached
  imports CmdlineSafe TaskopsProof
begin

text \<open>
  While nothing is debugged no line touches a target: the commands that need one refuse, and what the others change is the
  debugger's own. Only a line that attaches does more.
\<close>

section \<open>Commands that need a target\<close>

definition nothing_debugged :: "'k sess \<Rightarrow> bool" where
  "nothing_debugged S \<longleftrightarrow> pid S = - 1 \<and> num_breakpoints (db S) = 0 \<and> num_watchpoints (db S) = 0"

text \<open>What a target is to the debugger: the state of the kernel, its threads and points, and the replies to it.\<close>

definition target_of :: "'k sess \<Rightarrow> 'k \<times> machthread plist \<times> breakpoint plist \<times> watchpoint plist \<times> int \<times> int \<times> exc_reply list" where
  "target_of S = (kern (db S), threads (db S), breakpoints (db S), watchpoints (db S), num_breakpoints (db S),
     num_watchpoints (db S), sent S)"

fun checks_target :: "audit_fn \<Rightarrow> bool" where
  "checks_target A_attach = False"
| "checks_target A_evaluate = False"
| "checks_target A_symbols_add = False"
| "checks_target _ = True"

lemmas audit_defs = no_debuggee_def audit_breakpoint_set_def audit_disassemble_def audit_examine_def audit_location_def
  audit_memory_find_def audit_signal_deliver_def audit_thread_list_def audit_thread_select_def audit_watchpoint_set_def

lemma with_arg_Inr: "with_arg gs i args k = Inr y \<longleftrightarrow> i < length gs \<and> k (fst (argcopy args (gs ! i))) = Inr y"
  by (simp add: with_arg_def)

lemma strtold_err_keeps: "e \<noteq> None \<Longrightarrow> snd (strtold_err f m s e) \<noteq> None"
  by (simp add: strtold_err_def del: not_None_eq split: option.split prod.split)

lemma concat_c_Some [simp]: "\<exists>y. concat_c b t = Some y"
  by (metis concat_c_not_None not_None_eq)

lemma checked_refuses:
  assumes "run_audit F own a S args gs e = Inr e1" "checks_target a" "pid S = - 1"
  shows "e1 \<noteq> None"
proof -
  have k: "\<exists>y. snd (strtold_err f m s (concat_c e t)) = Some y" for f :: "string \<Rightarrow> u64 \<times> string" and m s t
    using strtold_err_keeps [of "concat_c e t" f m s] by simp
  show ?thesis
    using assms by (cases a) (auto simp: audit_defs Let_def with_arg_Inr k dest!: sym [of _ e1] split: option.splits if_splits)
qed

definition free_fns :: "cmd_fn list" where
  "free_fns = [F_attach, F_breakpoint_delete, F_breakpoint_list, F_evaluate, F_help, F_interrupt, F_quit, F_signal_handle,
     F_symbols_add, F_trace, F_variable_print, F_variable_set, F_variable_unset, F_watchpoint_delete, F_watchpoint_list]"

lemma table_checks:
  "\<forall>c \<in> set all_commands. case cmd_function c of None \<Rightarrow> True
     | Some f \<Rightarrow> f \<in> set free_fns \<or> (\<exists>a. audit_function c = Some a \<and> checks_target a)"
  by (simp add: all_commands_def COMMANDS_def cmd_defs make_defs free_fns_def)

section \<open>The others\<close>

lemma set_var_target: "set_var T n v S e = Inr (S1, e1) \<Longrightarrow> target_of S1 = target_of S \<and> pid S1 = pid S"
  by (auto simp: set_var_def bind_run_Inr target_of_def)

lemma evaluate_target:
  assumes "run_list (evaluate_one T) xs s = Inr s'"
  shows "target_of (ses (fst s')) = target_of (ses (fst s))"
  by (rule run_list_keeps [OF _ assms])
    (auto simp: evaluate_one_def Let_def bind_run_Inr dest: set_var_target split: option.splits)

lemma attach_symbols_pid: "pid (fst (attach_symbols A ns S out)) = pid S"
  by (simp add: attach_symbols_def set_kern_def Let_def)

lemma first_threads_pid: "first_threads T S out = Inr (S1, out1) \<Longrightarrow> pid S1 = pid S"
  by (auto simp: first_threads_def bind_run_Inr Let_def split: prod.splits option.splits list.splits)

lemma setup_servers_pid: "pid (fst (setup_servers T kq S out)) = pid S"
  by (auto simp: setup_servers_def setup_exception_handling_def task_call_def set_kern_def Let_def split: prod.splits sum.splits)

lemma attach_vars_pid: "attach_vars T sl S out = Inr (S1, out1) \<Longrightarrow> pid S1 = pid S"
  by (auto simp: attach_vars_def bind_run_Inr dest: set_var_target split: prod.splits)

lemma finish_attach_pid: "finish_attach T A kq n ns p sl S out = Inr (S1, out1) \<Longrightarrow> pid S1 = pid S"
proof -
  assume a: "finish_attach T A kq n ns p sl S out = Inr (S1, out1)"
  obtain S2 out2 where 2: "setup_servers T kq S out = (S2, out2)" by (cases "setup_servers T kq S out")
  from a obtain S3 out3 where 3: "attach_vars T sl S2 (concat_c out2 (attached_report n p sl)) = Inr (S3, out3)"
    "attach_symbols A ns S3 out3 = (S1, out1)" by (auto simp: finish_attach_def 2 bind_run_Inr)
  then show ?thesis
    using attach_vars_pid [OF 3(1)] attach_symbols_pid [of A ns S3 out3] setup_servers_pid [of T kq S out] by (simp add: 2)
qed

lemma attach_to_pid:
  assumes "attach_to T A kq tg ns p H out e = Inr (r, H1, out1, e1)"
  shows "pid (ses H1) = p"
proof -
  obtain n e2 where n: "target_name A (kern (db (snd (suspend T (ses H))))) tg p e = (n, e2)"
    by (cases "target_name A (kern (db (snd (suspend T (ses H))))) tg p e")
  show ?thesis
  proof (cases n)
    case None
    with assms n show ?thesis by (auto simp: attach_to_def Let_def bind_run_Inr)
  next
    case (Some x)
    with assms n show ?thesis
      by (auto simp: attach_to_def Let_def bind_run_Inr fresh_target_def dest!: finish_attach_pid first_threads_pid)
  qed
qed

section \<open>A line\<close>

lemma attach_idle:
  assumes "pid (ses H) = - 1" "cmdfunc_attach T A kq args H out e = Inr (r, H1, out1, e1)" "pid (ses H1) = - 1"
  shows "target_of (ses H1) = target_of (ses H)"
proof -
  obtain wf tg ns where a: "attach_unattached T A kq wf tg ns H out e = Inr (r, H1, out1, e1)"
    using assms(1,2) by (auto simp: cmdfunc_attach_def Let_def split: prod.splits)
  then obtain t where t: "tg = Some t" by (cases tg) (auto simp: attach_unattached_def)
  obtain p e2 where p: "(if wf \<noteq> None then (wait_for_launch (procs A (kern (db (ses H)))) (waits A) t, e)
      else parse_pid (procs A (kern (db (ses H)))) t e) = (p, e2)" by fastforce
  obtain q tp where q: "task_for_pid A p = (q, tp)" by (cases "task_for_pid A p")
  note b = a [unfolded attach_unattached_def t option.case Let_def p prod.case q]
  show ?thesis
  proof (cases "(e2 \<noteq> None \<or> p = - 1) \<or> q \<noteq> KERN_SUCCESS")
    case True
    with b show ?thesis by (auto simp: target_of_def split: if_splits)
  next
    case False
    with b have "attach_to T A kq t ns p (H\<lparr>ses := (ses H)\<lparr>task := tp\<rparr>\<rparr>) out e2 = Inr (r, H1, out1, e1)" by simp
    from attach_to_pid [OF this] False assms(3) show ?thesis by simp
  qed
qed

lemma free_idle:
  assumes "f \<in> set free_fns" "nothing_debugged (ses H)" "run_cmd_fn I f args H out e = Inr (r, H1, out1, e1)" "pid (ses H1) = - 1"
  shows "target_of (ses H1) = target_of (ses H)"
proof -
  consider "f = F_attach" | "f = F_evaluate" | "f \<in> set [F_breakpoint_delete, F_breakpoint_list, F_watchpoint_delete, F_watchpoint_list]"
    | "f \<in> set [F_help, F_interrupt, F_quit, F_symbols_add, F_trace]" | "f = F_signal_handle"
    | "f \<in> set [F_variable_print, F_variable_set, F_variable_unset]"
    using assms(1) by (auto simp: free_fns_def)
  then show ?thesis
  proof cases
    case 1
    with assms show ?thesis using attach_idle by (auto simp: nothing_debugged_def)
  next
    case 2
    with assms(3) show ?thesis
      by (auto simp: cmdfunc_evaluate_def bind_run_Inr dest!: evaluate_target)
  next
    case 3
    with assms(2,3) show ?thesis
      by (auto simp: nothing_debugged_def in_session_def bind_run_Inr cmdfunc_breakpoint_delete_def cmdfunc_breakpoint_list_def
          cmdfunc_watchpoint_delete_def cmdfunc_watchpoint_list_def delete_points_def Let_def)
  next
    case 4
    with assms(2,3) show ?thesis
      by (auto simp: nothing_debugged_def in_session_def bind_run_Inr cmdfunc_help_def cmdfunc_interrupt_def cmdfunc_quit_def
          cmdfunc_symbols_add_def cmdfunc_trace_def Let_def split: if_splits prod.splits option.splits)
  next
    case 5
    with assms(3) show ?thesis
      by (auto simp: in_session_def bind_run_Inr cmdfunc_signal_handle_def Let_def target_of_def split: if_splits)
  next
    case 6
    with assms(3) show ?thesis
      by (auto simp: in_session_def bind_run_Inr cmdfunc_variable_print_def cmdfunc_variable_set_def cmdfunc_variable_unset_def
          target_of_def dest!: set_var_target)
  qed
qed

text \<open>The match that is kept is none, or a command of the table.\<close>

definition info_ok :: "rline \<Rightarrow> bool" where
  "info_ok R \<longleftrightarrow> CURRENT_MATCH_INFO R = no_match_info \<or> (\<exists>c \<in> set all_commands. CURRENT_MATCH_INFO R = match_info_of c)"

lemma reset_ok [simp]: "info_ok (reset_matchedcmdinfo R)"
  by (simp add: info_ok_def reset_matchedcmdinfo_def)

lemma info_ok_line [simp]:
  "info_ok (R\<lparr>rl_line_buffer := b\<rparr>) = info_ok R" "info_ok (R\<lparr>LINE_MODIFIED := m\<rparr>) = info_ok R"
  "info_ok (R\<lparr>IS_HELP_COMMAND := h\<rparr>) = info_ok R"
  by (simp_all add: info_ok_def)

lemma matches_in_table:
  assumes "matches_at COMMANDS R text l = Inr ms"
  shows "set ms \<subseteq> set all_commands"
proof -
  have s: "b \<in> set all_commands" if "(a, b) \<in> set sub_pairs" for a b using that by (auto simp: sub_pairs_def all_commands_def)
  show ?thesis
  proof (cases "1 \<le> l")
    case True
    then show ?thesis
      using assms by (auto simp: matches_at_def all_pairs pairs_level Let_def bind_run_Inr split: if_splits) (rule s)
  next
    case False
    then show ?thesis using assms by (auto simp: matches_at_def all_commands_def)
  qed
qed

lemma completer_ok:
  assumes "completer COMMANDS lcd text R = Inr (cs, R1)" "info_ok R"
  shows "info_ok R1"
proof -
  have st: "info_ok (R\<lparr>CURRENT_MATCH_INFO := match_info_of c\<rparr>)" if "c \<in> set all_commands" for c R
    using that by (auto simp: info_ok_def)
  have f: "info_ok (fold (\<lambda>c R. R\<lparr>CURRENT_MATCH_INFO := match_info_of c\<rparr>) ms R)" if "set ms \<subseteq> set all_commands" "info_ok R" for ms R
    using that by (induction ms arbitrary: R) (auto intro: st)
  show ?thesis
    using assms
    by (auto simp: completer_def completion_generator_def match_at_level_def bind_run_Inr Let_def dest!: matches_in_table f
        split: if_splits)
qed

lemma match_tokens_ok:
  assumes "match_tokens I ws first prev R = Inr (fd, R1)" "info_ok R"
  shows "info_ok R1"
  using assms
proof (induction ws arbitrary: first prev R)
  case (Cons w ws)
  then obtain cs R2 where c: "completer COMMANDS (lcd_of I) w R = Inr (cs, R2)" by (auto simp: bind_run_Inr)
  from completer_ok [OF this Cons.prems(2)] Cons show ?case by (auto simp: c bind_run_Inr split: if_splits)
qed simp

lemma call_parsed_idle:
  assumes c: "c \<in> set all_commands" "cmd_function c = Some f" and n: "nothing_debugged (ses H)"
    and r: "call_parsed I (match_info_of c) c f a R H out e = Inr oc" and p: "pid (ses (o_shell oc)) = - 1"
  shows "target_of (ses (o_shell oc)) = target_of (ses H) \<and> info_ok (o_line oc)"
proof -
  obtain du og where g: "(if m_audit (match_info_of c) = None then (a, a) else argdup a) = (du, og)" by fastforce
  from r obtain e1 where e1: "audited I (match_info_of c) du (groupnames (rinfo c)) H e = Inr e1"
    by (auto simp: call_parsed_def g [unfolded match_info_of_def, simplified] match_info_of_def Let_def bind_run_Inr)
  show ?thesis
  proof (cases e1)
    case None
    have "f \<in> set free_fns \<or> (\<exists>a. audit_function c = Some a \<and> checks_target a)" using table_checks c by fastforce
    moreover have False if "audit_function c = Some a'" "checks_target a'" for a'
    proof -
      have "run_audit (fpe (cen I)) (own_pid I) a' (ses H) du (groupnames (rinfo c)) e = Inr e1"
        using e1 that(1) by (simp add: audited_def match_info_of_def)
      from checked_refuses [OF this that(2)] n None show False by (simp add: nothing_debugged_def)
    qed
    ultimately have "f \<in> set free_fns" by blast
    moreover obtain rr H1 out1 e2 where "run_cmd_fn I f og H out e1 = Inr (rr, H1, out1, e2)"
      "o_shell oc = H1" "o_line oc = reset_matchedcmdinfo R"
      using r e1 None by (auto simp: call_parsed_def g [unfolded match_info_of_def, simplified] match_info_of_def Let_def bind_run_Inr)
    ultimately show ?thesis using free_idle [OF _ n] p by auto
  next
    case (Some m)
    with r e1 show ?thesis
      by (auto simp: call_parsed_def g [unfolded match_info_of_def, simplified] match_info_of_def Let_def)
  qed
qed

lemma prepare_idle:
  assumes "info_ok R" "nothing_debugged (ses H)" and r: "prepare_and_call_cmdfunc I args R H out e = Inr oc"
    and p: "pid (ses (o_shell oc)) = - 1"
  shows "target_of (ses (o_shell oc)) = target_of (ses H) \<and> info_ok (o_line oc)"
proof (cases "m_function (CURRENT_MATCH_INFO R)")
  case None
  with r show ?thesis by (auto simp: prepare_and_call_cmdfunc_def Let_def split: option.splits)
next
  case (Some f)
  then obtain c where c: "c \<in> set all_commands" "CURRENT_MATCH_INFO R = match_info_of c" "cmd_function c = Some f"
    using assms(1) by (auto simp: info_ok_def no_match_info_def match_info_of_def)
  obtain pa e1 where pa: "parse_and_create_args (pcre_of I) args (argregex (rinfo c)) (groupnames (rinfo c))
      (num_groups (rinfo c)) (unk_num_args (rinfo c)) e = Inr (pa, e1)"
    using r by (auto simp: prepare_and_call_cmdfunc_def Let_def c(2) match_info_of_def c(3) bind_run_Inr)
  show ?thesis
  proof (cases "e1 = None \<and> pa \<noteq> None")
    case True
    then obtain a where "call_parsed I (match_info_of c) c f a R H out e1 = Inr oc"
      using r pa by (auto simp: prepare_and_call_cmdfunc_def Let_def c(2) match_info_of_def c(3))
    from call_parsed_idle [OF c(1,3) assms(2) this p] show ?thesis .
  next
    case False
    with r pa show ?thesis
      by (auto simp: prepare_and_call_cmdfunc_def Let_def c(2) match_info_of_def c(3) split: if_splits option.splits)
  qed
qed

lemma carry_out_idle:
  assumes "info_ok R" "nothing_debugged (ses H)" "carry_out I command fd R H out e = Inr oc" "pid (ses (o_shell oc)) = - 1"
  shows "target_of (ses (o_shell oc)) = target_of (ses H) \<and> info_ok (o_line oc)"
proof (cases "\<exists>prev args. fd = Found prev args \<and> 1 < length prev")
  case True
  with assms(1,3) show ?thesis by (auto simp: carry_out_def)
next
  case False
  then obtain args e1 where "prepare_and_call_cmdfunc I args R H out e1 = Inr oc"
    using assms(3) by (auto simp: carry_out_def split: found.splits if_splits)
  from prepare_idle [OF assms(1,2) this assms(4)] show ?thesis .
qed

lemma expand_aliases_ok: "expand_aliases command R = Inr (c, R1) \<Longrightarrow> info_ok R \<Longrightarrow> info_ok R1"
  by (auto simp: expand_aliases_def Let_def bind_run_Inr split: option.splits prod.splits if_splits)

lemma command_idle:
  assumes R: "info_ok R" and n: "nothing_debugged (ses H)" and r: "do_cmdline_command I line u R H out e = Inr (cp, oc)"
    and p: "pid (ses (o_shell oc)) = - 1"
  shows "target_of (ses (o_shell oc)) = target_of (ses H) \<and> info_ok (o_line oc)"
proof -
  let ?uc = "strclean line"
  show ?thesis
  proof (cases "?uc \<noteq> [] \<and> hd ?uc = CHR ''!''")
    case True
    with r R show ?thesis by (auto simp: do_cmdline_command_def Let_def split: prod.splits)
  next
    case False
    let ?R0 = "R\<lparr>rl_line_buffer := ?uc\<rparr>"
    from r False obtain cmd R1 where a: "expand_aliases ?uc ?R0 = Inr (cmd, R1)"
      unfolding do_cmdline_command_def Let_def if_not_P [OF False] by (auto simp: bind_run_Inr)
    let ?ws = "tokens cmd" let ?rc = "randcommand (pad_words (rand_of I) ?ws)"
    let ?R2 = "if ?ws = [] then R1 else R1\<lparr>rl_line_buffer := ?rc, LINE_MODIFIED := True\<rparr>"
    have i2: "info_ok ?R2" using expand_aliases_ok [OF a] R by simp
    from r obtain fd R3 oc1 where m: "match_tokens I (if ?ws = [] then [] else tokens ?rc) True [] ?R2 = Inr (fd, R3)"
      and c: "carry_out I ?uc fd R3 H out e = Inr oc1"
      and o: "oc = oc1\<lparr>o_line := (o_line oc1)\<lparr>rl_line_buffer := (if u then ?uc else []), LINE_MODIFIED := False\<rparr>\<rparr>"
      unfolding do_cmdline_command_def Let_def if_not_P [OF False] a bind_run.simps prod.case by (auto simp: bind_run_Inr)
    have "pid (ses (o_shell oc1)) = - 1" using p by (simp add: o)
    from carry_out_idle [OF match_tokens_ok [OF m i2] n c this] show ?thesis by (simp add: o)
  qed
qed

text \<open>Lines, one after another, at the prompt.\<close>

fun enter_lines :: "'k ienv \<Rightarrow> string list \<Rightarrow> 'k top \<Rightarrow> 'k top run" where
  "enter_lines I [] P = Inr P"
| "enter_lines I (l # ls) P = bind_run (linecb I l P) (\<lambda>P1. if quit P1 \<or> pid (ses (sh P1)) \<noteq> - 1 then Inr P1 else enter_lines I ls P1)"

lemma line_idle:
  assumes "info_ok (rl P)" "nothing_debugged (ses (sh P))" "linecb I l P = Inr P1" "pid (ses (sh P1)) = - 1"
  shows "target_of (ses (sh P1)) = target_of (ses (sh P)) \<and> info_ok (rl P1)"
proof -
  obtain cp oc where "do_cmdline_command I (if l = [] \<and> prevline P \<noteq> None then the (prevline P) else l) True (rl P) (sh P) None None = Inr (cp, oc)"
    and "sh P1 = o_shell oc" "rl P1 = o_line oc"
    using assms(3) by (auto simp: linecb_def Let_def bind_run_Inr)
  with command_idle [OF assms(1,2)] assms(4) show ?thesis by auto
qed

lemma lines_idle:
  assumes "enter_lines I ls P = Inr P1" "info_ok (rl P)" "nothing_debugged (ses (sh P))" "pid (ses (sh P1)) = - 1"
  shows "target_of (ses (sh P1)) = target_of (ses (sh P))"
  using assms
proof (induction ls arbitrary: P)
  case (Cons l ls)
  then obtain P2 where l: "linecb I l P = Inr P2" by (auto simp: bind_run_Inr)
  show ?case
  proof (cases "quit P2 \<or> pid (ses (sh P2)) \<noteq> - 1")
    case True
    with Cons.prems l have "P1 = P2" by auto
    with line_idle [OF Cons.prems(2,3) l] Cons.prems(4) show ?thesis by simp
  next
    case False
    with Cons.prems l have e: "enter_lines I ls P2 = Inr P1" by auto
    from False line_idle [OF Cons.prems(2,3) l] have t: "target_of (ses (sh P2)) = target_of (ses (sh P))" "info_ok (rl P2)" by auto
    moreover have "nothing_debugged (ses (sh P2))"
      using Cons.prems(3) t(1) False by (auto simp: nothing_debugged_def target_of_def)
    ultimately show ?thesis using Cons.IH [OF e] Cons.prems(4) by simp
  qed
qed simp

end
