(* ===== verification/SampleCmdline.thy ===== *)
theory SampleCmdline
  imports Detached SampleCommands
begin

text \<open>
  An environment for the lines of input, and an executable in memory: a debugger without a target, a readline without
  display, a random number generator that always gives zero, and expressions that match nothing.
\<close>

definition sample_aenv :: "(u64 \<Rightarrow> u8) aenv" where
  "sample_aenv = \<lparr>procs = (\<lambda>k. Procs []), waits = [], task_for_pid = (\<lambda>p. (KERN_FAILURE, 0)), regions = image_regions,
     dsc_open = False, dsc_mmap_error = None, dyld_infos_fail = False, pt_attach = (\<lambda>k p. k)\<rparr>"

definition sample_pcre :: pcre where
  "sample_pcre = \<lparr>compile_error = (\<lambda>p. None), name_number = (\<lambda>p g. - 1),
     match_at = (\<lambda>p s n. \<lparr>mrc = - 1, by_number = (\<lambda>i. None), by_name = (\<lambda>g. None), match_end = n\<rparr>)\<rparr>"

definition sample_ienv :: "(u64 \<Rightarrow> u8) ienv" where
  "sample_ienv = \<lparr>ten = frame_env, cen = sample_cenv, aen = sample_aenv, pcre_of = sample_pcre, lcd_of = (\<lambda>t ms. t),
     display_matches = (\<lambda>ns n. []), rand_of = (\<lambda>i. 0), bin_sh = (\<lambda>c. Sh_exited 0), dwarf_error = (\<lambda>f. None), own_pid = 1,
     kqueue_ok = True, junk_int = 0\<rparr>"

definition sample_shell :: "(u64 \<Rightarrow> u8) shell" where
  "sample_shell = \<lparr>ses = (frame_sess (\<lambda>_. 0))\<lparr>pid := - 1\<rparr>, aslr_slide = 0, eval_cnt = 0, currently_tracing = False, tracing_disabled = False\<rparr>"

definition typed :: "string \<Rightarrow> rline" where
  "typed s = \<lparr>rl_line_buffer = s, IS_HELP_COMMAND = False, LINE_MODIFIED = False, CURRENT_MATCH_INFO = no_match_info\<rparr>"

definition sample_top :: "(u64 \<Rightarrow> u8) top" where
  "sample_top = \<lparr>rl = typed [], sh = sample_shell, prevline = None, history = [], quit = False, printed = []\<rparr>"

lemma sample_idle: "info_ok (rl sample_top)" "nothing_debugged (ses (sh sample_top))"
  by (simp_all add: sample_top_def typed_def info_ok_def nothing_debugged_def sample_shell_def frame_sess_def sample_dbg_def)

lemma starting_cont: "starting ''cont'' COMMANDS = [continue_cmd]"
  by (simp add: starting_def COMMANDS_def cmd_defs make_defs)

lemma expand_b: "expand_aliases ''b list'' (typed ''b list'') = Inr (''breakpoint list'', typed ''breakpoint list'')"
  by (simp add: expand_aliases_def COMMANDS_def cmd_defs make_defs strcut_def strins_def substr_def blit_def cstr_def typed_def Let_def)

lemma tokens_b: "tokens ''breakpoint list'' = [''breakpoint'', ''list'']"
  by code_simp

section \<open>Two lines\<close>

definition list_cmd :: dbg_cmd where "list_cmd = subcmds breakpoint_cmd ! 1"

lemma starting_words: "starting ''breakpoint'' COMMANDS = [breakpoint_cmd]" "starting ''list'' (subcmds breakpoint_cmd) = [list_cmd]"
  "starting ''xyz'' COMMANDS = []"
  by (simp_all add: starting_def COMMANDS_def cmd_defs make_defs list_cmd_def)

lemma tokens_xyz: "tokens ''xyz'' = [''xyz'']" "strclean ''xyz'' = ''xyz''" "strclean ''b list'' = ''b list''" "strclean [] = []"
  by code_simp+

lemma pads: "pad_words (rand_of sample_ienv) (tokens ''breakpoint list'') \<noteq> []" "distinct (pad_words (rand_of sample_ienv) (tokens ''breakpoint list''))"
  "distinct (pad_words (rand_of sample_ienv) (tokens ''xyz''))"
  by (simp_all add: tokens_b tokens_xyz pad_words_def)

lemma sample_list:
  "do_cmdline_command sample_ienv ''b list'' True (typed []) sample_shell None None =
   Inr (''b list'', \<lparr>o_result = CMD_FAILURE, o_shell = sample_shell, o_line = typed ''b list'', o_force = False, o_out = None, o_error = Some ''no breakpoints''\<rparr>)"
proof -
  have a: "expand_aliases ''b list'' ((typed [])\<lparr>rl_line_buffer := ''b list''\<rparr>) = Inr (''breakpoint list'', typed ''breakpoint list'')"
    using expand_b by (simp add: typed_def)
  have r: "resolve (tokens ''breakpoint list'') = Names list_cmd []" by (simp add: tokens_b starting_words)
  have l: "cmd_function list_cmd = Some F_breakpoint_list" "audit_function list_cmd = None" by (simp_all add: list_cmd_def breakpoint_cmd_def make_defs)
  have m: "do_cmdline_command sample_ienv ''b list'' True (typed []) sample_shell None None =
    bind_run (by_meaning sample_ienv ''b list'' (resolve (tokens ''breakpoint list''))
        ((typed ''breakpoint list'')\<lparr>rl_line_buffer := randcommand (pad_words (rand_of sample_ienv) (tokens ''breakpoint list'')), LINE_MODIFIED := True\<rparr>)
        sample_shell None None)
      (\<lambda>oc. Inr (''b list'', reset_line True ''b list'' oc))"
    by (rule line_by_meaning [OF tokens_xyz(3) _ a _ _ pads(2)]) (simp_all add: tokens_b typed_def isblank_def)
  have n: "num_breakpoints (db (ses sample_shell)) = 0" "sample_shell\<lparr>ses := ses sample_shell\<rparr> = sample_shell"
    by (simp_all add: sample_shell_def frame_sess_def sample_dbg_def)
  show ?thesis
    unfolding m r
    by (simp add: by_meaning_def prepare_and_call_cmdfunc_def args_text_def match_info_of_def l Let_def parse_and_create_args_def
        call_parsed_def audited_def in_session_def cmdfunc_breakpoint_list_def reset_line_def reset_matchedcmdinfo_def n typed_def)
qed

lemma sample_unknown:
  "\<exists>oc. do_cmdline_command sample_ienv ''xyz'' True (typed ''b list'') sample_shell None None = Inr (''xyz'', oc) \<and> o_shell oc = sample_shell"
proof -
  have a: "expand_aliases ''xyz'' ((typed ''b list'')\<lparr>rl_line_buffer := ''xyz''\<rparr>) = Inr (''xyz'', typed ''xyz'')"
    by (simp add: expand_aliases_def COMMANDS_def cmd_defs make_defs typed_def)
  have r: "resolve (tokens ''xyz'') = Unknown" by (simp add: tokens_xyz starting_words)
  have m: "do_cmdline_command sample_ienv ''xyz'' True (typed ''b list'') sample_shell None None =
    bind_run (by_meaning sample_ienv ''xyz'' (resolve (tokens ''xyz''))
        ((typed ''xyz'')\<lparr>rl_line_buffer := randcommand (pad_words (rand_of sample_ienv) (tokens ''xyz'')), LINE_MODIFIED := True\<rparr>)
        sample_shell None None)
      (\<lambda>oc. Inr (''xyz'', reset_line True ''xyz'' oc))"
    by (rule line_by_meaning [OF tokens_xyz(2) _ a _ _ pads(3)]) (simp_all add: tokens_xyz typed_def isblank_def)
  show ?thesis unfolding m r by (simp add: by_meaning_def reset_line_def)
qed

lemma sample_lines: "\<exists>P1. enter_lines sample_ienv [''b list'', ''xyz''] sample_top = Inr P1 \<and> pid (ses (sh P1)) = - 1"
proof -
  obtain oc where u: "do_cmdline_command sample_ienv ''xyz'' True (typed ''b list'') sample_shell None None = Inr (''xyz'', oc)" "o_shell oc = sample_shell"
    using sample_unknown by blast
  then show ?thesis
    by (simp add: linecb_def sample_top_def sample_list Let_def) (simp add: sample_shell_def)
qed

end
