(* ===== verification/Image.thy ===== *)
theory Image
  imports Symbols Procutils
begin

text \<open>
  The tables of symbols of the target's images, \<^verbatim>\<open>source/symbol/image.c\<close> and \<^verbatim>\<open>source/symbol/scache.c\<close>: the load
  commands of an image, the starts of its functions, the names of its symbol table or of the shared cache, and the
  images of a task. Structures of the system are read at the offsets its headers give them.
\<close>

section \<open>The environment\<close>

text \<open>
  The lists of \<^verbatim>\<open>nlist\<close> structures and of the cache's entries are sorted and searched by the C library; \<open>image_fresh\<close> is
  what lies in a new block; \<open>file_of\<close> are the files, \<open>dyld_info\<close> the answer of \<^verbatim>\<open>task_info\<close>.
\<close>

record nlistw =
  n_strx :: u32
  n_type :: u8
  n_sect :: u8
  n_value :: u64
  n_str :: "string option"

record dsc_wrapper =
  entry_off :: u64
  dylib_path :: string

record 'k image_env =
  image_fresh :: "nat \<Rightarrow> u8 list"
  file_of :: "string \<Rightarrow> u8 list option"
  dyld_info :: "'k \<Rightarrow> u32 \<Rightarrow> u64 option"
  infos_size :: u64
  sort_nlists :: "(nlistw vptr \<Rightarrow> nlistw vptr \<Rightarrow> int) \<Rightarrow> nlistw vptr list \<Rightarrow> nlistw vptr list"
  search_nlists :: "(nlistw vptr \<Rightarrow> nlistw vptr \<Rightarrow> int) \<Rightarrow> nlistw \<Rightarrow> nlistw vptr list \<Rightarrow> nat option"
  sort_paths :: "(dsc_wrapper vptr \<Rightarrow> dsc_wrapper vptr \<Rightarrow> int) \<Rightarrow> dsc_wrapper vptr list \<Rightarrow> dsc_wrapper vptr list"
  search_paths :: "(dsc_wrapper vptr \<Rightarrow> dsc_wrapper vptr \<Rightarrow> int) \<Rightarrow> dsc_wrapper \<Rightarrow> dsc_wrapper vptr list \<Rightarrow> nat option"
  sym_fresh :: sym
  entry_fresh :: dbg_sym_entry

text \<open>A field of a block, or of the shared cache \<^verbatim>\<open>DSCDATA\<close>, which may not be mapped.\<close>

definition blk :: "nat \<Rightarrow> nat \<Rightarrow> u8 list \<Rightarrow> u64 run" where
  "blk off n bs = (if off + n \<le> length bs then Inr (field off n bs) else Inl OutOfBounds)"

definition dsc :: "u64 \<Rightarrow> nat \<Rightarrow> u8 list option \<Rightarrow> u64 run" where
  "dsc off n D = (case D of None \<Rightarrow> Inl NullDeref | Some bs \<Rightarrow> blk (unat off) n bs)"

text \<open>The text a pointer into the cache points to.\<close>

definition dsc_text :: "u64 \<Rightarrow> u8 list option \<Rightarrow> string" where
  "dsc_text off D = map (\<lambda>b. char_of (unat b)) (takeWhile (\<lambda>b. b \<noteq> 0) (drop (unat off) (case D of None \<Rightarrow> [] | Some bs \<Rightarrow> bs)))"

definition chars :: "string \<Rightarrow> u8 list" where
  "chars s = map (\<lambda>c. of_nat (of_char c)) s"

definition inserted :: "'a array \<Rightarrow> 'a \<Rightarrow> 'a array run" where
  "inserted a x = bind_run (array_insert (Some a) (Some x)) (\<lambda>(_, r). case r of None \<Rightarrow> Inl NullDeref | Some a1 \<Rightarrow> Inr a1)"

definition shrunk :: "'a array \<Rightarrow> 'a array" where
  "shrunk a = (case snd (array_shrink_to_fit (Some a)) of None \<Rightarrow> a | Some a1 \<Rightarrow> a1)"

definition sorted_array :: "('a vptr list \<Rightarrow> 'a vptr list) \<Rightarrow> 'a array \<Rightarrow> 'a array" where
  "sorted_array srt a = (case snd (array_qsort srt (Some a)) of None \<Rightarrow> a | Some a1 \<Rightarrow> a1)"

section \<open>The shared cache\<close>

record my_dsc_mapping =
  file_start :: u64
  file_end :: u64
  vm_start :: u64
  vm_end :: u64

definition dsc_mapping_at :: "u8 list option \<Rightarrow> u64 \<Rightarrow> u64 \<Rightarrow> my_dsc_mapping run" where
  "dsc_mapping_at D sl off =
     bind_run (dsc off 8 D) (\<lambda>address. bind_run (dsc (off + 8) 8 D) (\<lambda>sz. bind_run (dsc (off + 16) 8 D) (\<lambda>fileoff.
       Inr \<lparr>file_start = fileoff, file_end = fileoff + sz, vm_start = address + sl, vm_end = address + sl + sz\<rparr>)))"

definition get_dsc_mappings :: "u8 list option \<Rightarrow> u64 \<Rightarrow> my_dsc_mapping list run" where
  "get_dsc_mappings D sl =
     (if D = None then Inr []
      else bind_run (dsc 16 4 D) (\<lambda>mappingoff. bind_run (dsc 20 4 D) (\<lambda>mappingcnt.
        run_list (\<lambda>i ms. bind_run (dsc_mapping_at D sl (mappingoff + 32 * of_nat i)) (\<lambda>m. Inr (ms @ [m])))
          [0..<nat (sint (ucast mappingcnt :: u32))] [])))"

definition is_dsc_image :: "u64 \<Rightarrow> my_dsc_mapping list \<Rightarrow> bool" where
  "is_dsc_image vmoffset ms = list_ex (\<lambda>m. vm_start m \<le> vmoffset \<and> vmoffset < vm_end m) ms"

definition create_sym_entry_for_dsc_image :: "dbg_sym_entry \<Rightarrow> dbg_sym_entry" where
  "create_sym_entry_for_dsc_image garbage = create_sym_entry garbage 0 True"

section \<open>Load commands\<close>

definition LC_SYMTAB :: u64 where "LC_SYMTAB = 0x2"
definition LC_ID_DYLIB :: u64 where "LC_ID_DYLIB = 0xD"
definition LC_FUNCTION_STARTS :: u64 where "LC_FUNCTION_STARTS = 0x26"

text \<open>The commands are copied. The number of the section \<^verbatim>\<open>__text\<close> is counted by the segments before \<^verbatim>\<open>__TEXT\<close>.\<close>

record found_cmds =
  symtab_cmd :: "u8 list option"
  text_seg_cmd :: "u8 list option"
  fxn_start_cmd :: "u8 list option"
  section_num :: int

definition copied_cmd :: "u8 list \<Rightarrow> nat \<Rightarrow> u8 list run" where
  "copied_cmd b off = bind_run (blk (off + 4) 4 b) (\<lambda>sz.
     if off + unat sz \<le> length b then Inr (take (unat sz) (drop off b)) else Inl OutOfBounds)"

definition seg_start :: "u8 list \<Rightarrow> nat \<Rightarrow> u8 list run" where
  "seg_start b off = (if off + 14 \<le> length b then Inr (take 6 (drop (off + 8) b)) else Inl OutOfBounds)"

definition take_cmd :: "u8 list \<Rightarrow> nat \<Rightarrow> u64 \<Rightarrow> found_cmds \<Rightarrow> found_cmds run" where
  "take_cmd b off cmd F =
     (if cmd = LC_SYMTAB then bind_run (copied_cmd b off) (\<lambda>c. Inr (F\<lparr>symtab_cmd := Some c\<rparr>))
      else if cmd = LC_SEGMENT_64 then bind_run (seg_start b off) (\<lambda>s.
        if s = chars ''__TEXT'' then bind_run (copied_cmd b off) (\<lambda>c. Inr (F\<lparr>text_seg_cmd := Some c\<rparr>)) else Inr F)
      else if cmd = LC_FUNCTION_STARTS then bind_run (copied_cmd b off) (\<lambda>c. Inr (F\<lparr>fxn_start_cmd := Some c\<rparr>))
      else Inr F)"

definition count_section :: "u8 list \<Rightarrow> nat \<Rightarrow> u64 \<Rightarrow> found_cmds \<Rightarrow> found_cmds run" where
  "count_section b off cmd F =
     (if cmd = LC_SEGMENT_64 \<and> text_seg_cmd F = None then bind_run (seg_start b off) (\<lambda>s.
        Inr (if take 4 s \<noteq> chars ''__PA'' \<and> drop 4 s \<noteq> chars ''GE'' then F\<lparr>section_num := section_num F + 1\<rparr> else F))
      else Inr F)"

fun cmds_from :: "u8 list \<Rightarrow> nat \<Rightarrow> nat \<Rightarrow> found_cmds \<Rightarrow> found_cmds run" where
  "cmds_from b 0 off F = Inr F"
| "cmds_from b (Suc n) off F =
     bind_run (blk off 4 b) (\<lambda>cmd. bind_run (take_cmd b off cmd F) (\<lambda>F1.
       if symtab_cmd F1 \<noteq> None \<and> text_seg_cmd F1 \<noteq> None \<and> fxn_start_cmd F1 \<noteq> None then Inr F1
       else bind_run (count_section b off cmd F1) (\<lambda>F2. bind_run (blk (off + 4) 4 b) (\<lambda>sz. cmds_from b n (off + unat sz) F2))))"

definition get_cmds :: "'k mach \<Rightarrow> 'k image_env \<Rightarrow> 'k \<Rightarrow> u64 \<Rightarrow> found_cmds option run" where
  "get_cmds M E k image_load_addr =
     bind_run (read_into M k image_load_addr 32 (replicate 32 0)) (\<lambda>(r, hdr).
       if r \<noteq> KERN_SUCCESS then Inr None
       else bind_run (read_into M k (image_load_addr + 32) (field 20 4 hdr) (image_fresh E (unat (field 20 4 hdr)))) (\<lambda>(r1, b).
         if r1 \<noteq> KERN_SUCCESS then Inr None
         else bind_run (cmds_from b (unat (field 16 4 hdr)) 0
             \<lparr>symtab_cmd = None, text_seg_cmd = None, fxn_start_cmd = None, section_num = 1\<rparr>) (\<lambda>F. Inr (Some F))))"

definition cmd_field :: "u8 list option \<Rightarrow> nat \<Rightarrow> nat \<Rightarrow> u64 run" where
  "cmd_field c off n = (case c of None \<Rightarrow> Inl NullDeref | Some bs \<Rightarrow> blk off n bs)"

section \<open>The starts of functions\<close>

text \<open>
  The shifted bits are an \<^verbatim>\<open>int\<close>, extended with its sign; a shift by 32 or more is undefined. The rest of the object is
  left, and the number of bytes read.
\<close>

fun uleb_from :: "u8 list \<Rightarrow> nat \<Rightarrow> u64 \<Rightarrow> (u64 \<times> u8 list) run" where
  "uleb_from [] sh val = Inl OutOfBounds"
| "uleb_from (b # bs) sh val =
     (if 32 \<le> sh then Inl BadShift
      else (let val1 = val OR scast (push_bit sh (ucast (b AND 0x7F) :: u32)) in
        if b < 0x80 then Inr (val1, bs) else uleb_from bs (sh + 7) val1))"

definition decode_uleb128 :: "u8 list \<Rightarrow> (u64 \<times> u8 list \<times> nat) run" where
  "decode_uleb128 bs = bind_run (uleb_from bs 0 0) (\<lambda>(v, rest). Inr (v, rest, length bs - length rest))"

lemma uleb_shorter: "uleb_from bs sh val = Inr (v, rest) \<Longrightarrow> length rest < length bs"
  by (induction bs sh val rule: uleb_from.induct) (auto simp: Let_def split: if_splits)

record lc_fxn_starts_entry =
  vmaddr :: u64
  fxn_len :: u32

text \<open>The length of a function is filled in when the next one is read, or at the end.\<close>

definition set_last_len :: "lc_fxn_starts_entry array \<Rightarrow> u64 \<Rightarrow> lc_fxn_starts_entry array run" where
  "set_last_len a n =
     (if alen a = 0 then Inr a
      else bind_run (item_at a (int (unat (alen a)) - 1)) (\<lambda>e.
        store_cell a (alen a - 1) (Some (e\<lparr>fxn_len := ucast n\<rparr>))))"

record fxn_state =
  total_fxn_len :: u64
  nextfxnstartaddr :: u64
  fxn_starts :: "lc_fxn_starts_entry array"

definition add_fxn :: "u64 \<Rightarrow> u64 \<Rightarrow> fxn_state \<Rightarrow> fxn_state run" where
  "add_fxn sl prevfxnlen S =
     (if prevfxnlen = 0 then Inr S
      else (let nxt = nextfxnstartaddr S + prevfxnlen in
        bind_run (set_last_len (fxn_starts S) prevfxnlen) (\<lambda>a. bind_run (inserted a \<lparr>vmaddr = nxt + sl, fxn_len = 0\<rparr>) (\<lambda>a1.
          Inr (S\<lparr>total_fxn_len := total_fxn_len S + prevfxnlen, nextfxnstartaddr := nxt, fxn_starts := a1\<rparr>)))))"

function fxn_loop :: "u64 \<Rightarrow> u8 list \<Rightarrow> int \<Rightarrow> fxn_state \<Rightarrow> fxn_state run" where
  "fxn_loop sl bs left S =
     (if left \<le> 0 then Inr S
      else bind_run (decode_uleb128 bs) (\<lambda>(v, rest, l). bind_run (add_fxn sl v S) (\<lambda>S1. fxn_loop sl rest (left - int l) S1)))"
  by pat_completeness auto
termination
  by (relation "measure (\<lambda>(sl, bs, left, S). length bs)") (auto simp: decode_uleb128_def bind_run_Inr dest!: uleb_shorter)

declare fxn_loop.simps [simp del]

text \<open>\<^verbatim>\<open>copy_file_contents\<close> in \<^verbatim>\<open>source/dbgio.c\<close>: the bytes read and the buffer, -1 when the file cannot be opened.\<close>

definition copy_file_contents :: "(string \<Rightarrow> u8 list option) \<Rightarrow> string \<Rightarrow> nat \<Rightarrow> u8 list \<Rightarrow> u64 \<times> u8 list" where
  "copy_file_contents files fname off buf =
     (case files fname of None \<Rightarrow> (- 1, buf)
      | Some f \<Rightarrow> (let bs = take (length buf) (drop off f) in (of_nat (length bs), bs @ drop (length bs) buf)))"

text \<open>The object the starts are read from, from their first byte.\<close>

definition fxn_bytes :: "'k image_env \<Rightarrow> string \<Rightarrow> u8 list option \<Rightarrow> bool \<Rightarrow> u64 \<Rightarrow> u64 \<Rightarrow> u8 list option run" where
  "fxn_bytes E img D is_dsc dataoff datasize =
     (if is_dsc then (case D of None \<Rightarrow> Inl NullDeref | Some bs \<Rightarrow> Inr (Some (drop (unat dataoff) bs)))
      else (case copy_file_contents (file_of E) img (unat dataoff) (image_fresh E (unat datasize)) of (r, b) \<Rightarrow>
        Inr (if r = - 1 then None else Some b)))"

definition read_lc_fxn_starts ::
    "'k mach \<Rightarrow> 'k image_env \<Rightarrow> 'k \<Rightarrow> u8 list option \<Rightarrow> string \<Rightarrow> u64 \<Rightarrow> u64 \<Rightarrow> bool \<Rightarrow> lc_fxn_starts_entry array option run" where
  "read_lc_fxn_starts M E k D img image_load_addr sl is_dsc =
     bind_run (get_cmds M E k image_load_addr) (\<lambda>c. case c of None \<Rightarrow> Inr None
       | Some F \<Rightarrow>
           bind_run (cmd_field (fxn_start_cmd F) 8 4) (\<lambda>dataoff. bind_run (cmd_field (fxn_start_cmd F) 12 4) (\<lambda>datasize.
           bind_run (fxn_bytes E img D is_dsc dataoff datasize) (\<lambda>ob. case ob of None \<Rightarrow> Inr None
             | Some bs \<Rightarrow>
                 bind_run (cmd_field (text_seg_cmd F) 24 8) (\<lambda>text_addr.
                 bind_run (fxn_loop sl bs (int (unat datasize))
                     \<lparr>total_fxn_len = 0, nextfxnstartaddr = text_addr, fxn_starts = array_new\<rparr>) (\<lambda>S.
                 if alen (fxn_starts S) = 0 then Inr (Some (fxn_starts S))
                 else bind_run (cmd_field (text_seg_cmd F) 32 8) (\<lambda>vmsize.
                   bind_run (set_last_len (fxn_starts S) (vmsize - total_fxn_len S)) (\<lambda>a. Inr (Some a)))))))))"

section \<open>The names\<close>

definition N_TYPE :: u8 where "N_TYPE = 0x0E"
definition N_SECT :: u8 where "N_SECT = 0x0E"

text \<open>Sixteen bytes of a symbol table; its address is slid.\<close>

definition create_nlist64_wrapper :: "u8 list \<Rightarrow> u64 \<Rightarrow> string option \<Rightarrow> nlistw" where
  "create_nlist64_wrapper ne sl str =
     \<lparr>n_strx = ucast (field 0 4 ne), n_type = ucast (field 4 1 ne), n_sect = ucast (field 5 1 ne), n_value = field 8 8 ne + sl,
      n_str = str\<rparr>"

definition strcmp :: "string \<Rightarrow> string \<Rightarrow> int" where
  "strcmp a b = (let n = length (takeWhile (\<lambda>(x, y). x = y) (zip a b));
     x = (if n < length a then of_char (a ! n) else 0); y = (if n < length b then of_char (b ! n) else 0) in x - y)"

definition wrappercmp :: "dsc_wrapper vptr \<Rightarrow> dsc_wrapper vptr \<Rightarrow> int" where
  "wrappercmp a b = (case (a, b) of (Some wa, Some wb) \<Rightarrow> strcmp (dylib_path wa) (dylib_path wb) | _ \<Rightarrow> 0)"

definition nlistwcmp :: "nlistw vptr \<Rightarrow> nlistw vptr \<Rightarrow> int" where
  "nlistwcmp a b =
     (case (a, b) of
        (Some na, Some nb) \<Rightarrow> if n_value na < n_value nb then - 1 else if n_value na = n_value nb then 0 else 1
      | _ \<Rightarrow> 0)"

definition dsc_nlist :: "u8 list option \<Rightarrow> u64 \<Rightarrow> u8 list run" where
  "dsc_nlist D off =
     (case D of None \<Rightarrow> Inl NullDeref
      | Some bs \<Rightarrow> if unat off + 16 \<le> length bs then Inr (take 16 (drop (unat off) bs)) else Inl OutOfBounds)"

text \<open>The names of the table of local symbols of the cache, and of the symbol table of an image in the cache.\<close>

definition add_local :: "u8 list option \<Rightarrow> u64 \<Rightarrow> int \<Rightarrow> u64 \<Rightarrow> u64 \<Rightarrow> nat \<Rightarrow> nlistw array \<Rightarrow> nlistw array run" where
  "add_local D sl nsect strings_offset nlist_start j ws =
     bind_run (dsc_nlist D (nlist_start + 16 * of_nat j)) (\<lambda>ne.
       if int (unat (field 5 1 ne)) = nsect
       then inserted ws (create_nlist64_wrapper ne sl (Some (dsc_text (strings_offset + field 0 4 ne) D))) else Inr ws)"

definition add_image_name :: "u8 list option \<Rightarrow> u64 \<Rightarrow> int \<Rightarrow> u64 \<Rightarrow> u64 \<Rightarrow> nat \<Rightarrow> nlistw array \<Rightarrow> nlistw array run" where
  "add_image_name D sl nsect stroff symoff j ws =
     bind_run (dsc_nlist D (symoff + 16 * of_nat j)) (\<lambda>ne.
     bind_run (dsc (stroff + field 0 4 ne) 1 D) (\<lambda>c.
       if c \<noteq> of_char (CHR ''<'') \<and> ucast (field 4 1 ne) AND N_TYPE = N_SECT \<and> int (unat (field 5 1 ne)) = nsect
       then inserted ws (create_nlist64_wrapper ne sl (Some (dsc_text (stroff + field 0 4 ne) D))) else Inr ws))"

definition dsc_entry_names ::
    "u8 list option \<Rightarrow> u64 \<Rightarrow> int \<Rightarrow> u8 list option \<Rightarrow> u64 \<Rightarrow> u64 \<Rightarrow> u64 \<Rightarrow> nlistw array \<Rightarrow> nlistw array run" where
  "dsc_entry_names D sl nsect stc nlist_offset strings_offset entry ws =
     bind_run (dsc (entry + 4) 4 D) (\<lambda>startidx. bind_run (dsc (entry + 8) 4 D) (\<lambda>cnt.
     bind_run (run_list (add_local D sl nsect strings_offset (nlist_offset + startidx * 16)) [0..<nat (sint (ucast cnt :: u32))] ws) (\<lambda>ws1.
     bind_run (cmd_field stc 12 4) (\<lambda>nsyms. bind_run (cmd_field stc 8 4) (\<lambda>symoff. bind_run (cmd_field stc 16 4) (\<lambda>stroff.
       run_list (add_image_name D sl nsect stroff symoff) [0..<unat nsyms] ws1))))))"

text \<open>A search among no entries succeeds and finds nothing.\<close>

definition dsc_names ::
    "'k image_env \<Rightarrow> u8 list option \<Rightarrow> string \<Rightarrow> u64 \<Rightarrow> int \<Rightarrow> u8 list option \<Rightarrow> dsc_wrapper array \<Rightarrow> nlistw array
     \<Rightarrow> nlistw array option run" where
  "dsc_names E D img sl nsect stc paths ws =
     bind_run (dsc 72 8 D) (\<lambda>lo. bind_run (dsc lo 4 D) (\<lambda>nlistoff. bind_run (dsc (lo + 8) 4 D) (\<lambda>stringsoff.
     bind_run (dsc (lo + 16) 4 D) (\<lambda>entriesoff.
       let found = array_bsearch (search_paths E wrappercmp) (Some paths) \<lparr>entry_off = 0, dylib_path = img\<rparr> in
       if fst found = ARRAY_KEY_NOT_FOUND then Inr None
       else (case snd found of None \<Rightarrow> Inl NullDeref
         | Some i \<Rightarrow> bind_run (item_at paths (int i)) (\<lambda>w.
             bind_run (dsc_entry_names D sl nsect stc (nlistoff + lo) (stringsoff + lo) (entry_off w) ws) (\<lambda>ws1. Inr (Some ws1))))))))"

text \<open>The symbols of an image of its own are read from the target, 512 bytes for each name.\<close>

definition wanted_symbol :: "int \<Rightarrow> u8 list \<Rightarrow> bool" where
  "wanted_symbol nsect ne \<longleftrightarrow> ucast (field 4 1 ne) AND N_TYPE = N_SECT \<and> int (unat (field 5 1 ne)) = nsect \<and> field 8 8 ne \<noteq> 0"

definition add_symtab_name :: "'k mach \<Rightarrow> 'k \<Rightarrow> u64 \<Rightarrow> int \<Rightarrow> u64 \<Rightarrow> u8 list \<Rightarrow> nat \<Rightarrow> nlistw array \<Rightarrow> nlistw array run" where
  "add_symtab_name M k sl nsect strtab_addr ns j ws =
     (let ne = take 16 (drop (16 * j) ns) in
      if length ne < 16 then Inl OutOfBounds
      else bind_run (read_into M k (strtab_addr + field 0 4 ne) 512 (replicate 512 0)) (\<lambda>(r, str).
        if r = KERN_SUCCESS \<and> hd str \<noteq> 0 \<and> wanted_symbol nsect ne
        then inserted ws (create_nlist64_wrapper ne sl None) else Inr ws))"

definition symtab_names ::
    "'k mach \<Rightarrow> 'k image_env \<Rightarrow> 'k \<Rightarrow> u64 \<Rightarrow> u64 \<Rightarrow> int \<Rightarrow> u8 list option \<Rightarrow> nlistw array \<Rightarrow> nlistw array option run" where
  "symtab_names M E k la sl nsect stc ws =
     bind_run (cmd_field stc 8 4) (\<lambda>symoff. bind_run (cmd_field stc 16 4) (\<lambda>stroff. bind_run (cmd_field stc 12 4) (\<lambda>nsyms.
     bind_run (read_into M k (symoff + la) (16 * nsyms) (image_fresh E (unat (16 * nsyms)))) (\<lambda>(r, ns).
       if r \<noteq> KERN_SUCCESS then Inr None
       else bind_run (run_list (add_symtab_name M k sl nsect (stroff + la) ns) [0..<unat nsyms] ws) (\<lambda>ws1. Inr (Some ws1))))))"

definition read_nlists ::
    "'k mach \<Rightarrow> 'k image_env \<Rightarrow> 'k \<Rightarrow> u8 list option \<Rightarrow> string \<Rightarrow> u64 \<Rightarrow> bool \<Rightarrow> found_cmds \<Rightarrow> dsc_wrapper array \<Rightarrow> nlistw array option run" where
  "read_nlists M E k D img image_load_addr is_dsc F paths =
     bind_run (cmd_field (text_seg_cmd F) 24 8) (\<lambda>text_addr.
       let sl = image_load_addr - text_addr in
       if is_dsc then dsc_names E D img sl (section_num F) (symtab_cmd F) paths array_new
       else symtab_names M E k image_load_addr sl (section_num F) (symtab_cmd F) array_new)"

section \<open>An image\<close>

text \<open>A function whose start is the address of a symbol is named by it.\<close>

definition add_function ::
    "'k image_env \<Rightarrow> bool \<Rightarrow> nlistw array \<Rightarrow> lc_fxn_starts_entry \<Rightarrow> int \<times> dbg_sym_entry \<Rightarrow> (int \<times> dbg_sym_entry) run" where
  "add_function E is_dsc ws e S =
     (case S of (cnt, entry) \<Rightarrow>
        (case snd (array_bsearch (search_nlists E nlistwcmp) (Some ws)
               \<lparr>n_strx = 0, n_type = 0, n_sect = 0, n_value = vmaddr e, n_str = None\<rparr>) of
           Some i \<Rightarrow> bind_run (item_at ws (int i)) (\<lambda>nw.
             add_symbol_to_entry (sym_fresh E) cnt entry (if is_dsc then 0 else sint (n_strx nw)) (n_value nw) (fxn_len e) NAMED_SYM
               (if is_dsc then n_str nw else None))
         | None \<Rightarrow> add_symbol_to_entry (sym_fresh E) cnt entry 0 (vmaddr e) (fxn_len e) UNNAMED_SYM None))"

definition add_functions ::
    "'k image_env \<Rightarrow> bool \<Rightarrow> nlistw array \<Rightarrow> lc_fxn_starts_entry array \<Rightarrow> int \<times> dbg_sym_entry \<Rightarrow> (int \<times> dbg_sym_entry) run" where
  "add_functions E is_dsc ws starts S =
     run_list (\<lambda>i S. bind_run (item_at starts (int i)) (\<lambda>e. add_function E is_dsc ws e S)) [0..<unat (alen starts)] S"

definition create_sym_entry_for_image ::
    "'k mach \<Rightarrow> 'k image_env \<Rightarrow> 'k \<Rightarrow> u8 list option \<Rightarrow> string \<Rightarrow> u64 \<Rightarrow> my_dsc_mapping list \<Rightarrow> dsc_wrapper array \<Rightarrow> int
     \<Rightarrow> (int \<times> dbg_sym_entry option) run" where
  "create_sym_entry_for_image M E k D img image_load_addr mappings paths cnt =
     (let is_dsc = is_dsc_image image_load_addr mappings in
      bind_run (get_cmds M E k image_load_addr) (\<lambda>c. case c of None \<Rightarrow> Inr (cnt, None)
       | Some F \<Rightarrow>
           bind_run (cmd_field (text_seg_cmd F) 24 8) (\<lambda>text_addr. let sl = image_load_addr - text_addr in
           bind_run (if is_dsc then Inr (create_sym_entry_for_dsc_image (entry_fresh E))
               else bind_run (cmd_field (symtab_cmd F) 16 4) (\<lambda>stroff. Inr (create_sym_entry (entry_fresh E) (stroff + image_load_addr) False))) (\<lambda>entry.
           bind_run (read_lc_fxn_starts M E k D img image_load_addr sl is_dsc) (\<lambda>r. case r of None \<Rightarrow> Inr (cnt, None)
             | Some starts \<Rightarrow>
                 bind_run (read_nlists M E k D img image_load_addr is_dsc F paths) (\<lambda>r1. case r1 of None \<Rightarrow> Inr (cnt, None)
                   | Some ws \<Rightarrow>
                       bind_run (add_functions E is_dsc (sorted_array (sort_nlists E nlistwcmp) (shrunk ws)) (shrunk starts)
                           (cnt, entry\<lparr>load_addr := image_load_addr\<rparr>)) (\<lambda>(cnt1, entry1). Inr (cnt1, Some entry1))))))))"

section \<open>The images of a task\<close>

datatype name_result = NAME_OK string | NAME_OOB | NAME_NOT_FOUND

text \<open>The command that names a library: the place of it, and whether it was found; the place behind the last otherwise.\<close>

fun id_dylib_from :: "u8 list option \<Rightarrow> nat \<Rightarrow> u64 \<Rightarrow> (u64 \<times> bool) run" where
  "id_dylib_from D 0 off = Inr (off, False)"
| "id_dylib_from D (Suc n) off =
     bind_run (dsc off 4 D) (\<lambda>cmd. if cmd = LC_ID_DYLIB then Inr (off, True)
       else bind_run (dsc (off + 4) 4 D) (\<lambda>sz. id_dylib_from D n (off + sz)))"

text \<open>The bytes that are left are counted in load commands, of eight bytes.\<close>

definition get_dylib_path :: "u8 list option \<Rightarrow> u64 \<Rightarrow> name_result run" where
  "get_dylib_path D dylib_offset =
     bind_run (dsc (dylib_offset + 16) 4 D) (\<lambda>ncmds.
     bind_run (id_dylib_from D (unat ncmds) (dylib_offset + 32)) (\<lambda>(off, found).
       if \<not> found then Inl NullDeref
       else bind_run (dsc (off + 8) 4 D) (\<lambda>nameoff. bind_run (dsc (dylib_offset + 20) 4 D) (\<lambda>sizeofcmds.
         let bytes_left = word_of_int ((sint (dylib_offset + 32 + sizeofcmds - off)) sdiv 8) :: u64 in
         Inr (if nameoff > bytes_left then NAME_OOB else NAME_OK (dsc_text (off + nameoff) D))))))"

definition stash_entry :: "u8 list option \<Rightarrow> u64 \<Rightarrow> nat \<Rightarrow> dsc_wrapper array \<Rightarrow> dsc_wrapper array run" where
  "stash_entry D entries_offset i a =
     (let off = entries_offset + 12 * of_nat i in
      bind_run (dsc off 4 D) (\<lambda>dyliboff. bind_run (get_dylib_path D dyliboff) (\<lambda>r. case r of
        NAME_OK nm \<Rightarrow> inserted a \<lparr>entry_off = off, dylib_path = nm\<rparr> | _ \<Rightarrow> Inr a)))"

definition stash_dsc_local_syms_entries :: "u8 list option \<Rightarrow> dsc_wrapper array \<Rightarrow> dsc_wrapper array run" where
  "stash_dsc_local_syms_entries D a =
     bind_run (dsc 72 8 D) (\<lambda>lo. bind_run (dsc (lo + 16) 4 D) (\<lambda>entriesoff. bind_run (dsc (lo + 20) 4 D) (\<lambda>cnt.
       run_list (stash_entry D (entriesoff + lo)) [0..<nat (sint (ucast cnt :: u32))] a)))"

text \<open>The text in a buffer, and its last component.\<close>

definition buffer_text :: "u8 list \<Rightarrow> string run" where
  "buffer_text b = (if 0 \<in> set b then Inr (map (\<lambda>b. char_of (unat b)) (takeWhile (\<lambda>b. b \<noteq> 0) b)) else Inl OutOfBounds)"

record images =
  all_image_infos :: "u8 list"
  dyld_info_array :: "u8 list"
  image_symbols :: "dbg_sym_entry list option"
  unnamed_cnt :: int

definition PATH_MAX :: nat where "PATH_MAX = 1024"

definition add_image ::
    "'k mach \<Rightarrow> 'k image_env \<Rightarrow> 'k \<Rightarrow> u8 list option \<Rightarrow> my_dsc_mapping list \<Rightarrow> dsc_wrapper array \<Rightarrow> u8 list \<Rightarrow> nat
     \<Rightarrow> int \<times> dbg_sym_entry list \<Rightarrow> (int \<times> dbg_sym_entry list) run" where
  "add_image M E k D mappings paths infos i S =
     (case S of (cnt, es) \<Rightarrow>
        bind_run (blk (24 * i + 8) 8 infos) (\<lambda>imgpath.
        bind_run (read_into M k imgpath (of_nat PATH_MAX) (replicate PATH_MAX 0)) (\<lambda>(_, fpath).
        bind_run (blk (24 * i) 8 infos) (\<lambda>image_load_address. bind_run (buffer_text fpath) (\<lambda>path.
        bind_run (create_sym_entry_for_image M E k D path image_load_address mappings paths cnt) (\<lambda>(cnt1, e).
          Inr (cnt1, case e of None \<Rightarrow> es | Some entry \<Rightarrow> es @ [entry\<lparr>imagename := after_last_slash path\<rparr>])))))))"

definition initialize_debuggee_dyld_all_image_infos ::
    "'k mach \<Rightarrow> 'k image_env \<Rightarrow> 'k \<Rightarrow> u32 \<Rightarrow> u8 list option \<Rightarrow> images \<Rightarrow> (int \<times> images) run" where
  "initialize_debuggee_dyld_all_image_infos M E k t D J =
     (case dyld_info E k t of None \<Rightarrow> Inr (1, J)
      | Some infoaddr \<Rightarrow>
          bind_run (read_into M k infoaddr (infos_size E) (all_image_infos J)) (\<lambda>(_, ai).
          let cnt = field 4 4 ai; sz = ucast (ucast (24 * cnt) :: u32) :: u64; J1 = J\<lparr>all_image_infos := ai\<rparr> in
          bind_run (read_into M k (field 8 8 ai) sz (image_fresh E (unat sz))) (\<lambda>(r, arr).
            let J2 = J1\<lparr>dyld_info_array := arr\<rparr> in
            if r \<noteq> KERN_SUCCESS then Inr (1, J2)
            else bind_run (get_dsc_mappings D (field 152 8 ai)) (\<lambda>mappings.
              bind_run (stash_dsc_local_syms_entries D array_new) (\<lambda>paths.
              bind_run (run_list (add_image M E k D mappings (sorted_array (sort_paths E wrappercmp) (shrunk paths)) arr) [0..<unat cnt]
                  (unnamed_cnt J2, [])) (\<lambda>(n, es).
                Inr (0, J2\<lparr>image_symbols := Some es, unnamed_cnt := n\<rparr>)))))))"

end
