(* ===== verification/ImageProof.thy ===== *)
theory ImageProof
  imports Image
begin

text \<open>
  The tables of symbols have one symbol for every function start an image lists, with its length, and it is named exactly
  when a symbol table has its address.
\<close>

section \<open>Numbers of variable length\<close>

fun uleb :: "nat \<Rightarrow> u8 list" where
  "uleb n = (if n < 128 then [of_nat n] else of_nat (128 + n mod 128) # uleb (n div 128))"

declare uleb.simps [simp del]

lemma low_bits: "(of_nat (n :: nat) :: u8) AND 0x7F = of_nat (n mod 128)"
proof -
  have "(0x7F :: u8) = mask 7" by (simp add: mask_eq_exp_minus_1)
  then have "(of_nat n :: u8) AND 0x7F = take_bit 7 (of_nat n)" by (simp only: take_bit_eq_mask)
  also have "\<dots> = of_nat (take_bit 7 n)" by (simp only: take_bit_of_nat)
  finally show ?thesis by (simp add: take_bit_eq_mod)
qed

lemma shifted_bits:
  assumes "m < 128" "m * 2 ^ sh < 2 ^ 31"
  shows "(scast (push_bit sh (ucast (of_nat m :: u8) :: u32)) :: u64) = of_nat (m * 2 ^ sh)"
proof -
  have u: "(ucast (of_nat m :: u8) :: u32) = of_nat m" using assms(1) by (simp add: unsigned_of_nat take_bit_nat_eq_self)
  have p: "push_bit sh (of_nat m :: u32) = of_nat (m * 2 ^ sh)" by (simp add: push_bit_of_nat push_bit_eq_mult)
  have s: "sint (of_nat (m * 2 ^ sh) :: u32) = int (m * 2 ^ sh)"
    using assms(2) by (subst signed_of_nat) (simp add: signed_take_bit_int_eq_self del: of_nat_mult)
  show ?thesis unfolding u p by (metis s of_int_of_nat_eq scast_eq word_of_int_eq_iff)
qed

lemma or_above:
  assumes "v < 2 ^ sh"
  shows "(of_nat v :: u64) OR of_nat (m * 2 ^ sh) = of_nat (v + m * 2 ^ sh)"
proof -
  have "v OR push_bit sh m = v + push_bit sh m"
  proof (rule disjunctive_add [symmetric])
    fix i
    have "take_bit sh v = v" using assms by (rule take_bit_nat_eq_self)
    then have "bit v i \<Longrightarrow> i < sh" by (metis bit_take_bit_iff)
    then show "\<not> bit v i \<or> \<not> bit (push_bit sh m) i" by (auto simp: bit_push_bit_iff)
  qed
  then show ?thesis by (metis of_nat_or_eq push_bit_eq_mult)
qed

lemma uleb_read:
  assumes "n * 2 ^ sh < 2 ^ 31" "v < 2 ^ sh" "sh < 32"
  shows "uleb_from (uleb n @ rest) sh (of_nat v) = Inr (of_nat (v + n * 2 ^ sh), rest)"
  using assms
proof (induction n arbitrary: sh v rule: uleb.induct)
  case (1 n)
  have m: "(n mod 128) * 2 ^ sh < 2 ^ 31"
    using 1(2) by (meson le_less_trans mod_less_eq_dividend mult_le_mono1)
  show ?case
  proof (cases "n < 128")
    case True
    have b: "(of_nat n :: u8) AND 0x7F = of_nat n" using low_bits [of n] True by simp
    have l: "(of_nat n :: u8) < 0x80" using True by (simp add: word_less_nat_alt unsigned_of_nat take_bit_nat_eq_self)
    show ?thesis using True 1(4) b l shifted_bits [OF True 1(2)] or_above [OF 1(3), of n] by (simp add: uleb.simps [of n])
  next
    case False
    have b: "(of_nat (128 + n mod 128) :: u8) AND 0x7F = of_nat (n mod 128)" using low_bits [of "128 + n mod 128"] by simp
    have l: "\<not> (of_nat (128 + n mod 128) :: u8) < 0x80"
      by (simp add: word_less_nat_alt unsigned_of_nat take_bit_nat_eq_self del: of_nat_add)
    have d: "n div 128 * 2 ^ (sh + 7) \<le> n * 2 ^ sh" by (simp add: power_add)
    have s7: "v + n mod 128 * 2 ^ sh < 2 ^ (sh + 7)"
    proof -
      have "n mod 128 * 2 ^ sh \<le> 127 * 2 ^ sh" by (rule mult_le_mono1) (simp add: less_Suc_eq_le [symmetric])
      moreover have "(2 :: nat) ^ (sh + 7) = 128 * 2 ^ sh" by (simp add: power_add)
      ultimately show ?thesis using 1(3) by linarith
    qed
    have "v + r * P + q * (128 * P) = v + (r + 128 * q) * P" for r q P :: nat by (simp add: algebra_simps)
    moreover have "n mod 128 + 128 * (n div 128) = n" "(2 :: nat) ^ (sh + 7) = 128 * 2 ^ sh" by (simp_all add: power_add)
    ultimately have e: "v + n mod 128 * 2 ^ sh + n div 128 * 2 ^ (sh + 7) = v + n * 2 ^ sh" by presburger
    have "1 \<le> n div 128" using False by simp
    then have "2 ^ (sh + 7) \<le> n div 128 * (2 :: nat) ^ (sh + 7)" by simp
    with d 1(2) have "(2 :: nat) ^ (sh + 7) < 2 ^ 31" by linarith
    then have sh: "sh + 7 < 32" using power_less_imp_less_exp [of "2 :: nat" "sh + 7" 31] by simp
    have IH: "uleb_from (uleb (n div 128) @ rest) (sh + 7) (of_nat (v + n mod 128 * 2 ^ sh)) = Inr (of_nat (v + n * 2 ^ sh), rest)"
      using 1(1) [OF False _ s7 sh] d 1(2) e by simp
    have n32: "\<not> 32 \<le> sh" and m128: "n mod 128 < 128" using 1(4) by simp_all
    show ?thesis
      unfolding uleb.simps [of n] if_not_P [OF False] append_Cons uleb_from.simps Let_def if_not_P [OF n32] b if_not_P [OF l]
        shifted_bits [OF m128 m] or_above [OF 1(3)]
      by (rule IH)
  qed
qed

lemma uleb_roundtrip:
  assumes "n < 2 ^ 31"
  shows "decode_uleb128 (uleb n @ rest) = Inr (of_nat n, rest, length (uleb n))"
  using uleb_read [of n 0 0 rest] assms by (simp add: decode_uleb128_def)

section \<open>Arrays\<close>

definition holds :: "'a array \<Rightarrow> 'a list \<Rightarrow> bool" where
  "holds a xs \<longleftrightarrow> array_list a = map Some xs \<and> unat (alen a) = length xs"

lemma holds_item:
  assumes "holds a xs" "i < length xs"
  shows "item_at a (int i) = Inr (xs ! i)"
proof -
  obtain b where b: "items a = Some b" "take (length xs) b = map Some xs"
    using assms by (auto simp: holds_def array_list_def split: option.splits)
  have "length (take (length xs) b) = length xs" unfolding b(2) by simp
  then have "i < length b" using assms(2) by simp
  moreover have "b ! i = Some (xs ! i)" using arg_cong [OF b(2), of "\<lambda>l. l ! i"] assms(2) by simp
  ultimately show ?thesis by (simp add: item_at_def b(1))
qed

lemma inserted_holds:
  assumes "array_tight a" "holds a xs" "length xs < 2 ^ 56"
  shows "\<exists>a1. inserted a x = Inr a1 \<and> array_tight a1 \<and> holds a1 (xs @ [x])"
proof -
  have l: "unat (alen a) < 2 ^ 56" using assms(2,3) by (simp add: holds_def)
  from array_insert_tight [OF assms(1) l, of "Some x"] obtain a1 where "array_insert (Some a) (Some x) = Inr (ARRAY_OK, Some a1)"
    "array_tight a1" "array_list a1 = array_list a @ [Some x]" "unat (alen a1) = unat (alen a) + 1" by blast
  with assms(2) show ?thesis by (auto simp: inserted_def holds_def)
qed

lemma new_holds: "holds array_new []" "array_tight array_new"
  using array_new_tight by (auto simp: holds_def array_new_def array_list_def)

lemma tight_items:
  assumes "array_tight a" "holds a xs" "xs \<noteq> []"
  obtains b where "items a = Some b" "length xs \<le> length b" "take (length xs) b = map Some xs"
proof -
  have "items a \<noteq> None" using assms(2,3) by (cases "items a") (simp_all add: holds_def array_list_def)
  then obtain b where b: "items a = Some b" by blast
  moreover have "take (length xs) b = map Some xs" using assms(2) b unfolding holds_def array_list_def by auto
  moreover from this have "length (take (length xs) b) = length xs" by simp
  then have "length xs \<le> length b" by simp
  ultimately show ?thesis using that by blast
qed

lemma holds_update:
  assumes "array_tight a" "holds a (xs @ [x])"
  shows "\<exists>a1. store_cell a (alen a - 1) (Some y) = Inr a1 \<and> array_tight a1 \<and> holds a1 (xs @ [y])"
proof -
  obtain b where b: "items a = Some b" "length (xs @ [x]) \<le> length b" "take (length (xs @ [x])) b = map Some (xs @ [x])"
    using tight_items [OF assms] by blast
  have l: "unat (alen a) = Suc (length xs)" using assms(2) by (simp add: holds_def)
  then have u: "unat (alen a - 1) = length xs"
    by (metis One_nat_def Suc_eq_plus1 add_diff_cancel_right' diff_Suc_1 le_add2 unat_1 unat_sub word_le_nat_alt)
  let ?a = "a\<lparr>items := Some (b[length xs := Some y])\<rparr>"
  have "store_cell a (alen a - 1) (Some y) = Inr ?a" using b(1,2) u by (simp add: store_cell_def)
  moreover have "array_tight ?a"
    using assms(1) b(1) by (simp add: array_tight_def array_ok_def)
  moreover have "take (Suc (length xs)) (b[length xs := Some y]) = map Some (xs @ [y])"
    using b(2,3) by (simp add: take_update_swap list_update_append)
  then have "holds ?a (xs @ [y])" by (simp add: holds_def array_list_def l)
  ultimately show ?thesis by blast
qed

lemma shrunk_holds:
  assumes "array_tight a" "holds a xs" "length xs < 2 ^ 56"
  shows "holds (shrunk a) xs"
proof (cases "xs = []")
  case True
  with assms show ?thesis
    by (simp add: holds_def shrunk_def array_shrink_to_fit_def array_list_def)
next
  case False
  have l: "alen a \<noteq> 0" using assms(2) False by (auto simp: holds_def)
  have "array_ok a" using assms(1) by (simp add: array_tight_def)
  from array_shrink_ok [OF this l] obtain a1 where "array_shrink_to_fit (Some a) = (ARRAY_OK, Some a1)" "array_list a1 = array_list a" by blast
  moreover from this have "alen a1 = alen a" by (auto simp: array_shrink_to_fit_def)
  ultimately show ?thesis using assms(2) by (simp add: shrunk_def holds_def)
qed

lemma sorted_holds:
  assumes "holds a xs" "srt (map Some xs) = map Some ys" "length ys = length xs"
  shows "holds (sorted_array srt a) ys"
proof (cases "items a")
  case None
  then have "xs = []" using assms(1) by (simp add: holds_def array_list_def)
  with assms None show ?thesis by (simp add: sorted_array_def array_qsort_def holds_def array_list_def)
next
  case (Some b)
  then have t: "take (length xs) b = map Some xs" using assms(1) unfolding holds_def array_list_def by auto
  then have "length (take (length xs) b) = length xs" by simp
  then show ?thesis using assms Some t by (simp add: sorted_array_def array_qsort_def holds_def array_list_def)
qed

section \<open>The starts of functions\<close>

text \<open>
  The table a list of distances describes: each function starts where the distances so far lead, and reaches to the next,
  the last one to the end of the segment.
\<close>

fun fxn_chain :: "u64 \<Rightarrow> u64 \<Rightarrow> u64 \<Rightarrow> lc_fxn_starts_entry \<Rightarrow> nat \<Rightarrow> nat list \<Rightarrow> lc_fxn_starts_entry list" where
  "fxn_chain sl a vmsize e tot [] = [e\<lparr>fxn_len := ucast (vmsize - of_nat tot)\<rparr>]"
| "fxn_chain sl a vmsize e tot (d # ds) =
     e\<lparr>fxn_len := of_nat d\<rparr> # fxn_chain sl a vmsize \<lparr>vmaddr = a + of_nat (tot + d) + sl, fxn_len = 0\<rparr> (tot + d) ds"

definition fxn_table :: "u64 \<Rightarrow> u64 \<Rightarrow> u64 \<Rightarrow> nat list \<Rightarrow> lc_fxn_starts_entry list" where
  "fxn_table sl a vmsize ds =
     (case ds of [] \<Rightarrow> [] | d # ds \<Rightarrow> fxn_chain sl a vmsize \<lparr>vmaddr = a + of_nat d + sl, fxn_len = 0\<rparr> d ds)"

lemma ucast_nat: "n < 2 ^ 64 \<Longrightarrow> (ucast (of_nat n :: u64) :: u32) = of_nat n"
  by (simp add: unsigned_of_nat take_bit_nat_eq_self)

lemma set_last_holds:
  assumes "array_tight a" "holds a (xs @ [e])"
  shows "\<exists>a1. set_last_len a n = Inr a1 \<and> array_tight a1 \<and> holds a1 (xs @ [e\<lparr>fxn_len := ucast n\<rparr>])"
proof -
  have l: "unat (alen a) = Suc (length xs)" using assms(2) by (simp add: holds_def)
  have "item_at a (int (length xs)) = Inr e" using holds_item [OF assms(2), of "length xs"] by simp
  moreover have "alen a \<noteq> 0" using l by auto
  moreover obtain a1 where "store_cell a (alen a - 1) (Some (e\<lparr>fxn_len := ucast n\<rparr>)) = Inr a1" "array_tight a1"
    "holds a1 (xs @ [e\<lparr>fxn_len := ucast n\<rparr>])" using holds_update [OF assms] by blast
  ultimately show ?thesis by (simp add: set_last_len_def l)
qed

definition after_fxns :: "u64 \<Rightarrow> nat \<Rightarrow> lc_fxn_starts_entry list \<Rightarrow> fxn_state \<Rightarrow> bool" where
  "after_fxns a tot xs S \<longleftrightarrow> total_fxn_len S = of_nat tot \<and> nextfxnstartaddr S = a + of_nat tot \<and> array_tight (fxn_starts S) \<and>
     holds (fxn_starts S) xs"

lemma add_fxn_more:
  assumes S: "after_fxns a tot (xs @ [e]) S" and d: "0 < d" "d < 2 ^ 31" and l: "Suc (length xs) < 2 ^ 56"
  shows "\<exists>S1. add_fxn sl (of_nat d) S = Inr S1 \<and>
    after_fxns a (tot + d) (xs @ [e\<lparr>fxn_len := of_nat d\<rparr>, \<lparr>vmaddr = a + of_nat (tot + d) + sl, fxn_len = 0\<rparr>]) S1"
proof -
  have nz: "(of_nat d :: u64) \<noteq> 0" using d by (simp add: word_of_nat_eq_0_iff) (auto dest: dvd_imp_le)
  have u: "(ucast (of_nat d :: u64) :: u32) = of_nat d" using ucast_nat [of d] d(2) by simp
  obtain a1 where a1: "set_last_len (fxn_starts S) (of_nat d) = Inr a1" "array_tight a1" "holds a1 (xs @ [e\<lparr>fxn_len := of_nat d\<rparr>])"
    using set_last_holds [of "fxn_starts S" xs e "of_nat d"] S u by (auto simp: after_fxns_def)
  obtain a2 where "inserted a1 \<lparr>vmaddr = a + of_nat (tot + d) + sl, fxn_len = 0\<rparr> = Inr a2" "array_tight a2"
    "holds a2 ((xs @ [e\<lparr>fxn_len := of_nat d\<rparr>]) @ [\<lparr>vmaddr = a + of_nat (tot + d) + sl, fxn_len = 0\<rparr>])"
    using inserted_holds [OF a1(2,3)] l by auto
  with a1(1) nz S show ?thesis by (simp add: add_fxn_def Let_def after_fxns_def add.assoc)
qed

lemma add_fxns:
  assumes "after_fxns a tot (xs @ [e]) S" "\<forall>d \<in> set ds. 0 < d \<and> d < 2 ^ 31" "Suc (length xs) + length ds < 2 ^ 56"
  shows "\<exists>S1 a1. run_list (\<lambda>d. add_fxn sl (of_nat d)) ds S = Inr S1 \<and> alen (fxn_starts S1) \<noteq> 0 \<and>
    set_last_len (fxn_starts S1) (vmsize - total_fxn_len S1) = Inr a1 \<and> array_tight a1 \<and> holds a1 (xs @ fxn_chain sl a vmsize e tot ds)"
  using assms
proof (induction ds arbitrary: tot xs e S)
  case Nil
  then obtain a1 where "set_last_len (fxn_starts S) (vmsize - total_fxn_len S) = Inr a1" "array_tight a1"
    "holds a1 (xs @ [e\<lparr>fxn_len := ucast (vmsize - of_nat tot)\<rparr>])"
    using set_last_holds [of "fxn_starts S" xs e "vmsize - of_nat tot"] by (auto simp: after_fxns_def)
  moreover have "alen (fxn_starts S) \<noteq> 0" using Nil.prems(1) by (auto simp: after_fxns_def holds_def)
  ultimately show ?case by simp
next
  case (Cons d ds)
  obtain S1 where S1: "add_fxn sl (of_nat d) S = Inr S1"
    "after_fxns a (tot + d) ((xs @ [e\<lparr>fxn_len := of_nat d\<rparr>]) @ [\<lparr>vmaddr = a + of_nat (tot + d) + sl, fxn_len = 0\<rparr>]) S1"
    using add_fxn_more [OF Cons.prems(1), of d sl] Cons.prems(2,3) by auto
  have l: "Suc (length (xs @ [e\<lparr>fxn_len := of_nat d\<rparr>])) + length ds < 2 ^ 56" using Cons.prems(3) by simp
  from Cons.IH [OF S1(2) _ l] Cons.prems(2) show ?case by (simp add: S1(1))
qed

lemma fxn_loop_run:
  assumes "\<forall>d \<in> set ds. d < 2 ^ 31"
  shows "fxn_loop sl (concat (map uleb ds) @ rest) (int (length (concat (map uleb ds)))) S =
    run_list (\<lambda>d. add_fxn sl (of_nat d)) ds S"
  using assms
proof (induction ds arbitrary: S)
  case Nil
  then show ?case by (simp add: fxn_loop.simps)
next
  case (Cons d ds)
  have "0 < length (uleb d)" by (simp add: uleb.simps [of d])
  then have "\<not> int (length (concat (map uleb (d # ds)))) \<le> 0" by (simp only: list.map concat.simps length_append)
  moreover have "decode_uleb128 (concat (map uleb (d # ds)) @ rest) = Inr (of_nat d, concat (map uleb ds) @ rest, length (uleb d))"
    using uleb_roundtrip [of d "concat (map uleb ds) @ rest"] Cons.prems by simp
  moreover have "fxn_loop sl (concat (map uleb ds) @ rest) (int (length (concat (map uleb (d # ds)))) - int (length (uleb d))) =
      run_list (\<lambda>d. add_fxn sl (of_nat d)) ds"
    by (rule ext) (use Cons.IH Cons.prems in simp)
  ultimately show ?case by (subst fxn_loop.simps) (simp only: if_False bind_run.simps prod.case run_list.simps)
qed

text \<open>The padding at the end of a table, zeros, adds nothing.\<close>

lemma add_fxns_pads:
  "run_list (\<lambda>d. add_fxn sl (of_nat d)) (ds @ replicate z 0) S = run_list (\<lambda>d. add_fxn sl (of_nat d)) ds S"
proof -
  have "run_list (\<lambda>d. add_fxn sl (of_nat d)) (replicate z (0 :: nat)) S = Inr S" for S by (induction z) (simp_all add: add_fxn_def)
  then show ?thesis by (induction ds arbitrary: S) (auto intro: bind_run_cong)
qed

lemma fxns_read:
  assumes "\<forall>d \<in> set ds. 0 < d \<and> d < 2 ^ 31" "length ds < 2 ^ 31" "ds \<noteq> []"
  shows "\<exists>S a1. fxn_loop sl (concat (map uleb (ds @ replicate z 0)) @ rest) (int (length (concat (map uleb (ds @ replicate z 0)))))
      \<lparr>total_fxn_len = 0, nextfxnstartaddr = a, fxn_starts = array_new\<rparr> = Inr S \<and> alen (fxn_starts S) \<noteq> 0 \<and>
    set_last_len (fxn_starts S) (vmsize - total_fxn_len S) = Inr a1 \<and> array_tight a1 \<and> holds a1 (fxn_table sl a vmsize ds)"
proof -
  have b: "\<forall>d \<in> set (ds @ replicate z 0). d < 2 ^ 31" using assms(1) by auto
  obtain d es where ds: "ds = d # es" using assms(3) by (cases ds) auto
  let ?S = "\<lparr>total_fxn_len = 0, nextfxnstartaddr = a, fxn_starts = array_new\<rparr>"
  have nz: "(of_nat d :: u64) \<noteq> 0" using assms(1) by (simp add: ds word_of_nat_eq_0_iff) (auto dest: dvd_imp_le)
  obtain a0 where a0: "inserted array_new \<lparr>vmaddr = a + of_nat d + sl, fxn_len = 0\<rparr> = Inr a0" "array_tight a0"
    "holds a0 ([] @ [\<lparr>vmaddr = a + of_nat d + sl, fxn_len = 0\<rparr>])"
    using inserted_holds [OF new_holds(2,1), of "\<lparr>vmaddr = a + of_nat d + sl, fxn_len = 0\<rparr>"] by auto
  have f: "add_fxn sl (of_nat d) ?S = Inr \<lparr>total_fxn_len = of_nat d, nextfxnstartaddr = a + of_nat d, fxn_starts = a0\<rparr>"
    using nz a0(1) by (simp add: add_fxn_def Let_def set_last_len_def array_new_def)
  have A: "after_fxns a d ([] @ [\<lparr>vmaddr = a + of_nat d + sl, fxn_len = 0\<rparr>]) \<lparr>total_fxn_len = of_nat d, nextfxnstartaddr = a + of_nat d, fxn_starts = a0\<rparr>"
    using a0 by (simp add: after_fxns_def)
  have m: "\<forall>d \<in> set es. 0 < d \<and> d < 2 ^ 31" "Suc (length ([] :: lc_fxn_starts_entry list)) + length es < 2 ^ 56"
    using assms(1,2) by (simp_all add: ds)
  from add_fxns [OF A m, of sl vmsize] f show ?thesis
    unfolding fxn_loop_run [OF b] add_fxns_pads by (simp add: ds fxn_table_def)
qed

section \<open>The symbols of an image\<close>

definition sorts_nlists :: "'k image_env \<Rightarrow> bool" where
  "sorts_nlists E \<longleftrightarrow> (\<forall>xs. None \<notin> set xs \<longrightarrow> mset (sort_nlists E nlistwcmp xs) = mset xs \<and>
     sorted_wrt (\<lambda>a b. nlistwcmp a b \<le> 0) (sort_nlists E nlistwcmp xs))"

definition searches_nlists :: "'k image_env \<Rightarrow> bool" where
  "searches_nlists E \<longleftrightarrow> (\<forall>xs key. None \<notin> set xs \<longrightarrow> sorted_wrt (\<lambda>a b. nlistwcmp a b \<le> 0) xs \<longrightarrow>
     (case search_nlists E nlistwcmp key xs of None \<Rightarrow> \<forall>x \<in> set xs. nlistwcmp (Some key) x \<noteq> 0
      | Some i \<Rightarrow> i < length xs \<and> nlistwcmp (Some key) (xs ! i) = 0))"

definition named_at :: "nlistw list \<Rightarrow> u64 \<Rightarrow> bool" where
  "named_at ns a \<longleftrightarrow> (\<exists>n \<in> set ns. n_value n = a)"

definition shows_fxn :: "(u64 \<Rightarrow> bool) \<Rightarrow> sym \<Rightarrow> lc_fxn_starts_entry \<Rightarrow> bool" where
  "shows_fxn P s t \<longleftrightarrow> sym_func_start s = vmaddr t \<and> sym_func_len s = fxn_len t \<and> (dsc_symname s \<noteq> UNNAMED_SYMBOL \<longleftrightarrow> P (vmaddr t))"

lemma found_name:
  assumes "searches_nlists E" "holds ws ns" "sorted_wrt (\<lambda>a b. nlistwcmp a b \<le> 0) (map Some ns)"
  shows "case snd (array_bsearch (search_nlists E nlistwcmp) (Some ws) key) of None \<Rightarrow> \<not> named_at ns (n_value key)
    | Some i \<Rightarrow> i < length ns \<and> n_value (ns ! i) = n_value key"
proof (cases "ns = []")
  case True
  then have "unat (alen ws) = 0" using assms(2) by (simp add: holds_def)
  then have "alen ws = 0" by (simp add: unat_eq_zero)
  with True show ?thesis by (simp add: array_bsearch_def array_empty_def named_at_def)
next
  case False
  have c: "nlistwcmp (Some key) (Some n) = 0 \<longleftrightarrow> n_value n = n_value key" for n by (auto simp: nlistwcmp_def)
  have ne: "alen ws \<noteq> 0" using assms(2) False by (auto simp: holds_def)
  have al: "array_list ws = map Some ns" using assms(2) by (simp add: holds_def)
  then obtain b where b: "items ws = Some b" "take (unat (alen ws)) b = map Some ns"
    using False by (cases "items ws") (simp_all add: array_list_def)
  have "None \<notin> set (map Some ns)" by auto
  with assms(1,3) have "case search_nlists E nlistwcmp key (map Some ns) of None \<Rightarrow> \<forall>x \<in> set (map Some ns). nlistwcmp (Some key) x \<noteq> 0
      | Some i \<Rightarrow> i < length (map Some ns) \<and> nlistwcmp (Some key) (map Some ns ! i) = 0"
    unfolding searches_nlists_def by blast
  then show ?thesis
    using ne b by (auto simp: array_bsearch_def array_empty_def c named_at_def split: option.splits)
qed

lemma add_symbol_holds:
  assumes "array_tight (syms entry)" "holds (syms entry) ss" "length ss < 2 ^ 56"
  shows "\<exists>cnt1 a. add_symbol_to_entry g cnt entry arg1 v l k nm = Inr (cnt1, entry\<lparr>syms := a\<rparr>) \<and> array_tight a \<and>
    holds a (ss @ [new_sym g cnt arg1 v l k nm])"
proof -
  have u: "unat (alen (syms entry)) < 2 ^ 56" using assms(2,3) by (simp add: holds_def)
  from array_insert_tight [OF assms(1) u, of "Some (new_sym g cnt arg1 v l k nm)"] assms(2) show ?thesis
    by (auto simp: add_symbol_to_entry_def holds_def)
qed

lemma add_function_ok:
  assumes E: "searches_nlists E" "dsc_symname (sym_fresh E) \<noteq> UNNAMED_SYMBOL"
    and ws: "holds ws ns" "sorted_wrt (\<lambda>a b. nlistwcmp a b \<le> 0) (map Some ns)" "is_dsc \<Longrightarrow> \<forall>n \<in> set ns. n_str n \<noteq> None"
    and en: "array_tight (syms entry)" "holds (syms entry) ss" "length ss < 2 ^ 56"
  shows "\<exists>cnt1 a s. add_function E is_dsc ws t (cnt, entry) = Inr (cnt1, entry\<lparr>syms := a\<rparr>) \<and> array_tight a \<and> holds a (ss @ [s]) \<and>
    shows_fxn (named_at ns) s t"
proof -
  let ?key = "\<lparr>n_strx = 0, n_type = 0, n_sect = 0, n_value = vmaddr t, n_str = None\<rparr>"
  note f = found_name [OF E(1) ws(1,2), of ?key]
  show ?thesis
  proof (cases "snd (array_bsearch (search_nlists E nlistwcmp) (Some ws) ?key)")
    case None
    then have "\<not> named_at ns (vmaddr t)" using f by simp
    then have "shows_fxn (named_at ns) (new_sym (sym_fresh E) cnt 0 (vmaddr t) (fxn_len t) UNNAMED_SYM None) t"
      by (simp add: shows_fxn_def new_sym_def)
    then show ?thesis using add_symbol_holds [OF en, of "sym_fresh E" cnt 0 "vmaddr t" "fxn_len t" UNNAMED_SYM None] None
      by (auto simp: add_function_def)
  next
    case (Some i)
    then have i: "i < length ns" "n_value (ns ! i) = vmaddr t" using f by simp_all
    let ?nw = "ns ! i"
    let ?nm = "if is_dsc then n_str ?nw else None"
    let ?x = "if is_dsc then 0 else sint (n_strx ?nw)"
    have "named_at ns (vmaddr t)" using i by (auto simp: named_at_def)
    moreover have "is_dsc \<Longrightarrow> n_str ?nw \<noteq> None" using ws(3) i(1) by auto
    ultimately have "shows_fxn (named_at ns) (new_sym (sym_fresh E) cnt ?x (n_value ?nw) (fxn_len t) NAMED_SYM ?nm) t"
      using i(2) E(2) by (auto simp: shows_fxn_def new_sym_def)
    moreover have "item_at ws (int i) = Inr ?nw" by (rule holds_item [OF ws(1) i(1)])
    moreover from add_symbol_holds [OF en] obtain cnt1 a where
      "add_symbol_to_entry (sym_fresh E) cnt entry ?x (n_value ?nw) (fxn_len t) NAMED_SYM ?nm = Inr (cnt1, entry\<lparr>syms := a\<rparr>)"
      "array_tight a" "holds a (ss @ [new_sym (sym_fresh E) cnt ?x (n_value ?nw) (fxn_len t) NAMED_SYM ?nm])" by blast
    ultimately show ?thesis unfolding add_function_def prod.case Some option.case by (simp only: bind_run.simps) blast
  qed
qed

lemma add_functions_ok:
  assumes E: "searches_nlists E" "dsc_symname (sym_fresh E) \<noteq> UNNAMED_SYMBOL"
    and ws: "holds ws ns" "sorted_wrt (\<lambda>a b. nlistwcmp a b \<le> 0) (map Some ns)" "is_dsc \<Longrightarrow> \<forall>n \<in> set ns. n_str n \<noteq> None"
    and st: "holds starts ts" and b: "n \<le> length ts" "n < 2 ^ 56"
    and en: "array_tight (syms entry)" "holds (syms entry) []"
  shows "\<exists>cnt1 a ss. run_list (\<lambda>i S. bind_run (item_at starts (int i)) (\<lambda>e. add_function E is_dsc ws e S)) [0..<n] (cnt, entry)
      = Inr (cnt1, entry\<lparr>syms := a\<rparr>) \<and> array_tight a \<and> holds a ss \<and> list_all2 (shows_fxn (named_at ns)) ss (take n ts)"
  using b
proof (induction n)
  case 0
  have "entry = entry\<lparr>syms := syms entry\<rparr>" by simp
  with en show ?case by (metis list_all2_Nil run_list.simps(1) take0 upt_0)
next
  case (Suc n)
  then obtain cnt1 a ss where I: "run_list (\<lambda>i S. bind_run (item_at starts (int i)) (\<lambda>e. add_function E is_dsc ws e S)) [0..<n] (cnt, entry)
      = Inr (cnt1, entry\<lparr>syms := a\<rparr>)" "array_tight a" "holds a ss" "list_all2 (shows_fxn (named_at ns)) ss (take n ts)" by auto
  have l: "length ss = n" using list_all2_lengthD [OF I(4)] Suc.prems by simp
  have it: "item_at starts (int n) = Inr (ts ! n)" using holds_item [OF st, of n] Suc.prems by simp
  have "array_tight (syms (entry\<lparr>syms := a\<rparr>))" "holds (syms (entry\<lparr>syms := a\<rparr>)) ss" "length ss < 2 ^ 56"
    using I(2,3) l Suc.prems by simp_all
  from add_function_ok [where is_dsc = is_dsc and t = "ts ! n" and cnt = cnt1, OF E ws this] obtain cnt2 a2 s where s:
    "add_function E is_dsc ws (ts ! n) (cnt1, entry\<lparr>syms := a\<rparr>) = Inr (cnt2, entry\<lparr>syms := a2\<rparr>)" "array_tight a2" "holds a2 (ss @ [s])"
    "shows_fxn (named_at ns) s (ts ! n)" by auto
  have ap: "run_list f (xs @ [x]) S = bind_run (run_list f xs S) (f x)" for f :: "nat \<Rightarrow> int \<times> dbg_sym_entry \<Rightarrow> (int \<times> dbg_sym_entry) run" and xs x S
  proof (induction xs arbitrary: S)
    case Nil
    then show ?case by (cases "f x S") simp_all
  next
    case (Cons y ys)
    then show ?case by (cases "f y S") simp_all
  qed
  have "list_all2 (shows_fxn (named_at ns)) (ss @ [s]) (take (Suc n) ts)"
    using I(4) s(4) Suc.prems by (simp add: take_Suc_conv_app_nth list_all2_appendI)
  then show ?case using I(1) s it by (auto simp: ap)
qed

section \<open>The names that are read\<close>

definition reads :: "bool \<Rightarrow> nlistw array \<Rightarrow> nat \<Rightarrow> bool" where
  "reads is_dsc ws n \<longleftrightarrow> (\<exists>ns. array_tight ws \<and> holds ws ns \<and> length ns \<le> n \<and> (is_dsc \<longrightarrow> (\<forall>x \<in> set ns. n_str x \<noteq> None)))"

lemma reads_new: "reads d array_new 0"
  using new_holds by (auto simp: reads_def)

lemma reads_inserted:
  assumes "reads d ws n" "inserted ws x = Inr ws1" "n < 2 ^ 56" "d \<Longrightarrow> n_str x \<noteq> None"
  shows "reads d ws1 (Suc n)"
proof -
  obtain ns where ns: "array_tight ws" "holds ws ns" "length ns \<le> n" "d \<longrightarrow> (\<forall>x \<in> set ns. n_str x \<noteq> None)"
    using assms(1) by (auto simp: reads_def)
  have "length ns < 2 ^ 56" using ns(3) assms(3) by linarith
  from inserted_holds [OF ns(1,2) this, of x] assms(2) have "array_tight ws1" "holds ws1 (ns @ [x])" by auto
  with ns(3,4) assms(4) show ?thesis unfolding reads_def by (intro exI [of _ "ns @ [x]"]) auto
qed

lemma reads_more: "reads d ws n \<Longrightarrow> n \<le> m \<Longrightarrow> reads d ws m"
  by (auto simp: reads_def)

lemma reads_list:
  assumes "run_list f xs ws = Inr ws1" "reads d ws n" "n + length xs < 2 ^ 56"
    and "\<And>x ws ws1 n. x \<in> set xs \<Longrightarrow> f x ws = Inr ws1 \<Longrightarrow> reads d ws n \<Longrightarrow> n < 2 ^ 56 \<Longrightarrow> reads d ws1 (Suc n)"
  shows "reads d ws1 (n + length xs)"
  using assms
proof (induction xs arbitrary: ws n)
  case (Cons x xs)
  then obtain ws2 where 2: "f x ws = Inr ws2" "run_list f xs ws2 = Inr ws1" by (auto simp: bind_run_Inr)
  have "reads d ws2 (Suc n)" using Cons.prems(4) [OF _ 2(1) Cons.prems(2)] Cons.prems(3) by simp
  moreover have "Suc n + length xs < 2 ^ 56" using Cons.prems(3) by simp
  ultimately have "reads d ws1 (Suc n + length xs)" by (rule Cons.IH [OF 2(2)]) (rule Cons.prems(4), auto)
  then show ?case by simp
qed simp

lemma field_small: "blk off 4 bs = Inr v \<Longrightarrow> unat v < 2 ^ 32"
proof -
  assume "blk off 4 bs = Inr v"
  then have v: "v = number_le (take 4 (drop off bs))" by (simp add: blk_def field_def split: if_splits)
  have "take_bit 32 v = v"
    by (rule bit_eqI) (auto simp: v bit_take_bit_iff bit_number_le)
  then have "unat v = take_bit 32 (unat v)" by (metis unsigned_take_bit_eq)
  then show ?thesis by (metis take_bit_nat_less_exp)
qed

lemma cmd_field_small: "cmd_field c off 4 = Inr v \<Longrightarrow> unat v < 2 ^ 32"
  by (auto simp: cmd_field_def dest: field_small split: option.splits)

lemma reads_if:
  assumes "(if b then inserted ws x else Inr ws) = Inr ws1" "reads d ws n" "n < 2 ^ 56" "d \<Longrightarrow> n_str x \<noteq> None"
  shows "reads d ws1 (Suc n)"
proof (cases b)
  case True
  with assms(1) have "inserted ws x = Inr ws1" by simp
  from reads_inserted [OF assms(2) this assms(3,4)] show ?thesis .
next
  case False
  with assms(1) have "ws1 = ws" by simp
  with reads_more [OF assms(2), of "Suc n"] show ?thesis by simp
qed

lemma wrapper_str [simp]: "n_str (create_nlist64_wrapper b sl t) = t"
  by (simp add: create_nlist64_wrapper_def)

lemma locals_read:
  assumes "add_local D sl nsect so ns j ws = Inr ws1" "reads d ws n" "n < 2 ^ 56"
  shows "reads d ws1 (Suc n)"
proof -
  from assms(1) obtain b where "(if int (unat (field 5 1 b)) = nsect
      then inserted ws (create_nlist64_wrapper b sl (Some (dsc_text (so + field 0 4 b) D))) else Inr ws) = Inr ws1"
    unfolding add_local_def bind_run_Inr by blast
  from reads_if [OF this assms(2,3)] show ?thesis by simp
qed

lemma image_names_read:
  assumes "add_image_name D sl nsect so ns j ws = Inr ws1" "reads d ws n" "n < 2 ^ 56"
  shows "reads d ws1 (Suc n)"
proof -
  from assms(1) obtain b and c :: u64 where "(if c \<noteq> of_char (CHR ''<'') \<and> ucast (field 4 1 b) AND N_TYPE = N_SECT \<and> int (unat (field 5 1 b)) = nsect
      then inserted ws (create_nlist64_wrapper b sl (Some (dsc_text (so + field 0 4 b) D))) else Inr ws) = Inr ws1"
    unfolding add_image_name_def bind_run_Inr by blast
  from reads_if [OF this assms(2,3)] show ?thesis by simp
qed

lemma symtab_names_read:
  assumes "add_symtab_name M k sl nsect so ns j ws = Inr ws1" "reads False ws n" "n < 2 ^ 56"
  shows "reads False ws1 (Suc n)"
proof -
  let ?b = "take 16 (drop (16 * j) ns)"
  have f: "\<not> length ?b < 16" using assms(1) by (cases "length ?b < 16") (simp_all only: add_symtab_name_def Let_def if_True sum.distinct not_False_eq_True)
  obtain p :: "kern_return \<times> u8 list" where p: "(case p of (r, str) \<Rightarrow> if r = KERN_SUCCESS \<and> hd str \<noteq> 0 \<and> wanted_symbol nsect ?b
      then inserted ws (create_nlist64_wrapper ?b sl None) else Inr ws) = Inr ws1"
    using assms(1) unfolding add_symtab_name_def Let_def if_not_P [OF f] bind_run_Inr by blast
  obtain r str where "p = (r, str)" by (cases p)
  with p have "(if r = KERN_SUCCESS \<and> hd str \<noteq> 0 \<and> wanted_symbol nsect ?b
      then inserted ws (create_nlist64_wrapper ?b sl None) else Inr ws) = Inr ws1" by (simp only: prod.case)
  from reads_if [OF this assms(2,3)] show ?thesis by simp
qed

lemma count_small: "nat (sint (x :: u32)) < 2 ^ 32"
  using sint_lt [of x] by simp

lemma read_nlists_reads:
  assumes "read_nlists M E k D img la is_dsc F paths = Inr (Some ws)"
  shows "reads is_dsc ws (2 ^ 33)"
proof (cases is_dsc)
  case True
  from assms True obtain sl no so en where "dsc_entry_names D sl (section_num F) (symtab_cmd F) no so en array_new = Inr ws"
    by (auto simp: read_nlists_def dsc_names_def bind_run_Inr Let_def split: option.splits if_splits)
  then obtain st cn ns sy sr ws1 where
    1: "run_list (add_local D sl (section_num F) so (no + st * 16)) [0..<nat (sint (ucast (cn :: u64) :: u32))] array_new = Inr ws1" and
    2: "run_list (add_image_name D sl (section_num F) sr sy) [0..<unat (ns :: u64)] ws1 = Inr ws" "cmd_field (symtab_cmd F) 12 4 = Inr ns"
    by (auto simp: dsc_entry_names_def bind_run_Inr)
  let ?n = "nat (sint (ucast cn :: u32))"
  have c: "?n < 2 ^ 32" "unat ns < 2 ^ 32" using count_small cmd_field_small [OF 2(2)] by simp_all
  have "reads True ws1 (0 + length [0..<?n])"
    by (rule reads_list [OF 1 reads_new]) (use c locals_read in auto)
  then have "reads True ws1 ?n" by simp
  from reads_list [OF 2(1) this] c image_names_read have "reads True ws (?n + unat ns)" by fastforce
  with True show ?thesis using c by (auto intro: reads_more)
next
  case False
  from assms False obtain sl so ns n ws0 where "run_list (add_symtab_name M k sl (section_num F) so ns) [0..<unat (n :: u64)] array_new = Inr ws"
    "cmd_field (symtab_cmd F) 12 4 = Inr n"
    by (auto simp: read_nlists_def symtab_names_def bind_run_Inr Let_def split: option.splits if_splits prod.splits)
  note r = this
  have c: "unat n < 2 ^ 32" using cmd_field_small [OF r(2)] .
  have "reads False ws (0 + length [0..<unat n])"
    by (rule reads_list [OF r(1) reads_new]) (use c symtab_names_read in auto)
  with False c show ?thesis by (auto intro: reads_more)
qed

section \<open>The table of an image\<close>

lemma chain_starts:
  assumes "vmaddr e = la + of_nat tot" "a + sl = la" "unat la + (tot + sum_list ds) < 2 ^ 63"
  shows "sorted (map vmaddr (fxn_chain sl a sz e tot ds)) \<and>
    (\<forall>t \<in> set (fxn_chain sl a sz e tot ds). la + of_nat tot \<le> vmaddr t \<and> vmaddr t < 2 ^ 63)"
  using assms
proof (induction ds arbitrary: e tot)
  case Nil
  have "unat (la + of_nat tot) = unat la + tot" using Nil.prems(3) by (simp add: unat_word_ariths unsigned_of_nat take_bit_nat_eq_self)
  then have "la + of_nat tot < 2 ^ 63" using Nil.prems(3) by (simp add: word_less_nat_alt)
  with Nil show ?case by simp
next
  case (Cons d ds)
  have u: "unat (la + of_nat n) = unat la + n" if "n \<le> tot + sum_list (d # ds)" for n
    using Cons.prems(3) that by (simp add: unat_word_ariths unsigned_of_nat take_bit_nat_eq_self)
  have le: "la + of_nat tot \<le> la + of_nat (tot + d)" "la + of_nat tot < 2 ^ 63"
    using u [of tot] u [of "tot + d"] Cons.prems(3) by (simp_all add: word_le_nat_alt word_less_nat_alt)
  let ?e = "\<lparr>vmaddr = a + of_nat (tot + d) + sl, fxn_len = 0\<rparr>"
  have "vmaddr ?e = la + of_nat (tot + d)" using Cons.prems(2) by (simp add: add.assoc add.commute add.left_commute)
  from Cons.IH [OF this Cons.prems(2)] Cons.prems(3)
  have "sorted (map vmaddr (fxn_chain sl a sz ?e (tot + d) ds)) \<and>
    (\<forall>t \<in> set (fxn_chain sl a sz ?e (tot + d) ds). la + of_nat (tot + d) \<le> vmaddr t \<and> vmaddr t < 2 ^ 63)" by (simp add: add.assoc)
  with Cons.prems(1) le show ?case by (auto intro: order_trans)
qed

lemma table_starts:
  assumes "a + sl = la" "unat la + sum_list ds < 2 ^ 63"
  shows "sorted (map vmaddr (fxn_table sl a sz ds)) \<and> (\<forall>t \<in> set (fxn_table sl a sz ds). vmaddr t < 2 ^ 63)"
proof (cases ds)
  case (Cons d es)
  have "vmaddr \<lparr>vmaddr = a + of_nat d + sl, fxn_len = 0\<rparr> = la + of_nat d" using assms(1) by (simp add: add.assoc add.commute add.left_commute)
  from chain_starts [OF this assms(1), of es sz] assms(2) Cons show ?thesis by (simp add: fxn_table_def)
qed (simp add: fxn_table_def)

lemma length_chain: "length (fxn_chain sl a sz e tot ds) = Suc (length ds)"
  by (induction ds arbitrary: e tot) simp_all

lemma length_table: "length (fxn_table sl a sz ds) = length ds"
  by (cases ds) (simp_all add: fxn_table_def length_chain)

definition image_shown :: "nlistw array \<Rightarrow> lc_fxn_starts_entry list \<Rightarrow> dbg_sym_entry \<Rightarrow> bool" where
  "image_shown ws ts e \<longleftrightarrow> list_all2 (shows_fxn (\<lambda>v. \<exists>n. Some n \<in> set (array_list ws) \<and> n_value n = v)) (entry_syms e) ts"

lemma image_table:
  assumes c: "get_cmds M E k la = Inr (Some F)" and t: "cmd_field (text_seg_cmd F) 24 8 = Inr ta" "cmd_field (text_seg_cmd F) 32 8 = Inr sz"
    and l: "cmd_field (fxn_start_cmd F) 8 4 = Inr dataoff" "cmd_field (fxn_start_cmd F) 12 4 = Inr datasize"
    and b: "fxn_bytes E img D (is_dsc_image la ms) dataoff datasize = Inr (Some (concat (map uleb (ds @ replicate z 0)) @ rest))"
      "unat datasize = length (concat (map uleb (ds @ replicate z 0)))"
    and d: "\<forall>d \<in> set ds. 0 < d \<and> d < 2 ^ 31" "length ds < 2 ^ 31" "ds \<noteq> []"
    and n: "read_nlists M E k D img la (is_dsc_image la ms) F paths = Inr (Some ws)"
    and E: "sorts_nlists E" "searches_nlists E" "dsc_symname (sym_fresh E) \<noteq> UNNAMED_SYMBOL"
  shows "\<exists>cnt1 e. create_sym_entry_for_image M E k D img la ms paths cnt = Inr (cnt1, Some e) \<and> load_addr e = la \<and>
    image_shown ws (fxn_table (la - ta) ta sz ds) e \<and> (unat la + sum_list ds < 2 ^ 63 \<longrightarrow> entry_ok e)"
proof -
  let ?dsc = "is_dsc_image la ms"
  let ?sl = "la - ta"
  let ?ts = "fxn_table ?sl ta sz ds"
  obtain S starts where S: "fxn_loop ?sl (concat (map uleb (ds @ replicate z 0)) @ rest) (int (unat datasize))
      \<lparr>total_fxn_len = 0, nextfxnstartaddr = ta, fxn_starts = array_new\<rparr> = Inr S" "alen (fxn_starts S) \<noteq> 0"
    "set_last_len (fxn_starts S) (sz - total_fxn_len S) = Inr starts" "array_tight starts" "holds starts ?ts"
    using fxns_read [OF d, where sl = ?sl and a = ta and vmsize = sz and z = z and rest = rest] unfolding b(2) by blast
  have r: "read_lc_fxn_starts M E k D img la ?sl ?dsc = Inr (Some starts)"
    by (simp only: read_lc_fxn_starts_def c l b(1) t S bind_run.simps option.case if_False)
  obtain ns where ns: "array_tight ws" "holds ws ns" "length ns \<le> 2 ^ 33" "?dsc \<longrightarrow> (\<forall>x \<in> set ns. n_str x \<noteq> None)"
    using read_nlists_reads [OF n] by (auto simp: reads_def)
  let ?srt = "sort_nlists E nlistwcmp (map Some ns)"
  have "None \<notin> set (map Some ns)" by auto
  then have q: "mset ?srt = mset (map Some ns)" "sorted_wrt (\<lambda>a b. nlistwcmp a b \<le> 0) ?srt" using E(1) unfolding sorts_nlists_def by blast+
  define ys where "ys = map the ?srt"
  have "set ?srt = Some ` set ns" using mset_eq_setD [OF q(1)] by simp
  then have y: "?srt = map Some ys" "set ys = set ns"
    by (auto simp: ys_def image_image intro!: map_idI [symmetric])
  have ly: "length ys = length ns" using arg_cong [OF q(1), of size] by (simp add: ys_def)
  let ?ws = "sorted_array (sort_nlists E nlistwcmp) (shrunk ws)"
  have hw: "holds ?ws ys" 
    by (rule sorted_holds [where srt = "sort_nlists E nlistwcmp", OF shrunk_holds [OF ns(1,2)] y(1) ly]) (use ns(3) in simp)
  have hs: "holds (shrunk starts) ?ts" by (rule shrunk_holds [OF S(4,5)]) (use d(2) length_table [of ?sl ta sz ds] in simp)
  have so: "\<exists>x. cmd_field (symtab_cmd F) 16 4 = Inr x" if "\<not> ?dsc"
    using n that by (auto simp: read_nlists_def symtab_names_def bind_run_Inr Let_def t)
  obtain en where en: "(if ?dsc then Inr (create_sym_entry_for_dsc_image (entry_fresh E))
      else bind_run (cmd_field (symtab_cmd F) 16 4) (\<lambda>stroff. Inr (create_sym_entry (entry_fresh E) (stroff + la) False))) = Inr en" "syms en = array_new"
    using so by (cases ?dsc) (auto simp: create_sym_entry_for_dsc_image_def create_sym_entry_def)
  let ?en = "en\<lparr>load_addr := la\<rparr>"
  have le: "unat (alen (shrunk starts)) = length ?ts" using hs by (simp add: holds_def)
  have i: "array_tight (syms ?en)" "holds (syms ?en) []" using en(2) new_holds by simp_all
  have s2: "sorted_wrt (\<lambda>a b. nlistwcmp a b \<le> 0) (map Some ys)" using q(2) y(1) by simp
  have st: "?dsc \<Longrightarrow> \<forall>n \<in> set ys. n_str n \<noteq> None" using ns(4) y(2) by simp
  obtain cnt1 a ss where a: "add_functions E ?dsc ?ws (shrunk starts) (cnt, ?en) = Inr (cnt1, ?en\<lparr>syms := a\<rparr>)" "array_tight a" "holds a ss"
    "list_all2 (shows_fxn (named_at ys)) ss ?ts"
    using add_functions_ok [where is_dsc = ?dsc and n = "length ?ts" and cnt = cnt, OF E(2,3) hw s2 st hs order_refl _ i] d(2)
    by (auto simp: add_functions_def le length_table)
  let ?e = "?en\<lparr>syms := a\<rparr>"
  have sy: "entry_syms ?e = ss" using a(3) by (simp add: entry_syms_def holds_def o_def)
  have na: "named_at ys = (\<lambda>v. \<exists>n. Some n \<in> set (array_list ws) \<and> n_value n = v)"
    using ns(2) y(2) by (auto simp: named_at_def holds_def fun_eq_iff)
  have sh: "image_shown ws ?ts ?e" using a(4) by (simp add: image_shown_def sy na)
  have starts: "map sym_func_start ss = map vmaddr ?ts"
    using a(4) by (induction rule: list_all2_induct) (simp_all add: shows_fxn_def)
  have ok: "entry_ok ?e" if "unat la + sum_list ds < 2 ^ 63"
  proof -
    have ts: "sorted (map vmaddr ?ts)" "\<forall>t \<in> set ?ts. vmaddr t < 2 ^ 63" using table_starts [of ta ?sl la ds sz] that by simp_all
    have "\<forall>x \<in> set (map vmaddr ?ts). x < 2 ^ 63" using ts(2) by simp
    then have "\<forall>s \<in> set ss. sym_func_start s < 2 ^ 63" unfolding starts [symmetric] by simp
    moreover have "unat (alen a) < 2 ^ 31" using a(3) list_all2_lengthD [OF a(4)] d(2) by (simp add: holds_def length_table)
    moreover have "array_ok a" "None \<notin> set (array_list a)" using a(2,3) by (auto simp: array_tight_def holds_def)
    ultimately show ?thesis using ts(1) by (simp add: entry_ok_def sy starts)
  qed
  have "create_sym_entry_for_image M E k D img la ms paths cnt = Inr (cnt1, Some ?e)"
    by (simp add: create_sym_entry_for_image_def c t en(1) r n a(1) Let_def)
  moreover have "load_addr ?e = la" by simp
  ultimately show ?thesis using sh ok by blast
qed

end
