(* ===== verification/SampleImage.thy ===== *)
theory SampleImage
  imports ImageProof SampleCommands
begin

text \<open>
  An image in memory for the properties of the tables of symbols: its header, a text segment, a symbol table with one symbol
  and the starts of two functions, which are in its file.
\<close>

definition macho_bytes :: "u8 list" where
  "macho_bytes = [0xCF, 0xFA, 0xED, 0xFE] @ replicate 12 0 @ [3, 0, 0, 0, 0x70] @ replicate 11 0 @
     [0x19, 0, 0, 0, 0x48, 0, 0, 0, 0x5F, 0x5F, 0x54, 0x45, 0x58, 0x54] @ replicate 11 0 @ [0x10, 0, 0, 0, 0, 0, 0, 0, 8] @ replicate 38 0 @
     [2, 0, 0, 0, 0x18, 0, 0, 0, 0x90, 0, 0, 0, 1, 0, 0, 0, 0xA0, 0, 0, 0, 6, 0, 0, 0] @
     [0x26, 0, 0, 0, 0x10, 0, 0, 0, 8, 0, 0, 0, 5, 0, 0, 0] @
     [1, 0, 0, 0, 0x0F, 1, 0, 0, 0x10, 0x10, 0, 0, 0, 0, 0, 0] @
     [0, 0x6D, 0x61, 0x69, 0x6E]"

definition image_mem :: "u64 \<Rightarrow> u8" where
  "image_mem a = (if unat (a - 0x5000) < length macho_bytes then macho_bytes ! unat (a - 0x5000) else 0)"

definition image_file :: "u8 list" where
  "image_file = replicate 8 0 @ concat (map uleb [0x10, 0x200, 0, 0]) @ [0]"

definition value_key :: "nlistw vptr \<Rightarrow> u64" where
  "value_key x = (case x of None \<Rightarrow> 0 | Some n \<Rightarrow> n_value n)"

definition sample_image_env :: "(u64 \<Rightarrow> u8) image_env" where
  "sample_image_env = \<lparr>image_fresh = (\<lambda>n. replicate n 0), file_of = (\<lambda>f. if f = ''app'' then Some image_file else None),
     dyld_info = (\<lambda>k t. None), infos_size = 344, sort_nlists = (\<lambda>c. sort_key value_key),
     search_nlists = (\<lambda>c key xs. case filter (\<lambda>i. c (Some key) (xs ! i) = 0) [0..<length xs] of [] \<Rightarrow> None | i # _ \<Rightarrow> Some i),
     sort_paths = (\<lambda>c xs. xs), search_paths = (\<lambda>c key xs. None),
     sym_fresh = \<lparr>sym_func_start = 0, dsc_symname = SymGarbage, sym_num = 0, sym_func_len = 0\<rparr>,
     entry_fresh = \<lparr>imagename = [], syms = array_new, load_addr = 0, strtab_vmaddr = 0, from_dsc = False\<rparr>\<rparr>"

lemma value_key_le: "nlistwcmp (Some a) (Some b) \<le> 0 \<longleftrightarrow> n_value a \<le> n_value b"
  by (auto simp: nlistwcmp_def)

lemma sample_sorts: "sorts_nlists sample_image_env"
  unfolding sorts_nlists_def
proof (intro allI impI conjI)
  fix xs :: "nlistw vptr list" assume n: "None \<notin> set xs"
  show "mset (sort_nlists sample_image_env nlistwcmp xs) = mset xs" by (simp add: sample_image_env_def)
  have "sorted (map value_key (sort_key value_key xs))" by simp
  then have s: "sorted_wrt (\<lambda>a b. value_key a \<le> value_key b) (sort_key value_key xs)" by (simp only: sorted_map)
  have i: "nlistwcmp a b \<le> 0" if "value_key a \<le> value_key b" for a b
    using that by (cases a; cases b) (simp_all add: nlistwcmp_def value_key_def)
  have "sorted_wrt (\<lambda>a b. nlistwcmp a b \<le> 0) (sort_key value_key xs)"
    using s by (rule sorted_wrt_mono_rel [rotated]) (rule i)
  then show "sorted_wrt (\<lambda>a b. nlistwcmp a b \<le> 0) (sort_nlists sample_image_env nlistwcmp xs)" by (simp add: sample_image_env_def)
qed

lemma sample_searches: "searches_nlists sample_image_env"
  unfolding searches_nlists_def
proof (intro allI impI)
  fix xs :: "nlistw vptr list" and key
  let ?is = "filter (\<lambda>i. nlistwcmp (Some key) (xs ! i) = 0) [0..<length xs]"
  show "case search_nlists sample_image_env nlistwcmp key xs of None \<Rightarrow> \<forall>x \<in> set xs. nlistwcmp (Some key) x \<noteq> 0
      | Some i \<Rightarrow> i < length xs \<and> nlistwcmp (Some key) (xs ! i) = 0"
  proof (cases ?is)
    case Nil
    then have "\<forall>i < length xs. nlistwcmp (Some key) (xs ! i) \<noteq> 0" by (simp add: filter_empty_conv)
    then show ?thesis using Nil by (auto simp: sample_image_env_def in_set_conv_nth)
  next
    case (Cons i rest)
    then have "i \<in> set ?is" by simp
    then have "i < length xs" "nlistwcmp (Some key) (xs ! i) = 0" by (simp_all only: set_filter mem_Collect_eq set_upt atLeastLessThan_iff)
    then show ?thesis using Cons by (auto simp: sample_image_env_def)
  qed
qed

lemma image_length: "length macho_bytes = 165"
  by (simp add: macho_bytes_def)

lemma image_at:
  assumes "unat (a - 0x5000) + n \<le> 165"
  shows "bytes_at image_mem a n = take n (drop (unat (a - 0x5000)) macho_bytes)"
proof (rule nth_equalityI)
  show "length (bytes_at image_mem a n) = length (take n (drop (unat (a - 0x5000)) macho_bytes))" using assms by (simp add: image_length)
next
  fix i assume "i < length (bytes_at image_mem a n)"
  then have i: "i < n" by simp
  have "unat (a - 0x5000 + of_nat i) = unat (a - 0x5000) + i"
    using assms i by (simp add: unat_word_ariths unsigned_of_nat take_bit_nat_eq_self)
  then have "unat (a + of_nat i - 0x5000) = unat (a - 0x5000) + i" by (simp add: algebra_simps)
  then show "bytes_at image_mem a n ! i = take n (drop (unat (a - 0x5000)) macho_bytes) ! i"
    using i assms by (simp add: bytes_at_def image_mem_def image_length)
qed

lemma image_read:
  assumes "unat a + n < 2 ^ 64" "n < 2 ^ 64" "length old = n"
  shows "read_into frame_mach image_mem a (of_nat n) old = Inr (KERN_SUCCESS, bytes_at image_mem a n)"
  using read_into_flat [of frame_mach "\<lambda>k. k" a n old image_mem] frame_ok(2) assms by (simp add: frame_env_def)

definition sample_cmds :: found_cmds where
  "sample_cmds = \<lparr>symtab_cmd = Some (take 24 (drop 104 macho_bytes)), text_seg_cmd = Some (take 72 (drop 32 macho_bytes)),
     fxn_start_cmd = Some (take 16 (drop 128 macho_bytes)), section_num = 1\<rparr>"

lemma sample_cmds_from:
  "cmds_from (take 112 (drop 32 macho_bytes)) 3 0 \<lparr>symtab_cmd = None, text_seg_cmd = None, fxn_start_cmd = None, section_num = 1\<rparr> = Inr sample_cmds"
  by code_simp

lemma sample_hdr: "field 20 4 (take 32 macho_bytes) = 112" "field 16 4 (take 32 macho_bytes) = 3"
  by code_simp+

lemma sample_get_cmds: "get_cmds frame_mach sample_image_env image_mem 0x5000 = Inr (Some sample_cmds)"
proof -
  have h: "read_into frame_mach image_mem 0x5000 32 (replicate 32 0) = Inr (KERN_SUCCESS, take 32 macho_bytes)"
    using image_read [of "0x5000" 32 "replicate 32 0"] image_at [of "0x5000" 32] by simp
  have c: "read_into frame_mach image_mem (0x5000 + 32) 112 (image_fresh sample_image_env 112) = Inr (KERN_SUCCESS, take 112 (drop 32 macho_bytes))"
    using image_read [of "0x5000 + 32" 112 "replicate 112 0"] image_at [of "0x5000 + 32" 112] by (simp add: sample_image_env_def)
  show ?thesis
    using c by (simp add: get_cmds_def h sample_hdr sample_cmds_from)
qed

lemma sample_fields:
  "cmd_field (text_seg_cmd sample_cmds) 24 8 = Inr 0x1000" "cmd_field (text_seg_cmd sample_cmds) 32 8 = Inr 0x800"
  "cmd_field (fxn_start_cmd sample_cmds) 8 4 = Inr 8" "cmd_field (fxn_start_cmd sample_cmds) 12 4 = Inr 5"
  "cmd_field (symtab_cmd sample_cmds) 8 4 = Inr 144" "cmd_field (symtab_cmd sample_cmds) 12 4 = Inr 1"
  "cmd_field (symtab_cmd sample_cmds) 16 4 = Inr 160" "section_num sample_cmds = 1"
  by code_simp+

lemma sample_fxn_bytes:
  "fxn_bytes sample_image_env ''app'' None (is_dsc_image 0x5000 []) 8 5 = Inr (Some (concat (map uleb ([0x10, 0x200] @ replicate 2 0)) @ []))"
  "unat (5 :: u64) = length (concat (map uleb ([0x10, 0x200] @ replicate 2 0)))"
  by code_simp+

definition sample_nlist :: nlistw where
  "sample_nlist = create_nlist64_wrapper (take 16 (drop 144 macho_bytes)) 0x4000 None"

definition sample_names :: "nlistw array" where
  "sample_names = (case inserted array_new sample_nlist of Inr a \<Rightarrow> a | Inl _ \<Rightarrow> array_new)"

lemma sample_inserted: "inserted array_new sample_nlist = Inr sample_names"
  using inserted_holds [OF new_holds(2,1), of sample_nlist] by (auto simp: sample_names_def)

lemma sample_wanted: "wanted_symbol 1 (take 16 (drop 144 macho_bytes))" "field 0 4 (take 16 (drop 144 macho_bytes)) = 1"
  by code_simp+

lemma sample_read_nlists:
  "read_nlists frame_mach sample_image_env image_mem None ''app'' 0x5000 (is_dsc_image 0x5000 []) sample_cmds array_new = Inr (Some sample_names)"
proof -
  have a: "read_into frame_mach image_mem (144 + 0x5000) 16 (replicate 16 0) = Inr (KERN_SUCCESS, take 16 (drop 144 macho_bytes))"
    using image_read [of "144 + 0x5000" 16 "replicate 16 0"] image_at [of "144 + 0x5000" 16] by simp
  have b: "read_into frame_mach image_mem (160 + 0x5000 + 1) 512 (replicate 512 0) = Inr (KERN_SUCCESS, bytes_at image_mem 0x50A1 512)"
    using image_read [of "160 + 0x5000 + 1" 512 "replicate 512 0"] by simp
  have h: "hd (bytes_at image_mem 0x50A1 512) = macho_bytes ! 161" by (simp add: bytes_at_def hd_map image_mem_def image_length)
  have n: "macho_bytes ! 161 \<noteq> 0" by code_simp
  show ?thesis
    using a b sample_inserted sample_wanted n
    by (simp add: read_nlists_def sample_fields symtab_names_def add_symtab_name_def sample_image_env_def is_dsc_image_def image_length h sample_nlist_def)
qed

end
