(* ===== verification/Dwarf.thy ===== *)
theory Dwarf
  imports Dexpr
begin

text \<open>
  What the reading of DWARF files rests on: the errors of \<^verbatim>\<open>source/symbol/symerr.c\<close>, and libdwarf, which
  is not part of the program. Libdwarf is a record of functions from the handles it gives out to its
  results: \<open>'d\<close> are its entries, \<open>'a\<close> their attributes and \<open>'l\<close> its lines. A handle that may be NULL is an
  option. A result is the value with \<^verbatim>\<open>DW_DLV_OK\<close>, \<^verbatim>\<open>DW_DLV_NO_ENTRY\<close> or \<^verbatim>\<open>DW_DLV_ERROR\<close>, and the last two
  leave what the result is written to as it was.
\<close>

section \<open>Errors\<close>

record sym_error =
  error_kind :: u32
  error_id :: u32

definition NO_ERROR_TABLE :: "string list" where
  "NO_ERROR_TABLE = [''No error (0)'']"

definition GENERIC_ERROR_TABLE :: "string list" where
  "GENERIC_ERROR_TABLE =
     [''No error (0)'', ''File not found (1 - generic error)'', ''Invalid parameter (2 - generic error)'',
      ''Invalid compilation unit pointer (3 - generic error)'', ''Invalid dwarfinfo pointer (4 - generic error)'',
      ''Invalid DIE pointer (5 - generic error)'']"

definition SYM_ERROR_TABLE :: "string list" where
  "SYM_ERROR_TABLE =
     [''No error (0)'', ''dwarf_init failed (1 - sym error)'', ''dwarf_siblingof_b failed (2 - sym error)'',
      ''dwarf_srclines failed (3 - sym error)'']"

definition CU_ERROR_TABLE :: "string list" where
  "CU_ERROR_TABLE =
     [''No error (0)'', ''Compilation unit not found (1 - compilation unit error)'',
      ''dwarf_next_cu_header_d failed (2 - compilation unit error)'']"

definition DIE_ERROR_TABLE :: "string list" where
  "DIE_ERROR_TABLE =
     [''No error (0)'', ''Not a function DIE (1 - die error)'', ''DIE not found (2 - die error)'',
      ''Error getting line info (3 - die error)'', ''Not a compilation unit DIE (4 - die error)'',
      ''Next line not found (5 - die error)'', ''Line not found (6 - die error)'', ''No data type name (7 - die error)'',
      ''Not a struct or union DIE (8 - die error)'', ''No parent (9 - die error)'', ''Not a variable (10 - die error)'']"

definition ERROR_TABLES :: "string list list" where
  "ERROR_TABLES = [NO_ERROR_TABLE, GENERIC_ERROR_TABLE, SYM_ERROR_TABLE, CU_ERROR_TABLE, DIE_ERROR_TABLE]"

definition TABLE_LENGTHS :: "u32 list" where
  "TABLE_LENGTHS = [1, 6, 4, 3, 11]"

abbreviation NO_ERROR_KIND :: u32 where "NO_ERROR_KIND \<equiv> 0"
abbreviation GENERIC_ERROR_KIND :: u32 where "GENERIC_ERROR_KIND \<equiv> 1"
abbreviation SYM_ERROR_KIND :: u32 where "SYM_ERROR_KIND \<equiv> 2"
abbreviation CU_ERROR_KIND :: u32 where "CU_ERROR_KIND \<equiv> 3"
abbreviation DIE_ERROR_KIND :: u32 where "DIE_ERROR_KIND \<equiv> 4"

abbreviation GE_FILE_NOT_FOUND :: u32 where "GE_FILE_NOT_FOUND \<equiv> 1"
abbreviation GE_INVALID_PARAMETER :: u32 where "GE_INVALID_PARAMETER \<equiv> 2"
abbreviation GE_INVALID_CU_POINTER :: u32 where "GE_INVALID_CU_POINTER \<equiv> 3"
abbreviation GE_INVALID_DWARFINFO :: u32 where "GE_INVALID_DWARFINFO \<equiv> 4"
abbreviation GE_INVALID_DIE :: u32 where "GE_INVALID_DIE \<equiv> 5"

abbreviation SYM_DWARF_INIT_FAILED :: u32 where "SYM_DWARF_INIT_FAILED \<equiv> 1"
abbreviation SYM_DWARF_SIBLING_OF_B_FAILED :: u32 where "SYM_DWARF_SIBLING_OF_B_FAILED \<equiv> 2"
abbreviation SYM_DWARF_SRCLINES_FAILED :: u32 where "SYM_DWARF_SRCLINES_FAILED \<equiv> 3"

abbreviation CU_CU_NOT_FOUND :: u32 where "CU_CU_NOT_FOUND \<equiv> 1"
abbreviation CU_DWARF_NEXT_CU_HEADER_D_FAILED :: u32 where "CU_DWARF_NEXT_CU_HEADER_D_FAILED \<equiv> 2"

abbreviation DIE_NOT_FUNCTION_DIE :: u32 where "DIE_NOT_FUNCTION_DIE \<equiv> 1"
abbreviation DIE_DIE_NOT_FOUND :: u32 where "DIE_DIE_NOT_FOUND \<equiv> 2"
abbreviation DIE_COULD_NOT_GET_LINE_INFO :: u32 where "DIE_COULD_NOT_GET_LINE_INFO \<equiv> 3"
abbreviation DIE_NOT_COMPILE_UNIT_DIE :: u32 where "DIE_NOT_COMPILE_UNIT_DIE \<equiv> 4"
abbreviation DIE_NEXT_LINE_NOT_FOUND :: u32 where "DIE_NEXT_LINE_NOT_FOUND \<equiv> 5"
abbreviation DIE_LINE_NOT_FOUND :: u32 where "DIE_LINE_NOT_FOUND \<equiv> 6"
abbreviation DIE_NO_DATA_TYPE_NAME :: u32 where "DIE_NO_DATA_TYPE_NAME \<equiv> 7"
abbreviation DIE_NOT_STRUCT_OR_UNION :: u32 where "DIE_NOT_STRUCT_OR_UNION \<equiv> 8"
abbreviation DIE_NO_PARENT :: u32 where "DIE_NO_PARENT \<equiv> 9"

text \<open>An error is written through a pointer that may be NULL.\<close>

definition errclear :: "sym_error option \<Rightarrow> sym_error option" where
  "errclear e = (case e of None \<Rightarrow> None | Some _ \<Rightarrow> Some \<lparr>error_kind = 0, error_id = 0\<rparr>)"

definition errset :: "sym_error option \<Rightarrow> u32 \<Rightarrow> u32 \<Rightarrow> sym_error option" where
  "errset e ekind eid = (case e of None \<Rightarrow> None | Some _ \<Rightarrow> Some \<lparr>error_kind = ekind, error_id = eid\<rparr>)"

definition errmsg :: "sym_error \<Rightarrow> string run" where
  "errmsg e =
     (if unat (error_kind e) > length ERROR_TABLES then Inr ''sym_error_t error kind out of bounds''
      else if unat (error_kind e) \<ge> length TABLE_LENGTHS then Inl OutOfBounds
      else if error_id e > TABLE_LENGTHS ! unat (error_kind e) then Inr ''sym_error_t error ID out of bounds''
      else let tab = ERROR_TABLES ! unat (error_kind e)
           in if unat (error_id e) < length tab then Inr (tab ! unat (error_id e)) else Inl OutOfBounds)"

text \<open>
  Most functions return 1 with an error that was set, or 0 with what they found: a sum of the kind and the
  identity of the error, and the result. \<open>reported\<close> is the returned number and what the caller's error holds.
\<close>

type_synonym 'v sres = "(u32 \<times> u32) + 'v"

definition reported :: "sym_error option \<Rightarrow> 'v sres \<Rightarrow> int \<times> sym_error option" where
  "reported e r = (case r of Inl (k, i) \<Rightarrow> (1, errset e k i) | Inr _ \<Rightarrow> (0, e))"

abbreviation invalid_die :: "'v sres" where
  "invalid_die \<equiv> Inl (GENERIC_ERROR_KIND, GE_INVALID_DIE)"

abbreviation invalid_parameter :: "'v sres" where
  "invalid_parameter \<equiv> Inl (GENERIC_ERROR_KIND, GE_INVALID_PARAMETER)"

abbreviation not_a_unit :: "'v sres" where
  "not_a_unit \<equiv> Inl (DIE_ERROR_KIND, DIE_NOT_COMPILE_UNIT_DIE)"

section \<open>Libdwarf\<close>

type_synonym u16 = "16 word"

datatype 'v dres = DW_DLV_OK 'v | DW_DLV_NO_ENTRY | DW_DLV_ERROR

text \<open>What the call writes to a variable that held \<open>old\<close>.\<close>

fun written :: "'v \<Rightarrow> 'v dres \<Rightarrow> 'v" where
  "written old (DW_DLV_OK v) = v"
| "written old DW_DLV_NO_ENTRY = old"
| "written old DW_DLV_ERROR = old"

fun given :: "'v dres \<Rightarrow> 'v option" where
  "given (DW_DLV_OK v) = Some v"
| "given DW_DLV_NO_ENTRY = None"
| "given DW_DLV_ERROR = None"

record loc_op =
  op_code :: u8
  op_opd1 :: u64
  op_opd2 :: u64
  op_opd3 :: u64
  op_branch :: u64

record loc_entry =
  le_lopc :: u64
  le_hipc :: u64
  le_source :: loclist_source
  le_ops :: "loc_op dres list"

record cu_header =
  ch_header_len :: u64
  ch_abbrev_offset :: u64
  ch_address_size :: u16
  ch_next_header_offset :: u64

text \<open>
  The iterator over the headers of the compilation units is the list of the results of its calls, each
  with the entry \<^verbatim>\<open>dwarf_siblingof_b\<close> then gives for NULL. A location list is the list of its entries.
\<close>

record ('d, 'a, 'l) dwarf =
  dw_diename :: "'d option \<Rightarrow> string dres"
  dw_tag :: "'d option \<Rightarrow> u16 dres"
  dw_dieoffset :: "'d option \<Rightarrow> u64 dres"
  dw_child :: "'d option \<Rightarrow> 'd dres"
  dw_sibling :: "'d option \<Rightarrow> 'd dres"
  dw_attr :: "'d option \<Rightarrow> u16 \<Rightarrow> 'a dres"
  dw_formref :: "'a option \<Rightarrow> u64 dres"
  dw_offdie :: "u64 \<Rightarrow> 'd dres"
  dw_attrcnt :: "'d option \<Rightarrow> u64 dres"
  dw_formsdata :: "'a option \<Rightarrow> u64 dres"
  dw_formudata :: "'a option \<Rightarrow> u64 dres"
  dw_bytesize :: "'d option \<Rightarrow> u64 dres"
  dw_lowpc :: "'d option \<Rightarrow> u64 dres"
  dw_highpc :: "'d option \<Rightarrow> u64 dres"
  dw_children_flag :: "'d option \<Rightarrow> bool"
  dw_tag_name :: "u16 \<Rightarrow> string option"
  dw_loclist :: "'a \<Rightarrow> loc_entry dres list dres"
  dw_srclines :: "'d option \<Rightarrow> 'l list dres"
  dw_linesrc :: "'l \<Rightarrow> string dres"
  dw_lineno :: "'l \<Rightarrow> u64 dres"
  dw_lineaddr :: "'l \<Rightarrow> u64 dres"
  dw_units :: "(cu_header \<times> 'd dres) dres list"

text \<open>Tags and attributes, with the numbers of the DWARF standard.\<close>

abbreviation DW_TAG_array_type :: u16 where "DW_TAG_array_type \<equiv> 0x01"
abbreviation DW_TAG_enumeration_type :: u16 where "DW_TAG_enumeration_type \<equiv> 0x04"
abbreviation DW_TAG_formal_parameter :: u16 where "DW_TAG_formal_parameter \<equiv> 0x05"
abbreviation DW_TAG_lexical_block :: u16 where "DW_TAG_lexical_block \<equiv> 0x0B"
abbreviation DW_TAG_member :: u16 where "DW_TAG_member \<equiv> 0x0D"
abbreviation DW_TAG_pointer_type :: u16 where "DW_TAG_pointer_type \<equiv> 0x0F"
abbreviation DW_TAG_compile_unit :: u16 where "DW_TAG_compile_unit \<equiv> 0x11"
abbreviation DW_TAG_structure_type :: u16 where "DW_TAG_structure_type \<equiv> 0x13"
abbreviation DW_TAG_subroutine_type :: u16 where "DW_TAG_subroutine_type \<equiv> 0x15"
abbreviation DW_TAG_typedef :: u16 where "DW_TAG_typedef \<equiv> 0x16"
abbreviation DW_TAG_union_type :: u16 where "DW_TAG_union_type \<equiv> 0x17"
abbreviation DW_TAG_inlined_subroutine :: u16 where "DW_TAG_inlined_subroutine \<equiv> 0x1D"
abbreviation DW_TAG_base_type :: u16 where "DW_TAG_base_type \<equiv> 0x24"
abbreviation DW_TAG_const_type :: u16 where "DW_TAG_const_type \<equiv> 0x26"
abbreviation DW_TAG_enumerator :: u16 where "DW_TAG_enumerator \<equiv> 0x28"
abbreviation DW_TAG_subprogram :: u16 where "DW_TAG_subprogram \<equiv> 0x2E"
abbreviation DW_TAG_variable :: u16 where "DW_TAG_variable \<equiv> 0x34"
abbreviation DW_TAG_volatile_type :: u16 where "DW_TAG_volatile_type \<equiv> 0x35"
abbreviation DW_TAG_restrict_type :: u16 where "DW_TAG_restrict_type \<equiv> 0x37"

abbreviation DW_AT_location :: u16 where "DW_AT_location \<equiv> 0x02"
abbreviation DW_AT_abstract_origin :: u16 where "DW_AT_abstract_origin \<equiv> 0x31"
abbreviation DW_AT_count :: u16 where "DW_AT_count \<equiv> 0x37"
abbreviation DW_AT_data_member_location :: u16 where "DW_AT_data_member_location \<equiv> 0x38"
abbreviation DW_AT_encoding :: u16 where "DW_AT_encoding \<equiv> 0x3E"
abbreviation DW_AT_frame_base :: u16 where "DW_AT_frame_base \<equiv> 0x40"
abbreviation DW_AT_type :: u16 where "DW_AT_type \<equiv> 0x49"

section \<open>Reading one thing of an entry\<close>

definition get_type_die :: "('d, 'a, 'l) dwarf \<Rightarrow> 'd option \<Rightarrow> 'd option" where
  "get_type_die dw frm =
     (case dw_attr dw frm DW_AT_type of DW_DLV_ERROR \<Rightarrow> None
      | r \<Rightarrow> (case dw_formref dw (given r) of DW_DLV_ERROR \<Rightarrow> None
          | off \<Rightarrow> given (dw_offdie dw (written 0 off))))"

definition get_die_name_raw :: "('d, 'a, 'l) dwarf \<Rightarrow> 'd option \<Rightarrow> string option" where
  "get_die_name_raw dw frm = given (dw_diename dw frm)"

definition get_die_tag_raw :: "('d, 'a, 'l) dwarf \<Rightarrow> 'd option \<Rightarrow> u16" where
  "get_die_tag_raw dw frm = (case dw_tag dw frm of DW_DLV_ERROR \<Rightarrow> - 1 | r \<Rightarrow> written 0 r)"

definition get_die_offset :: "('d, 'a, 'l) dwarf \<Rightarrow> 'd option \<Rightarrow> u64" where
  "get_die_offset dw frm = written 0 (dw_dieoffset dw frm)"

definition get_child_die :: "('d, 'a, 'l) dwarf \<Rightarrow> 'd option \<Rightarrow> 'd option" where
  "get_child_die dw parent = given (dw_child dw parent)"

definition get_sibling_die :: "('d, 'a, 'l) dwarf \<Rightarrow> 'd option \<Rightarrow> 'd option" where
  "get_sibling_die dw frm = given (dw_sibling dw frm)"

text \<open>The number of attributes, with whether it failed.\<close>

definition get_die_attrlist :: "('d, 'a, 'l) dwarf \<Rightarrow> 'd option \<Rightarrow> bool \<times> u64" where
  "get_die_attrlist dw frm = (let r = dw_attrcnt dw frm in (r = DW_DLV_ERROR, written 0 r))"

definition get_die_attribute :: "('d, 'a, 'l) dwarf \<Rightarrow> 'd option \<Rightarrow> u16 \<Rightarrow> bool \<times> 'a option" where
  "get_die_attribute dw frm whichattr =
     (case dw_attr dw frm whichattr of DW_DLV_ERROR \<Rightarrow> (True, None) | r \<Rightarrow> (False, given r))"

datatype form_way = FORMSDATA | FORMUDATA

definition get_form_data_from_attr ::
    "('d, 'a, 'l) dwarf \<Rightarrow> 'a option \<Rightarrow> form_way \<Rightarrow> u64 \<Rightarrow> bool \<times> u64" where
  "get_form_data_from_attr dw attr way dat =
     (let r = (case way of FORMSDATA \<Rightarrow> dw_formsdata dw attr | FORMUDATA \<Rightarrow> dw_formudata dw attr)
      in (r = DW_DLV_ERROR, written dat r))"

definition dwarf_type_tag_to_string :: "u16 \<Rightarrow> string" where
  "dwarf_type_tag_to_string tag =
     (if tag = DW_TAG_const_type then ''const'' else if tag = DW_TAG_restrict_type then ''restrict''
      else if tag = DW_TAG_volatile_type then ''volatile'' else if tag = DW_TAG_pointer_type then ''*''
      else ''<unknown>'')"

definition get_dwarf_line_filename :: "('d, 'a, 'l) dwarf \<Rightarrow> 'l option \<Rightarrow> string option" where
  "get_dwarf_line_filename dw line = (case line of None \<Rightarrow> None | Some l \<Rightarrow> given (dw_linesrc dw l))"

definition get_dwarf_line_lineno :: "('d, 'a, 'l) dwarf \<Rightarrow> 'l option \<Rightarrow> u64" where
  "get_dwarf_line_lineno dw line = (case line of None \<Rightarrow> 0 | Some l \<Rightarrow> written 0 (dw_lineno dw l))"

definition get_dwarf_line_virtual_addr :: "('d, 'a, 'l) dwarf \<Rightarrow> 'l option \<Rightarrow> u64" where
  "get_dwarf_line_virtual_addr dw line = (case line of None \<Rightarrow> 0 | Some l \<Rightarrow> written 0 (dw_lineaddr dw l))"

text \<open>Every error that is set has a message; the bounds are tested one too late.\<close>

lemma errmsg_examples:
  "errmsg \<lparr>error_kind = DIE_ERROR_KIND, error_id = DIE_NO_PARENT\<rparr> = Inr ''No parent (9 - die error)''"
  "errmsg \<lparr>error_kind = 4, error_id = 11\<rparr> = Inl OutOfBounds"
  "errmsg \<lparr>error_kind = 5, error_id = 0\<rparr> = Inl OutOfBounds"
  "errmsg \<lparr>error_kind = 6, error_id = 0\<rparr> = Inr ''sym_error_t error kind out of bounds''"
  by (simp_all add: errmsg_def ERROR_TABLES_def TABLE_LENGTHS_def DIE_ERROR_TABLE_def Let_def)

end
