(* ===== verification/Die.thy ===== *)
theory Die
  imports Dwarf
begin

text \<open>
  The tree of the entries of a compilation unit, \<^verbatim>\<open>source/symbol/die.c\<close> up to \<^verbatim>\<open>construct_die_tree\<close>: what is
  copied of an entry, the description of its type, its locations, and where it is put into the tree. Blocks
  are the elements of a list, whose indices are the addresses; a block that was freed is None.
\<close>

section \<open>Entries\<close>

abbreviation DTC_POINTER :: u32 where "DTC_POINTER \<equiv> 1"
abbreviation DTC_STRUCT :: u32 where "DTC_STRUCT \<equiv> 2"
abbreviation DTC_UNION :: u32 where "DTC_UNION \<equiv> 4"
abbreviation DTC_ARRAY :: u32 where "DTC_ARRAY \<equiv> 8"
abbreviation DTC_OTHER :: u32 where "DTC_OTHER \<equiv> 16"

abbreviation ARR_DIM_SZ_UNKNOWN :: u32 where "ARR_DIM_SZ_UNKNOWN \<equiv> - 1"
abbreviation NON_COMPILE_TIME_CONSTANT_SIZE :: u64 where "NON_COMPILE_TIME_CONSTANT_SIZE \<equiv> - 1"

record arrdim =
  ad_dim :: u32
  ad_sz :: u32

definition create_arrdim :: "u32 \<Rightarrow> u32 \<Rightarrow> arrdim" where
  "create_arrdim d sz = \<lparr>ad_dim = d, ad_sz = sz\<rparr>"

text \<open>
  The array of children ends with NULL and is None until there is one. An empty list of descriptions is a
  NULL pointer to the first.
\<close>

record ('d, 'l) die =
  die_dwarfdie :: "'d option"
  die_dieoffset :: u64
  die_srclines :: "'l list"
  die_tag :: u16
  die_tagname :: "string option"
  die_anon :: bool
  die_lexblock :: bool
  die_diename :: "string option"
  die_haschildren :: bool
  die_children :: "nat list option"
  die_parent :: "nat option"
  die_datatypedieoffset :: u64
  die_basedatatypedieoffset :: u64
  die_datatypedie :: "'d option"
  die_datatypedietag :: u16
  die_datatypeencoding :: u16
  die_databytessize :: u64
  die_datatypename :: "string option"
  die_arrmembsz :: u64
  die_arrdims :: "arrdim list"
  die_datatypeclass :: u32
  die_inlinedsub :: bool
  die_aboriginoff :: u64
  die_low_pc :: u64
  die_high_pc :: u64
  die_memb_off :: u64
  die_loclists :: "locdesc list list"
  die_framebaselocdesc :: "locdesc list"

definition new_die :: "'d option \<Rightarrow> ('d, 'l) die" where
  "new_die h = \<lparr>die_dwarfdie = h, die_dieoffset = 0, die_srclines = [], die_tag = 0, die_tagname = None, die_anon = False,
     die_lexblock = False, die_diename = None, die_haschildren = False, die_children = None, die_parent = None,
     die_datatypedieoffset = 0, die_basedatatypedieoffset = 0, die_datatypedie = None, die_datatypedietag = 0,
     die_datatypeencoding = 0, die_databytessize = 0, die_datatypename = None, die_arrmembsz = 0, die_arrdims = [],
     die_datatypeclass = 0, die_inlinedsub = False, die_aboriginoff = 0, die_low_pc = 0, die_high_pc = 0, die_memb_off = 0,
     die_loclists = [], die_framebaselocdesc = []\<rparr>"

definition is_anonymous_type :: "('d, 'l) die \<Rightarrow> bool" where
  "is_anonymous_type d \<longleftrightarrow>
     die_tag d \<in> {DW_TAG_structure_type, DW_TAG_union_type, DW_TAG_enumeration_type} \<and> die_diename d = None"

definition is_inlined_subroutine :: "('d, 'l) die \<Rightarrow> bool" where
  "is_inlined_subroutine d \<longleftrightarrow> die_tag d = DW_TAG_inlined_subroutine"

section \<open>The description of a type\<close>

text \<open>What \<^verbatim>\<open>generate_data_type_info\<close> writes through its pointers, with the variable \<^verbatim>\<open>IS_POINTER\<close>.\<close>

record tinfo =
  ti_type :: cbuf
  ti_size :: u64
  ti_base_tag :: u16
  ti_encoding :: u16
  ti_base_off :: u64
  ti_membsz :: u64
  ti_membenc :: u16
  ti_class :: u32
  ti_dims :: "arrdim list"
  ti_pointer :: bool

definition no_tinfo :: tinfo where
  "no_tinfo = \<lparr>ti_type = None, ti_size = 0, ti_base_tag = 0, ti_encoding = 0, ti_base_off = 0, ti_membsz = 0,
     ti_membenc = 0, ti_class = 0, ti_dims = [], ti_pointer = False\<rparr>"

definition add_text :: "string \<Rightarrow> tinfo \<Rightarrow> tinfo" where
  "add_text t st = st\<lparr>ti_type := concat_c (ti_type st) t\<rparr>"

text \<open>The encoding is written with the 8 bytes of a number; the variable has the low two.\<close>

definition read_encoding :: "('d, 'a, 'l) dwarf \<Rightarrow> 'd option \<Rightarrow> u16 \<Rightarrow> u16" where
  "read_encoding dw h old =
     (case snd (get_die_attribute dw h DW_AT_encoding) of None \<Rightarrow> old
      | Some a \<Rightarrow> ucast (snd (get_form_data_from_attr dw (Some a) FORMSDATA (ucast old))))"

text \<open>Basic types, enumerations, structures and unions end the chain.\<close>

definition type_named :: "('d, 'a, 'l) dwarf \<Rightarrow> 'd option \<Rightarrow> u16 \<Rightarrow> tinfo \<Rightarrow> tinfo" where
  "type_named dw h tag st =
     (let st1 = st\<lparr>ti_base_tag := tag, ti_base_off := get_die_offset dw h,
                   ti_encoding := (if tag = DW_TAG_base_type \<and> \<not> ti_pointer st then read_encoding dw h (ti_encoding st)
                                   else ti_encoding st),
                   ti_class := ti_class st OR (if tag = DW_TAG_structure_type then DTC_STRUCT else 0)
                                 OR (if tag = DW_TAG_union_type then DTC_UNION else 0)\<rparr>;
          st2 = (case get_die_name_raw dw h of None \<Rightarrow> st1 | Some name \<Rightarrow> add_text name st1)
      in if ti_pointer st then st2 else st2\<lparr>ti_size := written (ti_size st2) (dw_bytesize dw h)\<rparr>)"

text \<open>The loops over parameters and dimensions; \<open>rec\<close> is the call of the function for another entry.\<close>

primrec type_params ::
    "('d, 'a, 'l) dwarf \<Rightarrow> ('d option \<Rightarrow> tinfo \<Rightarrow> tinfo run) \<Rightarrow> nat \<Rightarrow> 'd \<Rightarrow> tinfo \<Rightarrow> tinfo run" where
  "type_params dw rec 0 p st = Inl Diverges"
| "type_params dw rec (Suc n) p st =
     bind_run (rec (Some p) st) (\<lambda>st1.
       case get_sibling_die dw (Some p) of None \<Rightarrow> Inr (add_text '')'' st1)
       | Some s \<Rightarrow> type_params dw rec n s (add_text '', '' st1))"

definition type_subroutine ::
    "('d, 'a, 'l) dwarf \<Rightarrow> ('d option \<Rightarrow> tinfo \<Rightarrow> tinfo run) \<Rightarrow> nat \<Rightarrow> 'd option \<Rightarrow> tinfo \<Rightarrow> tinfo run" where
  "type_subroutine dw rec n h st =
     (let st1 = st\<lparr>ti_pointer := True\<rparr>
      in bind_run (case get_type_die dw h of None \<Rightarrow> Inr (add_text ''void'' st1) | Some t \<Rightarrow> rec (Some t) st1) (\<lambda>st2.
           let st3 = add_text ''('' st2
           in case get_child_die dw h of None \<Rightarrow> Inr (add_text ''void)'' st3) | Some p \<Rightarrow> type_params dw rec n p st3))"

definition member_info ::
    "('d, 'a, 'l) dwarf \<Rightarrow> ('d option \<Rightarrow> tinfo \<Rightarrow> tinfo run) \<Rightarrow> 'd option \<Rightarrow> tinfo \<Rightarrow> tinfo run" where
  "member_info dw rec h st =
     (case get_type_die dw h of None \<Rightarrow> Inr st
      | Some t \<Rightarrow> bind_run (rec (Some t) (st\<lparr>ti_type := None, ti_size := 0, ti_base_tag := 0, ti_encoding := 0,
                                          ti_base_off := 0, ti_dims := []\<rparr>)) (\<lambda>m.
          Inr (st\<lparr>ti_membsz := ti_size m, ti_membenc := ti_encoding m, ti_class := ti_class m,
                  ti_pointer := ti_pointer m\<rparr>)))"

primrec type_dims ::
    "('d, 'a, 'l) dwarf \<Rightarrow> ('d option \<Rightarrow> tinfo \<Rightarrow> tinfo run) \<Rightarrow> nat \<Rightarrow> 'd option \<Rightarrow> 'd \<Rightarrow> u32 \<Rightarrow> tinfo \<Rightarrow> tinfo run" where
  "type_dims dw rec 0 h sub curdim st = Inl Diverges"
| "type_dims dw rec (Suc n) h sub curdim st =
     bind_run (member_info dw rec h st) (\<lambda>st1.
       let (failed, attr) = get_die_attribute dw (Some sub) DW_AT_count
       in if failed then Inr st1
          else (let (err, nmemb) = get_form_data_from_attr dw attr FORMUDATA 0
            in if err then Inr (add_text ''[]'' (st1\<lparr>ti_dims := ti_dims st1 @ [create_arrdim curdim ARR_DIM_SZ_UNKNOWN],
                                                  ti_size := NON_COMPILE_TIME_CONSTANT_SIZE\<rparr>))
               else (let st2 = (add_text (concat [''['', show_hex nmemb, '']''])
                          (st1\<lparr>ti_dims := ti_dims st1 @ [create_arrdim curdim (ucast nmemb)]\<rparr>))
                                \<lparr>ti_size := ti_size st1 * nmemb\<rparr>
                 in case get_sibling_die dw (Some sub) of None \<Rightarrow> Inr st2
                    | Some s \<Rightarrow> type_dims dw rec n h s (curdim + 1) st2)))"

definition type_array ::
    "('d, 'a, 'l) dwarf \<Rightarrow> ('d option \<Rightarrow> tinfo \<Rightarrow> tinfo run) \<Rightarrow> nat \<Rightarrow> 'd option \<Rightarrow> tinfo \<Rightarrow> tinfo run" where
  "type_array dw rec n h st =
     (let st1 = st\<lparr>ti_class := ti_class st OR DTC_ARRAY\<rparr>
      in case get_child_die dw h of None \<Rightarrow> Inr st1 | Some sub \<Rightarrow> type_dims dw rec n h sub 0 st1)"

text \<open>The name of the type that is renamed is replaced at the end of the text.\<close>

definition type_typedef :: "('d, 'a, 'l) dwarf \<Rightarrow> 'd option \<Rightarrow> tinfo \<Rightarrow> tinfo run" where
  "type_typedef dw h st =
     (let outtype = (case ti_type st of None \<Rightarrow> [] | Some s \<Rightarrow> s)
      in case get_die_name_raw dw h of None \<Rightarrow> Inl NullDeref
         | Some name \<Rightarrow>
             (case get_die_name_raw dw (get_type_die dw h) of None \<Rightarrow> Inr (st\<lparr>ti_type := Some name\<rparr>)
              | Some typedeftype \<Rightarrow>
                  if outtype = [] \<or> outtype = typedeftype then Inr (st\<lparr>ti_type := Some name\<rparr>)
                  else if typedeftype = [] then Inl OutOfBounds
                  else Inr (st\<lparr>ti_type := Some (take (length outtype - length typedeftype) outtype @ name)\<rparr>)))"

definition type_qualified :: "u16 \<Rightarrow> tinfo \<Rightarrow> tinfo run" where
  "type_qualified tag st =
     (case ti_type st of None \<Rightarrow> Inl NullDeref
      | Some outtype \<Rightarrow>
          Inr (add_text (dwarf_type_tag_to_string tag)
            (if outtype \<noteq> [] \<and> last outtype \<noteq> CHR ''*'' then add_text '' '' st else st)))"

definition type_step ::
    "('d, 'a, 'l) dwarf \<Rightarrow> u16 \<Rightarrow> ('d option \<Rightarrow> tinfo \<Rightarrow> tinfo run) \<Rightarrow> nat \<Rightarrow> 'd option \<Rightarrow> tinfo \<Rightarrow> tinfo run" where
  "type_step dw asz rec n h st0 =
     (let tag = get_die_tag_raw dw h;
          st = (if tag = DW_TAG_pointer_type
                then st0\<lparr>ti_pointer := True, ti_size := (if ti_size st0 = 0 then ucast asz else ti_size st0)\<rparr> else st0);
          (failed, cnt) = get_die_attrlist dw h in
      if tag = DW_TAG_formal_parameter then rec (get_type_die dw h) st
      else if tag = DW_TAG_subroutine_type then type_subroutine dw rec n h st
      else if tag \<in> {DW_TAG_base_type, DW_TAG_enumeration_type, DW_TAG_structure_type, DW_TAG_union_type} then
        Inr (type_named dw h tag st)
      else if cnt = 0 \<and> tag \<in> {DW_TAG_pointer_type, DW_TAG_const_type, DW_TAG_volatile_type, DW_TAG_restrict_type} then
        Inr (add_text (if tag = DW_TAG_pointer_type then ''void *'' else dwarf_type_tag_to_string tag @ '' void'') st)
      else if failed then Inr st
      else bind_run (rec (get_type_die dw h) st) (\<lambda>st1.
        if tag = DW_TAG_array_type then type_array dw rec n h st1
        else if tag = DW_TAG_typedef then type_typedef dw h st1
        else type_qualified tag st1))"

primrec generate_data_type_info ::
    "nat \<Rightarrow> ('d, 'a, 'l) dwarf \<Rightarrow> u16 \<Rightarrow> 'd option \<Rightarrow> tinfo \<Rightarrow> tinfo run" where
  "generate_data_type_info 0 dw asz h st = Inl Diverges"
| "generate_data_type_info (Suc n) dw asz h st = type_step dw asz (generate_data_type_info n dw asz) n h st"

definition other_class :: "u32 \<Rightarrow> u32" where
  "other_class c = (if c AND (DTC_POINTER OR DTC_STRUCT OR DTC_UNION OR DTC_ARRAY) = 0 then c OR DTC_OTHER else c)"

definition get_die_data_type_info ::
    "nat \<Rightarrow> ('d, 'a, 'l) dwarf \<Rightarrow> u16 \<Rightarrow> ('d, 'l) die \<Rightarrow> ('d, 'l) die run" where
  "get_die_data_type_info n dw asz d =
     (case dw_attr dw (die_dwarfdie d) DW_AT_type of
        DW_DLV_OK attr \<Rightarrow>
          (let off = written (die_datatypedieoffset d) (dw_formref dw (Some attr)); d1 = d\<lparr>die_datatypedieoffset := off\<rparr>
           in case dw_offdie dw off of
                DW_DLV_OK t \<Rightarrow>
                  (let tag = written 0 (dw_tag dw (Some t)); d2 = d1\<lparr>die_datatypedie := Some t, die_datatypedietag := tag\<rparr>
                   in if tag = DW_TAG_base_type \<or> tag = DW_TAG_enumeration_type then
                        Inr (d2\<lparr>die_datatypename := given (dw_diename dw (Some t)),
                               die_databytessize := written (die_databytessize d2) (dw_bytesize dw (Some t)),
                               die_datatypeencoding := read_encoding dw (Some t) (die_datatypeencoding d2),
                               die_datatypeclass := other_class 0\<rparr>)
                      else bind_run (generate_data_type_info n dw asz (Some t) no_tinfo) (\<lambda>st.
                        Inr (d2\<lparr>die_databytessize := ti_size st, die_datatypename := ti_type st,
                               die_datatypeencoding := ti_encoding st, die_basedatatypedieoffset := ti_base_off st,
                               die_arrmembsz := ti_membsz st, die_arrdims := ti_dims st,
                               die_datatypeclass :=
                                 other_class (ti_class st OR (if ti_pointer st then DTC_POINTER else 0))\<rparr>)))
              | _ \<Rightarrow> Inr d1)
      | _ \<Rightarrow> Inr d)"

section \<open>The state of the construction\<close>

text \<open>The names given to entries without one are numbered by counters of the whole program.\<close>

record die_counts =
  lex_block_count :: int
  anon_struct_count :: int
  anon_union_count :: int
  anon_enum_count :: int

record ('d, 'l) dtree =
  dt_blocks :: "('d, 'l) die option list"
  dt_parents :: "nat option list"
  dt_counts :: die_counts

definition no_dies :: "('d, 'l) dtree" where
  "no_dies = \<lparr>dt_blocks = [], dt_parents = replicate 100 None,
     dt_counts = \<lparr>lex_block_count = 0, anon_struct_count = 0, anon_union_count = 0, anon_enum_count = 0\<rparr>\<rparr>"

definition die_at :: "('d, 'l) die option list \<Rightarrow> nat \<Rightarrow> ('d, 'l) die run" where
  "die_at B i =
     (if i < length B then (case B ! i of None \<Rightarrow> Inl UseAfterFree | Some d \<Rightarrow> Inr d) else Inl OutOfBounds)"

definition deref :: "('d, 'l) die option list \<Rightarrow> nat option \<Rightarrow> ('d, 'l) die run" where
  "deref B p = (case p of None \<Rightarrow> Inl NullDeref | Some i \<Rightarrow> die_at B i)"

text \<open>\<^verbatim>\<open>CUR_PARENTS[level]\<close>, of 100 elements.\<close>

definition parent_at :: "('d, 'l) dtree \<Rightarrow> nat \<Rightarrow> nat option run" where
  "parent_at S level = (if level < length (dt_parents S) then Inr (dt_parents S ! level) else Inl OutOfBounds)"

definition set_cur_parent :: "('d, 'l) dtree \<Rightarrow> nat \<Rightarrow> nat option \<Rightarrow> ('d, 'l) dtree run" where
  "set_cur_parent S level p =
     (if level < length (dt_parents S) then Inr (S\<lparr>dt_parents := (dt_parents S)[level := p]\<rparr>) else Inl OutOfBounds)"

section \<open>Locations\<close>

text \<open>The bounds of an entry of a list count from the start of the compilation unit.\<close>

definition location_of :: "('d, 'l) dtree \<Rightarrow> loc_entry \<Rightarrow> loc_op \<Rightarrow> locdesc run" where
  "location_of S le op =
     (let describe = (\<lambda>low. create_location_description (le_source le) (le_lopc le + low) (le_hipc le + low)
            (op_code op) (op_opd1 op) (op_opd2 op) (op_opd3 op) (op_branch op))
      in if le_source le = LOCATION_LIST_ENTRY
         then bind_run (parent_at S 0) (\<lambda>p. bind_run (deref (dt_blocks S) p) (\<lambda>cu. Inr (describe (die_low_pc cu))))
         else Inr (describe 0))"

definition add_location_op ::
    "('d, 'l) dtree \<Rightarrow> u16 \<Rightarrow> nat \<Rightarrow> loc_entry \<Rightarrow> nat \<times> loc_op dres \<Rightarrow> ('d, 'l) die \<Rightarrow> ('d, 'l) die run" where
  "add_location_op S whichattr i le jop d =
     (case given (snd jop) of None \<Rightarrow> Inr d
      | Some op \<Rightarrow> bind_run (location_of S le op) (\<lambda>ld.
          if fst jop > 0 then
            bind_run (add_additional_location_description (die_loclists d) ld i) (\<lambda>ls. Inr (d\<lparr>die_loclists := ls\<rparr>))
          else if whichattr = DW_AT_location then Inr (d\<lparr>die_loclists := (die_loclists d)[i := [ld]]\<rparr>)
          else if whichattr = DW_AT_frame_base then Inr (d\<lparr>die_framebaselocdesc := [ld]\<rparr>)
          else Inr d))"

definition add_location_entry ::
    "('d, 'l) dtree \<Rightarrow> u16 \<Rightarrow> nat \<times> loc_entry dres \<Rightarrow> ('d, 'l) die \<Rightarrow> ('d, 'l) die run" where
  "add_location_entry S whichattr ie d =
     (case given (snd ie) of None \<Rightarrow> Inr d
      | Some le \<Rightarrow> run_list (add_location_op S whichattr (fst ie) le) (enumerate 0 (le_ops le)) d)"

text \<open>The next subroutine around the level; \<open>k\<close> is \<^verbatim>\<open>pos + 1\<close>.\<close>

definition is_subprogram :: "('d, 'l) dtree \<Rightarrow> nat option \<Rightarrow> bool run" where
  "is_subprogram S p =
     (case p of None \<Rightarrow> Inr False | Some i \<Rightarrow> bind_run (die_at (dt_blocks S) i) (\<lambda>d. Inr (die_tag d = DW_TAG_subprogram)))"

primrec enclosing_subprogram :: "('d, 'l) dtree \<Rightarrow> nat \<Rightarrow> nat option \<Rightarrow> nat option run" where
  "enclosing_subprogram S 0 cur = Inr cur"
| "enclosing_subprogram S (Suc pos) cur =
     bind_run (is_subprogram S cur) (\<lambda>found.
       if found then Inr cur else bind_run (parent_at S pos) (enclosing_subprogram S pos))"

definition copy_location_lists ::
    "('d, 'a, 'l) dwarf \<Rightarrow> ('d, 'l) dtree \<Rightarrow> u16 \<Rightarrow> nat \<Rightarrow> ('d, 'l) die \<Rightarrow> ('d, 'l) die run" where
  "copy_location_lists dw S whichattr level d =
     (case snd (get_die_attribute dw (die_dwarfdie d) whichattr) of None \<Rightarrow> Inr d
      | Some attr \<Rightarrow>
          bind_run (case dw_loclist dw attr of
              DW_DLV_OK es \<Rightarrow> run_list (add_location_entry S whichattr) (enumerate 0 es)
                                (d\<lparr>die_loclists := initialize_die_loclists (length es)\<rparr>)
            | _ \<Rightarrow> Inr d) (\<lambda>d1.
          if die_tag d1 \<noteq> DW_TAG_subprogram \<and> level > 0 then
            bind_run (parent_at S level) (\<lambda>p0.
            bind_run (enclosing_subprogram S (Suc level) p0) (\<lambda>p.
            bind_run (deref (dt_blocks S) p) (\<lambda>f.
              Inr (if die_tag f = DW_TAG_subprogram
                   then d1\<lparr>die_framebaselocdesc := copy_locdesc (die_framebaselocdesc f)\<rparr> else d1))))
          else Inr d1))"

section \<open>Copying an entry\<close>

definition name_anonymous :: "die_counts \<Rightarrow> ('d, 'l) die \<Rightarrow> ('d, 'l) die \<times> die_counts" where
  "name_anonymous c d =
     (let named = (\<lambda>kind k. d\<lparr>die_anon := True, die_diename := Some (concat [''ANON_'', kind, ''_'', show_dec k])\<rparr>)
      in if die_tag d = DW_TAG_union_type
         then (named ''UNION'' (anon_union_count c), c\<lparr>anon_union_count := anon_union_count c + 1\<rparr>)
         else if die_tag d = DW_TAG_enumeration_type
         then (named ''ENUM'' (anon_enum_count c), c\<lparr>anon_enum_count := anon_enum_count c + 1\<rparr>)
         else (named ''STRUCT'' (anon_struct_count c), c\<lparr>anon_struct_count := anon_struct_count c + 1\<rparr>))"

definition read_abstract_origin :: "('d, 'a, 'l) dwarf \<Rightarrow> ('d, 'l) die \<Rightarrow> ('d, 'l) die" where
  "read_abstract_origin dw d =
     (let d1 = d\<lparr>die_inlinedsub := True\<rparr>
      in case dw_attr dw (die_dwarfdie d) DW_AT_abstract_origin of
           DW_DLV_OK attr \<Rightarrow> d1\<lparr>die_aboriginoff := written (die_aboriginoff d) (dw_formref dw (Some attr))\<rparr>
         | _ \<Rightarrow> d1)"

definition label_block :: "die_counts \<Rightarrow> ('d, 'l) die \<Rightarrow> ('d, 'l) die \<times> die_counts" where
  "label_block c d =
     (if die_diename d = None \<and> die_tag d = DW_TAG_lexical_block
      then (d\<lparr>die_diename := Some (''LEXICAL_BLOCK_'' @ show_dec (lex_block_count c)), die_lexblock := True\<rparr>,
            c\<lparr>lex_block_count := lex_block_count c + 1\<rparr>)
      else (d, c))"

definition copy_die_head :: "('d, 'a, 'l) dwarf \<Rightarrow> die_counts \<Rightarrow> ('d, 'l) die \<Rightarrow> ('d, 'l) die \<times> die_counts" where
  "copy_die_head dw c d0 =
     (let h = die_dwarfdie d0;
          d = d0\<lparr>die_diename := given (dw_diename dw h), die_dieoffset := written 0 (dw_dieoffset dw h),
                 die_tag := written 0 (dw_tag dw h)\<rparr>;
          (d1, c1) = (if is_anonymous_type d then name_anonymous c d
                      else if is_inlined_subroutine d then (read_abstract_origin dw d, c) else (d, c));
          (d2, c2) = label_block c1 (d1\<lparr>die_tagname := dw_tag_name dw (die_tag d1)\<rparr>)
      in (d2\<lparr>die_haschildren := dw_children_flag dw h\<rparr>, c2))"

definition copy_die_place :: "('d, 'a, 'l) dwarf \<Rightarrow> ('d, 'l) die \<Rightarrow> ('d, 'l) die" where
  "copy_die_place dw d =
     (let h = die_dwarfdie d; low = written (die_low_pc d) (dw_lowpc dw h)
      in d\<lparr>die_low_pc := low, die_high_pc := written (die_high_pc d) (dw_highpc dw h) + low,
           die_memb_off := (case snd (get_die_attribute dw h DW_AT_data_member_location) of None \<Rightarrow> die_memb_off d
              | Some a \<Rightarrow> snd (get_form_data_from_attr dw (Some a) FORMUDATA (die_memb_off d)))\<rparr>)"

definition copy_die_info ::
    "nat \<Rightarrow> ('d, 'a, 'l) dwarf \<Rightarrow> u16 \<Rightarrow> ('d, 'l) dtree \<Rightarrow> nat \<Rightarrow> ('d, 'l) die \<Rightarrow> (('d, 'l) die \<times> die_counts) run" where
  "copy_die_info n dw asz S level d =
     (let (d1, c1) = copy_die_head dw (dt_counts S) d
      in bind_run (get_die_data_type_info n dw asz d1) (\<lambda>d2.
         bind_run (copy_location_lists dw S DW_AT_location level (copy_die_place dw d2)) (\<lambda>d3.
         bind_run (copy_location_lists dw S DW_AT_frame_base level d3) (\<lambda>d4. Inr (d4, c1)))))"

text \<open>The new block is the last one.\<close>

definition create_new_die ::
    "nat \<Rightarrow> ('d, 'a, 'l) dwarf \<Rightarrow> u16 \<Rightarrow> ('d, 'l) dtree \<Rightarrow> 'd option \<Rightarrow> nat \<Rightarrow> (('d, 'l) dtree \<times> nat option) run" where
  "create_new_die n dw asz S based_on level =
     (case based_on of None \<Rightarrow> Inr (S, None)
      | Some h \<Rightarrow> bind_run (copy_die_info n dw asz S level (new_die (Some h))) (\<lambda>(d, c).
          Inr (S\<lparr>dt_blocks := dt_blocks S @ [Some (if die_haschildren d then d\<lparr>die_children := Some []\<rparr> else d)],
                 dt_counts := c\<rparr>, Some (length (dt_blocks S)))))"

section \<open>The tree\<close>

definition accepted_tags :: "u16 list" where
  "accepted_tags =
     [DW_TAG_compile_unit, DW_TAG_subprogram, DW_TAG_inlined_subroutine, DW_TAG_formal_parameter,
      DW_TAG_enumeration_type, DW_TAG_enumerator, DW_TAG_structure_type, DW_TAG_union_type, DW_TAG_member,
      DW_TAG_variable, DW_TAG_lexical_block]"

definition should_add_die_to_tree :: "('d, 'l) die \<Rightarrow> bool" where
  "should_add_die_to_tree d \<longleftrightarrow> die_tag d \<in> set accepted_tags"

text \<open>The nearest parent below the level; before the start of the array is out of its bounds.\<close>

primrec closest_parent :: "('d, 'l) dtree \<Rightarrow> nat \<Rightarrow> nat run" where
  "closest_parent S 0 = Inl OutOfBounds"
| "closest_parent S (Suc level) =
     bind_run (parent_at S level) (\<lambda>p. case p of Some i \<Rightarrow> Inr i | None \<Rightarrow> closest_parent S level)"

definition attach :: "('d, 'l) dtree \<Rightarrow> nat \<Rightarrow> nat \<Rightarrow> ('d, 'l) dtree run" where
  "attach S parent current =
     bind_run (die_at (dt_blocks S) parent) (\<lambda>p.
     bind_run (die_at (dt_blocks S) current) (\<lambda>d.
       Inr (S\<lparr>dt_blocks := (dt_blocks S)
         [parent := Some (p\<lparr>die_children := Some ((case die_children p of None \<Rightarrow> [] | Some cs \<Rightarrow> cs) @ [current])\<rparr>),
          current := Some (d\<lparr>die_parent := Some parent\<rparr>)]\<rparr>)))"

definition add_die_to_tree :: "('d, 'l) dtree \<Rightarrow> nat \<Rightarrow> nat \<Rightarrow> ('d, 'l) dtree run" where
  "add_die_to_tree S current level =
     (if level = 0 then set_cur_parent S level (Some current)
      else bind_run (die_at (dt_blocks S) current) (\<lambda>d.
        if die_haschildren d then
          bind_run (set_cur_parent S level (Some current)) (\<lambda>S1.
          bind_run (parent_at S1 (level - 1)) (\<lambda>p. case p of None \<Rightarrow> Inr S1 | Some i \<Rightarrow> attach S1 i current))
        else bind_run (closest_parent S level) (\<lambda>i. attach S i current)))"

text \<open>A block of the tree is freed with what it holds.\<close>

definition free_block :: "('d, 'l) dtree \<Rightarrow> nat \<Rightarrow> ('d, 'l) dtree run" where
  "free_block S i = bind_run (die_at (dt_blocks S) i) (\<lambda>_. Inr (S\<lparr>dt_blocks := (dt_blocks S)[i := None]\<rparr>))"

definition place_die :: "('d, 'l) dtree \<Rightarrow> nat option \<Rightarrow> nat \<Rightarrow> ('d, 'l) dtree run" where
  "place_die S current level =
     (case current of None \<Rightarrow> Inl NullDeref
      | Some i \<Rightarrow> bind_run (die_at (dt_blocks S) i) (\<lambda>d.
          if should_add_die_to_tree d then add_die_to_tree S i level else free_block S i))"

text \<open>
  The loop over an entry \<open>h\<close> at a level and its siblings, with the call for the first child of each. Every
  turn of it and every call takes one of \<open>n\<close>.
\<close>

fun tree_loop ::
    "nat \<Rightarrow> ('d, 'a, 'l) dwarf \<Rightarrow> u16 \<Rightarrow> ('d, 'l) dtree \<Rightarrow> 'd \<Rightarrow> nat \<Rightarrow> ('d, 'l) dtree run" where
  "tree_loop 0 dw asz S h level = Inl Diverges"
| "tree_loop (Suc n) dw asz S h level =
     bind_run (case dw_child dw (Some h) of
         DW_DLV_OK c \<Rightarrow>
           bind_run (create_new_die n dw asz S (Some c) level) (\<lambda>(S1, cd).
           bind_run (place_die S1 cd (level + 1)) (\<lambda>S2. tree_loop n dw asz S2 c (level + 1)))
       | _ \<Rightarrow> Inr S) (\<lambda>S3.
     case dw_sibling dw (Some h) of
       DW_DLV_NO_ENTRY \<Rightarrow> set_cur_parent S3 level None
     | sib \<Rightarrow>
         bind_run (create_new_die n dw asz S3 (given sib) level) (\<lambda>(S4, nd).
         bind_run (place_die S4 nd level) (\<lambda>S5.
           case given sib of None \<Rightarrow> Inl NullDeref | Some s \<Rightarrow> tree_loop n dw asz S5 s level)))"

definition construct_die_tree ::
    "nat \<Rightarrow> ('d, 'a, 'l) dwarf \<Rightarrow> u16 \<Rightarrow> ('d, 'l) dtree \<Rightarrow> nat option \<Rightarrow> 'd \<Rightarrow> nat \<Rightarrow> ('d, 'l) dtree run" where
  "construct_die_tree n dw asz S current cur_die level =
     bind_run (place_die S current level) (\<lambda>S1. tree_loop n dw asz S1 cur_die level)"

definition read_srclines :: "('d, 'a, 'l) dwarf \<Rightarrow> ('d, 'l) dtree \<Rightarrow> nat \<Rightarrow> (('d, 'l) dtree \<times> nat sres) run" where
  "read_srclines dw S r =
     bind_run (die_at (dt_blocks S) r) (\<lambda>d.
       case dw_srclines dw (die_dwarfdie d) of
         DW_DLV_ERROR \<Rightarrow> Inr (S, Inl (SYM_ERROR_KIND, SYM_DWARF_SRCLINES_FAILED))
       | ls \<Rightarrow> Inr (S\<lparr>dt_blocks := (dt_blocks S)[r := Some (d\<lparr>die_srclines := written (die_srclines d) ls\<rparr>)]\<rparr>, Inr r))"

definition initialize_and_build_die_tree_from_root_die ::
    "nat \<Rightarrow> ('d, 'a, 'l) dwarf \<Rightarrow> u16 \<Rightarrow> 'd dres \<Rightarrow> ('d, 'l) dtree \<Rightarrow> (('d, 'l) dtree \<times> nat sres) run" where
  "initialize_and_build_die_tree_from_root_die n dw asz sib S =
     (case sib of DW_DLV_ERROR \<Rightarrow> Inr (S, Inl (SYM_ERROR_KIND, SYM_DWARF_SIBLING_OF_B_FAILED))
      | DW_DLV_NO_ENTRY \<Rightarrow> Inl NullDeref
      | DW_DLV_OK h \<Rightarrow>
          bind_run (create_new_die n dw asz S (Some h) 0) (\<lambda>(S1, root).
            case root of None \<Rightarrow> Inl NullDeref
            | Some r \<Rightarrow>
                bind_run (construct_die_tree n dw asz (S1\<lparr>dt_parents := (replicate 100 None)[0 := Some r]\<rparr>) root h 0) (\<lambda>S2.
                read_srclines dw S2 r)))"

section \<open>Freeing the tree\<close>

text \<open>
  The blocks of the children are freed, not that of the entry itself: what it holds is gone. \<open>n\<close> bounds the
  depth; an index is always larger than that of its parent, so the number of blocks is enough.
\<close>

definition die_free :: "('d, 'l) die \<Rightarrow> ('d, 'l) die" where
  "die_free d = d\<lparr>die_dwarfdie := None, die_srclines := [], die_diename := None, die_datatypedie := None,
     die_arrdims := [], die_loclists := [], die_framebaselocdesc := []\<rparr>"

fun die_tree_free :: "nat \<Rightarrow> ('d, 'l) dtree \<Rightarrow> nat \<Rightarrow> ('d, 'l) dtree run" where
  "die_tree_free 0 S i = Inl Diverges"
| "die_tree_free (Suc n) S i =
     bind_run (die_at (dt_blocks S) i) (\<lambda>d.
       if \<not> die_haschildren d then Inr (S\<lparr>dt_blocks := (dt_blocks S)[i := Some (die_free d)]\<rparr>)
       else (case die_children d of None \<Rightarrow> Inl NullDeref
         | Some cs \<Rightarrow>
             bind_run (run_list (\<lambda>c S1. bind_run (die_tree_free n S1 c) (\<lambda>S2. free_block S2 c)) cs
               (S\<lparr>dt_blocks := (dt_blocks S)[i := Some (die_free d)]\<rparr>)) (\<lambda>S3.
             bind_run (die_at (dt_blocks S3) i) (\<lambda>d1.
               Inr (S3\<lparr>dt_blocks := (dt_blocks S3)[i := Some (d1\<lparr>die_children := None\<rparr>)]\<rparr>)))))"

end
