(* ===== verification/Dieinfo.thy ===== *)
theory Dieinfo
  imports Die
begin

text \<open>
  What is asked of the tree of entries, the second half of \<^verbatim>\<open>source/symbol/die.c\<close>: the fields of an entry,
  its members, parameters and variables, the lines of a compilation unit, and the search. An entry is given
  by the address of its block, which may be NULL, and \<open>outp\<close> is whether the pointers for the results are
  not NULL. The counts the results are added to are 0 when the functions are called.
\<close>

section \<open>Fields\<close>

definition die_get ::
    "('d, 'l) die option list \<Rightarrow> nat option \<Rightarrow> bool \<Rightarrow> (('d, 'l) die \<Rightarrow> 'v) \<Rightarrow> 'v sres run" where
  "die_get B p outp f =
     (case p of None \<Rightarrow> Inr invalid_die
      | Some i \<Rightarrow> if \<not> outp then Inr invalid_parameter else bind_run (die_at B i) (\<lambda>d. Inr (Inr (f d))))"

datatype represents = PTR | STRUCT | UNION | ARRAY

definition does_die_represent_what ::
    "('d, 'l) die option list \<Rightarrow> nat option \<Rightarrow> bool \<Rightarrow> represents \<Rightarrow> u32 sres run" where
  "does_die_represent_what B p outp what =
     die_get B p outp (\<lambda>d. die_datatypeclass d AND
       (case what of PTR \<Rightarrow> DTC_POINTER | STRUCT \<Rightarrow> DTC_STRUCT | UNION \<Rightarrow> DTC_UNION | ARRAY \<Rightarrow> DTC_ARRAY))"

definition die_represents_array :: "('d, 'l) die option list \<Rightarrow> nat option \<Rightarrow> bool \<Rightarrow> u32 sres run" where
  "die_represents_array B p outp = does_die_represent_what B p outp ARRAY"

definition die_represents_pointer :: "('d, 'l) die option list \<Rightarrow> nat option \<Rightarrow> bool \<Rightarrow> u32 sres run" where
  "die_represents_pointer B p outp = does_die_represent_what B p outp PTR"

definition die_represents_struct :: "('d, 'l) die option list \<Rightarrow> nat option \<Rightarrow> bool \<Rightarrow> u32 sres run" where
  "die_represents_struct B p outp = does_die_represent_what B p outp STRUCT"

definition die_represents_union :: "('d, 'l) die option list \<Rightarrow> nat option \<Rightarrow> bool \<Rightarrow> u32 sres run" where
  "die_represents_union B p outp = does_die_represent_what B p outp UNION"

definition die_get_array_elem_size :: "('d, 'l) die option list \<Rightarrow> nat option \<Rightarrow> bool \<Rightarrow> u64 sres run" where
  "die_get_array_elem_size B p outp = die_get B p outp die_arrmembsz"

definition die_get_array_size_determined_at_runtime ::
    "('d, 'l) die option list \<Rightarrow> nat option \<Rightarrow> bool \<Rightarrow> bool sres run" where
  "die_get_array_size_determined_at_runtime B p outp =
     die_get B p outp (\<lambda>d. die_databytessize d = NON_COMPILE_TIME_CONSTANT_SIZE)"

text \<open>The name is copied without its end into the buffer of the caller.\<close>

definition die_get_data_type_str ::
    "('d, 'l) die option list \<Rightarrow> nat option \<Rightarrow> string option \<Rightarrow> string sres run" where
  "die_get_data_type_str B p datatypeout =
     (case p of None \<Rightarrow> Inr invalid_die
      | Some i \<Rightarrow> (case datatypeout of None \<Rightarrow> Inr invalid_parameter
          | Some buf \<Rightarrow> bind_run (die_at B i) (\<lambda>d.
              case die_datatypename d of None \<Rightarrow> Inr (Inl (DIE_ERROR_KIND, DIE_NO_DATA_TYPE_NAME))
              | Some name \<Rightarrow> bind_run (blit buf 0 name) (\<lambda>b. Inr (Inr b)))))"

definition die_get_encoding :: "('d, 'l) die option list \<Rightarrow> nat option \<Rightarrow> bool \<Rightarrow> u64 sres run" where
  "die_get_encoding B p outp = die_get B p outp (\<lambda>d. ucast (die_datatypeencoding d))"

definition die_get_high_pc :: "('d, 'l) die option list \<Rightarrow> nat option \<Rightarrow> bool \<Rightarrow> u64 sres run" where
  "die_get_high_pc B p outp = die_get B p outp die_high_pc"

definition die_get_low_pc :: "('d, 'l) die option list \<Rightarrow> nat option \<Rightarrow> bool \<Rightarrow> u64 sres run" where
  "die_get_low_pc B p outp = die_get B p outp die_low_pc"

definition die_get_name :: "('d, 'l) die option list \<Rightarrow> nat option \<Rightarrow> bool \<Rightarrow> string option sres run" where
  "die_get_name B p outp = die_get B p outp die_diename"

definition die_get_member_offset :: "('d, 'l) die option list \<Rightarrow> nat option \<Rightarrow> bool \<Rightarrow> u64 sres run" where
  "die_get_member_offset B p outp = die_get B p outp die_memb_off"

definition die_get_parent :: "('d, 'l) die option list \<Rightarrow> nat option \<Rightarrow> bool \<Rightarrow> nat option sres run" where
  "die_get_parent B p outp = die_get B p outp die_parent"

definition die_get_variable_size :: "('d, 'l) die option list \<Rightarrow> nat option \<Rightarrow> bool \<Rightarrow> u64 sres run" where
  "die_get_variable_size B p outp = die_get B p outp die_databytessize"

definition die_is_member_of_struct_or_union ::
    "('d, 'l) die option list \<Rightarrow> nat option \<Rightarrow> bool \<Rightarrow> bool sres run" where
  "die_is_member_of_struct_or_union B p outp =
     (case p of None \<Rightarrow> Inr invalid_die
      | Some i \<Rightarrow> bind_run (die_at B i) (\<lambda>d. case die_parent d of None \<Rightarrow> Inr (Inl (DIE_ERROR_KIND, DIE_NO_PARENT))
          | Some q \<Rightarrow> if \<not> outp then Inr invalid_parameter
              else bind_run (die_at B q) (\<lambda>pd. Inr (Inr (die_tag d = DW_TAG_member \<and>
                     die_tag pd \<in> {DW_TAG_structure_type, DW_TAG_union_type})))))"

section \<open>The search\<close>

datatype die_search_way =
  DIE_SEARCH_IF_NAME_MATCHES string | DIE_SEARCH_FUNCTION_BY_PC u64 | DIE_SEARCH_IF_DIE_OFFSET_MATCHES u64

definition die_is_func_in_range :: "('d, 'l) die \<Rightarrow> u64 \<Rightarrow> bool" where
  "die_is_func_in_range d pc \<longleftrightarrow> die_tag d = DW_TAG_subprogram \<and> pc \<ge> die_low_pc d \<and> pc < die_high_pc d"

definition die_name_matches :: "('d, 'l) die \<Rightarrow> string \<Rightarrow> bool" where
  "die_name_matches d name \<longleftrightarrow> die_diename d = Some name"

definition die_offset_matches :: "('d, 'l) die \<Rightarrow> u64 \<Rightarrow> bool" where
  "die_offset_matches d off \<longleftrightarrow> die_dieoffset d = off"

fun comparefxn :: "die_search_way \<Rightarrow> ('d, 'l) die \<Rightarrow> bool" where
  "comparefxn (DIE_SEARCH_IF_NAME_MATCHES name) d = die_name_matches d name"
| "comparefxn (DIE_SEARCH_FUNCTION_BY_PC pc) d = die_is_func_in_range d pc"
| "comparefxn (DIE_SEARCH_IF_DIE_OFFSET_MATCHES off) d = die_offset_matches d off"

text \<open>\<open>n\<close> bounds the depth; the children have larger addresses, so one more than the blocks is enough.\<close>

fun die_search_internal ::
    "nat \<Rightarrow> ('d, 'l) die option list \<Rightarrow> die_search_way \<Rightarrow> nat option \<Rightarrow> nat option \<Rightarrow> nat option run" where
  "die_search_internal 0 B way p out = Inl Diverges"
| "die_search_internal (Suc n) B way p out =
     (if out \<noteq> None then Inr out
      else (case p of None \<Rightarrow> Inr out
        | Some i \<Rightarrow> bind_run (die_at B i) (\<lambda>d.
            if comparefxn way d then Inr (Some i)
            else if \<not> die_haschildren d then Inr out
            else (case die_children d of None \<Rightarrow> Inl NullDeref
              | Some cs \<Rightarrow> run_list (\<lambda>c o1. die_search_internal n B way (Some c) o1) cs out))))"

definition die_search :: "('d, 'l) die option list \<Rightarrow> nat option \<Rightarrow> die_search_way \<Rightarrow> nat sres run" where
  "die_search B start way =
     bind_run (die_search_internal (Suc (length B)) B way start None) (\<lambda>out.
       Inr (case out of None \<Rightarrow> Inl (DIE_ERROR_KIND, DIE_DIE_NOT_FOUND) | Some i \<Rightarrow> Inr i))"

section \<open>Members, parameters and variables\<close>

definition children_with_tag :: "('d, 'l) die option list \<Rightarrow> u16 \<Rightarrow> ('d, 'l) die \<Rightarrow> nat list run" where
  "children_with_tag B tag d =
     (case die_children d of None \<Rightarrow> Inl NullDeref
      | Some cs \<Rightarrow> run_list (\<lambda>c acc. bind_run (die_at B c) (\<lambda>x.
          Inr (if die_tag x = tag then acc @ [c] else acc))) cs [])"

definition die_get_members ::
    "('d, 'l) die option list \<Rightarrow> nat option \<Rightarrow> nat option \<Rightarrow> bool \<Rightarrow> nat list sres run" where
  "die_get_members B p cu_root_die outp =
     (case p of None \<Rightarrow> Inr invalid_die
      | Some i \<Rightarrow> if \<not> outp then Inr invalid_parameter
          else bind_run (die_at B i) (\<lambda>d.
            bind_run (if die_tag d \<in> {DW_TAG_structure_type, DW_TAG_union_type} then Inr (Inr i)
                      else die_search B cu_root_die (DIE_SEARCH_IF_DIE_OFFSET_MATCHES (die_basedatatypedieoffset d)))
              (\<lambda>r. case r of Inl _ \<Rightarrow> Inr (Inl (DIE_ERROR_KIND, DIE_NOT_STRUCT_OR_UNION))
                  | Inr target \<Rightarrow> bind_run (die_at B target) (\<lambda>t.
                      bind_run (children_with_tag B DW_TAG_member t) (\<lambda>ms. Inr (Inr ms))))))"

definition die_get_parameters :: "('d, 'l) die option list \<Rightarrow> nat option \<Rightarrow> bool \<Rightarrow> nat list sres run" where
  "die_get_parameters B p outp =
     (case p of None \<Rightarrow> Inr invalid_die
      | Some i \<Rightarrow> bind_run (die_at B i) (\<lambda>d.
          if die_tag d \<noteq> DW_TAG_subprogram then Inr (Inl (DIE_ERROR_KIND, DIE_NOT_FUNCTION_DIE))
          else if \<not> outp then Inr invalid_parameter
          else bind_run (children_with_tag B DW_TAG_formal_parameter d) (\<lambda>ps. Inr (Inr ps))))"

fun variables_below :: "nat \<Rightarrow> ('d, 'l) die option list \<Rightarrow> nat \<Rightarrow> nat list \<Rightarrow> nat list run" where
  "variables_below 0 B i acc = Inl Diverges"
| "variables_below (Suc n) B i acc =
     bind_run (die_at B i) (\<lambda>d.
       let acc1 = (if die_tag d = DW_TAG_variable then acc @ [i] else acc)
       in if \<not> die_haschildren d then Inr acc1
          else (case die_children d of None \<Rightarrow> Inl NullDeref
            | Some cs \<Rightarrow> run_list (\<lambda>c a. variables_below n B c a) cs acc1))"

text \<open>No error is set when it returns 1, which is None here.\<close>

definition die_get_variables :: "('d, 'l) die option list \<Rightarrow> nat option \<Rightarrow> bool \<Rightarrow> nat list option run" where
  "die_get_variables B p outp =
     (case p of None \<Rightarrow> Inr None
      | Some i \<Rightarrow> if \<not> outp then Inr None
          else bind_run (variables_below (Suc (length B)) B i []) (\<lambda>vs. Inr (Some vs)))"

section \<open>The text that describes a variable\<close>

text \<open>\<^verbatim>\<open>%*s\<close> with an empty text, \<^verbatim>\<open>%s\<close> with a pointer that may be NULL, and \<^verbatim>\<open>%d\<close> of the index of a loop.\<close>

definition indented :: "nat \<Rightarrow> string \<Rightarrow> string" where
  "indented k s = replicate k CHR '' '' @ s"

definition shown_str :: "string option \<Rightarrow> string" where
  "shown_str s = (case s of None \<Rightarrow> ''(null)'' | Some t \<Rightarrow> t)"

definition show_index :: "nat \<Rightarrow> string" where
  "show_index i = show_dec (sint (of_nat i :: u32))"

definition INDENT_INCRE :: nat where
  "INDENT_INCRE = 2"

fun create_array_desc :: "arrdim list \<Rightarrow> cbuf \<Rightarrow> nat \<Rightarrow> cbuf run" where
  "create_array_desc [] desc indent = Inl NullDeref"
| "create_array_desc [dm] desc indent =
     Inr (foldl (\<lambda>b i. concat_c b (indented indent (concat [''['', show_index i, ''] = [value here]'', [CHR 0x0A]])))
       desc [0..<unat (ad_sz dm)])"
| "create_array_desc (dm # e # ds) desc indent =
     run_list (\<lambda>i b. bind_run (create_array_desc (e # ds)
           (concat_c b (indented indent (concat [''['', show_index i, ''] = {'', [CHR 0x0A]]))) (indent + INDENT_INCRE))
         (\<lambda>b1. Inr (concat_c b1 (indented indent (''}'' @ [CHR 0x0A])))))
       [0..<unat (ad_sz dm)] desc"

text \<open>\<open>n\<close> bounds how deep structures are nested.\<close>

definition desc_head :: "('d, 'l) die \<Rightarrow> nat \<Rightarrow> string \<Rightarrow> string" where
  "desc_head d indent typename =
     indented indent (concat [''('', typename, '') '', shown_str (die_diename d), '' = ''])"

fun die_create_variable_or_parameter_desc ::
    "nat \<Rightarrow> ('d, 'l) die option list \<Rightarrow> nat option \<Rightarrow> nat option \<Rightarrow> cbuf \<times> sym_error option \<Rightarrow> nat \<Rightarrow>
     (cbuf \<times> sym_error option) run" where
  "die_create_variable_or_parameter_desc 0 B p cu_root_die de indent = Inl Diverges"
| "die_create_variable_or_parameter_desc (Suc n) B p cu_root_die de indent =
     (case p of None \<Rightarrow> Inr de
      | Some i \<Rightarrow> bind_run (die_at B i) (\<lambda>d.
          let c = die_datatypeclass d; (desc, e) = de
          in if c AND DTC_POINTER = 0 \<and> c AND (DTC_STRUCT OR DTC_UNION) \<noteq> 0 then
               bind_run (die_get_members B p cu_root_die True) (\<lambda>r.
                 let typename = (case die_datatypename d of Some t \<Rightarrow> t
                       | None \<Rightarrow> if c AND DTC_STRUCT \<noteq> 0 then ''(anonymous struct)'' else ''(anonymous union)'');
                     ms = (case r of Inl _ \<Rightarrow> [] | Inr ms \<Rightarrow> ms)
                 in bind_run (run_list (\<lambda>m de1.
                        bind_run (die_create_variable_or_parameter_desc n B (Some m) cu_root_die de1 (indent + INDENT_INCRE))
                          (\<lambda>(b, e1). Inr (concat_c b [CHR 0x0A], e1))) ms
                      (concat_c desc (desc_head d indent typename @ ''{'' @ [CHR 0x0A]), snd (reported e r))) (\<lambda>(b, e1).
                    Inr (concat_c b (indented indent ''}''), e1)))
             else if c AND DTC_ARRAY \<noteq> 0 then
               bind_run (create_array_desc (die_arrdims d)
                   (concat_c desc (desc_head d indent (shown_str (die_datatypename d)) @ ''{'' @ [CHR 0x0A]))
                   (indent + INDENT_INCRE)) (\<lambda>b. Inr (concat_c b (indented indent ''}''), e))
             else if c AND (DTC_POINTER OR DTC_OTHER) \<noteq> 0 then
               Inr (concat_c desc (desc_head d indent (shown_str (die_datatypename d)) @ ''[value here]''), e)
             else Inr (desc, e)))"

section \<open>Where a variable is\<close>

text \<open>The first list that applies; without one the result is not written. \<open>cv\<close> and \<open>rg\<close> as for the machine.\<close>

fun locdesc_for :: "locdesc list list \<Rightarrow> u64 \<Rightarrow> locdesc list option" where
  "locdesc_for [] pc = None"
| "locdesc_for (ls # rest) pc =
     (case ls of ld # _ \<Rightarrow> if is_locdesc_in_bounds ld pc then Some ls else locdesc_for rest pc | [] \<Rightarrow> Some ls)"

definition die_evaluate_location_description ::
    "'k mach \<Rightarrow> 'k dbg \<Rightarrow> (string \<Rightarrow> string option) \<Rightarrow> (string \<Rightarrow> string option) option \<Rightarrow>
     ('d, 'l) die option list \<Rightarrow> nat option \<Rightarrow> u64 \<Rightarrow> bool \<Rightarrow> cbuf \<Rightarrow> (u64 option \<times> cbuf) sres run option" where
  "die_evaluate_location_description M dg cv rg B p pc outp out =
     (case p of None \<Rightarrow> Some (Inr invalid_die)
      | Some i \<Rightarrow> if \<not> outp then Some (Inr invalid_parameter)
          else (case die_at B i of Inl f \<Rightarrow> Some (Inl f)
            | Inr d \<Rightarrow> (case locdesc_for (die_loclists d) pc of None \<Rightarrow> Some (Inr (Inr (None, out)))
                | Some ls \<Rightarrow> map_option (\<lambda>r. bind_run r (\<lambda>(v, o1). Inr (Inr (Some v, o1))))
                    (decode_location_description M dg cv rg
                       (case die_framebaselocdesc d of [] \<Rightarrow> None | fb # _ \<Rightarrow> Some fb) ls out))))"

section \<open>Lines\<close>

definition llabs :: "u64 \<Rightarrow> u64" where
  "llabs w = (if sint w < 0 then - w else w)"

text \<open>Most need the entry of a compilation unit.\<close>

definition unit_die ::
    "('d, 'l) die option list \<Rightarrow> nat option \<Rightarrow> bool \<Rightarrow> (('d, 'l) die \<Rightarrow> 'v sres run) \<Rightarrow> 'v sres run" where
  "unit_die B p outp f =
     (case p of None \<Rightarrow> Inr invalid_die
      | Some i \<Rightarrow> bind_run (die_at B i) (\<lambda>d.
          if die_tag d \<noteq> DW_TAG_compile_unit then Inr not_a_unit else if \<not> outp then Inr invalid_parameter else f d))"

definition line_at :: "('d, 'a, 'l) dwarf \<Rightarrow> u64 \<Rightarrow> 'l list \<Rightarrow> 'l option" where
  "line_at dw pc ls = find (\<lambda>l. pc = get_dwarf_line_virtual_addr dw (Some l)) ls"

text \<open>The name of the file, if libdwarf has one, that of the function, and the line.\<close>

definition die_get_line_info_from_pc ::
    "('d, 'a, 'l) dwarf \<Rightarrow> ('d, 'l) die option list \<Rightarrow> nat option \<Rightarrow> u64 \<Rightarrow> (string option \<times> string \<times> u64) sres run" where
  "die_get_line_info_from_pc dw B p pc =
     unit_die B p True (\<lambda>d. case line_at dw pc (die_srclines d) of
         None \<Rightarrow> Inr (Inl (DIE_ERROR_KIND, DIE_COULD_NOT_GET_LINE_INFO))
       | Some l \<Rightarrow> bind_run (die_search B p (DIE_SEARCH_FUNCTION_BY_PC pc)) (\<lambda>r. case r of Inl err \<Rightarrow> Inr (Inl err)
           | Inr f \<Rightarrow> bind_run (die_at B f) (\<lambda>fd. case die_diename fd of None \<Rightarrow> Inl NullDeref
               | Some nm \<Rightarrow> Inr (Inr (get_dwarf_line_filename dw (Some l), nm, get_dwarf_line_lineno dw (Some l))))))"

definition die_pc_to_lineno ::
    "('d, 'a, 'l) dwarf \<Rightarrow> ('d, 'l) die option list \<Rightarrow> nat option \<Rightarrow> u64 \<Rightarrow> bool \<Rightarrow> u64 sres run" where
  "die_pc_to_lineno dw B p target_pc outp =
     unit_die B p outp (\<lambda>d. Inr (case line_at dw target_pc (die_srclines d) of
         None \<Rightarrow> Inl (DIE_ERROR_KIND, DIE_LINE_NOT_FOUND) | Some l \<Rightarrow> Inr (get_dwarf_line_lineno dw (Some l))))"

definition next_line_step :: "('d, 'a, 'l) dwarf \<Rightarrow> u64 \<Rightarrow> u64 \<Rightarrow> u64 \<times> u64 \<Rightarrow> 'l \<Rightarrow> u64 \<times> u64" where
  "next_line_step dw start_pc start_pc_lineno s l =
     (let (next_line, prevlineno) = s; curlineaddr = get_dwarf_line_virtual_addr dw (Some l);
          curlineno = get_dwarf_line_lineno dw (Some l)
      in if curlineaddr \<le> start_pc \<or> curlineno = 0 \<or> start_pc_lineno = curlineno then s
         else (if llabs (curlineaddr - start_pc) < llabs (next_line - start_pc) \<and> prevlineno \<noteq> curlineno
               then curlineaddr else next_line, curlineno))"

definition die_get_pc_of_next_line ::
    "('d, 'a, 'l) dwarf \<Rightarrow> ('d, 'l) die option list \<Rightarrow> nat option \<Rightarrow> u64 \<Rightarrow> bool \<Rightarrow> u64 sres run" where
  "die_get_pc_of_next_line dw B p start_pc outp =
     unit_die B p outp (\<lambda>d. bind_run (die_pc_to_lineno dw B p start_pc True) (\<lambda>r. case r of Inl err \<Rightarrow> Inr (Inl err)
       | Inr lineno \<Rightarrow>
           (let next_line = fst (foldl (next_line_step dw start_pc lineno) (0, lineno) (die_srclines d))
            in Inr (if next_line = 0 then Inl (DIE_ERROR_KIND, DIE_NEXT_LINE_NOT_FOUND) else Inr next_line))))"

definition die_get_pc_values_from_lineno ::
    "('d, 'a, 'l) dwarf \<Rightarrow> ('d, 'l) die option list \<Rightarrow> nat option \<Rightarrow> u64 \<Rightarrow> bool \<Rightarrow> u64 list sres run" where
  "die_get_pc_values_from_lineno dw B p lineno outp =
     (if \<not> outp then Inr invalid_parameter
      else bind_run (deref B p) (\<lambda>d. Inr (Inr (map (\<lambda>l. get_dwarf_line_virtual_addr dw (Some l))
        (filter (\<lambda>l. get_dwarf_line_lineno dw (Some l) = lineno) (die_srclines d))))))"

text \<open>The line with the number, or the closest one with its number; none is closer than line 0 at the start.\<close>

fun closest_line :: "('d, 'a, 'l) dwarf \<Rightarrow> u64 \<Rightarrow> 'l list \<Rightarrow> u64 \<times> 'l option \<Rightarrow> bool \<times> u64 \<times> 'l option" where
  "closest_line dw lineno [] best = (False, best)"
| "closest_line dw lineno (l # ls) best =
     (let curlineno = get_dwarf_line_lineno dw (Some l);
          current = llabs (fst best - lineno); diff = llabs (curlineno - lineno)
      in if diff = 0 then (True, curlineno, Some l)
         else closest_line dw lineno ls (if diff < current then (curlineno, Some l) else best))"

text \<open>The address, the line it is the address of, and the text.\<close>

definition die_lineno_to_pc ::
    "('d, 'a, 'l) dwarf \<Rightarrow> ('d, 'l) die option list \<Rightarrow> nat option \<Rightarrow> u64 \<Rightarrow> bool \<Rightarrow> cbuf \<Rightarrow> (u64 \<times> u64 \<times> cbuf) sres run" where
  "die_lineno_to_pc dw B p lineno outp out =
     unit_die B p outp (\<lambda>d.
       let (exact, closestlineno, closestline) = closest_line dw lineno (die_srclines d) (0, None);
           pc = get_dwarf_line_virtual_addr dw closestline
       in Inr (Inr (if exact then (pc, lineno, out)
            else (pc, closestlineno, concat_c out (concat [''Line '', show_dec (sint lineno),
              '' doesn'', [CHR 0x27], ''t exist, auto-adjusted to line '', show_dec (sint closestlineno), [CHR 0x0A]])))))"

end
