(* ===== verification/Compunit.thy ===== *)
theory Compunit
  imports Dieinfo
begin

text \<open>
  The compilation units of a DWARF file and the functions the rest of the program calls,
  \<^verbatim>\<open>source/symbol/compunit.c\<close> and \<^verbatim>\<open>source/symbol/sym.c\<close>. A pointer to a unit is its index among the units,
  or None for NULL. The functions of \<^verbatim>\<open>sym.c\<close> that only hand their arguments on to one of \<^verbatim>\<open>die.c\<close> are
  those of \<open>Dieinfo\<close>.
\<close>

record compunit =
  cu_header_len :: u64
  cu_abbrev_offset :: u64
  cu_address_size :: u16
  cu_next_header_offset :: u64
  cu_root_die :: "nat option"

record ('d, 'l) dwarfinfo =
  di_fd :: int
  di_dies :: "('d, 'l) dtree"
  di_compunits :: "compunit list"
  di_numcompunits :: int

abbreviation di_blocks :: "('d, 'l) dwarfinfo \<Rightarrow> ('d, 'l) die option list" where
  "di_blocks I \<equiv> dt_blocks (di_dies I)"

section \<open>Units\<close>

definition cu_text :: "string option \<Rightarrow> int \<Rightarrow> int \<Rightarrow> compunit \<Rightarrow> string" where
  "cu_text cuname cnt num cu =
     concat [''Compilation unit '', show_dec cnt, ''/'', show_dec num, '':'', [CHR 0x0A],
       [CHR 0x09], ''cu_header_len: '', show_hex (cu_header_len cu), [CHR 0x0A],
       [CHR 0x09], ''cu_abbrev_offset: '', show_hex (cu_abbrev_offset cu), [CHR 0x0A],
       [CHR 0x09], ''cu_address_size: '', show_hex (ucast (cu_address_size cu)), [CHR 0x0A],
       [CHR 0x09], ''cu_next_header_offset: '', show_hex (cu_next_header_offset cu), [CHR 0x0A],
       [CHR 0x09], ''cu_diename: '', quoted (shown_str cuname), [CHR 0x0A]]"

text \<open>What a getter writes to a variable that held \<open>old\<close>, when its result is not looked at.\<close>

definition got :: "'v \<Rightarrow> 'v sres run \<Rightarrow> 'v run" where
  "got old r = bind_run r (\<lambda>s. Inr (case s of Inl _ \<Rightarrow> old | Inr v \<Rightarrow> v))"

definition cu_name :: "('d, 'l) dwarfinfo \<Rightarrow> compunit \<Rightarrow> string option run" where
  "cu_name I cu = got None (die_get_name (di_blocks I) (cu_root_die cu) True)"

definition cu_display_compilation_units :: "('d, 'l) dwarfinfo option \<Rightarrow> string sres run" where
  "cu_display_compilation_units info =
     (case info of None \<Rightarrow> Inr (Inl (GENERIC_ERROR_KIND, GE_INVALID_DWARFINFO))
      | Some I \<Rightarrow> bind_run (run_list (\<lambda>(i, cu) out. bind_run (cu_name I cu) (\<lambda>nm.
            Inr (out @ cu_text nm (int i) (di_numcompunits I) cu))) (enumerate 1 (di_compunits I)) []) (\<lambda>out. Inr (Inr out)))"

fun find_unit :: "(compunit \<Rightarrow> bool run) \<Rightarrow> compunit list \<Rightarrow> nat \<Rightarrow> nat sres run" where
  "find_unit f [] i = Inr (Inl (CU_ERROR_KIND, CU_CU_NOT_FOUND))"
| "find_unit f (cu # cus) i = bind_run (f cu) (\<lambda>found. if found then Inr (Inr i) else find_unit f cus (Suc i))"

text \<open>A unit without a name is compared through a NULL pointer.\<close>

definition cu_find_compilation_unit_by_name ::
    "('d, 'l) dwarfinfo option \<Rightarrow> string option \<Rightarrow> nat sres run" where
  "cu_find_compilation_unit_by_name info name =
     (case info of None \<Rightarrow> Inr (Inl (GENERIC_ERROR_KIND, GE_INVALID_DWARFINFO))
      | Some I \<Rightarrow> (case name of None \<Rightarrow> Inr invalid_parameter
          | Some nm \<Rightarrow> find_unit (\<lambda>cu. bind_run (cu_name I cu) (\<lambda>cn.
              case cn of None \<Rightarrow> Inl NullDeref | Some s \<Rightarrow> Inr (s = nm))) (di_compunits I) 0))"

definition cu_find_compilation_unit_by_pc ::
    "('d, 'l) dwarfinfo option \<Rightarrow> bool \<Rightarrow> u64 \<Rightarrow> nat sres run" where
  "cu_find_compilation_unit_by_pc info outp pc =
     (case info of None \<Rightarrow> Inr (Inl (GENERIC_ERROR_KIND, GE_INVALID_DWARFINFO))
      | Some I \<Rightarrow> if \<not> outp then Inr invalid_parameter
          else find_unit (\<lambda>cu.
            bind_run (got 0 (die_get_low_pc (di_blocks I) (cu_root_die cu) True)) (\<lambda>lpc.
            bind_run (got 0 (die_get_high_pc (di_blocks I) (cu_root_die cu) True)) (\<lambda>hpc.
              Inr (pc \<ge> lpc \<and> pc < hpc)))) (di_compunits I) 0)"

definition cu_at :: "('d, 'l) dwarfinfo \<Rightarrow> nat option \<Rightarrow> (compunit \<Rightarrow> 'v) \<Rightarrow> 'v sres run" where
  "cu_at I cu f =
     (case cu of None \<Rightarrow> Inr (Inl (GENERIC_ERROR_KIND, GE_INVALID_CU_POINTER))
      | Some i \<Rightarrow> if i < length (di_compunits I) then Inr (Inr (f (di_compunits I ! i))) else Inl UseAfterFree)"

definition cu_get_address_size :: "('d, 'l) dwarfinfo \<Rightarrow> nat option \<Rightarrow> u16 sres run" where
  "cu_get_address_size I cu = cu_at I cu cu_address_size"

definition cu_get_root_die :: "('d, 'l) dwarfinfo \<Rightarrow> nat option \<Rightarrow> nat option sres run" where
  "cu_get_root_die I cu = cu_at I cu cu_root_die"

text \<open>One header after the other, each with its tree. A unit that fails ends the loop; its blocks stay.\<close>

fun cu_load_compilation_units ::
    "nat \<Rightarrow> ('d, 'a, 'l) dwarf \<Rightarrow> (cu_header \<times> 'd dres) dres list \<Rightarrow> ('d, 'l) dwarfinfo \<Rightarrow>
     (('d, 'l) dwarfinfo \<times> unit sres) run" where
  "cu_load_compilation_units n dw [] I = Inr (I, Inr ())"
| "cu_load_compilation_units n dw (u # us) I =
     (case u of DW_DLV_ERROR \<Rightarrow> Inr (I, Inl (CU_ERROR_KIND, CU_DWARF_NEXT_CU_HEADER_D_FAILED))
      | DW_DLV_NO_ENTRY \<Rightarrow> Inr (I, Inr ())
      | DW_DLV_OK (hdr, sib) \<Rightarrow>
          bind_run (initialize_and_build_die_tree_from_root_die n dw (ch_address_size hdr) sib (di_dies I)) (\<lambda>(S, r).
            case r of Inl err \<Rightarrow> Inr (I\<lparr>di_dies := S\<rparr>, Inl err)
            | Inr root \<Rightarrow> cu_load_compilation_units n dw us
                (I\<lparr>di_dies := S, di_numcompunits := di_numcompunits I + 1,
                   di_compunits := di_compunits I @
                     [\<lparr>cu_header_len = ch_header_len hdr, cu_abbrev_offset = ch_abbrev_offset hdr,
                       cu_address_size = ch_address_size hdr, cu_next_header_offset = ch_next_header_offset hdr,
                       cu_root_die = Some root\<rparr>]\<rparr>)))"

section \<open>Files\<close>

text \<open>
  \<open>opened\<close> is what \<^verbatim>\<open>open\<close> returns for the file, and \<open>inited\<close> what \<^verbatim>\<open>dwarf_init\<close> does for the descriptor.
  The descriptor is not kept. The counters are those of the program.
\<close>

definition sym_init_with_dwarf_file ::
    "nat \<Rightarrow> int \<Rightarrow> ('d, 'a, 'l) dwarf dres \<Rightarrow> die_counts \<Rightarrow> ('d, 'l) dwarfinfo sres run" where
  "sym_init_with_dwarf_file n opened inited counts =
     (if opened < 0 then Inr (Inl (GENERIC_ERROR_KIND, GE_FILE_NOT_FOUND))
      else (case inited of
          DW_DLV_OK dw \<Rightarrow>
            bind_run (cu_load_compilation_units n dw (dw_units dw)
                \<lparr>di_fd = 0, di_dies = no_dies\<lparr>dt_counts := counts\<rparr>, di_compunits = [], di_numcompunits = 0\<rparr>)
              (\<lambda>(I, r). case r of Inl err \<Rightarrow> Inr (Inl err) | Inr _ \<Rightarrow> Inr (Inr I))
        | _ \<Rightarrow> Inr (Inl (SYM_ERROR_KIND, SYM_DWARF_INIT_FAILED))))"

text \<open>Every unit's tree and its root are freed; the descriptor that is closed was never set.\<close>

definition sym_end :: "('d, 'l) dwarfinfo option \<Rightarrow> (('d, 'l) dtree \<times> int) option run" where
  "sym_end info =
     (case info of None \<Rightarrow> Inr None
      | Some I \<Rightarrow>
          bind_run (run_list (\<lambda>cu S. case cu_root_die cu of None \<Rightarrow> Inr S
            | Some r \<Rightarrow> bind_run (die_tree_free (Suc (length (dt_blocks S))) S r) (\<lambda>S1. free_block S1 r))
            (di_compunits I) (di_dies I)) (\<lambda>S. Inr (Some (S, di_fd I))))"

section \<open>Questions about a unit\<close>

definition with_root ::
    "('d, 'l) dwarfinfo \<Rightarrow> nat option \<Rightarrow> (nat option \<Rightarrow> 'v sres run) \<Rightarrow> 'v sres run" where
  "with_root I cu f = bind_run (cu_get_root_die I cu) (\<lambda>r. case r of Inl err \<Rightarrow> Inr (Inl err) | Inr root \<Rightarrow> f root)"

definition with_unit_by_pc ::
    "('d, 'l) dwarfinfo option \<Rightarrow> u64 \<Rightarrow> (('d, 'l) dwarfinfo \<Rightarrow> nat \<Rightarrow> 'v sres run) \<Rightarrow> 'v sres run" where
  "with_unit_by_pc info pc f =
     bind_run (cu_find_compilation_unit_by_pc info True pc) (\<lambda>r. case (info, r) of
       (Some I, Inr cu) \<Rightarrow> f I cu | (_, Inl err) \<Rightarrow> Inr (Inl err) | (None, Inr _) \<Rightarrow> Inl NullDeref)"

definition sym_find_die_by_name :: "('d, 'l) dwarfinfo \<Rightarrow> nat option \<Rightarrow> string \<Rightarrow> nat sres run" where
  "sym_find_die_by_name I cu name =
     with_root I cu (\<lambda>root. die_search (di_blocks I) root (DIE_SEARCH_IF_NAME_MATCHES name))"

definition sym_find_function_die_by_pc :: "('d, 'l) dwarfinfo \<Rightarrow> nat option \<Rightarrow> u64 \<Rightarrow> nat sres run" where
  "sym_find_function_die_by_pc I cu pc =
     with_root I cu (\<lambda>root. die_search (di_blocks I) root (DIE_SEARCH_FUNCTION_BY_PC pc))"

definition sym_get_die_members ::
    "('d, 'l) dwarfinfo \<Rightarrow> nat option \<Rightarrow> nat option \<Rightarrow> bool \<Rightarrow> nat list sres run" where
  "sym_get_die_members I p cu outp = with_root I cu (\<lambda>root. die_get_members (di_blocks I) p root outp)"

definition sym_create_variable_or_parameter_die_desc ::
    "nat \<Rightarrow> ('d, 'l) dwarfinfo \<Rightarrow> nat option \<Rightarrow> nat option \<Rightarrow> cbuf \<times> sym_error option \<Rightarrow> (cbuf \<times> sym_error option) sres run" where
  "sym_create_variable_or_parameter_die_desc n I p cu de =
     with_root I cu (\<lambda>root. bind_run (die_create_variable_or_parameter_desc n (di_blocks I) p root de 0) (\<lambda>r. Inr (Inr r)))"

text \<open>The variables of the function at an address; a failure of the last step sets no error.\<close>

definition sym_get_variable_dies :: "('d, 'l) dwarfinfo option \<Rightarrow> u64 \<Rightarrow> bool \<Rightarrow> nat list option sres run" where
  "sym_get_variable_dies info pc outp =
     with_unit_by_pc info pc (\<lambda>I cu. bind_run (sym_find_function_die_by_pc I (Some cu) pc) (\<lambda>r. case r of
         Inl err \<Rightarrow> Inr (Inl err)
       | Inr f \<Rightarrow> bind_run (die_get_variables (di_blocks I) (Some f) outp) (\<lambda>vs. Inr (Inr vs))))"

text \<open>It returns 0 also when the entry has no such line: the result of the inner call is there with its error.\<close>

definition sym_get_line_info_from_pc ::
    "('d, 'a, 'l) dwarf \<Rightarrow> ('d, 'l) dwarfinfo option \<Rightarrow> u64 \<Rightarrow> ((string option \<times> string \<times> u64) sres \<times> nat option) sres run" where
  "sym_get_line_info_from_pc dw info pc =
     with_unit_by_pc info pc (\<lambda>I cu. with_root I (Some cu) (\<lambda>root.
       bind_run (die_get_line_info_from_pc dw (di_blocks I) root pc) (\<lambda>r. Inr (Inr (r, root)))))"

definition sym_get_pc_of_next_line ::
    "('d, 'a, 'l) dwarf \<Rightarrow> ('d, 'l) dwarfinfo option \<Rightarrow> u64 \<Rightarrow> bool \<Rightarrow> u64 sres run" where
  "sym_get_pc_of_next_line dw info pc outp =
     with_unit_by_pc info pc (\<lambda>I cu. with_root I (Some cu) (\<lambda>root. die_get_pc_of_next_line dw (di_blocks I) root pc outp))"

definition sym_get_pc_values_from_lineno ::
    "('d, 'a, 'l) dwarf \<Rightarrow> ('d, 'l) dwarfinfo option \<Rightarrow> nat option \<Rightarrow> u64 \<Rightarrow> bool \<Rightarrow> u64 list sres run" where
  "sym_get_pc_values_from_lineno dw info cu lineno outp =
     (case info of None \<Rightarrow> Inr (Inl (GENERIC_ERROR_KIND, GE_INVALID_DWARFINFO))
      | Some I \<Rightarrow> with_root I cu (\<lambda>root. die_get_pc_values_from_lineno dw (di_blocks I) root lineno outp))"

definition sym_lineno_to_pc_b ::
    "('d, 'a, 'l) dwarf \<Rightarrow> ('d, 'l) dwarfinfo \<Rightarrow> nat option \<Rightarrow> u64 \<Rightarrow> bool \<Rightarrow> cbuf \<Rightarrow> (u64 \<times> u64 \<times> cbuf) sres run" where
  "sym_lineno_to_pc_b dw I cu lineno outp out =
     with_root I cu (\<lambda>root. die_lineno_to_pc dw (di_blocks I) root lineno outp out)"

definition sym_lineno_to_pc_a ::
    "('d, 'a, 'l) dwarf \<Rightarrow> ('d, 'l) dwarfinfo option \<Rightarrow> string option \<Rightarrow> u64 \<Rightarrow> bool \<Rightarrow> cbuf \<Rightarrow> (u64 \<times> u64 \<times> cbuf) sres run" where
  "sym_lineno_to_pc_a dw info srcfilename lineno outp out =
     bind_run (cu_find_compilation_unit_by_name info srcfilename) (\<lambda>r. case (info, r) of
       (Some I, Inr cu) \<Rightarrow> with_root I (Some cu) (\<lambda>root. die_lineno_to_pc dw (di_blocks I) root lineno outp out)
     | (_, Inl err) \<Rightarrow> Inr (Inl err) | (None, Inr _) \<Rightarrow> Inl NullDeref)"

definition sym_pc_to_lineno_b ::
    "('d, 'a, 'l) dwarf \<Rightarrow> ('d, 'l) dwarfinfo \<Rightarrow> nat option \<Rightarrow> u64 \<Rightarrow> bool \<Rightarrow> u64 sres run" where
  "sym_pc_to_lineno_b dw I cu pc outp = with_root I cu (\<lambda>root. die_pc_to_lineno dw (di_blocks I) root pc outp)"

definition sym_pc_to_lineno_a ::
    "('d, 'a, 'l) dwarf \<Rightarrow> ('d, 'l) dwarfinfo option \<Rightarrow> u64 \<Rightarrow> bool \<Rightarrow> u64 sres run" where
  "sym_pc_to_lineno_a dw info pc outp =
     with_unit_by_pc info pc (\<lambda>I cu. with_root I (Some cu) (\<lambda>root. die_pc_to_lineno dw (di_blocks I) root pc outp))"

end
