(* ===== verification/DieProof.thy ===== *)
theory DieProof
  imports Compunit
begin

text \<open>
  The tree of entries: every entry that is put into it is behind its parent, knows it, and is among its
  children once, whatever libdwarf says; and the search in such a tree finds the first entry, parents before
  children, that it is asked for.
\<close>

section \<open>The invariant of the blocks\<close>

lemma die_at_Inr: "die_at B i = Inr d \<longleftrightarrow> i < length B \<and> B ! i = Some d"
  by (auto simp: die_at_def split: option.splits)

definition children_ok :: "('d, 'l) die option list \<Rightarrow> nat \<Rightarrow> ('d, 'l) die \<Rightarrow> bool" where
  "children_ok B i d \<longleftrightarrow> (die_haschildren d \<longrightarrow> die_children d \<noteq> None) \<and>
     (\<forall>cs. die_children d = Some cs \<longrightarrow> distinct cs \<and>
        (\<forall>c\<in>set cs. i < c \<and> (\<exists>x. die_at B c = Inr x \<and> die_parent x = Some i)))"

definition dies_ok :: "('d, 'l) die option list \<Rightarrow> bool" where
  "dies_ok B \<longleftrightarrow> (\<forall>i d. die_at B i = Inr d \<longrightarrow> children_ok B i d)"

text \<open>An entry that is not in the tree yet.\<close>

definition loose :: "('d, 'l) die \<Rightarrow> bool" where
  "loose d \<longleftrightarrow> die_parent d = None \<and> die_children d = (if die_haschildren d then Some [] else None)"

lemma dies_okD: "dies_ok B \<Longrightarrow> die_at B i = Inr d \<Longrightarrow> children_ok B i d"
  by (simp add: dies_ok_def)

lemma die_at_append: "die_at (B @ [Some d]) i = (if i = length B then Inr d else die_at B i)"
  by (auto simp: die_at_def nth_append split: option.splits)

lemma die_at_update: "i < length B \<Longrightarrow> die_at (B[i := Some d]) j = (if j = i then Inr d else die_at B j)"
  by (auto simp: die_at_def nth_list_update)

lemma die_at_freed: "die_at (B[i := None]) j = Inr d \<longleftrightarrow> j \<noteq> i \<and> die_at B j = Inr d"
  by (cases "j = i") (auto simp: die_at_Inr)

lemma dies_ok_append:
  assumes "dies_ok B" and "loose d"
  shows "dies_ok (B @ [Some d])"
proof -
  have "children_ok (B @ [Some d]) i x" if "die_at (B @ [Some d]) i = Inr x" for i x
  proof (cases "i = length B")
    case True
    with that assms(2) show ?thesis by (auto simp: children_ok_def loose_def die_at_append)
  next
    case False
    with that have "die_at B i = Inr x" by (simp add: die_at_append)
    with assms(1) have ok: "children_ok B i x" by (rule dies_okD)
    have "c < length B" if "die_at B c = Inr y" for c y using that by (simp add: die_at_Inr)
    with ok show ?thesis unfolding children_ok_def die_at_append by fastforce
  qed
  then show ?thesis by (simp add: dies_ok_def)
qed

text \<open>An entry without a parent is nobody's child.\<close>

lemma not_a_child:
  assumes "dies_ok B" "die_at B i = Inr d" "die_parent d = None" "die_at B j = Inr x" "die_children x = Some cs"
  shows "i \<notin> set cs"
  using dies_okD [OF assms(1,4)] assms(2,3,5) unfolding children_ok_def by fastforce

lemma dies_ok_freed:
  assumes "dies_ok B" "die_at B i = Inr d" "die_parent d = None"
  shows "dies_ok (B[i := None])"
proof -
  have "children_ok (B[i := None]) j x" if "die_at (B[i := None]) j = Inr x" for j x
  proof -
    from that have x: "die_at B j = Inr x" by (simp add: die_at_freed)
    have "i \<notin> set cs" if "die_children x = Some cs" for cs
      by (rule not_a_child [OF assms x that])
    with dies_okD [OF assms(1) x] show ?thesis
      unfolding children_ok_def by (metis die_at_freed)
  qed
  then show ?thesis by (simp add: dies_ok_def)
qed

lemma dies_ok_attach:
  assumes ok: "dies_ok B" and p: "die_at B p = Inr dp" and c: "die_at B c = Inr dc"
    and le: "p < c" and no: "die_parent dc = None"
  shows "dies_ok (B[p := Some (dp\<lparr>die_children := Some ((case die_children dp of None \<Rightarrow> [] | Some cs \<Rightarrow> cs) @ [c])\<rparr>),
                   c := Some (dc\<lparr>die_parent := Some p\<rparr>)])" (is "dies_ok ?B")
proof -
  from p c have len: "p < length B" "c < length B" by (simp_all add: die_at_Inr)
  have at: "die_at ?B j = (if j = c then Inr (dc\<lparr>die_parent := Some p\<rparr>)
      else if j = p then Inr (dp\<lparr>die_children := Some ((case die_children dp of None \<Rightarrow> [] | Some cs \<Rightarrow> cs) @ [c])\<rparr>)
      else die_at B j)" for j
    using len by (simp add: die_at_update)
  have keep: "\<exists>y. die_at ?B e = Inr y \<and> die_parent y = Some j"
    if "e \<noteq> c" "die_at B e = Inr x" "die_parent x = Some j" for e x j
    using that at [of e] p by (cases "e = p") auto
  have kids: "e \<noteq> c \<and> j < e \<and> (\<exists>y. die_at ?B e = Inr y \<and> die_parent y = Some j)"
    if "die_at B j = Inr x" "die_children x = Some cs" "e \<in> set cs" for j x cs e
  proof -
    have "e \<noteq> c" using not_a_child [OF ok c no that(1,2)] that(3) by auto
    moreover from dies_okD [OF ok that(1)] that(2,3) obtain y where "j < e" "die_at B e = Inr y" "die_parent y = Some j"
      by (auto simp: children_ok_def)
    ultimately show ?thesis using keep by blast
  qed
  have dist: "distinct cs" if "die_at B j = Inr x" "die_children x = Some cs" for j x cs
    using dies_okD [OF ok that(1)] that(2) by (simp add: children_ok_def)
  have has: "die_children x \<noteq> None" if "die_at B j = Inr x" "die_haschildren x" for j x
    using dies_okD [OF ok that(1)] that(2) by (simp add: children_ok_def)
  have "children_ok ?B j x" if "die_at ?B j = Inr x" for j x
  proof -
    consider "j = c" | "j = p" "j \<noteq> c" | "j \<noteq> c" "j \<noteq> p" by blast
    then show ?thesis
    proof cases
      case 1
      with that have "x = dc\<lparr>die_parent := Some p\<rparr>" by (simp add: at)
      with 1 kids [OF c] dist [OF c] has [OF c] show ?thesis by (auto simp: children_ok_def)
    next
      case 2
      with that have x: "x = dp\<lparr>die_children := Some ((case die_children dp of None \<Rightarrow> [] | Some cs \<Rightarrow> cs) @ [c])\<rparr>"
        by (simp add: at)
      show ?thesis
      proof (cases "die_children dp")
        case None
        with 2 x le len show ?thesis by (simp add: children_ok_def die_at_update)
      next
        case (Some cs)
        have "c \<notin> set cs" by (rule not_a_child [OF ok c no p Some])
        have one: "j < e \<and> (\<exists>y. die_at ?B e = Inr y \<and> die_parent y = Some j)" if "e \<in> set (cs @ [c])" for e
          using that kids [OF p Some] 2 le at [of c] by auto
        have "die_children x = Some (cs @ [c])" using x Some by simp
        with one dist [OF p Some] \<open>c \<notin> set cs\<close> show ?thesis by (simp add: children_ok_def del: set_append)
      qed
    next
      case 3
      with that have x: "die_at B j = Inr x" by (simp add: at)
      with kids [OF x] dist [OF x] has [OF x] show ?thesis by (auto simp: children_ok_def)
    qed
  qed
  then show ?thesis by (simp add: dies_ok_def)
qed

section \<open>Building keeps it\<close>

text \<open>What is copied of an entry is not its place.\<close>

definition same_place :: "('d, 'l) die \<Rightarrow> ('d, 'l) die \<Rightarrow> bool" where
  "same_place d e \<longleftrightarrow> die_parent e = die_parent d \<and> die_children e = die_children d"

lemma same_place_trans: "same_place a b \<Longrightarrow> same_place b c \<Longrightarrow> same_place a c"
  by (simp add: same_place_def)

lemma run_list_kept:
  assumes "\<And>x s s'. f x s = Inr s' \<Longrightarrow> P s \<Longrightarrow> P s'" and "run_list f xs s = Inr s'" and "P s"
  shows "P s'"
  using assms(2,3)
proof (induction xs arbitrary: s)
  case Nil
  then show ?case by simp
next
  case (Cons x xs)
  from Cons.prems(1) obtain s1 where "f x s = Inr s1" "run_list f xs s1 = Inr s'" by (auto simp: bind_run_Inr)
  with Cons.IH Cons.prems(2) assms(1) show ?case by blast
qed

lemma add_location_op_place:
  assumes "add_location_op S a i le j d = Inr e"
  shows "same_place d e"
proof (cases "given (snd j)")
  case None
  with assms show ?thesis by (simp add: add_location_op_def same_place_def)
next
  case (Some op)
  with assms obtain ld where
    "(if fst j > 0 then
        bind_run (add_additional_location_description (die_loclists d) ld i) (\<lambda>ls. Inr (d\<lparr>die_loclists := ls\<rparr>))
      else if a = DW_AT_location then Inr (d\<lparr>die_loclists := (die_loclists d)[i := [ld]]\<rparr>)
      else if a = DW_AT_frame_base then Inr (d\<lparr>die_framebaselocdesc := [ld]\<rparr>)
      else Inr d) = Inr e" (is "?r = _")
    by (simp only: add_location_op_def option.case bind_run_Inr) blast
  moreover from this obtain ls where "e \<in> {d\<lparr>die_loclists := ls\<rparr>, d\<lparr>die_framebaselocdesc := [ld]\<rparr>, d}"
    unfolding bind_run_Inr by (cases "fst j > 0"; cases "a = DW_AT_location"; cases "a = DW_AT_frame_base")
      (auto simp only: if_True if_False bind_run_Inr sum.inject simp_thms insert_iff)
  ultimately show ?thesis by (auto simp: same_place_def)
qed

lemma add_location_entry_place:
  assumes "add_location_entry S a ie d = Inr e" and "same_place d0 d"
  shows "same_place d0 e"
proof (cases "given (snd ie)")
  case None
  with assms show ?thesis by (simp add: add_location_entry_def)
next
  case (Some le)
  with assms(1) have "run_list (add_location_op S a (fst ie) le) (enumerate 0 (le_ops le)) d = Inr e"
    by (simp add: add_location_entry_def)
  then show ?thesis
    by (rule run_list_kept [where P = "same_place d0", rotated 1])
      (fact assms(2), erule same_place_trans, erule add_location_op_place)
qed

lemma loclists_place:
  assumes "run_list (add_location_entry S a) es d = Inr e"
  shows "same_place d e"
  by (rule run_list_kept [OF _ assms, where P = "same_place d"])
     (use add_location_entry_place in \<open>blast, simp add: same_place_def\<close>)

lemma copy_location_lists_place:
  assumes "copy_location_lists dw S a level d = Inr e"
  shows "same_place d e"
proof (cases "snd (get_die_attribute dw (die_dwarfdie d) a)")
  case None
  with assms show ?thesis by (simp add: copy_location_lists_def same_place_def)
next
  case (Some attr)
  with assms obtain d1 where d1: "(case dw_loclist dw attr of
              DW_DLV_OK es \<Rightarrow> run_list (add_location_entry S a) (enumerate 0 es)
                                (d\<lparr>die_loclists := initialize_die_loclists (length es)\<rparr>)
            | _ \<Rightarrow> Inr d) = Inr d1" and e: "same_place d1 e"
    by (auto simp: copy_location_lists_def bind_run_Inr same_place_def split: if_splits)
  have "same_place d d1"
  proof (cases "dw_loclist dw attr")
    case (DW_DLV_OK es)
    with d1 loclists_place have "same_place (d\<lparr>die_loclists := initialize_die_loclists (length es)\<rparr>) d1" by auto
    then show ?thesis by (simp add: same_place_def)
  qed (use d1 in \<open>auto simp: same_place_def\<close>)
  with e show ?thesis by (rule same_place_trans [rotated])
qed

lemma type_info_place:
  assumes "get_die_data_type_info n dw asz d = Inr e"
  shows "same_place d e"
proof (cases "dw_attr dw (die_dwarfdie d) DW_AT_type")
  case (DW_DLV_OK attr)
  let ?off = "written (die_datatypedieoffset d) (dw_formref dw (Some attr))"
  show ?thesis
  proof (cases "dw_offdie dw ?off")
    case off: (DW_DLV_OK t)
    let ?tag = "written 0 (dw_tag dw (Some t))"
    show ?thesis
    proof (cases "?tag = DW_TAG_base_type \<or> ?tag = DW_TAG_enumeration_type")
      case True
      with assms DW_DLV_OK off show ?thesis
        unfolding get_die_data_type_info_def Let_def by (simp only: dres.case if_True sum.inject) (auto simp: same_place_def)
    next
      case False
      with assms DW_DLV_OK off show ?thesis
        unfolding get_die_data_type_info_def Let_def
        by (simp only: dres.case if_False bind_run_Inr sum.inject) (auto simp: same_place_def)
    qed
  qed (use assms DW_DLV_OK in \<open>auto simp: get_die_data_type_info_def same_place_def Let_def\<close>)
qed (use assms in \<open>auto simp: get_die_data_type_info_def same_place_def\<close>)

lemma copy_die_head_place: "same_place d (fst (copy_die_head dw c d))"
  by (auto simp: copy_die_head_def Let_def same_place_def name_anonymous_def label_block_def
      read_abstract_origin_def split: dres.splits)

lemma copy_die_info_place:
  assumes "copy_die_info n dw asz S level d = Inr (e, c)"
  shows "same_place d e"
proof -
  obtain d1 c1 where h: "copy_die_head dw (dt_counts S) d = (d1, c1)" by fastforce
  with assms obtain d2 d3 where "get_die_data_type_info n dw asz d1 = Inr d2"
      "copy_location_lists dw S DW_AT_location level (copy_die_place dw d2) = Inr d3"
      "copy_location_lists dw S DW_AT_frame_base level d3 = Inr e"
    by (auto simp: copy_die_info_def bind_run_Inr)
  moreover from h copy_die_head_place [of d dw "dt_counts S"] have "same_place d d1" by simp
  moreover have "same_place d2 (copy_die_place dw d2)" by (simp add: copy_die_place_def same_place_def Let_def)
  ultimately show ?thesis
    by (blast dest: type_info_place copy_location_lists_place intro: same_place_trans)
qed

definition parents_below :: "nat \<Rightarrow> ('d, 'l) dtree \<Rightarrow> bool" where
  "parents_below k S \<longleftrightarrow> (\<forall>i. Some i \<in> set (dt_parents S) \<longrightarrow> i < k)"

definition tree_ok :: "('d, 'l) dtree \<Rightarrow> bool" where
  "tree_ok S \<longleftrightarrow> dies_ok (dt_blocks S) \<and> parents_below (length (dt_blocks S)) S"

text \<open>After a new entry: it is the last, and not in the tree.\<close>

definition tree_new :: "('d, 'l) dtree \<Rightarrow> nat option \<Rightarrow> bool" where
  "tree_new S p \<longleftrightarrow> (case p of None \<Rightarrow> tree_ok S
     | Some i \<Rightarrow> dies_ok (dt_blocks S) \<and> length (dt_blocks S) = Suc i \<and> parents_below i S \<and>
         (\<exists>d. die_at (dt_blocks S) i = Inr d \<and> loose d))"

lemma create_new_die_ok:
  assumes "create_new_die n dw asz S h level = Inr (S1, p)" and "tree_ok S"
  shows "tree_new S1 p"
proof (cases h)
  case None
  with assms show ?thesis by (simp add: create_new_die_def tree_new_def)
next
  case (Some d0)
  with assms(1) obtain d c where d: "copy_die_info n dw asz S level (new_die (Some d0)) = Inr (d, c)"
      and S1: "S1 = S\<lparr>dt_blocks := dt_blocks S @ [Some (if die_haschildren d then d\<lparr>die_children := Some []\<rparr> else d)],
                      dt_counts := c\<rparr>" "p = Some (length (dt_blocks S))"
    by (auto simp: create_new_die_def bind_run_Inr)
  from copy_die_info_place [OF d] have "loose (if die_haschildren d then d\<lparr>die_children := Some []\<rparr> else d)"
    by (auto simp: loose_def same_place_def new_die_def)
  with assms(2) S1 show ?thesis
    by (auto simp: tree_new_def tree_ok_def parents_below_def die_at_append intro!: dies_ok_append)
qed

lemma parents_below_set: "parents_below k S \<Longrightarrow> p < Suc k \<Longrightarrow> set_cur_parent S l (Some p) = Inr S1 \<Longrightarrow> parents_below (Suc k) S1"
  unfolding parents_below_def set_cur_parent_def
  by (auto split: if_splits dest!: set_update_subset_insert [THEN subsetD])

lemma set_cur_parent_ok:
  assumes "tree_ok S" and "set_cur_parent S l None = Inr S1"
  shows "tree_ok S1"
  using assms unfolding tree_ok_def parents_below_def set_cur_parent_def
  by (auto split: if_splits dest!: set_update_subset_insert [THEN subsetD])

lemma attach_ok:
  assumes "attach S p i = Inr S1" and "dies_ok (dt_blocks S)" and "p < i"
    and "die_at (dt_blocks S) i = Inr d" and "loose d"
  shows "dies_ok (dt_blocks S1) \<and> length (dt_blocks S1) = length (dt_blocks S) \<and> dt_parents S1 = dt_parents S"
proof -
  from assms(1,4) obtain dp where dp: "die_at (dt_blocks S) p = Inr dp" by (auto simp: attach_def bind_run_Inr)
  from assms(5) have "die_parent d = None" by (simp add: loose_def)
  from dies_ok_attach [OF assms(2) dp assms(4,3) this] assms(1,4) dp show ?thesis
    by (auto simp: attach_def)
qed

lemma closest_parent_in: "closest_parent S l = Inr p \<Longrightarrow> Some p \<in> set (dt_parents S)"
proof (induction l)
  case 0
  then show ?case by simp
next
  case (Suc l)
  from Suc.prems obtain q where q: "parent_at S l = Inr q"
      and r: "(case q of Some i \<Rightarrow> Inr i | None \<Rightarrow> closest_parent S l) = Inr p"
    by (auto simp: bind_run_Inr)
  from q have "q \<in> set (dt_parents S)" by (auto simp: parent_at_def split: if_splits)
  with r Suc.IH show ?case by (cases q) auto
qed

lemma add_die_to_tree_ok:
  assumes "tree_new S (Some i)" and "add_die_to_tree S i level = Inr S1"
  shows "tree_ok S1"
proof -
  from assms(1) obtain d where ok: "dies_ok (dt_blocks S)" and len: "length (dt_blocks S) = Suc i"
    and par: "parents_below i S" and d: "die_at (dt_blocks S) i = Inr d" and loose: "loose d"
    by (auto simp: tree_new_def)
  have same: "dt_blocks S2 = dt_blocks S" if "set_cur_parent S level (Some i) = Inr S2" for S2
    using that by (auto simp: set_cur_parent_def split: if_splits)
  consider "level = 0" | "level > 0" "die_haschildren d" | "level > 0" "\<not> die_haschildren d" by blast
  then show ?thesis
  proof cases
    case 1
    with assms(2) have "set_cur_parent S level (Some i) = Inr S1" by (simp add: add_die_to_tree_def)
    with parents_below_set [OF par _ this] same ok len show ?thesis by (simp add: tree_ok_def)
  next
    case 2
    with assms(2) d obtain S2 p where S2: "set_cur_parent S level (Some i) = Inr S2"
        and p: "parent_at S2 (level - 1) = Inr p" and S1: "(case p of None \<Rightarrow> Inr S2 | Some q \<Rightarrow> attach S2 q i) = Inr S1"
      by (auto simp: add_die_to_tree_def bind_run_Inr)
    from parents_below_set [OF par _ S2] have par2: "parents_below (Suc i) S2" by simp
    show ?thesis
    proof (cases p)
      case None
      with S1 par2 same [OF S2] ok len show ?thesis by (simp add: tree_ok_def)
    next
      case (Some q)
      from p Some S2 2(1) have "Some q \<in> set (dt_parents S)"
        by (auto simp: parent_at_def set_cur_parent_def split: if_splits) (metis nth_mem)
      with par have "q < i" by (simp add: parents_below_def)
      from attach_ok [of S2 q i S1 d] S1 Some same [OF S2] ok this d loose len par2 show ?thesis
        by (simp add: tree_ok_def parents_below_def)
    qed
  next
    case 3
    with assms(2) d obtain q where q: "closest_parent S level = Inr q" and S1: "attach S q i = Inr S1"
      by (auto simp: add_die_to_tree_def bind_run_Inr)
    from closest_parent_in [OF q] par have "q < i" by (simp add: parents_below_def)
    from attach_ok [OF S1 ok this d loose] len par show ?thesis
      by (auto simp: tree_ok_def parents_below_def less_Suc_eq)
  qed
qed

lemma place_die_ok:
  assumes "tree_new S p" and "place_die S p level = Inr S1"
  shows "tree_ok S1"
proof (cases p)
  case None
  with assms(2) show ?thesis by (simp add: place_die_def)
next
  case (Some i)
  with assms obtain d where d: "die_at (dt_blocks S) i = Inr d" "loose d" by (auto simp: tree_new_def)
  show ?thesis
  proof (cases "should_add_die_to_tree d")
    case True
    with assms Some d show ?thesis by (auto simp: place_die_def intro: add_die_to_tree_ok)
  next
    case False
    with assms(2) Some d have S1: "S1 = S\<lparr>dt_blocks := (dt_blocks S)[i := None]\<rparr>"
      by (simp add: place_die_def free_block_def)
    from assms(1) Some d have "dies_ok ((dt_blocks S)[i := None])"
      by (auto simp: tree_new_def loose_def intro: dies_ok_freed)
    with assms(1) Some S1 show ?thesis
      by (auto simp: tree_ok_def tree_new_def parents_below_def less_Suc_eq)
  qed
qed

lemma tree_loop_ok:
  "tree_loop n dw asz S h level = Inr S' \<Longrightarrow> tree_ok S \<Longrightarrow> tree_ok S'"
proof (induction n dw asz S h level arbitrary: S' rule: tree_loop.induct)
  case (1 dw asz S h level)
  then show ?case by simp
next
  case (2 n dw asz S h level)
  from "2.prems"(1) obtain S3 where S3: "(case dw_child dw (Some h) of
         DW_DLV_OK c \<Rightarrow>
           bind_run (create_new_die n dw asz S (Some c) level) (\<lambda>(S1, cd).
           bind_run (place_die S1 cd (level + 1)) (\<lambda>S2. tree_loop n dw asz S2 c (level + 1)))
       | _ \<Rightarrow> Inr S) = Inr S3"
    and rest: "(case dw_sibling dw (Some h) of
       DW_DLV_NO_ENTRY \<Rightarrow> set_cur_parent S3 level None
     | sib \<Rightarrow>
         bind_run (create_new_die n dw asz S3 (given sib) level) (\<lambda>(S4, nd).
         bind_run (place_die S4 nd level) (\<lambda>S5.
           case given sib of None \<Rightarrow> Inl NullDeref | Some s \<Rightarrow> tree_loop n dw asz S5 s level))) = Inr S'"
    unfolding tree_loop.simps(2) bind_run_Inr by blast
  have ok3: "tree_ok S3"
  proof (cases "dw_child dw (Some h)")
    case (DW_DLV_OK c)
    with S3 obtain S1 cd S2 where a: "create_new_die n dw asz S (Some c) level = Inr (S1, cd)"
        and b: "place_die S1 cd (level + 1) = Inr S2" and c: "tree_loop n dw asz S2 c (level + 1) = Inr S3"
      by (auto simp: bind_run_Inr)
    from create_new_die_ok [OF a "2.prems"(2)] b have "tree_ok S2" by (rule place_die_ok)
    with "2.IH"(1) [OF DW_DLV_OK a refl b c] show ?thesis by simp
  qed (use S3 "2.prems"(2) in auto)
  show ?case
  proof (cases "dw_sibling dw (Some h)")
    case (DW_DLV_OK s)
    with rest obtain S4 nd S5 where a: "create_new_die n dw asz S3 (Some s) level = Inr (S4, nd)"
        and b: "place_die S4 nd level = Inr S5" and c: "tree_loop n dw asz S5 s level = Inr S'"
      by (auto simp: bind_run_Inr)
    from create_new_die_ok [OF a ok3] b have "tree_ok S5" by (rule place_die_ok)
    with "2.IH"(2) [OF S3 DW_DLV_OK] a b c show ?thesis by simp
  next
    case DW_DLV_NO_ENTRY
    with rest ok3 show ?thesis by (auto intro: set_cur_parent_ok)
  next
    case DW_DLV_ERROR
    with rest show ?thesis by (auto simp: bind_run_Inr)
  qed
qed

lemma construct_die_tree_ok:
  assumes "tree_new S p" and "construct_die_tree n dw asz S p h level = Inr S1"
  shows "tree_ok S1"
proof -
  from assms(2) obtain S2 where "place_die S p level = Inr S2" and l: "tree_loop n dw asz S2 h level = Inr S1"
    by (auto simp: construct_die_tree_def bind_run_Inr)
  with assms(1) have "tree_ok S2" by (blast intro: place_die_ok)
  with l show ?thesis by (rule tree_loop_ok)
qed

lemma root_place_ok:
  assumes "tree_new S (Some r)" and "place_die (S\<lparr>dt_parents := (replicate 100 None)[0 := Some r]\<rparr>) (Some r) 0 = Inr S1"
  shows "tree_ok S1"
proof -
  from assms(1) obtain d where ok: "dies_ok (dt_blocks S)" "length (dt_blocks S) = Suc r"
      and d: "die_at (dt_blocks S) r = Inr d" "die_parent d = None"
    by (auto simp: tree_new_def loose_def)
  have par: "i = r" if "Some i \<in> set ((replicate 100 None)[0 := Some r])" for i
    using that by (auto dest: set_update_subset_insert [THEN subsetD])
  show ?thesis
  proof (cases "should_add_die_to_tree d")
    case True
    with assms(2) d(1) have "S1 = S\<lparr>dt_parents := (replicate 100 None)[0 := Some r]\<rparr>"
      by (simp add: place_die_def add_die_to_tree_def set_cur_parent_def)
    with ok par show ?thesis by (auto simp: tree_ok_def parents_below_def)
  next
    case False
    with assms(2) d(1) have "S\<lparr>dt_parents := (replicate 100 None)[0 := Some r], dt_blocks := (dt_blocks S)[r := None]\<rparr> = S1"
      by (simp add: place_die_def free_block_def)
    then have "dt_blocks S1 = (dt_blocks S)[r := None]" "dt_parents S1 = (replicate 100 None)[0 := Some r]" by auto
    with ok par dies_ok_freed [OF ok(1) d] show ?thesis by (auto simp: tree_ok_def parents_below_def)
  qed
qed

lemma dies_ok_same:
  assumes "dies_ok B" "die_at B i = Inr d" "same_place d e" "die_haschildren e = die_haschildren d"
  shows "dies_ok (B[i := Some e])"
proof -
  have i: "i < length B" using assms(2) by (simp add: die_at_Inr)
  have keep: "\<exists>y. die_at (B[i := Some e]) c = Inr y \<and> die_parent y = q" if "die_at B c = Inr x" "die_parent x = q" for c x q
    using that assms(2,3) i by (cases "c = i") (auto simp: die_at_update same_place_def)
  have "children_ok (B[i := Some e]) j x" if x: "die_at (B[i := Some e]) j = Inr x" for j x
  proof -
    have "\<exists>y. die_at B j = Inr y \<and> die_children x = die_children y \<and> die_haschildren x = die_haschildren y"
      using x assms(2-4) i by (cases "j = i") (auto simp: die_at_update same_place_def)
    then obtain y where y: "die_at B j = Inr y" "die_children x = die_children y" "die_haschildren x = die_haschildren y"
      by blast
    with dies_okD [OF assms(1) y(1)] keep show ?thesis unfolding children_ok_def by metis
  qed
  then show ?thesis by (simp add: dies_ok_def)
qed

lemma read_srclines_ok:
  assumes "read_srclines dw S r = Inr (S1, Inr root)" and "tree_ok S"
  shows "tree_ok S1 \<and> (\<exists>d. die_at (dt_blocks S1) root = Inr d)"
proof -
  from assms(1) obtain d where d: "die_at (dt_blocks S) r = Inr d" by (auto simp: read_srclines_def bind_run_Inr)
  let ?d = "d\<lparr>die_srclines := written (die_srclines d) (dw_srclines dw (die_dwarfdie d))\<rparr>"
  from assms(1) d have e: "S1 = S\<lparr>dt_blocks := (dt_blocks S)[r := Some ?d]\<rparr>" "root = r"
    by (cases "dw_srclines dw (die_dwarfdie d)"; simp add: read_srclines_def)+
  from d have "r < length (dt_blocks S)" by (simp add: die_at_Inr)
  with assms(2) e d show ?thesis
    by (auto simp: tree_ok_def parents_below_def die_at_update same_place_def intro!: dies_ok_same)
qed

lemma unit_tree_ok:
  assumes "initialize_and_build_die_tree_from_root_die n dw asz sib S = Inr (S', Inr root)" and "tree_ok S"
  shows "tree_ok S' \<and> (\<exists>d. die_at (dt_blocks S') root = Inr d)"
proof -
  from assms(1) obtain h where h: "sib = DW_DLV_OK h"
    by (cases sib) (auto simp: initialize_and_build_die_tree_from_root_die_def)
  with assms(1) obtain S1 r S2 where new: "create_new_die n dw asz S (Some h) 0 = Inr (S1, Some r)"
      and c: "construct_die_tree n dw asz (S1\<lparr>dt_parents := (replicate 100 None)[0 := Some r]\<rparr>) (Some r) h 0 = Inr S2"
      and l: "read_srclines dw S2 r = Inr (S', Inr root)"
    by (auto simp: initialize_and_build_die_tree_from_root_die_def bind_run_Inr split: option.splits)
  from c obtain S3 where p: "place_die (S1\<lparr>dt_parents := (replicate 100 None)[0 := Some r]\<rparr>) (Some r) 0 = Inr S3"
      and t: "tree_loop n dw asz S3 h 0 = Inr S2"
    by (auto simp: construct_die_tree_def bind_run_Inr)
  from root_place_ok [OF create_new_die_ok [OF new assms(2)] p] have "tree_ok S3" .
  with t have "tree_ok S2" by (rule tree_loop_ok)
  with l show ?thesis by (rule read_srclines_ok)
qed

lemma no_dies_ok: "tree_ok no_dies"
  by (auto simp: tree_ok_def dies_ok_def no_dies_def parents_below_def die_at_def)

section \<open>The search\<close>

text \<open>The entries of a tree, parents first; \<open>n\<close> bounds the depth.\<close>

fun entries :: "nat \<Rightarrow> ('d, 'l) die option list \<Rightarrow> nat \<Rightarrow> nat list" where
  "entries 0 B i = []"
| "entries (Suc n) B i =
     i # (case die_at B i of Inl _ \<Rightarrow> []
          | Inr d \<Rightarrow> if die_haschildren d
                     then concat (map (entries n B) (case die_children d of None \<Rightarrow> [] | Some cs \<Rightarrow> cs)) else [])"

definition entries_of :: "('d, 'l) die option list \<Rightarrow> nat \<Rightarrow> nat list" where
  "entries_of B i = entries (Suc (length B)) B i"

definition die_matches :: "('d, 'l) die option list \<Rightarrow> die_search_way \<Rightarrow> nat \<Rightarrow> bool" where
  "die_matches B way i = (case die_at B i of Inl _ \<Rightarrow> False | Inr d \<Rightarrow> comparefxn way d)"

inductive below :: "('d, 'l) die option list \<Rightarrow> nat \<Rightarrow> nat \<Rightarrow> bool" for B i where
  here: "below B i i"
| child: "below B i j \<Longrightarrow> die_at B j = Inr d \<Longrightarrow> die_haschildren d \<Longrightarrow> die_children d = Some cs \<Longrightarrow> c \<in> set cs \<Longrightarrow>
     below B i c"

lemma search_list:
  assumes "\<And>c. c \<in> set cs \<Longrightarrow> f c None = Inr (find P (g c))" and "\<And>c j. c \<in> set cs \<Longrightarrow> f c (Some j) = Inr (Some j)"
  shows "run_list f cs out = Inr (case out of Some j \<Rightarrow> Some j | None \<Rightarrow> find P (concat (map g cs)))"
  using assms
proof (induction cs arbitrary: out)
  case Nil
  then show ?case by (cases out) auto
next
  case (Cons c cs)
  have "find P (xs @ ys) = (case find P xs of None \<Rightarrow> find P ys | Some j \<Rightarrow> Some j)" for xs ys
    by (induction xs) auto
  with Cons show ?case by (cases out) (auto split: option.splits)
qed

lemma search_is_find:
  assumes "dies_ok B" and "die_at B i = Inr d" and "length B < n + i"
  shows "die_search_internal n B way (Some i) None = Inr (find (die_matches B way) (entries n B i))"
  using assms(2,3)
proof (induction n arbitrary: i d)
  case 0
  then show ?case by (simp add: die_at_Inr)
next
  case (Suc n)
  show ?case
  proof (cases "comparefxn way d \<or> \<not> die_haschildren d")
    case True
    with Suc.prems(1) show ?thesis by (auto simp: die_matches_def)
  next
    case False
    from dies_okD [OF assms(1) Suc.prems(1)] False obtain cs where cs: "die_children d = Some cs"
        and kids: "\<forall>c\<in>set cs. i < c \<and> (\<exists>x. die_at B c = Inr x)"
      by (fastforce simp: children_ok_def)
    have "die_search_internal n B way (Some c) None = Inr (find (die_matches B way) (entries n B c))" if "c \<in> set cs" for c
      using bspec [OF kids that] Suc.prems(2) by (auto intro: Suc.IH)
    moreover have "die_search_internal n B way (Some c) (Some j) = Inr (Some j)" if "c \<in> set cs" for c j
      using bspec [OF kids that] Suc.prems(2) by (cases n) (auto simp: die_at_Inr)
    ultimately have "run_list (\<lambda>c o1. die_search_internal n B way (Some c) o1) cs None
        = Inr (find (die_matches B way) (concat (map (entries n B) cs)))"
      by (subst search_list [where P = "die_matches B way" and g = "entries n B"]) auto
    moreover from False Suc.prems(1) have "\<not> die_matches B way i" by (simp add: die_matches_def)
    ultimately show ?thesis using False cs Suc.prems(1) by simp
  qed
qed

lemma entries_Suc:
  "j \<in> set (entries (Suc n) B k) \<longleftrightarrow> j = k \<or> (\<exists>d cs c. die_at B k = Inr d \<and> die_haschildren d \<and>
     die_children d = Some cs \<and> c \<in> set cs \<and> j \<in> set (entries n B c))"
proof (cases "die_at B k")
  case (Inr d)
  then show ?thesis by (cases "die_children d") auto
qed simp

lemma entries_below:
  assumes "die_at B i = Inr d"
  shows "j \<in> set (entries n B i) \<Longrightarrow> below B i j"
proof -
  have "j \<in> set (entries n B k) \<Longrightarrow> below B i k \<Longrightarrow> below B i j" for k
  proof (induction n arbitrary: k)
    case 0
    then show ?case by simp
  next
    case (Suc n)
    show ?case
    proof (cases "j = k")
      case True
      with Suc.prems show ?thesis by simp
    next
      case False
      with Suc.prems(1) obtain d cs c where "die_at B k = Inr d" "die_haschildren d" "die_children d = Some cs"
          "c \<in> set cs" "j \<in> set (entries n B c)"
        by (auto simp: entries_Suc simp del: entries.simps)
      with Suc.prems(2) Suc.IH show ?thesis by (blast intro: below.child)
    qed
  qed
  then show "j \<in> set (entries n B i) \<Longrightarrow> below B i j" by (blast intro: below.here)
qed

lemma entries_closed:
  assumes "dies_ok B" "die_at B j = Inr x" "die_haschildren x" "die_children x = Some xs" "c \<in> set xs"
  shows "length B < n + i \<Longrightarrow> i < length B \<Longrightarrow> j \<in> set (entries n B i) \<Longrightarrow> c \<in> set (entries n B i)"
proof (induction n arbitrary: i)
  case 0
  then show ?case by simp
next
  case (Suc n)
  show ?case
  proof (cases "j = i")
    case True
    from dies_okD [OF assms(1,2)] assms(4,5) have "j < c" "c < length B"
      by (auto simp: children_ok_def die_at_Inr)
    with Suc.prems True have "c \<in> set (entries n B c)" by (cases n) auto
    with True assms(2-5) show ?thesis by auto
  next
    case False
    with Suc.prems(3) obtain d cs k where d: "die_at B i = Inr d" "die_haschildren d" "die_children d = Some cs"
        "k \<in> set cs" "j \<in> set (entries n B k)"
      by (auto simp: entries_Suc simp del: entries.simps)
    from dies_okD [OF assms(1) d(1)] d(3,4) have "i < k" "k < length B"
      by (auto simp: children_ok_def die_at_Inr)
    with Suc.prems(1) d(5) have "c \<in> set (entries n B k)" by (intro Suc.IH) auto
    with d show ?thesis by auto
  qed
qed

lemma entries_all:
  assumes "dies_ok B" and "die_at B i = Inr d"
  shows "set (entries_of B i) = {j. below B i j}"
proof -
  have "i < length B" using assms(2) by (simp add: die_at_Inr)
  have "j \<in> set (entries_of B i)" if "below B i j" for j
    using that
  proof induction
    case here
    then show ?case by (simp add: entries_of_def)
  next
    case (child j x xs c)
    then show ?case using entries_closed [OF assms(1) child(2-5), of "Suc (length B)" i] \<open>i < length B\<close>
      by (simp only: entries_of_def)
  qed
  moreover have "below B i j" if "j \<in> set (entries_of B i)" for j
    by (rule entries_below [OF assms(2) that [unfolded entries_of_def]])
  ultimately show ?thesis by blast
qed

text \<open>Whatever is searched for is found where there is such an entry, and the first one is.\<close>

lemma die_search_first:
  assumes "dies_ok B" and "die_at B i = Inr d"
  shows "die_search B (Some i) way = Inr (case find (die_matches B way) (entries_of B i) of
           None \<Rightarrow> Inl (DIE_ERROR_KIND, DIE_DIE_NOT_FOUND) | Some j \<Rightarrow> Inr j)"
  using search_is_find [OF assms, of "Suc (length B)"] by (simp add: die_search_def entries_of_def)

section \<open>Files\<close>

text \<open>
  Entries that are there stay, with their parents, and what was freed stays so: only a new one that is not
  accepted is freed. \<open>extends_but k\<close> is that for all but \<open>k\<close>.
\<close>

definition extends_but :: "nat option \<Rightarrow> ('d, 'l) dtree \<Rightarrow> ('d, 'l) dtree \<Rightarrow> bool" where
  "extends_but k S T \<longleftrightarrow> length (dt_blocks S) \<le> length (dt_blocks T) \<and>
     (\<forall>i<length (dt_blocks S). Some i \<noteq> k \<longrightarrow> map_option die_parent (dt_blocks T ! i) = map_option die_parent (dt_blocks S ! i))"

abbreviation extends :: "('d, 'l) dtree \<Rightarrow> ('d, 'l) dtree \<Rightarrow> bool" where
  "extends \<equiv> extends_but None"

lemma extends_trans: "extends_but k R S \<Longrightarrow> extends_but k S T \<Longrightarrow> extends_but k R T"
  by (simp add: extends_but_def)

lemma extends_refl: "extends_but k S S"
  by (simp add: extends_but_def)

lemma extends_blocks: "dt_blocks S = dt_blocks T \<Longrightarrow> extends_but k S T"
  by (simp add: extends_but_def)

lemma live_update:
  "die_at (dt_blocks S) i = Inr d \<Longrightarrow> die_parent e = die_parent d \<Longrightarrow> extends S (S\<lparr>dt_blocks := (dt_blocks S)[i := Some e]\<rparr>)"
  by (auto simp: extends_but_def die_at_Inr nth_list_update)

lemma extends_live:
  "extends S T \<Longrightarrow> die_at (dt_blocks S) i = Inr d \<Longrightarrow> \<exists>e. die_at (dt_blocks T) i = Inr e \<and> die_parent e = die_parent d"
  by (force simp: extends_but_def die_at_Inr)

lemma attach_extends:
  assumes "attach S p i = Inr T"
  shows "extends_but (Some i) S T"
proof -
  from assms obtain dp d where at: "die_at (dt_blocks S) p = Inr dp" "die_at (dt_blocks S) i = Inr d"
      and T: "S\<lparr>dt_blocks := (dt_blocks S)
         [p := Some (dp\<lparr>die_children := Some ((case die_children dp of None \<Rightarrow> [] | Some cs \<Rightarrow> cs) @ [i])\<rparr>),
          i := Some (d\<lparr>die_parent := Some p\<rparr>)]\<rparr> = T"
    by (auto simp: attach_def bind_run_Inr)
  from at T show ?thesis by (auto simp: extends_but_def die_at_Inr nth_list_update)
qed

lemma set_cur_parent_extends: "set_cur_parent S l p = Inr T \<Longrightarrow> extends_but k S T"
  by (auto simp: set_cur_parent_def intro!: extends_blocks split: if_splits)

lemma add_die_extends:
  assumes "add_die_to_tree S i level = Inr T"
  shows "extends_but (Some i) S T"
proof (cases "level = 0")
  case True
  with assms show ?thesis by (simp add: add_die_to_tree_def set_cur_parent_extends)
next
  case False
  with assms obtain d where a: "die_at (dt_blocks S) i = Inr d" by (auto simp: add_die_to_tree_def bind_run_Inr)
  with assms False have d: "(if die_haschildren d then
          bind_run (set_cur_parent S level (Some i)) (\<lambda>S1.
          bind_run (parent_at S1 (level - 1)) (\<lambda>p. case p of None \<Rightarrow> Inr S1 | Some i1 \<Rightarrow> attach S1 i1 i))
        else bind_run (closest_parent S level) (\<lambda>i1. attach S i1 i)) = Inr T"
    by (simp add: add_die_to_tree_def)
  show ?thesis
  proof (cases "die_haschildren d")
    case True
    with d obtain S1 p where "set_cur_parent S level (Some i) = Inr S1"
        and "(case p of None \<Rightarrow> Inr S1 | Some i1 \<Rightarrow> attach S1 i1 i) = Inr T"
      by (auto simp: bind_run_Inr)
    then show ?thesis
      by (cases p) (auto dest: set_cur_parent_extends attach_extends intro: extends_trans)
  next
    case False
    with d show ?thesis by (auto simp: bind_run_Inr intro: attach_extends)
  qed
qed

lemma new_place_extends:
  assumes "create_new_die n dw asz S h level = Inr (S1, p)" and "place_die (S1\<lparr>dt_parents := ps\<rparr>) p l = Inr T"
  shows "extends S T"
proof (cases p)
  case None
  with assms(2) show ?thesis by (simp add: place_die_def)
next
  case (Some i)
  with assms(1) obtain d c where S1: "S1 = S\<lparr>dt_blocks := dt_blocks S @ [Some d], dt_counts := c\<rparr>" "i = length (dt_blocks S)"
    by (auto simp: create_new_die_def bind_run_Inr split: option.splits)
  show ?thesis
  proof (cases "should_add_die_to_tree d")
    case True
    with assms(2) Some S1 have "add_die_to_tree (S1\<lparr>dt_parents := ps\<rparr>) i l = Inr T"
      by (simp add: place_die_def die_at_append)
    from add_die_extends [OF this] S1 show ?thesis by (auto simp: extends_but_def nth_append)
  next
    case False
    with assms(2) Some S1 have "dt_blocks T = (dt_blocks S @ [Some d])[length (dt_blocks S) := None]"
      by (auto simp: place_die_def die_at_append free_block_def)
    then show ?thesis by (auto simp: extends_but_def nth_append)
  qed
qed

lemma new_place_extends': "create_new_die n dw asz S h level = Inr (S1, p) \<Longrightarrow> place_die S1 p l = Inr T \<Longrightarrow> extends S T"
  using new_place_extends [of n dw asz S h level S1 p "dt_parents S1" l T] by simp

lemma tree_loop_extends: "tree_loop n dw asz S h level = Inr S' \<Longrightarrow> extends S S'"
proof (induction n dw asz S h level arbitrary: S' rule: tree_loop.induct)
  case (1 dw asz S h level)
  then show ?case by simp
next
  case (2 n dw asz S h level)
  from "2.prems"(1) obtain S3 where S3: "(case dw_child dw (Some h) of
         DW_DLV_OK c \<Rightarrow>
           bind_run (create_new_die n dw asz S (Some c) level) (\<lambda>(S1, cd).
           bind_run (place_die S1 cd (level + 1)) (\<lambda>S2. tree_loop n dw asz S2 c (level + 1)))
       | _ \<Rightarrow> Inr S) = Inr S3"
    and rest: "(case dw_sibling dw (Some h) of
       DW_DLV_NO_ENTRY \<Rightarrow> set_cur_parent S3 level None
     | sib \<Rightarrow>
         bind_run (create_new_die n dw asz S3 (given sib) level) (\<lambda>(S4, nd).
         bind_run (place_die S4 nd level) (\<lambda>S5.
           case given sib of None \<Rightarrow> Inl NullDeref | Some s \<Rightarrow> tree_loop n dw asz S5 s level))) = Inr S'"
    unfolding tree_loop.simps(2) bind_run_Inr by blast
  have ok3: "extends S S3"
  proof (cases "dw_child dw (Some h)")
    case (DW_DLV_OK c)
    with S3 obtain S1 cd S2 where a: "create_new_die n dw asz S (Some c) level = Inr (S1, cd)"
        and b: "place_die S1 cd (level + 1) = Inr S2" and c: "tree_loop n dw asz S2 c (level + 1) = Inr S3"
      by (auto simp: bind_run_Inr)
    from "2.IH"(1) [OF DW_DLV_OK a refl b c] new_place_extends' [OF a b] show ?thesis by (rule extends_trans [rotated])
  qed (use S3 extends_refl in auto)
  show ?case
  proof (cases "dw_sibling dw (Some h)")
    case (DW_DLV_OK s)
    with rest obtain S4 nd S5 where a: "create_new_die n dw asz S3 (Some s) level = Inr (S4, nd)"
        and b: "place_die S4 nd level = Inr S5" and c: "tree_loop n dw asz S5 s level = Inr S'"
      by (auto simp: bind_run_Inr)
    with "2.IH"(2) [OF S3 DW_DLV_OK] have "extends S5 S'" by simp
    with ok3 new_place_extends' [OF a b] show ?thesis by (blast intro: extends_trans)
  next
    case DW_DLV_NO_ENTRY
    with rest have "extends S3 S'" by (simp add: set_cur_parent_extends)
    with ok3 show ?thesis by (rule extends_trans)
  next
    case DW_DLV_ERROR
    with rest show ?thesis by (auto simp: bind_run_Inr)
  qed
qed

lemma read_srclines_extends: "read_srclines dw S r = Inr (T, res) \<Longrightarrow> extends S T"
proof -
  assume r: "read_srclines dw S r = Inr (T, res)"
  then obtain d where d: "die_at (dt_blocks S) r = Inr d" by (auto simp: read_srclines_def bind_run_Inr)
  with r show ?thesis
    by (cases "dw_srclines dw (die_dwarfdie d)")
      (simp add: read_srclines_def, use live_update [OF d] extends_refl in fastforce)+
qed

lemma unit_tree_extends:
  assumes "initialize_and_build_die_tree_from_root_die n dw asz sib S = Inr (S', r)"
  shows "extends S S'"
proof (cases sib)
  case (DW_DLV_OK h)
  with assms obtain S1 k S2 S3 where a: "create_new_die n dw asz S (Some h) 0 = Inr (S1, Some k)"
      and b: "place_die (S1\<lparr>dt_parents := (replicate 100 None)[0 := Some k]\<rparr>) (Some k) 0 = Inr S3"
      and c: "tree_loop n dw asz S3 h 0 = Inr S2" and d: "read_srclines dw S2 k = Inr (S', r)"
    by (auto simp: initialize_and_build_die_tree_from_root_die_def construct_die_tree_def bind_run_Inr split: option.splits)
  from new_place_extends [OF a b] tree_loop_extends [OF c] read_srclines_extends [OF d] show ?thesis
    by (blast intro: extends_trans)
qed (use assms in \<open>auto simp: initialize_and_build_die_tree_from_root_die_def extends_refl\<close>)

text \<open>The root is the first of its entries, and has no parent.\<close>

lemma unit_root:
  assumes "initialize_and_build_die_tree_from_root_die n dw asz sib S = Inr (S', Inr root)" and "tree_ok S"
  shows "root = length (dt_blocks S) \<and> (\<exists>d. die_at (dt_blocks S') root = Inr d \<and> die_parent d = None)"
proof -
  from assms(1) obtain h where h: "sib = DW_DLV_OK h"
    by (cases sib) (auto simp: initialize_and_build_die_tree_from_root_die_def)
  with assms(1) obtain S1 k S2 S3 where a: "create_new_die n dw asz S (Some h) 0 = Inr (S1, Some k)"
      and b: "place_die (S1\<lparr>dt_parents := (replicate 100 None)[0 := Some k]\<rparr>) (Some k) 0 = Inr S3"
      and c: "tree_loop n dw asz S3 h 0 = Inr S2" and d: "read_srclines dw S2 k = Inr (S', Inr root)"
    by (auto simp: initialize_and_build_die_tree_from_root_die_def construct_die_tree_def bind_run_Inr split: option.splits)
  from d obtain dk where "die_at (dt_blocks S2) k = Inr dk" by (auto simp: read_srclines_def bind_run_Inr)
  with d have root: "root = k"
    by (cases "dw_srclines dw (die_dwarfdie dk)") (auto simp: read_srclines_def)
  from unit_tree_ok [OF assms] obtain dr where dr: "die_at (dt_blocks S') k = Inr dr" using root by auto
  from create_new_die_ok [OF a assms(2)] obtain d1 where d1: "die_at (dt_blocks S1) k = Inr d1" "die_parent d1 = None"
      "length (dt_blocks S1) = Suc k"
    by (auto simp: tree_new_def loose_def)
  with b have "dt_blocks S3 = dt_blocks S1 \<or> dt_blocks S3 = (dt_blocks S1)[k := None]"
    by (auto simp: place_die_def add_die_to_tree_def set_cur_parent_def free_block_def split: if_splits)
  with d1 have "map_option die_parent (dt_blocks S3 ! k) \<in> {None, Some None}" "k < length (dt_blocks S3)"
    by (auto simp: die_at_Inr)
  moreover from tree_loop_extends [OF c] read_srclines_extends [OF d] have "extends S3 S'" by (rule extends_trans)
  ultimately have "map_option die_parent (dt_blocks S' ! k) \<in> {None, Some None}" by (simp add: extends_but_def)
  with dr have "die_parent dr = None" by (auto simp: die_at_Inr)
  moreover from a have "k = length (dt_blocks S)" by (auto simp: create_new_die_def bind_run_Inr)
  ultimately show ?thesis using dr root by blast
qed

definition dwarfinfo_ok :: "('d, 'l) dwarfinfo \<Rightarrow> bool" where
  "dwarfinfo_ok I \<longleftrightarrow> tree_ok (di_dies I) \<and> distinct (map cu_root_die (di_compunits I)) \<and>
     (\<forall>cu\<in>set (di_compunits I). \<exists>r d. cu_root_die cu = Some r \<and> die_at (di_blocks I) r = Inr d \<and> die_parent d = None)"

lemma load_ok:
  "cu_load_compilation_units n dw us I = Inr (J, Inr ()) \<Longrightarrow> dwarfinfo_ok I \<Longrightarrow> dwarfinfo_ok J"
proof (induction n dw us I rule: cu_load_compilation_units.induct)
  case (1 n dw I)
  then show ?case by simp
next
  case (2 n dw u us I)
  show ?case
  proof (cases u)
    case (DW_DLV_OK hs)
    obtain hdr sib where hs: "hs = (hdr, sib)" by (cases hs)
    with DW_DLV_OK "2.prems"(1) obtain S q where
      q: "initialize_and_build_die_tree_from_root_die n dw (ch_address_size hdr) sib (di_dies I) = Inr (S, q)"
      by (auto simp: bind_run_Inr)
    show ?thesis
    proof (cases q)
      case (Inl err)
      with q DW_DLV_OK hs "2.prems"(1) show ?thesis by simp
    next
      case (Inr root)
      let ?I = "I\<lparr>di_dies := S, di_numcompunits := di_numcompunits I + 1,
                   di_compunits := di_compunits I @
                     [\<lparr>cu_header_len = ch_header_len hdr, cu_abbrev_offset = ch_abbrev_offset hdr,
                       cu_address_size = ch_address_size hdr, cu_next_header_offset = ch_next_header_offset hdr,
                       cu_root_die = Some root\<rparr>]\<rparr>"
      have "\<exists>r d. cu_root_die cu = Some r \<and> r < length (di_blocks I) \<and> die_at (dt_blocks S) r = Inr d \<and> die_parent d = None"
        if "cu \<in> set (di_compunits I)" for cu
        using that "2.prems"(2) extends_live [OF unit_tree_extends [OF q]]
        by (fastforce simp: dwarfinfo_ok_def die_at_Inr)
      with unit_tree_ok [OF q [unfolded Inr]] unit_root [OF q [unfolded Inr]] "2.prems"(2) have "dwarfinfo_ok ?I"
        by (fastforce simp: dwarfinfo_ok_def)
      with "2.IH" [OF DW_DLV_OK hs [symmetric] q refl Inr] "2.prems"(1) DW_DLV_OK hs q Inr show ?thesis by simp
    qed
  qed (use "2.prems" in auto)
qed

lemma init_loaded:
  assumes "sym_init_with_dwarf_file n opened inited counts = Inr (Inr I)"
  shows "\<exists>dw. inited = DW_DLV_OK dw \<and> cu_load_compilation_units n dw (dw_units dw)
      \<lparr>di_fd = 0, di_dies = no_dies\<lparr>dt_counts := counts\<rparr>, di_compunits = [], di_numcompunits = 0\<rparr> = Inr (I, Inr ())"
proof -
  from assms have "\<not> opened < 0" by (auto simp: sym_init_with_dwarf_file_def)
  with assms obtain dw where inited: "inited = DW_DLV_OK dw"
    by (cases inited) (auto simp: sym_init_with_dwarf_file_def)
  with assms \<open>\<not> opened < 0\<close> obtain J q where q: "cu_load_compilation_units n dw (dw_units dw)
      \<lparr>di_fd = 0, di_dies = no_dies\<lparr>dt_counts := counts\<rparr>, di_compunits = [], di_numcompunits = 0\<rparr> = Inr (J, q)"
    by (auto simp: sym_init_with_dwarf_file_def bind_run_Inr)
  with assms \<open>\<not> opened < 0\<close> inited have "q = Inr ()" "J = I"
    by (cases q; simp add: sym_init_with_dwarf_file_def)+
  with q inited show ?thesis by blast
qed

lemma init_ok:
  assumes "sym_init_with_dwarf_file n opened inited counts = Inr (Inr I)"
  shows "dwarfinfo_ok I"
proof -
  have "tree_ok (no_dies\<lparr>dt_counts := counts\<rparr>)"
    using no_dies_ok by (simp add: tree_ok_def parents_below_def)
  with init_loaded [OF assms] load_ok show ?thesis by (fastforce simp: dwarfinfo_ok_def)
qed

text \<open>What the search for a function or a name in a unit gives.\<close>

lemma unit_searched:
  assumes "dwarfinfo_ok I" and "cu < length (di_compunits I)"
  shows "\<exists>root. cu_root_die (di_compunits I ! cu) = Some root \<and>
     set (entries_of (di_blocks I) root) = {j. below (di_blocks I) root j} \<and>
     (\<forall>way. with_root I (Some cu) (\<lambda>r. die_search (di_blocks I) r way) =
        Inr (case find (die_matches (di_blocks I) way) (entries_of (di_blocks I) root) of
          None \<Rightarrow> Inl (DIE_ERROR_KIND, DIE_DIE_NOT_FOUND) | Some j \<Rightarrow> Inr j))"
proof -
  from assms obtain root d where root: "cu_root_die (di_compunits I ! cu) = Some root"
      and d: "die_at (di_blocks I) root = Inr d" and ok: "dies_ok (di_blocks I)"
    unfolding dwarfinfo_ok_def tree_ok_def by (metis nth_mem)
  have "with_root I (Some cu) f = f (Some root)" for f :: "nat option \<Rightarrow> nat sres run"
    using assms(2) root by (simp add: with_root_def cu_get_root_die_def cu_at_def)
  with root die_search_first [OF ok d] entries_all [OF ok d] show ?thesis by simp
qed

lemma die_matches_eqs:
  "die_matches B (DIE_SEARCH_FUNCTION_BY_PC pc) =
     (\<lambda>j. \<exists>d. die_at B j = Inr d \<and> die_tag d = DW_TAG_subprogram \<and> die_low_pc d \<le> pc \<and> pc < die_high_pc d)"
  "die_matches B (DIE_SEARCH_IF_NAME_MATCHES name) = (\<lambda>j. \<exists>d. die_at B j = Inr d \<and> die_diename d = Some name)"
  by (auto simp: die_matches_def die_is_func_in_range_def die_name_matches_def fun_eq_iff split: sum.splits)

lemma file_searched:
  assumes "sym_init_with_dwarf_file n opened inited counts = Inr (Inr I)" and "cu < length (di_compunits I)"
  shows "\<exists>root. cu_root_die (di_compunits I ! cu) = Some root \<and> dies_ok (di_blocks I) \<and>
     set (entries_of (di_blocks I) root) = {j. below (di_blocks I) root j} \<and>
     (\<forall>way. with_root I (Some cu) (\<lambda>r. die_search (di_blocks I) r way) =
        Inr (case find (die_matches (di_blocks I) way) (entries_of (di_blocks I) root) of
          None \<Rightarrow> Inl (DIE_ERROR_KIND, DIE_DIE_NOT_FOUND) | Some j \<Rightarrow> Inr j))"
proof -
  have ok: "dwarfinfo_ok I" by (rule init_ok [OF assms(1)])
  then have "dies_ok (di_blocks I)" by (simp add: dwarfinfo_ok_def tree_ok_def)
  with unit_searched [OF ok assms(2)] show ?thesis by blast
qed

end
