(* ===== verification/DieFree.thy ===== *)
theory DieFree
  imports DieProof
begin

text \<open>
  The end of a DWARF file: the trees of its units are freed block by block, every block once, and nothing else.
\<close>

section \<open>Subtrees\<close>

lemma child_parent:
  assumes "dies_ok B" "die_at B i = Inr d" "die_children d = Some cs" "c \<in> set cs"
  shows "i < c \<and> (\<exists>x. die_at B c = Inr x \<and> die_parent x = Some i)"
  using dies_okD [OF assms(1,2)] assms(3,4) by (auto simp: children_ok_def)

lemma below_le:
  assumes "dies_ok B" and "below B i j"
  shows "i \<le> j"
  using assms(2)
proof induction
  case (child j d cs c)
  with child_parent [OF assms(1) child(2,4,5)] show ?case by simp
qed simp

lemma below_trans:
  assumes "below B i j" and "below B j k"
  shows "below B i k"
  using assms(2,1) by induction (auto intro: below.child)

text \<open>What is not the root of a subtree is there under its parent.\<close>

lemma below_last:
  assumes "dies_ok B" "below B i j" "i \<noteq> j"
  shows "\<exists>k x. below B i k \<and> die_at B j = Inr x \<and> die_parent x = Some k"
  using assms(2,3)
proof (cases rule: below.cases)
  case (child k d cs)
  with child_parent [OF assms(1) child(2,4,5)] show ?thesis by blast
qed simp

lemma below_comparable:
  assumes "dies_ok B" "below B c j" "below B e j"
  shows "below B c e \<or> below B e c"
  using assms(2,3)
proof induction
  case here
  then show ?case by simp
next
  case (child j d cs k)
  show ?case
  proof (cases "e = k")
    case True
    with child show ?thesis by (blast intro: below.child)
  next
    case False
    from below_last [OF assms(1) child(7) False] child_parent [OF assms(1) child(2,4,5)]
    have "below B e j" by auto
    with child(6) show ?thesis .
  qed
qed

lemma siblings_apart:
  assumes "dies_ok B" "die_at B i = Inr d" "die_children d = Some cs" "c \<in> set cs" "e \<in> set cs" "c \<noteq> e"
  shows "\<not> (below B c j \<and> below B e j)"
proof -
  have no: "\<not> below B a b" if "a \<in> set cs" "b \<in> set cs" "a \<noteq> b" for a b
  proof
    assume "below B a b"
    from below_last [OF assms(1) this that(3)] child_parent [OF assms(1-3) that(2)] have "below B a i" by auto
    with below_le [OF assms(1)] child_parent [OF assms(1-3) that(1)] show False by fastforce
  qed
  with below_comparable [OF assms(1)] assms(4-6) show ?thesis by blast
qed

lemma roots_apart:
  assumes "dies_ok B" "die_at B r = Inr d" "die_parent d = None" "die_at B q = Inr x" "die_parent x = None" "r \<noteq> q"
  shows "\<not> (below B r j \<and> below B q j)"
  using below_comparable [OF assms(1)] below_last [OF assms(1)] assms(2-6) by (metis option.distinct(1) sum.inject(2))

section \<open>Freeing\<close>

text \<open>The subtree of \<open>i\<close> is still as it was built; and an operation \<open>g\<close> that frees just that.\<close>

definition untouched :: "('d, 'l) die option list \<Rightarrow> nat \<Rightarrow> ('d, 'l) dtree \<Rightarrow> bool" where
  "untouched B i S \<longleftrightarrow> length (dt_blocks S) = length B \<and> (\<forall>j. below B i j \<longrightarrow> dt_blocks S ! j = B ! j)"

definition freed_below ::
    "('d, 'l) die option list \<Rightarrow> (nat \<Rightarrow> bool) \<Rightarrow> ('d, 'l) dtree \<Rightarrow> ('d, 'l) dtree \<Rightarrow> bool" where
  "freed_below B P S T \<longleftrightarrow> length (dt_blocks T) = length B \<and>
     (\<forall>j. dt_blocks T ! j = (if P j then None else dt_blocks S ! j))"

definition frees :: "('d, 'l) die option list \<Rightarrow> (('d, 'l) dtree \<Rightarrow> ('d, 'l) dtree run) \<Rightarrow> nat \<Rightarrow> bool" where
  "frees B g i \<longleftrightarrow> (\<forall>S. untouched B i S \<longrightarrow> (\<exists>T. g S = Inr T \<and> freed_below B (below B i) S T))"

lemma frees_list:
  assumes "\<And>x. x \<in> set xs \<Longrightarrow> frees B (f x) (r x)"
    and "\<And>x y j. x \<in> set xs \<Longrightarrow> y \<in> set xs \<Longrightarrow> x \<noteq> y \<Longrightarrow> \<not> (below B (r x) j \<and> below B (r y) j)" and "distinct xs"
  shows "length (dt_blocks S) = length B \<Longrightarrow> (\<forall>x\<in>set xs. untouched B (r x) S) \<Longrightarrow>
    \<exists>T. run_list f xs S = Inr T \<and> freed_below B (\<lambda>j. \<exists>x\<in>set xs. below B (r x) j) S T"
  using assms
proof (induction xs arbitrary: S)
  case Nil
  then show ?case by (simp add: freed_below_def)
next
  case (Cons x xs)
  from Cons.prems(3) have "frees B (f x) (r x)" by simp
  with Cons.prems(2) obtain T where T: "f x S = Inr T" and fr: "freed_below B (below B (r x)) S T"
    unfolding frees_def by (meson list.set_intros(1))
  have "untouched B (r y) T" if "y \<in> set xs" for y
  proof -
    from that Cons.prems(5) have "x \<noteq> y" by auto
    with that Cons.prems(4) [of x y] have "\<not> (below B (r x) j \<and> below B (r y) j)" for j by simp
    with that fr Cons.prems(2) show ?thesis by (auto simp: untouched_def freed_below_def)
  qed
  moreover from fr have "length (dt_blocks T) = length B" by (simp add: freed_below_def)
  ultimately obtain U where U: "run_list f xs T = Inr U"
      and "freed_below B (\<lambda>j. \<exists>x\<in>set xs. below B (r x) j) T U"
    using Cons.IH [of T] Cons.prems(3-5) by auto
  with fr have "freed_below B (\<lambda>j. \<exists>y\<in>set (x # xs). below B (r y) j) S U" by (auto simp: freed_below_def)
  with T U show ?case by simp
qed

lemma free_tree_and_block:
  assumes "dies_ok B"
  shows "die_at B i = Inr d \<Longrightarrow> length B < n + i \<Longrightarrow>
    frees B (\<lambda>S. bind_run (die_tree_free n S i) (\<lambda>S1. free_block S1 i)) i"
proof (induction n arbitrary: i d)
  case 0
  then show ?case by (simp add: die_at_Inr)
next
  case (Suc n)
  from Suc.prems(1) have len: "i < length B" by (simp add: die_at_Inr)
  show ?case unfolding frees_def
  proof (intro allI impI)
    fix S
    assume S: "untouched B i S"
    then have at: "die_at (dt_blocks S) i = Inr d"
      using Suc.prems(1) by (auto simp: untouched_def die_at_Inr below.here)
    have lenS: "length (dt_blocks S) = length B" using S by (simp add: untouched_def)
    show "\<exists>T. bind_run (die_tree_free (Suc n) S i) (\<lambda>S1. free_block S1 i) = Inr T \<and> freed_below B (below B i) S T"
    proof (cases "die_haschildren d")
      case False
      have "below B i j \<Longrightarrow> j = i" for j
      proof (induction rule: below.induct)
        case (child j x cs c)
        with Suc.prems(1) False show ?case by simp
      qed simp
      with at False len lenS below.here show ?thesis
        by (auto simp: free_block_def die_at_update freed_below_def nth_list_update)
    next
      case True
      with dies_okD [OF assms Suc.prems(1)] obtain cs where cs: "die_children d = Some cs" and dist: "distinct cs"
        by (auto simp: children_ok_def)
      let ?S = "S\<lparr>dt_blocks := (dt_blocks S)[i := Some (die_free d)]\<rparr>"
      have kid: "i < c \<and> (\<exists>x. die_at B c = Inr x)" if "c \<in> set cs" for c
        using child_parent [OF assms Suc.prems(1) cs that] by blast
      have up: "below B i j" if "c \<in> set cs" "below B c j" for c j
        using below_trans [OF below.child [OF below.here Suc.prems(1) True cs that(1)] that(2)] .
      have "frees B (\<lambda>S. bind_run (die_tree_free n S c) (\<lambda>S1. free_block S1 c)) c" if "c \<in> set cs" for c
        using Suc.IH kid [OF that] Suc.prems(2) by auto
      moreover have "untouched B c ?S" if "c \<in> set cs" for c
        using S up [OF that] kid [OF that] below_le [OF assms, of c] by (fastforce simp: untouched_def nth_list_update)
      ultimately obtain T where
          T: "run_list (\<lambda>c S1. bind_run (die_tree_free n S1 c) (\<lambda>S2. free_block S2 c)) cs ?S = Inr T"
          and fr: "freed_below B (\<lambda>j. \<exists>c\<in>set cs. below B c j) ?S T"
        using frees_list [of cs B "\<lambda>c S1. bind_run (die_tree_free n S1 c) (\<lambda>S2. free_block S2 c)" "\<lambda>c. c" ?S]
          siblings_apart [OF assms Suc.prems(1) cs] dist lenS by auto
      have "\<not> (\<exists>c\<in>set cs. below B c i)" using kid below_le [OF assms] by fastforce
      with fr len lenS have Ti: "die_at (dt_blocks T) i = Inr (die_free d)"
        by (auto simp: freed_below_def die_at_Inr)
      have split: "below B i j \<longleftrightarrow> j = i \<or> (\<exists>c\<in>set cs. below B c j)" for j
      proof
        assume "below B i j"
        then show "j = i \<or> (\<exists>c\<in>set cs. below B c j)"
        proof induction
          case (child j x xs c)
          with Suc.prems(1) cs show ?case by (auto intro: below.here below.child)
        qed simp
      qed (auto intro: up below.here)
      have "die_tree_free (Suc n) S i = Inr (T\<lparr>dt_blocks := (dt_blocks T)[i := Some ((die_free d)\<lparr>die_children := None\<rparr>)]\<rparr>)"
        using at True cs T Ti by simp
      with Ti fr len lenS split show ?thesis
        by (auto simp: free_block_def die_at_update die_at_Inr freed_below_def nth_list_update)
    qed
  qed
qed

text \<open>Freeing all units.\<close>

lemma sym_end_frees:
  assumes "dwarfinfo_ok I"
  shows "\<exists>T. sym_end (Some I) = Inr (Some (T, di_fd I)) \<and> length (dt_blocks T) = length (di_blocks I) \<and>
    (\<forall>j. dt_blocks T ! j = (if \<exists>cu\<in>set (di_compunits I). \<exists>r. cu_root_die cu = Some r \<and> below (di_blocks I) r j
                            then None else di_blocks I ! j))"
proof -
  let ?B = "di_blocks I" and ?cus = "di_compunits I"
  let ?f = "\<lambda>cu S. case cu_root_die cu of None \<Rightarrow> Inr S
            | Some r \<Rightarrow> bind_run (die_tree_free (Suc (length (dt_blocks S))) S r) (\<lambda>S1. free_block S1 r)"
  let ?r = "\<lambda>cu. the (cu_root_die cu)"
  from assms have ok: "dies_ok ?B" and dist: "distinct (map cu_root_die ?cus)"
    by (auto simp: dwarfinfo_ok_def tree_ok_def)
  have root: "\<exists>r d. cu_root_die cu = Some r \<and> die_at ?B r = Inr d \<and> die_parent d = None" if "cu \<in> set ?cus" for cu
    using assms that by (simp add: dwarfinfo_ok_def)
  have fr: "frees ?B (?f cu) (?r cu)" if "cu \<in> set ?cus" for cu
  proof -
    from root [OF that] obtain r d where r: "cu_root_die cu = Some r" "die_at ?B r = Inr d" by blast
    from free_tree_and_block [OF ok r(2), of "Suc (length ?B)"]
    have "frees ?B (\<lambda>S. bind_run (die_tree_free (Suc (length ?B)) S r) (\<lambda>S1. free_block S1 r)) r" by simp
    with r(1) show ?thesis unfolding frees_def untouched_def by (simp del: die_tree_free.simps)
  qed
  have apart: "\<not> (below ?B (?r cu) j \<and> below ?B (?r cv) j)" if "cu \<in> set ?cus" "cv \<in> set ?cus" "cu \<noteq> cv" for cu cv j
  proof -
    from root [OF that(1)] root [OF that(2)] obtain r d q e where
      r: "cu_root_die cu = Some r" "die_at ?B r = Inr d" "die_parent d = None"
      and q: "cu_root_die cv = Some q" "die_at ?B q = Inr e" "die_parent e = None" by blast
    from dist that r(1) q(1) have "r \<noteq> q" by (auto simp: distinct_map inj_on_def)
    with roots_apart [OF ok r(2,3) q(2,3)] r(1) q(1) show ?thesis by simp
  qed
  have "untouched ?B (?r cu) (di_dies I)" for cu by (simp add: untouched_def)
  moreover from dist have "distinct ?cus" by (simp add: distinct_map)
  ultimately have "\<exists>T. run_list ?f ?cus (di_dies I) = Inr T \<and>
      freed_below ?B (\<lambda>j. \<exists>cu\<in>set ?cus. below ?B (?r cu) j) (di_dies I) T"
    by (intro frees_list fr apart) blast+
  then obtain T where T: "run_list ?f ?cus (di_dies I) = Inr T"
      and fr: "freed_below ?B (\<lambda>j. \<exists>cu\<in>set ?cus. below ?B (?r cu) j) (di_dies I) T" by blast
  have "(\<exists>cu\<in>set ?cus. below ?B (?r cu) j) \<longleftrightarrow> (\<exists>cu\<in>set ?cus. \<exists>r. cu_root_die cu = Some r \<and> below ?B r j)" for j
    using root by force
  with T fr show ?thesis by (simp add: sym_end_def freed_below_def)
qed

lemma load_fd: "cu_load_compilation_units n dw us I = Inr (J, Inr ()) \<Longrightarrow> di_fd J = di_fd I"
proof (induction n dw us I rule: cu_load_compilation_units.induct)
  case (1 n dw I)
  then show ?case by simp
next
  case (2 n dw u us I)
  show ?case
  proof (cases u)
    case (DW_DLV_OK hs)
    obtain hdr sib where hs: "hs = (hdr, sib)" by (cases hs)
    with DW_DLV_OK "2.prems"(1) obtain S q where
      q: "initialize_and_build_die_tree_from_root_die n dw (ch_address_size hdr) sib (di_dies I) = Inr (S, q)"
      by (auto simp: bind_run_Inr)
    then show ?thesis using "2.IH" [OF DW_DLV_OK hs [symmetric] q refl] "2.prems"(1) DW_DLV_OK hs by (cases q) auto
  qed (use "2.prems" in auto)
qed

lemma file_released:
  assumes "sym_init_with_dwarf_file n opened inited counts = Inr (Inr I)"
  shows "\<exists>T. sym_end (Some I) = Inr (Some (T, 0)) \<and> length (dt_blocks T) = length (di_blocks I) \<and>
    (\<forall>j. dt_blocks T ! j = (if \<exists>cu\<in>set (di_compunits I). \<exists>r. cu_root_die cu = Some r \<and> below (di_blocks I) r j
                            then None else di_blocks I ! j))"
proof -
  from init_loaded [OF assms] obtain dw where "inited = DW_DLV_OK dw" and load: "cu_load_compilation_units n dw (dw_units dw)
      \<lparr>di_fd = 0, di_dies = no_dies\<lparr>dt_counts := counts\<rparr>, di_compunits = [], di_numcompunits = 0\<rparr> = Inr (I, Inr ())"
    by blast
  from load_fd [OF load] have "di_fd I = 0" by simp
  with sym_end_frees [OF init_ok [OF assms]] show ?thesis by simp
qed

end
