(* ===== verification/DieEnds.thy ===== *)
theory DieEnds
  imports Compunit
begin

text \<open>
  Reading a DWARF file ends. The number the reading takes bounds its turns: with more of it the result stays
  the same, and where the entries of the file form a tree, and the chains of its types end, some number is enough.
\<close>

section \<open>More rounds\<close>

text \<open>The result with fewer rounds is the same, or there were too few.\<close>

definition approx :: "'v run \<Rightarrow> 'v run \<Rightarrow> bool" where
  "approx r s \<longleftrightarrow> r = Inl Diverges \<or> r = s"

definition ends :: "'v run \<Rightarrow> bool" where
  "ends r \<longleftrightarrow> r \<noteq> Inl Diverges"

named_theorems rounds

lemma approx_refl [rounds, simp]: "approx r r"
  by (simp add: approx_def)

lemma approx_bind [rounds]:
  "approx r s \<Longrightarrow> (\<And>x. approx (f x) (g x)) \<Longrightarrow> approx (bind_run r f) (bind_run s g)"
  by (cases r; cases s) (auto simp: approx_def)

lemma approx_Diverges [simp]: "approx (Inl Diverges) r"
  by (simp add: approx_def)

lemma type_params_more:
  assumes "\<And>h st. approx (rec h st) (rec' h st)"
  shows "n \<le> m \<Longrightarrow> approx (type_params dw rec n p st) (type_params dw rec' m p st)"
proof (induction n arbitrary: m p st)
  case (Suc n)
  then obtain m' where "m = Suc m'" "n \<le> m'" by (cases m) auto
  with Suc.IH assms show ?case by (auto intro!: approx_bind split: option.splits)
qed simp

lemma member_info_more:
  "(\<And>h st. approx (rec h st) (rec' h st)) \<Longrightarrow> approx (member_info dw rec h st) (member_info dw rec' h st)"
  by (auto simp: member_info_def intro!: approx_bind split: option.splits)

lemma type_dims_more:
  assumes "\<And>h st. approx (rec h st) (rec' h st)"
  shows "n \<le> m \<Longrightarrow> approx (type_dims dw rec n h sub cur st) (type_dims dw rec' m h sub cur st)"
proof (induction n arbitrary: m sub cur st)
  case (Suc n)
  then obtain m' where m: "m = Suc m'" "n \<le> m'" by (cases m) auto
  show ?case unfolding m type_dims.simps
    by (rule approx_bind [OF member_info_more [OF assms]])
      (auto simp: Let_def Suc.IH [OF m(2)] split: option.splits prod.splits)
qed simp

lemma type_step_more:
  assumes "\<And>h st. approx (rec h st) (rec' h st)" and "n \<le> m"
  shows "approx (type_step dw asz rec n h st) (type_step dw asz rec' m h st)"
proof -
  have "approx (type_subroutine dw rec n h s) (type_subroutine dw rec' m h s)" for s
    unfolding type_subroutine_def Let_def
    by (rule approx_bind) (auto intro: assms(1) type_params_more [OF assms] split: option.splits)
  moreover have "approx (type_array dw rec n h s) (type_array dw rec' m h s)" for s
    unfolding type_array_def Let_def by (auto intro: type_dims_more [OF assms] split: option.splits)
  ultimately show ?thesis
    unfolding type_step_def Let_def by (auto intro!: approx_bind assms(1) split: prod.splits)
qed

lemma type_info_more:
  "n \<le> m \<Longrightarrow> approx (generate_data_type_info n dw asz h st) (generate_data_type_info m dw asz h st)"
proof (induction n arbitrary: m h st)
  case (Suc n)
  then obtain m' where "m = Suc m'" "n \<le> m'" by (cases m) auto
  with Suc.IH show ?case by (auto intro!: type_step_more)
qed simp

lemma die_info_more:
  assumes "n \<le> m"
  shows "approx (create_new_die n dw asz S h level) (create_new_die m dw asz S h level)"
proof -
  have "approx (get_die_data_type_info n dw asz d) (get_die_data_type_info m dw asz d)" for d :: "('a, 'b) die"
    unfolding get_die_data_type_info_def Let_def
    by (auto intro!: approx_bind type_info_more [OF assms] split: dres.splits)
  then have "approx (copy_die_info n dw asz S level d) (copy_die_info m dw asz S level d)" for d
    unfolding copy_die_info_def Let_def by (auto intro!: approx_bind split: prod.splits)
  then show ?thesis
    unfolding create_new_die_def by (auto intro!: approx_bind split: option.splits)
qed

lemma tree_loop_more:
  "n \<le> m \<Longrightarrow> approx (tree_loop n dw asz S h level) (tree_loop m dw asz S h level)"
proof (induction n arbitrary: m S h level)
  case (Suc n)
  then obtain m' where m: "m = Suc m'" "n \<le> m'" by (cases m) auto
  note more = die_info_more [OF m(2)] Suc.IH [OF m(2)]
  have "approx (case dw_child dw (Some h) of
         DW_DLV_OK c \<Rightarrow>
           bind_run (create_new_die n dw asz S (Some c) level) (\<lambda>(S1, cd).
           bind_run (place_die S1 cd (level + 1)) (\<lambda>S2. tree_loop n dw asz S2 c (level + 1)))
       | _ \<Rightarrow> Inr S) (case dw_child dw (Some h) of
         DW_DLV_OK c \<Rightarrow>
           bind_run (create_new_die m' dw asz S (Some c) level) (\<lambda>(S1, cd).
           bind_run (place_die S1 cd (level + 1)) (\<lambda>S2. tree_loop m' dw asz S2 c (level + 1)))
       | _ \<Rightarrow> Inr S)"
    by (auto intro!: approx_bind more split: dres.splits)
  moreover have "approx (case dw_sibling dw (Some h) of
       DW_DLV_NO_ENTRY \<Rightarrow> set_cur_parent S3 level None
     | sib \<Rightarrow>
         bind_run (create_new_die n dw asz S3 (given sib) level) (\<lambda>(S4, nd).
         bind_run (place_die S4 nd level) (\<lambda>S5.
           case given sib of None \<Rightarrow> Inl NullDeref | Some s \<Rightarrow> tree_loop n dw asz S5 s level)))
     (case dw_sibling dw (Some h) of
       DW_DLV_NO_ENTRY \<Rightarrow> set_cur_parent S3 level None
     | sib \<Rightarrow>
         bind_run (create_new_die m' dw asz S3 (given sib) level) (\<lambda>(S4, nd).
         bind_run (place_die S4 nd level) (\<lambda>S5.
           case given sib of None \<Rightarrow> Inl NullDeref | Some s \<Rightarrow> tree_loop m' dw asz S5 s level)))" for S3
    by (auto intro!: approx_bind more split: dres.splits)
  ultimately show ?case unfolding m(1) tree_loop.simps by (rule approx_bind)
qed simp

lemma unit_more:
  assumes "n \<le> m"
  shows "approx (initialize_and_build_die_tree_from_root_die n dw asz sib S)
    (initialize_and_build_die_tree_from_root_die m dw asz sib S)"
  unfolding initialize_and_build_die_tree_from_root_die_def construct_die_tree_def
  by (auto intro!: approx_bind die_info_more [OF assms] tree_loop_more [OF assms] split: dres.splits option.splits)

lemma load_more:
  assumes "n \<le> m"
  shows "approx (cu_load_compilation_units n dw us I) (cu_load_compilation_units m dw us I)"
proof (induction us arbitrary: I)
  case (Cons u us)
  then show ?case
    by (auto intro!: approx_bind unit_more [OF assms] split: dres.splits sum.splits)
qed simp

lemma init_more:
  "n \<le> m \<Longrightarrow> approx (sym_init_with_dwarf_file n opened inited counts) (sym_init_with_dwarf_file m opened inited counts)"
  unfolding sym_init_with_dwarf_file_def by (auto intro!: approx_bind load_more split: dres.splits)

section \<open>What ends always\<close>

lemma ends_Inr [simp]: "ends (Inr x)"
  by (simp add: ends_def)

lemma ends_faults [simp]:
  "ends (Inl NullDeref)" "ends (Inl OutOfBounds)" "ends (Inl UseAfterFree)"
  by (simp_all add: ends_def)

lemma ends_bind: "ends r \<Longrightarrow> (\<And>x. ends (f x)) \<Longrightarrow> ends (bind_run r f)"
  by (cases r) (auto simp: ends_def)

lemma ends_run_list: "(\<And>x s. ends (f x s)) \<Longrightarrow> ends (run_list f xs s)"
  by (induction xs arbitrary: s) (auto intro: ends_bind)

lemma ends_blocks [simp]: "ends (die_at B i)" "ends (deref B p)" "ends (parent_at S l)" "ends (set_cur_parent S l p)"
  by (auto simp: die_at_def deref_def parent_at_def set_cur_parent_def split: option.splits)

lemma ends_location_entry: "ends (add_location_entry S a ie d)"
  by (auto simp: add_location_entry_def add_location_op_def location_of_def Let_def add_additional_location_description_def
    intro!: ends_bind ends_run_list split: option.splits)

lemma ends_subprogram: "ends (is_subprogram S p)"
  by (auto simp: is_subprogram_def intro!: ends_bind split: option.splits)

lemma ends_enclosing: "ends (enclosing_subprogram S l p)"
  by (induction l arbitrary: p) (auto intro!: ends_bind ends_subprogram)

lemma ends_locations: "ends (copy_location_lists dw S a level d)"
  by (auto simp: copy_location_lists_def intro!: ends_bind ends_run_list ends_location_entry ends_subprogram ends_enclosing
    split: option.splits dres.splits)

lemma ends_attach: "ends (attach S p c)"
  by (auto simp: attach_def intro!: ends_bind)

lemma ends_closest: "ends (closest_parent S l)"
  by (induction l) (auto intro!: ends_bind split: option.splits)

lemma ends_place: "ends (place_die S c level)"
  by (auto simp: place_die_def add_die_to_tree_def free_block_def intro!: ends_bind ends_attach ends_closest
    split: option.splits)

lemma ends_srclines: "ends (read_srclines dw S r)"
  by (auto simp: read_srclines_def intro!: ends_bind split: dres.splits)

section \<open>Types\<close>

text \<open>The entries that follow one are finitely many.\<close>

inductive siblings_end :: "('d, 'a, 'l) dwarf \<Rightarrow> 'd \<Rightarrow> bool" for dw where
  "(\<And>s. get_sibling_die dw (Some h) = Some s \<Longrightarrow> siblings_end dw s) \<Longrightarrow> siblings_end dw h"

text \<open>
  The chain from a type to those it is made of comes to one that has a name of its own, or has no type or none
  that can be read; so do those of the parameters of a function type.
\<close>

inductive type_ends :: "('d, 'a, 'l) dwarf \<Rightarrow> 'd option \<Rightarrow> bool" and params_end :: "('d, 'a, 'l) dwarf \<Rightarrow> 'd \<Rightarrow> bool" for dw where
  named: "get_die_tag_raw dw h \<in> {DW_TAG_base_type, DW_TAG_enumeration_type, DW_TAG_structure_type, DW_TAG_union_type} \<Longrightarrow>
    type_ends dw h"
| void: "snd (get_die_attrlist dw h) = 0 \<Longrightarrow>
    get_die_tag_raw dw h \<in> {DW_TAG_pointer_type, DW_TAG_const_type, DW_TAG_volatile_type, DW_TAG_restrict_type} \<Longrightarrow> type_ends dw h"
| failed: "fst (get_die_attrlist dw h) \<Longrightarrow> get_die_tag_raw dw h \<notin> {DW_TAG_formal_parameter, DW_TAG_subroutine_type} \<Longrightarrow>
    type_ends dw h"
| func: "get_die_tag_raw dw h = DW_TAG_subroutine_type \<Longrightarrow>
    (\<And>t. get_type_die dw h = Some t \<Longrightarrow> type_ends dw (Some t)) \<Longrightarrow>
    (\<And>p. get_child_die dw h = Some p \<Longrightarrow> params_end dw p) \<Longrightarrow> type_ends dw h"
| chain: "get_die_tag_raw dw h \<noteq> DW_TAG_subroutine_type \<Longrightarrow> type_ends dw (get_type_die dw h) \<Longrightarrow>
    (\<And>s. get_die_tag_raw dw h = DW_TAG_array_type \<Longrightarrow> get_child_die dw h = Some s \<Longrightarrow> siblings_end dw s) \<Longrightarrow>
    type_ends dw h"
| params: "type_ends dw (Some p) \<Longrightarrow> (\<And>s. get_sibling_die dw (Some p) = Some s \<Longrightarrow> params_end dw s) \<Longrightarrow> params_end dw p"

text \<open>A bound for what an option holds.\<close>

lemma option_bound:
  "(\<And>t. v = Some t \<Longrightarrow> \<exists>k. \<forall>n\<ge>k. P t n) \<Longrightarrow> \<exists>k. \<forall>t n. v = Some t \<longrightarrow> k \<le> n \<longrightarrow> P t n"
  by (cases v) auto

lemma ends_dims:
  assumes "siblings_end dw s"
  shows "\<exists>k. \<forall>n\<ge>k. \<forall>rec cur st. (\<forall>st. ends (member_info dw rec h st)) \<longrightarrow> ends (type_dims dw rec n h s cur st)"
  using assms
proof induction
  case (1 s)
  from option_bound [OF 1(2)] obtain k where k: "\<forall>t n. get_sibling_die dw (Some s) = Some t \<longrightarrow> k \<le> n \<longrightarrow>
      (\<forall>rec cur st. (\<forall>st. ends (member_info dw rec h st)) \<longrightarrow> ends (type_dims dw rec n h t cur st))" ..
  show ?case
  proof (intro exI [of _ "Suc k"] allI impI)
    fix n rec cur st
    assume "Suc k \<le> n" and m: "\<forall>st. ends (member_info dw rec h st)"
    then obtain n' where n: "n = Suc n'" "k \<le> n'" by (cases n) auto
    show "ends (type_dims dw rec n h s cur st)"
      unfolding n(1) type_dims.simps
      by (rule ends_bind) (use m k [rule_format, OF _ n(2) m [rule_format]] in \<open>auto simp: Let_def split: option.splits prod.splits\<close>)
  qed
qed

lemma ends_typedef: "ends (type_typedef dw h st)" "ends (type_qualified tag st)"
  by (auto simp: type_typedef_def type_qualified_def Let_def split: option.splits)

lemma ends_type:
  "type_ends dw h \<Longrightarrow> \<exists>k. \<forall>n\<ge>k. \<forall>st. ends (generate_data_type_info n dw asz h st)"
  "params_end dw p \<Longrightarrow> \<exists>k. \<forall>N\<ge>k. \<forall>n\<ge>k. \<forall>st. ends (type_params dw (generate_data_type_info N dw asz) n p st)"
proof (induction rule: type_ends_params_end.inducts)
  case (named h)
  then show ?case
    by (intro exI [of _ 1] allI impI, case_tac n) (auto simp: type_step_def Let_def split: prod.splits)
next
  case (void h)
  then show ?case
    by (intro exI [of _ 1] allI impI, case_tac n) (auto simp: type_step_def Let_def split: prod.splits)
next
  case (failed h)
  then show ?case
    by (intro exI [of _ 1] allI impI, case_tac n) (auto simp: type_step_def Let_def split: prod.splits)
next
  case (func h)
  from option_bound [OF func(3)] obtain k where k: "\<forall>t n. get_type_die dw h = Some t \<longrightarrow> k \<le> n \<longrightarrow>
      (\<forall>st. ends (generate_data_type_info n dw asz (Some t) st))" ..
  from func(5) obtain l where l: "\<And>p N n st. get_child_die dw h = Some p \<Longrightarrow> l \<le> N \<Longrightarrow> l \<le> n \<Longrightarrow>
      ends (type_params dw (generate_data_type_info N dw asz) n p st)"
    by (cases "get_child_die dw h") auto
  have "ends (generate_data_type_info n dw asz h st)" if "Suc (max k l) \<le> n" for n st
  proof -
    from that obtain n' where n: "n = Suc n'" "k \<le> n'" "l \<le> n'" by (cases n) auto
    have "ends (type_subroutine dw (generate_data_type_info n' dw asz) n' h s)" for s
      unfolding type_subroutine_def Let_def
      by (rule ends_bind) (use k [rule_format, OF _ n(2)] l [OF _ n(3) n(3)] in \<open>auto split: option.splits\<close>)
    then show ?thesis using func(1) by (simp add: n(1) type_step_def Let_def split: prod.splits)
  qed
  then show ?case by blast
next
  case (chain h)
  from chain(3) obtain k where k: "\<And>n st. k \<le> n \<Longrightarrow> ends (generate_data_type_info n dw asz (get_type_die dw h) st)"
    by blast
  have "\<exists>l. \<forall>s n. get_child_die dw h = Some s \<longrightarrow> l \<le> n \<longrightarrow> get_die_tag_raw dw h = DW_TAG_array_type \<longrightarrow>
      (\<forall>rec cur st. (\<forall>st. ends (member_info dw rec h st)) \<longrightarrow> ends (type_dims dw rec n h s cur st))"
    by (rule option_bound) (use ends_dims [OF chain(4)] in blast)
  then obtain l where l: "\<And>s n rec cur st. get_die_tag_raw dw h = DW_TAG_array_type \<Longrightarrow> get_child_die dw h = Some s \<Longrightarrow>
      l \<le> n \<Longrightarrow> \<forall>st. ends (member_info dw rec h st) \<Longrightarrow> ends (type_dims dw rec n h s cur st)" by blast
  have "ends (generate_data_type_info n dw asz h st)" if "Suc (max k l) \<le> n" for n st
  proof -
    from that obtain n' where n: "n = Suc n'" "k \<le> n'" "l \<le> n'" by (cases n) auto
    let ?rec = "generate_data_type_info n' dw asz"
    have "\<forall>s. ends (member_info dw ?rec h s)"
      using k [OF n(2)] by (auto simp: member_info_def intro!: ends_bind split: option.splits)
    then have "ends (type_array dw ?rec n' h s)" if "get_die_tag_raw dw h = DW_TAG_array_type" for s
      using l [OF that _ n(3)] by (auto simp: type_array_def Let_def split: option.splits)
    then show ?thesis
      using chain(1) k [OF n(2)]
      by (auto simp: n(1) type_step_def Let_def intro!: ends_bind ends_typedef split: prod.splits)
  qed
  then show ?case by blast
next
  case (params p)
  from params(2) obtain k where k: "\<And>n st. k \<le> n \<Longrightarrow> ends (generate_data_type_info n dw asz (Some p) st)" by blast
  from params(4) obtain l where l: "\<And>s N n st. get_sibling_die dw (Some p) = Some s \<Longrightarrow> l \<le> N \<Longrightarrow> l \<le> n \<Longrightarrow>
      ends (type_params dw (generate_data_type_info N dw asz) n s st)"
    by (cases "get_sibling_die dw (Some p)") auto
  have "ends (type_params dw (generate_data_type_info N dw asz) n p st)" if "Suc (max k l) \<le> N" "Suc (max k l) \<le> n" for N n st
  proof -
    from that obtain n' where n: "n = Suc n'" "l \<le> n'" "l \<le> N" "k \<le> N" by (cases n) auto
    show ?thesis unfolding n(1) type_params.simps
      by (rule ends_bind) (use k [OF n(4)] l [OF _ n(3,2)] in \<open>auto split: option.splits\<close>)
  qed
  then show ?case by blast
qed

section \<open>Entries\<close>

text \<open>The type an entry names, and what follows: its children and siblings.\<close>

definition readable :: "('d, 'a, 'l) dwarf \<Rightarrow> 'd \<Rightarrow> bool" where
  "readable dw h =
     (case dw_attr dw (Some h) DW_AT_type of
        DW_DLV_OK attr \<Rightarrow> (case dw_offdie dw (written 0 (dw_formref dw (Some attr))) of DW_DLV_OK t \<Rightarrow> type_ends dw (Some t) | _ \<Rightarrow> True)
      | _ \<Rightarrow> True)"

inductive entries_end :: "('d, 'a, 'l) dwarf \<Rightarrow> 'd \<Rightarrow> bool" for dw where
  "readable dw h \<Longrightarrow> (\<And>c. dw_child dw (Some h) = DW_DLV_OK c \<Longrightarrow> entries_end dw c) \<Longrightarrow>
   (\<And>s. dw_sibling dw (Some h) = DW_DLV_OK s \<Longrightarrow> entries_end dw s) \<Longrightarrow> entries_end dw h"

lemma copied_head:
  "die_dwarfdie (fst (copy_die_head dw c d)) = die_dwarfdie d"
  "die_datatypedieoffset (fst (copy_die_head dw c d)) = die_datatypedieoffset d"
  by (auto simp: copy_die_head_def Let_def name_anonymous_def read_abstract_origin_def label_block_def split: prod.splits dres.splits)

lemma ends_new:
  assumes "readable dw h"
  shows "\<exists>k. \<forall>n\<ge>k. \<forall>S level. ends (create_new_die n dw asz S (Some h) level)"
proof -
  have "\<exists>k. \<forall>n\<ge>k. \<forall>d. die_dwarfdie d = Some h \<longrightarrow> die_datatypedieoffset d = 0 \<longrightarrow> ends (get_die_data_type_info n dw asz d)"
    using assms unfolding readable_def get_die_data_type_info_def Let_def
    by (auto simp: ends_bind split: dres.splits dest!: ends_type(1) [of _ _ asz]) (meson ends_bind ends_Inr)
  then obtain k where k: "\<And>n d. k \<le> n \<Longrightarrow> die_dwarfdie d = Some h \<Longrightarrow> die_datatypedieoffset d = 0 \<Longrightarrow>
      ends (get_die_data_type_info n dw asz d)" by blast
  have "ends (create_new_die n dw asz S (Some h) level)" if "k \<le> n" for n and S :: "('a, 'c) dtree" and level
    using k [OF that] copied_head [of dw "dt_counts S" "new_die (Some h)"]
    by (auto simp: create_new_die_def copy_die_info_def Let_def new_die_def intro!: ends_bind ends_locations split: prod.splits)
  then show ?thesis by blast
qed

lemma ends_tree:
  "entries_end dw h \<Longrightarrow> \<exists>k. \<forall>n\<ge>k. \<forall>S level. ends (create_new_die n dw asz S (Some h) level) \<and> ends (tree_loop n dw asz S h level)"
proof (induction rule: entries_end.induct)
  case (1 h)
  define new where "new = (\<lambda>c n. \<forall>S level. ends (create_new_die n dw asz S (Some c) level) \<and> ends (tree_loop n dw asz S c level))"
  have "\<exists>k. \<forall>c n. given (dw_child dw (Some h)) = Some c \<longrightarrow> k \<le> n \<longrightarrow> new c n"
    by (rule option_bound) (use 1(4) in \<open>cases "dw_child dw (Some h)"; auto simp: new_def\<close>)
  then obtain k where k: "\<forall>c n. given (dw_child dw (Some h)) = Some c \<longrightarrow> k \<le> n \<longrightarrow> new c n" ..
  have "\<exists>k. \<forall>s n. given (dw_sibling dw (Some h)) = Some s \<longrightarrow> k \<le> n \<longrightarrow> new s n"
    by (rule option_bound) (use 1(5) in \<open>cases "dw_sibling dw (Some h)"; auto simp: new_def\<close>)
  then obtain l where l: "\<forall>s n. given (dw_sibling dw (Some h)) = Some s \<longrightarrow> l \<le> n \<longrightarrow> new s n" ..
  from ends_new [OF 1(1)] obtain m where m: "\<forall>n\<ge>m. \<forall>S level. ends (create_new_die n dw asz S (Some h) level)" ..
  have "ends (tree_loop n dw asz S h level)" if "Suc (max k l) \<le> n" for n S level
  proof -
    from that obtain n' where n: "n = Suc n'" "k \<le> n'" "l \<le> n'" by (cases n) auto
    have c: "new c n'" if "dw_child dw (Some h) = DW_DLV_OK c" for c
      using k n(2) that by simp
    have s: "new s n'" if "dw_sibling dw (Some h) = DW_DLV_OK s" for s
      using l n(3) that by simp
    have "ends (create_new_die n' dw asz T None level)" for T
      by (simp add: create_new_die_def)
    with c s show ?thesis unfolding n(1) tree_loop.simps new_def
      by (auto intro!: ends_bind ends_place split: dres.splits)
  qed
  with m show ?case by (auto intro!: exI [of _ "max m (Suc (max k l))"])
qed

definition unit_ends :: "('d, 'a, 'l) dwarf \<Rightarrow> (cu_header \<times> 'd dres) dres \<Rightarrow> bool" where
  "unit_ends dw u = (case u of DW_DLV_OK (hdr, DW_DLV_OK h) \<Rightarrow> entries_end dw h | _ \<Rightarrow> True)"

lemma ends_unit:
  assumes "unit_ends dw (DW_DLV_OK (hdr, sib))"
  shows "\<exists>k. \<forall>n\<ge>k. \<forall>S. ends (initialize_and_build_die_tree_from_root_die n dw asz sib S)"
proof (cases sib)
  case (DW_DLV_OK h)
  with assms ends_tree [of dw h asz] obtain k where
    "\<forall>n\<ge>k. \<forall>S level. ends (create_new_die n dw asz S (Some h) level) \<and> ends (tree_loop n dw asz S h level)"
    by (auto simp: unit_ends_def)
  then show ?thesis
    by (auto simp: DW_DLV_OK initialize_and_build_die_tree_from_root_die_def construct_die_tree_def
      intro!: exI [of _ k] ends_bind ends_place ends_srclines split: option.splits)
qed (auto simp: initialize_and_build_die_tree_from_root_die_def)

lemma ends_load:
  "\<forall>u\<in>set us. unit_ends dw u \<Longrightarrow> \<exists>k. \<forall>n\<ge>k. \<forall>I. ends (cu_load_compilation_units n dw us I)"
proof (induction us)
  case (Cons u us)
  then obtain k where k: "\<forall>n\<ge>k. \<forall>I. ends (cu_load_compilation_units n dw us I)" by auto
  show ?case
  proof (cases u)
    case (DW_DLV_OK w)
    obtain hdr sib where w: "w = (hdr, sib)" by (cases w)
    from Cons.prems have "unit_ends dw (DW_DLV_OK (hdr, sib))" by (simp add: DW_DLV_OK w)
    from ends_unit [OF this] obtain l where
      l: "\<forall>n\<ge>l. \<forall>S. ends (initialize_and_build_die_tree_from_root_die n dw (ch_address_size hdr) sib S)" ..
    have "ends (cu_load_compilation_units n dw (u # us) I)" if "max k l \<le> n" for n I
      using k l that by (auto simp: DW_DLV_OK w intro!: ends_bind split: sum.splits)
    then show ?thesis by blast
  qed auto
qed auto

lemma reading_ends:
  assumes "\<forall>u\<in>set (dw_units dw). unit_ends dw u"
  shows "\<exists>k r. ends r \<and> (\<forall>n\<ge>k. sym_init_with_dwarf_file n opened (DW_DLV_OK dw) counts = r)"
proof -
  from ends_load [OF assms] obtain k where "\<forall>n\<ge>k. \<forall>I. ends (cu_load_compilation_units n dw (dw_units dw) I)" ..
  then have e: "ends (sym_init_with_dwarf_file k opened (DW_DLV_OK dw) counts)"
    by (auto simp: sym_init_with_dwarf_file_def intro!: ends_bind split: sum.splits)
  have "sym_init_with_dwarf_file n opened (DW_DLV_OK dw) counts = sym_init_with_dwarf_file k opened (DW_DLV_OK dw) counts"
    if "k \<le> n" for n
    using init_more [OF that, of opened "DW_DLV_OK dw" counts] e by (auto simp: approx_def ends_def)
  with e show ?thesis by blast
qed

end
