(* ===== verification/SampleDie.thy ===== *)
theory SampleDie
  imports DieProof
begin

text \<open>
  A small DWARF file: the unit \<^verbatim>\<open>a.c\<close> with the functions \<^verbatim>\<open>main\<close>, which has the parameter \<^verbatim>\<open>argc\<close> and
  a pointer as a variable, and \<^verbatim>\<open>f\<close>, and the types they use, which are not kept.
\<close>

record row =
  r_name :: "string option"
  r_tag :: u16
  r_off :: u64
  r_child :: "nat option"
  r_sibling :: "nat option"
  r_type :: "u64 option"
  r_low :: u64
  r_size :: u64

definition rows :: "row list" where
  "rows =
     [\<lparr>r_name = Some ''a.c'', r_tag = DW_TAG_compile_unit, r_off = 0x0B, r_child = Some 1, r_sibling = None, r_type = None,
       r_low = 0x4000, r_size = 0x80\<rparr>,
      \<lparr>r_name = Some ''main'', r_tag = DW_TAG_subprogram, r_off = 0x2A, r_child = Some 4, r_sibling = Some 2, r_type = Some 0x60,
       r_low = 0x4000, r_size = 0x40\<rparr>,
      \<lparr>r_name = Some ''int'', r_tag = DW_TAG_base_type, r_off = 0x60, r_child = None, r_sibling = Some 3, r_type = None,
       r_low = 0, r_size = 4\<rparr>,
      \<lparr>r_name = Some ''f'', r_tag = DW_TAG_subprogram, r_off = 0x70, r_child = None, r_sibling = Some 6, r_type = None,
       r_low = 0x4040, r_size = 0x40\<rparr>,
      \<lparr>r_name = Some ''argc'', r_tag = DW_TAG_formal_parameter, r_off = 0x40, r_child = None, r_sibling = Some 5,
       r_type = Some 0x60, r_low = 0, r_size = 0\<rparr>,
      \<lparr>r_name = Some ''p'', r_tag = DW_TAG_variable, r_off = 0x50, r_child = None, r_sibling = None, r_type = Some 0x80,
       r_low = 0, r_size = 0\<rparr>,
      \<lparr>r_name = None, r_tag = DW_TAG_pointer_type, r_off = 0x80, r_child = None, r_sibling = None, r_type = Some 0x60,
       r_low = 0, r_size = 8\<rparr>]"

definition in_row :: "(row \<Rightarrow> 'v dres) \<Rightarrow> nat option \<Rightarrow> 'v dres" where
  "in_row f h = (case h of None \<Rightarrow> DW_DLV_ERROR | Some i \<Rightarrow> if i < length rows then f (rows ! i) else DW_DLV_ERROR)"

definition there :: "'v option \<Rightarrow> 'v dres" where
  "there v = (case v of None \<Rightarrow> DW_DLV_NO_ENTRY | Some x \<Rightarrow> DW_DLV_OK x)"

text \<open>Attributes are the offset of the type. Lines are their numbers with their addresses.\<close>

definition sample_dwarf :: "(nat, u64, nat) dwarf" where
  "sample_dwarf =
     \<lparr>dw_diename = in_row (\<lambda>r. there (r_name r)), dw_tag = in_row (\<lambda>r. DW_DLV_OK (r_tag r)),
      dw_dieoffset = in_row (\<lambda>r. DW_DLV_OK (r_off r)), dw_child = in_row (\<lambda>r. there (r_child r)),
      dw_sibling = in_row (\<lambda>r. there (r_sibling r)),
      dw_attr = (\<lambda>h at. in_row (\<lambda>r. if at = DW_AT_type then there (r_type r) else DW_DLV_NO_ENTRY) h),
      dw_formref = (\<lambda>a. case a of None \<Rightarrow> DW_DLV_ERROR | Some off \<Rightarrow> DW_DLV_OK off),
      dw_offdie = (\<lambda>off. there (find (\<lambda>i. r_off (rows ! i) = off) [0, 1, 2, 3, 4, 5, 6])),
      dw_attrcnt = in_row (\<lambda>r. DW_DLV_OK (if r_type r = None then 0 else 1)),
      dw_formsdata = (\<lambda>a. DW_DLV_ERROR), dw_formudata = (\<lambda>a. DW_DLV_ERROR),
      dw_bytesize = in_row (\<lambda>r. DW_DLV_OK (r_size r)), dw_lowpc = in_row (\<lambda>r. DW_DLV_OK (r_low r)),
      dw_highpc = in_row (\<lambda>r. DW_DLV_OK (r_size r)), dw_children_flag = (\<lambda>h. given (in_row (\<lambda>r. there (r_child r)) h) \<noteq> None),
      dw_tag_name = (\<lambda>t. None), dw_loclist = (\<lambda>a. DW_DLV_NO_ENTRY), dw_srclines = (\<lambda>h. DW_DLV_OK [3, 7]),
      dw_linesrc = (\<lambda>l. DW_DLV_OK ''a.c''), dw_lineno = (\<lambda>l. DW_DLV_OK (of_nat l)),
      dw_lineaddr = (\<lambda>l. DW_DLV_OK (0x4000 + 4 * of_nat l)),
      dw_units = [DW_DLV_OK (\<lparr>ch_header_len = 0x80, ch_abbrev_offset = 0, ch_address_size = 8, ch_next_header_offset = 0x90\<rparr>,
                             DW_DLV_OK 0)]\<rparr>"

definition no_counts :: die_counts where
  "no_counts = \<lparr>lex_block_count = 0, anon_struct_count = 0, anon_union_count = 0, anon_enum_count = 0\<rparr>"

definition sample_init :: "(nat, nat) dwarfinfo sres run" where
  "sample_init = sym_init_with_dwarf_file 9 3 (DW_DLV_OK sample_dwarf) no_counts"

definition loaded :: "(nat, nat) dwarfinfo sres run \<Rightarrow> bool" where
  "loaded r = (case r of Inr (Inr I) \<Rightarrow> length (di_compunits I) = 1 | _ \<Rightarrow> False)"

lemma sample_loaded: "loaded sample_init"
  by code_simp

definition entry_names :: "(nat, nat) dwarfinfo sres run \<Rightarrow> (string option \<times> nat option \<times> string option) option list" where
  "entry_names r = (case r of Inr (Inr I) \<Rightarrow> map (map_option (\<lambda>d. (die_diename d, die_parent d, die_datatypename d))) (di_blocks I) | _ \<Rightarrow> [])"

lemma sample_entries:
  "entry_names sample_init =
     [Some (Some ''a.c'', None, None), Some (Some ''main'', Some 0, Some ''int''), Some (Some ''argc'', Some 1, Some ''int''),
      Some (Some ''p'', Some 1, Some ''int *''), None, Some (Some ''f'', Some 0, None), None]"
  by code_simp

definition sample_info :: "(nat, nat) dwarfinfo" where
  "sample_info = projr (projr sample_init)"

lemma sample_info_loaded:
  "sym_init_with_dwarf_file 9 3 (DW_DLV_OK sample_dwarf) no_counts = Inr (Inr sample_info)"
  "length (di_compunits sample_info) = 1"
  using sample_loaded by (auto simp: loaded_def sample_info_def sample_init_def split: sum.splits)

lemma sample_found:
  "sym_find_function_die_by_pc sample_info (Some 0) 0x4044 = Inr (Inr 5)"
  "sym_find_die_by_name sample_info (Some 0) ''p'' = Inr (Inr 3)"
  by code_simp+

end
