(* ===== verification/SampleEnds.thy ===== *)
theory SampleEnds
  imports DieEnds SampleDie
begin

text \<open>The entries of the sample file, and their types, come to an end.\<close>

lemma sample_rows:
  "i < 7 \<Longrightarrow> get_die_tag_raw sample_dwarf (Some i) = r_tag (rows ! i)"
  "get_type_die sample_dwarf (Some 6) = Some 2"
  by (simp add: get_die_tag_raw_def sample_dwarf_def in_row_def rows_def) code_simp

lemma sample_types: "type_ends sample_dwarf (Some 2)" "type_ends sample_dwarf (Some 6)"
proof -
  show int: "type_ends sample_dwarf (Some 2)" by (rule named) (simp add: sample_rows rows_def)
  show "type_ends sample_dwarf (Some 6)"
    by (rule chain) (simp_all add: sample_rows int, simp_all add: rows_def)
qed

text \<open>Row by row: the type it names, the first child and the sibling.\<close>

definition type_of_row :: "nat \<Rightarrow> nat dres" where
  "type_of_row i = (case dw_attr sample_dwarf (Some i) DW_AT_type of
     DW_DLV_OK attr \<Rightarrow> dw_offdie sample_dwarf (written 0 (dw_formref sample_dwarf (Some attr))) | _ \<Rightarrow> DW_DLV_NO_ENTRY)"

lemma row_ends:
  assumes "type_of_row i = t" and "dw_child sample_dwarf (Some i) = c" and "dw_sibling sample_dwarf (Some i) = s"
    and "\<And>h. t = DW_DLV_OK h \<Longrightarrow> type_ends sample_dwarf (Some h)"
    and "\<And>h. c = DW_DLV_OK h \<Longrightarrow> entries_end sample_dwarf h" and "\<And>h. s = DW_DLV_OK h \<Longrightarrow> entries_end sample_dwarf h"
  shows "entries_end sample_dwarf i"
proof (rule entries_end.intros)
  show "readable sample_dwarf i"
    using assms(4) unfolding assms(1) [symmetric] type_of_row_def readable_def by (simp split: dres.splits)
qed (use assms in simp_all)

lemma sample_types_of:
  "type_of_row 0 = DW_DLV_NO_ENTRY" "type_of_row 1 = DW_DLV_OK 2" "type_of_row 2 = DW_DLV_NO_ENTRY"
  "type_of_row 3 = DW_DLV_NO_ENTRY" "type_of_row 4 = DW_DLV_OK 2" "type_of_row 5 = DW_DLV_OK 6" "type_of_row 6 = DW_DLV_OK 2"
  by code_simp+

lemma sample_next:
  "dw_child sample_dwarf (Some 0) = DW_DLV_OK 1" "dw_sibling sample_dwarf (Some 0) = DW_DLV_NO_ENTRY"
  "dw_child sample_dwarf (Some 1) = DW_DLV_OK 4" "dw_sibling sample_dwarf (Some 1) = DW_DLV_OK 2"
  "dw_child sample_dwarf (Some 2) = DW_DLV_NO_ENTRY" "dw_sibling sample_dwarf (Some 2) = DW_DLV_OK 3"
  "dw_child sample_dwarf (Some 3) = DW_DLV_NO_ENTRY" "dw_sibling sample_dwarf (Some 3) = DW_DLV_OK 6"
  "dw_child sample_dwarf (Some 4) = DW_DLV_NO_ENTRY" "dw_sibling sample_dwarf (Some 4) = DW_DLV_OK 5"
  "dw_child sample_dwarf (Some 5) = DW_DLV_NO_ENTRY" "dw_sibling sample_dwarf (Some 5) = DW_DLV_NO_ENTRY"
  "dw_child sample_dwarf (Some 6) = DW_DLV_NO_ENTRY" "dw_sibling sample_dwarf (Some 6) = DW_DLV_NO_ENTRY"
  by code_simp+

lemma sample_entries_end: "entries_end sample_dwarf 0"
proof -
  have 6: "entries_end sample_dwarf 6"
    by (rule row_ends [OF sample_types_of(7) sample_next(13,14)]) (use sample_types in simp_all)
  have 3: "entries_end sample_dwarf 3"
    by (rule row_ends [OF sample_types_of(4) sample_next(7,8)]) (use sample_types 6 in simp_all)
  have 2: "entries_end sample_dwarf 2"
    by (rule row_ends [OF sample_types_of(3) sample_next(5,6)]) (use sample_types 3 in simp_all)
  have 5: "entries_end sample_dwarf 5"
    by (rule row_ends [OF sample_types_of(6) sample_next(11,12)]) (use sample_types in simp_all)
  have 4: "entries_end sample_dwarf 4"
    by (rule row_ends [OF sample_types_of(5) sample_next(9,10)]) (use sample_types 5 in simp_all)
  have 1: "entries_end sample_dwarf 1"
    by (rule row_ends [OF sample_types_of(2) sample_next(3,4)]) (use sample_types 2 4 in simp_all)
  show ?thesis
    by (rule row_ends [OF sample_types_of(1) sample_next(1,2)]) (use sample_types 1 in simp_all)
qed

lemma sample_units_end: "\<forall>u\<in>set (dw_units sample_dwarf). unit_ends sample_dwarf u"
  using sample_entries_end by (simp add: unit_ends_def sample_dwarf_def)

end
