(* ===== verification/Trace.thy ===== *)
theory Trace
  imports Commands3
begin

text \<open>
  The kernel's trace, \<^verbatim>\<open>source/trace.c\<close>, with the tables of names \<^verbatim>\<open>source/iosdbg.c\<close> can read for it, and
  of that file the start of the program and what Ctrl+C does. What the kernel gives is an argument, and so
  is when the flag \<^verbatim>\<open>stop\<close> of the other thread is seen.
\<close>

section \<open>The names of the events\<close>

text \<open>A line has the code and the name of an event, with blanks between them.\<close>

definition get_code_and_event_from_line :: "string \<Rightarrow> string \<times> string" where
  "get_code_and_event_from_line line =
     (takeWhile (\<lambda>c. \<not> isblank c) line,
      takeWhile (\<lambda>c. \<not> isblank c) (dropWhile isblank (dropWhile (\<lambda>c. \<not> isblank c) line)))"

text \<open>
  A table is a block of pointers to names, None for one that was not written. \<open>kt_largest\<close> counts the
  entries for messages.
\<close>

type_synonym name_cells = "string option option list"

record ktables =
  bsd_syscalls :: name_cells
  bsd_syscalls_arr_len :: int
  mach_traps :: name_cells
  mach_traps_arr_len :: int
  mach_traps2 :: name_cells
  mach_traps2_arr_len :: int
  kt_largest :: int

datatype event_kind = BSC | MSC | MSG

definition event_kind_of :: "string \<Rightarrow> event_kind option" where
  "event_kind_of event =
     (if take 3 event = ''BSC'' then Some BSC else if take 3 event = ''MSC'' then Some MSC
      else if take 3 event = ''MSG'' then Some MSG else None)"

text \<open>The index is cut to an \<^verbatim>\<open>int\<close>.\<close>

definition event_idx :: "event_kind \<Rightarrow> u64 \<Rightarrow> int" where
  "event_idx ek codenum =
     sint (ucast (case ek of
         BSC \<Rightarrow> if codenum > 0x40c0824 then (codenum AND NOT 0xff00000) div 4 else (codenum AND 0xfff) div 4
       | MSC \<Rightarrow> (codenum AND 0xfff) div 4
       | MSG \<Rightarrow> (codenum AND 0x00ffffff) div 4) :: u32)"

text \<open>The last character of the line is cut off.\<close>

definition code_line :: "string \<Rightarrow> u64 \<times> string" where
  "code_line line =
     (let (code, event) = get_code_and_event_from_line (butlast line) in (fst (strtol code 16), event))"

definition resized :: "int \<Rightarrow> name_cells \<Rightarrow> name_cells run" where
  "resized n cs = (if n < 0 then Inl OutOfBounds else Inr (realloc_cells None (nat n) (Some cs)))"

definition size_table :: "nat \<times> string \<Rightarrow> ktables \<Rightarrow> ktables run" where
  "size_table iline K =
     (let curline = int (fst iline); (codenum, event) = code_line (snd iline)
      in case event_kind_of event of None \<Rightarrow> Inr K
         | Some ek \<Rightarrow> let eventidx = event_idx ek codenum in
            (case ek of
               BSC \<Rightarrow> bind_run (resized (if codenum > 0x40c0824 then curline + eventidx else curline + 1) (bsd_syscalls K))
                 (\<lambda>cs. Inr (K\<lparr>bsd_syscalls := cs, bsd_syscalls_arr_len := eventidx\<rparr>))
             | MSC \<Rightarrow> bind_run (resized (curline + 1) (mach_traps K))
                 (\<lambda>cs. Inr (K\<lparr>mach_traps := cs, mach_traps_arr_len := eventidx\<rparr>))
             | MSG \<Rightarrow> if eventidx > kt_largest K
                 then bind_run (resized (eventidx + 1) (mach_traps2 K)) (\<lambda>cs.
                   Inr (K\<lparr>mach_traps2 := cs, kt_largest := eventidx + 1, mach_traps2_arr_len := eventidx + 1\<rparr>))
                 else Inr (K\<lparr>mach_traps2_arr_len := kt_largest K\<rparr>)))"

definition clear_cells :: "int \<Rightarrow> name_cells \<Rightarrow> name_cells run" where
  "clear_cells len cs =
     (if int (length cs) < len then Inl OutOfBounds else Inr (replicate (nat len) (Some None) @ drop (nat len) cs))"

definition put_name :: "int \<Rightarrow> string \<Rightarrow> name_cells \<Rightarrow> name_cells run" where
  "put_name i event cs =
     (if i < 0 \<or> int (length cs) \<le> i \<or> length event < 4 then Inl OutOfBounds
      else Inr (cs[nat i := Some (Some (drop 4 event))]))"

definition fill_table :: "string \<Rightarrow> ktables \<Rightarrow> ktables run" where
  "fill_table line K =
     (let (codenum, event) = code_line line
      in case event_kind_of event of None \<Rightarrow> Inr K
         | Some ek \<Rightarrow> let eventidx = event_idx ek codenum in
            (case ek of
               BSC \<Rightarrow> bind_run (put_name eventidx event (bsd_syscalls K)) (\<lambda>cs. Inr (K\<lparr>bsd_syscalls := cs\<rparr>))
             | MSC \<Rightarrow> bind_run (put_name eventidx event (mach_traps K)) (\<lambda>cs. Inr (K\<lparr>mach_traps := cs\<rparr>))
             | MSG \<Rightarrow> bind_run (put_name eventidx event (mach_traps2 K)) (\<lambda>cs. Inr (K\<lparr>mach_traps2 := cs\<rparr>))))"

definition no_ktables :: ktables where
  "no_ktables = \<lparr>bsd_syscalls = [Some None], bsd_syscalls_arr_len = 0, mach_traps = [Some None], mach_traps_arr_len = 0,
     mach_traps2 = [Some None], mach_traps2_arr_len = 0, kt_largest = 0\<rparr>"

text \<open>The lines of the file, if it can be read: the tables, whether tracing is disabled, and the text.\<close>

definition setup_tracing :: "string list option \<Rightarrow> (ktables option \<times> bool \<times> string) run" where
  "setup_tracing tracecodes =
     (case tracecodes of
        None \<Rightarrow> Inr (None, True, concat [''Could not read /usr/share/misc/trace.codes.'', ''Tracing is disabled.'', nl])
      | Some ls \<Rightarrow>
          bind_run (run_list size_table (enumerate 0 ls) no_ktables) (\<lambda>K.
          bind_run (clear_cells (bsd_syscalls_arr_len K) (bsd_syscalls K)) (\<lambda>b.
          bind_run (clear_cells (mach_traps_arr_len K) (mach_traps K)) (\<lambda>t.
          bind_run (clear_cells (mach_traps2_arr_len K) (mach_traps2 K)) (\<lambda>t2.
          bind_run (run_list fill_table ls (K\<lparr>bsd_syscalls := b, mach_traps := t, mach_traps2 := t2\<rparr>)) (\<lambda>K1.
            Inr (Some K1, False, [])))))))"

section \<open>Events\<close>

record kd_buf =
  kd_arg1 :: u64
  kd_arg2 :: u64
  kd_arg3 :: u64
  kd_arg4 :: u64
  kd_arg5 :: u64
  debugid :: u32

abbreviation KDBG_FUNC_MASK :: u32 where "KDBG_FUNC_MASK \<equiv> 0x00000003"
abbreviation KDBG_CSC_MASK :: u32 where "KDBG_CSC_MASK \<equiv> 0xffff0000"
abbreviation BSC_SysCall :: u32 where "BSC_SysCall \<equiv> 0x040c0000"
abbreviation MACH_SysCall :: u32 where "MACH_SysCall \<equiv> 0x010c0000"
abbreviation MACH_Msg :: u32 where "MACH_Msg \<equiv> 0xff000000"
abbreviation DBG_FUNC_START :: u32 where "DBG_FUNC_START \<equiv> 1"
abbreviation DBG_FUNC_END :: u32 where "DBG_FUNC_END \<equiv> 2"

text \<open>The tables are None where they were not set up. A name that was not written is read as what memory held.\<close>

definition name_at :: "ktables option \<Rightarrow> (ktables \<Rightarrow> name_cells) \<Rightarrow> u32 \<Rightarrow> string option run" where
  "name_at tabs f idx =
     (case tabs of None \<Rightarrow> Inl NullDeref
      | Some K \<Rightarrow> if unat idx < length (f K) then (case f K ! unat idx of None \<Rightarrow> Inl OutOfBounds | Some nm \<Rightarrow> Inr nm)
                 else Inl OutOfBounds)"

text \<open>None is an event that is passed over.\<close>

definition event_name :: "ktables option \<Rightarrow> kd_buf \<Rightarrow> string option option run" where
  "event_name tabs ev =
     (let code = debugid ev AND NOT KDBG_FUNC_MASK; stype = debugid ev AND KDBG_CSC_MASK; idx = (code AND 0xfff) div 4
      in if stype = BSC_SysCall
         then bind_run (name_at tabs bsd_syscalls (if 0x40c0824 <s code then (code AND NOT 0xff00000) div 4 else idx)) (\<lambda>e. Inr (Some e))
         else if stype = MACH_SysCall then bind_run (name_at tabs mach_traps idx) (\<lambda>e. Inr (Some e))
         else if stype = MACH_Msg
         then bind_run (name_at tabs mach_traps2 ((code AND NOT 0xff000000) div 4)) (\<lambda>e. Inr (if e = None then None else Some e))
         else Inr None)"

definition sgr :: "string \<Rightarrow> string" where
  "sgr s = [CHR 0x1B, CHR ''[''] @ s @ ''m''"

text \<open>\<^verbatim>\<open>%-ns\<close> and \<^verbatim>\<open>%-n.ns\<close>.\<close>

definition left_justified :: "nat \<Rightarrow> string \<Rightarrow> string" where
  "left_justified n s = s @ replicate (n - length s) CHR '' ''"

definition event_shown :: "string option \<Rightarrow> string" where
  "event_shown event = left_justified 35 (take 35 (case event of None \<Rightarrow> ''(null)'' | Some s \<Rightarrow> s))"

definition arg_desc :: "string \<Rightarrow> string \<Rightarrow> u64 \<Rightarrow> string" where
  "arg_desc colour name v = concat [sgr colour, name, sgr ''0'', '' = 0x'', hex_pad 16 (uint v)]"

definition event_text :: "kd_buf \<Rightarrow> string option \<Rightarrow> string" where
  "event_text ev event =
     (let tidstr = concat [''[0x'', hex_pad 6 (uint (kd_arg5 ev)), ''] '']
      in (if debugid ev AND DBG_FUNC_START \<noteq> 0
          then concat [sgr ''42'', sgr ''30'', tidstr, left_justified 10 ''Calling:'', sgr ''0'', '' '', event_shown event] else [])
       @ (if debugid ev AND DBG_FUNC_END \<noteq> 0
          then concat [sgr ''46'', sgr ''30'', tidstr, left_justified 10 ''Returning:'', sgr ''0'', '' '', event_shown event] else [])
       @ concat ['' '', arg_desc ''32'' ''arg1'' (kd_arg1 ev), ''  '', arg_desc ''94'' ''arg2'' (kd_arg2 ev), ''  '',
           arg_desc ''38;5;208'' ''arg3'' (kd_arg3 ev), ''  '', arg_desc ''38;5;124'' ''arg4'' (kd_arg4 ev), nl])"

definition show_event :: "ktables option \<Rightarrow> kd_buf \<Rightarrow> string \<Rightarrow> string run" where
  "show_event tabs ev out =
     bind_run (event_name tabs ev) (\<lambda>n. Inr (case n of None \<Rightarrow> out | Some event \<Rightarrow> out @ event_text ev event))"

section \<open>A round of the thread\<close>

text \<open>The calls of \<^verbatim>\<open>sysctl\<close>, in their order.\<close>

datatype kt_call = KDSETUP | KDPIDTR int int | KDENABLE int | KDBUFWAIT | KDGETBUF | KDREADTR | KDREMOVE

record trace_round_in =
  stop_at_start :: bool
  pid_result :: int
  stop_enabled :: bool
  stop_woken :: bool
  events_read :: "kd_buf list"

definition cleanup :: "kt_call list" where
  "cleanup = [KDREMOVE, KDENABLE 0]"

text \<open>The calls, the text, and whether the thread ended; then it is tracing no longer.\<close>

definition trace_round :: "ktables option \<Rightarrow> int \<Rightarrow> trace_round_in \<Rightarrow> (kt_call list \<times> string \<times> bool) run" where
  "trace_round tabs dpid R =
     (if stop_at_start R then Inr (KDSETUP # cleanup, [], True)
      else if pid_result R < 0 then Inr ([KDSETUP, KDPIDTR dpid 1] @ cleanup, [], True)
      else if stop_enabled R then Inr ([KDSETUP, KDPIDTR dpid 1, KDENABLE 1] @ cleanup, [], True)
      else if stop_woken R then Inr ([KDSETUP, KDPIDTR dpid 1, KDENABLE 1, KDBUFWAIT] @ cleanup, [], True)
      else bind_run (run_list (show_event tabs) (events_read R) []) (\<lambda>out.
        Inr ([KDSETUP, KDPIDTR dpid 1, KDENABLE 1, KDBUFWAIT, KDGETBUF, KDREADTR, KDREMOVE, KDSETUP, KDENABLE 0], out, False)))"

definition start_trace :: "'k tenv \<Rightarrow> 'k shell \<Rightarrow> 'k shell \<times> string" where
  "start_trace T H =
     (H\<lparr>currently_tracing := True\<rparr>,
      concat [''Press Ctrl+C to stop tracing'', nl,
        (if pid (ses H) = - 1 then ''Waiting for attach before we start tracing...'' @ nl else []),
        (if suspended T (ses H)
         then concat [''Warning: debuggee is currently suspended,'', '' type c and hit enter to continue'', nl] else [])])"

text \<open>It waits until the thread has ended.\<close>

definition stop_trace :: "'k shell \<Rightarrow> 'k shell \<times> string" where
  "stop_trace H =
     (if \<not> currently_tracing H then (H, [])
      else (H\<lparr>currently_tracing := False\<rparr>, concat [nl, ''Shutting down trace...'', nl]))"

text \<open>Whether there is something to wait for.\<close>

definition wait_for_trace :: "'k shell \<Rightarrow> bool" where
  "wait_for_trace H \<longleftrightarrow> pid (ses H) \<noteq> - 1 \<and> currently_tracing H"

section \<open>Ctrl+C\<close>

record fake_sigstop_msg =
  fm_remote_port :: u32
  fm_id :: int
  fm_thread :: u32
  fm_task :: u32
  fm_exception :: u32
  fm_codeCnt :: u32
  fm_code :: "u64 \<times> int"

record 'k sigstop_env =
  retake_task :: "'k \<Rightarrow> int \<Rightarrow> kern_return \<times> u32"
  mach_msg_send :: "'k \<Rightarrow> fake_sigstop_msg \<Rightarrow> kern_return \<times> 'k"

definition fake_stop_msg :: "u32 \<Rightarrow> u32 \<Rightarrow> u32 \<Rightarrow> fake_sigstop_msg" where
  "fake_stop_msg rport th tsk =
     \<lparr>fm_remote_port = rport, fm_id = 2405, fm_thread = th, fm_task = tsk, fm_exception = EXC_SOFTWARE,
      fm_codeCnt = 0x41414141, fm_code = (EXC_SOFT_SIGNAL, SIGSTOP)\<rparr>"

text \<open>The flag of a waiting attach, the shell, and the text.\<close>

definition interrupt :: "'k tenv \<Rightarrow> 'k sigstop_env \<Rightarrow> bool \<Rightarrow> 'k shell \<Rightarrow> (bool \<times> 'k shell \<times> string) run" where
  "interrupt T N keep_checking H0 =
     (let (H, txt) = stop_trace H0; out = (if keep_checking then nl else []) @ txt; S = ses H;
          M = mc (de T); k = kern (db S) in
      if pid S = - 1 then Inr (False, H, out)
      else if \<not> no_signals S then
        Inr (False, H\<lparr>ses := set_kern (snd (send_kill (tc T) k (pid S) SIGSTOP)) S\<rparr>, out)
      else
        (let (r, tport) = retake_task N k (pid S); S1 = S\<lparr>task := tport\<rparr>; H1 = H\<lparr>ses := S1\<rparr> in
         if r \<noteq> KERN_SUCCESS then
           Inr (False, H1, out @ concat [''re-initializing launchd task port after fake sigstop msg: '', mach_error_string M r, nl])
         else
           (let (r1, ts) = task_threads (tc T) k tport in
            if r1 \<noteq> KERN_SUCCESS then
              Inr (False, H1, out @ concat [''task_threads failed for fake sigstop msg, bailing: '', mach_error_string M r1, nl])
            else (case ts of None \<Rightarrow> Inl NullDeref
              | Some [] \<Rightarrow> Inr (False, H1, out @ ''no threads for fake sigstop msg? bailing'' @ nl)
              | Some (th # _) \<Rightarrow>
                  (let (r2, k1) = mach_msg_send N k (fake_stop_msg (exception_port S1) th tport) in
                   Inr (False, H1\<lparr>ses := set_kern k1 S1\<rparr>,
                     out @ (if r2 \<noteq> KERN_SUCCESS
                            then concat [''mach msg send fake sigstop exception '', mach_error_string M r2, nl] else [])))))))"

section \<open>The start of the program\<close>

definition SIGINT :: int where "SIGINT = 2"
definition SIGTRAP :: int where "SIGTRAP = 5"

definition keep_signal :: "int \<Rightarrow> sigsetting list \<times> string \<Rightarrow> (sigsetting list \<times> string) run" where
  "keep_signal signo st =
     bind_run (sigsettings signo (Some 1, Some 0, Some 1) True (fst st) None) (\<lambda>(tab, _, e).
       Inr (tab, snd st @ (case e of None \<Rightarrow> [] | Some msg \<Rightarrow> concat [''error: '', msg, nl])))"

definition early_configuration :: "sigsetting list \<Rightarrow> (sigsetting list \<times> string) run" where
  "early_configuration tab = bind_run (keep_signal SIGINT (tab, [])) (keep_signal SIGTRAP)"

text \<open>
  The new debuggee with what \<^verbatim>\<open>sysctlbyname\<close> says of the numbers of debug registers (a failed call leaves 0), and
  its variables. Errors are not looked at.
\<close>

definition new_variable :: "cvenv \<Rightarrow> nat \<times> string \<Rightarrow> cvars \<times> cbuf \<Rightarrow> (cvars \<times> cbuf) run" where
  "new_variable E an ve = set_convvar E (fst ve) (fst an) (Some (snd an)) (Some []) (snd ve)"

definition setup_initial_debuggee ::
    "cvenv \<Rightarrow> 'k sess \<Rightarrow> int option \<Rightarrow> int option \<Rightarrow> 'k sess run" where
  "setup_initial_debuggee E blank bps wps =
     bind_run (run_list (new_variable E) (enumerate 1 [''$_'', ''$__'', ''$_exitcode'', ''$_exitsignal'']) (vars (db blank), None))
       (\<lambda>(vs, _). Inr (blank\<lparr>pid := - 1, db := (db blank)\<lparr>vars := vs,
          num_hw_bps := (case bps of None \<Rightarrow> num_hw_bps (db blank) | Some n \<Rightarrow> n),
          num_hw_wps := (case wps of None \<Rightarrow> num_hw_wps (db blank) | Some n \<Rightarrow> n)\<rparr>\<rparr>))"

definition greeting :: string where
  "greeting = concat [''For help, type '', [CHR 0x22], ''help'', [CHR 0x22], ''.'', nl,
     ''Command name abbreviations are allowed if unambiguous.'', nl,
     ''Type '', quoted ''!'', '' before your input to execute a shell command.'', nl]"

text \<open>What the start leaves: SIGINT and SIGTRAP stop the target, are shown, and are not passed on.\<close>

lemma early_configuration_set:
  "early_configuration initial_settings =
     Inr (initial_settings[2 := \<lparr>sig_notify = 1, sig_pass = 0, sig_stop = 1\<rparr>, 5 := \<lparr>sig_notify = 1, sig_pass = 0, sig_stop = 1\<rparr>], [])"
  by (simp add: early_configuration_def keep_signal_def sigsettings_def NSIG_def SIGINT_def SIGTRAP_def)

text \<open>Without the tables, which are not set up, the first system call that is traced is the last.\<close>

lemma trace_without_tables:
  assumes "debugid ev AND KDBG_CSC_MASK = BSC_SysCall" and "\<not> stop_at_start R" "\<not> pid_result R < 0" "\<not> stop_enabled R" "\<not> stop_woken R"
    and "events_read R = ev # evs"
  shows "trace_round None dpid R = Inl NullDeref"
  using assms by (simp add: trace_round_def show_event_def event_name_def name_at_def Let_def)

lemma code_line_examples:
  "code_line (''0x40c0004  BSC_exit'' @ nl) = (0x40c0004, ''BSC_exit'')"
  "event_idx BSC 0x40c0004 = 1"
  by code_simp+

text \<open>
  Messages that follow each other overrun their table: its size is one more than the largest index so far, and
  the next index is not larger than that.
\<close>

lemma consecutive_messages_overrun:
  "setup_tracing (Some [''0xff00000c  MSG_a'' @ nl, ''0xff000010  MSG_b'' @ nl]) = Inl OutOfBounds"
  by code_simp

lemma tables_filled:
  "setup_tracing (Some [''0xff00000c  MSG_a'' @ nl, ''0x40c0000  BSC_b'' @ nl, ''0xff000014  MSG_c'' @ nl]) =
     Inr (Some \<lparr>bsd_syscalls = [Some (Some ''b''), None], bsd_syscalls_arr_len = 0, mach_traps = [Some None], mach_traps_arr_len = 0,
       mach_traps2 = [Some None, Some None, Some None, Some (Some ''a''), Some None, Some (Some ''c'')], mach_traps2_arr_len = 6,
       kt_largest = 6\<rparr>, False, [])"
  by code_simp

end
