(* ===== verification/Spec2Isabelle.thy ===== *)
theory Spec2Isabelle
  imports Containers Strext Expr ExprSpec ExprCorrect Branch Convvar Target Memutils Threads Breakpoints
    BreakOps Watchpoints Sample Symbols Disasm Signals Exceptions Handled Cycle Stepping SampleEnv Dexpr DexprSpec Reg RegProof Args Taskops TaskopsProof Servers SampleSession
    Commands Procutils Commands2 Commands3 CommandsProof SampleCommands
    Cmddocs Cmdtab Completer Audits Cmdline CmdlineProof CmdlineSafe Detached SampleCmdline
    Image ImageProof SampleImage
    Dwarf Die Dieinfo Compunit DieProof DieFree DieEnds SampleDie SampleEnds Trace
begin

text \<open>
  This is a model of iosdbg, a debugger for arm64 iOS devices written in C (the sources named here are under
  \<^verbatim>\<open>src/source\<close>), with the theorems that make its parts correct, or show where they are not.

  How the program works. The user types a line; \<^verbatim>\<open>cmd/cmd.c\<close> expands aliases, finds the command with the completer, parses
  the arguments with a regular expression, has them audited and calls the command's function. The commands act on one
  \<^verbatim>\<open>struct debuggee\<close>: the task and its ports, the list of threads, breakpoints and watchpoints, the signal settings and the
  queue of exceptions. Servers receive exceptions of the target and hand them to the handlers, which show what happened,
  leave the target stopped or reply and resume it, and prepare steps. Expressions, registers, convenience variables,
  symbols and the DWARF location descriptions serve them.

  Conventions (\<open>CPrelude\<close>). An \<open>int\<close> of C is an \<open>int\<close> where the code cannot overflow it, and a word where the width matters;
  \<open>u8\<close>, \<open>u32\<close> and \<open>u64\<close> are the widths of the target. An operation that may do what C leaves undefined returns a sum: \<open>Inl\<close>
  of a \<open>fault\<close> (access out of bounds, NULL, freed memory, a division or shift that is undefined, a loop that does not end)
  or \<open>Inr\<close> of its result, so every theorem whose conclusion is an \<open>Inr\<close> says as well that none of that happens. \<open>cbuf\<close> is
  the text built with \<^verbatim>\<open>concat\<close>, None for NULL. A list in which objects keep their address is a \<open>plist\<close>.

  The theories and the sources they model:

  \<^item> \<open>Containers\<close>: \<^verbatim>\<open>linkedlist.c\<close> on a heap of nodes, \<^verbatim>\<open>stack.c\<close>, \<^verbatim>\<open>queue.c\<close>, \<^verbatim>\<open>array.c\<close> with their blocks. \<open>Strext\<close>: \<^verbatim>\<open>strext.c\<close>.
  \<^item> \<open>Expr\<close>: the evaluator \<^verbatim>\<open>expr.c\<close> (tokens, shunting yard, stack). \<open>ExprSpec\<close> gives the meaning of expressions and their
    printed form, \<open>ExprCorrect\<close> shows that the evaluator computes it.
  \<^item> \<open>Branch\<close>: the decoder \<^verbatim>\<open>disas/branch.c\<close>. \<open>Convvar\<close>: \<^verbatim>\<open>convvar.c\<close>. \<open>Reg\<close>, \<open>RegProof\<close>: \<^verbatim>\<open>reg.c\<close>.
  \<^item> \<open>Target\<close>: the records of \<^verbatim>\<open>debuggee.h\<close>, \<^verbatim>\<open>thread.h\<close>, \<^verbatim>\<open>breakpoint.h\<close> and \<^verbatim>\<open>watchpoint.h\<close>, and the kernel as a record of functions
    on an abstract state. \<open>Memutils\<close>, \<open>Disasm\<close>: \<^verbatim>\<open>memutils.c\<close>.
  \<^item> \<open>Threads\<close>: \<^verbatim>\<open>thread.c\<close>. \<open>Breakpoints\<close>: \<^verbatim>\<open>breakpoint.c\<close>; \<open>BreakOps\<close> its operations on all breakpoints; \<open>Watchpoints\<close>:
    \<^verbatim>\<open>watchpoint.c\<close>. Their shared invariant is \<open>dbg_inv\<close>.
  \<^item> \<open>Signals\<close>: \<^verbatim>\<open>sigsupport.c\<close>. \<open>Symbols\<close>: \<^verbatim>\<open>symbol/dbgsymbol.c\<close>; \<open>Image\<close>, \<open>ImageProof\<close>: \<^verbatim>\<open>symbol/image.c\<close>, \<^verbatim>\<open>symbol/scache.c\<close> and the
    reading of files in \<^verbatim>\<open>dbgio.c\<close>.
  \<^item> \<open>Exceptions\<close>: \<^verbatim>\<open>exception.c\<close>; \<open>Handled\<close> and \<open>Cycle\<close> show what handling one does to the debugger and the target over
    several steps. \<open>Servers\<close>: \<^verbatim>\<open>servers.c\<close>. \<open>Stepping\<close>: \<^verbatim>\<open>cmd/stepcmd.c\<close>.
  \<^item> \<open>Dexpr\<close>: the location descriptions in \<^verbatim>\<open>symbol/dexpr.c\<close>; \<open>DexprSpec\<close> the stack machine they refine. \<open>Dwarf\<close>: the errors
    in \<^verbatim>\<open>symbol/symerr.c\<close> and what is called of libdwarf. \<open>Die\<close>: the tree of entries that is built from a file, and \<open>Dieinfo\<close>
    what it is asked, both \<^verbatim>\<open>symbol/die.c\<close>; \<open>Compunit\<close>: \<^verbatim>\<open>symbol/compunit.c\<close> and \<^verbatim>\<open>symbol/sym.c\<close>. \<open>DieProof\<close> shows the tree
    well formed and the search to find what is in it, \<open>DieFree\<close> that closing a file frees it, and
    \<open>DieEnds\<close> that reading it ends, with a result that more rounds do not change.
  \<^item> \<open>Taskops\<close>, \<open>TaskopsProof\<close>: \<^verbatim>\<open>dbgops.c\<close>, the operations on the task, up to attaching, replying and detaching.
  \<^item> \<open>Args\<close>: \<^verbatim>\<open>cmd/argparse.c\<close>. \<open>Commands\<close>, \<open>Commands2\<close>, \<open>Commands3\<close>: the functions of the commands in \<^verbatim>\<open>cmd/bpcmd.c\<close>,
    \<^verbatim>\<open>wpcmd.c\<close>, \<^verbatim>\<open>regcmd.c\<close>, \<^verbatim>\<open>varcmd.c\<close>, \<^verbatim>\<open>tcmd.c\<close>, \<^verbatim>\<open>sigcmd.c\<close>, \<^verbatim>\<open>memcmd.c\<close>, \<^verbatim>\<open>misccmd.c\<close>; \<open>CommandsProof\<close> shows what searches and backtraces
    give. \<open>Procutils\<close>: \<^verbatim>\<open>procutils.c\<close>, \<^verbatim>\<open>interaction.c\<close>, \<^verbatim>\<open>handlers.c\<close>.
  \<^item> \<open>Cmddocs\<close>, \<open>Cmdtab\<close>: the documentation, patterns and table of the commands in \<^verbatim>\<open>cmd/*.h\<close> and \<^verbatim>\<open>cmd/cmd.c\<close>. \<open>Completer\<close>:
    \<^verbatim>\<open>cmd/completer.c\<close>. \<open>Audits\<close>: \<^verbatim>\<open>cmd/audit.c\<close>. \<open>Cmdline\<close>: the interpreter in \<^verbatim>\<open>cmd/cmd.c\<close>, \<^verbatim>\<open>cmd/documentation.c\<close> and the prompt in
    \<^verbatim>\<open>iosdbg.c\<close>. \<open>CmdlineProof\<close> gives the meaning of a line over plain words and shows the interpreter to have it,
    \<open>CmdlineSafe\<close> the table well formed, \<open>Detached\<close> what lines do while nothing is debugged.
  \<^item> \<open>Trace\<close>: a round of the thread in \<^verbatim>\<open>trace.c\<close> that shows the kernel's trace, with the tables of names, and of \<^verbatim>\<open>iosdbg.c\<close> Ctrl+C
    and the start of the program.
  \<^item> \<open>Sample\<close> and the theories whose names start so hold the concrete targets, sessions and inputs of the witnesses.

  The groups of theorems: the evaluator and the DWARF machine refine their meanings (C1 and the section on locations); the
  operations on points keep the invariant and do what they should, and their composition with threads, exceptions and steps
  keeps track of the target; replies, detaching and the prompt; errors: theorems that end in a fault, or in a state the code
  does not mean, show the flaws listed as findings with their place.

  Bounds and fuel. Loops that may not end in the code are functions with a fault \<open>Diverges\<close>, \<open>partial_function\<close> with None,
  or run for a number of rounds that is an argument, so that what does not end shows: \<open>memory_search_never_ends\<close>,
  \<open>backtrace_of_loop_never_ends\<close>. The others are total by their measures: the words left of a pattern, the bytes left of a
  buffer, the operations left. The buffers keep the sizes the code gives them: 1024 bytes for the text of the operations
  of a location description and 512 cells for its stack, 512 bytes for the name of a symbol, 1024 for a path, 10
  characters for the random text of a word, chunks of 256 bytes of memory. Reading a DWARF file takes a number of rounds, of
  which enough are shown to exist where the entries and their types come to an end (\<open>dwarf_reading_ends\<close>); the search in
  its trees and their freeing take one more than there are blocks, which is enough as children are behind their parents.

  Code that is not of the repository is an argument of the definitions: the kernel (Mach calls, ptrace, sysctl), the
  disassembler Armadillo, PCRE2, readline, libdwarf, and of the C library what the source does not fix (qsort, bsearch,
  rand, strtold, the text of doubles and pointers, the contents of fresh memory). What a theorem needs of them is one of its
  hypotheses, and its witness instantiates them.

  Not modelled. Locks, since each step is one operation and the modelled parts hold the lock that guards them; the
  memory that is given back, except where the code uses it afterwards and in the tree of DWARF entries; in \<^verbatim>\<open>trace.c\<close> the waiting for
  the other thread; in \<^verbatim>\<open>iosdbg.c\<close> the loop that waits for input, the installing of the handlers and of readline, and main; the pipe and
  the redisplay of \<^verbatim>\<open>dbgio.c\<close>; the history file.
\<close>

section \<open>The expression evaluator\<close>

text \<open>
  C1 (functional): the expression evaluator computes what an arithmetic expression means. Printed with
  as few parentheses as precedence and left associativity allow, every expression over decimal and
  hexadecimal literals, negation and the four operators evaluates to its 64-bit meaning; a division by
  zero anywhere in it is the one error.
\<close>

theorem eval_expr_meaning:
  "eval_expr cv rg (Some (print_ex e)) None
   = Inr (case meaning e of None \<Rightarrow> (LONG_MIN, Some ''attempt to divide by zero'') | Some v \<Rightarrow> (v, None))"
  by (rule eval_printed)

section \<open>Breakpoints and watchpoints\<close>

text \<open>
  C2 (invariant): no sequence of operations on breakpoints and watchpoints (setting them for all threads
  or one, for the user or for a step; deleting, enabling and disabling by number, all, or by kind; hits)
  accesses a debug register or an object out of bounds, and each keeps the invariant: every hardware
  breakpoint and watchpoint has a register of its own within the device's, the counts are those of the
  lists, and the numbers of the breakpoints that are not temporary and of the watchpoints are distinct.
\<close>

theorem points_stay_sound:
  assumes "kernel_ok M" and "dbg_inv d"
  shows "\<exists>d'. run_list (point_step M) ops d = Inr d' \<and> dbg_inv d'"
  by (rule point_steps_ok [OF assms])

theorem points_stay_sound_witness:
  "\<exists>d'. run_list (point_step flat_mach)
      [Inl (SetBp 0x100004000 False (- 1)), Inr (SetWp 0x16fdff000 4 2 1), Inl (SetStepping 0x100004004 2),
       Inl (DisableAllExcept BP_COND_STEPPING), Inl (HitBp 0x100004004), Inr (DeleteWp 1), Inl (DeleteBp 1)]
      (sample_dbg 1) = Inr d' \<and> dbg_inv d'"
  by (rule points_stay_sound [OF flat_mach_ok(1) sample_ok(1)]) simp_all

text \<open>
  C3 (functional): setting a breakpoint for a thread that exists, or for all, appends one to the list. It
  has the next number, is enabled, and is a hardware breakpoint exactly when a debug register is free.
  For a thread that does not exist nothing changes.
\<close>

theorem breakpoint_set_appends:
  assumes "kernel_ok M" and "dbg_inv d"
  shows "\<exists>d' out' e'. breakpoint_at_address M loc tmp th d out e = Inr (d', out', e') \<and> dbg_inv d' \<and>
    (if new_threadinfo th d = None then d' = d
     else \<exists>bp. breakpoints d' = breakpoints d @ [(fresh d, bp)] \<and> bp_id bp = current_breakpoint_id d \<and>
       bp_location bp = loc \<and> bp_temporary bp = tmp \<and> \<not> for_stepping bp \<and> \<not> bp_disabled bp \<and>
       bp_hw bp = (find_ready_bp_reg d \<noteq> - 1))"
proof -
  obtain d' out' e' where r: "breakpoint_at_address M loc tmp th d out e = Inr (d', out', e')" "dbg_inv d'"
    "if new_threadinfo th d = None then d' = d else added_bp d loc tmp False d'"
    using breakpoint_at_address_ok [OF assms, of loc tmp th out e] by blast
  show ?thesis
    by (rule exI [of _ d'], rule exI [of _ out'], rule exI [of _ e']) (use r in \<open>auto simp: added_bp_def\<close>)
qed

theorem breakpoint_set_appends_witness:
  "\<exists>d' out' e'. breakpoint_at_address flat_mach 0x100004000 False 2 (sample_dbg 6) None None = Inr (d', out', e') \<and>
    dbg_inv d' \<and> (if new_threadinfo 2 (sample_dbg 6) = None then d' = sample_dbg 6
     else \<exists>bp. breakpoints d' = breakpoints (sample_dbg 6) @ [(fresh (sample_dbg 6), bp)] \<and>
       bp_id bp = current_breakpoint_id (sample_dbg 6) \<and> bp_location bp = 0x100004000 \<and> bp_temporary bp = False \<and>
       \<not> for_stepping bp \<and> \<not> bp_disabled bp \<and> bp_hw bp = (find_ready_bp_reg (sample_dbg 6) \<noteq> - 1))"
  by (rule breakpoint_set_appends [OF flat_mach_ok(1) sample_ok(1)]) simp_all



text \<open>
  C5 (error): of two software breakpoints at one address, deleting the second puts the instruction back
  although the first is still in the list and enabled: it can no longer hit.
\<close>

theorem duplicate_breakpoint_disarmed:
  assumes "flat_mem M mem" and "bps_ok d" "find_ready_bp_reg d = - 1" "find_bp_with_address loc d = None"
    and "unat loc + 4 < 2 ^ 64"
  shows "\<exists>d1 d2 d3 out1 out2 bp.
    breakpoint_at_address M loc False BP_ALL_THREADS d None None = Inr (d1, out1, None) \<and>
    breakpoint_at_address M loc False BP_ALL_THREADS d1 None None = Inr (d2, out2, None) \<and>
    bp_delete_internal M (fresh d1) d2 = Inr d3 \<and> mem (kern d3) = mem (kern d) \<and>
    breakpoints d3 = breakpoints d @ [(fresh d, bp)] \<and> bp_location bp = loc \<and> \<not> bp_disabled bp"
  by (rule duplicate_disarms [OF assms])

theorem duplicate_breakpoint_disarmed_witness:
  "\<exists>d1 d2 d3 out1 out2 bp.
    breakpoint_at_address flat_mach 0x100004000 False BP_ALL_THREADS (sample_dbg 0) None None = Inr (d1, out1, None) \<and>
    breakpoint_at_address flat_mach 0x100004000 False BP_ALL_THREADS d1 None None = Inr (d2, out2, None) \<and>
    bp_delete_internal flat_mach (fresh d1) d2 = Inr d3 \<and> kern d3 = kern (sample_dbg 0) \<and>
    breakpoints d3 = breakpoints (sample_dbg 0) @ [(fresh (sample_dbg 0), bp)] \<and> bp_location bp = 0x100004000 \<and>
    \<not> bp_disabled bp"
  by (rule duplicate_breakpoint_disarmed [OF flat_mach_ok(2) sample_ok(2) sample_no_registers]) simp_all

text \<open>
  C6 (functional): deleting all breakpoints of a kind leaves exactly the others, in their order; deleting
  all leaves none. The loops go on while they delete the objects they walk over, and never touch a
  deleted one.
\<close>

theorem delete_all_leaves_others:
  assumes "kernel_ok M" and "dbg_inv d"
  shows "\<exists>d1 d2. breakpoint_delete_all_specific M way d = Inr d1 \<and> dbg_inv d1 \<and>
    breakpoints d1 = filter (\<lambda>c. \<not> way_selects way (snd c)) (breakpoints d) \<and>
    breakpoint_delete_all M d = Inr d2 \<and> dbg_inv d2 \<and> breakpoints d2 = []"
  using delete_all_ok [OF assms] delete_all_specific_ok [OF assms, of way] by blast

theorem delete_all_leaves_others_witness:
  "\<exists>d1 d2. breakpoint_delete_all_specific flat_mach BP_COND_STEPPING (sample_dbg 6) = Inr d1 \<and> dbg_inv d1 \<and>
    breakpoints d1 = filter (\<lambda>c. \<not> way_selects BP_COND_STEPPING (snd c)) (breakpoints (sample_dbg 6)) \<and>
    breakpoint_delete_all flat_mach (sample_dbg 6) = Inr d2 \<and> dbg_inv d2 \<and> breakpoints d2 = []"
  by (rule delete_all_leaves_others [OF flat_mach_ok(1) sample_ok(1)]) simp_all

text \<open>
  C7 (functional): setting a watchpoint of a length from 1 to 8, for a thread that exists, while a
  register is free, appends one with the first free register and the control value for its bytes;
  otherwise there is an error and the list stays.
\<close>

theorem watchpoint_set_appends:
  assumes "kernel_ok M" and "dbg_inv d"
  shows "\<exists>d' out' e'. watchpoint_at_address M loc len LSC th d out e = Inr (d', out', e') \<and> dbg_inv d' \<and>
    (if len = 0 \<or> len > 8 \<or> new_threadinfo th d = None \<or> find_ready_wp_reg d = - 1
     then watchpoints d' = watchpoints d \<and> e' \<noteq> None
     else (\<exists>w. watchpoints d' = watchpoints d @ [(fresh d, w)] \<and> hw_wp_reg w = find_ready_wp_reg d \<and>
            user_location w = loc \<and> data_len w = len \<and> wp_wcr w = wcr_value loc len (push_bit 3 LSC) \<and> e' = e))"
  by (rule watchpoint_at_address_ok [OF assms])

theorem watchpoint_set_appends_witness:
  "\<exists>d' out' e'. watchpoint_at_address flat_mach 0x16fdff004 4 2 1 (sample_dbg 4) None None = Inr (d', out', e') \<and>
    dbg_inv d' \<and>
    (if (4 :: u32) = 0 \<or> (4 :: u32) > 8 \<or> new_threadinfo 1 (sample_dbg 4) = None \<or> find_ready_wp_reg (sample_dbg 4) = - 1
     then watchpoints d' = watchpoints (sample_dbg 4) \<and> e' \<noteq> None
     else (\<exists>w. watchpoints d' = watchpoints (sample_dbg 4) @ [(fresh (sample_dbg 4), w)] \<and>
            hw_wp_reg w = find_ready_wp_reg (sample_dbg 4) \<and> user_location w = 0x16fdff004 \<and> data_len w = 4 \<and>
            wp_wcr w = wcr_value 0x16fdff004 4 (push_bit 3 2) \<and> e' = None))"
  by (rule watchpoint_set_appends [OF flat_mach_ok(1) sample_ok(1)]) simp_all

text \<open>
  C8 (functional): the byte select field of a watchpoint selects exactly the bytes of the aligned double
  word that are in the range asked for.
\<close>

theorem watchpoint_selects_bytes:
  assumes "LSC \<le> 3" and "b < 8"
  shows "bit (wcr_value loc len (push_bit 3 LSC)) (5 + b) \<longleftrightarrow>
    unat (loc AND 7) \<le> b \<and> b < unat (loc AND 7) + unat len"
  by (rule watched_bytes [OF assms])

theorem watchpoint_selects_bytes_witness:
  "bit (wcr_value 0x1004 4 (push_bit 3 2)) (5 + 4) \<longleftrightarrow>
    unat ((0x1004 :: u64) AND 7) \<le> 4 \<and> (4 :: nat) < unat ((0x1004 :: u64) AND 7) + unat (4 :: u32)"
  by (rule watchpoint_selects_bytes) simp_all

section \<open>Exceptions, signals and steps\<close>





text \<open>
  C11 (functional): a signal stops the target exactly when its settings say stop, is printed exactly when
  they say notify, and is left with the target when they say pass, whatever the settings are.
\<close>

theorem signal_settings_obeyed:
  assumes "plain_target E" and "on_thread a d" and "length (sigtab X) = NSIG" "1 \<le> signo" "signo < 32"
    and "32 \<le> length (sys_signame E)" and "should_auto_resume v" "should_print v"
  shows "\<exists>d' v'. soft_signal E X a (word_of_int signo) d v = Inr (d', v') \<and> on_thread a d' \<and>
    (should_auto_resume v' \<longleftrightarrow> sig_stop (sigtab X ! nat signo) = 0) \<and>
    (should_print v' \<longleftrightarrow> sig_notify (sigtab X ! nat signo) \<noteq> 0) \<and>
    (sig_pass (sigtab X ! nat signo) \<noteq> 0 \<longrightarrow> kern d' = kern d)"
  by (rule soft_signal_verdict [OF assms])

theorem signal_settings_obeyed_witness:
  "\<exists>d' v'. soft_signal sample_env sample_ctx 1 (word_of_int 11) sample_armed fresh_verdict = Inr (d', v') \<and> on_thread 1 d' \<and>
    (should_auto_resume v' \<longleftrightarrow> sig_stop (sigtab sample_ctx ! nat 11) = 0) \<and>
    (should_print v' \<longleftrightarrow> sig_notify (sigtab sample_ctx ! nat 11) \<noteq> 0) \<and>
    (sig_pass (sigtab sample_ctx ! nat 11) \<noteq> 0 \<longrightarrow> kern d' = kern sample_armed)"
  by (rule signal_settings_obeyed [OF sample_plain sample_on_thread(1)])
     (simp_all add: sample_ctx_def initial_settings_def sample_env_def fresh_verdict_def)







section \<open>Threads\<close>

text \<open>
  C15 (functional): rebuilding the list of threads gives one thread for each valid port, in the order of
  the ports and numbered from 1. A thread whose port was there before has its hit and stepping
  information, and the focus is on the port that had it.
\<close>

theorem thread_list_renewed:
  assumes "threads d \<noteq> []" and "update_thread_list M blank (Some ps) d out = Inr (d', out')"
  shows "list_all2 (\<lambda>p t. renewed (map snd (threads d)) (focused_port (threads d)) (ID t) p t)
      (filter MACH_PORT_VALID ps) (map snd (threads d')) \<and>
    map (ID \<circ> snd) (threads d') = map (\<lambda>j. 1 + int j) [0..<length (threads d')]"
  using update_thread_list_renews(1,2) [OF assms] by blast

theorem thread_list_renewed_witness:
  "\<exists>d' out'. update_thread_list flat_mach (sample_thread 0 False 0) (Some [6, 5]) (sample_dbg 2) None = Inr (d', out') \<and>
    list_all2 (\<lambda>p t. renewed (map snd (threads (sample_dbg 2))) (focused_port (threads (sample_dbg 2))) (ID t) p t)
      (filter MACH_PORT_VALID [6, 5]) (map snd (threads d')) \<and>
    map (ID \<circ> snd) (threads d') = map (\<lambda>j. 1 + int j) [0..<length (threads d')]"
proof -
  obtain d' out' where "update_thread_list flat_mach (sample_thread 0 False 0) (Some [6, 5]) (sample_dbg 2) None
      = Inr (d', out')"
    using update_thread_list_returns [of "[6, 5]" "sample_dbg 2" flat_mach] by (fastforce simp: sample_dbg_def)
  moreover have "threads (sample_dbg 2) \<noteq> []" by (simp add: sample_dbg_def)
  ultimately show ?thesis using thread_list_renewed [of "sample_dbg 2" flat_mach "sample_thread 0 False 0" "[6, 5]" None d' out']
    by blast
qed

section \<open>Memory\<close>

section \<open>Registers\<close>

text \<open>
  C16 (roundtrip): a value written to a general purpose register is what a read shows: the text of the register is
  the value in hexadecimal. As a number, which an expression computes with, it stops at the largest signed
  64-bit number: from 2 to the 63rd on the register is not what was written.
\<close>

theorem register_written_reads_back:
  assumes "states_kept M" and "pl_get (threads d) a = Some t" and "length (ts_x (thread_state t)) = 29" and "0 \<le> n" "n < 29"
  shows "\<exists>d' d''. setreg M F a (Some (CHR ''x'' # show_dec n)) (Some (show_dec (sint v))) None d = Inr (d', None) \<and>
    regtol M a HEXADECIMAL (Some (CHR ''$'' # CHR ''x'' # show_dec n)) None d' =
      Inr (d'', saturate (uint v), \<lparr>outtype = LONG, regstr = Some (show_hex v), cleanedreg = Some (CHR ''x'' # show_dec n),
        valstr = Some (show_hex v)\<rparr>, None)"
  by (rule x_register_written [OF assms])

theorem register_written_reads_back_witness:
  "\<exists>d' d''. setreg state_mach sample_fpenv 1 (Some (CHR ''x'' # show_dec 7)) (Some (show_dec (sint (- 2 :: u64)))) None state_dbg = Inr (d', None) \<and>
    regtol state_mach 1 HEXADECIMAL (Some (CHR ''$'' # CHR ''x'' # show_dec 7)) None d' =
      Inr (d'', saturate (uint (- 2 :: u64)), \<lparr>outtype = LONG, regstr = Some (show_hex (- 2)),
        cleanedreg = Some (CHR ''x'' # show_dec 7), valstr = Some (show_hex (- 2))\<rparr>, None)"
  by (rule register_written_reads_back [OF state_mach_keeps state_dbg_thread(1,2)]) simp_all



section \<open>Symbols\<close>

text \<open>
  C18 (functional): over all images that are loaded at or below an address, the lookup gives the symbol with
  the greatest start at or below it, however many images and symbols there are: the search by halves in
  each image, the sorting of the candidates and the search among them find the nearest one.
\<close>

theorem nearest_symbol_found:
  assumes "qsort_sorts qs" and "\<forall>e \<in> set es. entry_ok e" "length es < 2 ^ 31"
    and "t0 \<in> considered v es" "sym_func_start t0 \<le> v"
  shows "\<exists>gc. find_symbol qs es v = Inr (Some gc) \<and>
    gc_entry gc \<in> set es \<and> gc_sym gc \<in> set (entry_syms (gc_entry gc)) \<and> load_addr (gc_entry gc) \<le> v \<and>
    sym_func_start (gc_sym gc) \<le> v \<and>
    (\<forall>t \<in> considered v es. sym_func_start t \<le> v \<longrightarrow> sym_func_start t \<le> sym_func_start (gc_sym gc))"
  by (rule nearest_symbol [OF assms])

theorem nearest_symbol_found_witness:
  "\<exists>gc. find_symbol sort_combos sample_images 0x1200 = Inr (Some gc) \<and> sym_func_start (gc_sym gc) = 0x1100"
proof -
  have "sample_sym 0x1100 \<in> considered 0x1200 sample_images" by (simp add: sample_considered)
  from nearest_symbol_found [OF sort_combos_sorts sample_images_ok _ this] obtain gc where
    gc: "find_symbol sort_combos sample_images 0x1200 = Inr (Some gc)"
      "gc_entry gc \<in> set sample_images" "gc_sym gc \<in> set (entry_syms (gc_entry gc))"
      "sym_func_start (gc_sym gc) \<le> 0x1200"
      "\<forall>t \<in> considered 0x1200 sample_images. sym_func_start t \<le> 0x1200 \<longrightarrow> sym_func_start t \<le> sym_func_start (gc_sym gc)"
    by (auto simp: sample_sym_start sample_images_def)
  from gc(2,3) have "sym_func_start (gc_sym gc) \<in> {0x1000, 0x1100, 0x1400, 0x8000, 0x9000}"
    by (auto simp: sample_images_def sample_entry_syms sample_sym_start)
  with gc(4,5) have "sym_func_start (gc_sym gc) = 0x1100"
    unfolding sample_considered by (auto simp: sample_sym_start)
  with gc(1) show ?thesis by blast
qed

text \<open>
  C19 (functional): the table of an image shows its functions. When the load commands name the list of function starts, the
  distances in it (each below 2^31, padded with zeros) give one symbol each, in their order: it starts where the distances
  so far lead, slid as the image is, reaches to the next, the last one to the end of the text segment, and is named exactly
  when a symbol table has its address. While the starts stay in the lower half of the address space the table is one the
  search for an address can be used on.
\<close>

theorem image_table_built:
  assumes "get_cmds M E k la = Inr (Some F)" and "cmd_field (text_seg_cmd F) 24 8 = Inr ta" and "cmd_field (text_seg_cmd F) 32 8 = Inr sz"
    and "cmd_field (fxn_start_cmd F) 8 4 = Inr dataoff" and "cmd_field (fxn_start_cmd F) 12 4 = Inr datasize"
    and "fxn_bytes E img D (is_dsc_image la ms) dataoff datasize = Inr (Some (concat (map uleb (ds @ replicate z 0)) @ rest))"
    and "unat datasize = length (concat (map uleb (ds @ replicate z 0)))"
    and "\<forall>d \<in> set ds. 0 < d \<and> d < 2 ^ 31" and "length ds < 2 ^ 31" and "ds \<noteq> []"
    and "read_nlists M E k D img la (is_dsc_image la ms) F paths = Inr (Some ws)"
    and "sorts_nlists E" and "searches_nlists E" and "dsc_symname (sym_fresh E) \<noteq> UNNAMED_SYMBOL"
  shows "\<exists>cnt1 e. create_sym_entry_for_image M E k D img la ms paths cnt = Inr (cnt1, Some e) \<and> load_addr e = la \<and>
    image_shown ws (fxn_table (la - ta) ta sz ds) e \<and> (unat la + sum_list ds < 2 ^ 63 \<longrightarrow> entry_ok e)"
  by (rule image_table [OF assms])

theorem image_table_built_witness:
  "\<exists>cnt1 e. create_sym_entry_for_image frame_mach sample_image_env image_mem None ''app'' 0x5000 [] array_new 1 = Inr (cnt1, Some e) \<and>
    load_addr e = 0x5000 \<and> image_shown sample_names (fxn_table (0x5000 - 0x1000) 0x1000 0x800 [0x10, 0x200]) e \<and>
    (unat (0x5000 :: u64) + sum_list [0x10, 0x200] < 2 ^ 63 \<longrightarrow> entry_ok e)"
  by (rule image_table_built [OF sample_get_cmds sample_fields(1-4) sample_fxn_bytes _ _ _ sample_read_nlists sample_sorts sample_searches])
    (simp_all add: sample_image_env_def)

section \<open>Locations of variables\<close>


definition sample_loc :: "u8 \<Rightarrow> u64 \<Rightarrow> locdesc" where
  "sample_loc oper opd = create_location_description LOCATION_EXPRESSION 0 0 oper opd 0 0 0"


text \<open>
  C21 (termination): a location whose jumps, if it has any, all go forward is evaluated in finitely many
  steps: to a value, or to a fault.
\<close>

theorem dwarf_forward_ends:
  assumes "forward_only locs"
  shows "\<exists>r. decode_location_description M d cv rg fb locs out = Some r"
  using forward_ends [OF assms, of M d cv rg fb out] by blast

theorem dwarf_forward_ends_witness:
  "\<exists>r. decode_location_description flat_mach (sample_dbg 6) (\<lambda>_. None) None None
     [sample_loc DW_OP_lit0 0, sample_loc DW_OP_bra 2, sample_loc DW_OP_skip 1, sample_loc DW_OP_lit31 0] None = Some r"
  by (rule dwarf_forward_ends)
     (simp add: forward_only_def sample_loc_def create_location_description_def create_new_locdesc_def skip_of_def)

text \<open>
  C22 (termination): reading a DWARF file ends. If from the entry of each unit on, the children and siblings come to an
  end, and so do the chains from their types to the types these are made of, with their dimensions and parameters, there is
  a result, an error, a file or a fault, and more rounds do not change it. Nothing else is asked of what libdwarf gives.
\<close>

theorem dwarf_reading_ends:
  assumes "\<forall>u\<in>set (dw_units dw). unit_ends dw u"
  shows "\<exists>k r. r \<noteq> Inl Diverges \<and> (\<forall>n\<ge>k. sym_init_with_dwarf_file n opened (DW_DLV_OK dw) counts = r)"
  using reading_ends [OF assms] unfolding ends_def .

theorem dwarf_reading_ends_witness:
  "\<exists>k r. r \<noteq> Inl Diverges \<and> (\<forall>n\<ge>k. sym_init_with_dwarf_file n 3 (DW_DLV_OK sample_dwarf) no_counts = r)"
  by (rule dwarf_reading_ends [OF sample_units_end])



text \<open>
  C24 (safety): closing a DWARF file gives its trees back, each block once. Every entry below the root of a unit is freed, also
  the root, none twice, as none is used after it; no other block is touched, so that what was lost when the trees were built
  stays. The descriptor that is closed is 0, whatever the file was opened as.
\<close>

theorem dwarf_file_released:
  assumes "sym_init_with_dwarf_file n opened inited counts = Inr (Inr I)"
  shows "\<exists>T. sym_end (Some I) = Inr (Some (T, 0)) \<and> length (dt_blocks T) = length (di_blocks I) \<and>
    (\<forall>j. dt_blocks T ! j = (if \<exists>cu\<in>set (di_compunits I). \<exists>r. cu_root_die cu = Some r \<and> below (di_blocks I) r j
                            then None else di_blocks I ! j))"
  by (rule file_released [OF assms])

theorem dwarf_file_released_witness:
  "\<exists>T. sym_end (Some sample_info) = Inr (Some (T, 0)) \<and> length (dt_blocks T) = length (di_blocks sample_info) \<and>
    (\<forall>j. dt_blocks T ! j = (if \<exists>cu\<in>set (di_compunits sample_info). \<exists>r. cu_root_die cu = Some r \<and> below (di_blocks sample_info) r j
                            then None else di_blocks sample_info ! j))"
  by (rule dwarf_file_released [OF sample_info_loaded(1)])

section \<open>The session\<close>



text \<open>
  C26 (refinement): when the list of threads has changed, every hardware breakpoint and every watchpoint for a
  single thread is for the thread that has its system-wide ID: under that thread's number, which is corrected where
  it differs, and deleted when there is no such thread. The others stay as they are, and no register is
  accessed out of bounds.
\<close>

theorem points_follow_threads:
  assumes "kernel_ok M" and "dbg_inv d" and "ids_ok (threads d)"
  shows "\<exists>d' out'. adjust_bps_and_wps M (d, out) = Inr (d', out') \<and> dbg_inv d' \<and> idents (threads d') = idents (threads d) \<and>
    breakpoints d' = settle_all (settle_bp (threads d)) (breakpoints d) \<and>
    watchpoints d' = settle_all (settle_wp (threads d)) (watchpoints d)"
  by (rule adjusted [OF assms])

theorem points_follow_threads_witness:
  "\<exists>d' out'. adjust_bps_and_wps count_mach (follow_dbg, None) = Inr (d', out') \<and> dbg_inv d' \<and>
    idents (threads d') = idents (threads follow_dbg) \<and>
    breakpoints d' = [(3, point_for 1 0 2 6)] \<and> watchpoints d' = settle_all (settle_wp (threads follow_dbg)) []"
  using points_follow_threads [OF count_ok(1) follow_ok, of None] follow_settled
  by (simp add: count_env_def follow_dbg_def count_dbg_def)



section \<open>Commands\<close>



text \<open>
  C29 (error): without a count the search never ends: it is meant to end at the first error, but a read reports a success
  also when it fails, and the limit is the largest signed number, behind which the position wraps.
\<close>

theorem memory_search_never_ends:
  assumes "kernel_ok (mc (de T))"
  shows "search_from T C start LONG_MIN (Some bs) S out e = Inl Diverges"
  by (rule search_unending [OF assms])

theorem memory_search_never_ends_witness:
  "search_from frame_env sample_cenv 0x1000 LONG_MIN (Some [0x44]) (frame_sess two_frames) None None = Inl Diverges"
  by (rule memory_search_never_ends [OF frame_ok(1)])

text \<open>
  C30 (functional): a backtrace shows the program counter, the link register, and the return addresses of the frames from
  the frame pointer on, numbered in their order, up to the frame without a successor.
\<close>

theorem backtrace_lists_frames:
  assumes "suspended T S" "get_focused_thread (db S) = Some (a, t0)"
    and "d = snd (get_thread_state (mc (de T)) (Some a) (db S))" "pl_get (threads d) a = Some t"
    and "flat_mem (mc (de T)) mem" and "frame_chain (mem (kern d)) (ts_fp (thread_state t)) vs" and "symtab (de T) = None"
  shows "\<exists>out'. cmdfunc_backtrace T C S out e = Inr (CMD_SUCCESS, S\<lparr>db := d\<rparr>, concat_c out'
      (concat ['' - cannot unwind past frame '', show_dec (int (length vs) + 1), '' -'', nl]), e) \<and>
    shown_frames (de T) d 2 vs (concat_c (concat_c (concat_c (concat_c out (concat [''  * frame #0: '', ''0x'',
        hex_pad 16 (uint (ts_pc (thread_state t)))])) nl)
        (concat [''    frame #1: '', ''0x'', hex_pad 16 (uint (ts_lr (thread_state t)))])) nl) = Inr out'"
  by (rule backtrace_chain [OF assms])

theorem backtrace_lists_frames_witness:
  "\<exists>d out'. cmdfunc_backtrace frame_env sample_cenv (frame_sess two_frames) None None = Inr (CMD_SUCCESS, (frame_sess two_frames)\<lparr>db := d\<rparr>,
      concat_c out' (concat ['' - cannot unwind past frame '', show_dec (int (length [0x44 :: u64]) + 1), '' -'', nl]), None) \<and>
    shown_frames (de frame_env) d 2 [0x44] (concat_c (concat_c (concat_c (concat_c None (concat [''  * frame #0: '', ''0x'',
        hex_pad 16 (uint (ts_pc (thread_state frame_thread)))])) nl)
        (concat [''    frame #1: '', ''0x'', hex_pad 16 (uint (ts_lr (thread_state frame_thread)))])) nl) = Inr out'"
  by (rule exI, rule backtrace_lists_frames [OF frame_ok(3) frame_focus(1) refl frame_focus(2) frame_ok(2) _ frame_ok(4)])
    (simp add: frame_focus(3) [unfolded One_nat_def] frame_thread_def zero_ts_def two_frames_chain)

text \<open>
  C31 (error): on frames that lead back to each other, as a frame that is its own successor, the backtrace never ends, and
  the command does not return.
\<close>

theorem backtrace_of_loop_never_ends:
  assumes "suspended T S" "get_focused_thread (db S) = Some (a, t0)"
    and "d = snd (get_thread_state (mc (de T)) (Some a) (db S))" "pl_get (threads d) a = Some t"
    and "flat_mem (mc (de T)) mem" and "frame_loop (mem (kern d)) A" "ts_fp (thread_state t) \<in> A" and "symtab (de T) = None"
  shows "cmdfunc_backtrace T C S out e = Inl Diverges"
  by (rule backtrace_loop [OF assms])

theorem backtrace_of_loop_never_ends_witness:
  "cmdfunc_backtrace frame_env sample_cenv (frame_sess own_frame) None None = Inl Diverges"
  by (rule backtrace_of_loop_never_ends [OF frame_ok(3) frame_focus(1) refl frame_focus(2) frame_ok(2) _ _ frame_ok(4), where A = "{0x1000}"])
    (simp_all add: frame_focus(3) [unfolded One_nat_def] frame_thread_def zero_ts_def own_frame_loop)

text \<open>
  C32 (functional): the slide of the target is where the header of its executable is in memory less the address its text
  segment was linked for, however many regions come before the header and load commands before the segment; what is read
  of a command after its block was freed is taken to be still there.
\<close>

theorem slide_found_from_header:
  assumes "flat_mem M mem" "length (fresh_block V 72) = 72" "\<And>seg. ucast (freed_cmdsize V seg) = field 4 4 seg"
    and "header_from (vm_region_recurse V) (mem k) k t 0 h" "h \<noteq> 0"
    and "text_at (mem k) (unat (field 16 4 (bytes_at (mem k) h 32))) (h + 32) v"
  shows "find_slide M V k t = Inr (h - v)"
  by (rule slide_found [OF assms])

theorem slide_found_from_header_witness:
  "find_slide flat_mach image_regions image_bytes 7 = Inr (0x4000 - 0x1000)"
proof (rule slide_found_from_header [OF flat_mach_ok(2)])
  show "ucast (freed_cmdsize image_regions seg) = field 4 4 seg" for seg by (simp add: image_regions_def freed_field)
  show "header_from (vm_region_recurse image_regions) image_bytes image_bytes 7 0 0x4000"
    by (rule header_here [where sz = "0x4000"]) (simp_all add: image_regions_def image_fields)
  have "text_at image_bytes (Suc 0) 0x4020 (field 24 8 (bytes_at image_bytes 0x4020 72))"
    by (rule text_here) (simp_all add: image_fields)
  then show "text_at image_bytes (unat (field 16 4 (bytes_at image_bytes 0x4000 32))) (0x4000 + 32) 0x1000"
    by (simp add: image_fields)
qed (simp_all add: image_regions_def)

section \<open>The command line\<close>




text \<open>
  C35 (safety): while nothing is debugged no line touches a target. However many lines are entered, with aliases,
  abbreviations, ambiguous and unknown words and any arguments, the state of the kernel, the threads, the points and the
  replies to the target stay as they were, unless the line attaches.
\<close>

theorem idle_lines_touch_nothing:
  assumes "enter_lines I ls P = Inr P1" and "info_ok (rl P)" and "nothing_debugged (ses (sh P))" and "pid (ses (sh P1)) = - 1"
  shows "target_of (ses (sh P1)) = target_of (ses (sh P))"
  by (rule lines_idle [OF assms])

theorem idle_lines_touch_nothing_witness:
  "\<exists>P1. enter_lines sample_ienv [''b list'', ''xyz''] sample_top = Inr P1 \<and> pid (ses (sh P1)) = - 1 \<and>
    target_of (ses (sh P1)) = target_of (ses (sh sample_top))"
proof -
  obtain P1 where "enter_lines sample_ienv [''b list'', ''xyz''] sample_top = Inr P1" "pid (ses (sh P1)) = - 1"
    using sample_lines by blast
  with idle_lines_touch_nothing [OF this(1) sample_idle this(2)] show ?thesis by blast
qed

text \<open>
  C36 (error): a line without words carries out what was completed last. After a tab completed the beginning of a
  command's name, the match is kept, and a line of blanks finds no word to replace it: it is carried out as the name
  of that command.
\<close>

theorem blank_line_runs_completed:
  assumes "rl_line_buffer R = w" and "word_ok w" and "starting w COMMANDS = [c]" and "cname c \<noteq> ''help''"
    and "\<not> LINE_MODIFIED R" and "\<not> IS_HELP_COMMAND R" and "strclean l = []"
  shows "\<exists>R1. rl_getc I (CHR 0x09) R = Inr R1 \<and>
    do_cmdline_command I l u (R1\<lparr>rl_line_buffer := b\<rparr>) H out e =
      bind_run (by_meaning I [] (Names c []) (R1\<lparr>rl_line_buffer := []\<rparr>) H out e) (\<lambda>oc. Inr ([], reset_line u [] oc))"
  using completed [OF assms(1-6), of I] blank_line [OF assms(7), of "R\<lparr>CURRENT_MATCH_INFO := match_info_of c, rl_line_buffer := b\<rparr>" c I u H out e]
  by simp

theorem blank_line_runs_completed_witness:
  "\<exists>R1. rl_getc sample_ienv (CHR 0x09) (typed ''cont'') = Inr R1 \<and>
    do_cmdline_command sample_ienv '' '' True (R1\<lparr>rl_line_buffer := '' ''\<rparr>) sample_shell None None =
      bind_run (by_meaning sample_ienv [] (Names continue_cmd []) (R1\<lparr>rl_line_buffer := []\<rparr>) sample_shell None None)
        (\<lambda>oc. Inr ([], reset_line True [] oc))"
proof (rule blank_line_runs_completed)
  show "rl_line_buffer (typed ''cont'') = ''cont''" "\<not> LINE_MODIFIED (typed ''cont'')" "\<not> IS_HELP_COMMAND (typed ''cont'')"
    by (simp_all add: typed_def)
  show "word_ok ''cont''" by (simp add: word_ok_def)
  show "starting ''cont'' COMMANDS = [continue_cmd]" by (rule starting_cont)
  show "cname continue_cmd \<noteq> ''help''" by (simp add: continue_cmd_def make_defs)
  show "strclean '' '' = []" by code_simp
qed

section \<open>Branch instructions\<close>

text \<open>
  C37 (functional): the decoder reads back what the architecture encodes: conditional branches,
  branches with and without link, compare and branch, and branches to a register.
\<close>

theorem branches_decoded:
  "is_branch (enc_b_cond i c) = Inr (Some \<lparr>kind = COND_BRANCH_IMMEDIATE, conditional = 1, cond = cond_of c,
      imm = scast i * 4, rn = birn_NONE, is_subroutine_call = 0\<rparr>) \<and>
   is_branch (enc_b l j) = Inr (Some \<lparr>kind = UNCOND_BRANCH_IMMEDIATE, conditional = 0, cond = UNKNOWN_COND,
      imm = scast j * 4, rn = birn_NONE, is_subroutine_call = ucast l\<rparr>) \<and>
   is_branch (enc_cb sf op i rt) = Inr (Some \<lparr>kind = COMP_AND_BRANCH_IMMEDIATE, conditional = 0,
      cond = UNKNOWN_COND, imm = scast i * 4, rn = ucast rt + (if sf = 0 then 32 else 0), is_subroutine_call = 0\<rparr>) \<and>
   is_branch (enc_br opc r) = Inr (Some \<lparr>kind = UNCOND_BRANCH_REGISTER, conditional = 0,
      cond = UNKNOWN_COND, imm = INT_MAX, rn = ucast r,
      is_subroutine_call = (if opc = 1 \<or> opc = 9 then 1 else 0)\<rparr>)"
  by (simp only: decode_b_cond decode_b decode_cb decode_br)

text \<open>
  C38 (bounds): a test-and-branch is recognised with its register, but its 14-bit offset is cut to nine
  bits: the decoded offset is right exactly when the encoded one is below 512.
\<close>

theorem test_and_branch_offset:
  "\<exists>off. is_branch (enc_tb sf op hi i rt) = Inr (Some \<lparr>kind = TEST_AND_BRANCH_IMMEDIATE, conditional = 0,
      cond = UNKNOWN_COND, imm = off, rn = ucast rt + (if sf = 0 then 32 else 0), is_subroutine_call = 0\<rparr>) \<and>
    (off = scast i * 4 \<longleftrightarrow> unat i < 512)"
  using tb_offset [of i] by (simp add: decode_tb)

section \<open>Convenience variables\<close>




section \<open>Containers and strings\<close>

text \<open>
  C40 (refinement): deleting from a linked list on the heap of nodes removes the first occurrence of
  the element and keeps the nodes a well-formed list; the walk ends.
\<close>

theorem linkedlist_delete_removes:
  assumes "list_at h p ps xs"
  shows "\<exists>h' p' ps'. linkedlist_delete h p (Some d) = Some (h', p') \<and> list_at h' p' ps' (remove1 (Some d) xs)"
  using linkedlist_delete_refines [OF assms, of "Some d"] by (simp add: ll_delete_def)

theorem linkedlist_delete_removes_witness:
  "\<exists>h' p' ps'. linkedlist_delete [1 \<mapsto> \<lparr>ndata = Some (5::int), nnext = 2\<rparr>, 2 \<mapsto> \<lparr>ndata = Some 7, nnext = 0\<rparr>] 1 (Some 7)
     = Some (h', p') \<and> list_at h' p' ps' (remove1 (Some 7) [Some 5, Some 7])"
  by (rule linkedlist_delete_removes [of _ _ "[1, 2]"]) (simp add: list_at_def)

end
